(* ===== verification/Prelude.thy ===== *)
theory Prelude
  imports Main
    "HOL-Library.Word"
    "HOL-Library.Char_ord"
    "HOL-Library.List_Lexorder"
    "HOL-Library.Product_Lexorder"
    "HOL-Library.Multiset"
    "HOL-Library.Sublist"
begin

text \<open>
  What every component of the development shares: Rust's \<open>Result\<close> with the
  \<open>?\<close> operator, panics as values, checked and saturating machine arithmetic, loops
  over a collection that stop at the first error, sorting by a derived order, and the
  locale of transition systems with an inductive invariant.

  Conventions.  A Rust \<open>str\<close> or byte slice is a \<^typ>\<open>string\<close> holding its UTF-8
  bytes, so \<open>length\<close> is Rust's \<open>len\<close> and the order of \<open>List_Lexorder\<close> over
  \<open>Char_ord\<close> is Rust's byte order.  \<open>u8\<close>, \<open>u16\<close>, \<open>u32\<close>, \<open>u64\<close> and
  \<open>u128\<close> are words of that width.  \<open>usize\<close> only counts elements of objects that are
  in memory and is a \<^typ>\<open>nat\<close>.
\<close>

section \<open>Machine integers\<close>

type_synonym u8 = "8 word"
type_synonym u16 = "16 word"
type_synonym u32 = "32 word"
type_synonym u64 = "64 word"
type_synonym u128 = "128 word"

named_theorems arith_ops "definitions of the checked and saturating operations"
named_theorems result_simps "case analysis of results"

definition checked_add :: "'w::len word \<Rightarrow> 'w word \<Rightarrow> 'w word option" where
  [arith_ops]: "checked_add a b =
     (if unat a + unat b < 2 ^ LENGTH('w) then Some (a + b) else None)"

definition saturating_add :: "'w::len word \<Rightarrow> 'w word \<Rightarrow> 'w word" where
  [arith_ops]: "saturating_add a b =
     (if unat a + unat b < 2 ^ LENGTH('w) then a + b else - 1)"

definition saturating_sub :: "'w::len word \<Rightarrow> 'w word \<Rightarrow> 'w word" where
  [arith_ops]: "saturating_sub a b = (if a < b then 0 else a - b)"

text \<open>\<open>u32::try_from(n)\<close> on a \<open>usize\<close>, and the same with
  \<open>unwrap_or(MAX)\<close>.\<close>

definition try_word :: "nat \<Rightarrow> 'w::len word option" where
  [arith_ops]: "try_word n = (if n < 2 ^ LENGTH('w) then Some (of_nat n) else None)"

definition clamp_word :: "nat \<Rightarrow> 'w::len word" where
  [arith_ops]: "clamp_word n = (if n < 2 ^ LENGTH('w) then of_nat n else - 1)"

lemma unat_max_word: "unat (- 1 :: 'w::len word) = 2 ^ LENGTH('w) - 1"
  by (simp add: unsigned_minus_1_eq_mask mask_eq_exp_minus_1)

lemma unat_of_nat_small: "n < 2 ^ LENGTH('w) \<Longrightarrow> unat (of_nat n :: 'w::len word) = n"
  by (simp add: unsigned_of_nat take_bit_nat_eq_self)

lemma unat_plus_small:
  fixes a b :: "'w::len word"
  assumes "unat a + unat b < 2 ^ LENGTH('w)"
  shows "unat (a + b) = unat a + unat b"
  using assms by (simp add: unat_word_ariths)

lemma checked_add_Some:
  fixes a b c :: "'w::len word"
  shows "checked_add a b = Some c \<longleftrightarrow> unat c = unat a + unat b"
proof
  assume "checked_add a b = Some c"
  then show "unat c = unat a + unat b"
    by (auto simp: checked_add_def unat_plus_small split: if_splits)
next
  assume c: "unat c = unat a + unat b"
  then have small: "unat a + unat b < 2 ^ LENGTH('w)"
    by (metis unsigned_less)
  then have "unat (a + b) = unat c"
    by (simp add: c unat_plus_small)
  then have "a + b = c" by (metis word_unat_eq_iff)
  with small show "checked_add a b = Some c" by (simp add: checked_add_def)
qed

lemma checked_add_None:
  fixes a b :: "'w::len word"
  shows "checked_add a b = None \<longleftrightarrow> 2 ^ LENGTH('w) \<le> unat a + unat b"
  by (auto simp: checked_add_def)

lemma unat_saturating_add:
  fixes a b :: "'w::len word"
  shows "unat (saturating_add a b) = min (2 ^ LENGTH('w) - 1) (unat a + unat b)"
proof (cases "unat a + unat b < 2 ^ LENGTH('w)")
  case True
  then show ?thesis by (simp add: saturating_add_def unat_plus_small)
next
  case False
  then show ?thesis by (simp add: saturating_add_def unat_max_word)
qed

lemma saturating_add_ge: "a \<le> saturating_add a (b :: 'w::len word)"
proof -
  have "unat a < 2 ^ LENGTH('w)" by simp
  then have "unat a \<le> unat (saturating_add a b)"
    unfolding unat_saturating_add by linarith
  then show ?thesis by (simp add: word_le_nat_alt)
qed

lemma saturating_add_exact:
  fixes a b m :: "'w::len word"
  shows "unat a + unat b \<le> unat m \<Longrightarrow> unat (saturating_add a b) = unat a + unat b"
  using unsigned_less [of m, where ?'a = nat] unfolding unat_saturating_add by linarith

lemma clamp_word_small:
  "n < 2 ^ LENGTH('w) \<Longrightarrow> unat (clamp_word n :: 'w::len word) = n"
  by (simp add: clamp_word_def unat_of_nat_small)

lemma try_word_Some:
  "try_word n = Some (w :: 'w::len word) \<longleftrightarrow> unat w = n"
proof
  assume "try_word n = Some w"
  then show "unat w = n"
    by (auto simp: try_word_def unat_of_nat_small split: if_splits)
next
  assume "unat w = n"
  then show "try_word n = Some w"
    by (auto simp: try_word_def)
qed

section \<open>Results, panics and early returns\<close>

text \<open>
  \<open>Result<T, E>\<close> is \<open>'e + 'a\<close> with \<^const>\<open>Inl\<close> for \<open>Err\<close>.  Where the source
  can panic, the error side is a \<open>'e fault\<close>: a returned error, or the panic.
\<close>

datatype 'e fault = Returned 'e | Panicked

text \<open>The \<open>?\<close> operator.\<close>

definition and_then :: "'e + 'a \<Rightarrow> ('a \<Rightarrow> 'e + 'b) \<Rightarrow> 'e + 'b" where
  "and_then m f = (case m of Inl e \<Rightarrow> Inl e | Inr x \<Rightarrow> f x)"

lemma and_then_simps [simp]:
  "and_then (Inl e) f = Inl e"
  "and_then (Inr x) f = f x"
  by (simp_all add: and_then_def)

lemma and_then_Inr [result_simps]:
  "and_then m f = Inr y \<longleftrightarrow> (\<exists>x. m = Inr x \<and> f x = Inr y)"
  by (cases m) auto

lemma and_then_Inl [result_simps]:
  "and_then m f = Inl e \<longleftrightarrow> m = Inl e \<or> (\<exists>x. m = Inr x \<and> f x = Inl e)"
  by (cases m) auto

lemma and_then_cong [fundef_cong]:
  "m = m' \<Longrightarrow> (\<And>x. m' = Inr x \<Longrightarrow> f x = f' x) \<Longrightarrow> and_then m f = and_then m' f'"
  by (cases m') auto

text \<open>\<open>map_err\<close>, and an \<open>Option\<close> turned into a \<open>Result\<close> by \<open>ok_or\<close>.\<close>

definition map_err :: "('e \<Rightarrow> 'f) \<Rightarrow> 'e + 'a \<Rightarrow> 'f + 'a" where
  "map_err g m = (case m of Inl e \<Rightarrow> Inl (g e) | Inr x \<Rightarrow> Inr x)"

definition ok_or :: "'e \<Rightarrow> 'a option \<Rightarrow> 'e + 'a" where
  "ok_or e m = (case m of None \<Rightarrow> Inl e | Some x \<Rightarrow> Inr x)"

lemma map_err_simps [simp]:
  "map_err g (Inl e) = Inl (g e)"
  "map_err g (Inr x) = Inr x"
  by (simp_all add: map_err_def)

lemma map_err_Inr [result_simps]: "map_err g m = Inr x \<longleftrightarrow> m = Inr x"
  by (cases m) auto

lemma map_err_Inl [result_simps]: "map_err g m = Inl f \<longleftrightarrow> (\<exists>e. m = Inl e \<and> f = g e)"
  by (cases m) auto

lemma ok_or_simps [simp]:
  "ok_or e None = Inl e"
  "ok_or e (Some x) = Inr x"
  by (simp_all add: ok_or_def)

lemma ok_or_Inr [result_simps]: "ok_or e m = Inr x \<longleftrightarrow> m = Some x"
  by (cases m) auto

lemma ok_or_Inl [result_simps]: "ok_or e m = Inl f \<longleftrightarrow> m = None \<and> f = e"
  by (cases m) auto

text \<open>\<open>if condition { return Err(e) }\<close>.\<close>

definition reject_if :: "bool \<Rightarrow> 'e \<Rightarrow> 'e + unit" where
  "reject_if b e = (if b then Inl e else Inr ())"

lemma reject_if_simps [simp]:
  "reject_if True e = Inl e"
  "reject_if False e = Inr ()"
  by (simp_all add: reject_if_def)

lemma reject_if_Inr [result_simps]: "reject_if b e = Inr u \<longleftrightarrow> \<not> b"
  by (cases b) (auto simp: reject_if_def)

lemma reject_if_Inl [result_simps]: "reject_if b e = Inl f \<longleftrightarrow> b \<and> f = e"
  by (cases b) (auto simp: reject_if_def)

text \<open>
  A method through \<open>&mut self\<close> returns its result together with the state it leaves,
  also where it returns an error.  \<open>and_run\<close> is \<open>?\<close> on such a call, \<open>and_lift\<close> is
  \<open>?\<close> on a call that only reads.
\<close>

definition and_run ::
    "('e + 'a) \<times> 's \<Rightarrow> ('a \<Rightarrow> 's \<Rightarrow> ('e + 'b) \<times> 's) \<Rightarrow> ('e + 'b) \<times> 's" where
  "and_run m f = (case m of (Inl e, s) \<Rightarrow> (Inl e, s) | (Inr x, s) \<Rightarrow> f x s)"

definition and_lift :: "'e + 'a \<Rightarrow> 's \<Rightarrow> ('a \<Rightarrow> ('e + 'b) \<times> 's) \<Rightarrow> ('e + 'b) \<times> 's" where
  "and_lift m s f = (case m of Inl e \<Rightarrow> (Inl e, s) | Inr x \<Rightarrow> f x)"

lemma and_run_simps [simp]:
  "and_run (Inl e, s) f = (Inl e, s)"
  "and_run (Inr x, s) f = f x s"
  by (simp_all add: and_run_def)

lemma and_lift_simps [simp]:
  "and_lift (Inl e) s f = (Inl e, s)"
  "and_lift (Inr x) s f = f x"
  by (simp_all add: and_lift_def)

lemma and_run_cases:
  assumes "and_run m f = (r, t)"
  obtains (error) e where "m = (Inl e, t)" and "r = Inl e"
    | (ok) x s where "m = (Inr x, s)" and "f x s = (r, t)"
  using assms by (cases m; cases "fst m") auto

lemma and_lift_cases:
  assumes "and_lift m s f = (r, t)"
  obtains (error) e where "m = Inl e" and "r = Inl e" and "t = s"
    | (ok) x where "m = Inr x" and "f x = (r, t)"
  using assms by (cases m) auto

text \<open>A \<open>for\<close> loop over a collection whose body may return early with an error.\<close>

fun try_fold :: "('a \<Rightarrow> 's \<Rightarrow> 'e + 's) \<Rightarrow> 'a list \<Rightarrow> 's \<Rightarrow> 'e + 's" where
  "try_fold f [] s = Inr s"
| "try_fold f (x # xs) s = and_then (f x s) (try_fold f xs)"

lemma try_fold_append:
  "try_fold f (xs @ ys) s = and_then (try_fold f xs s) (try_fold f ys)"
proof (induction xs arbitrary: s)
  case (Cons x xs)
  then show ?case by (cases "f x s") auto
qed simp

lemma try_fold_inv:
  assumes "try_fold f xs s = Inr t" and "I s"
    and "\<And>x s t. x \<in> set xs \<Longrightarrow> I s \<Longrightarrow> f x s = Inr t \<Longrightarrow> I t"
  shows "I t"
  using assms
proof (induction xs arbitrary: s)
  case Nil
  then show ?case by simp
next
  case (Cons x xs)
  from Cons.prems(1) obtain s' where s': "f x s = Inr s'" "try_fold f xs s' = Inr t"
    by (auto simp: result_simps)
  then have "I s'" using Cons.prems(2,3) by (meson list.set_intros(1))
  then show ?case
    using Cons.IH [OF s'(2)] Cons.prems(3) by (meson list.set_intros(2))
qed

text \<open>The same, when the invariant speaks of the elements already consumed.\<close>

lemma try_fold_inv_prefix:
  assumes "try_fold f xs s = Inr t" and "I [] s"
    and "\<And>ys x s t. prefix (ys @ [x]) xs \<Longrightarrow> I ys s \<Longrightarrow> f x s = Inr t \<Longrightarrow> I (ys @ [x]) t"
  shows "I xs t"
proof -
  have "I ys t" if "prefix ys xs" "try_fold f ys s = Inr t" for ys t
    using that
  proof (induction ys arbitrary: t rule: rev_induct)
    case Nil
    then show ?case using assms(2) by simp
  next
    case (snoc x ys)
    from snoc.prems(2) obtain s' where s': "try_fold f ys s = Inr s'" "f x s' = Inr t"
      by (auto simp: try_fold_append result_simps)
    moreover have "prefix ys xs"
      using snoc.prems(1) by (meson append_prefixD)
    ultimately show ?case
      using snoc.IH assms(3) snoc.prems(1) by blast
  qed
  then show ?thesis using assms(1) by simp
qed

text \<open>The loop succeeds where every step does under an invariant.\<close>

lemma try_fold_total:
  assumes "I [] s"
    and "\<And>ys x s. prefix (ys @ [x]) xs \<Longrightarrow> I ys s \<Longrightarrow> \<exists>t. f x s = Inr t \<and> I (ys @ [x]) t"
  shows "\<exists>t. try_fold f xs s = Inr t \<and> I xs t"
proof -
  have "\<exists>t. try_fold f ys s = Inr t \<and> I ys t" if "prefix ys xs" for ys
    using that
  proof (induction ys rule: rev_induct)
    case Nil
    then show ?case using assms(1) by simp
  next
    case (snoc x ys)
    then obtain s' where s': "try_fold f ys s = Inr s'" "I ys s'"
      by (meson append_prefixD)
    then obtain t where "f x s' = Inr t" "I (ys @ [x]) t"
      using assms(2) [OF snoc.prems] by blast
    with s' show ?case by (simp add: try_fold_append)
  qed
  then show ?thesis by simp
qed

lemma length_takeWhile_less:
  "x \<in> set xs \<Longrightarrow> \<not> P x \<Longrightarrow> length (takeWhile P xs) < length xs"
  by (induction xs) auto

section \<open>Derived orders\<close>

text \<open>
  A type with a derived \<open>Ord\<close> compares by a key built from its fields in declaration
  order.  Sorting by such a key does not depend on the order of the input.
\<close>

lemma sort_key_mset_cong:
  assumes "mset xs = mset ys" and "inj_on f (set xs)"
  shows "sort_key f xs = sort_key f ys"
proof (rule sort_key_inj_key_eq)
  show "mset xs = mset (sort_key f ys)" using assms(1) by simp
  show "inj_on f (set xs)" by (rule assms(2))
  show "sorted (map f (sort_key f ys))" by simp
qed

lemma distinct_map_mset:
  "mset xs = mset ys \<Longrightarrow> distinct (map f xs) = distinct (map f ys)"
  by (metis mset_eq_imp_distinct_iff mset_map)

lemma distinct_map_sort_key [simp]: "distinct (map f (sort_key g xs)) = distinct (map f xs)"
  by (rule distinct_map_mset) simp

lemma distinct_sorted_strict:
  "sorted xs \<Longrightarrow> distinct xs \<Longrightarrow> sorted_wrt (<) xs"
  by (simp add: strict_sorted_iff)

locale derived_order =
  fixes key :: "'a \<Rightarrow> 'k::linorder"
  assumes key_inj: "key x = key y \<Longrightarrow> x = y"
begin

lemma inj_on_key: "inj_on key A"
  by (rule inj_onI) (rule key_inj)

lemma sort_perm: "mset xs = mset ys \<Longrightarrow> sort_key key xs = sort_key key ys"
  by (rule sort_key_mset_cong) (auto simp: inj_on_key)

lemma sort_strict:
  assumes "distinct xs"
  shows "sorted_wrt (\<lambda>x y. key x < key y) (sort_key key xs)"
proof -
  have "sorted_wrt (<) (map key (sort_key key xs))"
    using assms by (intro distinct_sorted_strict) (simp_all add: distinct_map inj_on_key)
  then show ?thesis by (simp add: sorted_wrt_map)
qed

end

section \<open>Transition systems\<close>

text \<open>
  The stateful components are step relations between states, their reachable states
  the least set that holds the initial ones and is closed under steps.  A predicate
  that holds initially and is kept by every step holds in all of them.
\<close>

inductive reachable :: "('s \<Rightarrow> bool) \<Rightarrow> ('s \<Rightarrow> 's \<Rightarrow> bool) \<Rightarrow> 's \<Rightarrow> bool"
  for initial :: "'s \<Rightarrow> bool" and step :: "'s \<Rightarrow> 's \<Rightarrow> bool" where
  reachable_init: "initial s \<Longrightarrow> reachable initial step s"
| reachable_step: "reachable initial step s \<Longrightarrow> step s t \<Longrightarrow> reachable initial step t"

locale transition_system =
  fixes initial :: "'s \<Rightarrow> bool" and step :: "'s \<Rightarrow> 's \<Rightarrow> bool" and inv :: "'s \<Rightarrow> bool"
  assumes inv_initial: "initial s \<Longrightarrow> inv s"
    and inv_step: "inv s \<Longrightarrow> step s t \<Longrightarrow> inv t"
begin

lemma reachable_inv: "reachable initial step s \<Longrightarrow> inv s"
  by (induction rule: reachable.induct) (auto intro: inv_initial inv_step)

lemma steps_inv: "step\<^sup>*\<^sup>* s t \<Longrightarrow> inv s \<Longrightarrow> inv t"
  by (induction rule: rtranclp_induct) (auto intro: inv_step)

end

text \<open>A measure that every step strictly decreases bounds the length of every run.\<close>

locale bounded_system = transition_system initial step inv
  for initial :: "'s \<Rightarrow> bool" and step :: "'s \<Rightarrow> 's \<Rightarrow> bool" and inv :: "'s \<Rightarrow> bool" +
  fixes fuel :: "'s \<Rightarrow> nat"
  assumes fuel_step: "inv s \<Longrightarrow> step s t \<Longrightarrow> fuel t < fuel s"
begin

lemma run_bound: "(step ^^ n) s t \<Longrightarrow> inv s \<Longrightarrow> n + fuel t \<le> fuel s \<and> inv t"
proof (induction n arbitrary: t)
  case 0
  then show ?case by simp
next
  case (Suc n)
  then obtain u where u: "(step ^^ n) s u" "step u t" by auto
  then have "n + fuel u \<le> fuel s" "inv u" using Suc by auto
  moreover have "fuel t < fuel u" "inv t"
    using fuel_step inv_step u(2) \<open>inv u\<close> by auto
  ultimately show ?case by simp
qed

end

end
