(* ===== verification/Ordered_Map.thy ===== *)
theory Ordered_Map
  imports Prelude
begin

text \<open>
  Rust's \<open>BTreeMap\<close> and \<open>BTreeSet\<close>.  The interface a client relies on is the locale
  \<open>ordered_map\<close>: lookup after insertion, and iteration in strictly increasing key
  order.  The provider is the list of entries in key order, interpreted at the end.
  A \<open>BTreeSet\<close> that is iterated is a strictly increasing list; one that is only
  tested for membership is a set.
\<close>

section \<open>The interface\<close>

text \<open>
  The loop body that builds a map and refuses a second entry for a key:
  \<open>if map.insert(f(x), x).is_some() { return Err(e) }\<close>.
\<close>

definition add_new ::
    "('k \<Rightarrow> 'v \<Rightarrow> 'm \<Rightarrow> 'm) \<Rightarrow> ('m \<Rightarrow> 'k \<Rightarrow> 'v option) \<Rightarrow> ('v \<Rightarrow> 'k) \<Rightarrow> 'e \<Rightarrow> 'v \<Rightarrow> 'm \<Rightarrow> 'e + 'm" where
  "add_new ins look f e x m =
     (if look m (f x) \<noteq> None then Inl e else Inr (ins (f x) x m))"

locale ordered_map =
  fixes empty :: "'m"
    and insert :: "'k::linorder \<Rightarrow> 'v \<Rightarrow> 'm \<Rightarrow> 'm"
    and lookup :: "'m \<Rightarrow> 'k \<Rightarrow> 'v option"
    and keys :: "'m \<Rightarrow> 'k list"
    and wf :: "'m \<Rightarrow> bool"
  assumes wf_empty: "wf empty"
    and lookup_empty: "lookup empty k = None"
    and wf_insert: "wf m \<Longrightarrow> wf (insert k v m)"
    and lookup_insert: "wf m \<Longrightarrow> lookup (insert k v m) = (lookup m)(k \<mapsto> v)"
    and keys_dom: "wf m \<Longrightarrow> set (keys m) = dom (lookup m)"
    and keys_sorted: "wf m \<Longrightarrow> sorted_wrt (<) (keys m)"
begin

lemma add_new_all:
  "wf m \<Longrightarrow> try_fold (add_new insert lookup f e) xs m = Inr m' \<Longrightarrow>
     wf m' \<and> distinct (map f xs) \<and> f ` set xs \<inter> dom (lookup m) = {} \<and>
     (\<forall>k. lookup m' k = (case find (\<lambda>x. f x = k) xs of Some x \<Rightarrow> Some x | None \<Rightarrow> lookup m k))"
proof (induction xs arbitrary: m)
  case Nil
  then show ?case by simp
next
  case (Cons x xs)
  from Cons.prems(2) have new: "lookup m (f x) = None"
    and rest: "try_fold (add_new insert lookup f e) xs (insert (f x) x m) = Inr m'"
    by (auto simp: add_new_def [of _ _ _ _ x m] split: if_splits)
  note IH = Cons.IH [OF wf_insert [OF Cons.prems(1)] rest]
  have out: "f x \<notin> f ` set xs"
    using IH Cons.prems(1) by (auto simp: lookup_insert)
  have "find (\<lambda>y. f y = f x) xs = None"
    using out unfolding find_None_iff by (metis imageI)
  then show ?case
    using IH new out Cons.prems(1)
    by (auto simp: lookup_insert dom_def split: option.splits)
qed

lemma add_new_all_error:
  "try_fold (add_new insert lookup f e) xs m = Inl e' \<Longrightarrow> e' = e"
proof (induction xs arbitrary: m)
  case (Cons x xs)
  then show ?case by (auto simp: add_new_def result_simps split: if_splits)
qed simp

lemma add_new_all_accepts:
  "wf m \<Longrightarrow> distinct (map f xs) \<Longrightarrow> f ` set xs \<inter> dom (lookup m) = {} \<Longrightarrow>
     \<exists>m'. try_fold (add_new insert lookup f e) xs m = Inr m'"
proof (induction xs arbitrary: m)
  case (Cons x xs)
  have "f ` set xs \<inter> dom (lookup (insert (f x) x m)) = {}"
    using Cons.prems by (auto simp: lookup_insert)
  moreover have "distinct (map f xs)" using Cons.prems(2) by simp
  ultimately obtain m' where "try_fold (add_new insert lookup f e) xs (insert (f x) x m) = Inr m'"
    using Cons.IH [OF wf_insert [OF Cons.prems(1)]] by blast
  moreover have "lookup m (f x) = None"
    using Cons.prems(3) by auto
  ultimately show ?case by (auto simp: add_new_def [of _ _ _ _ x m])
qed simp

lemma add_new_keys:
  assumes "try_fold (add_new insert lookup f e) xs empty = Inr m"
  shows "set (keys m) = f ` set xs"
proof -
  note all = add_new_all [OF wf_empty assms]
  have "k \<in> dom (lookup m) \<longleftrightarrow> k \<in> f ` set xs" for k
  proof -
    have "lookup m k = find (\<lambda>x. f x = k) xs"
      using all by (simp add: lookup_empty split: option.split)
    then have "lookup m k = None \<longleftrightarrow> (\<forall>x \<in> set xs. f x \<noteq> k)"
      by (auto simp: find_None_iff)
    then have "k \<in> dom (lookup m) \<longleftrightarrow> (\<exists>x \<in> set xs. f x = k)"
      by (simp add: domIff)
    then show ?thesis by (simp add: image_iff eq_commute [of k])
  qed
  then have "dom (lookup m) = f ` set xs" by (rule set_eqI)
  then show ?thesis using keys_dom [of m] all by metis
qed

end

section \<open>The provider: entries in key order\<close>

type_synonym ('k, 'v) btree = "('k \<times> 'v) list"

fun bt_insert :: "'k::linorder \<Rightarrow> 'v \<Rightarrow> ('k, 'v) btree \<Rightarrow> ('k, 'v) btree" where
  "bt_insert k v [] = [(k, v)]"
| "bt_insert k v ((k', v') # m) =
     (if k < k' then (k, v) # (k', v') # m
      else if k = k' then (k, v) # m
      else (k', v') # bt_insert k v m)"

text \<open>Assignment through \<open>get_mut\<close>: the entry of a key that is present.\<close>

definition bt_set :: "'k \<Rightarrow> 'v \<Rightarrow> ('k, 'v) btree \<Rightarrow> ('k, 'v) btree" where
  "bt_set k v m = map (\<lambda>(k', v'). (k', if k' = k then v else v')) m"

definition bt_keys :: "('k, 'v) btree \<Rightarrow> 'k list" where
  "bt_keys m = map fst m"

definition bt_values :: "('k, 'v) btree \<Rightarrow> 'v list" where
  "bt_values m = map snd m"

definition bt_wf :: "('k::linorder, 'v) btree \<Rightarrow> bool" where
  "bt_wf m \<longleftrightarrow> sorted_wrt (<) (map fst m)"

lemma set_fst_bt_insert: "fst ` set (bt_insert k v m) = insert k (fst ` set m)"
  by (induction k v m rule: bt_insert.induct) auto

lemma bt_wf_insert: "bt_wf m \<Longrightarrow> bt_wf (bt_insert k v m)"
  unfolding bt_wf_def
proof (induction k v m rule: bt_insert.induct)
  case (2 k v k' v' m)
  then show ?case
    by (auto simp: set_fst_bt_insert dest: less_trans)
qed simp

lemma map_of_bt_insert:
  "bt_wf m \<Longrightarrow> map_of (bt_insert k v m) = (map_of m)(k \<mapsto> v)"
proof (induction k v m rule: bt_insert.induct)
  case (2 k v k' v' m)
  have "bt_wf m" using 2(2) by (simp add: bt_wf_def)
  moreover have "map_of m k = None" if "k < k'"
  proof -
    have "k \<notin> fst ` set m"
      using 2(2) that by (fastforce simp: bt_wf_def)
    then show ?thesis by (simp add: map_of_eq_None_iff)
  qed
  ultimately show ?case using 2(1) by (auto simp: fun_eq_iff)
qed simp

lemma bt_wf_distinct: "bt_wf m \<Longrightarrow> distinct (map fst m)"
  by (simp add: bt_wf_def strict_sorted_iff)

interpretation bt: ordered_map "[]" bt_insert map_of bt_keys bt_wf
  by unfold_locales
    (auto simp: bt_wf_insert map_of_bt_insert bt_keys_def dom_map_of_conv_image_fst,
      simp_all add: bt_wf_def)

subsection \<open>Assignment to a present key\<close>

lemma bt_keys_set [simp]: "bt_keys (bt_set k v m) = bt_keys m"
  by (induction m) (auto simp: bt_keys_def bt_set_def)

lemma map_fst_bt_set [simp]: "map fst (bt_set k v m) = map fst m"
  by (induction m) (auto simp: bt_set_def)

lemma length_bt_set [simp]: "length (bt_set k v m) = length m"
  by (simp add: bt_set_def)

lemma bt_wf_set [simp]: "bt_wf (bt_set k v m) = bt_wf m"
  by (simp add: bt_wf_def)

lemma map_of_bt_set:
  "map_of (bt_set k v m) = (\<lambda>k'. if k' = k then map_option (\<lambda>_. v) (map_of m k) else map_of m k')"
  by (induction m) (auto simp: bt_set_def fun_eq_iff)

lemma sum_bt_set:
  assumes "distinct (map fst m)" and "map_of m k = Some u"
  shows "(\<Sum>v \<leftarrow> bt_values (bt_set k w m). (f v :: nat)) + f u =
    (\<Sum>v \<leftarrow> bt_values m. f v) + f w"
  using assms
proof (induction m)
  case (Cons p m)
  obtain k' v' where p: "p = (k', v')" by force
  show ?case
  proof (cases "k' = k")
    case True
    then have "bt_set k w m = m"
      using Cons.prems(1) p by (force simp: bt_set_def intro!: map_idI)
    then show ?thesis
      using Cons.prems True p by (simp add: bt_values_def bt_set_def)
  next
    case False
    then show ?thesis
      using Cons p by (simp add: bt_values_def bt_set_def)
  qed
qed simp

lemma length_filter_sum: "length (filter P xs) = (\<Sum>x \<leftarrow> xs. if P x then 1 else 0)"
  by (induction xs) auto

lemma count_bt_set:
  assumes "distinct (map fst m)" and "map_of m k = Some u"
  shows "length (filter P (bt_values (bt_set k w m))) + (if P u then 1 else 0) =
    length (filter P (bt_values m)) + (if P w then 1 else 0)"
  using sum_bt_set [OF assms, of "\<lambda>v. if P v then 1 else 0" w]
  by (simp add: length_filter_sum)

lemma map_of_in_values: "map_of m k = Some v \<Longrightarrow> v \<in> set (bt_values m)"
  by (force simp: bt_values_def dest: map_of_SomeD)

section \<open>Sets\<close>

definition bs_insert :: "'a::linorder \<Rightarrow> 'a list \<Rightarrow> 'a list" where
  "bs_insert x xs = (if x \<in> set xs then xs else insort x xs)"

lemma set_bs_insert [simp]: "set (bs_insert x xs) = insert x (set xs)"
  by (auto simp: bs_insert_def set_insort_key)

lemma bs_insert_not_Nil [simp]: "bs_insert x xs \<noteq> []"
  using set_bs_insert [of x xs] by (metis empty_not_insert list.set(1))

lemma distinct_bs_insert [simp]: "distinct (bs_insert x xs) = distinct xs"
  by (simp add: bs_insert_def distinct_insort)

lemma sorted_bs_insert: "sorted xs \<Longrightarrow> sorted (bs_insert x xs)"
  by (simp add: bs_insert_def sorted_insort)

definition insert_if :: "bool \<Rightarrow> 'a::linorder \<Rightarrow> 'a list \<Rightarrow> 'a list" where
  "insert_if b x xs = (if b then bs_insert x xs else xs)"

lemma insert_if_Nil [simp]: "insert_if b x xs = [] \<longleftrightarrow> \<not> b \<and> xs = []"
  by (simp add: insert_if_def)

lemma set_insert_if [simp]: "set (insert_if b x xs) = (if b then insert x (set xs) else set xs)"
  by (simp add: insert_if_def)

lemma length_bs_insert: "length (bs_insert x xs) \<le> Suc (length xs)"
  by (simp add: bs_insert_def)

lemma set_fold_bs_insert [simp]: "set (fold bs_insert xs ys) = set xs \<union> set ys"
  by (induction xs arbitrary: ys) auto

lemma distinct_fold_bs_insert [simp]: "distinct (fold bs_insert xs ys) = distinct ys"
  by (induction xs arbitrary: ys) auto

lemma length_fold_bs_insert: "length (fold bs_insert xs ys) \<le> length xs + length ys"
proof (induction xs arbitrary: ys)
  case (Cons x xs)
  have "length (fold bs_insert xs (bs_insert x ys)) \<le> length xs + length (bs_insert x ys)"
    by (rule Cons.IH)
  also have "\<dots> \<le> length (x # xs) + length ys"
    using length_bs_insert [of x ys] by simp
  finally show ?case by simp
qed simp

text \<open>
  The loop that refuses an element whose key was seen before:
  \<open>if !seen.insert(f(x)) { return Err(e) }\<close>.
\<close>

definition insert_new :: "('a \<Rightarrow> 'k) \<Rightarrow> 'e \<Rightarrow> 'a \<Rightarrow> 'k set \<Rightarrow> 'e + 'k set" where
  "insert_new f e x seen = (if f x \<in> seen then Inl e else Inr (insert (f x) seen))"

lemma insert_new_all:
  "try_fold (insert_new f e) xs seen =
     (if distinct (map f xs) \<and> f ` set xs \<inter> seen = {} then Inr (f ` set xs \<union> seen) else Inl e)"
  by (induction xs arbitrary: seen) (auto simp: insert_new_def)

end
