(* ===== verification/Text.thy ===== *)
theory Text
  imports Prelude
begin

text \<open>
  Rust's byte and string operations that the code uses, on UTF-8 byte lists: ASCII
  classes, the characters of a string and their Unicode classes, prefixes, splitting and
  big-endian integers.
\<close>

section \<open>Bytes\<close>

definition is_ascii_digit :: "char \<Rightarrow> bool" where
  "is_ascii_digit b \<longleftrightarrow> CHR ''0'' \<le> b \<and> b \<le> CHR ''9''"

definition is_ascii_lowercase :: "char \<Rightarrow> bool" where
  "is_ascii_lowercase b \<longleftrightarrow> CHR ''a'' \<le> b \<and> b \<le> CHR ''z''"

definition is_ascii_uppercase :: "char \<Rightarrow> bool" where
  "is_ascii_uppercase b \<longleftrightarrow> CHR ''A'' \<le> b \<and> b \<le> CHR ''Z''"

definition is_ascii_alphanumeric :: "char \<Rightarrow> bool" where
  "is_ascii_alphanumeric b \<longleftrightarrow>
     is_ascii_lowercase b \<or> is_ascii_uppercase b \<or> is_ascii_digit b"

definition is_ascii_control :: "char \<Rightarrow> bool" where
  "is_ascii_control b \<longleftrightarrow> b < CHR 0x20 \<or> b = CHR 0x7F"

definition is_ascii_graphic :: "char \<Rightarrow> bool" where
  "is_ascii_graphic b \<longleftrightarrow> CHR 0x21 \<le> b \<and> b \<le> CHR 0x7E"

definition to_ascii_lowercase :: "char \<Rightarrow> char" where
  "to_ascii_lowercase b =
     (if is_ascii_uppercase b then char_of (of_char b + 32 :: nat) else b)"

text \<open>The byte of a number below 256.\<close>

abbreviation byte :: "nat \<Rightarrow> char" where
  "byte \<equiv> char_of"

section \<open>Characters\<close>

text \<open>
  \<open>str::chars\<close>.  A Rust \<open>str\<close> is valid UTF-8, which the type guarantees, so the
  decoder does not check the continuation bytes.
\<close>

fun str_chars :: "string \<Rightarrow> nat list" where
  "str_chars [] = []"
| "str_chars (b0 # b1 # b2 # b3 # bs) =
     (let n = of_char b0 :: nat;
          c1 = of_char b1 mod 64; c2 = of_char b2 mod 64; c3 = of_char b3 mod 64
      in if n < 128 then n # str_chars (b1 # b2 # b3 # bs)
         else if n < 224 then ((n mod 32) * 64 + c1) # str_chars (b2 # b3 # bs)
         else if n < 240 then ((n mod 16) * 4096 + c1 * 64 + c2) # str_chars (b3 # bs)
         else ((n mod 8) * 262144 + c1 * 4096 + c2 * 64 + c3) # str_chars bs)"
| "str_chars [b0, b1, b2] =
     (let n = of_char b0 :: nat; c1 = of_char b1 mod 64; c2 = of_char b2 mod 64
      in if n < 128 then n # str_chars [b1, b2]
         else if n < 224 then ((n mod 32) * 64 + c1) # str_chars [b2]
         else [(n mod 16) * 4096 + c1 * 64 + c2])"
| "str_chars [b0, b1] =
     (let n = of_char b0 :: nat; c1 = of_char b1 mod 64
      in if n < 128 then n # str_chars [b1] else [(n mod 32) * 64 + c1])"
| "str_chars [b0] = [of_char b0]"

definition char_is_whitespace :: "nat \<Rightarrow> bool" where
  "char_is_whitespace c \<longleftrightarrow>
     9 \<le> c \<and> c \<le> 13 \<or> c = 32 \<or> c = 0x85 \<or> c = 0xA0 \<or> c = 0x1680 \<or>
     0x2000 \<le> c \<and> c \<le> 0x200A \<or> c = 0x2028 \<or> c = 0x2029 \<or> c = 0x202F \<or>
     c = 0x205F \<or> c = 0x3000"

definition char_is_control :: "nat \<Rightarrow> bool" where
  "char_is_control c \<longleftrightarrow> c < 32 \<or> 127 \<le> c \<and> c \<le> 159"

text \<open>\<open>value.trim().is_empty()\<close>\<close>

definition blank :: "string \<Rightarrow> bool" where
  "blank s \<longleftrightarrow> list_all char_is_whitespace (str_chars s)"

section \<open>Prefixes\<close>

text \<open>\<open>str::strip_prefix\<close>\<close>

fun strip_prefix :: "string \<Rightarrow> string \<Rightarrow> string option" where
  "strip_prefix [] s = Some s"
| "strip_prefix (p # ps) [] = None"
| "strip_prefix (p # ps) (c # s) = (if p = c then strip_prefix ps s else None)"

lemma strip_prefix_Some: "strip_prefix p s = Some t \<longleftrightarrow> s = p @ t"
  by (induction p s rule: strip_prefix.induct) auto

lemma strip_prefix_append [simp]: "strip_prefix p (p @ t) = Some t"
  by (simp add: strip_prefix_Some)

text \<open>\<open>str::starts_with\<close>, \<open>str::ends_with\<close>, \<open>str::strip_suffix\<close>\<close>

definition starts_with :: "string \<Rightarrow> string \<Rightarrow> bool" where
  "starts_with p s \<longleftrightarrow> strip_prefix p s \<noteq> None"

definition ends_with :: "string \<Rightarrow> string \<Rightarrow> bool" where
  "ends_with p s \<longleftrightarrow> starts_with (rev p) (rev s)"

definition strip_suffix :: "string \<Rightarrow> string \<Rightarrow> string option" where
  "strip_suffix p s = map_option rev (strip_prefix (rev p) (rev s))"

section \<open>Splitting\<close>

text \<open>\<open>str::split\<close> by an ASCII character, and \<open>str::split_once\<close> by a string.\<close>

fun split_on :: "char \<Rightarrow> string \<Rightarrow> string list" where
  "split_on c [] = [[]]"
| "split_on c (b # s) =
     (if b = c then [] # split_on c s
      else case split_on c s of [] \<Rightarrow> [[b]] | w # ws \<Rightarrow> (b # w) # ws)"

fun split_once :: "string \<Rightarrow> string \<Rightarrow> (string \<times> string) option" where
  "split_once p s =
     (case strip_prefix p s of
        Some t \<Rightarrow> Some ([], t)
      | None \<Rightarrow> (case s of
            [] \<Rightarrow> None
          | c # s' \<Rightarrow> map_option (\<lambda>(a, b). (c # a, b)) (split_once p s')))"

declare split_once.simps [simp del]

text \<open>
  \<open>&s[i..]\<close>: it panics (\<^const>\<open>None\<close>) beyond the end and inside a character, where the
  byte at \<open>i\<close> is a continuation byte.
\<close>

definition is_continuation :: "char \<Rightarrow> bool" where
  "is_continuation b \<longleftrightarrow> CHR 0x80 \<le> b \<and> b \<le> CHR 0xBF"

definition slice_from :: "nat \<Rightarrow> string \<Rightarrow> string option" where
  "slice_from i s =
     (if length s < i \<or> i < length s \<and> is_continuation (s ! i) then None else Some (drop i s))"

section \<open>UTF-8\<close>

text \<open>
  The length of the valid character a byte string starts with, or 0, and the length of
  its longest valid prefix, the \<open>valid_up_to\<close> of \<open>str::from_utf8\<close>.
\<close>

fun utf8_char_len :: "string \<Rightarrow> nat" where
  "utf8_char_len [] = 0"
| "utf8_char_len (b0 # bs) =
     (let cont = (\<lambda>i. i < length bs \<and> is_continuation (bs ! i));
          within = (\<lambda>lo hi. bs \<noteq> [] \<and> lo \<le> bs ! 0 \<and> bs ! 0 \<le> hi)
      in if b0 < CHR 0x80 then 1
         else if CHR 0xC2 \<le> b0 \<and> b0 \<le> CHR 0xDF then (if cont 0 then 2 else 0)
         else if b0 = CHR 0xE0
           then (if within (CHR 0xA0) (CHR 0xBF) \<and> cont 1 then 3 else 0)
         else if b0 = CHR 0xED
           then (if within (CHR 0x80) (CHR 0x9F) \<and> cont 1 then 3 else 0)
         else if CHR 0xE1 \<le> b0 \<and> b0 \<le> CHR 0xEF then (if cont 0 \<and> cont 1 then 3 else 0)
         else if b0 = CHR 0xF0
           then (if within (CHR 0x90) (CHR 0xBF) \<and> cont 1 \<and> cont 2 then 4 else 0)
         else if b0 = CHR 0xF4
           then (if within (CHR 0x80) (CHR 0x8F) \<and> cont 1 \<and> cont 2 then 4 else 0)
         else if CHR 0xF1 \<le> b0 \<and> b0 \<le> CHR 0xF3
           then (if cont 0 \<and> cont 1 \<and> cont 2 then 4 else 0)
         else 0)"

lemma utf8_char_len_pos: "utf8_char_len s \<noteq> 0 \<Longrightarrow> s \<noteq> []"
  by auto

function utf8_valid_up_to :: "string \<Rightarrow> nat" where
  "utf8_valid_up_to s =
     (if utf8_char_len s = 0 then 0
      else utf8_char_len s + utf8_valid_up_to (drop (utf8_char_len s) s))"
  by pat_completeness auto

termination
proof (relation "measure length", simp, goal_cases)
  case (1 s)
  then have "s \<noteq> []" by (rule utf8_char_len_pos)
  with 1 show ?case by simp
qed

declare utf8_valid_up_to.simps [simp del]

definition utf8_valid :: "string \<Rightarrow> bool" where
  "utf8_valid s \<longleftrightarrow> utf8_valid_up_to s = length s"

section \<open>Decimal numbers\<close>

definition decimal_value :: "string \<Rightarrow> nat" where
  "decimal_value s = fold (\<lambda>b n. n * 10 + (of_char b - 48)) s 0"

section \<open>Big-endian integers\<close>

text \<open>\<open>to_be_bytes\<close> of an integer of \<open>k\<close> bytes.\<close>

fun be_bytes :: "nat \<Rightarrow> nat \<Rightarrow> string" where
  "be_bytes 0 n = []"
| "be_bytes (Suc k) n = be_bytes k (n div 256) @ [byte (n mod 256)]"

lemma length_be_bytes [simp]: "length (be_bytes k n) = k"
  by (induction k arbitrary: n) auto

lemma byte_inj: "byte (m mod 256) = byte (n mod 256) \<Longrightarrow> m mod 256 = n mod 256"
  by (metis mod_mod_trivial of_char_of)

lemma be_bytes_inj:
  "be_bytes k m = be_bytes k n \<Longrightarrow> m < 256 ^ k \<Longrightarrow> n < 256 ^ k \<Longrightarrow> m = n"
proof (induction k arbitrary: m n)
  case (Suc k)
  have "m div 256 < 256 ^ k" "n div 256 < 256 ^ k"
    using Suc.prems(2,3) by (simp_all add: less_mult_imp_div_less mult.commute)
  then have "m div 256 = n div 256" using Suc by simp
  moreover have "m mod 256 = n mod 256" using Suc.prems(1) byte_inj by simp
  ultimately show ?case by (metis div_mult_mod_eq)
qed simp

definition be_u32 :: "u32 \<Rightarrow> string" where
  "be_u32 w = be_bytes 4 (unat w)"

definition be_u64 :: "u64 \<Rightarrow> string" where
  "be_u64 w = be_bytes 8 (unat w)"

lemma length_be_u32 [simp]: "length (be_u32 w) = 4"
  by (simp add: be_u32_def)

lemma length_be_u64 [simp]: "length (be_u64 w) = 8"
  by (simp add: be_u64_def)

lemma be_u32_inj [simp]: "be_u32 v = be_u32 w \<longleftrightarrow> v = w"
proof
  assume "be_u32 v = be_u32 w"
  moreover have "unat v < 256 ^ 4" "unat w < 256 ^ 4"
    using unsigned_less [of v, where ?'a = nat] unsigned_less [of w, where ?'a = nat] by simp_all
  ultimately have "unat v = unat w" by (auto simp: be_u32_def dest: be_bytes_inj)
  then show "v = w" by (simp add: word_unat_eq_iff)
qed simp

lemma be_u64_inj [simp]: "be_u64 v = be_u64 w \<longleftrightarrow> v = w"
proof
  assume "be_u64 v = be_u64 w"
  moreover have "unat v < 256 ^ 8" "unat w < 256 ^ 8"
    using unsigned_less [of v, where ?'a = nat] unsigned_less [of w, where ?'a = nat] by simp_all
  ultimately have "unat v = unat w" by (auto simp: be_u64_def dest: be_bytes_inj)
  then show "v = w" by (simp add: word_unat_eq_iff)
qed simp

section \<open>Length-prefixed fields\<close>

text \<open>
  Every identity the program hashes is a sequence of fields, each preceded by its
  length as a big-endian \<open>u64\<close>: \<open>hash_field\<close>.  A hasher is the bytes it was fed.
\<close>

definition hash_field :: "string \<Rightarrow> string" where
  "hash_field v = be_u64 (clamp_word (length v)) @ v"

definition hash_fields :: "string list \<Rightarrow> string" where
  "hash_fields fs = concat (map hash_field fs)"

lemma hash_fields_simps [simp]:
  "hash_fields [] = []"
  "hash_fields (f # fs) = hash_field f @ hash_fields fs"
  by (simp_all add: hash_fields_def)

lemma hash_field_prefix_free:
  assumes "hash_field f @ s = hash_field g @ t" and "length f < 2 ^ 64" and "length g < 2 ^ 64"
  shows "f = g \<and> s = t"
proof -
  have "be_u64 (clamp_word (length f)) = be_u64 (clamp_word (length g))"
    using assms(1) unfolding hash_field_def append_assoc
    by (subst (asm) append_eq_append_conv) simp_all
  then have "(clamp_word (length f) :: u64) = clamp_word (length g)" by simp
  then have "unat (clamp_word (length f) :: u64) = unat (clamp_word (length g) :: u64)"
    by (rule arg_cong)
  then have "length f = length g"
    using clamp_word_small [where 'w = 64] assms(2,3) by simp
  then show ?thesis using assms(1) by (simp add: hash_field_def)
qed

lemma hash_fields_inj:
  assumes "hash_fields fs = hash_fields gs"
    and "list_all (\<lambda>f. length f < 2 ^ 64) fs" and "list_all (\<lambda>f. length f < 2 ^ 64) gs"
  shows "fs = gs"
  using assms
proof (induction fs arbitrary: gs)
  case Nil
  then show ?case by (cases gs) (auto simp: hash_field_def be_u64_def dest: arg_cong [where f = length])
next
  case (Cons f fs)
  then obtain g gs' where gs: "gs = g # gs'"
    by (cases gs) (auto simp: hash_field_def dest: arg_cong [where f = length])
  with Cons.prems have "f = g \<and> hash_fields fs = hash_fields gs'"
    by (intro hash_field_prefix_free) auto
  then show ?case using Cons gs by simp
qed

end
