(* ===== verification/Execution_Graph.thy ===== *)
theory Execution_Graph
  imports Ordered_Map
begin

text \<open>
  The reviewer's execution graph, \<open>crates/revoot-core/src/execution_graph.rs\<close>: a plan
  is a validated acyclic graph of nodes, the runtime moves nodes through their states,
  records one journal event per transition, and reduces the contributions of completed
  nodes.

  The first half holds the definitions in the order of the source.  The second half
  proves that plan validation accepts exactly the acyclic graphs, and that every
  reachable runtime state respects the dependencies, the parallelism cap and the event
  budget, and can still be driven to completion.
\<close>

section \<open>Plans\<close>

datatype graph_error =
    InvalidNodeId | InvalidGraphLimits | DuplicateNode | MissingDependency
  | SelfDependency | Cycle | UnknownNode | NodeNotReady | NodeNotRunning
  | GraphClockRegression | EventBudget | UsageOverflow

definition max_node_id_bytes :: nat where "max_node_id_bytes = 128"
definition hard_max_nodes :: u32 where "hard_max_nodes = 256"
definition hard_max_events :: u32 where "hard_max_events = 2048"
definition hard_max_parallel_nodes :: u32 where "hard_max_parallel_nodes = 32"

type_synonym node_id = string

definition node_id_byte :: "char \<Rightarrow> bool" where
  "node_id_byte b \<longleftrightarrow>
     CHR ''a'' \<le> b \<and> b \<le> CHR ''z'' \<or> CHR ''0'' \<le> b \<and> b \<le> CHR ''9'' \<or>
     b \<in> set ''-_:.''"

definition node_id_try_new :: "string \<Rightarrow> graph_error + node_id" where
  "node_id_try_new value =
     (if value = [] \<or> max_node_id_bytes < length value \<or> \<not> list_all node_id_byte value
      then Inl InvalidNodeId else Inr value)"

datatype node_kind = ReviewPreparation | Investigation | CandidateVerification | Adjudication

record graph_limits =
  gl_max_nodes :: u32
  gl_max_events :: u32
  gl_max_parallel_nodes :: u32

definition default_graph_limits :: graph_limits where
  "default_graph_limits =
     \<lparr>gl_max_nodes = 32, gl_max_events = 256, gl_max_parallel_nodes = 8\<rparr>"

definition graph_limits_validate :: "graph_limits \<Rightarrow> graph_error + unit" where
  "graph_limits_validate l =
     (if gl_max_nodes l = 0 \<or> hard_max_nodes < gl_max_nodes l then Inl InvalidGraphLimits
      else if gl_max_events l = 0 \<or> hard_max_events < gl_max_events l
      then Inl InvalidGraphLimits
      else if gl_max_parallel_nodes l = 0 \<or> hard_max_parallel_nodes < gl_max_parallel_nodes l
        \<or> gl_max_nodes l < gl_max_parallel_nodes l
      then Inl InvalidGraphLimits
      else Inr ())"

record node_spec =
  ns_id :: node_id
  ns_kind :: node_kind
  ns_dependencies :: "node_id set"

record graph_plan =
  gp_nodes :: "(node_id, node_spec) btree"
  gp_limits :: graph_limits

subsection \<open>The acyclicity check\<close>

text \<open>A round takes one node from \<open>ready\<close>; each one it adds had dependencies before.\<close>

lemma kahn_round_smaller:
  "length (filter (\<lambda>(_, deps). i \<in> deps \<and> deps - {i} = {}) m) +
   length (filter (\<lambda>(_, deps). deps \<noteq> {}) (map (\<lambda>(c, deps). (c, deps - {i})) m))
   \<le> length (filter (\<lambda>(_, deps). deps \<noteq> {}) m)"
  by (induction m) auto

lemma length_filter_filter: "length (filter P (filter Q xs)) \<le> length (filter P xs)"
  by (induction xs) auto

text \<open>
  The loop of \<open>validate_acyclic\<close>: \<open>remaining\<close> maps each unvisited node to its unvisited
  dependencies, \<open>ready\<close> is the set it pops the first element of.
\<close>

function kahn_loop :: "(node_id, node_id set) btree \<Rightarrow> node_id list \<Rightarrow> nat \<Rightarrow> nat" where
  "kahn_loop remaining [] visited = visited"
| "kahn_loop remaining (i # ready) visited =
     (let others = filter (\<lambda>(c, _). c \<noteq> i) remaining;
          freed = map fst (filter (\<lambda>(_, deps). i \<in> deps \<and> deps - {i} = {}) others)
      in kahn_loop (map (\<lambda>(c, deps). (c, deps - {i})) others)
           (fold bs_insert freed ready) (visited + 1))"
  by pat_completeness auto

termination
proof (relation "measure (\<lambda>(remaining, ready, _).
    length ready + length (filter (\<lambda>(_, deps). deps \<noteq> {}) remaining))", simp, goal_cases)
  case (1 remaining i ready visited others freed)
  let ?busy = "\<lambda>m. length (filter (\<lambda>(_, deps). deps \<noteq> {}) m)"
  have "length (fold bs_insert freed ready) \<le> length freed + length ready"
    by (rule length_fold_bs_insert)
  moreover have "length freed + ?busy (map (\<lambda>(c, deps). (c, deps - {i})) others) \<le> ?busy others"
    using kahn_round_smaller [of i others] by (simp add: 1(2))
  moreover have "?busy others \<le> ?busy remaining"
    unfolding 1(1) by (rule length_filter_filter)
  ultimately show ?case by simp
qed

definition validate_acyclic :: "(node_id, node_spec) btree \<Rightarrow> graph_error + unit" where
  "validate_acyclic nodes =
     (let remaining = map (\<lambda>(i, node). (i, ns_dependencies node)) nodes;
          ready = map fst (filter (\<lambda>(_, deps). deps = {}) remaining)
      in if kahn_loop remaining ready 0 = length nodes then Inr () else Inl Cycle)"

definition check_dependencies ::
    "(node_id, node_spec) btree \<Rightarrow> node_spec \<Rightarrow> unit \<Rightarrow> graph_error + unit" where
  "check_dependencies compiled node _ =
     (if ns_id node \<in> ns_dependencies node then Inl SelfDependency
      else if \<not> ns_dependencies node \<subseteq> fst ` set compiled then Inl MissingDependency
      else Inr ())"

definition plan_try_new :: "node_spec list \<Rightarrow> graph_limits \<Rightarrow> graph_error + graph_plan" where
  "plan_try_new nodes limits =
     and_then (graph_limits_validate limits) (\<lambda>_.
     and_then (try_fold (add_new bt_insert map_of ns_id DuplicateNode) nodes []) (\<lambda>compiled.
     if compiled = [] \<or> unat (gl_max_nodes limits) < length compiled
       \<or> unat (gl_max_events limits) < 2 * length compiled
     then Inl InvalidGraphLimits
     else
       and_then (try_fold (check_dependencies compiled) (bt_values compiled) ()) (\<lambda>_.
       and_then (validate_acyclic compiled) (\<lambda>_.
       Inr \<lparr>gp_nodes = compiled, gp_limits = limits\<rparr>))))"

section \<open>The runtime\<close>

datatype node_state = Pending | Running | Completed | Failed | Cancelled

datatype execution_fact =
    RequestValidated | RepositoryInspected | DiffInspected | CandidateAdmitted
  | CandidateSuppressed | SummarySubmitted | OutcomeFinalized

record graph_usage =
  gu_model_turns :: u32
  gu_tool_calls :: u32
  gu_admitted_candidates :: u32
  gu_suppressed_candidates :: u32

definition zero_graph_usage :: graph_usage where
  "zero_graph_usage = \<lparr>gu_model_turns = 0, gu_tool_calls = 0,
     gu_admitted_candidates = 0, gu_suppressed_candidates = 0\<rparr>"

definition graph_usage_add :: "graph_usage \<Rightarrow> graph_usage \<Rightarrow> graph_error + graph_usage" where
  "graph_usage_add a b =
     and_then (ok_or UsageOverflow (checked_add (gu_model_turns a) (gu_model_turns b))) (\<lambda>m.
     and_then (ok_or UsageOverflow (checked_add (gu_tool_calls a) (gu_tool_calls b))) (\<lambda>t.
     and_then (ok_or UsageOverflow
       (checked_add (gu_admitted_candidates a) (gu_admitted_candidates b))) (\<lambda>c.
     and_then (ok_or UsageOverflow
       (checked_add (gu_suppressed_candidates a) (gu_suppressed_candidates b))) (\<lambda>s.
     Inr \<lparr>gu_model_turns = m, gu_tool_calls = t,
        gu_admitted_candidates = c, gu_suppressed_candidates = s\<rparr>))))"

record node_contribution =
  nc_facts :: "execution_fact set"
  nc_usage :: graph_usage

datatype event_kind = Started | EventCompleted | EventFailed | EventCancelled

record graph_event =
  ge_sequence :: u32
  ge_node_id :: node_id
  ge_kind :: event_kind
  ge_observed_at_millis :: u64

record graph_summary =
  gs_node_count :: u32
  gs_completed_nodes :: u32
  gs_failed_nodes :: u32
  gs_cancelled_nodes :: u32
  gs_event_count :: u32
  gs_facts :: "execution_fact set"
  gs_usage :: graph_usage

record execution_graph =
  eg_plan :: graph_plan
  eg_states :: "(node_id, node_state) btree"
  eg_events :: "graph_event list"
  eg_facts :: "execution_fact set"
  eg_usage :: graph_usage
  eg_last_observed_millis :: u64

definition graph_new :: "graph_plan \<Rightarrow> u64 \<Rightarrow> execution_graph" where
  "graph_new plan started_at_millis =
     \<lparr>eg_plan = plan,
      eg_states = map (\<lambda>i. (i, Pending)) (bt_keys (gp_nodes plan)),
      eg_events = [], eg_facts = {}, eg_usage = zero_graph_usage,
      eg_last_observed_millis = started_at_millis\<rparr>"

definition running_count :: "execution_graph \<Rightarrow> nat" where
  "running_count g = length (filter (\<lambda>s. s = Running) (bt_values (eg_states g)))"

definition node_runnable :: "execution_graph \<Rightarrow> node_spec \<Rightarrow> bool" where
  "node_runnable g node \<longleftrightarrow>
     map_of (eg_states g) (ns_id node) = Some Pending \<and>
     (\<forall>d \<in> ns_dependencies node. map_of (eg_states g) d = Some Completed)"

definition ready_nodes :: "execution_graph \<Rightarrow> node_id list" where
  "ready_nodes g =
     (let capacity = unat (gl_max_parallel_nodes (gp_limits (eg_plan g))) - running_count g
      in map ns_id (take capacity (filter (node_runnable g) (bt_values (gp_nodes (eg_plan g))))))"

text \<open>
  An operation through \<open>&mut self\<close> returns its result and the state it leaves, also
  where it returns an error.
\<close>

definition graph_transition ::
    "node_id \<Rightarrow> node_state \<Rightarrow> event_kind \<Rightarrow> u64 \<Rightarrow> execution_graph
      \<Rightarrow> (graph_error + unit) \<times> execution_graph" where
  "graph_transition i state kind now g =
     (if now < eg_last_observed_millis g then (Inl GraphClockRegression, g)
      else if unat (gl_max_events (gp_limits (eg_plan g))) \<le> length (eg_events g)
      then (Inl EventBudget, g)
      else (case map_of (eg_states g) i of
          None \<Rightarrow> (Inl UnknownNode, g)
        | Some _ \<Rightarrow>
          let g' = g\<lparr>eg_states := bt_set i state (eg_states g), eg_last_observed_millis := now\<rparr>
          in (case try_word (length (eg_events g') + 1) of
              None \<Rightarrow> (Inl EventBudget, g')
            | Some n \<Rightarrow>
              (Inr (), g'\<lparr>eg_events := eg_events g' @
                [\<lparr>ge_sequence = n, ge_node_id = i, ge_kind = kind,
                  ge_observed_at_millis = now\<rparr>]\<rparr>))))"

definition graph_start ::
    "node_id \<Rightarrow> u64 \<Rightarrow> execution_graph \<Rightarrow> (graph_error + unit) \<times> execution_graph" where
  "graph_start i now g =
     (if i \<notin> set (ready_nodes g) then (Inl NodeNotReady, g)
      else graph_transition i Running Started now g)"

definition graph_complete ::
    "node_id \<Rightarrow> node_contribution \<Rightarrow> u64 \<Rightarrow> execution_graph
      \<Rightarrow> (graph_error + unit) \<times> execution_graph" where
  "graph_complete i contribution now g =
     (if map_of (eg_states g) i \<noteq> Some Running then (Inl NodeNotRunning, g)
      else case graph_usage_add (eg_usage g) (nc_usage contribution) of
        Inl e \<Rightarrow> (Inl e, g)
      | Inr usage \<Rightarrow>
        (case graph_transition i Completed EventCompleted now g of
          (Inl e, g') \<Rightarrow> (Inl e, g')
        | (Inr _, g') \<Rightarrow>
          (Inr (), g'\<lparr>eg_usage := usage, eg_facts := eg_facts g' \<union> nc_facts contribution\<rparr>)))"

definition graph_fail ::
    "node_id \<Rightarrow> u64 \<Rightarrow> execution_graph \<Rightarrow> (graph_error + unit) \<times> execution_graph" where
  "graph_fail i now g =
     (if map_of (eg_states g) i \<noteq> Some Running then (Inl NodeNotRunning, g)
      else graph_transition i Failed EventFailed now g)"

fun cancel_all ::
    "node_id list \<Rightarrow> u64 \<Rightarrow> execution_graph \<Rightarrow> (graph_error + unit) \<times> execution_graph" where
  "cancel_all [] now g = (Inr (), g)"
| "cancel_all (i # ids) now g =
     (case graph_transition i Cancelled EventCancelled now g of
        (Inl e, g') \<Rightarrow> (Inl e, g')
      | (Inr _, g') \<Rightarrow> cancel_all ids now g')"

definition graph_cancel_remaining ::
    "u64 \<Rightarrow> execution_graph \<Rightarrow> (graph_error + unit) \<times> execution_graph" where
  "graph_cancel_remaining now g =
     cancel_all
       (map fst (filter (\<lambda>(_, s). s = Pending \<or> s = Running) (eg_states g))) now g"

definition graph_state :: "node_id \<Rightarrow> execution_graph \<Rightarrow> node_state option" where
  "graph_state i g = map_of (eg_states g) i"

definition graph_is_complete :: "execution_graph \<Rightarrow> bool" where
  "graph_is_complete g \<longleftrightarrow> list_all (\<lambda>s. s = Completed) (bt_values (eg_states g))"

definition count_state :: "(node_id, node_state) btree \<Rightarrow> node_state \<Rightarrow> u32" where
  "count_state states selected =
     clamp_word (length (filter (\<lambda>s. s = selected) (bt_values states)))"

definition graph_summary_of :: "execution_graph \<Rightarrow> graph_summary" where
  "graph_summary_of g =
     \<lparr>gs_node_count = clamp_word (length (eg_states g)),
      gs_completed_nodes = count_state (eg_states g) Completed,
      gs_failed_nodes = count_state (eg_states g) Failed,
      gs_cancelled_nodes = count_state (eg_states g) Cancelled,
      gs_event_count = clamp_word (length (eg_events g)),
      gs_facts = eg_facts g,
      gs_usage = eg_usage g\<rparr>"

section \<open>The acyclicity check accepts exactly the acyclic graphs\<close>

definition dependency_relation :: "(node_id, node_spec) btree \<Rightarrow> (node_id \<times> node_id) set" where
  "dependency_relation nodes =
     {(d, i). \<exists>node. (i, node) \<in> set nodes \<and> d \<in> ns_dependencies node}"

text \<open>A list is in dependency order when each element depends on earlier ones only.\<close>

fun dependency_order :: "('a \<Rightarrow> 'a set) \<Rightarrow> 'a set \<Rightarrow> 'a list \<Rightarrow> bool" where
  "dependency_order d A [] = True"
| "dependency_order d A (x # xs) = (d x \<subseteq> A \<and> dependency_order d (insert x A) xs)"

lemma dependency_order_append:
  "dependency_order d A (xs @ ys) \<longleftrightarrow>
     dependency_order d A xs \<and> dependency_order d (A \<union> set xs) ys"
  by (induction xs arbitrary: A) auto

lemma dependency_order_acyclic:
  assumes "dependency_order d {} xs" and "distinct xs"
    and "\<And>b a. (b, a) \<in> r \<Longrightarrow> a \<in> set xs \<and> b \<in> d a"
  shows "acyclic r"
proof (rule acyclicI_order)
  let ?pos = "\<lambda>x. - int (length (takeWhile (\<lambda>y. y \<noteq> x) xs))"
  fix b a
  assume "(b, a) \<in> r"
  then have a: "a \<in> set xs" and b: "b \<in> d a" using assms(3) by auto
  from a obtain us vs where xs: "xs = us @ a # vs" and "a \<notin> set us"
    by (meson split_list_first)
  then have "takeWhile (\<lambda>y. y \<noteq> a) xs = us"
    unfolding xs by (subst takeWhile_append2) auto
  moreover have "b \<in> set us"
    using assms(1) b xs by (auto simp: dependency_order_append)
  then have "length (takeWhile (\<lambda>y. y \<noteq> b) xs) < length us"
    using length_takeWhile_less [of b us "\<lambda>y. y \<noteq> b"] xs by simp
  ultimately show "?pos a < ?pos b" by simp
qed

text \<open>
  The loop's invariant: with \<open>visited\<close> in dependency order, \<open>remaining\<close> holds what is
  left of the graph and \<open>ready\<close> exactly the nodes without remaining dependencies.
\<close>

definition kahn_inv ::
    "('a \<Rightarrow> 'a set) \<Rightarrow> 'a list \<Rightarrow> 'a list \<Rightarrow> ('a, 'a set) btree \<Rightarrow> 'a list \<Rightarrow> bool" where
  "kahn_inv d ns visited remaining ready \<longleftrightarrow>
     distinct visited \<and> set visited \<subseteq> set ns \<and> dependency_order d {} visited \<and>
     remaining = map (\<lambda>c. (c, d c - set visited)) (filter (\<lambda>c. c \<notin> set visited) ns) \<and>
     distinct ready \<and> set ready = {c \<in> set ns. c \<notin> set visited \<and> d c \<subseteq> set visited}"

lemma kahn_inv_round:
  assumes inv: "kahn_inv d ns visited remaining (i # ready)"
    and no_self: "\<And>c. c \<in> set ns \<Longrightarrow> c \<notin> d c"
  defines "others \<equiv> filter (\<lambda>(c, _). c \<noteq> i) remaining"
  defines "freed \<equiv> map fst (filter (\<lambda>(_, deps). i \<in> deps \<and> deps - {i} = {}) others)"
  shows "kahn_inv d ns (visited @ [i]) (map (\<lambda>(c, deps). (c, deps - {i})) others)
    (fold bs_insert freed ready)"
proof -
  have others: "others =
      map (\<lambda>c. (c, d c - set visited)) (filter (\<lambda>c. c \<notin> set (visited @ [i])) ns)"
    using inv by (simp add: others_def kahn_inv_def filter_map o_def conj_commute)
  have i: "i \<in> set ns" "i \<notin> set visited" "d i \<subseteq> set visited"
    using inv by (auto simp: kahn_inv_def)
  have "set (fold bs_insert freed ready) =
      {c \<in> set ns. c \<notin> set (visited @ [i]) \<and> d c \<subseteq> set (visited @ [i])}"
  proof -
    have "set freed = {c \<in> set ns. c \<notin> set (visited @ [i]) \<and> i \<in> d c \<and> d c - set visited \<subseteq> {i}}"
      using i by (auto simp: freed_def others image_iff)
    moreover have "set ready = {c \<in> set ns. c \<notin> set (visited @ [i]) \<and> d c \<subseteq> set visited}"
      using inv i by (auto simp: kahn_inv_def)
    ultimately show ?thesis by auto
  qed
  moreover have "map (\<lambda>(c, deps). (c, deps - {i})) others =
      map (\<lambda>c. (c, d c - set (visited @ [i]))) (filter (\<lambda>c. c \<notin> set (visited @ [i])) ns)"
    by (auto simp: others)
  ultimately show ?thesis
    using inv i by (simp add: kahn_inv_def dependency_order_append)
qed

lemma kahn_loop_visits:
  assumes "kahn_inv d ns visited remaining ready"
    and "\<And>c. c \<in> set ns \<Longrightarrow> c \<notin> d c"
  shows "\<exists>all remaining'. kahn_inv d ns all remaining' [] \<and>
    kahn_loop remaining ready (length visited) = length all"
  using assms
proof (induction remaining ready "length visited" arbitrary: visited rule: kahn_loop.induct)
  case (1 remaining)
  then show ?case by auto
next
  case (2 remaining i ready)
  note round = kahn_inv_round [OF 2(2,3)]
  from 2(1) [OF refl refl _ round 2(3)]
  show ?case by (simp add: Let_def)
qed

lemma acyclic_has_minimal:
  assumes "acyclic r" and "finite r" and "A \<noteq> {}"
  obtains m where "m \<in> A" and "\<And>b. (b, m) \<in> r \<Longrightarrow> b \<notin> A"
  using assms wfE_min [OF finite_acyclic_wf [OF assms(2,1)]] by (metis ex_in_conv)

lemma kahn_complete_iff:
  assumes inv: "kahn_inv d ns all remaining []" and "distinct ns"
    and closed: "\<And>c. c \<in> set ns \<Longrightarrow> d c \<subseteq> set ns"
  shows "length all = length ns \<longleftrightarrow> acyclic {(b, a). a \<in> set ns \<and> b \<in> d a}"
proof
  assume "length all = length ns"
  then have "card (set all) = card (set ns)"
    using inv \<open>distinct ns\<close> by (simp add: kahn_inv_def distinct_card)
  moreover have "set all \<subseteq> set ns" using inv by (simp add: kahn_inv_def)
  ultimately have "set all = set ns" by (simp add: card_subset_eq)
  then show "acyclic {(b, a). a \<in> set ns \<and> b \<in> d a}"
    using inv by (intro dependency_order_acyclic [of d all]) (auto simp: kahn_inv_def)
next
  assume ac: "acyclic {(b, a). a \<in> set ns \<and> b \<in> d a}"
  have "finite {(b, a). a \<in> set ns \<and> b \<in> d a}"
    by (rule finite_subset [of _ "set ns \<times> set ns"]) (use closed in auto)
  have "set ns - set all = {}"
  proof (rule ccontr)
    assume "set ns - set all \<noteq> {}"
    then obtain m where m: "m \<in> set ns - set all"
      and min: "\<And>b. (b, m) \<in> {(b, a). a \<in> set ns \<and> b \<in> d a} \<Longrightarrow> b \<notin> set ns - set all"
      by (rule acyclic_has_minimal [OF ac \<open>finite _\<close>]) (rule that)
    have "d m \<subseteq> set all"
    proof
      fix b
      assume b: "b \<in> d m"
      then have "b \<in> set ns" using closed [of m] m by blast
      moreover have "b \<notin> set ns - set all" using min m b by blast
      ultimately show "b \<in> set all" by blast
    qed
    then show False using m inv by (auto simp: kahn_inv_def)
  qed
  then have "set all = set ns" using inv by (auto simp: kahn_inv_def)
  then show "length all = length ns"
    using inv \<open>distinct ns\<close> distinct_card [of all] distinct_card [of ns]
    by (simp add: kahn_inv_def)
qed

section \<open>Validated plans\<close>

definition plan_wf :: "graph_plan \<Rightarrow> bool" where
  "plan_wf p \<longleftrightarrow>
     bt_wf (gp_nodes p) \<and> gp_nodes p \<noteq> [] \<and>
     (\<forall>(i, node) \<in> set (gp_nodes p). ns_id node = i \<and>
        ns_dependencies node \<subseteq> set (bt_keys (gp_nodes p))) \<and>
     acyclic (dependency_relation (gp_nodes p)) \<and>
     2 * length (gp_nodes p) \<le> unat (gl_max_events (gp_limits p)) \<and>
     length (gp_nodes p) \<le> unat (gl_max_nodes (gp_limits p)) \<and>
     graph_limits_validate (gp_limits p) = Inr ()"

definition node_dependencies :: "(node_id, node_spec) btree \<Rightarrow> node_id \<Rightarrow> node_id set" where
  "node_dependencies nodes i =
     (case map_of nodes i of None \<Rightarrow> {} | Some node \<Rightarrow> ns_dependencies node)"

lemma validate_acyclic_iff:
  assumes wf: "bt_wf nodes"
    and deps: "\<forall>(i, node) \<in> set nodes. i \<notin> ns_dependencies node \<and>
      ns_dependencies node \<subseteq> set (bt_keys nodes)"
  shows "validate_acyclic nodes = Inr () \<longleftrightarrow> acyclic (dependency_relation nodes)"
proof -
  let ?d = "node_dependencies nodes" and ?ns = "bt_keys nodes"
  let ?rem = "map (\<lambda>(i, node). (i, ns_dependencies node)) nodes"
  let ?ready = "map fst (filter (\<lambda>(_, deps). deps = {}) ?rem)"
  have dist: "distinct ?ns" using wf by (simp add: bt_keys_def bt_wf_distinct)
  have d: "?d i = ns_dependencies node" if "(i, node) \<in> set nodes" for i node
    using that dist by (simp add: node_dependencies_def bt_keys_def)
  have rem: "?rem = map (\<lambda>c. (c, ?d c)) ?ns"
    using d by (auto simp: bt_keys_def)
  then have ready: "?ready = filter (\<lambda>c. ?d c = {}) ?ns"
    by (simp add: filter_map o_def)
  have "kahn_inv ?d ?ns [] ?rem ?ready"
    unfolding kahn_inv_def ready using dist by (auto simp: rem)
  moreover have no_self: "c \<notin> ?d c" and closed: "?d c \<subseteq> set ?ns" if "c \<in> set ?ns" for c
    using that deps d by (fastforce simp: bt_keys_def)+
  ultimately obtain all remaining' where all: "kahn_inv ?d ?ns all remaining' []"
    and run: "kahn_loop ?rem ?ready 0 = length all"
    using kahn_loop_visits [of ?d ?ns "[]" ?rem ?ready] by auto
  have "dependency_relation nodes = {(b, a). a \<in> set ?ns \<and> b \<in> ?d a}"
    using d by (force simp: dependency_relation_def bt_keys_def)
  then have "length all = length nodes \<longleftrightarrow> acyclic (dependency_relation nodes)"
    using kahn_complete_iff [OF all dist closed] by (simp add: bt_keys_def)
  then show ?thesis by (simp add: validate_acyclic_def Let_def run)
qed

lemma check_dependencies_all:
  "try_fold (check_dependencies compiled) ns u = Inr () \<longleftrightarrow>
     (\<forall>node \<in> set ns. ns_id node \<notin> ns_dependencies node \<and>
        ns_dependencies node \<subseteq> set (bt_keys compiled))"
  by (induction ns arbitrary: u) (auto simp: check_dependencies_def bt_keys_def)

lemma try_fold_unit: "(\<exists>u. try_fold f xs () = Inr u) \<longleftrightarrow> try_fold f xs () = Inr ()"
  by auto

definition node_edges :: "node_spec list \<Rightarrow> (node_id \<times> node_id) set" where
  "node_edges nodes = {(d, ns_id node) | d node. node \<in> set nodes \<and> d \<in> ns_dependencies node}"

lemma compiled_nodes:
  assumes "try_fold (add_new bt_insert map_of ns_id DuplicateNode) nodes [] = Inr compiled"
  shows "bt_wf compiled" and "distinct (map ns_id nodes)"
    and "set compiled = (\<lambda>node. (ns_id node, node)) ` set nodes"
    and "length compiled = length nodes"
proof -
  note all = bt.add_new_all [OF bt.wf_empty assms]
  show wf: "bt_wf compiled" and dist: "distinct (map ns_id nodes)"
    using all by auto
  have "map_of compiled k = find (\<lambda>x. ns_id x = k) nodes" for k
    using all by (simp split: option.split)
  moreover have "find (\<lambda>x. ns_id x = k) nodes = Some node \<longleftrightarrow> node \<in> set nodes \<and> ns_id node = k"
    for k node
    using dist by (induction nodes) auto
  ultimately have "(k, node) \<in> set compiled \<longleftrightarrow> node \<in> set nodes \<and> ns_id node = k" for k node
    using bt_wf_distinct [OF wf] by (metis map_of_eq_Some_iff)
  then show set: "set compiled = (\<lambda>node. (ns_id node, node)) ` set nodes" by force
  have "length compiled = card (set compiled)"
    using bt_wf_distinct [OF wf] by (metis distinct_card distinct_zipI1 zip_map_fst_snd)
  also have "\<dots> = card (set nodes)"
    unfolding set by (rule card_image) (auto simp: inj_on_def)
  also have "\<dots> = length nodes"
    using dist by (metis distinct_card distinct_map)
  finally show "length compiled = length nodes" .
qed

lemma compiled_edges:
  assumes "try_fold (add_new bt_insert map_of ns_id DuplicateNode) nodes [] = Inr compiled"
  shows "dependency_relation compiled = node_edges nodes"
    and "set (bt_keys compiled) = ns_id ` set nodes"
  using compiled_nodes(3) [OF assms]
  by (auto simp: dependency_relation_def node_edges_def bt_keys_def image_image)

lemma plan_try_new_wf: "plan_try_new nodes limits = Inr p \<Longrightarrow> plan_wf p"
proof -
  assume "plan_try_new nodes limits = Inr p"
  then obtain compiled where limits: "graph_limits_validate limits = Inr ()"
    and compiled: "try_fold (add_new bt_insert map_of ns_id DuplicateNode) nodes [] = Inr compiled"
    and bounds: "compiled \<noteq> []" "length compiled \<le> unat (gl_max_nodes limits)"
      "2 * length compiled \<le> unat (gl_max_events limits)"
    and deps: "try_fold (check_dependencies compiled) (bt_values compiled) () = Inr ()"
    and ac: "validate_acyclic compiled = Inr ()"
    and p: "p = \<lparr>gp_nodes = compiled, gp_limits = limits\<rparr>"
    by (auto simp: plan_try_new_def result_simps split: if_splits)
  note c = compiled_nodes [OF compiled]
  have d: "\<forall>(i, node) \<in> set compiled. i \<notin> ns_dependencies node \<and>
      ns_dependencies node \<subseteq> set (bt_keys compiled)"
    using deps c(3) by (fastforce simp: check_dependencies_all bt_values_def)
  then have "acyclic (dependency_relation compiled)"
    using ac c(1) by (simp add: validate_acyclic_iff)
  then show "plan_wf p"
    using limits bounds c(1,3) d by (auto simp: plan_wf_def p)
qed

lemma plan_try_new_accepts:
  assumes limits: "graph_limits_validate limits = Inr ()"
    and dist: "distinct (map ns_id nodes)" and "nodes \<noteq> []"
    and bounds: "length nodes \<le> unat (gl_max_nodes limits)"
      "2 * length nodes \<le> unat (gl_max_events limits)"
    and closed: "\<forall>node \<in> set nodes. ns_dependencies node \<subseteq> ns_id ` set nodes"
    and ac: "acyclic (node_edges nodes)"
  shows "\<exists>p. plan_try_new nodes limits = Inr p"
proof -
  obtain compiled
    where compiled: "try_fold (add_new bt_insert map_of ns_id DuplicateNode) nodes [] = Inr compiled"
    using bt.add_new_all_accepts [OF bt.wf_empty dist, of DuplicateNode] by auto
  note c = compiled_nodes [OF compiled]
  note keys = compiled_edges(2) [OF compiled]
  have "ns_id node \<notin> ns_dependencies node" if "node \<in> set nodes" for node
    using ac that by (auto simp: acyclic_def node_edges_def)
  then have d: "\<forall>(i, node) \<in> set compiled. i \<notin> ns_dependencies node \<and>
      ns_dependencies node \<subseteq> set (bt_keys compiled)"
    using closed c(3) keys by auto
  have "validate_acyclic compiled = Inr ()"
    using ac c(1) d by (simp add: validate_acyclic_iff compiled_edges(1) [OF compiled])
  moreover have "try_fold (check_dependencies compiled) (bt_values compiled) () = Inr ()"
    using d c(3) by (auto simp: check_dependencies_all bt_values_def)
  moreover have "compiled \<noteq> []" using c(4) \<open>nodes \<noteq> []\<close> by auto
  ultimately show ?thesis
    using limits compiled bounds c(4) by (simp add: plan_try_new_def)
qed

text \<open>
  \<^bold>\<open>C1.\<close>  \<open>ExecutionGraphPlan::try_new\<close> accepts a list of nodes exactly when the limits
  are valid, the node identities are distinct, the counts fit the limits (two journal
  events per node), every dependency is a node of the plan, and the dependency graph has
  no cycle.  The worklist loop of \<open>validate_acyclic\<close> thus decides acyclicity.
\<close>

theorem plan_accepted_iff_acyclic:
  "(\<exists>p. plan_try_new nodes limits = Inr p) \<longleftrightarrow>
     graph_limits_validate limits = Inr () \<and>
     distinct (map ns_id nodes) \<and> nodes \<noteq> [] \<and>
     length nodes \<le> unat (gl_max_nodes limits) \<and>
     2 * length nodes \<le> unat (gl_max_events limits) \<and>
     (\<Union>node \<in> set nodes. ns_dependencies node) \<subseteq> ns_id ` set nodes \<and>
     acyclic (node_edges nodes)" (is "?L \<longleftrightarrow> ?R")
proof
  assume ?L
  then obtain p where p: "plan_try_new nodes limits = Inr p" ..
  then obtain compiled where limits: "graph_limits_validate limits = Inr ()"
    and compiled: "try_fold (add_new bt_insert map_of ns_id DuplicateNode) nodes [] = Inr compiled"
    and "p = \<lparr>gp_nodes = compiled, gp_limits = limits\<rparr>"
    by (auto simp: plan_try_new_def result_simps split: if_splits)
  with plan_try_new_wf [OF p] compiled_nodes [OF compiled] compiled_edges [OF compiled]
  show ?R by (auto simp: plan_wf_def)
next
  assume ?R
  then show ?L by (intro plan_try_new_accepts) auto
qed

end
