(* ===== verification/Execution_Runtime.thy ===== *)
theory Execution_Runtime
  imports Execution_Graph
begin

text \<open>
  The runtime of the execution graph as a transition system: a graph starts from an
  accepted plan and moves by \<open>start\<close>, \<open>complete\<close>, \<open>fail\<close> and \<open>cancel_remaining\<close>,
  called with any arguments, in any order, whether or not they succeed.  The invariant
  ties the node states to the journal and to the dependencies; the properties of the
  runtime are read off it.
\<close>

section \<open>The transition system\<close>

definition graph_initial :: "execution_graph \<Rightarrow> bool" where
  "graph_initial g \<longleftrightarrow>
     (\<exists>nodes limits p t. plan_try_new nodes limits = Inr p \<and> g = graph_new p t)"

text \<open>One call of a mutating operation of \<open>ExecutionGraph\<close>, with its arguments.\<close>

datatype graph_call =
    Start node_id u64
  | Complete node_id node_contribution u64
  | Fail node_id u64
  | CancelRemaining u64

fun graph_run :: "graph_call \<Rightarrow> execution_graph \<Rightarrow> (graph_error + unit) \<times> execution_graph" where
  "graph_run (Start i now) g = graph_start i now g"
| "graph_run (Complete i c now) g = graph_complete i c now g"
| "graph_run (Fail i now) g = graph_fail i now g"
| "graph_run (CancelRemaining now) g = graph_cancel_remaining now g"

inductive graph_step :: "execution_graph \<Rightarrow> execution_graph \<Rightarrow> bool" where
  graph_call: "graph_step g (snd (graph_run call g))"

inductive_cases graph_stepE: "graph_step g g'"

abbreviation graph_reachable :: "execution_graph \<Rightarrow> bool" where
  "graph_reachable \<equiv> reachable graph_initial graph_step"

text \<open>The journal events of one node, and the ones each state allows.\<close>

definition node_history :: "execution_graph \<Rightarrow> node_id \<Rightarrow> event_kind list" where
  "node_history g i = map ge_kind (filter (\<lambda>e. ge_node_id e = i) (eg_events g))"

fun history_ok :: "node_state \<Rightarrow> event_kind list \<Rightarrow> bool" where
  "history_ok Pending ks = (ks = [])"
| "history_ok Running ks = (ks = [Started])"
| "history_ok Completed ks = (ks = [Started, EventCompleted])"
| "history_ok Failed ks = (ks = [Started, EventFailed])"
| "history_ok Cancelled ks = (ks = [EventCancelled] \<or> ks = [Started, EventCancelled])"

definition journal_ok :: "execution_graph \<Rightarrow> bool" where
  "journal_ok g \<longleftrightarrow>
     map (unat \<circ> ge_sequence) (eg_events g) = [1..<Suc (length (eg_events g))] \<and>
     sorted (map ge_observed_at_millis (eg_events g)) \<and>
     (\<forall>e \<in> set (eg_events g). ge_observed_at_millis e \<le> eg_last_observed_millis g \<and>
        ge_node_id e \<in> set (bt_keys (eg_states g)))"

definition histories_ok :: "execution_graph \<Rightarrow> bool" where
  "histories_ok g \<longleftrightarrow>
     (\<forall>i s. map_of (eg_states g) i = Some s \<longrightarrow> history_ok s (node_history g i))"

definition entered :: "node_state \<Rightarrow> bool" where
  "entered s \<longleftrightarrow> s = Running \<or> s = Completed \<or> s = Failed"

definition dependencies_done :: "execution_graph \<Rightarrow> bool" where
  "dependencies_done g \<longleftrightarrow>
     (\<forall>(i, node) \<in> set (gp_nodes (eg_plan g)). \<forall>s.
        map_of (eg_states g) i = Some s \<longrightarrow> entered s \<longrightarrow>
        (\<forall>d \<in> ns_dependencies node. map_of (eg_states g) d = Some Completed))"

definition graph_inv :: "execution_graph \<Rightarrow> bool" where
  "graph_inv g \<longleftrightarrow>
     plan_wf (eg_plan g) \<and>
     bt_keys (eg_states g) = bt_keys (gp_nodes (eg_plan g)) \<and>
     journal_ok g \<and> histories_ok g \<and> dependencies_done g \<and>
     running_count g \<le> unat (gl_max_parallel_nodes (gp_limits (eg_plan g)))"

lemma graph_inv_initial: "graph_initial g \<Longrightarrow> graph_inv g"
proof -
  assume "graph_initial g"
  then obtain p t where p: "plan_wf p" and g: "g = graph_new p t"
    by (auto simp: graph_initial_def dest: plan_try_new_wf)
  have pending: "s = Pending" if "map_of (eg_states g) i = Some s" for i s
    using that by (auto simp: g graph_new_def dest: map_of_SomeD)
  have "bt_keys (eg_states g) = bt_keys (gp_nodes (eg_plan g))"
    by (simp add: g graph_new_def bt_keys_def o_def)
  moreover have "running_count g = 0"
    by (simp add: g graph_new_def running_count_def bt_values_def filter_empty_conv)
  moreover have "histories_ok g"
    using pending by (fastforce simp: histories_ok_def node_history_def g graph_new_def)
  moreover have "dependencies_done g"
    using pending by (fastforce simp: dependencies_done_def entered_def)
  moreover have "journal_ok g" by (simp add: journal_ok_def g graph_new_def)
  ultimately show ?thesis using p by (simp add: graph_inv_def g graph_new_def)
qed

section \<open>The event budget is never exhausted\<close>

lemma length_by_node:
  assumes "distinct ks" and "\<forall>e \<in> set es. ge_node_id e \<in> set ks"
  shows "length es = (\<Sum>i \<leftarrow> ks. length (filter (\<lambda>e. ge_node_id e = i) es))"
  using assms(2)
proof (induction es)
  case Nil
  then show ?case by (induction ks) auto
next
  case (Cons e es)
  have "(\<Sum>i \<leftarrow> ks. length (filter (\<lambda>e'. ge_node_id e' = i) (e # es))) =
      (\<Sum>i \<leftarrow> ks. (if ge_node_id e = i then 1 else 0) + length (filter (\<lambda>e'. ge_node_id e' = i) es))"
    by (rule arg_cong [where f = sum_list]) auto
  also have "\<dots> = (\<Sum>i \<leftarrow> ks. if ge_node_id e = i then 1 else 0) +
      (\<Sum>i \<leftarrow> ks. length (filter (\<lambda>e'. ge_node_id e' = i) es))"
    by (rule sum_list_addf)
  also have "(\<Sum>i \<leftarrow> ks. if ge_node_id e = i then 1 else 0) = (1::nat)"
    using assms(1) Cons.prems by (simp add: sum_list_distinct_conv_sum_set)
  finally show ?case using Cons by simp
qed

lemma history_length: "history_ok s ks \<Longrightarrow> length ks \<le> (if s = Pending \<or> s = Running then 1 else 2)"
  by (cases s) auto

definition moving :: "node_state \<Rightarrow> bool" where
  "moving s \<longleftrightarrow> s = Pending \<or> s = Running"

lemma events_by_state:
  assumes inv: "graph_inv g"
  shows "length (eg_events g) \<le> (\<Sum>s \<leftarrow> bt_values (eg_states g). if moving s then 1 else 2)"
proof -
  let ?ks = "bt_keys (eg_states g)"
  have dist: "distinct ?ks"
    using inv by (auto simp: graph_inv_def plan_wf_def bt_keys_def dest: bt_wf_distinct)
  have "\<forall>e \<in> set (eg_events g). ge_node_id e \<in> set ?ks"
    using inv unfolding graph_inv_def journal_ok_def by blast
  from length_by_node [OF dist this]
  have "length (eg_events g) = (\<Sum>i \<leftarrow> ?ks. length (node_history g i))"
    unfolding node_history_def by simp
  also have "\<dots> = (\<Sum>(i, s) \<leftarrow> eg_states g. length (node_history g i))"
    by (simp add: bt_keys_def o_def case_prod_unfold)
  also have "\<dots> \<le> (\<Sum>(i, s) \<leftarrow> eg_states g. if moving s then 1 else 2)"
  proof (rule sum_list_mono, clarify)
    fix i s
    assume "(i, s) \<in> set (eg_states g)"
    then have "map_of (eg_states g) i = Some s"
      using dist by (simp add: bt_keys_def)
    then have "history_ok s (node_history g i)"
      using inv by (simp add: graph_inv_def histories_ok_def)
    then show "length (node_history g i) \<le> (if moving s then 1 else 2)"
      using history_length by (fastforce simp: moving_def)
  qed
  also have "\<dots> = (\<Sum>s \<leftarrow> bt_values (eg_states g). if moving s then 1 else 2)"
    by (simp add: bt_values_def o_def case_prod_unfold)
  finally show ?thesis .
qed

lemma sum_le_twice: "(\<Sum>s \<leftarrow> xs. if P s then 1 else 2) \<le> 2 * length xs" for xs :: "'a list"
  by (induction xs) auto

lemma sum_less_twice:
  "x \<in> set xs \<Longrightarrow> P x \<Longrightarrow> (\<Sum>s \<leftarrow> xs. if P s then 1 else 2) < 2 * length xs"
proof (induction xs)
  case (Cons y ys)
  then show ?case using sum_le_twice [of P ys] by (cases "x = y") auto
qed simp

lemma events_bound:
  assumes inv: "graph_inv g"
  shows "length (eg_events g) \<le> 2 * length (gp_nodes (eg_plan g))"
    and "2 * length (gp_nodes (eg_plan g)) \<le> unat (gl_max_events (gp_limits (eg_plan g)))"
proof -
  have "length (bt_values (eg_states g)) = length (gp_nodes (eg_plan g))"
    using inv by (metis bt_keys_def bt_values_def graph_inv_def length_map)
  then show "length (eg_events g) \<le> 2 * length (gp_nodes (eg_plan g))"
    using events_by_state [OF inv] sum_le_twice [of moving "bt_values (eg_states g)"] by simp
  show "2 * length (gp_nodes (eg_plan g)) \<le> unat (gl_max_events (gp_limits (eg_plan g)))"
    using inv by (simp add: graph_inv_def plan_wf_def)
qed

lemma events_room:
  assumes inv: "graph_inv g" and u: "map_of (eg_states g) i = Some u" "moving u"
  shows "length (eg_events g) < unat (gl_max_events (gp_limits (eg_plan g)))"
proof -
  have "length (bt_values (eg_states g)) = length (gp_nodes (eg_plan g))"
    using inv by (metis bt_keys_def bt_values_def graph_inv_def length_map)
  moreover have "u \<in> set (bt_values (eg_states g))"
    using u(1) by (rule map_of_in_values)
  ultimately have "length (eg_events g) < 2 * length (gp_nodes (eg_plan g))"
    using events_by_state [OF inv] sum_less_twice [where P = moving] u(2) by fastforce
  then show ?thesis using events_bound(2) [OF inv] by simp
qed

text \<open>So a transition of a pending or running node fails on a clock regression only.\<close>

definition advance ::
    "node_id \<Rightarrow> node_state \<Rightarrow> event_kind \<Rightarrow> u64 \<Rightarrow> execution_graph \<Rightarrow> execution_graph" where
  "advance i s k now g =
     g\<lparr>eg_states := bt_set i s (eg_states g), eg_last_observed_millis := now,
       eg_events := eg_events g @
         [\<lparr>ge_sequence = of_nat (Suc (length (eg_events g))), ge_node_id = i, ge_kind = k,
           ge_observed_at_millis = now\<rparr>]\<rparr>"

lemma graph_transition_eq:
  assumes "graph_inv g" and "map_of (eg_states g) i = Some u" and "moving u"
  shows "graph_transition i s k now g =
    (if now < eg_last_observed_millis g then (Inl GraphClockRegression, g)
     else (Inr (), advance i s k now g))"
proof -
  let ?max = "gl_max_events (gp_limits (eg_plan g))"
  have room: "length (eg_events g) < unat ?max"
    by (rule events_room [OF assms])
  have "unat ?max < 2 ^ 32" using unsigned_less [of ?max, where ?'a = nat] by simp
  with room have "Suc (length (eg_events g)) < 2 ^ 32" by linarith
  then have "try_word (Suc (length (eg_events g))) =
      Some (of_nat (Suc (length (eg_events g))) :: u32)"
    by (simp add: try_word_def)
  then show ?thesis
    using room assms(2) by (simp add: graph_transition_def advance_def)
qed

section \<open>Every step keeps the invariant\<close>

text \<open>The moves the operations make.\<close>

definition move_ok :: "execution_graph \<Rightarrow> node_id \<Rightarrow> node_state \<Rightarrow> node_state \<Rightarrow> event_kind \<Rightarrow> bool" where
  "move_ok g i u s k \<longleftrightarrow>
     map_of (eg_states g) i = Some u \<and> moving u \<and>
     (u = Pending \<and> s = Running \<and> k = Started \<and>
        running_count g < unat (gl_max_parallel_nodes (gp_limits (eg_plan g))) \<and>
        (\<forall>node. (i, node) \<in> set (gp_nodes (eg_plan g)) \<longrightarrow>
          (\<forall>d \<in> ns_dependencies node. map_of (eg_states g) d = Some Completed)) \<or>
      u = Running \<and> s = Completed \<and> k = EventCompleted \<or>
      u = Running \<and> s = Failed \<and> k = EventFailed \<or>
      s = Cancelled \<and> k = EventCancelled)"

lemma advance_simps [simp]:
  "eg_plan (advance i s k now g) = eg_plan g"
  "eg_states (advance i s k now g) = bt_set i s (eg_states g)"
  "eg_last_observed_millis (advance i s k now g) = now"
  "eg_facts (advance i s k now g) = eg_facts g"
  "eg_usage (advance i s k now g) = eg_usage g"
  by (simp_all add: advance_def)

lemma node_history_advance:
  "node_history (advance i s k now g) j = node_history g j @ (if j = i then [k] else [])"
  by (simp add: node_history_def advance_def)

lemma histories_ok_advance:
  assumes "histories_ok g" and "move_ok g i u s k"
  shows "histories_ok (advance i s k now g)"
proof -
  have "history_ok u (node_history g i)"
    using assms by (auto simp: histories_ok_def move_ok_def)
  then have "history_ok s (node_history g i @ [k])"
    using assms(2) by (auto simp: move_ok_def moving_def)
  then show ?thesis
    using assms by (auto simp: histories_ok_def node_history_advance map_of_bt_set)
qed

lemma dependencies_done_advance:
  assumes "dependencies_done g" and move: "move_ok g i u s k"
  shows "dependencies_done (advance i s k now g)"
proof -
  have keep: "map_of (bt_set i s (eg_states g)) d = Some Completed"
    if "map_of (eg_states g) d = Some Completed" for d
    using that move by (auto simp: map_of_bt_set move_ok_def moving_def)
  have u: "map_of (eg_states g) i = Some u" using move by (simp add: move_ok_def)
  show ?thesis
    unfolding dependencies_done_def advance_simps
  proof (safe)
    fix j node s' d
    assume node: "(j, node) \<in> set (gp_nodes (eg_plan g))" and d: "d \<in> ns_dependencies node"
      and s': "map_of (bt_set i s (eg_states g)) j = Some s'" "entered s'"
    have before: "map_of (eg_states g) d = Some Completed"
      if "map_of (eg_states g) j = Some v" "entered v" for v
      using assms(1) node d that unfolding dependencies_done_def by blast
    have "map_of (eg_states g) d = Some Completed"
    proof (cases "j = i")
      case True
      then have "s' = s" using s'(1) u by (simp add: map_of_bt_set)
      then consider "u = Pending" "s = Running" | "u = Running"
        using s'(2) move by (auto simp: move_ok_def entered_def)
      then show ?thesis
      proof cases
        case 1
        then show ?thesis using move node d True by (auto simp: move_ok_def)
      next
        case 2
        then show ?thesis using before u True by (simp add: entered_def)
      qed
    next
      case False
      then show ?thesis using s' by (intro before) (simp_all add: map_of_bt_set)
    qed
    then show "map_of (bt_set i s (eg_states g)) d = Some Completed" by (rule keep)
  qed
qed

lemma journal_ok_advance:
  assumes "journal_ok g" and "map_of (eg_states g) i = Some u"
    and "eg_last_observed_millis g \<le> now" and "Suc (length (eg_events g)) < 2 ^ 32"
  shows "journal_ok (advance i s k now g)"
proof -
  have "i \<in> set (bt_keys (eg_states g))"
    using assms(2) by (force simp: bt_keys_def dest: map_of_SomeD)
  moreover have "unat (of_nat (Suc (length (eg_events g))) :: u32) = Suc (length (eg_events g))"
    using assms(4) by (intro unat_of_nat_small) simp
  ultimately show ?thesis
    using assms(1,3) by (auto simp: journal_ok_def advance_def sorted_append)
qed

lemma running_count_advance:
  assumes inv: "graph_inv g" and move: "move_ok g i u s k"
  shows "running_count (advance i s k now g) \<le> unat (gl_max_parallel_nodes (gp_limits (eg_plan g)))"
proof -
  have dist: "distinct (map fst (eg_states g))"
    using inv by (metis bt_keys_def bt_wf_distinct graph_inv_def plan_wf_def)
  have "map_of (eg_states g) i = Some u" using move by (simp add: move_ok_def)
  note count_bt_set [OF dist this, of "\<lambda>s. s = Running" s]
  then show ?thesis
    using inv move
    by (auto simp: running_count_def move_ok_def graph_inv_def split: if_splits)
qed

lemma graph_inv_advance:
  assumes inv: "graph_inv g" and move: "move_ok g i u s k"
    and now: "\<not> now < eg_last_observed_millis g"
  shows "graph_inv (advance i s k now g)"
proof -
  let ?max = "gl_max_events (gp_limits (eg_plan g))"
  have u: "map_of (eg_states g) i = Some u" "moving u" using move by (simp_all add: move_ok_def)
  have "unat ?max < 2 ^ 32" using unsigned_less [of ?max, where ?'a = nat] by simp
  then have "Suc (length (eg_events g)) < 2 ^ 32"
    using events_room [OF inv u] by linarith
  then have "journal_ok (advance i s k now g)"
    using inv u(1) now by (intro journal_ok_advance) (auto simp: graph_inv_def)
  then show ?thesis
    using inv histories_ok_advance [OF _ move] dependencies_done_advance [OF _ move]
      running_count_advance [OF inv move] by (simp add: graph_inv_def)
qed

lemma transition_inv:
  assumes "graph_inv g" and "move_ok g i u s k"
  shows "graph_inv (snd (graph_transition i s k now g))"
  using assms graph_inv_advance [OF assms]
  by (subst graph_transition_eq [OF assms(1), of i u]) (auto simp: move_ok_def)

lemma graph_inv_reduction:
  "graph_inv (g\<lparr>eg_usage := usage, eg_facts := facts\<rparr>) = graph_inv g"
  by (simp add: graph_inv_def journal_ok_def histories_ok_def node_history_def
      dependencies_done_def running_count_def)

lemma ready_node_move:
  assumes inv: "graph_inv g" and ready: "i \<in> set (ready_nodes g)"
  shows "move_ok g i Pending Running Started"
proof -
  let ?cap = "unat (gl_max_parallel_nodes (gp_limits (eg_plan g))) - running_count g"
  from ready obtain node where node: "node \<in> set (take ?cap (filter (node_runnable g)
      (bt_values (gp_nodes (eg_plan g)))))" and i: "ns_id node = i"
    by (auto simp: ready_nodes_def)
  then have "0 < ?cap" by (cases ?cap) auto
  have "node \<in> set (bt_values (gp_nodes (eg_plan g)))" and run: "node_runnable g node"
    using node by (auto dest: in_set_takeD)
  then obtain j where j: "(j, node) \<in> set (gp_nodes (eg_plan g))"
    by (auto simp: bt_values_def)
  have wf: "plan_wf (eg_plan g)" using inv by (simp add: graph_inv_def)
  then have "j = i" using j i by (auto simp: plan_wf_def)
  moreover have "node' = node" if "(i, node') \<in> set (gp_nodes (eg_plan g))" for node'
    using that j \<open>j = i\<close> wf by (auto simp: plan_wf_def dest!: bt_wf_distinct dest: eq_key_imp_eq_value)
  ultimately show ?thesis
    using run i \<open>0 < ?cap\<close> by (auto simp: move_ok_def moving_def node_runnable_def)
qed

lemma start_inv: "graph_inv g \<Longrightarrow> graph_inv (snd (graph_start i now g))"
  using transition_inv [OF _ ready_node_move] by (simp add: graph_start_def)

lemma complete_inv:
  assumes inv: "graph_inv g"
  shows "graph_inv (snd (graph_complete i c now g))"
proof (cases "map_of (eg_states g) i = Some Running")
  case True
  then have "move_ok g i Running Completed EventCompleted"
    by (simp add: move_ok_def moving_def)
  note kept = transition_inv [OF inv this, of now]
  obtain r g' where moved: "graph_transition i Completed EventCompleted now g = (r, g')"
    by force
  with kept have "graph_inv g'" by simp
  then show ?thesis
    using True inv moved
    by (cases r) (simp_all add: graph_complete_def graph_inv_reduction split: sum.split)
next
  case False
  then show ?thesis using inv by (simp add: graph_complete_def)
qed

lemma fail_inv: "graph_inv g \<Longrightarrow> graph_inv (snd (graph_fail i now g))"
  using transition_inv [of g i Running Failed EventFailed now]
  by (simp add: graph_fail_def move_ok_def moving_def)

text \<open>
  \<open>cancel_remaining\<close> moves one node after the other.  Only the first move can fail,
  on a clock regression, because each move sets the clock to the same reading.
\<close>

lemma cancel_all_step:
  assumes "graph_inv g" and "map_of (eg_states g) i = Some u" and "moving u"
  shows "cancel_all (i # ids) now g =
    (if now < eg_last_observed_millis g then (Inl GraphClockRegression, g)
     else cancel_all ids now (advance i Cancelled EventCancelled now g))"
  by (simp add: graph_transition_eq [OF assms])

definition all_moving :: "execution_graph \<Rightarrow> node_id list \<Rightarrow> bool" where
  "all_moving g ids \<longleftrightarrow> distinct ids \<and>
     (\<forall>i \<in> set ids. \<exists>u. map_of (eg_states g) i = Some u \<and> moving u)"

lemma all_moving_advance:
  "all_moving g (i # ids) \<Longrightarrow> all_moving (advance i s k now g) ids"
  by (auto simp: all_moving_def map_of_bt_set)

lemma cancel_move:
  assumes "all_moving g (i # ids)"
  obtains u where "move_ok g i u Cancelled EventCancelled"
  using assms that by (auto simp: all_moving_def move_ok_def)

lemma cancel_all_inv:
  assumes "graph_inv g" and "all_moving g ids"
  shows "graph_inv (snd (cancel_all ids now g))"
  using assms
proof (induction ids arbitrary: g)
  case (Cons i ids)
  obtain u where move: "move_ok g i u Cancelled EventCancelled"
    using cancel_move [OF Cons.prems(2)] .
  then have u: "map_of (eg_states g) i = Some u" "moving u" by (simp_all add: move_ok_def)
  show ?case
  proof (cases "now < eg_last_observed_millis g")
    case True
    then show ?thesis using Cons.prems(1) by (simp only: cancel_all_step [OF Cons.prems(1) u]) simp
  next
    case False
    have "graph_inv (snd (cancel_all ids now (advance i Cancelled EventCancelled now g)))"
      by (rule Cons.IH [OF graph_inv_advance [OF Cons.prems(1) move False]
            all_moving_advance [OF Cons.prems(2)]])
    then show ?thesis using False by (simp only: cancel_all_step [OF Cons.prems(1) u]) simp
  qed
qed simp

lemma cancel_all_ok:
  assumes "graph_inv g" and "all_moving g ids" and "\<not> now < eg_last_observed_millis g"
  shows "fst (cancel_all ids now g) = Inr ()"
  using assms
proof (induction ids arbitrary: g)
  case (Cons i ids)
  obtain u where move: "move_ok g i u Cancelled EventCancelled"
    using cancel_move [OF Cons.prems(2)] .
  then have u: "map_of (eg_states g) i = Some u" "moving u" by (simp_all add: move_ok_def)
  have "fst (cancel_all ids now (advance i Cancelled EventCancelled now g)) = Inr ()"
    by (rule Cons.IH [OF graph_inv_advance [OF Cons.prems(1) move Cons.prems(3)]
          all_moving_advance [OF Cons.prems(2)]]) simp
  then show ?case
    using Cons.prems(3) by (simp only: cancel_all_step [OF Cons.prems(1) u]) simp
qed simp

lemma graph_states_distinct: "graph_inv g \<Longrightarrow> distinct (map fst (eg_states g))"
  by (metis bt_keys_def bt_wf_distinct graph_inv_def plan_wf_def)

lemma remaining_moving:
  assumes "graph_inv g"
  shows "all_moving g (map fst (filter (\<lambda>(_, s). s = Pending \<or> s = Running) (eg_states g)))"
proof -
  note dist = graph_states_distinct [OF assms]
  have "distinct (map fst (filter P (eg_states g)))" for P
    using dist by (rule distinct_map_filter)
  moreover have "map_of (eg_states g) i = Some s" if "(i, s) \<in> set (eg_states g)" for i s
    using that dist by simp
  ultimately show ?thesis by (auto simp: all_moving_def moving_def)
qed

lemma cancel_inv: "graph_inv g \<Longrightarrow> graph_inv (snd (graph_cancel_remaining now g))"
  unfolding graph_cancel_remaining_def by (rule cancel_all_inv [OF _ remaining_moving])

lemma graph_run_inv: "graph_inv g \<Longrightarrow> graph_inv (snd (graph_run call g))"
  by (cases call) (simp_all add: start_inv complete_inv fail_inv cancel_inv)

interpretation graph: transition_system graph_initial graph_step graph_inv
  by unfold_locales (auto simp: graph_inv_initial graph_run_inv elim: graph_stepE)

section \<open>What an operation can return\<close>

lemma transition_outcome:
  assumes "graph_inv g" and "move_ok g i u s k"
  shows "graph_transition i s k now g = (Inl GraphClockRegression, g) \<or>
    graph_transition i s k now g = (Inr (), advance i s k now g)"
  using assms graph_transition_eq [OF assms(1), of i u] by (auto simp: move_ok_def)

lemma start_outcome:
  assumes "graph_inv g" and "i \<in> set (ready_nodes g)"
  shows "graph_start i now g =
    (if now < eg_last_observed_millis g then (Inl GraphClockRegression, g)
     else (Inr (), advance i Running Started now g))"
  using graph_transition_eq [OF assms(1), of i Pending] ready_node_move [OF assms] assms(2)
  by (simp add: graph_start_def move_ok_def)

lemma fail_outcome:
  assumes "graph_inv g" and "map_of (eg_states g) i = Some Running"
  shows "graph_fail i now g =
    (if now < eg_last_observed_millis g then (Inl GraphClockRegression, g)
     else (Inr (), advance i Failed EventFailed now g))"
  using graph_transition_eq [OF assms] assms(2) by (simp add: graph_fail_def moving_def)

lemma complete_outcome:
  assumes "graph_inv g" and "map_of (eg_states g) i = Some Running"
    and "graph_usage_add (eg_usage g) (nc_usage c) = Inr usage"
  shows "graph_complete i c now g =
    (if now < eg_last_observed_millis g then (Inl GraphClockRegression, g)
     else (Inr (), (advance i Completed EventCompleted now g)
       \<lparr>eg_usage := usage, eg_facts := eg_facts g \<union> nc_facts c\<rparr>))"
  using graph_transition_eq [OF assms(1,2)] assms(2,3) by (simp add: graph_complete_def moving_def)

lemma cancel_outcome:
  assumes inv: "graph_inv g"
  shows "graph_cancel_remaining now g = (Inl GraphClockRegression, g) \<or>
    fst (graph_cancel_remaining now g) = Inr ()"
proof (cases "now < eg_last_observed_millis g")
  case False
  then show ?thesis
    unfolding graph_cancel_remaining_def
    using cancel_all_ok [OF inv remaining_moving [OF inv]] by blast
next
  case True
  let ?ids = "map fst (filter (\<lambda>(_, s). s = Pending \<or> s = Running) (eg_states g))"
  show ?thesis
  proof (cases ?ids)
    case Nil
    then show ?thesis unfolding graph_cancel_remaining_def by simp
  next
    case (Cons i ids)
    then obtain u where "map_of (eg_states g) i = Some u" "moving u"
      using remaining_moving [OF inv] by (auto simp: all_moving_def)
    from cancel_all_step [OF inv this, of ids now] True Cons show ?thesis
      unfolding graph_cancel_remaining_def by simp
  qed
qed

lemma graph_run_error:
  assumes inv: "graph_inv g" and err: "fst (graph_run call g) = Inl e"
  shows "snd (graph_run call g) = g \<and>
    e \<in> {NodeNotReady, NodeNotRunning, UsageOverflow, GraphClockRegression}"
proof (cases call)
  case (Start i now)
  then show ?thesis
    using err start_outcome [OF inv, of i now]
    by (cases "i \<in> set (ready_nodes g)") (auto simp: graph_start_def split: if_splits)
next
  case (Complete i c now)
  have "e' = UsageOverflow" if "graph_usage_add (eg_usage g) (nc_usage c) = Inl e'" for e'
    using that by (auto simp: graph_usage_add_def result_simps)
  then show ?thesis
    using Complete err complete_outcome [OF inv, of i c _ now]
    by (cases "map_of (eg_states g) i = Some Running";
        cases "graph_usage_add (eg_usage g) (nc_usage c)")
      (auto simp: graph_complete_def split: if_splits)
next
  case (Fail i now)
  then show ?thesis
    using err fail_outcome [OF inv, of i now]
    by (cases "map_of (eg_states g) i = Some Running") (auto simp: graph_fail_def split: if_splits)
next
  case (CancelRemaining now)
  then show ?thesis using err cancel_outcome [OF inv, of now] by auto
qed

section \<open>Every run ends\<close>

text \<open>The journal only grows, and the plan never changes.\<close>

definition extends :: "execution_graph \<Rightarrow> execution_graph \<Rightarrow> bool" where
  "extends g g' \<longleftrightarrow> prefix (eg_events g) (eg_events g') \<and> eg_plan g' = eg_plan g"

lemma extends_refl [simp]: "extends g g"
  by (simp add: extends_def)

lemma extends_trans: "extends g h \<Longrightarrow> extends h k \<Longrightarrow> extends g k"
  by (auto simp: extends_def)

lemma extends_reduction [simp]:
  "extends g (h\<lparr>eg_usage := u, eg_facts := f\<rparr>) = extends g h"
  by (simp add: extends_def)

lemma transition_extends: "extends g (snd (graph_transition i s k now g))"
  by (simp add: extends_def graph_transition_def Let_def split: option.split)

lemma cancel_all_extends: "extends g (snd (cancel_all ids now g))"
proof (induction ids arbitrary: g)
  case (Cons i ids)
  obtain r h where h: "graph_transition i Cancelled EventCancelled now g = (r, h)" by force
  then have "extends g h" using transition_extends by (metis snd_conv)
  then show ?case
    using h extends_trans [OF _ Cons.IH] by (cases r) simp_all
qed simp

lemma complete_extends: "extends g (snd (graph_complete i c now g))"
proof -
  obtain r h where h: "graph_transition i Completed EventCompleted now g = (r, h)" by force
  then have "extends g h" using transition_extends by (metis snd_conv)
  then show ?thesis
    using h by (cases r) (simp_all add: graph_complete_def split: sum.split)
qed

lemma graph_run_extends: "extends g (snd (graph_run call g))"
  by (cases call)
    (simp_all add: graph_start_def graph_fail_def graph_cancel_remaining_def transition_extends
      cancel_all_extends complete_extends)

text \<open>The steps that record an event, and how many are left.\<close>

definition graph_move :: "execution_graph \<Rightarrow> execution_graph \<Rightarrow> bool" where
  "graph_move g g' \<longleftrightarrow> graph_step g g' \<and> eg_events g' \<noteq> eg_events g"

definition graph_fuel :: "execution_graph \<Rightarrow> nat" where
  "graph_fuel g = 2 * length (gp_nodes (eg_plan g)) - length (eg_events g)"

lemma graph_move_fuel:
  assumes "graph_inv g" and "graph_move g g'"
  shows "graph_fuel g' < graph_fuel g"
proof -
  have "graph_inv g'" "extends g g'" "eg_events g' \<noteq> eg_events g"
    using assms graph_run_inv graph_run_extends by (auto simp: graph_move_def elim!: graph_stepE)
  then have "eg_plan g' = eg_plan g" "length (eg_events g) < length (eg_events g')"
    by (auto simp: extends_def dest: prefix_length_less [OF prefix_order.le_neq_trans])
  then show ?thesis
    using events_bound(1) [OF \<open>graph_inv g'\<close>] by (simp add: graph_fuel_def)
qed

interpretation graph_moves: bounded_system graph_initial graph_move graph_inv graph_fuel
proof (unfold_locales, goal_cases)
  case 1
  then show ?case by (rule graph_inv_initial)
next
  case 2
  then show ?case by (auto simp: graph_move_def graph_run_inv elim!: graph_stepE)
next
  case 3
  then show ?case by (rule graph_move_fuel)
qed

section \<open>A graph without failures can be driven to completion\<close>

fun graph_run_all :: "graph_call list \<Rightarrow> execution_graph \<Rightarrow> graph_error + execution_graph" where
  "graph_run_all [] g = Inr g"
| "graph_run_all (call # calls) g =
     (case graph_run call g of (Inl e, _) \<Rightarrow> Inl e | (Inr _, g') \<Rightarrow> graph_run_all calls g')"

definition unfailed :: "execution_graph \<Rightarrow> bool" where
  "unfailed g \<longleftrightarrow> Failed \<notin> set (bt_values (eg_states g)) \<and> Cancelled \<notin> set (bt_values (eg_states g))"

lemma bt_set_values: "set (bt_values (bt_set k v m)) \<subseteq> insert v (set (bt_values m))"
  by (force simp: bt_values_def bt_set_def)

lemma unfailed_advance:
  "unfailed g \<Longrightarrow> s \<noteq> Failed \<Longrightarrow> s \<noteq> Cancelled \<Longrightarrow> unfailed (advance i s k now g)"
  using bt_set_values [of i s "eg_states g"] by (auto simp: unfailed_def)

lemma bt_values_map_of:
  assumes "distinct (map fst m)" and "v \<in> set (bt_values m)"
  obtains k where "map_of m k = Some v"
proof -
  obtain k where "(k, v) \<in> set m" using assms(2) by (auto simp: bt_values_def)
  then show thesis using that map_of_eq_Some_iff [OF assms(1)] by blast
qed

lemma ready_exists:
  assumes inv: "graph_inv g" and ok: "unfailed g" and no_run: "Running \<notin> set (bt_values (eg_states g))"
    and unfinished: "\<not> graph_is_complete g"
  shows "ready_nodes g \<noteq> []"
proof -
  let ?nodes = "gp_nodes (eg_plan g)" and ?st = "map_of (eg_states g)"
  note dist = graph_states_distinct [OF inv]
  have wf: "plan_wf (eg_plan g)" and keys: "bt_keys (eg_states g) = bt_keys ?nodes"
    using inv by (simp_all add: graph_inv_def)
  have two: "s = Pending \<or> s = Completed" if s: "s \<in> set (bt_values (eg_states g))" for s
  proof -
    have "s \<noteq> Failed" "s \<noteq> Cancelled" "s \<noteq> Running"
      using s ok no_run unfolding unfailed_def by blast+
    then show ?thesis by (cases s) simp_all
  qed
  have closed: "ns_dependencies node \<subseteq> set (bt_keys ?nodes)" if "(i, node) \<in> set ?nodes" for i node
    using wf that unfolding plan_wf_def by blast
  have edges: "dependency_relation ?nodes \<subseteq> set (bt_keys ?nodes) \<times> set (bt_keys ?nodes)"
  proof
    fix e
    assume "e \<in> dependency_relation ?nodes"
    then obtain d i node where "e = (d, i)" "(i, node) \<in> set ?nodes" "d \<in> ns_dependencies node"
      by (auto simp: dependency_relation_def)
    moreover have "i \<in> set (bt_keys ?nodes)" using calculation(2) by (force simp: bt_keys_def)
    ultimately show "e \<in> set (bt_keys ?nodes) \<times> set (bt_keys ?nodes)" using closed by blast
  qed
  define A where "A = {i. ?st i = Some Pending}"
  obtain s where "s \<in> set (bt_values (eg_states g))" "s \<noteq> Completed"
    using unfinished by (auto simp: graph_is_complete_def list_all_iff)
  with two have "Pending \<in> set (bt_values (eg_states g))" by blast
  from bt_values_map_of [OF dist this] obtain i where "?st i = Some Pending" .
  then have "A \<noteq> {}" unfolding A_def by blast
  moreover have "acyclic (dependency_relation ?nodes)" using wf by (simp add: plan_wf_def)
  moreover have "finite (dependency_relation ?nodes)"
    by (rule finite_subset [OF edges]) simp
  ultimately obtain m where m: "m \<in> A"
    and min: "\<And>b. (b, m) \<in> dependency_relation ?nodes \<Longrightarrow> b \<notin> A"
    using acyclic_has_minimal by metis
  have dom: "(\<exists>s. ?st i = Some s) \<longleftrightarrow> i \<in> set (bt_keys ?nodes)" for i
  proof -
    have "dom ?st = set (bt_keys (eg_states g))"
      by (simp add: bt_keys_def dom_map_of_conv_image_fst)
    then show ?thesis unfolding keys by blast
  qed
  obtain node where node: "(m, node) \<in> set ?nodes"
    using m dom [of m] by (auto simp: A_def bt_keys_def)
  have "?st d = Some Completed" if d: "d \<in> ns_dependencies node" for d
  proof -
    have "d \<in> set (bt_keys ?nodes)" using closed node d by blast
    then obtain s where s: "?st d = Some s" using dom by blast
    moreover have "d \<notin> A" using min node d by (auto simp: dependency_relation_def)
    ultimately show ?thesis using two map_of_in_values [OF s] by (auto simp: A_def)
  qed
  moreover have "ns_id node = m" using wf node by (auto simp: plan_wf_def)
  ultimately have "node_runnable g node" using m by (simp add: node_runnable_def A_def)
  moreover have "node \<in> set (bt_values ?nodes)" using node by (force simp: bt_values_def)
  moreover have "running_count g = 0"
    using no_run by (auto simp: running_count_def filter_empty_conv)
  moreover have "0 < unat (gl_max_parallel_nodes (gp_limits (eg_plan g)))"
    using wf by (auto simp: plan_wf_def graph_limits_validate_def unat_gt_0 split: if_splits)
  ultimately show ?thesis by (auto simp: ready_nodes_def Let_def filter_empty_conv)
qed

lemma usage_add_zero: "graph_usage_add u zero_graph_usage = Inr u"
proof -
  have "checked_add a 0 = Some a" for a :: u32 by (simp add: checked_add_Some)
  then show ?thesis by (simp add: graph_usage_add_def zero_graph_usage_def)
qed

lemma next_call:
  assumes inv: "graph_inv g" and ok: "unfailed g" and unfinished: "\<not> graph_is_complete g"
  obtains call g' where "graph_run call g = (Inr (), g')" and "unfailed g'"
    and "eg_events g' \<noteq> eg_events g"
proof (cases "Running \<in> set (bt_values (eg_states g))")
  case True
  from bt_values_map_of [OF graph_states_distinct [OF inv] this]
  obtain i where i: "map_of (eg_states g) i = Some Running" .
  let ?c = "\<lparr>nc_facts = {}, nc_usage = zero_graph_usage\<rparr>"
  let ?now = "eg_last_observed_millis g"
  let ?g = "(advance i Completed EventCompleted ?now g)
    \<lparr>eg_usage := eg_usage g, eg_facts := eg_facts g \<union> {}\<rparr>"
  have "graph_run (Complete i ?c ?now) g = (Inr (), ?g)"
    using complete_outcome [OF inv i, of ?c "eg_usage g" ?now] usage_add_zero by simp
  moreover have "unfailed ?g"
    using unfailed_advance [OF ok, of Completed i EventCompleted ?now] by (simp add: unfailed_def)
  moreover have "eg_events ?g \<noteq> eg_events g" by (simp add: advance_def)
  ultimately show thesis by (rule that)
next
  case False
  from ready_exists [OF inv ok this unfinished]
  obtain i where i: "i \<in> set (ready_nodes g)" by (meson last_in_set)
  let ?now = "eg_last_observed_millis g"
  let ?g = "advance i Running Started ?now g"
  have "graph_run (Start i ?now) g = (Inr (), ?g)"
    using start_outcome [OF inv i, of ?now] by simp
  moreover have "unfailed ?g" using ok by (simp add: unfailed_advance)
  moreover have "eg_events ?g \<noteq> eg_events g" by (simp add: advance_def)
  ultimately show thesis by (rule that)
qed

lemma drive_to_completion:
  "graph_inv g \<Longrightarrow> unfailed g \<Longrightarrow>
     \<exists>calls g'. graph_run_all calls g = Inr g' \<and> graph_is_complete g'"
proof (induction "graph_fuel g" arbitrary: g rule: less_induct)
  case less
  show ?case
  proof (cases "graph_is_complete g")
    case True
    then have "graph_run_all [] g = Inr g \<and> graph_is_complete g" by simp
    then show ?thesis by blast
  next
    case False
    then obtain call g' where call: "graph_run call g = (Inr (), g')"
      and g': "unfailed g'" "eg_events g' \<noteq> eg_events g"
      using next_call [OF less.prems] by metis
    have "graph_move g g'"
      using call g'(2) graph_call [of g call] by (simp add: graph_move_def)
    moreover have "graph_inv g'" using graph_run_inv [OF less.prems(1), of call] call by simp
    ultimately obtain calls h where "graph_run_all calls g' = Inr h" "graph_is_complete h"
      using less.hyps [OF graph_move_fuel [OF less.prems(1)]] g'(1) by blast
    then have "graph_run_all (call # calls) g = Inr h \<and> graph_is_complete h"
      using call by simp
    then show ?thesis by blast
  qed
qed

lemma initial_unfailed: "graph_initial g \<Longrightarrow> unfailed g"
  by (auto simp: graph_initial_def graph_new_def unfailed_def bt_values_def)

text \<open>A node's last state is final, because its history can only be extended.\<close>

lemma final_history:
  assumes "history_ok s ks" and "\<not> moving s" and "history_ok s' ks'" and "prefix ks ks'"
  shows "s' = s"
  using assms by (cases s; cases s') (auto simp: moving_def)

lemma node_history_extends: "extends g g' \<Longrightarrow> prefix (node_history g i) (node_history g' i)"
  by (auto simp: extends_def node_history_def prefix_def)

lemma final_state_kept:
  assumes inv: "graph_inv g" "graph_inv g'" and "extends g g'"
    and s: "map_of (eg_states g) i = Some s" "\<not> moving s"
  shows "map_of (eg_states g') i = Some s"
proof -
  have "bt_keys (eg_states g') = bt_keys (eg_states g)"
    using assms by (simp add: graph_inv_def extends_def)
  then have "dom (map_of (eg_states g')) = dom (map_of (eg_states g))"
    by (simp add: bt_keys_def dom_map_of_conv_image_fst flip: set_map)
  then obtain s' where s': "map_of (eg_states g') i = Some s'" using s(1) by blast
  have "history_ok s (node_history g i)" "history_ok s' (node_history g' i)"
    using inv s(1) s' by (auto simp: graph_inv_def histories_ok_def)
  then have "s' = s"
    using final_history s(2) node_history_extends [OF assms(3)] by blast
  then show ?thesis using s' by simp
qed

section \<open>The properties\<close>

text \<open>A run of two nodes, one depending on the other, to apply the properties to.\<close>

definition sample_nodes :: "node_spec list" where
  "sample_nodes =
     [\<lparr>ns_id = ''verify'', ns_kind = CandidateVerification, ns_dependencies = {''inspect''}\<rparr>,
      \<lparr>ns_id = ''inspect'', ns_kind = Investigation, ns_dependencies = {}\<rparr>]"

definition sample_plan :: graph_plan where
  "sample_plan = \<lparr>gp_nodes = [(''inspect'', sample_nodes ! 1), (''verify'', sample_nodes ! 0)],
     gp_limits = default_graph_limits\<rparr>"

definition sample_contribution :: node_contribution where
  "sample_contribution = \<lparr>nc_facts = {DiffInspected}, nc_usage = zero_graph_usage\<rparr>"

definition sample_graph :: execution_graph where
  "sample_graph =
     snd (graph_run (Start ''verify'' 30)
       (snd (graph_run (Complete ''inspect'' sample_contribution 20)
         (snd (graph_run (Start ''inspect'' 10) (graph_new sample_plan 0))))))"

lemma sample_initial: "graph_initial (graph_new sample_plan 0)"
proof -
  have "plan_try_new sample_nodes default_graph_limits = Inr sample_plan"
    by code_simp
  then show ?thesis by (auto simp: graph_initial_def)
qed

lemma graph_reachable_call: "graph_reachable g \<Longrightarrow> graph_reachable (snd (graph_run call g))"
  by (rule reachable_step, assumption, rule graph_call)

lemma sample_reachable: "graph_reachable sample_graph"
  unfolding sample_graph_def
  by (intro graph_reachable_call reachable_init sample_initial)

lemmas sample_eval =
  sample_plan_def sample_nodes_def sample_contribution_def zero_graph_usage_def
  default_graph_limits_def graph_start_def graph_complete_def graph_transition_def
  ready_nodes_def running_count_def node_runnable_def graph_new_def graph_usage_add_def
  checked_add_def try_word_def bt_set_def bt_keys_def bt_values_def

lemma sample_states:
  "eg_states sample_graph = [(''inspect'', Completed), (''verify'', Running)]"
  by (simp add: sample_graph_def sample_eval)

lemma sample_inv: "graph_inv sample_graph"
  by (rule graph.reachable_inv [OF sample_reachable])

text \<open>
  \<^bold>\<open>C2.\<close>  In every state the runtime can reach, by any sequence of calls with any
  arguments, a node that has been started (whether it is running, completed or failed)
  has all its dependencies completed.
\<close>

theorem started_after_dependencies:
  assumes "graph_reachable g" and "(i, node) \<in> set (gp_nodes (eg_plan g))"
    and "graph_state i g = Some s" and "s \<in> {Running, Completed, Failed}"
    and "d \<in> ns_dependencies node"
  shows "graph_state d g = Some Completed"
  using graph.reachable_inv [OF assms(1)] assms(2-)
  unfolding graph_inv_def dependencies_done_def entered_def graph_state_def by blast

lemma sample_plan_kept: "eg_plan sample_graph = sample_plan"
  by (simp add: sample_graph_def sample_eval)

theorem started_after_dependencies_witness:
  "graph_state ''verify'' sample_graph = Some Running \<and>
   graph_state ''inspect'' sample_graph = Some Completed"
proof -
  have "graph_state ''verify'' sample_graph = Some Running"
    by (simp add: graph_state_def sample_states)
  moreover have "graph_state ''inspect'' sample_graph = Some Completed"
    by (rule started_after_dependencies
        [OF sample_reachable, of "''verify''" "sample_nodes ! 0" Running])
      (simp_all add: sample_plan_kept sample_plan_def graph_state_def sample_states sample_nodes_def)
  ultimately show ?thesis ..
qed

text \<open>
  No reachable state runs more nodes than \<open>max_parallel_nodes\<close>, and none holds
  more than two journal events per node of the plan, which \<open>max_events\<close> covers: the
  event budget of a validated plan cannot be exhausted.
\<close>

theorem parallelism_and_journal_bounded:
  assumes "graph_reachable g"
  shows "running_count g \<le> unat (gl_max_parallel_nodes (gp_limits (eg_plan g))) \<and>
    length (eg_events g) \<le> 2 * length (gp_nodes (eg_plan g)) \<and>
    2 * length (gp_nodes (eg_plan g)) \<le> unat (gl_max_events (gp_limits (eg_plan g)))"
  using graph.reachable_inv [OF assms] events_bound by (simp add: graph_inv_def)

theorem parallelism_and_journal_bounded_witness:
  "running_count sample_graph \<le> 8 \<and> length (eg_events sample_graph) \<le> 4"
  using parallelism_and_journal_bounded [OF sample_reachable]
  by (simp add: sample_plan_kept sample_plan_def default_graph_limits_def)

text \<open>
  The journal of every reachable state numbers its events 1, 2, 3, ... without
  a gap, its clock readings never go back, and the events of each node are a legal
  history of the node's state: started before it completes or fails, and ended once.
\<close>

theorem journal_is_legal:
  assumes "graph_reachable g"
  shows "map (unat \<circ> ge_sequence) (eg_events g) = [1..<Suc (length (eg_events g))] \<and>
    sorted (map ge_observed_at_millis (eg_events g)) \<and>
    (graph_state i g = Some s \<longrightarrow> history_ok s (node_history g i))"
  using graph.reachable_inv [OF assms]
  by (simp add: graph_inv_def journal_ok_def histories_ok_def graph_state_def)

theorem journal_is_legal_witness:
  "history_ok Completed (node_history sample_graph ''inspect'')"
  using journal_is_legal [OF sample_reachable, of "''inspect''" Completed]
  by (simp add: graph_state_def sample_states)

text \<open>
  Operations are atomic: on a reachable graph a call that returns an error has
  changed nothing, also \<open>cancel_remaining\<close>, which moves several nodes.  The only errors
  are an illegal node, a usage overflow and a clock regression; \<open>EventBudget\<close> and
  \<open>UnknownNode\<close> are never returned.
\<close>

theorem graph_errors_change_nothing:
  assumes "graph_reachable g" and "fst (graph_run call g) = Inl e"
  shows "snd (graph_run call g) = g \<and>
    e \<in> {NodeNotReady, NodeNotRunning, UsageOverflow, GraphClockRegression}"
  using graph_run_error [OF graph.reachable_inv [OF assms(1)] assms(2)] .

theorem graph_errors_change_nothing_witness:
  "graph_run (CancelRemaining 29) sample_graph = (Inl GraphClockRegression, sample_graph)"
proof -
  have "fst (graph_run (CancelRemaining 29) sample_graph) = Inl GraphClockRegression"
    by (simp add: graph_cancel_remaining_def sample_graph_def sample_eval)
  with graph_errors_change_nothing [OF sample_reachable this] show ?thesis
    by (simp add: prod_eq_iff)
qed

text \<open>
  Completed, failed and cancelled are final: no call, successful or not, moves a
  node out of them.
\<close>

theorem ended_nodes_stay_ended:
  assumes "graph_reachable g" and "graph_state i g = Some s"
    and "s \<in> {Completed, Failed, Cancelled}"
  shows "graph_state i (snd (graph_run call g)) = Some s"
proof -
  have inv: "graph_inv g" by (rule graph.reachable_inv [OF assms(1)])
  show ?thesis
    using final_state_kept [OF inv graph_run_inv [OF inv] graph_run_extends, of i s] assms(2,3)
    by (auto simp: graph_state_def moving_def)
qed

theorem ended_nodes_stay_ended_witness:
  "graph_state ''inspect'' (snd (graph_run (CancelRemaining 99) sample_graph)) = Some Completed"
  by (rule ended_nodes_stay_ended [OF sample_reachable]) (simp_all add: graph_state_def sample_states)

text \<open>
  \<^bold>\<open>C3.\<close>  The runtime always ends: from a reachable state there are at most as many
  event-recording calls as events are left of two per node, and from a reachable state
  without failed or cancelled nodes some sequence of calls, all of which succeed,
  completes the graph.
\<close>

theorem graph_runs_end_and_can_complete:
  assumes "graph_reachable g"
  shows "((graph_move ^^ n) g h \<longrightarrow> n \<le> 2 * length (gp_nodes (eg_plan g)) - length (eg_events g)) \<and>
    (unfailed g \<longrightarrow> (\<exists>calls g'. graph_run_all calls g = Inr g' \<and> graph_is_complete g'))"
proof -
  have inv: "graph_inv g" by (rule graph.reachable_inv [OF assms])
  then show ?thesis
    using graph_moves.run_bound [OF _ inv, of n h] drive_to_completion [OF inv]
    by (auto simp: graph_fuel_def)
qed

theorem graph_runs_end_and_can_complete_witness:
  "\<exists>calls g'. graph_run_all calls sample_graph = Inr g' \<and> graph_is_complete g'"
proof -
  have "unfailed sample_graph" by (simp add: unfailed_def bt_values_def sample_states)
  then show ?thesis using graph_runs_end_and_can_complete [OF sample_reachable] by blast
qed

end
