(* ===== verification/Agent_Budget.thy ===== *)
theory Agent_Budget
  imports Prelude
begin

text \<open>
  The review-wide budget ledger of \<open>crates/revoot-core/src/agent.rs\<close>: limits and
  their validation, the ledger's state, and its operations \<open>begin_model_request\<close>,
  \<open>finish_model_request\<close>, \<open>abandon_model_request\<close>, \<open>charge_tool\<close> and
  \<open>charge_candidates\<close>, each with the clock check \<open>observe_time\<close>.

  The lemmas show that every reachable ledger keeps use plus outstanding reservation
  within the limits, that counters only grow, and that a refused call moves at most the
  clock.
\<close>

section \<open>Limits and use\<close>

record budget_limits =
  bl_max_turns :: u32
  bl_max_model_requests :: u32
  bl_max_tool_calls :: u32
  bl_max_repository_files :: u64
  bl_max_repository_bytes :: u64
  bl_max_input_tokens :: u64
  bl_max_output_tokens :: u64
  bl_max_cost_microusd :: u64
  bl_max_candidate_findings :: u32
  bl_max_elapsed_millis :: u64

definition default_budget_limits :: budget_limits where
  "default_budget_limits =
     \<lparr>bl_max_turns = 24, bl_max_model_requests = 24, bl_max_tool_calls = 96,
      bl_max_repository_files = 2000, bl_max_repository_bytes = 32 * 1024 * 1024,
      bl_max_input_tokens = 500000, bl_max_output_tokens = 64000,
      bl_max_cost_microusd = 5000000, bl_max_candidate_findings = 250,
      bl_max_elapsed_millis = 15 * 60 * 1000\<rparr>"

datatype budget_validation_error =
    InvalidTurns | InvalidModelRequests | InvalidToolCalls | InvalidRepositoryFiles
  | InvalidRepositoryBytes | InvalidInputTokens | InvalidOutputTokens
  | InvalidCandidateFindings | InvalidElapsedTime

definition budget_limits_validate :: "budget_limits \<Rightarrow> budget_validation_error + unit" where
  "budget_limits_validate l =
     (if bl_max_turns l = 0 then Inl InvalidTurns
      else if bl_max_model_requests l = 0 \<or> bl_max_model_requests l < bl_max_turns l
      then Inl InvalidModelRequests
      else if bl_max_tool_calls l = 0 then Inl InvalidToolCalls
      else if bl_max_repository_files l = 0 then Inl InvalidRepositoryFiles
      else if bl_max_repository_bytes l = 0 then Inl InvalidRepositoryBytes
      else if bl_max_input_tokens l = 0 then Inl InvalidInputTokens
      else if bl_max_output_tokens l = 0 then Inl InvalidOutputTokens
      else if bl_max_candidate_findings l = 0 then Inl InvalidCandidateFindings
      else if bl_max_elapsed_millis l = 0 then Inl InvalidElapsedTime
      else Inr ())"

datatype budget_dimension =
    Turns | ModelRequests | ToolCalls | RepositoryFiles | RepositoryBytes | InputTokens
  | OutputTokens | Cost | CandidateFindings | ElapsedTime

record budget_usage =
  bu_turns :: u32
  bu_model_requests :: u32
  bu_tool_calls :: u32
  bu_repository_files :: u64
  bu_repository_bytes :: u64
  bu_input_tokens :: u64
  bu_output_tokens :: u64
  bu_cost_microusd :: u64
  bu_candidate_findings :: u32
  bu_elapsed_millis :: u64

definition zero_budget_usage :: budget_usage where
  "zero_budget_usage =
     \<lparr>bu_turns = 0, bu_model_requests = 0, bu_tool_calls = 0, bu_repository_files = 0,
      bu_repository_bytes = 0, bu_input_tokens = 0, bu_output_tokens = 0,
      bu_cost_microusd = 0, bu_candidate_findings = 0, bu_elapsed_millis = 0\<rparr>"

datatype budget_error =
    InvalidLimits budget_validation_error
  | ClockRegression
  | Exhausted budget_dimension
  | ModelRequestInFlight
  | NoModelRequestInFlight
  | ModelRequestMismatch
  | ReservationExceeded budget_dimension

record reservation =
  rs_input_tokens :: u64
  rs_output_tokens :: u64
  rs_cost_microusd :: u64

record request_usage =
  ru_input_tokens :: u64
  ru_output_tokens :: u64
  ru_cost_microusd :: u64

record in_flight =
  if_id :: u32
  if_reservation :: reservation

record agent_budget =
  ab_limits :: budget_limits
  ab_usage :: budget_usage
  ab_started_at_millis :: u64
  ab_last_observed_millis :: u64
  ab_in_flight :: "in_flight option"

section \<open>The operations\<close>

definition budget_new :: "budget_limits \<Rightarrow> u64 \<Rightarrow> budget_error + agent_budget" where
  "budget_new limits started_at_millis =
     and_then (map_err InvalidLimits (budget_limits_validate limits)) (\<lambda>_.
     Inr \<lparr>ab_limits = limits, ab_usage = zero_budget_usage,
       ab_started_at_millis = started_at_millis,
       ab_last_observed_millis = started_at_millis, ab_in_flight = None\<rparr>)"

text \<open>\<open>ensure_u32\<close> and \<open>ensure_u64\<close>, which differ in the width only.\<close>

definition ensure_word ::
    "'w::len word \<Rightarrow> 'w word \<Rightarrow> 'w word \<Rightarrow> budget_dimension \<Rightarrow> budget_error + unit" where
  "ensure_word current added maximum dimension =
     (case checked_add current added of
        None \<Rightarrow> Inl (Exhausted dimension)
      | Some value \<Rightarrow> if maximum < value then Inl (Exhausted dimension) else Inr ())"

definition observe_time :: "u64 \<Rightarrow> agent_budget \<Rightarrow> (budget_error + unit) \<times> agent_budget" where
  "observe_time now b =
     (if now < ab_last_observed_millis b then (Inl ClockRegression, b)
      else let elapsed = saturating_sub now (ab_started_at_millis b)
        in if bl_max_elapsed_millis (ab_limits b) < elapsed
          then (Inl (Exhausted ElapsedTime), b)
          else (Inr (), b\<lparr>ab_last_observed_millis := now,
                  ab_usage := (ab_usage b)\<lparr>bu_elapsed_millis := elapsed\<rparr>\<rparr>))"

text \<open>The updates \<open>begin_model_request\<close> makes once every check has passed.\<close>

definition reserve :: "reservation \<Rightarrow> agent_budget \<Rightarrow> agent_budget" where
  "reserve r b =
     (let u = (ab_usage b)\<lparr>bu_turns := saturating_add (bu_turns (ab_usage b)) 1,
            bu_model_requests := saturating_add (bu_model_requests (ab_usage b)) 1\<rparr>
      in b\<lparr>ab_usage := u,
           ab_in_flight := Some \<lparr>if_id = bu_model_requests u, if_reservation = r\<rparr>\<rparr>)"

definition begin_model_request ::
    "reservation \<Rightarrow> u64 \<Rightarrow> agent_budget \<Rightarrow> (budget_error + u32) \<times> agent_budget" where
  "begin_model_request r now b0 =
     and_run (observe_time now b0) (\<lambda>_ b.
     and_lift (reject_if (ab_in_flight b \<noteq> None) ModelRequestInFlight) b (\<lambda>_.
     and_lift (ensure_word (bu_turns (ab_usage b)) 1 (bl_max_turns (ab_limits b)) Turns) b (\<lambda>_.
     and_lift (ensure_word (bu_model_requests (ab_usage b)) 1
       (bl_max_model_requests (ab_limits b)) ModelRequests) b (\<lambda>_.
     and_lift (ensure_word (bu_input_tokens (ab_usage b)) (rs_input_tokens r)
       (bl_max_input_tokens (ab_limits b)) InputTokens) b (\<lambda>_.
     and_lift (ensure_word (bu_output_tokens (ab_usage b)) (rs_output_tokens r)
       (bl_max_output_tokens (ab_limits b)) OutputTokens) b (\<lambda>_.
     and_lift (ensure_word (bu_cost_microusd (ab_usage b)) (rs_cost_microusd r)
       (bl_max_cost_microusd (ab_limits b)) Cost) b (\<lambda>_.
     let b' = reserve r b in (Inr (bu_model_requests (ab_usage b')), b'))))))))"

text \<open>The charge both ways of settling a request end with.\<close>

definition settle :: "u64 \<Rightarrow> u64 \<Rightarrow> u64 \<Rightarrow> agent_budget \<Rightarrow> agent_budget" where
  "settle input output_tokens cost b =
     b\<lparr>ab_usage := (ab_usage b)
         \<lparr>bu_input_tokens := saturating_add (bu_input_tokens (ab_usage b)) input,
          bu_output_tokens := saturating_add (bu_output_tokens (ab_usage b)) output_tokens,
          bu_cost_microusd := saturating_add (bu_cost_microusd (ab_usage b)) cost\<rparr>,
       ab_in_flight := None\<rparr>"

definition finish_model_request ::
    "u32 \<Rightarrow> request_usage \<Rightarrow> u64 \<Rightarrow> agent_budget \<Rightarrow> (budget_error + unit) \<times> agent_budget" where
  "finish_model_request request_id u now b0 =
     and_run (observe_time now b0) (\<lambda>_ b.
     and_lift (ok_or NoModelRequestInFlight (ab_in_flight b)) b (\<lambda>request.
     and_lift (reject_if (if_id request \<noteq> request_id) ModelRequestMismatch) b (\<lambda>_.
     and_lift (reject_if (rs_input_tokens (if_reservation request) < ru_input_tokens u)
       (ReservationExceeded InputTokens)) b (\<lambda>_.
     and_lift (reject_if (rs_output_tokens (if_reservation request) < ru_output_tokens u)
       (ReservationExceeded OutputTokens)) b (\<lambda>_.
     and_lift (reject_if (rs_cost_microusd (if_reservation request) < ru_cost_microusd u)
       (ReservationExceeded Cost)) b (\<lambda>_.
     (Inr (), settle (ru_input_tokens u) (ru_output_tokens u) (ru_cost_microusd u) b)))))))"

definition abandon_model_request ::
    "u32 \<Rightarrow> u64 \<Rightarrow> agent_budget \<Rightarrow> (budget_error + unit) \<times> agent_budget" where
  "abandon_model_request request_id now b0 =
     and_run (observe_time now b0) (\<lambda>_ b.
     and_lift (ok_or NoModelRequestInFlight (ab_in_flight b)) b (\<lambda>request.
     and_lift (reject_if (if_id request \<noteq> request_id) ModelRequestMismatch) b (\<lambda>_.
     (Inr (), settle (rs_input_tokens (if_reservation request))
        (rs_output_tokens (if_reservation request))
        (rs_cost_microusd (if_reservation request)) b))))"

definition charge_tool ::
    "u32 \<Rightarrow> u64 \<Rightarrow> u64 \<Rightarrow> u64 \<Rightarrow> agent_budget \<Rightarrow> (budget_error + unit) \<times> agent_budget" where
  "charge_tool calls files bytes now b0 =
     and_run (observe_time now b0) (\<lambda>_ b.
     and_lift (ensure_word (bu_tool_calls (ab_usage b)) calls
       (bl_max_tool_calls (ab_limits b)) ToolCalls) b (\<lambda>_.
     and_lift (ensure_word (bu_repository_files (ab_usage b)) files
       (bl_max_repository_files (ab_limits b)) RepositoryFiles) b (\<lambda>_.
     and_lift (ensure_word (bu_repository_bytes (ab_usage b)) bytes
       (bl_max_repository_bytes (ab_limits b)) RepositoryBytes) b (\<lambda>_.
     (Inr (), b\<lparr>ab_usage := (ab_usage b)
        \<lparr>bu_tool_calls := saturating_add (bu_tool_calls (ab_usage b)) calls,
         bu_repository_files := saturating_add (bu_repository_files (ab_usage b)) files,
         bu_repository_bytes := saturating_add (bu_repository_bytes (ab_usage b)) bytes\<rparr>\<rparr>)))))"

definition charge_candidates ::
    "u32 \<Rightarrow> agent_budget \<Rightarrow> (budget_error + unit) \<times> agent_budget" where
  "charge_candidates added b =
     and_lift (ensure_word (bu_candidate_findings (ab_usage b)) added
       (bl_max_candidate_findings (ab_limits b)) CandidateFindings) b (\<lambda>_.
     (Inr (), b\<lparr>ab_usage := (ab_usage b)
        \<lparr>bu_candidate_findings := saturating_add (bu_candidate_findings (ab_usage b)) added\<rparr>\<rparr>))"

section \<open>The ledger as a transition system\<close>

datatype budget_call =
    BeginRequest reservation u64
  | FinishRequest u32 request_usage u64
  | AbandonRequest u32 u64
  | ChargeTool u32 u64 u64 u64
  | ChargeCandidates u32

text \<open>The ledger after a call, and the error the call returned, if any.\<close>

definition outcome :: "('e + 'a) \<times> 's \<Rightarrow> 'e option \<times> 's" where
  "outcome m = (case m of (Inl e, s) \<Rightarrow> (Some e, s) | (Inr _, s) \<Rightarrow> (None, s))"

fun budget_run :: "budget_call \<Rightarrow> agent_budget \<Rightarrow> budget_error option \<times> agent_budget" where
  "budget_run (BeginRequest r now) b = outcome (begin_model_request r now b)"
| "budget_run (FinishRequest i u now) b = outcome (finish_model_request i u now b)"
| "budget_run (AbandonRequest i now) b = outcome (abandon_model_request i now b)"
| "budget_run (ChargeTool calls files bytes now) b = outcome (charge_tool calls files bytes now b)"
| "budget_run (ChargeCandidates n) b = outcome (charge_candidates n b)"

definition budget_initial :: "agent_budget \<Rightarrow> bool" where
  "budget_initial b \<longleftrightarrow> (\<exists>limits t. budget_new limits t = Inr b)"

inductive budget_step :: "agent_budget \<Rightarrow> agent_budget \<Rightarrow> bool" where
  budget_call: "budget_step b (snd (budget_run call b))"

inductive_cases budget_stepE: "budget_step b b'"

abbreviation budget_reachable :: "agent_budget \<Rightarrow> bool" where
  "budget_reachable \<equiv> reachable budget_initial budget_step"

text \<open>Use together with what the request in flight has reserved.\<close>

definition reserved :: "(reservation \<Rightarrow> u64) \<Rightarrow> agent_budget \<Rightarrow> nat" where
  "reserved field b =
     (case ab_in_flight b of None \<Rightarrow> 0 | Some r \<Rightarrow> unat (field (if_reservation r)))"

definition committed :: "(budget_usage \<Rightarrow> u64) \<Rightarrow> (reservation \<Rightarrow> u64) \<Rightarrow> agent_budget \<Rightarrow> nat" where
  "committed used field b = unat (used (ab_usage b)) + reserved field b"

definition within_limits :: "agent_budget \<Rightarrow> bool" where
  "within_limits b \<longleftrightarrow>
     (let u = ab_usage b; l = ab_limits b in
        bu_turns u \<le> bl_max_turns l \<and>
        bu_model_requests u \<le> bl_max_model_requests l \<and>
        bu_tool_calls u \<le> bl_max_tool_calls l \<and>
        bu_repository_files u \<le> bl_max_repository_files l \<and>
        bu_repository_bytes u \<le> bl_max_repository_bytes l \<and>
        bu_candidate_findings u \<le> bl_max_candidate_findings l \<and>
        bu_elapsed_millis u \<le> bl_max_elapsed_millis l \<and>
        committed bu_input_tokens rs_input_tokens b \<le> unat (bl_max_input_tokens l) \<and>
        committed bu_output_tokens rs_output_tokens b \<le> unat (bl_max_output_tokens l) \<and>
        committed bu_cost_microusd rs_cost_microusd b \<le> unat (bl_max_cost_microusd l))"

definition budget_inv :: "agent_budget \<Rightarrow> bool" where
  "budget_inv b \<longleftrightarrow>
     within_limits b \<and>
     ab_started_at_millis b \<le> ab_last_observed_millis b \<and>
     bu_elapsed_millis (ab_usage b) = ab_last_observed_millis b - ab_started_at_millis b \<and>
     bu_turns (ab_usage b) = bu_model_requests (ab_usage b) \<and>
     (\<forall>r. ab_in_flight b = Some r \<longrightarrow> if_id r = bu_model_requests (ab_usage b))"

lemma ensure_word_ok:
  "ensure_word c a m d = Inr () \<longleftrightarrow> unat c + unat a \<le> unat m" for c :: "'w::len word"
proof (cases "checked_add c a")
  case None
  then have "2 ^ LENGTH('w) \<le> unat c + unat a" by (simp add: checked_add_None)
  moreover have "unat m < 2 ^ LENGTH('w)" by simp
  ultimately have "\<not> unat c + unat a \<le> unat m" by linarith
  then show ?thesis using None by (simp add: ensure_word_def)
next
  case (Some v)
  then have "unat v = unat c + unat a" by (simp add: checked_add_Some)
  then show ?thesis
    using Some by (simp add: ensure_word_def word_less_nat_alt not_less)
qed

lemma ensure_word_cases:
  obtains "unat c + unat a \<le> unat m" "ensure_word c a m d = Inr ()"
    | "unat m < unat c + unat a" "ensure_word c a m d = Inl (Exhausted d)"
proof (cases "unat c + unat a \<le> unat m")
  case True
  then show ?thesis using that ensure_word_ok by blast
next
  case False
  then have "ensure_word c a m d \<noteq> Inr ()" by (simp add: ensure_word_ok)
  then have "ensure_word c a m d = Inl (Exhausted d)"
    by (auto simp: ensure_word_def split: option.splits if_splits)
  with False show ?thesis using that by simp
qed

lemma charge_le:
  "unat c + unat a \<le> unat m \<Longrightarrow> saturating_add c a \<le> m" for c :: "'w::len word"
  by (simp add: word_le_nat_alt saturating_add_exact)

section \<open>What each operation does\<close>

definition observed :: "u64 \<Rightarrow> agent_budget \<Rightarrow> agent_budget" where
  "observed now b = b\<lparr>ab_last_observed_millis := now,
     ab_usage := (ab_usage b)\<lparr>bu_elapsed_millis := saturating_sub now (ab_started_at_millis b)\<rparr>\<rparr>"

definition clock_ok :: "u64 \<Rightarrow> agent_budget \<Rightarrow> bool" where
  "clock_ok now b \<longleftrightarrow> ab_last_observed_millis b \<le> now \<and>
     saturating_sub now (ab_started_at_millis b) \<le> bl_max_elapsed_millis (ab_limits b)"

lemma observe_time_eq:
  "observe_time now b =
     (if clock_ok now b then (Inr (), observed now b)
      else (Inl (if now < ab_last_observed_millis b then ClockRegression else Exhausted ElapsedTime), b))"
  by (auto simp: observe_time_def observed_def clock_ok_def Let_def not_less)

lemma observed_simps [simp]:
  "ab_limits (observed now b) = ab_limits b"
  "ab_in_flight (observed now b) = ab_in_flight b"
  "ab_started_at_millis (observed now b) = ab_started_at_millis b"
  "ab_last_observed_millis (observed now b) = now"
  "ab_usage (observed now b) =
     (ab_usage b)\<lparr>bu_elapsed_millis := saturating_sub now (ab_started_at_millis b)\<rparr>"
  by (simp_all add: observed_def)

lemma observed_inv:
  assumes "budget_inv b" and "clock_ok now b"
  shows "budget_inv (observed now b)"
  using assms by (auto simp: budget_inv_def within_limits_def committed_def reserved_def
      clock_ok_def Let_def saturating_sub_def)

definition fits :: "'w::len word \<Rightarrow> 'w word \<Rightarrow> 'w word \<Rightarrow> bool" where
  "fits used added maximum \<longleftrightarrow> unat used + unat added \<le> unat maximum"

lemma ensure_word_eq:
  "ensure_word c a m d = (if fits c a m then Inr () else Inl (Exhausted d))"
  by (rule ensure_word_cases [of c a m d]) (simp_all add: fits_def)

text \<open>Each operation either refuses, having moved at most the clock, or makes its update.\<close>

definition reservable :: "reservation \<Rightarrow> agent_budget \<Rightarrow> bool" where
  "reservable r b \<longleftrightarrow> ab_in_flight b = None \<and>
     fits (bu_turns (ab_usage b)) 1 (bl_max_turns (ab_limits b)) \<and>
     fits (bu_model_requests (ab_usage b)) 1 (bl_max_model_requests (ab_limits b)) \<and>
     fits (bu_input_tokens (ab_usage b)) (rs_input_tokens r) (bl_max_input_tokens (ab_limits b)) \<and>
     fits (bu_output_tokens (ab_usage b)) (rs_output_tokens r) (bl_max_output_tokens (ab_limits b)) \<and>
     fits (bu_cost_microusd (ab_usage b)) (rs_cost_microusd r) (bl_max_cost_microusd (ab_limits b))"

definition covered :: "request_usage \<Rightarrow> reservation \<Rightarrow> bool" where
  "covered u r \<longleftrightarrow> ru_input_tokens u \<le> rs_input_tokens r \<and>
     ru_output_tokens u \<le> rs_output_tokens r \<and> ru_cost_microusd u \<le> rs_cost_microusd r"

definition chargeable :: "u32 \<Rightarrow> u64 \<Rightarrow> u64 \<Rightarrow> agent_budget \<Rightarrow> bool" where
  "chargeable calls files bytes b \<longleftrightarrow>
     fits (bu_tool_calls (ab_usage b)) calls (bl_max_tool_calls (ab_limits b)) \<and>
     fits (bu_repository_files (ab_usage b)) files (bl_max_repository_files (ab_limits b)) \<and>
     fits (bu_repository_bytes (ab_usage b)) bytes (bl_max_repository_bytes (ab_limits b))"

lemma begin_cases:
  obtains (refused) e where "\<not> (clock_ok now b \<and> reservable r b)"
      "begin_model_request r now b = (Inl e, snd (observe_time now b))"
    | (reserved) "clock_ok now b" "reservable r b"
      "begin_model_request r now b =
        (Inr (saturating_add (bu_model_requests (ab_usage b)) 1), reserve r (observed now b))"
proof (cases "clock_ok now b \<and> reservable r b")
  case True
  then show thesis
    by (intro reserved)
      (simp_all add: begin_model_request_def observe_time_eq ensure_word_eq reservable_def
        reserve_def Let_def)
next
  case False
  then have "\<exists>e. begin_model_request r now b = (Inl e, snd (observe_time now b))"
    by (auto simp: begin_model_request_def observe_time_eq ensure_word_eq reservable_def
        reject_if_def)
  then show thesis using False refused by blast
qed

lemma finish_cases:
  obtains (refused) e where "finish_model_request i u now b = (Inl e, snd (observe_time now b))"
      "\<not> (clock_ok now b \<and> (\<exists>r. ab_in_flight b = Some r \<and> if_id r = i \<and> covered u (if_reservation r)))"
    | (settled) r where "clock_ok now b" "ab_in_flight b = Some r" "if_id r = i"
      "covered u (if_reservation r)"
      "finish_model_request i u now b =
        (Inr (), settle (ru_input_tokens u) (ru_output_tokens u) (ru_cost_microusd u) (observed now b))"
proof (cases "clock_ok now b \<and> (\<exists>r. ab_in_flight b = Some r \<and> if_id r = i \<and> covered u (if_reservation r))")
  case True
  then obtain r where "clock_ok now b" "ab_in_flight b = Some r" "if_id r = i"
    "covered u (if_reservation r)" by blast
  then show thesis
    by (intro settled)
      (simp_all add: finish_model_request_def observe_time_eq covered_def reject_if_def not_less)
next
  case False
  then have "\<exists>e. finish_model_request i u now b = (Inl e, snd (observe_time now b))"
    by (cases "ab_in_flight b")
      (auto simp: finish_model_request_def observe_time_eq covered_def reject_if_def not_le)
  then show thesis using False refused by blast
qed

lemma abandon_cases:
  obtains (refused) e where "abandon_model_request i now b = (Inl e, snd (observe_time now b))"
      "\<not> (clock_ok now b \<and> (\<exists>r. ab_in_flight b = Some r \<and> if_id r = i))"
    | (settled) r where "clock_ok now b" "ab_in_flight b = Some r" "if_id r = i"
      "abandon_model_request i now b =
        (Inr (), settle (rs_input_tokens (if_reservation r)) (rs_output_tokens (if_reservation r))
           (rs_cost_microusd (if_reservation r)) (observed now b))"
proof (cases "clock_ok now b \<and> (\<exists>r. ab_in_flight b = Some r \<and> if_id r = i)")
  case True
  then obtain r where "clock_ok now b" "ab_in_flight b = Some r" "if_id r = i" by blast
  then show thesis
    by (intro settled) (simp_all add: abandon_model_request_def observe_time_eq)
next
  case False
  then have "\<exists>e. abandon_model_request i now b = (Inl e, snd (observe_time now b))"
    by (cases "ab_in_flight b")
      (auto simp: abandon_model_request_def observe_time_eq reject_if_def)
  then show thesis using False refused by blast
qed

definition tool_charged :: "u32 \<Rightarrow> u64 \<Rightarrow> u64 \<Rightarrow> agent_budget \<Rightarrow> agent_budget" where
  "tool_charged calls files bytes b =
     b\<lparr>ab_usage := (ab_usage b)
        \<lparr>bu_tool_calls := saturating_add (bu_tool_calls (ab_usage b)) calls,
         bu_repository_files := saturating_add (bu_repository_files (ab_usage b)) files,
         bu_repository_bytes := saturating_add (bu_repository_bytes (ab_usage b)) bytes\<rparr>\<rparr>"

lemma charge_tool_cases:
  obtains (refused) e where "\<not> (clock_ok now b \<and> chargeable calls files bytes b)"
      "charge_tool calls files bytes now b = (Inl e, snd (observe_time now b))"
    | (charged) "clock_ok now b" "chargeable calls files bytes b"
      "charge_tool calls files bytes now b = (Inr (), tool_charged calls files bytes (observed now b))"
proof (cases "clock_ok now b \<and> chargeable calls files bytes b")
  case True
  then show thesis
    by (intro charged)
      (simp_all add: charge_tool_def observe_time_eq ensure_word_eq chargeable_def tool_charged_def)
next
  case False
  then have "\<exists>e. charge_tool calls files bytes now b = (Inl e, snd (observe_time now b))"
    by (auto simp: charge_tool_def observe_time_eq ensure_word_eq chargeable_def)
  then show thesis using False refused by blast
qed

lemma charge_candidates_eq:
  "charge_candidates n b =
     (if fits (bu_candidate_findings (ab_usage b)) n (bl_max_candidate_findings (ab_limits b))
      then (Inr (), b\<lparr>ab_usage := (ab_usage b)
        \<lparr>bu_candidate_findings := saturating_add (bu_candidate_findings (ab_usage b)) n\<rparr>\<rparr>)
      else (Inl (Exhausted CandidateFindings), b))"
  by (simp add: charge_candidates_def ensure_word_eq)

section \<open>The invariant\<close>

lemma budget_inv_initial: "budget_initial b \<Longrightarrow> budget_inv b"
  by (auto simp: budget_initial_def budget_new_def budget_inv_def within_limits_def committed_def
      reserved_def zero_budget_usage_def Let_def result_simps)

lemma reservable_observed [simp]: "reservable r (observed now b) = reservable r b"
  by (simp add: reservable_def)

lemma chargeable_observed [simp]: "chargeable c f n (observed now b) = chargeable c f n b"
  by (simp add: chargeable_def)

lemma reserve_inv:
  assumes "budget_inv b" and "reservable r b"
  shows "budget_inv (reserve r b)"
  using assms by (auto simp: budget_inv_def within_limits_def committed_def reserved_def reserve_def
      reservable_def fits_def Let_def intro!: charge_le)

lemma settle_field:
  fixes used paid held m :: u64
  assumes "unat used + unat held \<le> unat m" and "paid \<le> held"
  shows "unat (saturating_add used paid) \<le> unat m"
proof -
  have "unat paid \<le> unat held" using assms(2) by (simp add: word_le_nat_alt)
  then show ?thesis using assms(1) by (simp add: unat_saturating_add)
qed

lemma settle_inv:
  assumes "budget_inv b" and "ab_in_flight b = Some r" and "input \<le> rs_input_tokens (if_reservation r)"
    and "out \<le> rs_output_tokens (if_reservation r)" and "cost \<le> rs_cost_microusd (if_reservation r)"
  shows "budget_inv (settle input out cost b)"
  using assms by (auto simp: budget_inv_def within_limits_def committed_def reserved_def settle_def
      Let_def intro!: settle_field)

lemma tool_charged_inv:
  assumes "budget_inv b" and "chargeable calls files bytes b"
  shows "budget_inv (tool_charged calls files bytes b)"
  using assms by (auto simp: budget_inv_def within_limits_def committed_def reserved_def
      tool_charged_def chargeable_def fits_def Let_def intro!: charge_le)

lemma candidates_inv:
  assumes "budget_inv b"
  shows "budget_inv (snd (charge_candidates n b))"
  using assms by (auto simp: charge_candidates_eq budget_inv_def within_limits_def committed_def
      reserved_def fits_def Let_def intro!: charge_le)

lemma snd_observe_time_inv: "budget_inv b \<Longrightarrow> budget_inv (snd (observe_time now b))"
  by (simp add: observe_time_eq observed_inv)

lemma snd_outcome [simp]: "snd (outcome m) = snd m"
  by (simp add: outcome_def split: prod.split sum.split)

lemma begin_inv: "budget_inv b \<Longrightarrow> budget_inv (snd (begin_model_request r now b))"
  by (rule begin_cases [of now b r]) (simp_all add: snd_observe_time_inv reserve_inv observed_inv)

lemma finish_inv: "budget_inv b \<Longrightarrow> budget_inv (snd (finish_model_request i u now b))"
  by (rule finish_cases [of i u now b])
    (simp_all add: snd_observe_time_inv settle_inv observed_inv covered_def)

lemma abandon_inv: "budget_inv b \<Longrightarrow> budget_inv (snd (abandon_model_request i now b))"
  by (rule abandon_cases [of i now b])
    (simp_all add: snd_observe_time_inv settle_inv observed_inv)

lemma charge_tool_inv: "budget_inv b \<Longrightarrow> budget_inv (snd (charge_tool c f n now b))"
  by (rule charge_tool_cases [of now b c f n])
    (simp_all add: snd_observe_time_inv tool_charged_inv observed_inv)

lemmas budget_ops_inv =
  begin_inv finish_inv abandon_inv charge_tool_inv candidates_inv

lemma budget_run_inv: "budget_inv b \<Longrightarrow> budget_inv (snd (budget_run call b))"
  by (cases call) (simp_all add: budget_ops_inv)

interpretation budget: transition_system budget_initial budget_step budget_inv
  by unfold_locales (auto simp: budget_inv_initial budget_run_inv elim: budget_stepE)

section \<open>Counters only grow\<close>

definition usage_le :: "budget_usage \<Rightarrow> budget_usage \<Rightarrow> bool" where
  "usage_le u v \<longleftrightarrow>
     bu_turns u \<le> bu_turns v \<and> bu_model_requests u \<le> bu_model_requests v \<and>
     bu_tool_calls u \<le> bu_tool_calls v \<and> bu_repository_files u \<le> bu_repository_files v \<and>
     bu_repository_bytes u \<le> bu_repository_bytes v \<and> bu_input_tokens u \<le> bu_input_tokens v \<and>
     bu_output_tokens u \<le> bu_output_tokens v \<and> bu_cost_microusd u \<le> bu_cost_microusd v \<and>
     bu_candidate_findings u \<le> bu_candidate_findings v \<and>
     bu_elapsed_millis u \<le> bu_elapsed_millis v"

lemma usage_le_refl [simp]: "usage_le u u"
  by (simp add: usage_le_def)

lemma usage_le_trans: "usage_le u v \<Longrightarrow> usage_le v w \<Longrightarrow> usage_le u w"
  by (auto simp: usage_le_def)

lemma observed_grows:
  assumes "budget_inv b" and "clock_ok now b"
  shows "usage_le (ab_usage b) (ab_usage (observed now b))"
proof -
  have "ab_last_observed_millis b - ab_started_at_millis b \<le> saturating_sub now (ab_started_at_millis b)"
    using assms by (auto simp: budget_inv_def clock_ok_def saturating_sub_def intro!: word_le_minus_mono_left)
  then show ?thesis using assms by (simp add: usage_le_def budget_inv_def)
qed

lemma update_grows:
  "usage_le (ab_usage b) (ab_usage (reserve r b))"
  "usage_le (ab_usage b) (ab_usage (settle input out cost b))"
  "usage_le (ab_usage b) (ab_usage (tool_charged calls files bytes b))"
  "usage_le (ab_usage b) (ab_usage (snd (charge_candidates n b)))"
  by (simp_all add: usage_le_def reserve_def settle_def tool_charged_def charge_candidates_eq
      saturating_add_ge Let_def)

lemma refused_grows: "budget_inv b \<Longrightarrow> usage_le (ab_usage b) (ab_usage (snd (observe_time now b)))"
  using observed_grows [of b now] by (simp add: observe_time_eq)

lemma budget_run_grows:
  assumes inv: "budget_inv b"
  shows "usage_le (ab_usage b) (ab_usage (snd (budget_run call b)))"
proof (cases call)
  case (BeginRequest r now)
  then show ?thesis
    by (cases rule: begin_cases [of now b r])
      (simp_all add: refused_grows [OF inv] usage_le_trans [OF observed_grows [OF inv] update_grows(1)])
next
  case (FinishRequest i u now)
  then show ?thesis
    by (cases rule: finish_cases [of i u now b])
      (simp_all add: refused_grows [OF inv] usage_le_trans [OF observed_grows [OF inv] update_grows(2)])
next
  case (AbandonRequest i now)
  then show ?thesis
    by (cases rule: abandon_cases [of i now b])
      (simp_all add: refused_grows [OF inv] usage_le_trans [OF observed_grows [OF inv] update_grows(2)])
next
  case (ChargeTool calls files bytes now)
  then show ?thesis
    by (cases rule: charge_tool_cases [of now b calls files bytes])
      (simp_all add: refused_grows [OF inv] usage_le_trans [OF observed_grows [OF inv] update_grows(3)])
next
  case (ChargeCandidates n)
  then show ?thesis by (simp add: update_grows(4))
qed

section \<open>The properties\<close>

text \<open>A ledger with one request in flight and one tool call charged.\<close>

definition sample_reservation :: reservation where
  "sample_reservation =
     \<lparr>rs_input_tokens = 1000, rs_output_tokens = 200, rs_cost_microusd = 5000\<rparr>"

definition sample_fresh :: agent_budget where
  "sample_fresh = \<lparr>ab_limits = default_budget_limits, ab_usage = zero_budget_usage,
     ab_started_at_millis = 100, ab_last_observed_millis = 100, ab_in_flight = None\<rparr>"

definition sample_budget :: agent_budget where
  "sample_budget = snd (budget_run (ChargeTool 1 3 4096 300)
     (snd (budget_run (BeginRequest sample_reservation 200) sample_fresh)))"

lemma budget_reachable_call:
  "budget_reachable b \<Longrightarrow> budget_reachable (snd (budget_run call b))"
  by (rule reachable_step, assumption, rule budget_call)

lemma sample_fresh_initial: "budget_reachable sample_fresh"
proof (rule reachable_init)
  have "budget_new default_budget_limits 100 = Inr sample_fresh"
    by (simp add: budget_new_def sample_fresh_def default_budget_limits_def budget_limits_validate_def)
  then show "budget_initial sample_fresh" unfolding budget_initial_def by blast
qed

lemma sample_budget_reachable: "budget_reachable sample_budget"
  unfolding sample_budget_def by (intro budget_reachable_call sample_fresh_initial)

lemmas budget_eval =
  sample_fresh_def sample_reservation_def default_budget_limits_def zero_budget_usage_def
  begin_model_request_def finish_model_request_def abandon_model_request_def charge_tool_def
  observe_time_def ensure_word_def checked_add_def saturating_add_def saturating_sub_def
  reserve_def settle_def outcome_def

lemma sample_budget_value:
  "sample_budget = \<lparr>ab_limits = default_budget_limits,
     ab_usage = zero_budget_usage\<lparr>bu_turns := 1, bu_model_requests := 1, bu_tool_calls := 1,
       bu_repository_files := 3, bu_repository_bytes := 4096, bu_elapsed_millis := 200\<rparr>,
     ab_started_at_millis = 100, ab_last_observed_millis = 300,
     ab_in_flight = Some \<lparr>if_id = 1, if_reservation = sample_reservation\<rparr>\<rparr>"
  by (simp add: sample_budget_def budget_eval)

text \<open>
  \<^bold>\<open>C4.\<close>  In every ledger that calls can produce, whatever their arguments and results,
  each counter is within its limit, and the tokens and the cost used so far plus those
  the request in flight has reserved are within theirs, as plain numbers without
  wrap-around.
\<close>

theorem budget_never_exceeded:
  assumes "budget_reachable b"
  shows "within_limits b"
  using budget.reachable_inv [OF assms] by (simp add: budget_inv_def)

theorem budget_never_exceeded_witness: "within_limits sample_budget"
  by (rule budget_never_exceeded [OF sample_budget_reachable])

text \<open>
  Every counter of the ledger is monotone: no call, successful or refused, ever
  decreases one.
\<close>

theorem budget_counters_monotone:
  assumes "budget_reachable b"
  shows "usage_le (ab_usage b) (ab_usage (snd (budget_run call b)))"
  using budget_run_grows [OF budget.reachable_inv [OF assms]] .

theorem budget_counters_monotone_witness:
  "usage_le (ab_usage sample_budget) (ab_usage (snd (budget_run (AbandonRequest 1 400) sample_budget)))"
  by (rule budget_counters_monotone [OF sample_budget_reachable])

text \<open>
  A refused call changes nothing except the clock: it leaves the request in
  flight and every counter but the elapsed time as they were.  The elapsed time and the
  last observation do move when the clock check passes and a later check refuses.
\<close>

theorem refused_call_moves_clock_only:
  assumes "fst (budget_run call b) = Some e"
  shows "snd (budget_run call b) = b \<or>
    (\<exists>now. clock_ok now b \<and> snd (budget_run call b) = observed now b)"
proof -
  have clock: "snd (observe_time now b) = b \<or> clock_ok now b \<and> snd (observe_time now b) = observed now b"
    for now by (simp add: observe_time_eq)
  show ?thesis
  proof (cases call)
    case (BeginRequest r now)
    then show ?thesis using clock [of now] assms
      by (cases rule: begin_cases [of now b r]) (auto simp: outcome_def)
  next
    case (FinishRequest i u now)
    then show ?thesis using clock [of now] assms
      by (cases rule: finish_cases [of i u now b]) (auto simp: outcome_def)
  next
    case (AbandonRequest i now)
    then show ?thesis using clock [of now] assms
      by (cases rule: abandon_cases [of i now b]) (auto simp: outcome_def)
  next
    case (ChargeTool calls files bytes now)
    then show ?thesis using clock [of now] assms
      by (cases rule: charge_tool_cases [of now b calls files bytes]) (auto simp: outcome_def)
  next
    case (ChargeCandidates n)
    then show ?thesis using assms by (auto simp: charge_candidates_eq outcome_def split: if_splits)
  qed
qed

theorem refused_call_moves_clock_only_witness:
  "fst (budget_run (ChargeTool 200 0 0 400) sample_budget) = Some (Exhausted ToolCalls) \<and>
   (snd (budget_run (ChargeTool 200 0 0 400) sample_budget) = sample_budget \<or>
    (\<exists>now. clock_ok now sample_budget \<and>
      snd (budget_run (ChargeTool 200 0 0 400) sample_budget) = observed now sample_budget))"
proof -
  have run: "fst (budget_run (ChargeTool 200 0 0 400) sample_budget) = Some (Exhausted ToolCalls)"
    by (simp add: sample_budget_value budget_eval)
  show ?thesis by (rule conjI [OF run refused_call_moves_clock_only [OF run]])
qed

text \<open>
  \<open>charge_tool\<close> accepts a charge exactly when the clock has not gone back, the
  time limit holds, and each sum of use and charge is within its limit, as plain
  numbers; an accepted charge adds exactly the charged amounts, without saturating.
\<close>

theorem charge_tool_exact:
  "(fst (charge_tool calls files bytes now b) = Inr () \<longleftrightarrow>
     ab_last_observed_millis b \<le> now \<and>
     unat now - unat (ab_started_at_millis b) \<le> unat (bl_max_elapsed_millis (ab_limits b)) \<and>
     unat (bu_tool_calls (ab_usage b)) + unat calls \<le> unat (bl_max_tool_calls (ab_limits b)) \<and>
     unat (bu_repository_files (ab_usage b)) + unat files
       \<le> unat (bl_max_repository_files (ab_limits b)) \<and>
     unat (bu_repository_bytes (ab_usage b)) + unat bytes
       \<le> unat (bl_max_repository_bytes (ab_limits b))) \<and>
   (fst (charge_tool calls files bytes now b) = Inr () \<longrightarrow>
     (let u = ab_usage b; u' = ab_usage (snd (charge_tool calls files bytes now b)) in
        unat (bu_tool_calls u') = unat (bu_tool_calls u) + unat calls \<and>
        unat (bu_repository_files u') = unat (bu_repository_files u) + unat files \<and>
        unat (bu_repository_bytes u') = unat (bu_repository_bytes u) + unat bytes \<and>
        u' = u\<lparr>bu_tool_calls := bu_tool_calls u', bu_repository_files := bu_repository_files u',
               bu_repository_bytes := bu_repository_bytes u',
               bu_elapsed_millis := bu_elapsed_millis u'\<rparr>))"
proof -
  have sub: "unat (saturating_sub now s) = unat now - unat s" for s :: u64
    by (simp add: saturating_sub_def unat_sub_if' word_le_nat_alt not_le word_less_nat_alt)
  have clock: "clock_ok now b \<longleftrightarrow> ab_last_observed_millis b \<le> now \<and>
      unat now - unat (ab_started_at_millis b) \<le> unat (bl_max_elapsed_millis (ab_limits b))"
    by (simp add: clock_ok_def word_le_nat_alt [of "saturating_sub _ _"] sub)
  show ?thesis
    by (cases rule: charge_tool_cases [of now b calls files bytes])
      (auto simp: clock chargeable_def fits_def tool_charged_def Let_def saturating_add_exact)
qed

theorem charge_tool_exact_witness:
  "fst (charge_tool 2 1 100 400 sample_budget) = Inr () \<and>
   unat (bu_tool_calls (ab_usage (snd (charge_tool 2 1 100 400 sample_budget)))) = 3"
proof -
  have ok: "fst (charge_tool 2 1 100 400 sample_budget) = Inr ()"
    using charge_tool_exact [of 2 1 100 400 sample_budget]
    by (simp add: sample_budget_value default_budget_limits_def zero_budget_usage_def)
  show ?thesis
    using ok charge_tool_exact [of 2 1 100 400 sample_budget]
    by (simp add: Let_def sample_budget_value zero_budget_usage_def)
qed

end
