(* ===== verification/Snapshot.thy ===== *)
theory Snapshot
  imports Text Ordered_Map
begin

text \<open>
  Snapshot identities and evidence, \<open>crates/revoot-core/src/snapshot.rs\<close>: validated
  identifiers, changed paths, pagination receipts, the binding of a merge request to its
  newest diff version, and the assessment of whether the acquired evidence is complete.

  A \<open>BTreeSet\<close> of issues is a list without duplicates in the derived order of its
  type.  The derived order of a type is the order of its key: the list of its
  discriminant and fields, a number as a one-element list and a string as its bytes.
\<close>

section \<open>Identifiers\<close>

definition git_sha_min_len :: nat where "git_sha_min_len = 40"
definition git_sha_max_len :: nat where "git_sha_max_len = 64"
definition sha256_hex_len :: nat where "sha256_hex_len = 64"

text \<open>\<open>positive_id!\<close>\<close>

definition positive_id_try_from :: "u64 \<Rightarrow> unit + u64" where
  "positive_id_try_from value = (if value = 0 then Inl () else Inr value)"

datatype hex_identity_error = HexLength | HexCharacter

definition is_lower_hex :: "string \<Rightarrow> bool" where
  "is_lower_hex value \<longleftrightarrow>
     list_all (\<lambda>b. is_ascii_digit b \<or> CHR ''a'' \<le> b \<and> b \<le> CHR ''f'') value"

type_synonym git_sha = string
type_synonym sha256_digest = string
type_synonym repository_path = string

definition git_sha_try_from :: "string \<Rightarrow> hex_identity_error + git_sha" where
  "git_sha_try_from value =
     (if length value \<noteq> git_sha_min_len \<and> length value \<noteq> git_sha_max_len then Inl HexLength
      else if \<not> is_lower_hex value then Inl HexCharacter
      else Inr value)"

definition sha256_digest_try_from :: "string \<Rightarrow> hex_identity_error + sha256_digest" where
  "sha256_digest_try_from value =
     (if length value \<noteq> sha256_hex_len then Inl HexLength
      else if \<not> is_lower_hex value then Inl HexCharacter
      else Inr value)"

datatype repository_path_error = PathEmpty | PathNul

definition repository_path_try_from :: "string \<Rightarrow> repository_path_error + repository_path" where
  "repository_path_try_from value =
     (if value = [] then Inl PathEmpty
      else if CHR 0x00 \<in> set value then Inl PathNul
      else Inr value)"

section \<open>Identities\<close>

record diff_refs =
  df_base_sha :: git_sha
  df_start_sha :: git_sha
  df_head_sha :: git_sha

record diff_version_record =
  dv_id :: u64
  dv_refs :: diff_refs

record snapshot_scope =
  ss_instance_origin_digest :: sha256_digest
  ss_project_id :: u64
  ss_merge_request_iid :: u64

record gitlab_diff_version_identity =
  gv_scope :: snapshot_scope
  gv_diff_version :: diff_version_record

record gitlab_snapshot_identity =
  gi_version :: gitlab_diff_version_identity
  gi_exact_diff_manifest_sha256 :: sha256_digest

record github_snapshot_identity =
  hi_api_origin_digest :: sha256_digest
  hi_repository_id :: u64
  hi_pull_request_number :: u64
  hi_base_sha :: git_sha
  hi_head_sha :: git_sha
  hi_exact_diff_manifest_sha256 :: sha256_digest

record local_snapshot_identity =
  li_repository_identity_sha256 :: sha256_digest
  li_base_sha :: git_sha
  li_head_sha :: git_sha
  li_working_tree_sha256 :: sha256_digest
  li_exact_diff_manifest_sha256 :: sha256_digest

datatype review_snapshot_identity =
    GitLab gitlab_snapshot_identity
  | GitHub github_snapshot_identity
  | Local local_snapshot_identity

definition freeze ::
    "gitlab_diff_version_identity \<Rightarrow> sha256_digest \<Rightarrow> gitlab_snapshot_identity" where
  "freeze v digest = \<lparr>gi_version = v, gi_exact_diff_manifest_sha256 = digest\<rparr>"

section \<open>Derived orders\<close>

type_synonym key = "nat list list"

abbreviation num_key :: "'w::len word \<Rightarrow> nat list" where
  "num_key w \<equiv> [unat w]"

definition str_key :: "string \<Rightarrow> nat list" where
  "str_key s = map of_char s"

lemma str_key_inj [simp]: "str_key s = str_key t \<longleftrightarrow> s = t"
  by (simp add: str_key_def inj_map_eq_map inj_of_char)

lemma num_key_inj [simp]: "num_key v = num_key w \<longleftrightarrow> v = (w :: 'w::len word)"
  by (simp add: word_unat_eq_iff)

datatype file_change_kind = Modified | Renamed | Added | Deleted

fun kind_key :: "file_change_kind \<Rightarrow> nat list" where
  "kind_key Modified = [0]"
| "kind_key Renamed = [1]"
| "kind_key Added = [2]"
| "kind_key Deleted = [3]"

lemma kind_key_inj [simp]: "kind_key k = kind_key l \<longleftrightarrow> k = l"
  by (cases k; cases l) auto

datatype changed_path =
  ChangedPath (cp_old_path: repository_path) (cp_new_path: repository_path)
    (cp_kind: file_change_kind)

definition changed_path_key :: "changed_path \<Rightarrow> key" where
  "changed_path_key p = [str_key (cp_old_path p), str_key (cp_new_path p), kind_key (cp_kind p)]"

lemma changed_path_key_inj [simp]: "changed_path_key p = changed_path_key q \<longleftrightarrow> p = q"
  by (auto simp: changed_path_key_def changed_path.expand)

interpretation changed_path: derived_order changed_path_key
  by unfold_locales simp

instantiation changed_path :: linorder
begin

definition less_eq_changed_path :: "changed_path \<Rightarrow> changed_path \<Rightarrow> bool" where
  "p \<le> q \<longleftrightarrow> changed_path_key p \<le> changed_path_key q"

definition less_changed_path :: "changed_path \<Rightarrow> changed_path \<Rightarrow> bool" where
  "p < q \<longleftrightarrow> changed_path_key p < changed_path_key q"

instance
  by intro_classes (auto simp: less_eq_changed_path_def less_changed_path_def less_le)

end

datatype blob_side = Old | New

datatype blob_request =
  BlobRequest (br_side: blob_side) (br_path: repository_path) (br_commit_sha: git_sha)

definition blob_request_key :: "blob_request \<Rightarrow> key" where
  "blob_request_key r =
     [[if br_side r = Old then 0 else 1], str_key (br_path r), str_key (br_commit_sha r)]"

lemma blob_request_key_inj [simp]: "blob_request_key r = blob_request_key s \<longleftrightarrow> r = s"
  by (cases "br_side r"; cases "br_side s") (auto simp: blob_request_key_def blob_request.expand)

instantiation blob_request :: linorder
begin

definition less_eq_blob_request :: "blob_request \<Rightarrow> blob_request \<Rightarrow> bool" where
  "p \<le> q \<longleftrightarrow> blob_request_key p \<le> blob_request_key q"

definition less_blob_request :: "blob_request \<Rightarrow> blob_request \<Rightarrow> bool" where
  "p < q \<longleftrightarrow> blob_request_key p < blob_request_key q"

instance
  by intro_classes (auto simp: less_eq_blob_request_def less_blob_request_def less_le)

end

section \<open>Pagination\<close>

record page_receipt =
  pr_page_number :: u32
  pr_item_count :: u32
  pr_has_next_page :: bool

record 'a paginated =
  pa_items :: "'a list"
  pa_pages :: "page_receipt list"

datatype pagination_issue =
    NoPages
  | PageNumberZero
  | FirstPageMissing u32
  | NonSequentialPage u32 u32
  | PageAfterTerminal u32
  | ContinuationNotFetched u32
  | ItemCountMismatch u64 u64

fun pagination_issue_key :: "pagination_issue \<Rightarrow> key" where
  "pagination_issue_key NoPages = [[0]]"
| "pagination_issue_key PageNumberZero = [[1]]"
| "pagination_issue_key (FirstPageMissing n) = [[2], num_key n]"
| "pagination_issue_key (NonSequentialPage e n) = [[3], num_key e, num_key n]"
| "pagination_issue_key (PageAfterTerminal n) = [[4], num_key n]"
| "pagination_issue_key (ContinuationNotFetched n) = [[5], num_key n]"
| "pagination_issue_key (ItemCountMismatch r n) = [[6], num_key r, num_key n]"

lemma pagination_issue_key_inj [simp]:
  "pagination_issue_key i = pagination_issue_key j \<longleftrightarrow> i = j"
  by (cases i; cases j) (auto simp: word_unat_eq_iff)

instantiation pagination_issue :: linorder
begin

definition less_eq_pagination_issue :: "pagination_issue \<Rightarrow> pagination_issue \<Rightarrow> bool" where
  "p \<le> q \<longleftrightarrow> pagination_issue_key p \<le> pagination_issue_key q"

definition less_pagination_issue :: "pagination_issue \<Rightarrow> pagination_issue \<Rightarrow> bool" where
  "p < q \<longleftrightarrow> pagination_issue_key p < pagination_issue_key q"

instance
  by intro_classes (auto simp: less_eq_pagination_issue_def less_pagination_issue_def less_le)

end

datatype pagination_completeness =
    PaginationComplete u32 u64
  | PaginationPartial u32 u64 "pagination_issue list"

text \<open>
  One round of the loop over the pages: \<open>previous\<close> is the page before, if \<open>index > 0\<close>.
\<close>

definition check_page ::
    "page_receipt option \<Rightarrow> page_receipt \<Rightarrow> pagination_issue list \<Rightarrow> pagination_issue list" where
  "check_page previous page reasons =
     (let n = pr_page_number page;
          reasons = insert_if (n = 0) PageNumberZero reasons
      in case previous of
           None \<Rightarrow> insert_if (n \<noteq> 1) (FirstPageMissing n) reasons
         | Some p \<Rightarrow>
             let reasons = insert_if (\<not> pr_has_next_page p) (PageAfterTerminal n) reasons;
                 expected = saturating_add (pr_page_number p) 1
             in insert_if (n \<noteq> expected) (NonSequentialPage expected n) reasons)"

fun check_pages ::
    "page_receipt option \<Rightarrow> page_receipt list \<Rightarrow> pagination_issue list \<Rightarrow> pagination_issue list" where
  "check_pages previous [] reasons = reasons"
| "check_pages previous (page # pages) reasons =
     check_pages (Some page) pages (check_page previous page reasons)"

definition completeness :: "'a paginated \<Rightarrow> pagination_completeness" where
  "completeness a =
     (let pages = pa_pages a;
          reasons = check_pages None pages (insert_if (pages = []) NoPages []);
          reasons = (if pages \<noteq> [] \<and> pr_has_next_page (last pages)
            then bs_insert (ContinuationNotFetched (pr_page_number (last pages))) reasons
            else reasons);
          receipt_items = (\<Sum>page \<leftarrow> pages. ucast (pr_item_count page) :: u64);
          observed_items = clamp_word (length (pa_items a)) :: u64;
          reasons = insert_if (receipt_items \<noteq> observed_items)
            (ItemCountMismatch receipt_items observed_items) reasons;
          page_count = clamp_word (length pages) :: u32
      in if reasons = [] then PaginationComplete page_count observed_items
         else PaginationPartial page_count observed_items reasons)"

subsection \<open>Complete exactly when every page is accounted for\<close>

lemma check_page_Nil:
  "check_page previous page reasons = [] \<longleftrightarrow> reasons = [] \<and> pr_page_number page \<noteq> 0 \<and>
     (case previous of
        None \<Rightarrow> pr_page_number page = 1
      | Some p \<Rightarrow> pr_has_next_page p \<and> pr_page_number page = saturating_add (pr_page_number p) 1)"
  by (auto simp: check_page_def Let_def split: option.split)

lemma check_pages_not_Nil: "reasons \<noteq> [] \<Longrightarrow> check_pages previous pages reasons \<noteq> []"
  by (induction previous pages reasons rule: check_pages.induct) (simp_all add: check_page_Nil)

lemma next_page_number:
  assumes "unat (pr_page_number p) = min (2 ^ 32 - 1) n"
  shows "pr_page_number page = saturating_add (pr_page_number p) 1 \<longleftrightarrow>
    unat (pr_page_number page) = min (2 ^ 32 - 1) (n + 1)"
proof -
  have "unat (saturating_add (pr_page_number p) 1) = min (2 ^ 32 - 1) (n + 1)"
    using assms by (simp add: unat_saturating_add)
  then show ?thesis by (metis word_unat_eq_iff)
qed

lemma check_pages_Some:
  "unat (pr_page_number p) = min (2 ^ 32 - 1) n \<Longrightarrow>
   check_pages (Some p) pages reasons = [] \<longleftrightarrow> reasons = [] \<and>
     map (unat \<circ> pr_page_number) pages =
       map (\<lambda>i. min (2 ^ 32 - 1) (i + 1)) [n..<n + length pages] \<and>
     list_all pr_has_next_page (butlast (p # pages))"
proof (induction pages arbitrary: p n reasons)
  case Nil
  then show ?case by simp
next
  case (Cons page pages)
  note nxt = next_page_number [OF Cons.prems, of page]
  have up: "[n..<n + length (page # pages)] = n # [n + 1..<n + 1 + length pages]"
    by (simp add: upt_conv_Cons del: upt_Suc)
  show ?case
  proof (cases "unat (pr_page_number page) = min (2 ^ 32 - 1) (n + 1)")
    case True
    then have "pr_page_number page \<noteq> 0" by auto
    then show ?thesis
      using True nxt unfolding up by (simp add: Cons.IH [OF True] check_page_Nil) blast
  next
    case False
    then have "check_page (Some p) page reasons \<noteq> []" by (simp add: check_page_Nil nxt)
    then have "check_pages (Some p) (page # pages) reasons \<noteq> []"
      by (simp add: check_pages_not_Nil)
    then show ?thesis using False unfolding up by simp
  qed
qed

lemma check_pages_None:
  "check_pages None (page # pages) reasons = [] \<longleftrightarrow> reasons = [] \<and>
     map (unat \<circ> pr_page_number) (page # pages) =
       map (\<lambda>i. min (2 ^ 32 - 1) (i + 1)) [0..<length (page # pages)] \<and>
     list_all pr_has_next_page (butlast (page # pages))"
proof (cases "pr_page_number page = 1")
  case True
  then have one: "unat (pr_page_number page) = min (2 ^ 32 - 1) 1" by simp
  have up: "[0..<length (page # pages)] = 0 # [1..<1 + length pages]"
    by (simp add: upt_conv_Cons del: upt_Suc)
  show ?thesis
    unfolding up using True by (simp add: check_pages_Some [OF one] check_page_Nil)
next
  case False
  then have "check_page None page reasons \<noteq> []" by (simp add: check_page_Nil)
  then have "check_pages None (page # pages) reasons \<noteq> []"
    by (simp add: check_pages_not_Nil)
  moreover have "unat (pr_page_number page) \<noteq> 1" using False by (simp add: word_unat_eq_iff)
  ultimately show ?thesis by (simp add: upt_conv_Cons del: upt_Suc)
qed

definition receipt_total :: "page_receipt list \<Rightarrow> u64" where
  "receipt_total pages = (\<Sum>page \<leftarrow> pages. ucast (pr_item_count page))"

definition all_pages_fetched :: "'a paginated \<Rightarrow> bool" where
  "all_pages_fetched a \<longleftrightarrow>
     map (unat \<circ> pr_page_number) (pa_pages a) =
       map (\<lambda>i. min (2 ^ 32 - 1) (i + 1)) [0..<length (pa_pages a)] \<and>
     map pr_has_next_page (pa_pages a) = replicate (length (pa_pages a) - 1) True @ [False] \<and>
     receipt_total (pa_pages a) = clamp_word (length (pa_items a))"

lemma has_next_shape:
  "xs \<noteq> [] \<Longrightarrow> map P xs = replicate (length xs - 1) True @ [False] \<longleftrightarrow>
     list_all P (butlast xs) \<and> \<not> P (last xs)"
proof (induction xs rule: rev_induct)
  case (snoc x xs)
  have "map P xs = replicate (length xs) True \<longleftrightarrow> list_all P xs"
    by (induction xs) auto
  then show ?case by simp
qed simp

lemma completeness_iff:
  "completeness a = PaginationComplete p n \<longleftrightarrow>
     all_pages_fetched a \<and> p = clamp_word (length (pa_pages a)) \<and>
     n = clamp_word (length (pa_items a))"
proof (cases "pa_pages a")
  case Nil
  then show ?thesis by (simp add: completeness_def all_pages_fetched_def Let_def)
next
  case (Cons page pages)
  then show ?thesis
    using has_next_shape [of "pa_pages a" pr_has_next_page] check_pages_None [of page pages "[]"]
    by (auto simp: completeness_def all_pages_fetched_def Let_def receipt_total_def insert_if_def)
qed

text \<open>
  A paginated acquisition is \<open>Complete\<close> exactly when its receipts are the pages
  1, 2, ..., n in order without a gap (the page counter stops at its largest value),
  every page but the last announces a next one, the last does not, and the item counts
  add up to the items acquired.
\<close>

theorem completeness_exact:
  "completeness a = PaginationComplete p n \<longleftrightarrow>
     all_pages_fetched a \<and> p = clamp_word (length (pa_pages a)) \<and>
     n = clamp_word (length (pa_items a))"
  by (rule completeness_iff)

section \<open>Binding to the newest diff version\<close>

datatype identity_blocker =
    MergeRequestDiffRefsNotPrepared
  | DiffVersionsPaginationIncomplete "pagination_issue list"
  | NoDiffVersions
  | DiffVersionsNotNewestFirst u64 u64
  | LatestDiffRefsMismatch diff_refs diff_refs

definition issues_key :: "pagination_issue list \<Rightarrow> key" where
  "issues_key reasons = concat (map pagination_issue_key reasons)"

definition refs_key :: "diff_refs \<Rightarrow> key" where
  "refs_key r = [str_key (df_base_sha r), str_key (df_start_sha r), str_key (df_head_sha r)]"

fun identity_blocker_key :: "identity_blocker \<Rightarrow> key" where
  "identity_blocker_key MergeRequestDiffRefsNotPrepared = [[0]]"
| "identity_blocker_key (DiffVersionsPaginationIncomplete reasons) = [1] # issues_key reasons"
| "identity_blocker_key NoDiffVersions = [[2]]"
| "identity_blocker_key (DiffVersionsNotNewestFirst v w) = [[3], num_key v, num_key w]"
| "identity_blocker_key (LatestDiffRefsMismatch r s) = [4] # refs_key r @ refs_key s"

lemma pagination_issue_key_prefix_free:
  "pagination_issue_key i @ s = pagination_issue_key j @ t \<Longrightarrow> i = j \<and> s = t"
  by (cases i; cases j) (auto simp: word_unat_eq_iff)

lemma pagination_issue_key_not_Nil [simp]: "pagination_issue_key i \<noteq> []"
  by (cases i) auto

lemma issues_key_inj [simp]: "issues_key is = issues_key js \<longleftrightarrow> is = js"
proof
  show "issues_key is = issues_key js \<Longrightarrow> is = js"
  proof (induction "is" arbitrary: js)
    case Nil
    then show ?case by (cases js) (auto simp: issues_key_def)
  next
    case (Cons i "is")
    then obtain j js' where js: "js = j # js'" by (cases js) (auto simp: issues_key_def)
    with Cons.prems have "i = j \<and> issues_key is = issues_key js'"
      by (intro pagination_issue_key_prefix_free) (simp add: issues_key_def)
    then show ?case using Cons.IH js by simp
  qed
qed simp

lemma refs_key_inj [simp]: "refs_key r = refs_key s \<longleftrightarrow> r = s"
  by (auto simp: refs_key_def)

lemma refs_key_append [simp]: "refs_key r @ k = refs_key s @ l \<longleftrightarrow> r = s \<and> k = l"
  by (auto simp: refs_key_def)

lemma identity_blocker_key_inj [simp]: "identity_blocker_key b = identity_blocker_key c \<longleftrightarrow> b = c"
  by (cases b; cases c) (auto simp: word_unat_eq_iff)

instantiation identity_blocker :: linorder
begin

definition less_eq_identity_blocker :: "identity_blocker \<Rightarrow> identity_blocker \<Rightarrow> bool" where
  "p \<le> q \<longleftrightarrow> identity_blocker_key p \<le> identity_blocker_key q"

definition less_identity_blocker :: "identity_blocker \<Rightarrow> identity_blocker \<Rightarrow> bool" where
  "p < q \<longleftrightarrow> identity_blocker_key p < identity_blocker_key q"

instance
  by intro_classes (auto simp: less_eq_identity_blocker_def less_identity_blocker_def less_le)

end

datatype snapshot_binding =
    Bound gitlab_diff_version_identity
  | BindingBlocked "identity_blocker list"

definition check_newest_first ::
    "diff_version_record \<times> diff_version_record \<Rightarrow> identity_blocker list \<Rightarrow> identity_blocker list" where
  "check_newest_first pair blockers =
     insert_if (dv_id (fst pair) \<le> dv_id (snd pair))
       (DiffVersionsNotNewestFirst (dv_id (fst pair)) (dv_id (snd pair))) blockers"

definition bind_latest_snapshot ::
    "snapshot_scope \<Rightarrow> diff_refs option \<Rightarrow> diff_version_record paginated \<Rightarrow> snapshot_binding" where
  "bind_latest_snapshot scope merge_request_refs versions =
     (let items = pa_items versions;
          blockers = insert_if (merge_request_refs = None) MergeRequestDiffRefsNotPrepared [];
          blockers = (case completeness versions of
              PaginationPartial _ _ reasons \<Rightarrow>
                bs_insert (DiffVersionsPaginationIncomplete reasons) blockers
            | PaginationComplete _ _ \<Rightarrow> blockers);
          blockers = insert_if (items = []) NoDiffVersions blockers;
          blockers = fold check_newest_first (zip items (tl items)) blockers;
          blockers = (case (merge_request_refs, items) of
              (Some mr_refs, latest # _) \<Rightarrow>
                insert_if (mr_refs \<noteq> dv_refs latest)
                  (LatestDiffRefsMismatch mr_refs (dv_refs latest)) blockers
            | _ \<Rightarrow> blockers)
      in if blockers \<noteq> [] then BindingBlocked blockers
         else case items of
             [] \<Rightarrow> BindingBlocked [NoDiffVersions]
           | latest # _ \<Rightarrow> Bound \<lparr>gv_scope = scope, gv_diff_version = latest\<rparr>)"

lemma fold_check_newest_first:
  "fold check_newest_first pairs blockers = [] \<longleftrightarrow>
     blockers = [] \<and> list_all (\<lambda>(v, w). dv_id w < dv_id v) pairs"
  by (induction pairs arbitrary: blockers)
    (auto simp: check_newest_first_def not_le split: prod.split)

lemma zip_tl_decreasing:
  "list_all (\<lambda>(v, w). f w < (f v :: 'b::order)) (zip xs (tl xs)) \<longleftrightarrow> sorted_wrt (\<lambda>v w. f w < f v) xs"
proof (induction xs rule: induct_list012)
  case (3 x y zs)
  have "sorted_wrt (\<lambda>v w. f w < f v) (x # y # zs) \<longleftrightarrow>
      f y < f x \<and> sorted_wrt (\<lambda>v w. f w < f v) (y # zs)"
    by (rule sorted_wrt2) (auto simp: transp_def)
  then show ?case using 3 by simp
qed simp_all

text \<open>
  A merge request is bound to a diff version exactly when its refs are known,
  the version list was completely acquired, versions come newest first with strictly
  decreasing ids, and the three refs of the newest version are those of the merge
  request; the identity then holds the scope and this newest version.
\<close>

theorem bound_to_latest_version_exactly:
  "bind_latest_snapshot scope refs versions = Bound i \<longleftrightarrow>
     (\<exists>latest older. pa_items versions = latest # older \<and>
        refs = Some (dv_refs latest) \<and>
        all_pages_fetched versions \<and>
        sorted_wrt (\<lambda>v w. dv_id w < dv_id v) (latest # older) \<and>
        i = \<lparr>gv_scope = scope, gv_diff_version = latest\<rparr>)"
proof -
  have complete: "(case completeness versions of
        PaginationPartial _ _ reasons \<Rightarrow> bs_insert (DiffVersionsPaginationIncomplete reasons) blockers
      | PaginationComplete _ _ \<Rightarrow> blockers) = [] \<longleftrightarrow> all_pages_fetched versions \<and> blockers = []"
    for blockers
    using completeness_iff [of versions] by (cases "completeness versions") auto
  show ?thesis
  proof (cases "pa_items versions")
    case Nil
    then show ?thesis
      by (simp add: bind_latest_snapshot_def Let_def fold_check_newest_first)
  next
    case (Cons latest older)
    then show ?thesis
      using zip_tl_decreasing [of dv_id "latest # older"]
      by (cases refs)
        (auto simp: bind_latest_snapshot_def Let_def fold_check_newest_first complete)
  qed
qed

end
