(* ===== verification/Assessment.thy ===== *)
theory Assessment
  imports Snapshot
begin

text \<open>
  The assessment of snapshot evidence, the second part of
  \<open>crates/revoot-core/src/snapshot.rs\<close>: path semantics, expected blobs, and
  \<open>SnapshotEvidence::assess\<close> with its five passes.  The blockers and the coverage gaps
  are the two ordered sets the passes fill.
\<close>

section \<open>Paths and blobs\<close>

datatype changed_path_issue = SamePathRequired | DistinctPathsRequired

definition semantic_issue :: "changed_path \<Rightarrow> changed_path_issue option" where
  "semantic_issue p =
     (case cp_kind p of
        Renamed \<Rightarrow> if cp_old_path p = cp_new_path p then Some DistinctPathsRequired else None
      | Modified \<Rightarrow> if cp_old_path p \<noteq> cp_new_path p then Some SamePathRequired else None
      | Added \<Rightarrow> if cp_old_path p \<noteq> cp_new_path p then Some SamePathRequired else None
      | Deleted \<Rightarrow> if cp_old_path p \<noteq> cp_new_path p then Some SamePathRequired else None)"

definition expected_blobs :: "diff_refs \<Rightarrow> changed_path \<Rightarrow> blob_request list" where
  "expected_blobs refs p =
     (let old = BlobRequest Old (cp_old_path p) (df_base_sha refs);
          new = BlobRequest New (cp_new_path p) (df_head_sha refs)
      in case cp_kind p of
           Modified \<Rightarrow> [old, new] | Renamed \<Rightarrow> [old, new]
         | Added \<Rightarrow> [new] | Deleted \<Rightarrow> [old])"

datatype diff_availability =
    DiffAvailable sha256_digest | DiffCollapsed | DiffTooLarge | DiffBinary | DiffMissing | DiffUnknown

record changed_file =
  cf_path :: changed_path
  cf_diff :: diff_availability

datatype blob_representation = FileContent | LfsPointer

record blob_identity =
  bi_request :: blob_request
  bi_blob_sha :: git_sha
  bi_content_sha256 :: sha256_digest
  bi_size_bytes :: u64
  bi_representation :: blob_representation

datatype blob_unavailable_reason =
    BlobMissing | UnauthorizedPrivateFork | BlobTooLarge | UnsupportedEncoding
  | SkippedByPolicy | FetchFailed

datatype blob_acquisition =
    Acquired blob_identity
  | Unavailable blob_request blob_unavailable_reason

fun acquisition_request :: "blob_acquisition \<Rightarrow> blob_request" where
  "acquisition_request (Acquired i) = bi_request i"
| "acquisition_request (Unavailable r _) = r"

datatype diff_unavailable_reason =
    ReasonCollapsed | ReasonTooLarge | ReasonBinary | ReasonMissing | ReasonUnknown

fun unavailable_reason :: "diff_availability \<Rightarrow> diff_unavailable_reason option" where
  "unavailable_reason (DiffAvailable _) = None"
| "unavailable_reason DiffCollapsed = Some ReasonCollapsed"
| "unavailable_reason DiffTooLarge = Some ReasonTooLarge"
| "unavailable_reason DiffBinary = Some ReasonBinary"
| "unavailable_reason DiffMissing = Some ReasonMissing"
| "unavailable_reason DiffUnknown = Some ReasonUnknown"

section \<open>Gaps and blockers\<close>

datatype coverage_gap =
    DiffVersionOverflow
  | ReportedChangedFilesCapped u32
  | ReportedChangedFilesUnavailable
  | ReportedChangedFilesMismatch u32 u32
  | CurrentDiffPaginationIncomplete "pagination_issue list"
  | CurrentDiffCountMismatch u32 u32
  | CurrentDiffPathMismatch u32 u32
  | DiffUnavailable changed_path diff_unavailable_reason
  | BlobNotObserved blob_request
  | BlobUnavailable blob_request blob_unavailable_reason
  | LfsPointerNotExpanded blob_request

datatype snapshot_blocker =
    DiffVersionWithoutFiles
  | UnknownDiffVersionState string
  | DuplicateExactChangedPath changed_path
  | DuplicateCurrentChangedPath changed_path
  | InvalidChangedPath changed_path changed_path_issue
  | DuplicateBlobEvidence blob_request
  | UnexpectedBlobEvidence blob_request
  | IncludedByteCountOverflow

fun diff_reason_key :: "diff_unavailable_reason \<Rightarrow> nat list" where
  "diff_reason_key ReasonCollapsed = [0]"
| "diff_reason_key ReasonTooLarge = [1]"
| "diff_reason_key ReasonBinary = [2]"
| "diff_reason_key ReasonMissing = [3]"
| "diff_reason_key ReasonUnknown = [4]"

fun blob_reason_key :: "blob_unavailable_reason \<Rightarrow> nat list" where
  "blob_reason_key BlobMissing = [0]"
| "blob_reason_key UnauthorizedPrivateFork = [1]"
| "blob_reason_key BlobTooLarge = [2]"
| "blob_reason_key UnsupportedEncoding = [3]"
| "blob_reason_key SkippedByPolicy = [4]"
| "blob_reason_key FetchFailed = [5]"

fun coverage_gap_key :: "coverage_gap \<Rightarrow> key" where
  "coverage_gap_key DiffVersionOverflow = [[0]]"
| "coverage_gap_key (ReportedChangedFilesCapped n) = [[1], num_key n]"
| "coverage_gap_key ReportedChangedFilesUnavailable = [[2]]"
| "coverage_gap_key (ReportedChangedFilesMismatch m n) = [[3], num_key m, num_key n]"
| "coverage_gap_key (CurrentDiffPaginationIncomplete rs) = [4] # issues_key rs"
| "coverage_gap_key (CurrentDiffCountMismatch m n) = [[5], num_key m, num_key n]"
| "coverage_gap_key (CurrentDiffPathMismatch m n) = [[6], num_key m, num_key n]"
| "coverage_gap_key (DiffUnavailable p r) = [7] # changed_path_key p @ [diff_reason_key r]"
| "coverage_gap_key (BlobNotObserved r) = [8] # blob_request_key r"
| "coverage_gap_key (BlobUnavailable r u) = [9] # blob_request_key r @ [blob_reason_key u]"
| "coverage_gap_key (LfsPointerNotExpanded r) = [10] # blob_request_key r"

fun path_issue_key :: "changed_path_issue \<Rightarrow> nat list" where
  "path_issue_key SamePathRequired = [0]"
| "path_issue_key DistinctPathsRequired = [1]"

fun snapshot_blocker_key :: "snapshot_blocker \<Rightarrow> key" where
  "snapshot_blocker_key DiffVersionWithoutFiles = [[0]]"
| "snapshot_blocker_key (UnknownDiffVersionState v) = [[1], str_key v]"
| "snapshot_blocker_key (DuplicateExactChangedPath p) = [2] # changed_path_key p"
| "snapshot_blocker_key (DuplicateCurrentChangedPath p) = [3] # changed_path_key p"
| "snapshot_blocker_key (InvalidChangedPath p i) = [4] # changed_path_key p @ [path_issue_key i]"
| "snapshot_blocker_key (DuplicateBlobEvidence r) = [5] # blob_request_key r"
| "snapshot_blocker_key (UnexpectedBlobEvidence r) = [6] # blob_request_key r"
| "snapshot_blocker_key IncludedByteCountOverflow = [[7]]"

lemma diff_reason_key_inj [simp]: "diff_reason_key r = diff_reason_key s \<longleftrightarrow> r = s"
  by (cases r; cases s) simp_all

lemma blob_reason_key_inj [simp]: "blob_reason_key u = blob_reason_key v \<longleftrightarrow> u = v"
  by (cases u; cases v) simp_all

lemma path_issue_key_inj [simp]: "path_issue_key i = path_issue_key j \<longleftrightarrow> i = j"
  by (cases i; cases j) simp_all

lemma coverage_gap_key_inj [simp]: "coverage_gap_key g = coverage_gap_key h \<longleftrightarrow> g = h"
  by (cases g; cases h) (simp_all add: word_unat_eq_iff)

lemma snapshot_blocker_key_inj [simp]: "snapshot_blocker_key g = snapshot_blocker_key h \<longleftrightarrow> g = h"
  by (cases g; cases h) simp_all

instantiation coverage_gap :: linorder
begin

definition less_eq_coverage_gap :: "coverage_gap \<Rightarrow> coverage_gap \<Rightarrow> bool" where
  "p \<le> q \<longleftrightarrow> coverage_gap_key p \<le> coverage_gap_key q"

definition less_coverage_gap :: "coverage_gap \<Rightarrow> coverage_gap \<Rightarrow> bool" where
  "p < q \<longleftrightarrow> coverage_gap_key p < coverage_gap_key q"

instance
  by intro_classes (auto simp: less_eq_coverage_gap_def less_coverage_gap_def less_le)

end

instantiation snapshot_blocker :: linorder
begin

definition less_eq_snapshot_blocker :: "snapshot_blocker \<Rightarrow> snapshot_blocker \<Rightarrow> bool" where
  "p \<le> q \<longleftrightarrow> snapshot_blocker_key p \<le> snapshot_blocker_key q"

definition less_snapshot_blocker :: "snapshot_blocker \<Rightarrow> snapshot_blocker \<Rightarrow> bool" where
  "p < q \<longleftrightarrow> snapshot_blocker_key p < snapshot_blocker_key q"

instance
  by intro_classes (auto simp: less_eq_snapshot_blocker_def less_snapshot_blocker_def less_le)

end

section \<open>The evidence and its assessment\<close>

datatype diff_version_state = Collected | Overflow | WithoutFiles | UnknownState string
datatype changed_file_count = ExactCount u32 | CappedAt u32 | CountUnavailable
datatype unrepresented_file_count = UnrepresentedExact u32 | AtLeast u32 | UnrepresentedUnknown

record snapshot_evidence =
  se_identity :: gitlab_snapshot_identity
  se_diff_version_state :: diff_version_state
  se_reported_changed_files :: changed_file_count
  se_exact_version_files :: "changed_file list"
  se_current_diffs :: "changed_path paginated"
  se_blobs :: "blob_acquisition list"

datatype snapshot_readiness =
    ReadyComplete
  | ReadyPartial "coverage_gap list"
  | ReadyBlocked "snapshot_blocker list" "coverage_gap list"

record snapshot_assessment =
  sa_readiness :: snapshot_readiness
  sa_files_represented :: u32
  sa_files_reviewable :: u32
  sa_represented_files_unreviewable :: u32
  sa_unrepresented_files :: unrepresented_file_count
  sa_blobs_expected :: u32
  sa_blobs_included :: u32
  sa_bytes_included :: u64

type_synonym issues = "snapshot_blocker list \<times> coverage_gap list"

definition block :: "snapshot_blocker \<Rightarrow> issues \<Rightarrow> issues" where
  "block b is = (bs_insert b (fst is), snd is)"

definition gap :: "coverage_gap \<Rightarrow> issues \<Rightarrow> issues" where
  "gap g is = (fst is, bs_insert g (snd is))"

definition exact_count :: "snapshot_evidence \<Rightarrow> u32" where
  "exact_count e = clamp_word (length (se_exact_version_files e))"

definition assess_diff_evidence :: "snapshot_evidence \<Rightarrow> issues \<Rightarrow> issues" where
  "assess_diff_evidence e is =
     (let is = (case se_diff_version_state e of
            Collected \<Rightarrow> is
          | Overflow \<Rightarrow> gap DiffVersionOverflow is
          | WithoutFiles \<Rightarrow> block DiffVersionWithoutFiles is
          | UnknownState value \<Rightarrow> block (UnknownDiffVersionState value) is);
          is = (case se_reported_changed_files e of
            ExactCount reported \<Rightarrow>
              if reported \<noteq> exact_count e
              then gap (ReportedChangedFilesMismatch reported (exact_count e)) is else is
          | CappedAt lower_bound \<Rightarrow> gap (ReportedChangedFilesCapped lower_bound) is
          | CountUnavailable \<Rightarrow> gap ReportedChangedFilesUnavailable is)
      in case completeness (se_current_diffs e) of
           PaginationPartial _ _ reasons \<Rightarrow> gap (CurrentDiffPaginationIncomplete reasons) is
         | PaginationComplete _ _ \<Rightarrow> is)"

definition check_semantics :: "changed_path \<Rightarrow> issues \<Rightarrow> issues" where
  "check_semantics p is =
     (case semantic_issue p of None \<Rightarrow> is | Some reason \<Rightarrow> block (InvalidChangedPath p reason) is)"

text \<open>The loops over the exact and the current paths, with the set of paths seen.\<close>

fun assess_exact_paths :: "changed_file list \<Rightarrow> changed_path list \<Rightarrow> issues \<Rightarrow> changed_path list \<times> issues" where
  "assess_exact_paths [] seen is = (seen, is)"
| "assess_exact_paths (f # fs) seen is =
     (let p = cf_path f;
          is = check_semantics p is;
          is = (if p \<in> set seen then block (DuplicateExactChangedPath p) is else is);
          is = (case unavailable_reason (cf_diff f) of
              None \<Rightarrow> is | Some reason \<Rightarrow> gap (DiffUnavailable p reason) is)
      in assess_exact_paths fs (bs_insert p seen) is)"

fun current_paths :: "changed_path list \<Rightarrow> changed_path list \<Rightarrow> issues \<Rightarrow> changed_path list \<times> issues" where
  "current_paths [] seen is = (seen, is)"
| "current_paths (p # ps) seen is =
     (let is = check_semantics p is;
          is = (if p \<in> set seen then block (DuplicateCurrentChangedPath p) is else is)
      in current_paths ps (bs_insert p seen) is)"

definition assess_current_paths ::
    "snapshot_evidence \<Rightarrow> changed_path list \<Rightarrow> issues \<Rightarrow> issues" where
  "assess_current_paths e exact_paths is =
     (let (current, is) = current_paths (pa_items (se_current_diffs e)) [] is;
          current_count = clamp_word (length (pa_items (se_current_diffs e)));
          is = (if current_count \<noteq> exact_count e
            then gap (CurrentDiffCountMismatch current_count (exact_count e)) is else is);
          only_current = clamp_word (length (filter (\<lambda>p. p \<notin> set exact_paths) current));
          only_exact = clamp_word (length (filter (\<lambda>p. p \<notin> set current) exact_paths))
      in if only_current \<noteq> 0 \<or> only_exact \<noteq> 0
         then gap (CurrentDiffPathMismatch only_current only_exact) is else is)"

definition evidence_refs :: "snapshot_evidence \<Rightarrow> diff_refs" where
  "evidence_refs e = dv_refs (gv_diff_version (gi_version (se_identity e)))"

definition expected_requests :: "snapshot_evidence \<Rightarrow> blob_request list" where
  "expected_requests e =
     fold (\<lambda>f. fold bs_insert (expected_blobs (evidence_refs e) (cf_path f)))
       (se_exact_version_files e) []"

type_synonym observed_blobs = "(blob_request, blob_acquisition) btree"

fun observe_blobs ::
    "blob_request list \<Rightarrow> blob_acquisition list \<Rightarrow> observed_blobs \<Rightarrow> issues \<Rightarrow> observed_blobs \<times> issues" where
  "observe_blobs expected [] obs is = (obs, is)"
| "observe_blobs expected (a # as) obs is =
     (let r = acquisition_request a in
      if r \<notin> set expected
      then observe_blobs expected as obs (block (UnexpectedBlobEvidence r) is)
      else observe_blobs expected as (bt_insert r a obs)
             (if map_of obs r \<noteq> None then block (DuplicateBlobEvidence r) is else is))"

definition check_request :: "observed_blobs \<Rightarrow> blob_request \<Rightarrow> issues \<Rightarrow> issues" where
  "check_request obs r is =
     (case map_of obs r of
        None \<Rightarrow> gap (BlobNotObserved r) is
      | Some (Unavailable _ reason) \<Rightarrow> gap (BlobUnavailable r reason) is
      | Some (Acquired i) \<Rightarrow>
          if bi_representation i = LfsPointer then gap (LfsPointerNotExpanded r) is else is)"

definition assess_blobs ::
    "snapshot_evidence \<Rightarrow> issues \<Rightarrow> blob_request list \<times> observed_blobs \<times> issues" where
  "assess_blobs e is =
     (let expected = expected_requests e;
          (obs, is) = observe_blobs expected (se_blobs e) [] is
      in (expected, obs, fold (check_request obs) expected is))"

definition file_reviewable :: "diff_refs \<Rightarrow> observed_blobs \<Rightarrow> changed_file \<Rightarrow> bool" where
  "file_reviewable refs obs f \<longleftrightarrow>
     (case cf_diff f of DiffAvailable _ \<Rightarrow> True | _ \<Rightarrow> False) \<and>
     list_all (\<lambda>r. case map_of obs r of
         Some (Acquired i) \<Rightarrow> bi_representation i = FileContent | _ \<Rightarrow> False)
       (expected_blobs refs (cf_path f))"

fun include_blobs :: "blob_acquisition list \<Rightarrow> u32 \<Rightarrow> u64 \<Rightarrow> issues \<Rightarrow> u32 \<times> u64 \<times> issues" where
  "include_blobs [] blobs bytes is = (blobs, bytes, is)"
| "include_blobs (Acquired i # as) blobs bytes is =
     (case checked_add bytes (bi_size_bytes i) of
        Some bytes' \<Rightarrow> include_blobs as (saturating_add blobs 1) bytes' is
      | None \<Rightarrow> include_blobs as (saturating_add blobs 1) (- 1) (block IncludedByteCountOverflow is))"
| "include_blobs (Unavailable _ _ # as) blobs bytes is = include_blobs as blobs bytes is"

fun count_reviewable :: "diff_refs \<Rightarrow> observed_blobs \<Rightarrow> changed_file list \<Rightarrow> u32 \<Rightarrow> u32" where
  "count_reviewable refs obs [] n = n"
| "count_reviewable refs obs (f # fs) n =
     count_reviewable refs obs fs (if file_reviewable refs obs f then saturating_add n 1 else n)"

definition included_counts ::
    "snapshot_evidence \<Rightarrow> observed_blobs \<Rightarrow> issues \<Rightarrow> u32 \<times> u32 \<times> u64 \<times> issues" where
  "included_counts e obs is =
     (let files = count_reviewable (evidence_refs e) obs (se_exact_version_files e) 0;
          (blobs, bytes, is) = include_blobs (bt_values obs) 0 0 is
      in (files, blobs, bytes, is))"

definition unrepresented_files :: "snapshot_evidence \<Rightarrow> u32 \<Rightarrow> unrepresented_file_count" where
  "unrepresented_files e represented =
     (case se_reported_changed_files e of
        ExactCount reported \<Rightarrow>
          if represented \<le> reported then UnrepresentedExact (reported - represented)
          else UnrepresentedUnknown
      | CountUnavailable \<Rightarrow> UnrepresentedUnknown
      | CappedAt lower_bound \<Rightarrow> AtLeast (saturating_sub lower_bound represented))"

definition assess :: "snapshot_evidence \<Rightarrow> snapshot_assessment" where
  "assess e =
     (let is = assess_diff_evidence e ([], []);
          (exact_paths, is) = assess_exact_paths (se_exact_version_files e) [] is;
          is = assess_current_paths e exact_paths is;
          (expected, obs, is) = assess_blobs e is;
          (reviewable, blobs, bytes, is) = included_counts e obs is;
          (blockers, gaps) = is
      in \<lparr>sa_readiness =
            (if blockers \<noteq> [] then ReadyBlocked blockers gaps
             else if gaps = [] then ReadyComplete else ReadyPartial gaps),
          sa_files_represented = exact_count e,
          sa_files_reviewable = reviewable,
          sa_represented_files_unreviewable = saturating_sub (exact_count e) reviewable,
          sa_unrepresented_files = unrepresented_files e (exact_count e),
          sa_blobs_expected = clamp_word (length expected),
          sa_blobs_included = blobs,
          sa_bytes_included = bytes\<rparr>)"

end
