(* ===== verification/Assessment_Complete.thy ===== *)
theory Assessment_Complete
  imports Assessment
begin

text \<open>
  What an assessment means: it is \<open>Complete\<close> exactly when every piece of evidence is
  there once and consistent, and then its counts cover every file, blob and byte.  Each
  pass is described by when it adds no issue.
\<close>

section \<open>Passes that add no issue\<close>

abbreviation clean :: "issues \<Rightarrow> bool" where
  "clean is \<equiv> is = ([], [])"

lemma block_not_clean [simp]: "\<not> clean (block b is)"
  by (simp add: block_def)

lemma gap_not_clean [simp]: "\<not> clean (gap g is)"
  by (simp add: gap_def)

lemma clamp_word_0 [simp]: "clamp_word n = (0 :: 'w::len word) \<longleftrightarrow> n = 0"
proof
  assume zero: "clamp_word n = (0 :: 'w word)"
  have small: "n < 2 ^ LENGTH('w)"
    using zero by (auto simp: clamp_word_def split: if_splits)
  then show "n = 0" using zero clamp_word_small [OF small] by simp
qed (simp add: clamp_word_def)

lemma completeness_clean:
  "(case completeness a of
      PaginationPartial _ _ reasons \<Rightarrow> gap (f reasons) is
    | PaginationComplete _ _ \<Rightarrow> is) = ([], []) \<longleftrightarrow> all_pages_fetched a \<and> clean is"
  using completeness_iff [of a] by (cases "completeness a") auto

lemma diff_evidence_clean:
  "clean (assess_diff_evidence e is) \<longleftrightarrow>
     clean is \<and> se_diff_version_state e = Collected \<and>
     se_reported_changed_files e = ExactCount (exact_count e) \<and>
     all_pages_fetched (se_current_diffs e)"
  by (auto simp: assess_diff_evidence_def Let_def completeness_clean
      split: diff_version_state.splits changed_file_count.splits if_splits)

lemma check_semantics_clean:
  "clean (check_semantics p is) \<longleftrightarrow> clean is \<and> semantic_issue p = None"
  by (cases "semantic_issue p") (simp_all add: check_semantics_def)

definition diff_available :: "changed_file \<Rightarrow> bool" where
  "diff_available f \<longleftrightarrow> unavailable_reason (cf_diff f) = None"

lemma exact_paths_clean:
  "clean (snd (assess_exact_paths fs seen is)) \<longleftrightarrow>
     clean is \<and> list_all (\<lambda>f. semantic_issue (cf_path f) = None \<and> diff_available f) fs \<and>
     distinct (map cf_path fs) \<and> cf_path ` set fs \<inter> set seen = {}"
proof (induction fs seen "is" rule: assess_exact_paths.induct)
  case (2 f fs seen "is")
  show ?case
    by (subst assess_exact_paths.simps, unfold Let_def, subst 2 [OF refl refl refl refl])
      (auto simp: check_semantics_clean diff_available_def split: option.split)
qed simp

lemma exact_paths_set:
  "set (fst (assess_exact_paths fs seen is)) = cf_path ` set fs \<union> set seen"
  by (induction fs seen "is" rule: assess_exact_paths.induct) (auto simp: Let_def)

lemma current_paths_clean:
  "clean (snd (current_paths ps seen is)) \<longleftrightarrow>
     clean is \<and> list_all (\<lambda>p. semantic_issue p = None) ps \<and> distinct ps \<and> set ps \<inter> set seen = {}"
proof (induction ps seen "is" rule: current_paths.induct)
  case (2 p ps seen "is")
  show ?case
    by (subst current_paths.simps, unfold Let_def, subst 2 [OF refl refl])
      (auto simp: check_semantics_clean)
qed simp

lemma current_paths_set: "set (fst (current_paths ps seen is)) = set ps \<union> set seen"
  by (induction ps seen "is" rule: current_paths.induct) (auto simp: Let_def)

lemma filter_notin_Nil: "length (filter (\<lambda>x. x \<notin> A) xs) = 0 \<longleftrightarrow> set xs \<subseteq> A"
  by (auto simp: filter_empty_conv)

lemma assess_current_clean:
  "clean (assess_current_paths e exact is) \<longleftrightarrow>
     clean is \<and> list_all (\<lambda>p. semantic_issue p = None) (pa_items (se_current_diffs e)) \<and>
     distinct (pa_items (se_current_diffs e)) \<and>
     clamp_word (length (pa_items (se_current_diffs e))) = exact_count e \<and>
     set (pa_items (se_current_diffs e)) = set exact"
proof -
  obtain current is' where run: "current_paths (pa_items (se_current_diffs e)) [] is = (current, is')"
    by (rule prod.exhaust)
  have "set current = set (pa_items (se_current_diffs e))"
    using current_paths_set [of "pa_items (se_current_diffs e)" "[]" "is"] run by simp
  moreover have "clean is' \<longleftrightarrow> clean is \<and> list_all (\<lambda>p. semantic_issue p = None)
      (pa_items (se_current_diffs e)) \<and> distinct (pa_items (se_current_diffs e))"
    using current_paths_clean [of "pa_items (se_current_diffs e)" "[]" "is"] run by simp
  moreover have "clean (assess_current_paths e exact is) \<longleftrightarrow> clean is' \<and>
      clamp_word (length (pa_items (se_current_diffs e))) = exact_count e \<and>
      set current \<subseteq> set exact \<and> set exact \<subseteq> set current"
    by (auto simp: assess_current_paths_def run Let_def filter_notin_Nil [symmetric]
        simp del: length_0_conv)
  ultimately show ?thesis by auto
qed

section \<open>Blobs\<close>

lemma expected_requests_set:
  "set (expected_requests e) =
     (\<Union>f \<in> set (se_exact_version_files e). set (expected_blobs (evidence_refs e) (cf_path f)))"
proof -
  have "set (fold (\<lambda>f. fold bs_insert (g f)) fs acc) = (\<Union>f \<in> set fs. set (g f)) \<union> set acc"
    for g :: "changed_file \<Rightarrow> blob_request list" and fs acc
    by (induction fs arbitrary: acc) auto
  then show ?thesis by (simp add: expected_requests_def)
qed

lemma expected_requests_distinct: "distinct (expected_requests e)"
proof -
  have "distinct acc \<Longrightarrow> distinct (fold (\<lambda>f. fold bs_insert (g f)) fs acc)"
    for g :: "changed_file \<Rightarrow> blob_request list" and fs acc
    by (induction fs arbitrary: acc) auto
  then show ?thesis by (simp add: expected_requests_def)
qed

lemma dom_bt_insert: "bt_wf m \<Longrightarrow> dom (map_of (bt_insert k v m)) = insert k (dom (map_of m))"
  by (simp add: map_of_bt_insert)

lemma observe_blobs_clean:
  "bt_wf obs \<Longrightarrow> clean (snd (observe_blobs expected as obs is)) \<longleftrightarrow>
     clean is \<and> acquisition_request ` set as \<subseteq> set expected \<and>
     distinct (map acquisition_request as) \<and> acquisition_request ` set as \<inter> dom (map_of obs) = {}"
proof (induction expected as obs "is" rule: observe_blobs.induct)
  case (2 expected a as obs "is")
  show ?case
  proof (cases "acquisition_request a \<in> set expected")
    case True
    then have "\<not> acquisition_request a \<notin> set expected" by simp
    note IH = 2(2) [OF refl this bt_wf_insert [OF 2(3)]]
    show ?thesis
      using True IH unfolding dom_bt_insert [OF 2(3)] by (auto simp: Let_def)
  next
    case False
    then show ?thesis using 2(1) [OF refl] 2(3) by (simp add: Let_def)
  qed
qed simp

lemma observe_blobs_map:
  "bt_wf obs \<Longrightarrow> acquisition_request ` set as \<subseteq> set expected \<Longrightarrow> distinct (map acquisition_request as) \<Longrightarrow>
     acquisition_request ` set as \<inter> dom (map_of obs) = {} \<Longrightarrow>
     bt_wf (fst (observe_blobs expected as obs is)) \<and>
     set (fst (observe_blobs expected as obs is)) = (\<lambda>a. (acquisition_request a, a)) ` set as \<union> set obs"
proof (induction expected as obs "is" rule: observe_blobs.induct)
  case (2 expected a as obs "is")
  let ?r = "acquisition_request a"
  have new: "map_of obs ?r = None" using 2(6) by auto
  have ins: "set (bt_insert k v m) = insert (k, v) (set m)" if "map_of m k = None" for k v
    and m :: observed_blobs
    using that by (induction k v m rule: bt_insert.induct) (auto split: if_splits)
  have "\<not> ?r \<notin> set expected" using 2(4) by simp
  note IH = 2(2) [OF refl this bt_wf_insert [OF 2(3)], unfolded dom_bt_insert [OF 2(3)] ins [OF new]]
  have "acquisition_request ` set as \<subseteq> set expected" "distinct (map acquisition_request as)"
    "acquisition_request ` set as \<inter> insert ?r (dom (map_of obs)) = {}"
    using 2(4-6) by auto
  note IH [OF this]
  then show ?case using 2(4) new by (simp add: Let_def)
qed simp

lemma check_requests_clean:
  "clean (fold (check_request obs) rs is) \<longleftrightarrow>
     clean is \<and> list_all (\<lambda>r. case map_of obs r of
       Some (Acquired i) \<Rightarrow> bi_representation i = FileContent | _ \<Rightarrow> False) rs"
proof (induction rs arbitrary: "is")
  case (Cons r rs)
  have "clean (check_request obs r is) \<longleftrightarrow> clean is \<and> (case map_of obs r of
       Some (Acquired i) \<Rightarrow> bi_representation i = FileContent | _ \<Rightarrow> False)"
    by (auto simp: check_request_def split: option.split blob_acquisition.split)
      (metis blob_representation.exhaust)
  then show ?case using Cons by auto
qed simp

fun blob_size :: "blob_acquisition \<Rightarrow> nat" where
  "blob_size (Acquired i) = unat (bi_size_bytes i)"
| "blob_size (Unavailable _ _) = 0"

lemma include_blobs_clean:
  "clean (snd (snd (include_blobs as blobs bytes is))) \<longleftrightarrow>
     clean is \<and> unat bytes + sum_list (map blob_size as) < 2 ^ 64"
proof (induction as blobs bytes "is" rule: include_blobs.induct)
  case (1 blobs bytes "is")
  have "unat bytes < 2 ^ 64" using unsigned_less [of bytes, where ?'a = nat] by simp
  then show ?case by simp
next
  case (2 i as blobs bytes "is")
  show ?case
  proof (cases "checked_add bytes (bi_size_bytes i)")
    case None
    then have "2 ^ 64 \<le> unat bytes + unat (bi_size_bytes i)"
      using checked_add_None [of bytes "bi_size_bytes i"] by simp
    then show ?thesis using 2(1) [OF None] None by simp
  next
    case (Some b)
    then have "unat b = unat bytes + unat (bi_size_bytes i)" by (simp add: checked_add_Some)
    then show ?thesis using 2(2) [OF Some] Some by (simp add: add.assoc)
  qed
qed simp

definition acquired :: "blob_acquisition \<Rightarrow> bool" where
  "acquired a \<longleftrightarrow> (case a of Acquired _ \<Rightarrow> True | Unavailable _ _ \<Rightarrow> False)"

lemma saturating_add_one_clamp:
  "saturating_add (clamp_word n) 1 = (clamp_word (Suc n) :: u32)"
proof -
  have clamp: "unat (clamp_word m :: u32) = min (2 ^ 32 - 1) m" for m
    by (simp add: clamp_word_def unat_of_nat_small unat_max_word)
  have "unat (saturating_add (clamp_word n) 1 :: u32) = unat (clamp_word (Suc n) :: u32)"
    unfolding unat_saturating_add clamp by simp
  then show ?thesis by (simp only: word_unat_eq_iff)
qed

lemma include_blobs_count:
  "fst (include_blobs as (clamp_word n) bytes is) = clamp_word (n + length (filter acquired as))"
proof (induction as "clamp_word n :: u32" bytes "is" arbitrary: n rule: include_blobs.induct)
  case (2 i as bytes "is")
  then show ?case
    by (cases "checked_add bytes (bi_size_bytes i)") (simp_all add: acquired_def saturating_add_one_clamp)
qed (simp_all add: acquired_def)

lemma include_blobs_bytes:
  "unat bytes + sum_list (map blob_size as) < 2 ^ 64 \<Longrightarrow>
     unat (fst (snd (include_blobs as blobs bytes is))) = unat bytes + sum_list (map blob_size as)"
proof (induction as blobs bytes "is" rule: include_blobs.induct)
  case (2 i as blobs bytes "is")
  then have "unat bytes + unat (bi_size_bytes i) < 2 ^ 64" by simp
  then obtain b where some: "checked_add bytes (bi_size_bytes i) = Some b"
    by (auto simp: checked_add_def)
  then have "unat b = unat bytes + unat (bi_size_bytes i)" by (simp add: checked_add_Some)
  then show ?case using 2(2) [OF some] 2(3) some by simp
qed simp_all

lemma count_reviewable_eq:
  "count_reviewable refs obs fs (clamp_word n) =
     clamp_word (n + length (filter (file_reviewable refs obs) fs))"
  by (induction fs arbitrary: n) (simp_all add: saturating_add_one_clamp)

section \<open>Complete evidence\<close>

definition full_content :: "blob_acquisition \<Rightarrow> bool" where
  "full_content a \<longleftrightarrow> (case a of
     Acquired i \<Rightarrow> bi_representation i = FileContent | Unavailable _ _ \<Rightarrow> False)"

lemma observed_full:
  "(case m of Some (Acquired i) \<Rightarrow> bi_representation i = FileContent | _ \<Rightarrow> False) \<longleftrightarrow>
     (\<exists>a. m = Some a \<and> full_content a)"
  by (auto simp: full_content_def split: option.splits blob_acquisition.splits)

definition blobs_complete :: "snapshot_evidence \<Rightarrow> bool" where
  "blobs_complete e \<longleftrightarrow>
     distinct (map acquisition_request (se_blobs e)) \<and>
     acquisition_request ` set (se_blobs e) =
       (\<Union>f \<in> set (se_exact_version_files e).
          set (expected_blobs (evidence_refs e) (cf_path f))) \<and>
     list_all full_content (se_blobs e) \<and>
     sum_list (map blob_size (se_blobs e)) < 2 ^ 64"

definition evidence_complete :: "snapshot_evidence \<Rightarrow> bool" where
  "evidence_complete e \<longleftrightarrow>
     se_diff_version_state e = Collected \<and>
     se_reported_changed_files e = ExactCount (exact_count e) \<and>
     all_pages_fetched (se_current_diffs e) \<and>
     distinct (map cf_path (se_exact_version_files e)) \<and>
     list_all (\<lambda>f. semantic_issue (cf_path f) = None \<and> diff_available f)
       (se_exact_version_files e) \<and>
     distinct (pa_items (se_current_diffs e)) \<and>
     set (pa_items (se_current_diffs e)) = cf_path ` set (se_exact_version_files e) \<and>
     blobs_complete e"

text \<open>The issues after the passes over blobs.\<close>

definition blob_issues :: "snapshot_evidence \<Rightarrow> issues \<Rightarrow> issues" where
  "blob_issues e is =
     (let (_, obs, is) = assess_blobs e is in snd (snd (snd (included_counts e obs is))))"

lemma observed_blobs_props:
  assumes "acquisition_request ` set as \<subseteq> set expected" and "distinct (map acquisition_request as)"
    and "fst (observe_blobs expected as [] is) = obs"
  shows "bt_wf obs" and "set obs = (\<lambda>a. (acquisition_request a, a)) ` set as"
    and "\<And>r. map_of obs r = Some a \<longleftrightarrow> a \<in> set as \<and> acquisition_request a = r"
    and "mset (bt_values obs) = mset as"
proof -
  have run: "bt_wf obs \<and> set obs = (\<lambda>a. (acquisition_request a, a)) ` set as"
    using observe_blobs_map [of "[]" as expected "is"] assms bt.wf_empty by auto
  then show "bt_wf obs" and set: "set obs = (\<lambda>a. (acquisition_request a, a)) ` set as"
    by auto
  have dist: "distinct (map fst obs)" using run by (simp add: bt_wf_distinct)
  show "map_of obs r = Some a \<longleftrightarrow> a \<in> set as \<and> acquisition_request a = r" for r
    using set by (auto simp: map_of_eq_Some_iff [OF dist])
  have "distinct obs" using dist by (simp add: distinct_map)
  moreover have "inj_on snd (set obs)" unfolding set by (auto simp: inj_on_def)
  ultimately have "distinct (bt_values obs)" by (simp add: bt_values_def distinct_map)
  moreover have "distinct as" using assms(2) by (simp add: distinct_map)
  moreover have "set (bt_values obs) = set as"
    unfolding bt_values_def by (simp add: set image_image)
  ultimately show "mset (bt_values obs) = mset as" by (simp add: set_eq_iff_mset_eq_distinct)
qed

lemma sum_list_map_mset: "mset xs = mset ys \<Longrightarrow> sum_list (map f xs) = (sum_list (map f ys) :: nat)"
  by (metis mset_map sum_mset_sum_list)

lemma observed_all:
  assumes map: "\<And>r a. m r = Some a \<longleftrightarrow> a \<in> B \<and> f a = r" and sub: "f ` B \<subseteq> E"
  shows "(\<forall>r \<in> E. \<exists>a. m r = Some a \<and> P a) \<longleftrightarrow> E \<subseteq> f ` B \<and> (\<forall>a \<in> B. P a)"
proof (intro iffI conjI subsetI ballI)
  fix r
  assume "\<forall>r \<in> E. \<exists>a. m r = Some a \<and> P a" "r \<in> E"
  then obtain a where "m r = Some a" by blast
  then have "a \<in> B" "f a = r" using map by simp_all
  then show "r \<in> f ` B" by blast
next
  fix a
  assume all: "\<forall>r \<in> E. \<exists>a. m r = Some a \<and> P a" and a: "a \<in> B"
  then have "m (f a) = Some a" by (simp add: map)
  moreover have "f a \<in> E" using a sub by blast
  ultimately show "P a" using all by fastforce
next
  fix r
  assume h: "E \<subseteq> f ` B \<and> (\<forall>a \<in> B. P a)" "r \<in> E"
  then obtain a where "a \<in> B" "r = f a" by blast
  then have "m r = Some a \<and> P a" using h by (simp add: map)
  then show "\<exists>a. m r = Some a \<and> P a" ..
qed

lemma blob_issues_clean:
  "clean (blob_issues e is) \<longleftrightarrow> clean is \<and> blobs_complete e"
proof -
  let ?expected = "expected_requests e" and ?ok = "\<lambda>obs r. case map_of obs r of
       Some (Acquired i) \<Rightarrow> bi_representation i = FileContent | _ \<Rightarrow> False"
  let ?fine = "acquisition_request ` set (se_blobs e) \<subseteq> set ?expected \<and>
    distinct (map acquisition_request (se_blobs e))"
  obtain obs is' where run: "observe_blobs ?expected (se_blobs e) [] is = (obs, is')"
    by (rule prod.exhaust)
  have clean': "clean is' \<longleftrightarrow> clean is \<and> ?fine"
    using observe_blobs_clean [of "[]" ?expected "se_blobs e" "is"] run bt.wf_empty by simp
  have all: "clean (blob_issues e is) \<longleftrightarrow> clean is' \<and> list_all (?ok obs) ?expected \<and>
      sum_list (map blob_size (bt_values obs)) < 2 ^ 64"
    by (auto simp: blob_issues_def assess_blobs_def included_counts_def Let_def run
        include_blobs_clean check_requests_clean split: prod.split)
  show ?thesis
  proof (cases ?fine)
    case False
    then show ?thesis
      using all clean' by (auto simp: blobs_complete_def expected_requests_set)
  next
    case True
    note props = observed_blobs_props [of "se_blobs e" ?expected "is" obs]
    have map: "map_of obs r = Some a \<longleftrightarrow> a \<in> set (se_blobs e) \<and> acquisition_request a = r" for r a
      using props(3) True run by simp
    have sizes: "sum_list (map blob_size (bt_values obs)) = sum_list (map blob_size (se_blobs e))"
      using props(4) True run by (intro sum_list_map_mset) simp
    have "(\<forall>r \<in> set ?expected. \<exists>a. map_of obs r = Some a \<and> full_content a) \<longleftrightarrow>
        set ?expected \<subseteq> acquisition_request ` set (se_blobs e) \<and>
        (\<forall>a \<in> set (se_blobs e). full_content a)"
      by (rule observed_all [OF map]) (use True in simp)
    then have ok: "list_all (?ok obs) ?expected \<longleftrightarrow>
        set ?expected \<subseteq> acquisition_request ` set (se_blobs e) \<and> list_all full_content (se_blobs e)"
      by (simp only: list_all_iff observed_full)
    show ?thesis
      unfolding all clean' ok sizes blobs_complete_def expected_requests_set [symmetric]
      using True by blast
  qed
qed

definition path_issues :: "snapshot_evidence \<Rightarrow> issues" where
  "path_issues e =
     (let (exact, is) = assess_exact_paths (se_exact_version_files e) [] (assess_diff_evidence e ([], []))
      in assess_current_paths e exact is)"

lemma assess_eq:
  assumes "assess_blobs e (path_issues e) = (expected, obs, is)"
    and "included_counts e obs is = (reviewable, blobs, bytes, issues)"
  shows "assess e =
     \<lparr>sa_readiness =
        (if fst issues \<noteq> [] then ReadyBlocked (fst issues) (snd issues)
         else if snd issues = [] then ReadyComplete else ReadyPartial (snd issues)),
      sa_files_represented = exact_count e,
      sa_files_reviewable = reviewable,
      sa_represented_files_unreviewable = saturating_sub (exact_count e) reviewable,
      sa_unrepresented_files = unrepresented_files e (exact_count e),
      sa_blobs_expected = clamp_word (length expected),
      sa_blobs_included = blobs,
      sa_bytes_included = bytes\<rparr>"
  using assms by (simp add: assess_def path_issues_def Let_def case_prod_beta)

lemma assess_readiness:
  "sa_readiness (assess e) = ReadyComplete \<longleftrightarrow> clean (blob_issues e (path_issues e))"
proof -
  obtain expected obs "is" where b: "assess_blobs e (path_issues e) = (expected, obs, is)"
    by (metis surj_pair)
  obtain reviewable blobs bytes issues where
    c: "included_counts e obs is = (reviewable, blobs, bytes, issues)" by (metis surj_pair)
  show ?thesis
    unfolding assess_eq [OF b c] by (cases issues) (simp add: blob_issues_def b c)
qed

lemma same_count:
  assumes "distinct xs" and "distinct ys" and "set xs = set ys"
  shows "length xs = length ys"
  using assms by (metis distinct_card)

lemma assess_complete_iff: "sa_readiness (assess e) = ReadyComplete \<longleftrightarrow> evidence_complete e"
proof -
  let ?files = "se_exact_version_files e" and ?items = "pa_items (se_current_diffs e)"
  have count: "clamp_word (length ?items) = exact_count e"
    if "distinct (map cf_path ?files)" "distinct ?items" "set ?items = cf_path ` set ?files"
    using same_count [of ?items "map cf_path ?files"] that by (simp add: exact_count_def)
  have semantic: "list_all (\<lambda>p. semantic_issue p = None) ?items"
    if "set ?items = cf_path ` set ?files"
      "list_all (\<lambda>f. semantic_issue (cf_path f) = None \<and> diff_available f) ?files"
    using that by (auto simp: list_all_iff)
  show ?thesis
    unfolding assess_readiness blob_issues_clean path_issues_def case_prod_beta Let_def
      assess_current_clean exact_paths_clean diff_evidence_clean exact_paths_set evidence_complete_def
      list.set image_empty Un_empty_right Int_empty_right
    by (intro iffI; elim conjE; intro conjI;
        (assumption | rule refl | rule count; assumption | rule semantic; assumption))
qed

lemma assess_counts:
  assumes "evidence_complete e"
  shows "sa_files_reviewable (assess e) = sa_files_represented (assess e) \<and>
    sa_represented_files_unreviewable (assess e) = 0 \<and>
    sa_unrepresented_files (assess e) = UnrepresentedExact 0 \<and>
    sa_blobs_included (assess e) = sa_blobs_expected (assess e) \<and>
    unat (sa_bytes_included (assess e)) = sum_list (map blob_size (se_blobs e))"
proof -
  let ?files = "se_exact_version_files e" and ?blobs = "se_blobs e"
  let ?expected = "expected_requests e"
  have blobs: "blobs_complete e" and reported: "se_reported_changed_files e = ExactCount (exact_count e)"
    and avail: "list_all (\<lambda>f. semantic_issue (cf_path f) = None \<and> diff_available f) ?files"
    using assms by (simp_all add: evidence_complete_def)
  have req: "acquisition_request ` set ?blobs = set ?expected" "distinct (map acquisition_request ?blobs)"
    and kind: "list_all full_content ?blobs"
    and size: "sum_list (map blob_size ?blobs) < 2 ^ 64"
    using blobs by (simp_all add: blobs_complete_def expected_requests_set)
  define is0 where "is0 = path_issues e"
  obtain obs is1 where run: "observe_blobs ?expected ?blobs [] is0 = (obs, is1)"
    by (rule prod.exhaust)
  have map: "map_of obs r = Some a \<longleftrightarrow> a \<in> set ?blobs \<and> acquisition_request a = r" for r a
    using observed_blobs_props(3) [of ?blobs ?expected is0 obs] req run by simp
  have vals: "mset (bt_values obs) = mset ?blobs"
    using observed_blobs_props(4) [of ?blobs ?expected is0 obs] req run by simp
  have "file_reviewable (evidence_refs e) obs f" if f: "f \<in> set ?files" for f
  proof -
    have "diff_available f" using avail f by (simp add: list_all_iff)
    then have "case cf_diff f of DiffAvailable _ \<Rightarrow> True | _ \<Rightarrow> False"
      by (cases "cf_diff f") (simp_all add: diff_available_def)
    moreover have "case map_of obs r of Some (Acquired i) \<Rightarrow> bi_representation i = FileContent | _ \<Rightarrow> False"
      if "r \<in> set (expected_blobs (evidence_refs e) (cf_path f))" for r
    proof -
      have "r \<in> set ?expected" using that f by (auto simp: expected_requests_set)
      then have "r \<in> acquisition_request ` set ?blobs" using req by simp
      then obtain a where "a \<in> set ?blobs" "acquisition_request a = r" by auto
      then have "map_of obs r = Some a" "a \<in> set ?blobs" using map by simp_all
      moreover from this have "full_content a" using kind by (simp add: list_all_iff)
      ultimately show ?thesis by (simp add: full_content_def)
    qed
    ultimately show ?thesis by (simp add: file_reviewable_def list_all_iff)
  qed
  then have all: "filter (file_reviewable (evidence_refs e) obs) ?files = ?files" by simp
  have acq: "length (filter acquired (bt_values obs)) = length ?expected"
  proof -
    have "length (filter acquired (bt_values obs)) = length (filter acquired ?blobs)"
      using vals by (metis mset_filter size_mset)
    also have "filter acquired ?blobs = ?blobs"
      using kind
      by (auto simp: list_all_iff acquired_def full_content_def filter_id_conv
          split: blob_acquisition.splits)
    also have "length ?blobs = length ?expected"
      using same_count [of "map acquisition_request ?blobs" ?expected] req expected_requests_distinct
      by simp
    finally show ?thesis .
  qed
  have sum: "sum_list (map blob_size (bt_values obs)) = sum_list (map blob_size ?blobs)"
    using vals by (rule sum_list_map_mset)
  define is2 where "is2 = fold (check_request obs) ?expected is1"
  have blobs_eq: "fst (include_blobs (bt_values obs) 0 0 is2) = clamp_word (length ?expected)"
    using include_blobs_count [of "bt_values obs" 0 0 is2] acq by (simp add: clamp_word_def)
  have bytes_eq: "unat (fst (snd (include_blobs (bt_values obs) 0 0 is2))) =
      sum_list (map blob_size ?blobs)"
    using include_blobs_bytes [of 0 "bt_values obs" 0 is2] sum size by simp
  have files_eq: "count_reviewable (evidence_refs e) obs ?files 0 = exact_count e"
    using count_reviewable_eq [of "evidence_refs e" obs ?files 0] all
    by (simp add: exact_count_def clamp_word_def)
  have b: "assess_blobs e (path_issues e) = (?expected, obs, is2)"
    by (simp add: assess_blobs_def Let_def run is2_def is0_def [symmetric])
  obtain blobs bytes issues where inc: "include_blobs (bt_values obs) 0 0 is2 = (blobs, bytes, issues)"
    by (metis surj_pair)
  have c: "included_counts e obs is2 = (exact_count e, blobs, bytes, issues)"
    by (simp add: included_counts_def files_eq inc)
  show ?thesis
    unfolding assess_eq [OF b c] using blobs_eq bytes_eq inc reported
    by (simp add: unrepresented_files_def saturating_sub_def)
qed

section \<open>The properties\<close>

text \<open>
  \<^bold>\<open>C5.\<close>  A snapshot is assessed as \<open>Complete\<close> exactly when the diff version was fully
  collected, GitLab's exact file count is the number of files, the current diff was
  acquired page by page without a loss and lists the same distinct, consistent paths,
  every file has its diff text, and the blob evidence is one full-content blob for each
  expected request and nothing else, with a total size that fits \<open>u64\<close>.
\<close>

theorem complete_exactly_when_evidence_complete:
  "sa_readiness (assess e) = ReadyComplete \<longleftrightarrow> evidence_complete e"
  by (rule assess_complete_iff)

text \<open>
  \<^bold>\<open>C6.\<close>  A \<open>Complete\<close> assessment leaves nothing out: every represented file is
  reviewable, none is unrepresented, every expected blob is included, and the byte count
  is the exact sum of the blob sizes.
\<close>

theorem complete_covers_everything:
  assumes "sa_readiness (assess e) = ReadyComplete"
  shows "sa_files_reviewable (assess e) = sa_files_represented (assess e) \<and>
    sa_represented_files_unreviewable (assess e) = 0 \<and>
    sa_unrepresented_files (assess e) = UnrepresentedExact 0 \<and>
    sa_blobs_included (assess e) = sa_blobs_expected (assess e) \<and>
    unat (sa_bytes_included (assess e)) = sum_list (map blob_size (se_blobs e))"
  using assms assess_counts by (simp add: assess_complete_iff)

definition sample_sha :: "char \<Rightarrow> git_sha" where
  "sample_sha c = replicate 40 c"

definition sample_refs :: diff_refs where
  "sample_refs = \<lparr>df_base_sha = sample_sha CHR ''a'', df_start_sha = sample_sha CHR ''b'',
     df_head_sha = sample_sha CHR ''c''\<rparr>"

definition sample_path :: changed_path where
  "sample_path = ChangedPath ''src/lib.rs'' ''src/lib.rs'' Modified"

definition sample_blob :: "blob_request \<Rightarrow> u64 \<Rightarrow> blob_acquisition" where
  "sample_blob r n = Acquired \<lparr>bi_request = r, bi_blob_sha = sample_sha CHR ''d'',
     bi_content_sha256 = replicate 64 CHR ''e'', bi_size_bytes = n,
     bi_representation = FileContent\<rparr>"

definition sample_evidence :: snapshot_evidence where
  "sample_evidence =
     \<lparr>se_identity = \<lparr>gi_version = \<lparr>gv_scope = \<lparr>ss_instance_origin_digest = replicate 64 CHR ''f'',
          ss_project_id = 7, ss_merge_request_iid = 3\<rparr>,
          gv_diff_version = \<lparr>dv_id = 9, dv_refs = sample_refs\<rparr>\<rparr>,
        gi_exact_diff_manifest_sha256 = replicate 64 CHR ''0''\<rparr>,
      se_diff_version_state = Collected,
      se_reported_changed_files = ExactCount 1,
      se_exact_version_files = [\<lparr>cf_path = sample_path, cf_diff = DiffAvailable (replicate 64 CHR ''1'')\<rparr>],
      se_current_diffs = \<lparr>pa_items = [sample_path],
        pa_pages = [\<lparr>pr_page_number = 1, pr_item_count = 1, pr_has_next_page = False\<rparr>]\<rparr>,
      se_blobs = [sample_blob (BlobRequest New ''src/lib.rs'' (sample_sha CHR ''c'')) 120,
        sample_blob (BlobRequest Old ''src/lib.rs'' (sample_sha CHR ''a'')) 100]\<rparr>"

lemma sample_evidence_complete: "evidence_complete sample_evidence"
  by (auto simp: evidence_complete_def sample_evidence_def exact_count_def clamp_word_def
      all_pages_fetched_def receipt_total_def semantic_issue_def diff_available_def
      blobs_complete_def sample_blob_def full_content_def expected_blobs_def evidence_refs_def
      sample_refs_def sample_path_def)

theorem complete_covers_everything_witness:
  "sa_blobs_included (assess sample_evidence) = sa_blobs_expected (assess sample_evidence) \<and>
   unat (sa_bytes_included (assess sample_evidence)) = 220"
proof -
  have "sa_readiness (assess sample_evidence) = ReadyComplete"
    by (simp add: assess_complete_iff sample_evidence_complete)
  from complete_covers_everything [OF this] show ?thesis
    by (simp add: sample_evidence_def sample_blob_def)
qed

end
