(* ===== verification/Anchors.thy ===== *)
theory Anchors
  imports Assessment
begin

text \<open>
  Opaque anchors, the last part of \<open>crates/revoot-core/src/snapshot.rs\<close>: positions,
  the derivation of an anchor id from an identity and a line, and the anchor table with
  its validation and its lookup.

  SHA-256 is a parameter: \<open>sha\<close> maps the bytes a hasher was fed to the digest in
  lowercase hexadecimal.  What is proved about the hashed bytes needs no hypothesis on it;
  where distinct inputs must have distinct digests, the hypothesis says so for the inputs
  at hand.
\<close>

section \<open>Positions\<close>

datatype anchor_position = Addition u32 | Deletion u32 | Context u32 u32

definition position_addition :: "u32 \<Rightarrow> unit + anchor_position" where
  "position_addition new_line = (if new_line = 0 then Inl () else Inr (Addition new_line))"

definition position_deletion :: "u32 \<Rightarrow> unit + anchor_position" where
  "position_deletion old_line = (if old_line = 0 then Inl () else Inr (Deletion old_line))"

definition position_context :: "u32 \<Rightarrow> u32 \<Rightarrow> unit + anchor_position" where
  "position_context old_line new_line =
     (if old_line = 0 \<or> new_line = 0 then Inl () else Inr (Context old_line new_line))"

fun position_valid :: "anchor_position \<Rightarrow> bool" where
  "position_valid (Addition new_line) = (new_line \<noteq> 0)"
| "position_valid (Deletion old_line) = (old_line \<noteq> 0)"
| "position_valid (Context old_line new_line) = (old_line \<noteq> 0 \<and> new_line \<noteq> 0)"

fun compatible :: "file_change_kind \<Rightarrow> anchor_position \<Rightarrow> bool" where
  "compatible Added (Addition _) = True"
| "compatible Deleted (Deletion _) = True"
| "compatible Modified _ = True"
| "compatible Renamed _ = True"
| "compatible Added _ = False"
| "compatible Deleted _ = False"

record commentable_line =
  cl_path :: changed_path
  cl_position :: anchor_position
  cl_exact_line_digest :: sha256_digest
  cl_context_digest :: sha256_digest

section \<open>Identifiers\<close>

type_synonym anchor_id = string

definition anchor_prefix :: string where "anchor_prefix = ''ga1_''"

definition anchor_id_try_from :: "string \<Rightarrow> hex_identity_error + anchor_id" where
  "anchor_id_try_from value =
     (case strip_prefix anchor_prefix value of
        None \<Rightarrow> Inl HexLength
      | Some digest \<Rightarrow>
          if length digest \<noteq> sha256_hex_len then Inl HexLength
          else if \<not> is_lower_hex digest then Inl HexCharacter
          else Inr value)"

text \<open>The fields fed to the hasher: \<open>hash_snapshot_identity\<close> and \<open>derive_anchor_id\<close>.\<close>

fun identity_fields :: "review_snapshot_identity \<Rightarrow> string list" where
  "identity_fields (GitLab i) =
     [''revoot-gitlab-anchor-v1'',
      ss_instance_origin_digest (gv_scope (gi_version i)),
      be_u64 (ss_project_id (gv_scope (gi_version i))),
      be_u64 (ss_merge_request_iid (gv_scope (gi_version i))),
      be_u64 (dv_id (gv_diff_version (gi_version i))),
      df_base_sha (dv_refs (gv_diff_version (gi_version i))),
      df_start_sha (dv_refs (gv_diff_version (gi_version i))),
      df_head_sha (dv_refs (gv_diff_version (gi_version i))),
      gi_exact_diff_manifest_sha256 i]"
| "identity_fields (GitHub i) =
     [''revoot-github-anchor-v1'',
      hi_api_origin_digest i,
      be_u64 (hi_repository_id i),
      be_u64 (hi_pull_request_number i),
      hi_base_sha i,
      hi_head_sha i,
      hi_exact_diff_manifest_sha256 i]"
| "identity_fields (Local i) =
     [''revoot-local-anchor-v1'',
      li_repository_identity_sha256 i,
      li_base_sha i,
      li_head_sha i,
      li_working_tree_sha256 i,
      li_exact_diff_manifest_sha256 i]"

fun kind_name :: "file_change_kind \<Rightarrow> string" where
  "kind_name Modified = ''modified''"
| "kind_name Renamed = ''renamed''"
| "kind_name Added = ''added''"
| "kind_name Deleted = ''deleted''"

fun position_fields :: "anchor_position \<Rightarrow> string list" where
  "position_fields (Addition new_line) = [''addition'', be_u32 new_line]"
| "position_fields (Deletion old_line) = [''deletion'', be_u32 old_line]"
| "position_fields (Context old_line new_line) = [''context'', be_u32 old_line, be_u32 new_line]"

definition anchor_fields :: "review_snapshot_identity \<Rightarrow> commentable_line \<Rightarrow> string list" where
  "anchor_fields i l =
     identity_fields i @
     [cp_old_path (cl_path l), cp_new_path (cl_path l), kind_name (cp_kind (cl_path l))] @
     position_fields (cl_position l) @
     [cl_exact_line_digest l, cl_context_digest l]"

type_synonym hasher = "string \<Rightarrow> string"

definition derive_anchor_id ::
    "hasher \<Rightarrow> review_snapshot_identity \<Rightarrow> commentable_line \<Rightarrow> anchor_id" where
  "derive_anchor_id sha i l = anchor_prefix @ sha (hash_fields (anchor_fields i l))"

section \<open>The table\<close>

record trusted_anchor =
  ta_id :: anchor_id
  ta_path :: changed_path
  ta_position :: anchor_position
  ta_exact_line_digest :: sha256_digest
  ta_context_digest :: sha256_digest

definition anchor_line :: "trusted_anchor \<Rightarrow> commentable_line" where
  "anchor_line a =
     \<lparr>cl_path = ta_path a, cl_position = ta_position a,
      cl_exact_line_digest = ta_exact_line_digest a, cl_context_digest = ta_context_digest a\<rparr>"

datatype anchor_table_error =
    InvalidPosition | InvalidPathSemantics | PositionIncompatibleWithFileChange
  | DuplicateCoordinate | DuplicateAnchorId | IdentityMismatch

record anchor_table =
  at_identity :: review_snapshot_identity
  at_anchors :: "trusted_anchor list"

type_synonym seen_anchors = "(changed_path \<times> anchor_position) set \<times> anchor_id set"

definition check_anchor ::
    "hasher \<Rightarrow> review_snapshot_identity \<Rightarrow> trusted_anchor \<Rightarrow> seen_anchors
      \<Rightarrow> anchor_table_error + seen_anchors" where
  "check_anchor sha identity anchor seen =
     (let (coordinates, ids) = seen in
      and_then (reject_if (\<not> position_valid (ta_position anchor)) InvalidPosition) (\<lambda>_.
      and_then (reject_if (semantic_issue (ta_path anchor) \<noteq> None) InvalidPathSemantics) (\<lambda>_.
      and_then (reject_if (\<not> compatible (cp_kind (ta_path anchor)) (ta_position anchor))
        PositionIncompatibleWithFileChange) (\<lambda>_.
      and_then (reject_if ((ta_path anchor, ta_position anchor) \<in> coordinates)
        DuplicateCoordinate) (\<lambda>_.
      and_then (reject_if (ta_id anchor \<in> ids) DuplicateAnchorId) (\<lambda>_.
      and_then (reject_if (ta_id anchor \<noteq> derive_anchor_id sha identity (anchor_line anchor))
        IdentityMismatch) (\<lambda>_.
      Inr (insert (ta_path anchor, ta_position anchor) coordinates,
           insert (ta_id anchor) ids))))))))"

definition from_anchors ::
    "hasher \<Rightarrow> review_snapshot_identity \<Rightarrow> trusted_anchor list
      \<Rightarrow> anchor_table_error + anchor_table" where
  "from_anchors sha identity anchors =
     and_then (try_fold (check_anchor sha identity) anchors ({}, {})) (\<lambda>_.
     Inr \<lparr>at_identity = identity, at_anchors = sort_key ta_id anchors\<rparr>)"

definition anchor_of ::
    "hasher \<Rightarrow> review_snapshot_identity \<Rightarrow> commentable_line \<Rightarrow> trusted_anchor" where
  "anchor_of sha identity line =
     \<lparr>ta_id = derive_anchor_id sha identity line, ta_path = cl_path line,
      ta_position = cl_position line, ta_exact_line_digest = cl_exact_line_digest line,
      ta_context_digest = cl_context_digest line\<rparr>"

definition anchor_table_build ::
    "hasher \<Rightarrow> review_snapshot_identity \<Rightarrow> commentable_line list
      \<Rightarrow> anchor_table_error + anchor_table" where
  "anchor_table_build sha identity lines =
     from_anchors sha identity (map (anchor_of sha identity) lines)"

subsection \<open>Binary search\<close>

text \<open>
  \<open>slice::binary_search_by\<close> of the standard library on a non-empty slice: \<open>base\<close> and
  \<open>width\<close> (the source's \<open>size\<close>) bound the part that can hold the element.
\<close>

function search_base :: "'a::linorder list \<Rightarrow> 'a \<Rightarrow> nat \<Rightarrow> nat \<Rightarrow> nat" where
  "search_base keys x base width =
     (if width \<le> 1 then base
      else search_base keys x
             (if x < keys ! (base + width div 2) then base else base + width div 2)
             (width - width div 2))"
  by pat_completeness auto

termination
  by (relation "measure (\<lambda>(_, _, _, width). width)") auto

declare search_base.simps [simp del]

definition binary_search :: "'a::linorder list \<Rightarrow> 'a \<Rightarrow> nat option" where
  "binary_search keys x =
     (if keys = [] then None
      else let i = search_base keys x 0 (length keys) in if keys ! i = x then Some i else None)"

definition resolve :: "anchor_table \<Rightarrow> string \<Rightarrow> trusted_anchor option" where
  "resolve t i = map_option (\<lambda>n. at_anchors t ! n) (binary_search (map ta_id (at_anchors t)) i)"

lemma search_base_finds:
  "sorted_wrt (<) keys \<Longrightarrow> base \<le> k \<Longrightarrow> k < base + width \<Longrightarrow> base + width \<le> length keys \<Longrightarrow>
     search_base keys (keys ! k) base width = k"
proof (induction keys "keys ! k" base width rule: search_base.induct)
  case (1 keys base width)
  show ?case
  proof (cases "width \<le> 1")
    case True
    then show ?thesis using 1 by (simp add: search_base.simps)
  next
    case False
    let ?mid = "base + width div 2"
    have mid: "?mid < length keys" using False 1(5) by simp
    have "keys ! k < keys ! ?mid \<longleftrightarrow> k < ?mid"
      using 1(2,4,5) mid sorted_wrt_nth_less [OF 1(2)]
      by (metis le_less_trans less_le_trans linorder_neqE_nat not_less_iff_gr_or_eq)
    then show ?thesis
      using 1 False by (subst search_base.simps) (auto split: if_splits)
  qed
qed

lemma search_base_bound:
  "0 < width \<Longrightarrow> search_base keys x base width < base + width"
proof (induction keys x base width rule: search_base.induct)
  case (1 keys x base width)
  show ?case
  proof (cases "width \<le> 1")
    case True
    then show ?thesis using 1 by (simp add: search_base.simps)
  next
    case False
    have "search_base keys x (if x < keys ! (base + width div 2) then base else base + width div 2)
        (width - width div 2) <
        (if x < keys ! (base + width div 2) then base else base + width div 2) + (width - width div 2)"
      using False by (intro 1(1)) auto
    then show ?thesis using False by (subst search_base.simps) (auto split: if_splits)
  qed
qed

lemma binary_search_Some:
  assumes "sorted_wrt (<) keys"
  shows "binary_search keys x = Some i \<longleftrightarrow> i < length keys \<and> keys ! i = x"
proof
  assume "binary_search keys x = Some i"
  then show "i < length keys \<and> keys ! i = x"
    using search_base_bound [of "length keys" keys x 0]
    by (auto simp: binary_search_def Let_def split: if_splits)
next
  assume i: "i < length keys \<and> keys ! i = x"
  then have "search_base keys (keys ! i) 0 (length keys) = i"
    using assms by (intro search_base_finds) auto
  then show "binary_search keys x = Some i"
    using i by (auto simp: binary_search_def Let_def)
qed

section \<open>The hashed bytes determine the identity and the line\<close>

lemma gitlab_identity_eqI:
  "\<lbrakk>ss_instance_origin_digest (gv_scope (gi_version i)) = ss_instance_origin_digest (gv_scope (gi_version j));
    ss_project_id (gv_scope (gi_version i)) = ss_project_id (gv_scope (gi_version j));
    ss_merge_request_iid (gv_scope (gi_version i)) = ss_merge_request_iid (gv_scope (gi_version j));
    dv_id (gv_diff_version (gi_version i)) = dv_id (gv_diff_version (gi_version j));
    df_base_sha (dv_refs (gv_diff_version (gi_version i))) = df_base_sha (dv_refs (gv_diff_version (gi_version j)));
    df_start_sha (dv_refs (gv_diff_version (gi_version i))) = df_start_sha (dv_refs (gv_diff_version (gi_version j)));
    df_head_sha (dv_refs (gv_diff_version (gi_version i))) = df_head_sha (dv_refs (gv_diff_version (gi_version j)));
    gi_exact_diff_manifest_sha256 i = gi_exact_diff_manifest_sha256 j\<rbrakk>
   \<Longrightarrow> i = (j :: gitlab_snapshot_identity)"
  by (intro gitlab_snapshot_identity.equality gitlab_diff_version_identity.equality
      snapshot_scope.equality diff_version_record.equality diff_refs.equality) simp_all

lemma identity_fields_append:
  "identity_fields i @ s = identity_fields j @ t \<Longrightarrow> i = j \<and> s = t"
  by (cases i; cases j)
    (auto intro: gitlab_identity_eqI github_snapshot_identity.equality local_snapshot_identity.equality)

lemma position_fields_append:
  "position_fields p @ s = position_fields q @ t \<Longrightarrow> p = q \<and> s = t"
  by (cases p; cases q) auto

lemma kind_name_inj [simp]: "kind_name k = kind_name l \<longleftrightarrow> k = l"
  by (cases k; cases l) auto

lemma anchor_fields_inj:
  assumes "anchor_fields i l = anchor_fields j m"
  shows "i = j \<and> l = m"
proof -
  let ?path = "\<lambda>l. [cp_old_path (cl_path l), cp_new_path (cl_path l), kind_name (cp_kind (cl_path l))]"
  let ?tail = "\<lambda>l. [cl_exact_line_digest l, cl_context_digest l]"
  have "i = j \<and> ?path l @ position_fields (cl_position l) @ ?tail l =
      ?path m @ position_fields (cl_position m) @ ?tail m"
    using assms unfolding anchor_fields_def by (rule identity_fields_append)
  moreover from this have "cl_position l = cl_position m \<and> ?tail l = ?tail m"
    by (intro position_fields_append) simp
  ultimately show ?thesis
    by (auto intro!: commentable_line.equality changed_path.expand)
qed

definition small_fields :: "review_snapshot_identity \<Rightarrow> commentable_line \<Rightarrow> bool" where
  "small_fields i l \<longleftrightarrow> list_all (\<lambda>f. length f < 2 ^ 64) (anchor_fields i l)"

lemma anchor_preimage_inj:
  assumes "hash_fields (anchor_fields i l) = hash_fields (anchor_fields j m)"
    and "small_fields i l" and "small_fields j m"
  shows "i = j \<and> l = m"
  using anchor_fields_inj hash_fields_inj [OF assms(1)] assms(2,3) by (simp add: small_fields_def)

text \<open>
  Collision freedom of the hash on the identities and lines at hand: the two digests are
  equal only if the hashed bytes are.
\<close>

definition collision_free :: "hasher \<Rightarrow> string set \<Rightarrow> bool" where
  "collision_free sha A \<longleftrightarrow> inj_on sha A"

lemma anchor_id_inj:
  assumes "collision_free sha A" and "hash_fields (anchor_fields i l) \<in> A"
    and "hash_fields (anchor_fields j m) \<in> A" and "small_fields i l" and "small_fields j m"
  shows "derive_anchor_id sha i l = derive_anchor_id sha j m \<longleftrightarrow> i = j \<and> l = m"
  using assms anchor_preimage_inj [of i l j m]
  by (auto simp: derive_anchor_id_def collision_free_def dest: inj_onD)

section \<open>Accepted tables\<close>

definition anchor_ok :: "hasher \<Rightarrow> review_snapshot_identity \<Rightarrow> trusted_anchor \<Rightarrow> bool" where
  "anchor_ok sha i a \<longleftrightarrow>
     position_valid (ta_position a) \<and> semantic_issue (ta_path a) = None \<and>
     compatible (cp_kind (ta_path a)) (ta_position a) \<and>
     ta_id a = derive_anchor_id sha i (anchor_line a)"

definition coordinate :: "trusted_anchor \<Rightarrow> changed_path \<times> anchor_position" where
  "coordinate a = (ta_path a, ta_position a)"

lemma anchor_line_of [simp]: "anchor_line (anchor_of sha i l) = l"
  by (simp add: anchor_line_def anchor_of_def)

lemma anchor_ok_of:
  "anchor_ok sha i (anchor_of sha i l) \<longleftrightarrow>
     position_valid (cl_position l) \<and> semantic_issue (cl_path l) = None \<and>
     compatible (cp_kind (cl_path l)) (cl_position l)"
  unfolding anchor_ok_def anchor_line_of by (simp add: anchor_of_def)

lemma check_anchor_Inr:
  "check_anchor sha i a seen = Inr seen' \<longleftrightarrow>
     anchor_ok sha i a \<and> coordinate a \<notin> fst seen \<and> ta_id a \<notin> snd seen \<and>
     seen' = (insert (coordinate a) (fst seen), insert (ta_id a) (snd seen))"
  by (auto simp: check_anchor_def anchor_ok_def coordinate_def case_prod_beta result_simps)

lemma check_anchors_Inr:
  "(\<exists>seen'. try_fold (check_anchor sha i) as seen = Inr seen') \<longleftrightarrow>
     list_all (anchor_ok sha i) as \<and> distinct (map coordinate as) \<and> distinct (map ta_id as) \<and>
     coordinate ` set as \<inter> fst seen = {} \<and> ta_id ` set as \<inter> snd seen = {}"
proof (induction as arbitrary: seen)
  case (Cons a as)
  have "(\<exists>seen'. try_fold (check_anchor sha i) (a # as) seen = Inr seen') \<longleftrightarrow>
      anchor_ok sha i a \<and> coordinate a \<notin> fst seen \<and> ta_id a \<notin> snd seen \<and>
      (\<exists>seen'. try_fold (check_anchor sha i) as
        (insert (coordinate a) (fst seen), insert (ta_id a) (snd seen)) = Inr seen')"
    by (auto simp: result_simps check_anchor_Inr)
  then show ?case unfolding Cons.IH by auto
qed simp

lemma from_anchors_Inr:
  "from_anchors sha i as = Inr t \<longleftrightarrow>
     list_all (anchor_ok sha i) as \<and> distinct (map coordinate as) \<and> distinct (map ta_id as) \<and>
     t = \<lparr>at_identity = i, at_anchors = sort_key ta_id as\<rparr>"
  using check_anchors_Inr [of sha i as "({}, {})"] by (auto simp: from_anchors_def result_simps)

lemma table_anchors:
  assumes "from_anchors sha i as = Inr t"
  shows "set (at_anchors t) = set as" and "sorted_wrt (<) (map ta_id (at_anchors t))"
    and "distinct (map ta_id as)"
  using assms by (auto simp: from_anchors_Inr strict_sorted_iff distinct_map distinct_sort
      intro: inj_on_subset)

lemma resolve_Some:
  assumes "from_anchors sha i as = Inr t"
  shows "resolve t x = Some a \<longleftrightarrow> a \<in> set as \<and> ta_id a = x"
proof -
  note table = table_anchors [OF assms]
  have "resolve t x = Some a \<longleftrightarrow>
      (\<exists>n < length (at_anchors t). ta_id (at_anchors t ! n) = x \<and> at_anchors t ! n = a)"
    using binary_search_Some [OF table(2)] by (fastforce simp: resolve_def)
  also have "\<dots> \<longleftrightarrow> a \<in> set (at_anchors t) \<and> ta_id a = x"
    by (auto simp: in_set_conv_nth)
  finally show ?thesis unfolding table(1) .
qed

lemma from_anchors_sorted:
  assumes "from_anchors sha i as = Inr t"
  shows "from_anchors sha (at_identity t) (at_anchors t) = Inr t"
proof -
  have t: "t = \<lparr>at_identity = i, at_anchors = sort_key ta_id as\<rparr>"
    and ok: "list_all (anchor_ok sha i) as" "distinct (map coordinate as)" "distinct (map ta_id as)"
    using assms by (simp_all add: from_anchors_Inr)
  have "sort_key ta_id (sort_key ta_id as) = sort_key ta_id as"
    by (simp add: sort_key_id_if_sorted)
  then show ?thesis using ok by (simp add: from_anchors_Inr t list_all_iff)
qed

lemma from_anchors_perm:
  assumes "mset as = mset bs"
  shows "from_anchors sha i as = Inr t \<longleftrightarrow> from_anchors sha i bs = Inr t"
proof -
  have set: "set as = set bs" using assms by (metis set_mset_mset)
  note dist = distinct_map_mset [OF assms]
  have "sort_key ta_id as = sort_key ta_id bs" if "distinct (map ta_id as)"
    using that assms by (intro sort_key_mset_cong) (auto simp: distinct_map)
  then show ?thesis
    unfolding from_anchors_Inr list_all_iff set dist [of coordinate] dist [of ta_id]
    using dist [of ta_id] by auto
qed

lemma build_accepts:
  assumes "collision_free sha ((\<lambda>l. hash_fields (anchor_fields i l)) ` set lines)"
    and "list_all (small_fields i) lines"
  shows "(\<exists>t. anchor_table_build sha i lines = Inr t) \<longleftrightarrow>
    list_all (\<lambda>l. position_valid (cl_position l) \<and> semantic_issue (cl_path l) = None \<and>
      compatible (cp_kind (cl_path l)) (cl_position l)) lines \<and>
    distinct (map (\<lambda>l. (cl_path l, cl_position l)) lines)"
proof -
  let ?c = "\<lambda>l. (cl_path l, cl_position l)"
  have "inj_on (derive_anchor_id sha i) (set lines)"
    using assms anchor_id_inj [OF assms(1)] by (auto intro!: inj_onI simp: list_all_iff)
  moreover have ids: "map ta_id (map (anchor_of sha i) lines) = map (derive_anchor_id sha i) lines"
    and coords: "map coordinate (map (anchor_of sha i) lines) = map ?c lines"
    by (simp_all add: anchor_of_def coordinate_def)
  moreover have "distinct lines" if "distinct (map ?c lines)" using that by (simp add: distinct_map)
  ultimately show ?thesis
    unfolding anchor_table_build_def from_anchors_Inr ids coords
    by (auto simp: list_all_iff anchor_ok_of distinct_map)
qed

section \<open>The properties\<close>

text \<open>
  \<^bold>\<open>C7.\<close>  The bytes hashed into an anchor id determine the snapshot identity and the
  line: two different identities (also of different providers) or two different lines
  never feed the hasher the same bytes.
\<close>

theorem anchor_preimage_injective:
  assumes "hash_fields (anchor_fields i l) = hash_fields (anchor_fields j m)"
    and "small_fields i l" and "small_fields j m"
  shows "i = j \<and> l = m"
  using anchor_preimage_inj [OF assms] .

definition sample_identity :: review_snapshot_identity where
  "sample_identity = GitHub \<lparr>hi_api_origin_digest = ''f0'', hi_repository_id = 5,
     hi_pull_request_number = 12, hi_base_sha = ''a1'', hi_head_sha = ''b2'',
     hi_exact_diff_manifest_sha256 = ''c3''\<rparr>"

definition sample_line :: "u32 \<Rightarrow> commentable_line" where
  "sample_line n = \<lparr>cl_path = ChangedPath ''a.rs'' ''a.rs'' Modified, cl_position = Addition n,
     cl_exact_line_digest = ''d4'', cl_context_digest = ''e5''\<rparr>"

lemma sample_small: "small_fields sample_identity (sample_line n)"
  by (simp add: small_fields_def anchor_fields_def sample_identity_def sample_line_def)

theorem anchor_preimage_injective_witness:
  "hash_fields (anchor_fields sample_identity (sample_line 3)) \<noteq>
   hash_fields (anchor_fields sample_identity (sample_line 4))"
proof
  assume "hash_fields (anchor_fields sample_identity (sample_line 3)) =
    hash_fields (anchor_fields sample_identity (sample_line 4))"
  then have "sample_identity = sample_identity \<and> sample_line 3 = sample_line 4"
    by (rule anchor_preimage_injective [OF _ sample_small sample_small])
  then show False by (simp add: sample_line_def)
qed

text \<open>
  \<^bold>\<open>C8.\<close>  In an accepted table, the binary search of \<open>resolve\<close> returns an anchor exactly
  when that anchor is in the table and has the id asked for.
\<close>

theorem resolve_finds_exactly:
  assumes "from_anchors sha i as = Inr t"
  shows "resolve t x = Some a \<longleftrightarrow> a \<in> set as \<and> ta_id a = x"
  using resolve_Some [OF assms] .

definition sample_anchors :: "trusted_anchor list" where
  "sample_anchors = [anchor_of (\<lambda>s. s) sample_identity (sample_line 4),
     anchor_of (\<lambda>s. s) sample_identity (sample_line 3)]"

lemma sample_ids_distinct:
  "derive_anchor_id (\<lambda>s. s) sample_identity (sample_line 4) \<noteq>
   derive_anchor_id (\<lambda>s. s) sample_identity (sample_line 3)"
proof -
  have "sample_line 4 \<noteq> sample_line 3" by (simp add: sample_line_def)
  then show ?thesis
    using anchor_id_inj [of "\<lambda>s. s" UNIV] sample_small by (auto simp: collision_free_def)
qed

lemma sample_table:
  "from_anchors (\<lambda>s. s) sample_identity sample_anchors =
     Inr \<lparr>at_identity = sample_identity, at_anchors = sort_key ta_id sample_anchors\<rparr>"
  using sample_ids_distinct
  by (simp add: from_anchors_Inr sample_anchors_def anchor_ok_def)
    (simp add: anchor_of_def coordinate_def sample_line_def semantic_issue_def)

theorem resolve_finds_exactly_witness:
  "resolve \<lparr>at_identity = sample_identity, at_anchors = sort_key ta_id sample_anchors\<rparr>
     (derive_anchor_id (\<lambda>s. s) sample_identity (sample_line 3)) =
   Some (anchor_of (\<lambda>s. s) sample_identity (sample_line 3))"
  by (subst resolve_finds_exactly [OF sample_table])
    (simp add: sample_anchors_def anchor_of_def)

text \<open>
  An accepted table survives its own replay: checked again from its serialized
  identity and anchors it is accepted and equal, and the order in which anchors are
  supplied does not matter.
\<close>

theorem anchor_table_replays:
  assumes "from_anchors sha i as = Inr t" and "mset bs = mset as"
  shows "from_anchors sha (at_identity t) (at_anchors t) = Inr t \<and> from_anchors sha i bs = Inr t"
  using assms from_anchors_sorted from_anchors_perm by blast

theorem anchor_table_replays_witness:
  "from_anchors (\<lambda>s. s) sample_identity (rev sample_anchors) =
     Inr \<lparr>at_identity = sample_identity, at_anchors = sort_key ta_id sample_anchors\<rparr>"
  using anchor_table_replays [OF sample_table, of "rev sample_anchors"] by simp

text \<open>
  When the hash has no collision on the lines given, \<open>AnchorTable::build\<close>
  succeeds exactly when every position is valid and fits the kind of its file change,
  no path contradicts its kind, and no two lines share a coordinate: a duplicate
  identifier never occurs.
\<close>

theorem build_accepts_exactly:
  assumes "collision_free sha ((\<lambda>l. hash_fields (anchor_fields i l)) ` set lines)"
    and "list_all (small_fields i) lines"
  shows "(\<exists>t. anchor_table_build sha i lines = Inr t) \<longleftrightarrow>
    list_all (\<lambda>l. position_valid (cl_position l) \<and> semantic_issue (cl_path l) = None \<and>
      compatible (cp_kind (cl_path l)) (cl_position l)) lines \<and>
    distinct (map (\<lambda>l. (cl_path l, cl_position l)) lines)"
  using assms by (rule build_accepts)

theorem build_accepts_exactly_witness:
  "(\<exists>t. anchor_table_build (\<lambda>s. s) sample_identity [sample_line 3, sample_line 4] = Inr t) \<and>
   \<not> (\<exists>t. anchor_table_build (\<lambda>s. s) sample_identity [sample_line 3, sample_line 3] = Inr t)"
proof -
  note build = build_accepts_exactly [of "\<lambda>s. s" sample_identity]
  show ?thesis
    using build [of "[sample_line 3, sample_line 4]"] build [of "[sample_line 3, sample_line 3]"]
    by (simp add: collision_free_def inj_on_def sample_small)
      (simp add: sample_line_def semantic_issue_def)
qed

text \<open>
  \<^bold>\<open>C9.\<close>  An anchor id cannot be moved to another snapshot: if two accepted tables
  resolve the same id, and the hash has no collision, they are bound to the same
  identity and the two anchors are the same line.
\<close>

theorem anchors_bound_to_snapshot:
  assumes "from_anchors sha i as = Inr t" and "from_anchors sha j bs = Inr u"
    and "resolve t x = Some a" and "resolve u x = Some b"
    and "collision_free sha {hash_fields (anchor_fields i (anchor_line a)),
      hash_fields (anchor_fields j (anchor_line b))}"
    and "small_fields i (anchor_line a)" and "small_fields j (anchor_line b)"
  shows "i = j \<and> a = b"
proof -
  have "a \<in> set as" "ta_id a = x" "b \<in> set bs" "ta_id b = x"
    using assms(3,4) by (auto simp: resolve_Some [OF assms(1)] resolve_Some [OF assms(2)])
  then have "x = derive_anchor_id sha i (anchor_line a)" "x = derive_anchor_id sha j (anchor_line b)"
    using assms(1,2) by (auto simp: from_anchors_Inr list_all_iff anchor_ok_def)
  then have "i = j \<and> anchor_line a = anchor_line b"
    using anchor_id_inj [OF assms(5) _ _ assms(6,7)] by simp
  then show ?thesis
    using \<open>ta_id a = x\<close> \<open>ta_id b = x\<close> by (auto simp: anchor_line_def intro: trusted_anchor.equality)
qed

theorem anchors_bound_to_snapshot_witness:
  "\<exists>t u x a b. from_anchors (\<lambda>s. s) sample_identity sample_anchors = Inr t \<and>
     from_anchors (\<lambda>s. s) sample_identity (rev sample_anchors) = Inr u \<and>
     resolve t x = Some a \<and> resolve u x = Some b \<and> a = b"
proof -
  let ?t = "\<lparr>at_identity = sample_identity, at_anchors = sort_key ta_id sample_anchors\<rparr>"
  let ?a = "anchor_of (\<lambda>s. s) sample_identity (sample_line 3)"
  have rev: "from_anchors (\<lambda>s. s) sample_identity (rev sample_anchors) = Inr ?t"
    using from_anchors_perm [of "rev sample_anchors" sample_anchors] sample_table by simp
  have "?a \<in> set sample_anchors" by (simp add: sample_anchors_def)
  then have t: "resolve ?t (ta_id ?a) = Some ?a" by (simp add: resolve_Some [OF sample_table])
  have "sample_identity = sample_identity \<and> ?a = ?a"
    by (rule anchors_bound_to_snapshot [OF sample_table rev t t])
      (simp_all add: collision_free_def sample_small)
  then show ?thesis using sample_table rev t by blast
qed

end
