(* ===== verification/Diff.thy ===== *)
theory Diff
  imports Anchors
begin

text \<open>
  The unified diff parser, \<open>crates/revoot-core/src/diff.rs\<close>: validation of the input
  bytes, the prelude, hunk headers, and the accounting that turns hunk lines into
  commentable lines with exact positions.

  The parser's \<open>lines\<close> and \<open>cursor\<close> are the list of the lines it has not consumed and
  the cursor.  A panic of the source is \<^const>\<open>Panicked\<close> on the error side.
\<close>

section \<open>Limits and errors\<close>

record diff_limits =
  dl_max_input_bytes :: nat
  dl_max_input_lines :: u32
  dl_max_line_bytes :: nat
  dl_max_hunks :: u32
  dl_max_lines_per_hunk :: u32
  dl_max_commentable_lines :: u32
  dl_context_radius_lines :: u32

definition default_diff_limits :: diff_limits where
  "default_diff_limits =
     \<lparr>dl_max_input_bytes = 2 * 1024 * 1024, dl_max_input_lines = 100000,
      dl_max_line_bytes = 64 * 1024, dl_max_hunks = 4096, dl_max_lines_per_hunk = 50000,
      dl_max_commentable_lines = 100000, dl_context_radius_lines = 3\<rparr>"

definition diff_limits_valid :: "diff_limits \<Rightarrow> bool" where
  "diff_limits_valid l \<longleftrightarrow>
     0 < dl_max_input_bytes l \<and> 0 < dl_max_input_lines l \<and> 0 < dl_max_line_bytes l \<and>
     0 < dl_max_hunks l \<and> 0 < dl_max_lines_per_hunk l \<and> 0 < dl_max_commentable_lines l \<and>
     dl_context_radius_lines l \<le> dl_max_lines_per_hunk l"

datatype diff_side = OldSide | NewSide

datatype unified_diff_error =
    InvalidDiffLimits
  | InvalidDiffPath changed_path_issue
  | EmptyInput
  | InputTooLarge nat nat
  | TooManyInputLines u32 u32
  | LineTooLong u32 nat nat
  | InvalidUtf8 nat
  | MissingFinalLineFeed
  | EmbeddedCarriageReturn u32
  | CombinedDiff u32
  | BinaryDiff u32
  | UnexpectedPrelude u32
  | DuplicateFileHeader u32
  | IncompleteFileHeader u32
  | FileHeaderMismatch u32 diff_side
  | NoHunks
  | TooManyHunks u32
  | MalformedHunkHeader u32
  | NumericOverflow u32
  | InvalidRangeStart u32 diff_side
  | EmptyHunk u32
  | DeclaredHunkTooLarge u32 diff_side u32 u32
  | TooManyLinesInHunk u32 u32
  | TooManyCommentableLines u32
  | UnexpectedHunkLine u32
  | NoNewlineMarkerWithoutContent u32
  | DuplicateNoNewlineMarker u32
  | HunkCountExceeded u32 diff_side
  | HunkCountMismatch u32 u32 u32 u32 u32
  | LineNumberOverflow u32 diff_side
  | FileChangeLineMismatch u32
  | UnexpectedTrailingContent u32

record parsed_file_diff =
  pf_input_sha256 :: sha256_digest
  pf_hunk_count :: u32
  pf_commentable_lines :: "commentable_line list"

type_synonym 'a diff_result = "unified_diff_error fault + 'a"

definition fail :: "unified_diff_error \<Rightarrow> 'a diff_result" where
  "fail e = Inl (Returned e)"

section \<open>Input lines\<close>

definition no_newline_marker :: string where
  "no_newline_marker = CHR 0x5C # '' No newline at end of file''"

definition cr :: char where "cr = CHR 0x0D"
definition lf :: char where "lf = CHR 0x0A"

definition take_line :: "diff_limits \<Rightarrow> string \<Rightarrow> string list \<Rightarrow> string list diff_result" where
  "take_line limits raw lines =
     (let line_number = saturating_add (clamp_word (length lines)) 1 in
      if dl_max_input_lines limits < line_number
      then fail (TooManyInputLines line_number (dl_max_input_lines limits))
      else if dl_max_line_bytes limits < length raw
      then fail (LineTooLong line_number (length raw) (dl_max_line_bytes limits))
      else
        let normalized = (case strip_suffix [cr] raw of None \<Rightarrow> raw | Some r \<Rightarrow> r)
        in if cr \<in> set normalized then fail (EmbeddedCarriageReturn line_number)
           else Inr (lines @ [normalized]))"

definition validated_lines :: "string \<Rightarrow> diff_limits \<Rightarrow> string list diff_result" where
  "validated_lines input limits =
     (if input = [] then fail EmptyInput
      else if dl_max_input_bytes limits < length input
      then fail (InputTooLarge (length input) (dl_max_input_bytes limits))
      else if \<not> utf8_valid input then fail (InvalidUtf8 (utf8_valid_up_to input))
      else if last input \<noteq> lf then fail MissingFinalLineFeed
      else try_fold (take_line limits) (split_on lf (butlast input)) [])"

definition line_number_at :: "nat \<Rightarrow> u32" where
  "line_number_at cursor = saturating_add (clamp_word cursor) 1"

section \<open>The prelude\<close>

definition is_hunk_header :: "string \<Rightarrow> bool" where
  "is_hunk_header line \<longleftrightarrow> starts_with ''@@ '' line \<or> starts_with ''@@-'' line"

definition is_metadata_line :: "string \<Rightarrow> bool" where
  "is_metadata_line line \<longleftrightarrow>
     list_ex (\<lambda>p. starts_with p line)
       [''index '', ''old mode '', ''new mode '', ''deleted file mode '', ''new file mode '',
        ''similarity index '', ''dissimilarity index '', ''rename from '', ''rename to '',
        ''copy from '', ''copy to '']"

definition reject_unsupported :: "string \<Rightarrow> u32 \<Rightarrow> unit diff_result" where
  "reject_unsupported line n =
     (if starts_with ''diff --cc '' line \<or> starts_with ''diff --combined '' line
        \<or> starts_with ''@@@'' line
      then fail (CombinedDiff n)
      else if line = ''GIT binary patch''
        \<or> starts_with ''Binary files '' line \<and> ends_with '' differ'' line
      then fail (BinaryDiff n)
      else Inr ())"

definition expected_old_header :: "changed_path \<Rightarrow> string" where
  "expected_old_header p =
     (if cp_kind p = Added then ''/dev/null'' else ''a/'' @ cp_old_path p)"

definition expected_new_header :: "changed_path \<Rightarrow> string" where
  "expected_new_header p =
     (if cp_kind p = Deleted then ''/dev/null'' else ''b/'' @ cp_new_path p)"

text \<open>
  The loop of \<open>parse_prelude\<close> with its three flags (a \<open>diff\<close>, an old and a new header
  seen).  It stops before the first hunk header.
\<close>

fun parse_prelude ::
    "changed_path \<Rightarrow> bool \<Rightarrow> bool \<Rightarrow> bool \<Rightarrow> string list \<Rightarrow> nat \<Rightarrow> (string list \<times> nat) diff_result" where
  "parse_prelude path saw_diff saw_old saw_new [] cursor =
     (if saw_old \<noteq> saw_new \<or> saw_diff \<and> \<not> saw_new
      then fail (IncompleteFileHeader (line_number_at cursor)) else fail NoHunks)"
| "parse_prelude path saw_diff saw_old saw_new (line # lines) cursor =
     (let n = line_number_at cursor in
      and_then (reject_unsupported line n) (\<lambda>_.
      if is_hunk_header line
      then if saw_old \<noteq> saw_new \<or> saw_diff \<and> \<not> saw_new then fail (IncompleteFileHeader n)
        else Inr (line # lines, cursor)
      else case strip_prefix ''--- '' line of
        Some header_path \<Rightarrow>
          if saw_old \<or> saw_new then fail (DuplicateFileHeader n)
          else if header_path \<noteq> expected_old_header path
          then fail (FileHeaderMismatch n OldSide)
          else parse_prelude path saw_diff True saw_new lines (cursor + 1)
      | None \<Rightarrow> (case strip_prefix ''+++ '' line of
        Some header_path \<Rightarrow>
          if \<not> saw_old \<or> saw_new then fail (DuplicateFileHeader n)
          else if header_path \<noteq> expected_new_header path
          then fail (FileHeaderMismatch n NewSide)
          else parse_prelude path saw_diff saw_old True lines (cursor + 1)
      | None \<Rightarrow>
          if starts_with ''diff --git '' line
          then if saw_diff \<or> saw_old \<or> saw_new then fail (UnexpectedPrelude n)
            else parse_prelude path True saw_old saw_new lines (cursor + 1)
          else if is_metadata_line line \<and> \<not> saw_old
          then parse_prelude path saw_diff saw_old saw_new lines (cursor + 1)
          else fail (UnexpectedPrelude n))))"

section \<open>Hunk headers\<close>

record hunk_range =
  hr_start :: u32
  hr_count :: u32

record hunk_header =
  hh_line :: u32
  hh_old :: hunk_range
  hh_new :: hunk_range

definition parse_decimal :: "string \<Rightarrow> u32 \<Rightarrow> u32 diff_result" where
  "parse_decimal value line =
     (if value = [] \<or> \<not> list_all is_ascii_digit value
        \<or> 1 < length value \<and> hd value = CHR ''0''
      then fail (MalformedHunkHeader line)
      else case try_word (decimal_value value) of
        None \<Rightarrow> fail (NumericOverflow line)
      | Some n \<Rightarrow> Inr n)"

definition parse_hunk_range :: "string \<Rightarrow> u32 \<Rightarrow> diff_side \<Rightarrow> hunk_range diff_result" where
  "parse_hunk_range value line side =
     and_then
       (case split_once '','' value of
          Some (start, n) \<Rightarrow>
            if CHR '','' \<notin> set n
            then and_then (parse_decimal start line) (\<lambda>s.
                 and_then (parse_decimal n line) (\<lambda>c. Inr (s, c)))
            else fail (MalformedHunkHeader line)
        | None \<Rightarrow> and_then (parse_decimal value line) (\<lambda>s. Inr (s, 1)))
       (\<lambda>(start, n).
          if 0 < n \<and> start = 0 then fail (InvalidRangeStart line side)
          else if 0 < n \<and> checked_add start (n - 1) = None then fail (NumericOverflow line)
          else Inr \<lparr>hr_start = start, hr_count = n\<rparr>)"

definition parse_hunk_header :: "string \<Rightarrow> u32 \<Rightarrow> diff_limits \<Rightarrow> hunk_header diff_result" where
  "parse_hunk_header value line limits =
     (if starts_with ''@@@'' value then fail (CombinedDiff line)
      else case strip_prefix ''@@ -'' value of
        None \<Rightarrow> fail (MalformedHunkHeader line)
      | Some value \<Rightarrow> (case split_once '' @@'' value of
        None \<Rightarrow> fail (MalformedHunkHeader line)
      | Some (ranges, section) \<Rightarrow>
          if section \<noteq> [] \<and> \<not> starts_with '' '' section then fail (MalformedHunkHeader line)
          else (case split_once '' +'' ranges of
            None \<Rightarrow> fail (MalformedHunkHeader line)
          | Some (old, new) \<Rightarrow>
              and_then (parse_hunk_range old line OldSide) (\<lambda>old.
              and_then (parse_hunk_range new line NewSide) (\<lambda>new.
              if hr_count old = 0 \<and> hr_count new = 0 then fail (EmptyHunk line)
              else if dl_max_lines_per_hunk limits < hr_count old
              then fail (DeclaredHunkTooLarge line OldSide (hr_count old)
                (dl_max_lines_per_hunk limits))
              else if dl_max_lines_per_hunk limits < hr_count new
              then fail (DeclaredHunkTooLarge line NewSide (hr_count new)
                (dl_max_lines_per_hunk limits))
              else Inr \<lparr>hh_line = line, hh_old = old, hh_new = new\<rparr>)))))"

section \<open>Hunk lines\<close>

datatype hunk_line_kind = ContextLine | DeletionLine | AdditionLine

record hunk_line =
  hl_kind :: hunk_line_kind
  hl_position :: anchor_position
  hl_content :: string
  hl_no_newline :: bool

record accounting =
  ac_header :: hunk_header
  ac_old_seen :: u32
  ac_new_seen :: u32
  ac_old_line :: u32
  ac_new_line :: u32

definition accounting_new :: "hunk_header \<Rightarrow> accounting" where
  "accounting_new header =
     \<lparr>ac_header = header, ac_old_seen = 0, ac_new_seen = 0,
      ac_old_line = hr_start (hh_old header), ac_new_line = hr_start (hh_new header)\<rparr>"

definition accounting_complete :: "accounting \<Rightarrow> bool" where
  "accounting_complete a \<longleftrightarrow>
     ac_old_seen a = hr_count (hh_old (ac_header a)) \<and>
     ac_new_seen a = hr_count (hh_new (ac_header a))"

definition mismatch :: "accounting \<Rightarrow> 'a diff_result" where
  "mismatch a =
     fail (HunkCountMismatch (hh_line (ac_header a))
       (hr_count (hh_old (ac_header a))) (ac_old_seen a)
       (hr_count (hh_new (ac_header a))) (ac_new_seen a))"

fun line_kind_allowed :: "file_change_kind \<Rightarrow> hunk_line_kind \<Rightarrow> bool" where
  "line_kind_allowed Added AdditionLine = True"
| "line_kind_allowed Deleted DeletionLine = True"
| "line_kind_allowed Modified _ = True"
| "line_kind_allowed Renamed _ = True"
| "line_kind_allowed Added _ = False"
| "line_kind_allowed Deleted _ = False"

definition validate_line_kind ::
    "file_change_kind \<Rightarrow> hunk_line_kind \<Rightarrow> u32 \<Rightarrow> unit diff_result" where
  "validate_line_kind file_kind line_kind line =
     (if line_kind_allowed file_kind line_kind then Inr () else fail (FileChangeLineMismatch line))"

definition require_remaining :: "accounting \<Rightarrow> diff_side \<Rightarrow> u32 \<Rightarrow> unit diff_result" where
  "require_remaining a side line =
     (let exceeded = (case side of
          OldSide \<Rightarrow> hr_count (hh_old (ac_header a)) \<le> ac_old_seen a
        | NewSide \<Rightarrow> hr_count (hh_new (ac_header a)) \<le> ac_new_seen a)
      in if exceeded then fail (HunkCountExceeded line side) else Inr ())"

definition consume_old :: "u32 \<Rightarrow> accounting \<Rightarrow> accounting diff_result" where
  "consume_old line a0 =
     (let a = a0\<lparr>ac_old_seen := ac_old_seen a0 + 1\<rparr> in
      if ac_old_seen a < hr_count (hh_old (ac_header a))
      then case checked_add (ac_old_line a) 1 of
          None \<Rightarrow> fail (LineNumberOverflow line OldSide)
        | Some n \<Rightarrow> Inr (a\<lparr>ac_old_line := n\<rparr>)
      else Inr a)"

definition consume_new :: "u32 \<Rightarrow> accounting \<Rightarrow> accounting diff_result" where
  "consume_new line a0 =
     (let a = a0\<lparr>ac_new_seen := ac_new_seen a0 + 1\<rparr> in
      if ac_new_seen a < hr_count (hh_new (ac_header a))
      then case checked_add (ac_new_line a) 1 of
          None \<Rightarrow> fail (LineNumberOverflow line NewSide)
        | Some n \<Rightarrow> Inr (a\<lparr>ac_new_line := n\<rparr>)
      else Inr a)"

text \<open>
  \<open>consume\<close>.  The content is sliced off before the prefix byte is looked at, so a line
  that starts with a character of several bytes panics.
\<close>

definition consume ::
    "changed_path \<Rightarrow> string \<Rightarrow> u32 \<Rightarrow> accounting \<Rightarrow> (hunk_line \<times> accounting) diff_result" where
  "consume path line n a =
     (case line of
        [] \<Rightarrow> fail (UnexpectedHunkLine n)
      | first # _ \<Rightarrow> (case slice_from 1 line of
          None \<Rightarrow> Inl Panicked
        | Some content \<Rightarrow>
          let record = (\<lambda>kind position.
                \<lparr>hl_kind = kind, hl_position = position, hl_content = content,
                 hl_no_newline = False\<rparr>) in
          if first = CHR '' '' then
            and_then (validate_line_kind (cp_kind path) ContextLine n) (\<lambda>_.
            and_then (require_remaining a OldSide n) (\<lambda>_.
            and_then (require_remaining a NewSide n) (\<lambda>_.
            and_then (map_err (\<lambda>_. Returned (InvalidRangeStart n
                (if ac_old_line a = 0 then OldSide else NewSide)))
              (position_context (ac_old_line a) (ac_new_line a))) (\<lambda>position.
            and_then (consume_old n a) (\<lambda>a.
            and_then (consume_new n a) (\<lambda>a.
            Inr (record ContextLine position, a)))))))
          else if first = CHR ''-'' then
            and_then (validate_line_kind (cp_kind path) DeletionLine n) (\<lambda>_.
            and_then (require_remaining a OldSide n) (\<lambda>_.
            and_then (map_err (\<lambda>_. Returned (InvalidRangeStart n OldSide))
              (position_deletion (ac_old_line a))) (\<lambda>position.
            and_then (consume_old n a) (\<lambda>a.
            Inr (record DeletionLine position, a)))))
          else if first = CHR ''+'' then
            and_then (validate_line_kind (cp_kind path) AdditionLine n) (\<lambda>_.
            and_then (require_remaining a NewSide n) (\<lambda>_.
            and_then (map_err (\<lambda>_. Returned (InvalidRangeStart n NewSide))
              (position_addition (ac_new_line a))) (\<lambda>position.
            and_then (consume_new n a) (\<lambda>a.
            Inr (record AdditionLine position, a)))))
          else fail (UnexpectedHunkLine n)))"

section \<open>Hunks\<close>

datatype marker_state = NoMarker | Content | Marker

fun apply_no_newline_marker ::
    "hunk_line list \<Rightarrow> marker_state \<Rightarrow> u32 \<Rightarrow> (hunk_line list \<times> marker_state) diff_result" where
  "apply_no_newline_marker records NoMarker line = fail (NoNewlineMarkerWithoutContent line)"
| "apply_no_newline_marker records Marker line = fail (DuplicateNoNewlineMarker line)"
| "apply_no_newline_marker records Content line =
     (if records = [] then fail (NoNewlineMarkerWithoutContent line)
      else Inr (butlast records @ [(last records)\<lparr>hl_no_newline := True\<rparr>], Marker))"

type_synonym hunk_state = "hunk_line list \<times> marker_state \<times> string list \<times> nat"

text \<open>The loop of \<open>parse_hunk\<close>, and the markers that may follow it.\<close>

fun hunk_loop ::
    "changed_path \<Rightarrow> diff_limits \<Rightarrow> accounting \<Rightarrow> hunk_line list \<Rightarrow> marker_state \<Rightarrow> string list
      \<Rightarrow> nat \<Rightarrow> hunk_state diff_result" where
  "hunk_loop path limits a records marker [] cursor =
     (if accounting_complete a then Inr (records, marker, [], cursor) else mismatch a)"
| "hunk_loop path limits a records marker (line # lines) cursor =
     (if accounting_complete a then Inr (records, marker, line # lines, cursor)
      else
        let n = line_number_at cursor in
        and_then (reject_unsupported line n) (\<lambda>_.
        if is_hunk_header line then mismatch a
        else if line = no_newline_marker then
          and_then (apply_no_newline_marker records marker n) (\<lambda>(records, marker).
          hunk_loop path limits a records marker lines (cursor + 1))
        else
          and_then (consume path line n a) (\<lambda>(record, a).
          if dl_max_lines_per_hunk limits < clamp_word (length (records @ [record]))
          then fail (TooManyLinesInHunk (hh_line (ac_header a)) (dl_max_lines_per_hunk limits))
          else hunk_loop path limits a (records @ [record]) Content lines (cursor + 1))))"

definition parse_hunk ::
    "changed_path \<Rightarrow> diff_limits \<Rightarrow> hunk_header \<Rightarrow> string list \<Rightarrow> nat
      \<Rightarrow> (hunk_line list \<times> string list \<times> nat) diff_result" where
  "parse_hunk path limits header lines cursor =
     and_then (hunk_loop path limits (accounting_new header) [] NoMarker lines cursor)
       (\<lambda>(records, marker, lines, cursor).
     and_then
       (if lines \<noteq> [] \<and> hd lines = no_newline_marker
        then and_then (apply_no_newline_marker records marker (line_number_at cursor))
               (\<lambda>(records, _). Inr (records, tl lines, cursor + 1))
        else Inr (records, lines, cursor))
       (\<lambda>(records, lines, cursor).
     if lines \<noteq> [] \<and> hd lines = no_newline_marker
     then fail (DuplicateNoNewlineMarker (line_number_at cursor))
     else Inr (records, lines, cursor)))"

section \<open>Digests\<close>

text \<open>
  \<open>Sha256Digest::try_from(format!("{:x}", hasher.finalize())).expect(...)\<close>.
\<close>

definition hash_digest :: "hasher \<Rightarrow> string \<Rightarrow> sha256_digest diff_result" where
  "hash_digest sha fed =
     (case sha256_digest_try_from (sha fed) of Inl _ \<Rightarrow> Inl Panicked | Inr d \<Rightarrow> Inr d)"

fun line_kind_name :: "hunk_line_kind \<Rightarrow> string" where
  "line_kind_name ContextLine = ''context''"
| "line_kind_name DeletionLine = ''deletion''"
| "line_kind_name AdditionLine = ''addition''"

fun line_position_fields :: "anchor_position \<Rightarrow> string list" where
  "line_position_fields (Addition new_line) = [''none'', be_u32 new_line]"
| "line_position_fields (Deletion old_line) = [be_u32 old_line, ''none'']"
| "line_position_fields (Context old_line new_line) = [be_u32 old_line, be_u32 new_line]"

definition line_fields :: "hunk_line \<Rightarrow> string list" where
  "line_fields r =
     [line_kind_name (hl_kind r)] @ line_position_fields (hl_position r) @
     [[if hl_no_newline r then CHR 0x01 else CHR 0x00], hl_content r]"

definition exact_line_digest :: "hasher \<Rightarrow> hunk_line \<Rightarrow> sha256_digest diff_result" where
  "exact_line_digest sha r = hash_digest sha (hash_fields (''revoot-diff-line-v1'' # line_fields r))"

definition context_digest ::
    "hasher \<Rightarrow> hunk_line list \<Rightarrow> nat \<Rightarrow> nat \<Rightarrow> sha256_digest diff_result" where
  "context_digest sha records anchor radius =
     (let start = anchor - radius;
          stop = min (anchor + radius + 1) (length records)
      in hash_digest sha (hash_fields
           ([''revoot-diff-context-v1'', be_u64 (clamp_word radius),
             be_u64 (clamp_word (anchor - start)), be_u64 (clamp_word (stop - start))] @
            concat (map line_fields (take (stop - start) (drop start records))))))"

section \<open>The parser\<close>

definition commentable ::
    "hasher \<Rightarrow> changed_path \<Rightarrow> hunk_line list \<Rightarrow> nat \<Rightarrow> nat \<Rightarrow> commentable_line list
      \<Rightarrow> commentable_line list diff_result" where
  "commentable sha path records radius index acc =
     and_then (exact_line_digest sha (records ! index)) (\<lambda>exact.
     and_then (context_digest sha records index radius) (\<lambda>ctx.
     Inr (acc @ [\<lparr>cl_path = path, cl_position = hl_position (records ! index),
       cl_exact_line_digest = exact, cl_context_digest = ctx\<rparr>])))"

definition append_commentable_lines ::
    "hasher \<Rightarrow> changed_path \<Rightarrow> diff_limits \<Rightarrow> hunk_line list \<Rightarrow> commentable_line list
      \<Rightarrow> commentable_line list diff_result" where
  "append_commentable_lines sha path limits records lines =
     (case try_word (length lines + length records) of
        None \<Rightarrow> fail (TooManyCommentableLines (dl_max_commentable_lines limits))
      | Some prospective \<Rightarrow>
          if dl_max_commentable_lines limits < prospective
          then fail (TooManyCommentableLines (dl_max_commentable_lines limits))
          else try_fold (commentable sha path records (unat (dl_context_radius_lines limits)))
                 [0..<length records] lines)"

lemma apply_marker_keeps_length:
  "apply_no_newline_marker records marker n = Inr (records', marker') \<Longrightarrow>
     length records' = length records"
  by (cases marker) (auto simp: fail_def split: if_splits)

lemma hunk_loop_suffix:
  "hunk_loop path limits a records marker lines cursor = Inr (records', marker', lines', cursor') \<Longrightarrow>
     length lines' \<le> length lines"
proof (induction path limits a records marker lines cursor rule: hunk_loop.induct)
  case (1 path limits a records marker cursor)
  then show ?case by (auto simp: mismatch_def fail_def split: if_splits)
next
  case (2 path limits a records marker line lines cursor)
  then show ?case
    by (fastforce simp: Let_def result_simps mismatch_def fail_def split: if_splits)
qed

lemma parse_hunk_suffix:
  "parse_hunk path limits header lines cursor = Inr (records, lines', cursor') \<Longrightarrow>
     length lines' \<le> length lines"
  by (fastforce simp: parse_hunk_def result_simps fail_def split: if_splits
      dest: hunk_loop_suffix)

text \<open>The loop of \<open>parse_hunks\<close>, with the hunks counted and the lines gathered so far.\<close>

function parse_hunks ::
    "hasher \<Rightarrow> changed_path \<Rightarrow> diff_limits \<Rightarrow> u32 \<Rightarrow> commentable_line list \<Rightarrow> string list \<Rightarrow> nat
      \<Rightarrow> (u32 \<times> commentable_line list) diff_result" where
  "parse_hunks sha path limits hunks acc [] cursor =
     (if hunks = 0 then fail NoHunks else Inr (hunks, acc))"
| "parse_hunks sha path limits hunks acc (line # lines) cursor =
     (let n = line_number_at cursor in
      and_then (reject_unsupported line n) (\<lambda>_.
      if \<not> is_hunk_header line then fail (UnexpectedTrailingContent n)
      else if hunks = dl_max_hunks limits then fail (TooManyHunks (dl_max_hunks limits))
      else
        and_then (parse_hunk_header line n limits) (\<lambda>header.
        and_then (parse_hunk path limits header lines (cursor + 1)) (\<lambda>(records, rest, cursor).
        and_then (append_commentable_lines sha path limits records acc) (\<lambda>acc.
        parse_hunks sha path limits (hunks + 1) acc rest cursor)))))"
  by pat_completeness auto

termination
  by (relation "measure (\<lambda>(_, _, _, _, _, lines, _). length lines)")
    (auto dest: parse_hunk_suffix)

definition parse_gitlab_file_diff ::
    "hasher \<Rightarrow> changed_path \<Rightarrow> string \<Rightarrow> diff_limits \<Rightarrow> parsed_file_diff diff_result" where
  "parse_gitlab_file_diff sha path input limits =
     (if \<not> diff_limits_valid limits then fail InvalidDiffLimits
      else case semantic_issue path of
        Some issue \<Rightarrow> fail (InvalidDiffPath issue)
      | None \<Rightarrow>
          and_then (validated_lines input limits) (\<lambda>lines.
          and_then (parse_prelude path False False False lines 0) (\<lambda>(lines, cursor).
          and_then (parse_hunks sha path limits 0 [] lines cursor) (\<lambda>(hunks, out).
          Inr \<lparr>pf_input_sha256 = sha input, pf_hunk_count = hunks,
            pf_commentable_lines = out\<rparr>))))"

end
