(* ===== verification/Diff_Parsed.thy ===== *)
theory Diff_Parsed
  imports Diff
begin

text \<open>
  What the diff parser guarantees: every hunk accounts for exactly the line ranges of its
  header, every commentable line is one the anchor table accepts, the errors of the
  line accounting cannot occur after header validation, and the parser panics only on a
  hunk line that starts with a character of several bytes.
\<close>

section \<open>Accounting\<close>

fun old_number :: "anchor_position \<Rightarrow> nat list" where
  "old_number (Addition _) = []"
| "old_number (Deletion old_line) = [unat old_line]"
| "old_number (Context old_line _) = [unat old_line]"

fun new_number :: "anchor_position \<Rightarrow> nat list" where
  "new_number (Addition new_line) = [unat new_line]"
| "new_number (Deletion _) = []"
| "new_number (Context _ new_line) = [unat new_line]"

text \<open>The old and the new line numbers of a hunk's records, in order.\<close>

definition old_lines :: "hunk_line list \<Rightarrow> nat list" where
  "old_lines rs = concat (map (old_number \<circ> hl_position) rs)"

definition new_lines :: "hunk_line list \<Rightarrow> nat list" where
  "new_lines rs = concat (map (new_number \<circ> hl_position) rs)"

definition range_lines :: "hunk_range \<Rightarrow> nat list" where
  "range_lines r = [unat (hr_start r)..<unat (hr_start r) + unat (hr_count r)]"

definition range_ok :: "hunk_range \<Rightarrow> bool" where
  "range_ok r \<longleftrightarrow> hr_count r = 0 \<or>
     1 \<le> unat (hr_start r) \<and> unat (hr_start r) + unat (hr_count r) \<le> 2 ^ 32"

definition side_ok :: "hunk_range \<Rightarrow> u32 \<Rightarrow> u32 \<Rightarrow> nat list \<Rightarrow> bool" where
  "side_ok r seen line numbers \<longleftrightarrow>
     range_ok r \<and> seen \<le> hr_count r \<and>
     (seen < hr_count r \<longrightarrow> unat line = unat (hr_start r) + unat seen) \<and>
     numbers = [unat (hr_start r)..<unat (hr_start r) + unat seen]"

definition accounting_ok :: "accounting \<Rightarrow> hunk_line list \<Rightarrow> bool" where
  "accounting_ok a rs \<longleftrightarrow>
     side_ok (hh_old (ac_header a)) (ac_old_seen a) (ac_old_line a) (old_lines rs) \<and>
     side_ok (hh_new (ac_header a)) (ac_new_seen a) (ac_new_line a) (new_lines rs)"

lemma accounting_new_ok:
  "range_ok (hh_old h) \<Longrightarrow> range_ok (hh_new h) \<Longrightarrow> accounting_ok (accounting_new h) []"
  by (simp add: accounting_ok_def side_ok_def accounting_new_def old_lines_def new_lines_def)

lemma parse_hunk_range_ok: "parse_hunk_range value line side = Inr r \<Longrightarrow> range_ok r"
proof -
  assume "parse_hunk_range value line side = Inr r"
  then obtain start n where r: "r = \<lparr>hr_start = start, hr_count = n\<rparr>"
    and start: "\<not> (0 < n \<and> start = 0)" and sum: "\<not> (0 < n \<and> checked_add start (n - 1) = None)"
    by (auto simp: parse_hunk_range_def fail_def result_simps split: if_splits)
  show ?thesis
  proof (cases "n = 0")
    case False
    then have pos: "0 < n" by (simp add: word_neq_0_conv)
    then have "unat (n - 1) = unat n - 1" "0 < unat n"
      by (simp_all add: unat_minus_one unat_gt_0)
    moreover have "unat start + unat (n - 1) < 2 ^ 32"
      using sum pos checked_add_None [of start "n - 1"] by (simp add: not_le)
    moreover have "0 < unat start" using start pos by (auto simp: unat_gt_0)
    ultimately have "1 \<le> unat start" "unat start + unat n \<le> 2 ^ 32" by linarith+
    then show ?thesis by (simp add: range_ok_def r)
  qed (simp add: range_ok_def r)
qed

lemma parse_hunk_header_ok:
  assumes "parse_hunk_header value line limits = Inr h"
  shows "range_ok (hh_old h) \<and> range_ok (hh_new h)"
proof -
  obtain o' n' where "parse_hunk_range o' line OldSide = Inr (hh_old h)"
    "parse_hunk_range n' line NewSide = Inr (hh_new h)"
    using assms
    by (auto simp: parse_hunk_header_def fail_def result_simps split: if_splits option.splits)
  then show ?thesis using parse_hunk_range_ok by blast
qed

text \<open>One number consumed on a side with a line left.\<close>

lemma side_step:
  assumes ok: "side_ok r seen line numbers" and left: "seen < hr_count r"
  shows "0 < unat line"
    and "side_ok r (seen + 1) line' (numbers @ [unat line]) \<longleftrightarrow>
      (seen + 1 < hr_count r \<longrightarrow> unat line' = unat line + 1)"
    and "seen + 1 < hr_count r \<Longrightarrow> checked_add line 1 \<noteq> None"
proof -
  have lt: "unat seen < unat (hr_count r)" using left by (simp add: word_less_nat_alt)
  have line: "unat line = unat (hr_start r) + unat seen" using ok left by (simp add: side_ok_def)
  have range: "1 \<le> unat (hr_start r)" "unat (hr_start r) + unat (hr_count r) \<le> 2 ^ 32"
    using ok lt by (auto simp: side_ok_def range_ok_def)
  show "0 < unat line" using line range(1) by simp
  have suc: "unat (seen + 1) = unat seen + 1"
    using lt unsigned_less [of "hr_count r", where ?'a = nat] unat_plus_small [of seen 1] by simp
  then show "side_ok r (seen + 1) line' (numbers @ [unat line]) \<longleftrightarrow>
      (seen + 1 < hr_count r \<longrightarrow> unat line' = unat line + 1)"
    using ok lt line by (auto simp: side_ok_def word_le_nat_alt word_less_nat_alt)
  assume "seen + 1 < hr_count r"
  then have "unat line + 1 < 2 ^ 32" using suc line range(2) by (simp add: word_less_nat_alt)
  then show "checked_add line 1 \<noteq> None" by (simp add: checked_add_def)
qed

lemma consume_old_ok:
  assumes "side_ok (hh_old (ac_header a)) (ac_old_seen a) (ac_old_line a) numbers"
    and "ac_old_seen a < hr_count (hh_old (ac_header a))"
  shows "\<exists>line'. consume_old n a =
      Inr (a\<lparr>ac_old_seen := ac_old_seen a + 1, ac_old_line := line'\<rparr>) \<and>
    side_ok (hh_old (ac_header a)) (ac_old_seen a + 1) line' (numbers @ [unat (ac_old_line a)])"
proof (cases "ac_old_seen a + 1 < hr_count (hh_old (ac_header a))")
  case True
  then obtain line' where line': "checked_add (ac_old_line a) 1 = Some line'"
    using side_step(3) [OF assms] by blast
  then have "unat line' = unat (ac_old_line a) + 1" by (simp add: checked_add_Some)
  then show ?thesis
    using side_step(2) [OF assms, of line'] True line' by (auto simp: consume_old_def Let_def)
next
  case False
  then have "consume_old n a = Inr (a\<lparr>ac_old_seen := ac_old_seen a + 1, ac_old_line := ac_old_line a\<rparr>)"
    by (simp add: consume_old_def Let_def)
  then show ?thesis using side_step(2) [OF assms, of "ac_old_line a"] False by blast
qed

lemma consume_new_ok:
  assumes "side_ok (hh_new (ac_header a)) (ac_new_seen a) (ac_new_line a) numbers"
    and "ac_new_seen a < hr_count (hh_new (ac_header a))"
  shows "\<exists>line'. consume_new n a =
      Inr (a\<lparr>ac_new_seen := ac_new_seen a + 1, ac_new_line := line'\<rparr>) \<and>
    side_ok (hh_new (ac_header a)) (ac_new_seen a + 1) line' (numbers @ [unat (ac_new_line a)])"
proof (cases "ac_new_seen a + 1 < hr_count (hh_new (ac_header a))")
  case True
  then obtain line' where line': "checked_add (ac_new_line a) 1 = Some line'"
    using side_step(3) [OF assms] by blast
  then have "unat line' = unat (ac_new_line a) + 1" by (simp add: checked_add_Some)
  then show ?thesis
    using side_step(2) [OF assms, of line'] True line' by (auto simp: consume_new_def Let_def)
next
  case False
  then have "consume_new n a = Inr (a\<lparr>ac_new_seen := ac_new_seen a + 1, ac_new_line := ac_new_line a\<rparr>)"
    by (simp add: consume_new_def Let_def)
  then show ?thesis using side_step(2) [OF assms, of "ac_new_line a"] False by blast
qed

text \<open>What \<open>consume\<close> can return.\<close>

definition record_ok :: "changed_path \<Rightarrow> hunk_line \<Rightarrow> bool" where
  "record_ok path r \<longleftrightarrow>
     position_valid (hl_position r) \<and> compatible (cp_kind path) (hl_position r)"

lemma record_numbers [simp]:
  "old_lines (rs @ [r]) = old_lines rs @ old_number (hl_position r)"
  "new_lines (rs @ [r]) = new_lines rs @ new_number (hl_position r)"
  by (simp_all add: old_lines_def new_lines_def)

lemma remaining_eq:
  "require_remaining a OldSide n =
     (if ac_old_seen a < hr_count (hh_old (ac_header a)) then Inr () else fail (HunkCountExceeded n OldSide))"
  "require_remaining a NewSide n =
     (if ac_new_seen a < hr_count (hh_new (ac_header a)) then Inr () else fail (HunkCountExceeded n NewSide))"
  by (auto simp: require_remaining_def not_less)

definition multibyte_start :: "string \<Rightarrow> bool" where
  "multibyte_start line \<longleftrightarrow> 1 < length line \<and> is_continuation (line ! 1)"

lemma slice_one: "line \<noteq> [] \<Longrightarrow> slice_from 1 line = None \<longleftrightarrow> multibyte_start line"
  by (cases line) (auto simp: slice_from_def multibyte_start_def)

text \<open>Each kind of line either is refused or is recorded with its exact position.\<close>

definition consume_result ::
    "changed_path \<Rightarrow> string \<Rightarrow> u32 \<Rightarrow> accounting \<Rightarrow> hunk_line list \<Rightarrow> (hunk_line \<times> accounting) diff_result \<Rightarrow> bool" where
  "consume_result path line n a rs res \<longleftrightarrow>
     (\<exists>e \<in> {UnexpectedHunkLine n, FileChangeLineMismatch n, HunkCountExceeded n OldSide,
        HunkCountExceeded n NewSide}. res = fail e) \<or>
     (\<exists>r a'. res = Inr (r, a') \<and> accounting_ok a' (rs @ [r]) \<and> record_ok path r \<and>
        ac_header a' = ac_header a \<and> hl_content r = tl line)"

lemma consume_result_fail:
  "e \<in> {UnexpectedHunkLine n, FileChangeLineMismatch n, HunkCountExceeded n OldSide,
     HunkCountExceeded n NewSide} \<Longrightarrow> consume_result path line n a rs (fail e)"
  by (auto simp: consume_result_def)

lemma allowed_compatible:
  "line_kind_allowed k ContextLine \<Longrightarrow> compatible k (Context o' n')"
  "line_kind_allowed k DeletionLine \<Longrightarrow> compatible k (Deletion o')"
  "line_kind_allowed k AdditionLine \<Longrightarrow> compatible k (Addition n')"
  by (cases k; simp)+

lemmas consume_simps =
  consume_def validate_line_kind_def remaining_eq position_context_def
  position_deletion_def position_addition_def

lemma slice_tl: "line = b # bs \<Longrightarrow> \<not> multibyte_start line \<Longrightarrow> slice_from 1 line = Some bs"
  using slice_one [of line] by (auto simp: slice_from_def split: if_splits)

lemma consume_context:
  assumes ok: "accounting_ok a rs" and line: "line = CHR '' '' # bs" and "\<not> multibyte_start line"
  shows "consume_result path line n a rs (consume path line n a)"
proof (cases "line_kind_allowed (cp_kind path) ContextLine \<and>
    ac_old_seen a < hr_count (hh_old (ac_header a)) \<and> ac_new_seen a < hr_count (hh_new (ac_header a))")
  case True
  have old: "side_ok (hh_old (ac_header a)) (ac_old_seen a) (ac_old_line a) (old_lines rs)"
    and new: "side_ok (hh_new (ac_header a)) (ac_new_seen a) (ac_new_line a) (new_lines rs)"
    using ok by (simp_all add: accounting_ok_def)
  have nz: "ac_old_line a \<noteq> 0" "ac_new_line a \<noteq> 0"
    using side_step(1) [OF old] side_step(1) [OF new] True by (auto simp: unat_gt_0)
  obtain l where l: "consume_old n a = Inr (a\<lparr>ac_old_seen := ac_old_seen a + 1, ac_old_line := l\<rparr>)"
      "side_ok (hh_old (ac_header a)) (ac_old_seen a + 1) l (old_lines rs @ [unat (ac_old_line a)])"
    using consume_old_ok [OF old] True by blast
  let ?a = "a\<lparr>ac_old_seen := ac_old_seen a + 1, ac_old_line := l\<rparr>"
  obtain m where m: "consume_new n ?a = Inr (?a\<lparr>ac_new_seen := ac_new_seen a + 1, ac_new_line := m\<rparr>)"
      "side_ok (hh_new (ac_header a)) (ac_new_seen a + 1) m (new_lines rs @ [unat (ac_new_line a)])"
    using consume_new_ok [of ?a "new_lines rs" n] new True by auto
  have "consume path line n a = Inr (\<lparr>hl_kind = ContextLine,
      hl_position = Context (ac_old_line a) (ac_new_line a), hl_content = bs, hl_no_newline = False\<rparr>,
      ?a\<lparr>ac_new_seen := ac_new_seen a + 1, ac_new_line := m\<rparr>)"
    using slice_tl [OF line assms(3)] line True nz l(1) m(1) by (simp add: consume_simps Let_def)
  then show ?thesis
    using line True nz l(2) m(2)
    by (simp add: consume_result_def accounting_ok_def record_ok_def allowed_compatible)
next
  case False
  then show ?thesis
    using slice_tl [OF line assms(3)] line consume_result_fail
    by (auto simp: consume_simps Let_def fail_def)
qed

lemma consume_deletion:
  assumes ok: "accounting_ok a rs" and line: "line = CHR ''-'' # bs" and "\<not> multibyte_start line"
  shows "consume_result path line n a rs (consume path line n a)"
proof (cases "line_kind_allowed (cp_kind path) DeletionLine \<and>
    ac_old_seen a < hr_count (hh_old (ac_header a))")
  case True
  have old: "side_ok (hh_old (ac_header a)) (ac_old_seen a) (ac_old_line a) (old_lines rs)"
    and new: "side_ok (hh_new (ac_header a)) (ac_new_seen a) (ac_new_line a) (new_lines rs)"
    using ok by (simp_all add: accounting_ok_def)
  have nz: "ac_old_line a \<noteq> 0"
    using side_step(1) [OF old] True by (auto simp: unat_gt_0)
  obtain l where l: "consume_old n a = Inr (a\<lparr>ac_old_seen := ac_old_seen a + 1, ac_old_line := l\<rparr>)"
      "side_ok (hh_old (ac_header a)) (ac_old_seen a + 1) l (old_lines rs @ [unat (ac_old_line a)])"
    using consume_old_ok [OF old] True by blast
  have "consume path line n a = Inr (\<lparr>hl_kind = DeletionLine,
      hl_position = Deletion (ac_old_line a), hl_content = bs, hl_no_newline = False\<rparr>,
      a\<lparr>ac_old_seen := ac_old_seen a + 1, ac_old_line := l\<rparr>)"
    using slice_tl [OF line assms(3)] line True nz l(1) by (simp add: consume_simps Let_def)
  then show ?thesis
    using line True nz l(2) new
    by (simp add: consume_result_def accounting_ok_def record_ok_def allowed_compatible)
next
  case False
  then show ?thesis
    using slice_tl [OF line assms(3)] line consume_result_fail
    by (auto simp: consume_simps Let_def fail_def)
qed

lemma consume_addition:
  assumes ok: "accounting_ok a rs" and line: "line = CHR ''+'' # bs" and "\<not> multibyte_start line"
  shows "consume_result path line n a rs (consume path line n a)"
proof (cases "line_kind_allowed (cp_kind path) AdditionLine \<and>
    ac_new_seen a < hr_count (hh_new (ac_header a))")
  case True
  have old: "side_ok (hh_old (ac_header a)) (ac_old_seen a) (ac_old_line a) (old_lines rs)"
    and new: "side_ok (hh_new (ac_header a)) (ac_new_seen a) (ac_new_line a) (new_lines rs)"
    using ok by (simp_all add: accounting_ok_def)
  have nz: "ac_new_line a \<noteq> 0"
    using side_step(1) [OF new] True by (auto simp: unat_gt_0)
  obtain m where m: "consume_new n a = Inr (a\<lparr>ac_new_seen := ac_new_seen a + 1, ac_new_line := m\<rparr>)"
      "side_ok (hh_new (ac_header a)) (ac_new_seen a + 1) m (new_lines rs @ [unat (ac_new_line a)])"
    using consume_new_ok [OF new] True by blast
  have "consume path line n a = Inr (\<lparr>hl_kind = AdditionLine,
      hl_position = Addition (ac_new_line a), hl_content = bs, hl_no_newline = False\<rparr>,
      a\<lparr>ac_new_seen := ac_new_seen a + 1, ac_new_line := m\<rparr>)"
    using slice_tl [OF line assms(3)] line True nz m(1) by (simp add: consume_simps Let_def)
  then show ?thesis
    using line True nz m(2) old
    by (simp add: consume_result_def accounting_ok_def record_ok_def allowed_compatible)
next
  case False
  then show ?thesis
    using slice_tl [OF line assms(3)] line consume_result_fail
    by (auto simp: consume_simps Let_def fail_def)
qed

lemma consume_outcome:
  assumes ok: "accounting_ok a rs"
  shows "multibyte_start line \<and> consume path line n a = Inl Panicked \<or>
    \<not> multibyte_start line \<and> consume_result path line n a rs (consume path line n a)"
proof (cases line)
  case Nil
  then show ?thesis
    using consume_result_fail [of "UnexpectedHunkLine n"]
    by (simp add: consume_def multibyte_start_def)
next
  case (Cons b bs)
  show ?thesis
  proof (cases "multibyte_start line")
    case True
    then have "slice_from 1 line = None" using slice_one Cons by simp
    then show ?thesis using True Cons by (simp add: consume_def)
  next
    case False
    note cases = consume_context [OF ok _ False] consume_deletion [OF ok _ False]
      consume_addition [OF ok _ False]
    show ?thesis
    proof (cases "b \<in> {CHR '' '', CHR ''-'', CHR ''+''}")
      case True
      then show ?thesis using False Cons cases by auto
    next
      case other: False
      then have "consume path line n a = fail (UnexpectedHunkLine n)"
        using slice_tl [OF Cons False] Cons by (simp add: consume_def Let_def)
      then show ?thesis
        using False consume_result_fail [of "UnexpectedHunkLine n"] by simp
    qed
  qed
qed

section \<open>Hunks\<close>

definition numbering_error :: "unified_diff_error \<Rightarrow> bool" where
  "numbering_error e \<longleftrightarrow> (\<exists>n side. e = LineNumberOverflow n side \<or> e = InvalidRangeStart n side)"

text \<open>\<open>rest\<close> is left of the lines after some that are no hunk headers.\<close>

definition skips :: "string list \<Rightarrow> string list \<Rightarrow> bool" where
  "skips lines rest \<longleftrightarrow>
     suffix rest lines \<and> filter is_hunk_header rest = filter is_hunk_header lines"

lemma skips_refl [simp]: "skips lines lines"
  by (simp add: skips_def)

lemma skips_Cons: "\<not> is_hunk_header line \<Longrightarrow> skips lines rest \<Longrightarrow> skips (line # lines) rest"
  by (auto simp: skips_def intro: suffix_ConsI)

lemma skips_rest: "skips lines (m # rest) \<Longrightarrow> \<not> is_hunk_header m \<Longrightarrow> skips lines rest"
  by (auto simp: skips_def intro: suffix_order.trans suffix_ConsI)

lemma no_newline_not_header [simp]: "\<not> is_hunk_header no_newline_marker"
  by (simp add: is_hunk_header_def starts_with_def no_newline_marker_def)

text \<open>What parsing the lines of a hunk may return.\<close>

fun hunk_result ::
    "changed_path \<Rightarrow> hunk_header \<Rightarrow> string list \<Rightarrow> (hunk_line list \<times> string list) diff_result \<Rightarrow> bool" where
  "hunk_result path h lines (Inr (rs, rest)) \<longleftrightarrow>
     list_all (record_ok path) rs \<and> old_lines rs = range_lines (hh_old h) \<and>
     new_lines rs = range_lines (hh_new h) \<and> skips lines rest"
| "hunk_result path h lines (Inl Panicked) \<longleftrightarrow> list_ex multibyte_start lines"
| "hunk_result path h lines (Inl (Returned e)) \<longleftrightarrow> \<not> numbering_error e"

definition loop_state :: "changed_path \<Rightarrow> hunk_header \<Rightarrow> accounting \<Rightarrow> hunk_line list \<Rightarrow> bool" where
  "loop_state path h a rs \<longleftrightarrow>
     accounting_ok a rs \<and> ac_header a = h \<and> list_all (record_ok path) rs"

lemma loop_state_positions:
  assumes "map hl_position rs' = map hl_position rs"
  shows "loop_state path h a rs' = loop_state path h a rs"
    and "old_lines rs' = old_lines rs" and "new_lines rs' = new_lines rs"
proof -
  show lines: "old_lines rs' = old_lines rs" "new_lines rs' = new_lines rs"
    using assms by (simp_all add: old_lines_def new_lines_def flip: map_map)
  have "list_all (record_ok path) rs = list_all (\<lambda>p. position_valid p \<and> compatible (cp_kind path) p)
      (map hl_position rs)" for rs
    by (induction rs) (auto simp: record_ok_def)
  then have "list_all (record_ok path) rs' = list_all (record_ok path) rs" using assms by simp
  then show "loop_state path h a rs' = loop_state path h a rs"
    by (simp add: loop_state_def accounting_ok_def lines)
qed

lemma apply_marker_cases:
  obtains (err) e where "apply_no_newline_marker rs marker n = fail e" "\<not> numbering_error e"
    | (marked) rs' where "apply_no_newline_marker rs marker n = Inr (rs', Marker)"
        "map hl_position rs' = map hl_position rs"
proof (cases marker)
  case Content
  show thesis
  proof (cases "rs = []")
    case False
    have "map hl_position (butlast rs @ [(last rs)\<lparr>hl_no_newline := True\<rparr>]) =
        map hl_position (butlast rs @ [last rs])" by simp
    then show thesis using False Content marked by simp
  qed (use Content err in \<open>simp add: numbering_error_def\<close>)
qed (use err in \<open>simp_all add: numbering_error_def\<close>)

lemma reject_unsupported_cases:
  obtains (err) e where "reject_unsupported line n = fail e" "\<not> numbering_error e"
    | (ok) "reject_unsupported line n = Inr ()"
proof -
  have "reject_unsupported line n \<in> {fail (CombinedDiff n), fail (BinaryDiff n), Inr ()}"
    by (simp add: reject_unsupported_def)
  then show thesis using that by (auto simp: numbering_error_def)
qed

definition drop_marker :: "hunk_state \<Rightarrow> hunk_line list \<times> string list" where
  "drop_marker s = (case s of (rs, _, rest, _) \<Rightarrow> (rs, rest))"

definition map_ok :: "('a \<Rightarrow> 'b) \<Rightarrow> 'a diff_result \<Rightarrow> 'b diff_result" where
  "map_ok f r = and_then r (\<lambda>x. Inr (f x))"

lemma map_ok_simps [simp]:
  "map_ok f (Inr x) = Inr (f x)" "map_ok f (fail e) = fail e" "map_ok f (Inl Panicked) = Inl Panicked"
  by (simp_all add: map_ok_def fail_def)

lemma and_then_fail [simp]: "and_then (fail e) f = fail e"
  by (simp add: fail_def)

lemma hunk_result_fail [simp]: "hunk_result path h lines (fail e) \<longleftrightarrow> \<not> numbering_error e"
  by (simp add: fail_def)

lemma hunk_result_mismatch [simp]: "hunk_result path h lines (map_ok f (mismatch a))"
  by (simp add: mismatch_def numbering_error_def)

lemma hunk_result_Cons:
  "\<not> is_hunk_header line \<Longrightarrow> hunk_result path h lines r \<Longrightarrow> hunk_result path h (line # lines) r"
  by (cases "(path, h, lines, r)" rule: hunk_result.cases) (auto intro: skips_Cons)

lemma loop_complete:
  assumes "loop_state path h a rs" and "accounting_complete a"
  shows "hunk_result path h lines (Inr (rs, lines))"
  using assms
  by (auto simp: loop_state_def accounting_ok_def side_ok_def accounting_complete_def range_lines_def)

lemma hunk_loop_result:
  "loop_state path h a rs \<Longrightarrow>
     hunk_result path h lines (map_ok drop_marker (hunk_loop path limits a rs marker lines cursor))"
proof (induction path limits a rs marker lines cursor rule: hunk_loop.induct)
  case (1 path limits a rs marker cursor)
  then show ?case using loop_complete [OF 1] by (simp add: drop_marker_def)
next
  case (2 path limits a rs marker line lines cursor)
  let ?n = "line_number_at cursor"
  show ?case
  proof (cases "accounting_complete a")
    case True
    then show ?thesis using loop_complete [OF 2(3)] by (simp add: drop_marker_def)
  next
    case running: False
    show ?thesis
    proof (cases rule: reject_unsupported_cases [of line ?n])
      case (err e)
      then show ?thesis using running by simp
    next
      case ok
      consider (head) "is_hunk_header line"
        | (marker) "\<not> is_hunk_header line" "line = no_newline_marker"
        | (content) "\<not> is_hunk_header line" "line \<noteq> no_newline_marker" by blast
      then show ?thesis
      proof cases
        case head
        then show ?thesis using running ok by simp
      next
        case marker
        show ?thesis
        proof (cases rule: apply_marker_cases [of rs marker ?n])
          case (err e)
          then show ?thesis using running ok marker by simp
        next
          case (marked rs')
          have "loop_state path h a rs'" using 2(3) loop_state_positions(1) [OF marked(2)] by simp
          then show ?thesis
            using running ok marker marked(1) 2(1) [OF running refl ok marker marked(1) refl]
            by (simp add: hunk_result_Cons)
        qed
      next
        case content
        have "accounting_ok a rs" using 2(3) by (simp add: loop_state_def)
        then consider (panic) "multibyte_start line" "consume path line ?n a = Inl Panicked"
          | (err) e where "consume path line ?n a = fail e" "\<not> numbering_error e"
          | (rec) r a' where "consume path line ?n a = Inr (r, a')" "accounting_ok a' (rs @ [r])"
              "record_ok path r" "ac_header a' = ac_header a"
          using consume_outcome [of a rs line path ?n]
          by (auto simp: consume_result_def numbering_error_def)
        then show ?thesis
        proof cases
          case panic
          then show ?thesis using running ok content by simp
        next
          case (err e)
          then show ?thesis using running ok content by simp
        next
          case (rec r a')
          then have "loop_state path h a' (rs @ [r])" using 2(3) by (simp add: loop_state_def)
          then show ?thesis
            using running ok content rec(1) 2(2) [OF running refl ok content rec(1) refl]
            by (auto simp: hunk_result_Cons numbering_error_def)
        qed
      qed
    qed
  qed
qed

definition drop_cursor :: "hunk_line list \<times> string list \<times> nat \<Rightarrow> hunk_line list \<times> string list" where
  "drop_cursor s = (case s of (rs, rest, _) \<Rightarrow> (rs, rest))"

lemma hunk_result_marked:
  assumes "hunk_result path h lines (Inr (rs, m # rest))" and "map hl_position rs' = map hl_position rs"
    and "\<not> is_hunk_header m"
  shows "hunk_result path h lines (Inr (rs', rest))"
proof -
  have "list_all (record_ok path) rs'"
    using assms loop_state_positions(1) [OF assms(2), of path "ac_header a" a for a]
    by (auto simp: record_ok_def list_all_iff) (metis (no_types, lifting) in_set_conv_nth length_map nth_map)+
  moreover have "skips lines rest" using assms(1,3) by (auto intro: skips_rest)
  ultimately show ?thesis
    using assms(1) loop_state_positions(2,3) [OF assms(2)] by simp
qed

lemma parse_hunk_result:
  assumes "range_ok (hh_old h)" and "range_ok (hh_new h)"
  shows "hunk_result path h lines (map_ok drop_cursor (parse_hunk path limits h lines cursor))"
proof -
  have init: "loop_state path h (accounting_new h) []"
    using accounting_new_ok [OF assms] by (simp add: loop_state_def accounting_new_def)
  note result = hunk_loop_result [OF init, of lines limits NoMarker cursor]
  consider (panic) "hunk_loop path limits (accounting_new h) [] NoMarker lines cursor = Inl Panicked"
    | (err) e where "hunk_loop path limits (accounting_new h) [] NoMarker lines cursor = fail e"
    | (ok) rs marker rest c where
      "hunk_loop path limits (accounting_new h) [] NoMarker lines cursor = Inr (rs, marker, rest, c)"
    by (cases "hunk_loop path limits (accounting_new h) [] NoMarker lines cursor")
      (metis fault.exhaust fail_def, metis surj_pair)
  then show ?thesis
  proof cases
    case panic
    then show ?thesis using result by (simp add: parse_hunk_def)
  next
    case (err e)
    then show ?thesis using result by (simp add: parse_hunk_def)
  next
    case (ok rs marker rest c)
    then have fin: "hunk_result path h lines (Inr (rs, rest))"
      using result by (simp add: drop_marker_def)
    show ?thesis
    proof (cases "rest \<noteq> [] \<and> hd rest = no_newline_marker")
      case False
      then show ?thesis using ok fin by (auto simp: parse_hunk_def drop_cursor_def)
    next
      case True
      then obtain rest' where rest: "rest = no_newline_marker # rest'" by (cases rest) auto
      show ?thesis
      proof (cases rule: apply_marker_cases [of rs marker "line_number_at c"])
        case (err e)
        then show ?thesis using ok rest by (simp add: parse_hunk_def)
      next
        case (marked rs')
        have "hunk_result path h lines (Inr (rs', rest'))"
          using fin marked(2) no_newline_not_header unfolding rest by (rule hunk_result_marked)
        then show ?thesis
          using ok rest marked(1) by (auto simp: parse_hunk_def drop_cursor_def numbering_error_def)
      qed
    qed
  qed
qed

section \<open>The whole file\<close>

definition hex_hasher :: "hasher \<Rightarrow> bool" where
  "hex_hasher sha \<longleftrightarrow> (\<forall>s. length (sha s) = 64 \<and> is_lower_hex (sha s))"

definition line_ok :: "changed_path \<Rightarrow> commentable_line \<Rightarrow> bool" where
  "line_ok path l \<longleftrightarrow> cl_path l = path \<and> position_valid (cl_position l) \<and>
     compatible (cp_kind path) (cl_position l)"

definition old_of :: "commentable_line list \<Rightarrow> nat list" where
  "old_of ls = concat (map (old_number \<circ> cl_position) ls)"

definition new_of :: "commentable_line list \<Rightarrow> nat list" where
  "new_of ls = concat (map (new_number \<circ> cl_position) ls)"

lemma hash_digest_hex: "hex_hasher sha \<Longrightarrow> hash_digest sha s = Inr (sha s)"
  by (simp add: hex_hasher_def hash_digest_def sha256_digest_try_from_def sha256_hex_len_def)

lemma commentable_hex:
  assumes "hex_hasher sha"
  obtains l where "commentable sha path rs radius i acc = Inr (acc @ [l])"
    and "cl_path l = path" and "cl_position l = hl_position (rs ! i)"
  using that by (simp add: commentable_def exact_line_digest_def context_digest_def
      hash_digest_hex [OF assms] Let_def)

lemma append_fold:
  assumes "hex_hasher sha"
  shows "\<exists>ls. try_fold (commentable sha path rs radius) is acc = Inr (acc @ ls) \<and>
    list_all (\<lambda>l. cl_path l = path) ls \<and> map cl_position ls = map (\<lambda>i. hl_position (rs ! i)) is"
proof (induction "is" arbitrary: acc)
  case (Cons i "is")
  obtain l where l: "commentable sha path rs radius i acc = Inr (acc @ [l])"
    "cl_path l = path" "cl_position l = hl_position (rs ! i)"
    using commentable_hex [OF assms] by blast
  from Cons [of "acc @ [l]"] obtain ls where
    "try_fold (commentable sha path rs radius) is (acc @ [l]) = Inr ((acc @ [l]) @ ls)"
    "list_all (\<lambda>l. cl_path l = path) ls" "map cl_position ls = map (\<lambda>i. hl_position (rs ! i)) is"
    by blast
  then show ?case using l by (intro exI [of _ "l # ls"]) simp
qed simp

lemma append_cases:
  assumes "hex_hasher sha"
  obtains (err) "append_commentable_lines sha path limits rs acc =
      fail (TooManyCommentableLines (dl_max_commentable_lines limits))"
    | (ok) ls where "append_commentable_lines sha path limits rs acc = Inr (acc @ ls)"
      "list_all (\<lambda>l. cl_path l = path) ls" "map cl_position ls = map hl_position rs"
      "length acc + length rs \<le> unat (dl_max_commentable_lines limits)"
proof -
  obtain ls where ls: "try_fold (commentable sha path rs (unat (dl_context_radius_lines limits)))
      [0..<length rs] acc = Inr (acc @ ls)" "list_all (\<lambda>l. cl_path l = path) ls"
    "map cl_position ls = map (\<lambda>i. hl_position (rs ! i)) [0..<length rs]"
    using append_fold [OF assms] by blast
  have "map (\<lambda>i. hl_position (rs ! i)) [0..<length rs] = map hl_position rs"
    by (rule nth_equalityI) simp_all
  with ls have positions: "map cl_position ls = map hl_position rs" by simp
  show thesis
  proof (cases "try_word (length acc + length rs) :: u32 option")
    case None
    then show thesis using err by (simp add: append_commentable_lines_def)
  next
    case (Some p)
    then have p: "unat p = length acc + length rs" by (simp add: try_word_Some)
    show thesis
    proof (cases "dl_max_commentable_lines limits < p")
      case True
      then show thesis using err Some by (simp add: append_commentable_lines_def)
    next
      case False
      then have "length acc + length rs \<le> unat (dl_max_commentable_lines limits)"
        using p by (simp add: word_less_nat_alt)
      then show thesis
        using ok ls(1,2) positions Some False by (simp add: append_commentable_lines_def)
    qed
  qed
qed

text \<open>What parsing the hunks of a file may return.\<close>

definition header_of :: "diff_limits \<Rightarrow> string \<Rightarrow> hunk_header \<Rightarrow> bool" where
  "header_of limits line h \<longleftrightarrow> (\<exists>n. parse_hunk_header line n limits = Inr h)"

definition headers_of :: "diff_limits \<Rightarrow> string list \<Rightarrow> hunk_header list \<Rightarrow> bool" where
  "headers_of limits lines hs \<longleftrightarrow> list_all2 (header_of limits) (filter is_hunk_header lines) hs"

definition file_ok ::
    "changed_path \<Rightarrow> diff_limits \<Rightarrow> string list \<Rightarrow> u32 \<Rightarrow> commentable_line list \<Rightarrow> u32
      \<Rightarrow> commentable_line list \<Rightarrow> bool" where
  "file_ok path limits lines hunks acc hunks' acc' \<longleftrightarrow>
     (\<exists>hs. unat hunks' = unat hunks + length hs \<and> headers_of limits lines hs \<and>
        old_of acc' = old_of acc @ concat (map (range_lines \<circ> hh_old) hs) \<and>
        new_of acc' = new_of acc @ concat (map (range_lines \<circ> hh_new) hs)) \<and>
     hunks' \<le> dl_max_hunks limits \<and> hunks' \<noteq> 0 \<and> list_all (line_ok path) acc' \<and>
     length acc' \<le> unat (dl_max_commentable_lines limits)"

fun file_result ::
    "changed_path \<Rightarrow> diff_limits \<Rightarrow> string list \<Rightarrow> u32 \<Rightarrow> commentable_line list
      \<Rightarrow> (u32 \<times> commentable_line list) diff_result \<Rightarrow> bool" where
  "file_result path limits lines hunks acc (Inr (hunks', acc')) \<longleftrightarrow>
     file_ok path limits lines hunks acc hunks' acc'"
| "file_result path limits lines hunks acc (Inl Panicked) \<longleftrightarrow> list_ex multibyte_start lines"
| "file_result path limits lines hunks acc (Inl (Returned e)) \<longleftrightarrow>
     (\<forall>n side. e \<noteq> LineNumberOverflow n side)"

lemma file_result_fail [simp]:
  "file_result path limits lines hunks acc (fail e) \<longleftrightarrow> (\<forall>n side. e \<noteq> LineNumberOverflow n side)"
  by (simp add: fail_def)

lemma numbering_overflow: "\<not> numbering_error e \<Longrightarrow> e \<noteq> LineNumberOverflow n side"
  by (auto simp: numbering_error_def)

lemma appended_lines:
  assumes "list_all (\<lambda>l. cl_path l = path) ls" and "map cl_position ls = map hl_position rs"
    and "list_all (record_ok path) rs"
  shows "list_all (line_ok path) ls" and "old_of (acc @ ls) = old_of acc @ old_lines rs"
    and "new_of (acc @ ls) = new_of acc @ new_lines rs"
proof -
  have "list_all (\<lambda>p. position_valid p \<and> compatible (cp_kind path) p) (map hl_position rs)"
    using assms(3) by (simp add: record_ok_def list_all_iff)
  then show "list_all (line_ok path) ls"
    using assms(1) unfolding assms(2) [symmetric] by (simp add: line_ok_def list_all_iff)
  show "old_of (acc @ ls) = old_of acc @ old_lines rs" "new_of (acc @ ls) = new_of acc @ new_lines rs"
    using assms(2) by (simp_all add: old_of_def new_of_def old_lines_def new_lines_def flip: map_map)
qed

definition plain_error :: "'a diff_result \<Rightarrow> bool" where
  "plain_error r \<longleftrightarrow> (\<forall>f. r = Inl f \<longrightarrow> (\<exists>e. f = Returned e \<and> (\<forall>n side. e \<noteq> LineNumberOverflow n side)))"

lemma plain_error_intros:
  "plain_error (Inr x)"
  "(\<And>n side. e \<noteq> LineNumberOverflow n side) \<Longrightarrow> plain_error (fail e)"
  "plain_error m \<Longrightarrow> (\<And>x. plain_error (f x)) \<Longrightarrow> plain_error (and_then m f)"
  by (auto simp: plain_error_def fail_def result_simps)

lemma parse_decimal_plain: "plain_error (parse_decimal value n)"
  by (auto simp: parse_decimal_def intro: plain_error_intros split: option.split)

lemma parse_hunk_range_plain: "plain_error (parse_hunk_range value n side)"
  unfolding parse_hunk_range_def
  by (intro plain_error_intros(3))
    (auto intro!: plain_error_intros parse_decimal_plain split: option.split prod.split)

lemma parse_hunk_header_plain: "plain_error (parse_hunk_header value n limits)"
  by (auto simp: parse_hunk_header_def intro!: plain_error_intros parse_hunk_range_plain
      split: option.split prod.split)

lemma parse_header_error:
  "parse_hunk_header line n limits = Inl f \<Longrightarrow> \<exists>e. f = Returned e \<and> (\<forall>m side. e \<noteq> LineNumberOverflow m side)"
  using parse_hunk_header_plain [of line n limits] by (simp add: plain_error_def)

text \<open>One hunk, and what the rest of the file returns after it.\<close>

lemma file_result_hunk:
  assumes header: "parse_hunk_header line n limits = Inr h" "is_hunk_header line"
    and hunk: "hunk_result path h lines (Inr (rs, rest))"
    and below: "hunks < dl_max_hunks limits"
    and ls: "list_all (\<lambda>l. cl_path l = path) ls" "map cl_position ls = map hl_position rs"
    and result: "file_result path limits rest (hunks + 1) (acc @ ls) r"
  shows "file_result path limits (line # lines) hunks acc r"
proof (cases r)
  case (Inl f)
  have "set rest \<subseteq> set lines" using hunk by (auto simp: skips_def dest: set_mono_suffix)
  then show ?thesis
    using result Inl by (cases f) (auto simp: list_ex_iff)
next
  case (Inr q)
  obtain hunks' acc' where q: "q = (hunks', acc')" by (rule prod.exhaust)
  have skip: "skips lines rest" using hunk by simp
  have "unat hunks + 1 < 2 ^ 32"
    using below unsigned_less [of "dl_max_hunks limits", where ?'a = nat]
    by (simp add: word_less_nat_alt)
  then have suc: "unat (hunks + 1) = unat hunks + 1" using unat_plus_small [of hunks 1] by simp
  have ok: "file_ok path limits rest (hunks + 1) (acc @ ls) hunks' acc'"
    using result Inr q by simp
  then obtain hs where hs: "unat hunks' = unat (hunks + 1) + length hs"
    "headers_of limits rest hs"
    "old_of acc' = old_of (acc @ ls) @ concat (map (range_lines \<circ> hh_old) hs)"
    "new_of acc' = new_of (acc @ ls) @ concat (map (range_lines \<circ> hh_new) hs)"
    unfolding file_ok_def by blast
  have rs: "list_all (record_ok path) rs" "old_lines rs = range_lines (hh_old h)"
    "new_lines rs = range_lines (hh_new h)" using hunk by simp_all
  note appended = appended_lines [OF ls rs(1)]
  have "headers_of limits (line # lines) (h # hs)"
    using hs(2) header skip by (auto simp: headers_of_def header_of_def skips_def)
  moreover have "unat hunks' = unat hunks + length (h # hs)" using hs(1) suc by simp
  moreover have "old_of acc' = old_of acc @ concat (map (range_lines \<circ> hh_old) (h # hs))"
    "new_of acc' = new_of acc @ concat (map (range_lines \<circ> hh_new) (h # hs))"
    using hs(3,4) appended(2,3) rs(2,3) by simp_all
  ultimately have "file_ok path limits (line # lines) hunks acc hunks' acc'"
    using ok unfolding file_ok_def by blast
  then show ?thesis using Inr q by simp
qed

lemma parse_hunk_cases:
  assumes "range_ok (hh_old h)" and "range_ok (hh_new h)"
  obtains (panic) "parse_hunk path limits h lines c = Inl Panicked" "list_ex multibyte_start lines"
    | (err) e where "parse_hunk path limits h lines c = fail e" "\<not> numbering_error e"
    | (ok) rs rest c' where "parse_hunk path limits h lines c = Inr (rs, rest, c')"
        "hunk_result path h lines (Inr (rs, rest))"
proof (cases "parse_hunk path limits h lines c")
  case (Inl f)
  then show thesis
    using parse_hunk_result [OF assms, of path lines limits c] panic err
    by (cases f) (auto simp: map_ok_def fail_def)
next
  case (Inr q)
  obtain rs rest c' where q: "q = (rs, rest, c')" by (cases q) auto
  show thesis
    using ok [of rs rest c'] parse_hunk_result [OF assms, of path lines limits c]
    unfolding Inr q by (simp add: drop_cursor_def)
qed

lemma parse_hunks_result:
  "hex_hasher sha \<Longrightarrow> hunks \<le> dl_max_hunks limits \<Longrightarrow> list_all (line_ok path) acc \<Longrightarrow>
    length acc \<le> unat (dl_max_commentable_lines limits) \<Longrightarrow>
    file_result path limits lines hunks acc (parse_hunks sha path limits hunks acc lines cursor)"
proof (induction sha path limits hunks acc lines cursor rule: parse_hunks.induct)
  case (1 sha path limits hunks acc cursor)
  then show ?case by (auto simp: file_ok_def headers_of_def intro: exI [of _ "[]"])
next
  case (2 sha path limits hunks acc line lines cursor)
  let ?n = "line_number_at cursor"
  note step = parse_hunks.simps(2) [of sha path limits hunks acc line lines cursor, unfolded Let_def]
  show ?case
  proof (cases rule: reject_unsupported_cases [of line ?n])
    case (err e)
    then show ?thesis by (simp add: numbering_overflow)
  next
    case ok
    show ?thesis
    proof (cases "is_hunk_header line \<and> hunks \<noteq> dl_max_hunks limits")
      case False
      then show ?thesis using ok by (auto simp: Let_def)
    next
      case True
      show ?thesis
      proof (cases "parse_hunk_header line ?n limits")
        case (Inl f)
        then show ?thesis using True ok parse_header_error [OF Inl] step by auto
      next
        case header: (Inr h)
        have ranges: "range_ok (hh_old h)" "range_ok (hh_new h)"
          using parse_hunk_header_ok [OF header] by simp_all
        have below: "hunks < dl_max_hunks limits" using True 2(3) by (simp add: order_less_le)
        from ranges show ?thesis
        proof (cases rule: parse_hunk_cases [where path = path and limits = limits and lines = lines
              and c = "cursor + 1"])
          case panic
          then show ?thesis using True ok header by simp
        next
          case (err e)
          then show ?thesis using True ok header by (simp add: numbering_overflow)
        next
          case hunk: (ok rs rest c)
          have rs: "list_all (record_ok path) rs" using hunk(2) by simp
          from 2(2) show ?thesis
          proof (cases rule: append_cases [where path = path and limits = limits and rs = rs
                and acc = acc])
            case err
            then show ?thesis using True ok header hunk(1) by simp
          next
            case appended: (ok ls)
            have len: "length (acc @ ls) \<le> unat (dl_max_commentable_lines limits)"
              using appended(3,4) by (metis length_append length_map)
            have lines_ok: "list_all (line_ok path) (acc @ ls)"
              using 2(4) appended_lines(1) [OF appended(2,3) rs] by simp
            have "hunks + 1 \<le> dl_max_hunks limits" using below by (rule inc_le)
            then have "file_result path limits rest (hunks + 1) (acc @ ls)
                (parse_hunks sha path limits (hunks + 1) (acc @ ls) rest c)"
              using 2(1) [OF refl ok _ _ header hunk(1) refl refl appended(1) 2(2) _ lines_ok len] True
              by simp
            from file_result_hunk [OF header conjunct1 [OF True] hunk(2) below appended(2,3) this]
            show ?thesis using True ok header hunk(1) appended(1) by simp
          qed
        qed
      qed
    qed
  qed
qed

text \<open>The prelude.\<close>

lemma parse_prelude_skips:
  "parse_prelude path d oo nn lines c = Inr (rest, c') \<Longrightarrow> skips lines rest"
proof (induction path d oo nn lines c rule: parse_prelude.induct)
  case (1 path d oo nn c)
  then show ?case by (simp add: fail_def split: if_splits)
next
  case (2 path d oo nn line lines c)
  show ?case
  proof (cases "is_hunk_header line")
    case True
    then show ?thesis using 2(5) by (auto simp: Let_def result_simps fail_def split: if_splits)
  next
    case False
    then have "skips lines rest"
      using 2 by (auto simp: Let_def result_simps fail_def split: if_splits option.splits)
    then show ?thesis using False by (simp add: skips_Cons)
  qed
qed

lemma reject_unsupported_plain: "plain_error (reject_unsupported line n)"
  by (auto simp: reject_unsupported_def intro: plain_error_intros)

lemma parse_prelude_plain: "plain_error (parse_prelude path d oo nn lines c)"
proof (induction path d oo nn lines c rule: parse_prelude.induct)
  case (2 path d oo nn line lines c)
  show ?case
  proof (cases rule: reject_unsupported_cases [of line "line_number_at c"])
    case (err e)
    then show ?thesis by (simp add: Let_def plain_error_intros numbering_overflow)
  next
    case ok
    show ?thesis
    proof (cases "is_hunk_header line")
      case True
      then show ?thesis using ok by (simp add: Let_def plain_error_intros)
    next
      case False
      show ?thesis
        using ok False 2(1,2,3,4) [OF refl ok False]
        by (auto simp: Let_def intro: plain_error_intros(2) split: option.split)
    qed
  qed
qed (auto intro: plain_error_intros)

lemma take_line_plain: "plain_error (take_line limits raw lines)"
  by (auto simp: take_line_def Let_def intro: plain_error_intros)

lemma try_fold_plain: "(\<And>x s. plain_error (f x s)) \<Longrightarrow> plain_error (try_fold f xs s)"
  by (induction xs arbitrary: s) (auto intro: plain_error_intros)

lemma validated_lines_plain: "plain_error (validated_lines input limits)"
  by (auto simp: validated_lines_def intro!: plain_error_intros try_fold_plain take_line_plain)

lemma fail_neq [simp]: "fail e \<noteq> Inr x" "fail e \<noteq> Inl Panicked"
  "fail e = fail e' \<longleftrightarrow> e = e'" "fail e = Inl (Returned e') \<longleftrightarrow> e = e'"
  by (simp_all add: fail_def)

lemma plain_error_not [simp]:
  "plain_error r \<Longrightarrow> r \<noteq> Inl Panicked" "plain_error r \<Longrightarrow> r \<noteq> fail (LineNumberOverflow n side)"
  by (auto simp: plain_error_def fail_def)

text \<open>How a call of \<open>parse_gitlab_file_diff\<close> ends.\<close>

lemma parse_file_cases:
  assumes "hex_hasher sha"
  obtains (early) "plain_error (parse_gitlab_file_diff sha path input limits)"
      "\<And>d. parse_gitlab_file_diff sha path input limits \<noteq> Inr d"
    | (hunks) lines rest c where "validated_lines input limits = Inr lines" "skips lines rest"
        "semantic_issue path = None"
        "parse_gitlab_file_diff sha path input limits =
           and_then (parse_hunks sha path limits 0 [] rest c) (\<lambda>(hunks, out).
             Inr \<lparr>pf_input_sha256 = sha input, pf_hunk_count = hunks, pf_commentable_lines = out\<rparr>)"
        "file_result path limits rest 0 [] (parse_hunks sha path limits 0 [] rest c)"
proof (cases "diff_limits_valid limits \<and> semantic_issue path = None")
  case False
  then obtain e where "parse_gitlab_file_diff sha path input limits = fail e"
    "\<And>n side. e \<noteq> LineNumberOverflow n side"
    by (cases "diff_limits_valid limits"; cases "semantic_issue path")
      (simp_all add: parse_gitlab_file_diff_def)
  then show thesis using early by (simp add: plain_error_intros)
next
  case valid: True
  show thesis
  proof (cases "validated_lines input limits")
    case (Inl f)
    then show thesis
      using early valid validated_lines_plain [of input limits]
      by (simp add: parse_gitlab_file_diff_def plain_error_def)
  next
    case lines: (Inr lines)
    show thesis
    proof (cases "parse_prelude path False False False lines 0")
      case (Inl f)
      then show thesis
        using early valid lines parse_prelude_plain [of path False False False lines 0]
        by (simp add: parse_gitlab_file_diff_def plain_error_def)
    next
      case (Inr q)
      obtain rest c where q: "q = (rest, c)" by (rule prod.exhaust)
      have "file_result path limits rest 0 [] (parse_hunks sha path limits 0 [] rest c)"
        by (rule parse_hunks_result [OF assms]) simp_all
      then show thesis
        using hunks [of lines rest c] lines valid Inr q parse_prelude_skips
        by (simp add: parse_gitlab_file_diff_def)
    qed
  qed
qed

lemma parse_file_ok:
  assumes "hex_hasher sha" and "parse_gitlab_file_diff sha path input limits = Inr d"
  obtains lines rest where "validated_lines input limits = Inr lines" and "skips lines rest"
    and "semantic_issue path = None"
    and "file_ok path limits rest 0 [] (pf_hunk_count d) (pf_commentable_lines d)"
  using assms(1)
proof (cases rule: parse_file_cases [where path = path and input = input and limits = limits])
  case early
  then show thesis using assms(2) by blast
next
  case (hunks lines rest c)
  have "and_then (parse_hunks sha path limits 0 [] rest c) (\<lambda>(hunks, out).
      Inr \<lparr>pf_input_sha256 = sha input, pf_hunk_count = hunks, pf_commentable_lines = out\<rparr>) =
      (Inr d :: parsed_file_diff diff_result)"
    using assms(2) hunks(4) by simp
  then obtain k out where "parse_hunks sha path limits 0 [] rest c = Inr (k, out)"
    and "d = \<lparr>pf_input_sha256 = sha input, pf_hunk_count = k, pf_commentable_lines = out\<rparr>"
    by (auto simp: result_simps)
  then show thesis using that hunks(1,2,3,5) by simp
qed

section \<open>Properties\<close>

definition zero_hash :: hasher where
  "zero_hash s = replicate 64 (CHR ''0'')"

lemma zero_hash_hex: "hex_hasher zero_hash"
  by (simp add: hex_hasher_def zero_hash_def is_lower_hex_def is_ascii_digit_def list_all_iff)

definition sample_diff_path :: changed_path where
  "sample_diff_path = ChangedPath ''f'' ''f'' Modified"

definition sample_diff :: string where
  "sample_diff = ''@@ -1,2 +1 @@'' @ [lf] @ '' a'' @ [lf] @ ''-b'' @ [lf]"

definition sample_parsed :: parsed_file_diff where
  "sample_parsed = \<lparr>pf_input_sha256 = zero_hash [], pf_hunk_count = 1,
     pf_commentable_lines =
       [\<lparr>cl_path = sample_diff_path, cl_position = Context 1 1,
         cl_exact_line_digest = zero_hash [], cl_context_digest = zero_hash []\<rparr>,
        \<lparr>cl_path = sample_diff_path, cl_position = Deletion 2,
         cl_exact_line_digest = zero_hash [], cl_context_digest = zero_hash []\<rparr>]\<rparr>"

lemmas parse_eval =
  parse_gitlab_file_diff_def validated_lines_def take_line_def default_diff_limits_def
  diff_limits_valid_def semantic_issue_def lf_def cr_def is_hunk_header_def starts_with_def
  ends_with_def strip_suffix_def utf8_valid_def utf8_valid_up_to.simps is_continuation_def
  reject_unsupported_def parse_hunk_header_def parse_hunk_range_def parse_decimal_def
  split_once.simps decimal_value_def is_ascii_digit_def parse_hunk_def hunk_loop.simps
  accounting_new_def accounting_complete_def consume_def slice_from_def line_number_at_def
  validate_line_kind_def remaining_eq position_context_def position_deletion_def
  position_addition_def consume_old_def consume_new_def append_commentable_lines_def
  commentable_def exact_line_digest_def context_digest_def hash_digest_hex no_newline_marker_def
  checked_add_def saturating_add_def clamp_word_def try_word_def Let_def

lemma sample_diff_parses:
  "parse_gitlab_file_diff zero_hash sample_diff_path sample_diff default_diff_limits = Inr sample_parsed"
  by (simp add: parse_eval zero_hash_hex sample_parsed_def sample_diff_def sample_diff_path_def)
    (simp add: zero_hash_def)

text \<open>
  \<^bold>\<open>C10.\<close>  A diff that parses is fully accounted for: there is one hunk per hunk header
  line of the input, in order, and the old and the new line numbers of the commentable
  lines are, in order, exactly the lines of the ranges those headers declare.  Every
  commentable line lies on the file asked for, at a position its change kind allows,
  and the limits on hunks and on lines hold.
\<close>

theorem parsed_diff_accounts_for_hunks:
  assumes "hex_hasher sha" and "parse_gitlab_file_diff sha path input limits = Inr d"
  shows "\<exists>lines hs. validated_lines input limits = Inr lines \<and>
    list_all2 (\<lambda>line h. \<exists>n. parse_hunk_header line n limits = Inr h)
      (filter is_hunk_header lines) hs \<and>
    unat (pf_hunk_count d) = length hs \<and>
    old_of (pf_commentable_lines d) = concat (map (range_lines \<circ> hh_old) hs) \<and>
    new_of (pf_commentable_lines d) = concat (map (range_lines \<circ> hh_new) hs) \<and>
    pf_hunk_count d \<le> dl_max_hunks limits \<and> pf_hunk_count d \<noteq> 0 \<and>
    length (pf_commentable_lines d) \<le> unat (dl_max_commentable_lines limits) \<and>
    list_all (line_ok path) (pf_commentable_lines d)"
proof -
  obtain lines rest where lines: "validated_lines input limits = Inr lines" "skips lines rest"
    and ok: "file_ok path limits rest 0 [] (pf_hunk_count d) (pf_commentable_lines d)"
    using assms by (rule parse_file_ok)
  obtain hs where "headers_of limits rest hs" "unat (pf_hunk_count d) = length hs"
      "old_of (pf_commentable_lines d) = concat (map (range_lines \<circ> hh_old) hs)"
      "new_of (pf_commentable_lines d) = concat (map (range_lines \<circ> hh_new) hs)"
    using ok by (auto simp: file_ok_def old_of_def new_of_def)
  then show ?thesis
    using lines ok unfolding headers_of_def header_of_def skips_def file_ok_def by auto
qed

theorem parsed_diff_accounts_for_hunks_witness:
  "pf_hunk_count sample_parsed \<noteq> 0 \<and> list_all (line_ok sample_diff_path) (pf_commentable_lines sample_parsed)"
  using parsed_diff_accounts_for_hunks [OF zero_hash_hex sample_diff_parses] by blast

text \<open>
  \<^bold>\<open>C11.\<close>  Untrusted input cannot make the accounting overflow, and the only panic is the
  slice \<open>&line[1..]\<close> on a line that starts with a character of several bytes.
\<close>

theorem parser_errors_bounded:
  assumes "hex_hasher sha"
  shows "parse_gitlab_file_diff sha path input limits \<noteq> Inl (Returned (LineNumberOverflow n side)) \<and>
    (parse_gitlab_file_diff sha path input limits = Inl Panicked \<longrightarrow>
      (\<exists>lines. validated_lines input limits = Inr lines \<and> list_ex multibyte_start lines))"
  using assms
proof (cases rule: parse_file_cases [where path = path and input = input and limits = limits])
  case early
  then show ?thesis by (auto simp: plain_error_def)
next
  case (hunks lines rest c)
  show ?thesis
  proof (cases "parse_hunks sha path limits 0 [] rest c")
    case (Inl f)
    have "set rest \<subseteq> set lines" using hunks(2) by (auto simp: skips_def dest: set_mono_suffix)
    then show ?thesis using hunks(1,4,5) Inl by (cases f) (auto simp: list_ex_iff)
  next
    case (Inr q)
    then show ?thesis using hunks(4) by (auto split: prod.split)
  qed
qed

definition accented_diff :: string where
  "accented_diff = ''@@ -1 +1 @@'' @ [lf, CHR 0xC3, CHR 0xA9, lf]"

lemma accented_diff_panics:
  "parse_gitlab_file_diff zero_hash sample_diff_path accented_diff default_diff_limits = Inl Panicked"
  by (simp add: parse_eval zero_hash_hex accented_diff_def sample_diff_path_def)

theorem parser_errors_bounded_witness:
  "\<exists>lines. validated_lines accented_diff default_diff_limits = Inr lines \<and> list_ex multibyte_start lines"
  using parser_errors_bounded [OF zero_hash_hex, of sample_diff_path accented_diff default_diff_limits]
    accented_diff_panics by blast

text \<open>
  Untrusted diff bytes can panic the parser although it is documented to return a
  closed error for every invalid syntax: here is an input of four bytes after a valid
  hunk header.
\<close>

theorem parser_can_panic:
  "parse_gitlab_file_diff zero_hash sample_diff_path
     (''@@ -1 +1 @@'' @ [CHR 0x0A, CHR 0xC3, CHR 0xA9, CHR 0x0A]) default_diff_limits = Inl Panicked"
  using accented_diff_panics by (simp add: accented_diff_def lf_def)

lemma distinct_positions:
  "distinct (old_of ls) \<Longrightarrow> distinct (new_of ls) \<Longrightarrow> distinct (map cl_position ls)"
proof (induction ls)
  case (Cons l ls)
  have "cl_position m \<noteq> cl_position l" if "m \<in> set ls" for m
    using that Cons.prems by (cases "cl_position l") (force simp: old_of_def new_of_def)+
  then have "cl_position l \<notin> cl_position ` set ls" by force
  then show ?case using Cons by (simp add: old_of_def new_of_def)
qed simp

text \<open>
  The parser meets the precondition of the anchor table: unless two commentable
  lines have the same position, which needs overlapping hunks, the lines it returns
  build an anchor table, if the hash has no collision on them.
\<close>

theorem parsed_diff_builds_anchors:
  assumes "hex_hasher sha" and "parse_gitlab_file_diff sha path input limits = Inr d"
    and "collision_free sha
      ((\<lambda>l. hash_fields (anchor_fields i l)) ` set (pf_commentable_lines d))"
    and "list_all (small_fields i) (pf_commentable_lines d)"
    and "distinct (old_of (pf_commentable_lines d))" and "distinct (new_of (pf_commentable_lines d))"
  shows "\<exists>t. anchor_table_build sha i (pf_commentable_lines d) = Inr t"
proof -
  let ?ls = "pf_commentable_lines d"
  have "list_all (line_ok path) ?ls \<and> semantic_issue path = None"
    using assms(1,2) by (rule parse_file_ok) (simp add: file_ok_def)
  moreover from this have "distinct (map (\<lambda>l. (cl_path l, cl_position l)) ?ls)"
    using distinct_positions [OF assms(5,6)] by (auto simp: distinct_map inj_on_def)
  ultimately show ?thesis
    unfolding build_accepts [OF assms(3,4)] by (auto simp: line_ok_def list_all_iff)
qed

definition deletion_diff :: string where
  "deletion_diff = ''@@ -7 +6,0 @@'' @ [lf] @ ''-b'' @ [lf]"

definition deletion_parsed :: parsed_file_diff where
  "deletion_parsed = \<lparr>pf_input_sha256 = zero_hash [], pf_hunk_count = 1,
     pf_commentable_lines =
       [\<lparr>cl_path = sample_diff_path, cl_position = Deletion 7,
         cl_exact_line_digest = zero_hash [], cl_context_digest = zero_hash []\<rparr>]\<rparr>"

lemma deletion_diff_parses:
  "parse_gitlab_file_diff zero_hash sample_diff_path deletion_diff default_diff_limits = Inr deletion_parsed"
  by (simp add: parse_eval zero_hash_hex deletion_parsed_def deletion_diff_def sample_diff_path_def)
    (simp add: zero_hash_def)

theorem parsed_diff_builds_anchors_witness:
  "\<exists>t. anchor_table_build zero_hash sample_identity (pf_commentable_lines deletion_parsed) = Inr t"
proof (rule parsed_diff_builds_anchors [OF zero_hash_hex deletion_diff_parses])
  show "list_all (small_fields sample_identity) (pf_commentable_lines deletion_parsed)"
    by (simp add: deletion_parsed_def small_fields_def anchor_fields_def sample_identity_def
        sample_diff_path_def zero_hash_def)
qed (simp_all add: collision_free_def deletion_parsed_def old_of_def new_of_def)

end
