(* ===== verification/Text_Search.thy ===== *)
theory Text_Search
  imports Text
begin

text \<open>
  More of Rust's \<open>str\<close>: the characters as byte strings, \<open>trim\<close>, \<open>split_whitespace\<close>,
  \<open>lines\<close>, \<open>contains\<close>, \<open>match_indices\<close>, \<open>replace\<close> of an ASCII character, and the
  facts about substrings that the content checks need.
\<close>

section \<open>Characters as byte strings\<close>

definition char_width :: "char \<Rightarrow> nat" where
  "char_width b =
     (let n = of_char b :: nat in
      if n < 128 then 1 else if n < 224 then 2 else if n < 240 then 3 else 4)"

fun str_chunks :: "string \<Rightarrow> string list" where
  "str_chunks [] = []"
| "str_chunks (b # bs) =
     (b # take (char_width b - 1) bs) # str_chunks (drop (char_width b - 1) bs)"

lemma concat_str_chunks [simp]: "concat (str_chunks s) = s"
  by (induction s rule: str_chunks.induct) auto

definition chunk_whitespace :: "string \<Rightarrow> bool" where
  "chunk_whitespace c \<longleftrightarrow> (case str_chars c of [n] \<Rightarrow> char_is_whitespace n | _ \<Rightarrow> False)"

definition trim_start :: "string \<Rightarrow> string" where
  "trim_start s = concat (dropWhile chunk_whitespace (str_chunks s))"

definition trim_end :: "string \<Rightarrow> string" where
  "trim_end s = concat (rev (dropWhile chunk_whitespace (rev (str_chunks s))))"

definition trim :: "string \<Rightarrow> string" where
  "trim s = concat (rev (dropWhile chunk_whitespace (rev (dropWhile chunk_whitespace (str_chunks s)))))"

text \<open>\<open>str::split_whitespace\<close> and \<open>join\<close>\<close>

fun split_chunks :: "string list \<Rightarrow> string \<Rightarrow> string list" where
  "split_chunks [] word = (if word = [] then [] else [word])"
| "split_chunks (c # cs) word =
     (if chunk_whitespace c
      then (if word = [] then split_chunks cs [] else word # split_chunks cs [])
      else split_chunks cs (word @ c))"

definition split_whitespace :: "string \<Rightarrow> string list" where
  "split_whitespace s = split_chunks (str_chunks s) []"

fun join :: "string \<Rightarrow> string list \<Rightarrow> string" where
  "join sep [] = []"
| "join sep [w] = w"
| "join sep (w # v # ws) = w @ sep @ join sep (v # ws)"

section \<open>Lines\<close>

text \<open>The line feed and the carriage return.\<close>

abbreviation nl :: char where "nl \<equiv> CHR 0x0A"
abbreviation ret :: char where "ret \<equiv> CHR 0x0D"

text \<open>\<open>str::lines\<close>: a final empty line is dropped, and one carriage return at each end.\<close>

definition str_lines :: "string \<Rightarrow> string list" where
  "str_lines s =
     (let ls = split_on nl s;
          ls = (if last ls = [] then butlast ls else ls)
      in map (\<lambda>l. case strip_suffix [ret] l of None \<Rightarrow> l | Some l' \<Rightarrow> l') ls)"

section \<open>Substrings\<close>

text \<open>\<open>str::contains\<close>, and the parts before each match of \<open>str::match_indices\<close>.\<close>

fun contains :: "string \<Rightarrow> string \<Rightarrow> bool" where
  "contains p [] = (p = [])"
| "contains p (b # s) = (starts_with p (b # s) \<or> contains p s)"

fun match_prefixes :: "string \<Rightarrow> string \<Rightarrow> nat \<Rightarrow> string \<Rightarrow> string list" where
  "match_prefixes p seen skip [] = []"
| "match_prefixes p seen (Suc skip) (b # s) = match_prefixes p (seen @ [b]) skip s"
| "match_prefixes p seen 0 (b # s) =
     (if starts_with p (b # s)
      then seen # match_prefixes p (seen @ [b]) (length p - 1) s
      else match_prefixes p (seen @ [b]) 0 s)"

text \<open>\<open>str::replace\<close> of one ASCII character.\<close>

definition replace_char :: "char \<Rightarrow> string \<Rightarrow> string \<Rightarrow> string" where
  "replace_char c w s = concat (map (\<lambda>b. if b = c then w else [b]) s)"

text \<open>\<open>str::to_ascii_lowercase\<close>\<close>

definition ascii_lowercase :: "string \<Rightarrow> string" where
  "ascii_lowercase = map to_ascii_lowercase"

text \<open>\<open>str::split\<close> by a predicate on characters, each given as its byte string.\<close>

fun split_chunks_by :: "(string \<Rightarrow> bool) \<Rightarrow> string list \<Rightarrow> string \<Rightarrow> string list" where
  "split_chunks_by is_sep [] word = [word]"
| "split_chunks_by is_sep (c # cs) word =
     (if is_sep c then word # split_chunks_by is_sep cs []
      else split_chunks_by is_sep cs (word @ c))"

definition split_by :: "(string \<Rightarrow> bool) \<Rightarrow> string \<Rightarrow> string list" where
  "split_by is_sep s = split_chunks_by is_sep (str_chunks s) []"

text \<open>\<open>path.rsplit('/').next()\<close>: what follows the last separator.\<close>

definition base_name :: "string \<Rightarrow> string" where
  "base_name path = last (split_on (CHR ''/'') path)"

text \<open>
  \<open>Path::new(name).extension()\<close> of a name without a separator: what follows the last
  dot, unless the dot comes first or the name is \<open>..\<close>.
\<close>

definition file_extension :: "string \<Rightarrow> string option" where
  "file_extension name =
     (let parts = split_on (CHR ''.'') name in
      if name = ''..'' \<or> length parts < 2 \<or> length parts = 2 \<and> hd parts = [] then None
      else Some (last parts))"

lemma starts_with_append: "starts_with p s \<longleftrightarrow> (\<exists>t. s = p @ t)"
  using strip_prefix_Some [of p s] by (auto simp: starts_with_def)

lemma contains_iff: "contains p s \<longleftrightarrow> (\<exists>a b. s = a @ p @ b)"
proof (induction s)
  case (Cons c s)
  show ?case
  proof
    assume "contains p (c # s)"
    then consider "starts_with p (c # s)" | "contains p s" by auto
    then show "\<exists>a b. c # s = a @ p @ b"
    proof cases
      case 1
      then show ?thesis unfolding starts_with_append by (metis append_Nil)
    next
      case 2
      then show ?thesis using Cons by (metis append_Cons)
    qed
  next
    assume "\<exists>a b. c # s = a @ p @ b"
    then obtain a b where ab: "c # s = a @ p @ b" by blast
    show "contains p (c # s)"
    proof (cases a)
      case Nil
      then have "starts_with p (c # s)" using ab by (simp add: starts_with_append)
      then show ?thesis by simp
    next
      case (Cons d a')
      then show ?thesis using ab Cons.IH by auto
    qed
  qed
qed auto

lemma contains_sublist: "contains p s \<longleftrightarrow> sublist p s"
  by (auto simp: contains_iff sublist_def)

lemma contains_set: "contains p s \<Longrightarrow> set p \<subseteq> set s"
  by (auto simp: contains_iff)

lemma contains_map: "contains p s \<Longrightarrow> contains (map f p) (map f s)"
  unfolding contains_iff by (metis map_append)

text \<open>
  A pattern that starts with \<open>c\<close> occurs in \<open>s @ t\<close>, where \<open>c\<close> is not in \<open>t\<close> and no
  other character of the pattern is the first of \<open>t\<close>, only where it occurs in \<open>s\<close>.
\<close>

lemma contains_append_break:
  assumes "contains (c # p) (s @ d # t)" and "c \<notin> set (d # t)" and "d \<notin> set p"
  shows "contains (c # p) s"
proof -
  obtain a b where "s @ d # t = (a @ c # p) @ b" using assms(1) by (auto simp: contains_iff)
  then obtain us where "s = (a @ c # p) @ us \<or> s @ us = a @ c # p \<and> us @ b = d # t"
    unfolding append_eq_append_conv2 by metis
  then show ?thesis
  proof
    assume "s = (a @ c # p) @ us"
    then show ?thesis unfolding contains_iff by (intro exI [of _ a] exI [of _ us]) simp
  next
    assume us: "s @ us = a @ c # p \<and> us @ b = d # t"
    show ?thesis
    proof (cases us)
      case Nil
      then have "s = a @ (c # p) @ []" using us by simp
      then show ?thesis unfolding contains_iff by blast
    next
      case (Cons d' us')
      then have "a @ c # p = s @ d # us'" and sub: "set us' \<subseteq> set t" using us by auto
      then obtain vs where "a = s @ vs \<and> vs @ c # p = d # us' \<or> a @ vs = s \<and> c # p = vs @ d # us'"
        unfolding append_eq_append_conv2 by metis
      moreover have "c \<in> set (d # us')" if "vs @ c # p = d # us'"
        using arg_cong [OF that, of set] by auto
      moreover have "d = c \<or> d \<in> set p" if "c # p = vs @ d # us'"
        using arg_cong [OF that, of set] that by (cases vs) auto
      ultimately show ?thesis using assms(2,3) sub by auto
    qed
  qed
qed

lemma contains_append_free:
  assumes "contains (c # p) (s @ t)" and "c \<notin> set s"
  shows "contains (c # p) t"
proof -
  obtain a b where ab: "s @ t = a @ c # p @ b" using assms(1) by (auto simp: contains_iff)
  have "length s \<le> length a"
  proof (rule ccontr)
    assume "\<not> length s \<le> length a"
    then have "(s @ t) ! length a \<in> set s" by (simp add: nth_append)
    then show False using ab assms(2) by simp
  qed
  then obtain a' where "a = s @ a'"
    using ab by (metis append_eq_append_conv_if append_take_drop_id)
  then show ?thesis using ab by (auto simp: contains_iff)
qed

lemma set_replace_char: "set (replace_char c w s) \<subseteq> (set s - {c}) \<union> set w"
  by (auto simp: replace_char_def split: if_splits)

section \<open>Splitting and joining\<close>

lemma split_on_not_Nil [simp]: "split_on c s \<noteq> []"
  by (induction s) (auto split: list.split)

lemma split_on_word [simp]: "c \<notin> set w \<Longrightarrow> split_on c w = [w]"
  by (induction w) auto

lemma split_on_append [simp]: "c \<notin> set w \<Longrightarrow> split_on c (w @ c # s) = w # split_on c s"
  by (induction w) auto

lemma split_on_join: "join [c] (split_on c s) = s"
proof (induction s)
  case (Cons b s)
  obtain w ws where "split_on c s = w # ws" using split_on_not_Nil by (metis list.exhaust)
  then show ?case using Cons by (cases ws) auto
qed simp

lemma split_on_free: "w \<in> set (split_on c s) \<Longrightarrow> c \<notin> set w"
  by (induction s arbitrary: w) (auto split: list.splits if_splits)

lemma split_on_join_words: "ws \<noteq> [] \<Longrightarrow> list_all (\<lambda>w. c \<notin> set w) ws \<Longrightarrow> split_on c (join [c] ws) = ws"
  by (induction "[c]" ws rule: join.induct) auto

end
