(* ===== verification/Findings.thy ===== *)
theory Findings
  imports Anchors Text_Search
begin

text \<open>
  Model findings, \<open>crates/revoot-core/src/findings.rs\<close>: validation of an envelope, the
  binding of every finding to an issued and trusted anchor, deduplication by the finding
  key, ranking, and rendering.

  Parameters: \<open>sha\<close>, the hash, and \<open>lower\<close>, the standard library's Unicode
  \<open>str::to_lowercase\<close>, whose case tables are not reproduced.  Nothing is assumed of them.
\<close>

section \<open>Findings\<close>

definition max_work_unit_id_bytes :: nat where "max_work_unit_id_bytes = 128"
definition max_anchor_id_bytes :: nat where "max_anchor_id_bytes = 128"
definition max_title_bytes :: nat where "max_title_bytes = 160"
definition max_explanation_bytes :: nat where "max_explanation_bytes = 4000"
definition max_evidence_bytes :: nat where "max_evidence_bytes = 2000"
definition max_replacement_bytes :: nat where "max_replacement_bytes = 8000"
definition max_summary_bytes :: nat where "max_summary_bytes = 4000"
definition max_review_findings :: nat where "max_review_findings = 250"
definition max_envelope_findings :: nat where "max_envelope_findings = 25"
definition marker_prefix :: string where "marker_prefix = ''<!-- revoot:''"
definition findings_schema_version :: string where
  "findings_schema_version = ''revoot.findings/v1''"

datatype severity = Critical | High | Medium | Low | Info

fun severity_priority :: "severity \<Rightarrow> nat" where
  "severity_priority Critical = 5"
| "severity_priority High = 4"
| "severity_priority Medium = 3"
| "severity_priority Low = 2"
| "severity_priority Info = 1"

text \<open>The icon is a circle in UTF-8.\<close>

fun severity_presentation :: "severity \<Rightarrow> string \<times> string \<times> string" where
  "severity_presentation Critical =
     ([CHR 0xF0, CHR 0x9F, CHR 0x94, CHR 0xB4], ''P1'', ''Critical'')"
| "severity_presentation High = ([CHR 0xF0, CHR 0x9F, CHR 0x9F, CHR 0xA0], ''P2'', ''High'')"
| "severity_presentation Medium = ([CHR 0xF0, CHR 0x9F, CHR 0x9F, CHR 0xA1], ''P3'', ''Medium'')"
| "severity_presentation Low = ([CHR 0xF0, CHR 0x9F, CHR 0x9F, CHR 0xA2], ''P4'', ''Low'')"
| "severity_presentation Info = ([CHR 0xF0, CHR 0x9F, CHR 0x94, CHR 0xB5], ''P5'', ''Info'')"

datatype category = Correctness | Security | Reliability | Performance | Maintainability

fun category_label :: "category \<Rightarrow> string" where
  "category_label Correctness = ''correctness''"
| "category_label Security = ''security''"
| "category_label Reliability = ''reliability''"
| "category_label Performance = ''performance''"
| "category_label Maintainability = ''maintainability''"

fun category_presentation :: "category \<Rightarrow> string" where
  "category_presentation Correctness = ''Correctness''"
| "category_presentation Security = ''Security''"
| "category_presentation Reliability = ''Reliability''"
| "category_presentation Performance = ''Performance''"
| "category_presentation Maintainability = ''Maintainability''"

record finding =
  fi_anchor_id :: string
  fi_severity :: severity
  fi_confidence_percent :: u8
  fi_category :: category
  fi_title :: string
  fi_explanation :: string
  fi_evidence :: string
  fi_lineage_id :: "sha256_digest option"
  fi_suggested_replacement :: "string option"

record envelope =
  en_schema_version :: string
  en_work_unit_id :: string
  en_findings :: "finding list"
  en_summary :: string

datatype findings_validation_error =
    BadSchemaVersion | BadWorkUnitId | TooManyFindings | BadAnchorId | BadConfidence | BadCategory
  | BadTitle | BadExplanation | BadEvidence | BadSuggestedReplacement | BadSummary
  | HasControlCharacter | HasMarkerInjection | HasQuickAction | HasUnsafeUrlScheme | HasExternalLink

section \<open>Content checks\<close>

datatype content_error =
    ContentField | ContentControlCharacter | ContentMarkerInjection | ContentQuickAction
  | ContentUnsafeUrlScheme | ContentExternalLink

fun map_content_error ::
    "findings_validation_error \<Rightarrow> content_error \<Rightarrow> findings_validation_error" where
  "map_content_error field ContentField = field"
| "map_content_error field ContentControlCharacter = HasControlCharacter"
| "map_content_error field ContentMarkerInjection = HasMarkerInjection"
| "map_content_error field ContentQuickAction = HasQuickAction"
| "map_content_error field ContentUnsafeUrlScheme = HasUnsafeUrlScheme"
| "map_content_error field ContentExternalLink = HasExternalLink"

definition valid_label :: "string \<Rightarrow> nat \<Rightarrow> bool" where
  "valid_label value max_bytes \<longleftrightarrow>
     value \<noteq> [] \<and> length value \<le> max_bytes \<and>
     list_all (\<lambda>b. is_ascii_alphanumeric b \<or> b \<in> set ''-_.:/'') value"

text \<open>A control character other than the line feed and the tab, or other than the tab.\<close>

definition has_control :: "nat list \<Rightarrow> string \<Rightarrow> bool" where
  "has_control allowed value \<longleftrightarrow>
     list_ex (\<lambda>c. char_is_control c \<and> c \<notin> set allowed) (str_chars value)"

definition contains_link_or_image :: "string \<Rightarrow> string \<Rightarrow> bool" where
  "contains_link_or_image value lowercase \<longleftrightarrow>
     contains ''](''  value \<or> contains ''![''  value \<or>
     list_ex (\<lambda>scheme. contains scheme lowercase) [''http://'', ''https://'', ''mailto:'']"

definition contains_unsafe_url :: "string \<Rightarrow> bool" where
  "contains_unsafe_url lowercase \<longleftrightarrow>
     list_ex (\<lambda>scheme. list_ex (\<lambda>before.
         ends_with ''(''  (trim_end before) \<or> ends_with ''<''  (trim_end before))
       (match_prefixes scheme [] 0 lowercase))
     [''javascript:'', ''vbscript:'', ''data:'', ''file:'']"

definition validate_plain_text :: "string \<Rightarrow> content_error + unit" where
  "validate_plain_text value =
     (if has_control [9] value then Inl ContentControlCharacter
      else if contains marker_prefix (ascii_lowercase value) then Inl ContentMarkerInjection
      else if contains_link_or_image value (ascii_lowercase value) then Inl ContentExternalLink
      else Inr ())"

definition quick_action_line :: "string \<Rightarrow> bool" where
  "quick_action_line line \<longleftrightarrow>
     starts_with ''/'' (trim_start line) \<and> \<not> starts_with ''//'' (trim_start line)"

definition validate_markdown :: "nat \<Rightarrow> string \<Rightarrow> content_error + unit" where
  "validate_markdown max_bytes value =
     (if blank value \<or> max_bytes < length value then Inl ContentField
      else if has_control [10, 9] value then Inl ContentControlCharacter
      else if contains marker_prefix (ascii_lowercase value) then Inl ContentMarkerInjection
      else if contains_unsafe_url (ascii_lowercase value) then Inl ContentUnsafeUrlScheme
      else if contains_link_or_image value (ascii_lowercase value) then Inl ContentExternalLink
      else if list_ex quick_action_line (str_lines value) then Inl ContentQuickAction
      else Inr ())"

definition validate_replacement :: "string \<Rightarrow> content_error + unit" where
  "validate_replacement value =
     (if value = [] \<or> max_replacement_bytes < length value then Inl ContentField
      else if has_control [10, 9] value then Inl ContentControlCharacter
      else if contains marker_prefix (ascii_lowercase value) then Inl ContentMarkerInjection
      else Inr ())"

text \<open>The body of the loop of \<open>FindingsEnvelope::validate\<close>.\<close>

definition validate_finding :: "finding \<Rightarrow> unit \<Rightarrow> findings_validation_error + unit" where
  "validate_finding f u =
     (if \<not> valid_label (fi_anchor_id f) max_anchor_id_bytes then Inl BadAnchorId
      else if 100 < fi_confidence_percent f then Inl BadConfidence
      else if fi_title f = [] \<or> max_title_bytes < length (fi_title f)
        \<or> trim (fi_title f) \<noteq> fi_title f \<or> nl \<in> set (fi_title f) \<or> ret \<in> set (fi_title f)
      then Inl BadTitle
      else
        and_then (map_err (map_content_error BadTitle) (validate_plain_text (fi_title f))) (\<lambda>_.
        and_then (map_err (map_content_error BadExplanation)
          (validate_markdown max_explanation_bytes (fi_explanation f))) (\<lambda>_.
        and_then (map_err (map_content_error BadEvidence)
          (validate_markdown max_evidence_bytes (fi_evidence f))) (\<lambda>_.
        case fi_suggested_replacement f of
          None \<Rightarrow> Inr ()
        | Some replacement \<Rightarrow>
            map_err (map_content_error BadSuggestedReplacement) (validate_replacement replacement)))))"

definition envelope_validate :: "envelope \<Rightarrow> findings_validation_error + unit" where
  "envelope_validate e =
     (if en_schema_version e \<noteq> findings_schema_version then Inl BadSchemaVersion
      else if \<not> valid_label (en_work_unit_id e) max_work_unit_id_bytes then Inl BadWorkUnitId
      else if max_envelope_findings < length (en_findings e) then Inl TooManyFindings
      else
        and_then (map_err (map_content_error BadSummary)
          (validate_markdown max_summary_bytes (en_summary e))) (\<lambda>_.
        try_fold validate_finding (en_findings e) ()))"

section \<open>Rendering\<close>

fun confidence_label :: "u8 \<Rightarrow> string" where
  "confidence_label c =
     (if c = 0 then ''N/A'' else if c \<le> 69 then ''Low'' else if c \<le> 89 then ''Medium''
      else ''High'')"

definition render_safe_markdown :: "string \<Rightarrow> string" where
  "render_safe_markdown value =
     replace_char CHR ''>'' ''&gt;'' (replace_char CHR ''<'' ''&lt;''
       (replace_char CHR ''&'' ''&amp;'' value))"

text \<open>The lengths of the runs of backticks, \<open>value.split(|c| c != '`').map(str::len)\<close>.\<close>

definition backtick :: char where "backtick = CHR 0x60"

fun backtick_runs :: "nat \<Rightarrow> string \<Rightarrow> nat list" where
  "backtick_runs run [] = [run]"
| "backtick_runs run (b # s) =
     (if b = backtick then backtick_runs (run + 1) s else run # backtick_runs 0 s)"

definition code_fence :: "string \<Rightarrow> string" where
  "code_fence value = replicate (max (Max (set (backtick_runs 0 value)) + 1) 3) backtick"

definition render_finding :: "finding \<Rightarrow> string" where
  "render_finding f =
     (let (icon, priority, label) = severity_presentation (fi_severity f);
          body =
            ''**[Revoot](https://github.com/getrevoot/revoot)**'' @ [nl, nl] @
            ''| Severity | Category | Confidence |'' @ [nl] @
            ''| --- | --- | --- |'' @ [nl] @
            ''| '' @ icon @ '' **'' @ priority @ '' ('' @ label @ '')** | '' @
            category_presentation (fi_category f) @ '' | '' @
            confidence_label (fi_confidence_percent f) @ '' |'' @ [nl, nl] @
            ''### '' @ render_safe_markdown (fi_title f) @ [nl, nl] @
            render_safe_markdown (fi_explanation f) @ [nl, nl] @
            render_safe_markdown (fi_evidence f)
      in case fi_suggested_replacement f of
           None \<Rightarrow> body
         | Some replacement \<Rightarrow>
             body @ [nl, nl] @ ''#### Suggested fix'' @ [nl, nl] @
             code_fence replacement @ [nl] @ replacement @
             (if last replacement = nl then [] else [nl]) @ code_fence replacement)"

section \<open>Keys\<close>

record ranked_finding =
  rf_work_unit_id :: string
  rf_anchor_id :: anchor_id
  rf_severity :: severity
  rf_confidence_percent :: u8
  rf_category :: category
  rf_finding_key :: sha256_digest
  rf_content_digest :: sha256_digest
  rf_lineage_id :: "sha256_digest option"
  rf_rendered_body :: string

fun logical_path :: "changed_path \<Rightarrow> anchor_position \<Rightarrow> string" where
  "logical_path p (Deletion _) = cp_old_path p"
| "logical_path p _ = cp_new_path p"

fun position_side :: "anchor_position \<Rightarrow> string" where
  "position_side (Deletion _) = ''old''"
| "position_side _ = ''new''"

fun key_scope :: "review_snapshot_identity \<Rightarrow> string list" where
  "key_scope (GitLab i) =
     [''revoot-finding-key-v1'', ss_instance_origin_digest (gv_scope (gi_version i)),
      be_u64 (ss_project_id (gv_scope (gi_version i)))]"
| "key_scope (GitHub i) =
     [''revoot-github-finding-key-v1'', hi_api_origin_digest i, be_u64 (hi_repository_id i)]"
| "key_scope (Local i) = [''revoot-local-finding-key-v1'', li_repository_identity_sha256 i]"

definition finding_key_fields ::
    "(string \<Rightarrow> string) \<Rightarrow> review_snapshot_identity \<Rightarrow> trusted_anchor \<Rightarrow> category \<Rightarrow> string
      \<Rightarrow> string list" where
  "finding_key_fields lower snapshot anchor cat title =
     key_scope snapshot @
     [logical_path (ta_path anchor) (ta_position anchor), position_side (ta_position anchor),
      ta_context_digest anchor, category_label cat, lower (join '' '' (split_whitespace title))]"

definition finding_key ::
    "hasher \<Rightarrow> (string \<Rightarrow> string) \<Rightarrow> review_snapshot_identity \<Rightarrow> trusted_anchor \<Rightarrow> category
      \<Rightarrow> string \<Rightarrow> sha256_digest" where
  "finding_key sha lower snapshot anchor cat title =
     sha (hash_fields (finding_key_fields lower snapshot anchor cat title))"

definition rankable_finding ::
    "hasher \<Rightarrow> (string \<Rightarrow> string) \<Rightarrow> string \<Rightarrow> anchor_id \<Rightarrow> trusted_anchor
      \<Rightarrow> review_snapshot_identity \<Rightarrow> finding \<Rightarrow> ranked_finding" where
  "rankable_finding sha lower unit_id anchor_id anchor snapshot f =
     \<lparr>rf_work_unit_id = unit_id, rf_anchor_id = anchor_id, rf_severity = fi_severity f,
      rf_confidence_percent = fi_confidence_percent f, rf_category = fi_category f,
      rf_finding_key = finding_key sha lower snapshot anchor (fi_category f) (fi_title f),
      rf_content_digest = sha (render_finding f), rf_lineage_id = fi_lineage_id f,
      rf_rendered_body = render_finding f\<rparr>"

text \<open>\<open>ranked_preference\<close> compares these keys; the first two components count down.\<close>

type_synonym rank_key = "nat \<times> nat \<times> string \<times> string \<times> string"

definition rank_key :: "ranked_finding \<Rightarrow> rank_key" where
  "rank_key r =
     (5 - severity_priority (rf_severity r), 255 - unat (rf_confidence_percent r),
      rf_finding_key r, rf_content_digest r, rf_anchor_id r)"

section \<open>The pipeline\<close>

type_synonym issued_anchors = "(string, anchor_id list) btree"

record ranked_findings =
  rs_findings :: "ranked_finding list"
  rs_unit_summaries :: "(string, string) btree"
  rs_duplicates_omitted :: u32

datatype findings_pipeline_error =
    EnvelopeInvalid findings_validation_error | DuplicateWorkUnit | UnknownWorkUnit
  | InvalidAnchorShape | AnchorNotIssued | AnchorNotTrusted | ReviewFindingLimit
  | DuplicateOverflow

text \<open>The local variables of \<open>validate_rank_and_render\<close>.\<close>

record pipeline =
  pl_seen_units :: "string list"
  pl_summaries :: "(string, string) btree"
  pl_by_key :: "(sha256_digest, ranked_finding) btree"
  pl_duplicates :: u32
  pl_input_findings :: nat

definition pipeline_start :: pipeline where
  "pipeline_start =
     \<lparr>pl_seen_units = [], pl_summaries = [], pl_by_key = [], pl_duplicates = 0,
      pl_input_findings = 0\<rparr>"

text \<open>The entry of \<open>by_key\<close>: keep the preferred of two findings with the same key.\<close>

definition insert_ranked ::
    "ranked_finding \<Rightarrow> pipeline \<Rightarrow> findings_pipeline_error + pipeline" where
  "insert_ranked ranked p =
     (case map_of (pl_by_key p) (rf_finding_key ranked) of
        None \<Rightarrow> Inr (p\<lparr>pl_by_key := bt_insert (rf_finding_key ranked) ranked (pl_by_key p)\<rparr>)
      | Some kept \<Rightarrow>
          (case checked_add (pl_duplicates p) 1 of
             None \<Rightarrow> Inl DuplicateOverflow
           | Some n \<Rightarrow>
               Inr (p\<lparr>pl_duplicates := n,
                      pl_by_key := (if rank_key ranked < rank_key kept
                        then bt_insert (rf_finding_key ranked) ranked (pl_by_key p)
                        else pl_by_key p)\<rparr>)))"

text \<open>The body of the inner loop, and of the outer loop.\<close>

definition add_finding ::
    "hasher \<Rightarrow> (string \<Rightarrow> string) \<Rightarrow> anchor_table \<Rightarrow> nat \<Rightarrow> string \<Rightarrow> anchor_id list
      \<Rightarrow> finding \<Rightarrow> pipeline \<Rightarrow> findings_pipeline_error + pipeline" where
  "add_finding sha lower anchors max_findings unit_id allowed f p0 =
     (let p = p0\<lparr>pl_input_findings := pl_input_findings p0 + 1\<rparr> in
      if max_findings < pl_input_findings p then Inl ReviewFindingLimit
      else
        and_then (map_err (\<lambda>_. InvalidAnchorShape) (anchor_id_try_from (fi_anchor_id f)))
          (\<lambda>anchor_id.
        if anchor_id \<notin> set allowed then Inl AnchorNotIssued
        else
          and_then (ok_or AnchorNotTrusted (resolve anchors anchor_id)) (\<lambda>anchor.
          insert_ranked
            (rankable_finding sha lower unit_id anchor_id anchor (at_identity anchors) f) p)))"

definition add_envelope ::
    "hasher \<Rightarrow> (string \<Rightarrow> string) \<Rightarrow> issued_anchors \<Rightarrow> anchor_table \<Rightarrow> nat \<Rightarrow> envelope \<Rightarrow> pipeline
      \<Rightarrow> findings_pipeline_error + pipeline" where
  "add_envelope sha lower issued anchors max_findings e p =
     and_then (map_err EnvelopeInvalid (envelope_validate e)) (\<lambda>_.
     if en_work_unit_id e \<in> set (pl_seen_units p) then Inl DuplicateWorkUnit
     else
       and_then (ok_or UnknownWorkUnit (map_of issued (en_work_unit_id e))) (\<lambda>allowed.
       try_fold (add_finding sha lower anchors max_findings (en_work_unit_id e) allowed)
         (en_findings e)
         (p\<lparr>pl_seen_units := bs_insert (en_work_unit_id e) (pl_seen_units p),
            pl_summaries := bt_insert (en_work_unit_id e)
              (render_safe_markdown (en_summary e)) (pl_summaries p)\<rparr>)))"

definition validate_rank_and_render ::
    "hasher \<Rightarrow> (string \<Rightarrow> string) \<Rightarrow> envelope list \<Rightarrow> issued_anchors \<Rightarrow> anchor_table \<Rightarrow> nat
      \<Rightarrow> findings_pipeline_error + ranked_findings" where
  "validate_rank_and_render sha lower envelopes issued anchors max_findings =
     (if max_findings = 0 \<or> max_review_findings < max_findings then Inl ReviewFindingLimit
      else
        and_then (try_fold (add_envelope sha lower issued anchors max_findings) envelopes
          pipeline_start) (\<lambda>p.
        if max_findings < length (pl_by_key p) then Inl ReviewFindingLimit
        else Inr \<lparr>rs_findings = sort_key rank_key (bt_values (pl_by_key p)),
          rs_unit_summaries = pl_summaries p, rs_duplicates_omitted = pl_duplicates p\<rparr>))"

end
