(* ===== verification/Findings_Ranked.thy ===== *)
theory Findings_Ranked
  imports Findings
begin

text \<open>
  What the findings pipeline guarantees: every ranked finding comes from a validated
  envelope and an anchor that was issued and is trusted, one finding is kept per key and
  it is the preferred one, the counts add up, and the rendered bodies carry neither a
  marker of Revoot nor a fence that their content can close.
\<close>

section \<open>Rendered text\<close>

lemma contains_not_in: "contains (c # p) s \<Longrightarrow> c \<in> set s"
  using contains_set by fastforce

lemma render_safe_no_angle: "CHR ''<'' \<notin> set (render_safe_markdown v)" "CHR ''>'' \<notin> set (render_safe_markdown v)"
proof -
  let ?amp = "replace_char CHR ''&'' ''&amp;'' v"
  let ?lt = "replace_char CHR ''<'' ''&lt;'' ?amp"
  have "CHR ''<'' \<notin> set ?lt" using set_replace_char [of "CHR ''<''" "''&lt;''" ?amp] by auto
  then show "CHR ''<'' \<notin> set (render_safe_markdown v)"
    using set_replace_char [of "CHR ''>''" "''&gt;''" ?lt] by (auto simp: render_safe_markdown_def)
  show "CHR ''>'' \<notin> set (render_safe_markdown v)"
    using set_replace_char [of "CHR ''>''" "''&gt;''" ?lt] by (auto simp: render_safe_markdown_def)
qed

lemma severity_no_angle:
  "severity_presentation s = (icon, priority, label) \<Longrightarrow>
     CHR ''<'' \<notin> set icon \<and> CHR ''<'' \<notin> set priority \<and> CHR ''<'' \<notin> set label"
  by (cases s) auto

lemma labels_no_angle:
  "CHR ''<'' \<notin> set (category_presentation c)"
  "CHR ''<'' \<notin> set (confidence_label n)"
  by (cases c; simp) simp

lemma fence_chars: "set (code_fence v) \<subseteq> {backtick}"
  by (simp add: code_fence_def)

lemma marker_prefix_Cons: "marker_prefix = CHR ''<'' # ''!-- revoot:''"
  by (simp add: marker_prefix_def)

lemma marker_lower: "ascii_lowercase marker_prefix = marker_prefix"
  by (simp add: marker_prefix_def ascii_lowercase_def to_ascii_lowercase_def is_ascii_uppercase_def)

lemma marker_in_lower: "contains marker_prefix v \<Longrightarrow> contains marker_prefix (ascii_lowercase v)"
  using contains_map [of marker_prefix v to_ascii_lowercase] marker_lower
  by (simp add: ascii_lowercase_def)

text \<open>Everything before the suggested replacement.\<close>

definition render_head :: "finding \<Rightarrow> string" where
  "render_head f = render_finding (f\<lparr>fi_suggested_replacement := None\<rparr>)"

lemma render_finding_eq:
  "render_finding f = (case fi_suggested_replacement f of
       None \<Rightarrow> render_head f
     | Some r \<Rightarrow> (render_head f @ [nl, nl] @ ''#### Suggested fix'' @ [nl, nl] @ code_fence r @ [nl]) @
         r @ (if last r = nl then [] else [nl]) @ code_fence r)"
  by (simp add: render_head_def render_finding_def Let_def split: option.split prod.split)

lemma render_head_no_angle: "CHR ''<'' \<notin> set (render_head f)"
proof -
  obtain icon priority label where p: "severity_presentation (fi_severity f) = (icon, priority, label)"
    by (rule prod_cases3)
  show ?thesis
    using severity_no_angle [OF p] labels_no_angle render_safe_no_angle(1)
    by (simp add: render_head_def render_finding_def p del: confidence_label.simps)
qed

lemma rendered_marker_free:
  assumes "\<And>r. fi_suggested_replacement f = Some r \<Longrightarrow> r \<noteq> [] \<and> \<not> contains marker_prefix r"
  shows "\<not> contains marker_prefix (render_finding f)"
proof (cases "fi_suggested_replacement f")
  case None
  then show ?thesis
    using render_head_no_angle contains_not_in unfolding render_finding_eq marker_prefix_Cons
    by fastforce
next
  case (Some r)
  have fence: "code_fence r = backtick # replicate (max (Max (set (backtick_runs 0 r)) + 1) 3 - 1) backtick"
    by (simp add: code_fence_def flip: replicate_Suc)
  have head: "CHR ''<'' \<notin> set (render_head f @ [nl, nl] @ ''#### Suggested fix'' @ [nl, nl] @ code_fence r @ [nl])"
    using render_head_no_angle fence_chars [of r] by (auto simp: backtick_def)
  define d where "d = (if last r = nl then backtick else nl)"
  define t where "t = (if last r = nl then tl (code_fence r) else code_fence r)"
  have tail: "(if last r = nl then [] else [nl]) @ code_fence r = d # t"
    using fence by (simp add: d_def t_def)
  have d: "d \<notin> set ''!-- revoot:''" by (simp add: d_def backtick_def)
  have "set (d # t) \<subseteq> {backtick, nl}"
    unfolding tail [symmetric] using fence_chars [of r] by auto
  then have angle: "CHR ''<'' \<notin> set (d # t)" by (auto simp: backtick_def)
  show ?thesis
  proof
    assume "contains marker_prefix (render_finding f)"
    then have "contains (CHR ''<'' # ''!-- revoot:'')
        ((render_head f @ [nl, nl] @ ''#### Suggested fix'' @ [nl, nl] @ code_fence r @ [nl]) @ r @ d # t)"
      unfolding render_finding_eq marker_prefix_Cons Some option.case tail .
    from this head have "contains (CHR ''<'' # ''!-- revoot:'') (r @ d # t)"
      by (rule contains_append_free)
    then have "contains marker_prefix r"
      unfolding marker_prefix_Cons using angle d by (rule contains_append_break)
    then show False using assms Some by blast
  qed
qed

text \<open>A run of backticks in a value is shorter than its fence.\<close>

lemma backtick_runs_not_Nil: "backtick_runs n s \<noteq> []"
  by (induction n s rule: backtick_runs.induct) auto

lemma backtick_runs_prefix:
  "n + k \<le> Max (set (backtick_runs n (replicate k backtick @ s)))"
proof (induction k arbitrary: n)
  case 0
  have "\<exists>m \<in> set (backtick_runs n s). n \<le> m"
    by (induction n s rule: backtick_runs.induct) (auto dest: Suc_leD)
  then show ?case by (auto intro: order_trans [OF _ Max_ge])
next
  case (Suc k)
  then show ?case using Suc [of "n + 1"] by simp
qed

lemma backtick_runs_contains:
  "contains (replicate k backtick) s \<Longrightarrow> k \<le> Max (set (backtick_runs n s))"
proof (induction n s rule: backtick_runs.induct)
  case (2 n b s)
  show ?case
  proof (cases "starts_with (replicate k backtick) (b # s)")
    case True
    then obtain t where "b # s = replicate k backtick @ t" unfolding starts_with_append by blast
    then show ?thesis using backtick_runs_prefix [of n k t] by simp
  next
    case False
    then show ?thesis
      using 2 backtick_runs_not_Nil by (auto simp: Max_insert)
  qed
qed simp

lemma fence_not_contained: "\<not> contains (code_fence v) v"
proof
  assume "contains (code_fence v) v"
  then have "max (Max (set (backtick_runs 0 v)) + 1) 3 \<le> Max (set (backtick_runs 0 v))"
    unfolding code_fence_def by (rule backtick_runs_contains)
  then show False by simp
qed

section \<open>One finding\<close>

definition ranked_of ::
    "hasher \<Rightarrow> (string \<Rightarrow> string) \<Rightarrow> anchor_table \<Rightarrow> string \<Rightarrow> finding \<Rightarrow> ranked_finding" where
  "ranked_of sha lower anchors unit_id f =
     rankable_finding sha lower unit_id (fi_anchor_id f) (the (resolve anchors (fi_anchor_id f)))
       (at_identity anchors) f"

definition bound_to_anchor :: "anchor_table \<Rightarrow> anchor_id list \<Rightarrow> finding \<Rightarrow> bool" where
  "bound_to_anchor anchors allowed f \<longleftrightarrow>
     anchor_id_try_from (fi_anchor_id f) = Inr (fi_anchor_id f) \<and> fi_anchor_id f \<in> set allowed \<and>
     resolve anchors (fi_anchor_id f) \<noteq> None"

lemma anchor_id_same: "anchor_id_try_from v = Inr i \<Longrightarrow> i = v"
  by (auto simp: anchor_id_try_from_def split: option.splits if_splits)

text \<open>The findings merged so far, \<open>rs\<close>, and the state of the pipeline.\<close>

definition keeps :: "ranked_finding list \<Rightarrow> sha256_digest \<Rightarrow> ranked_finding \<Rightarrow> bool" where
  "keeps rs k v \<longleftrightarrow> rf_finding_key v = k \<and> v \<in> set rs \<and>
     (\<forall>r \<in> set rs. rf_finding_key r = k \<longrightarrow> rank_key v \<le> rank_key r)"

definition preferred :: "ranked_finding list \<Rightarrow> (sha256_digest, ranked_finding) btree \<Rightarrow> bool" where
  "preferred rs m \<longleftrightarrow>
     bt_wf m \<and> fst ` set m = rf_finding_key ` set rs \<and> (\<forall>k v. (k, v) \<in> set m \<longrightarrow> keeps rs k v)"

definition pipe_inv :: "ranked_finding list \<Rightarrow> pipeline \<Rightarrow> bool" where
  "pipe_inv rs p \<longleftrightarrow>
     preferred rs (pl_by_key p) \<and> pl_input_findings p = length rs \<and>
     unat (pl_duplicates p) + length (pl_by_key p) = length rs"

lemma map_of_iff: "bt_wf m \<Longrightarrow> map_of m k = Some v \<longleftrightarrow> (k, v) \<in> set m"
  using bt_wf_distinct by (metis map_of_SomeD map_of_is_SomeI)

lemma set_bt_insert:
  assumes "bt_wf m"
  shows "(k', v') \<in> set (bt_insert k v m) \<longleftrightarrow> (if k' = k then v' = v else (k', v') \<in> set m)"
  using map_of_iff [OF bt_wf_insert [OF assms, of k v], of k' v'] map_of_iff [OF assms, of k' v']
  by (auto simp: map_of_bt_insert [OF assms])

lemma length_bt_insert:
  "bt_wf m \<Longrightarrow> length (bt_insert k v m) = (if k \<in> fst ` set m then length m else length m + 1)"
  unfolding bt_wf_def
  by (induction k v m rule: bt_insert.induct) force+

lemma keeps_snoc:
  "keeps rs k v \<Longrightarrow> rf_finding_key r = k \<longrightarrow> rank_key v \<le> rank_key r \<Longrightarrow> keeps (rs @ [r]) k v"
  by (auto simp: keeps_def)

lemma preferred_insert:
  assumes "preferred rs m"
    and "\<forall>x \<in> set rs. rf_finding_key x = rf_finding_key r \<longrightarrow> rank_key r \<le> rank_key x"
  shows "preferred (rs @ [r]) (bt_insert (rf_finding_key r) r m)"
proof -
  have wf: "bt_wf m" using assms(1) by (simp add: preferred_def)
  have "keeps (rs @ [r]) (rf_finding_key r) r" using assms(2) by (auto simp: keeps_def)
  then show ?thesis
    using assms(1) keeps_snoc [of rs]
    by (simp add: preferred_def set_bt_insert [OF wf] bt_wf_insert set_fst_bt_insert)
qed

lemma preferred_new:
  assumes "preferred rs m" and "rf_finding_key r \<notin> fst ` set m"
  shows "preferred (rs @ [r]) (bt_insert (rf_finding_key r) r m)"
  using assms by (intro preferred_insert) (auto simp: preferred_def image_iff)

lemma preferred_better:
  assumes "preferred rs m" and "(rf_finding_key r, kept) \<in> set m" and "rank_key r < rank_key kept"
  shows "preferred (rs @ [r]) (bt_insert (rf_finding_key r) r m)"
proof (rule preferred_insert [OF assms(1)])
  have "keeps rs (rf_finding_key r) kept" using assms(1,2) by (simp add: preferred_def)
  then show "\<forall>x \<in> set rs. rf_finding_key x = rf_finding_key r \<longrightarrow> rank_key r \<le> rank_key x"
    using assms(3) by (auto simp: keeps_def)
qed

lemma preferred_kept:
  assumes "preferred rs m" and "(rf_finding_key r, kept) \<in> set m" and "\<not> rank_key r < rank_key kept"
  shows "preferred (rs @ [r]) m"
proof -
  have wf: "bt_wf m" using assms(1) by (simp add: preferred_def)
  have "keeps (rs @ [r]) k v" if "(k, v) \<in> set m" for k v
  proof (rule keeps_snoc)
    show "keeps rs k v" using assms(1) that by (simp add: preferred_def)
    show "rf_finding_key r = k \<longrightarrow> rank_key v \<le> rank_key r"
    proof
      assume "rf_finding_key r = k"
      then have "map_of m k = Some v" "map_of m k = Some kept"
        using assms(2) that map_of_iff [OF wf] by simp_all
      then show "rank_key v \<le> rank_key r" using assms(3) by simp
    qed
  qed
  moreover have "rf_finding_key r \<in> fst ` set m" using assms(2) by force
  ultimately show ?thesis
    using assms(1) by (simp add: preferred_def insert_absorb)
qed

lemma insert_ranked_ok:
  assumes "pipe_inv rs p0" and "length rs < 250"
    and p: "p = p0\<lparr>pl_input_findings := pl_input_findings p0 + 1\<rparr>"
  shows "\<exists>p'. insert_ranked r p = Inr p' \<and> pipe_inv (rs @ [r]) p' \<and>
    pl_seen_units p' = pl_seen_units p \<and> pl_summaries p' = pl_summaries p"
proof -
  have pref: "preferred rs (pl_by_key p)" and input: "pl_input_findings p = length rs + 1"
    and sum: "unat (pl_duplicates p) + length (pl_by_key p) = length rs"
    using assms(1) by (simp_all add: pipe_inv_def p)
  then have wf: "bt_wf (pl_by_key p)" by (simp add: preferred_def)
  show ?thesis
  proof (cases "map_of (pl_by_key p) (rf_finding_key r)")
    case None
    then have new: "rf_finding_key r \<notin> fst ` set (pl_by_key p)" by (simp add: map_of_eq_None_iff)
    show ?thesis
      using preferred_new [OF pref new] input sum length_bt_insert [OF wf] new None
      by (simp add: insert_ranked_def pipe_inv_def)
  next
    case (Some kept)
    then have mem: "(rf_finding_key r, kept) \<in> set (pl_by_key p)" by (rule map_of_SomeD)
    then have old: "rf_finding_key r \<in> fst ` set (pl_by_key p)" by force
    obtain n where n: "checked_add (pl_duplicates p) 1 = Some n" "unat n = unat (pl_duplicates p) + 1"
    proof -
      have "unat (pl_duplicates p) + unat (1 :: u32) < 2 ^ LENGTH(32)" using sum assms(2) by simp
      then have "checked_add (pl_duplicates p) 1 \<noteq> None" by (simp add: checked_add_None)
      then show thesis using that by (auto simp: checked_add_Some)
    qed
    show ?thesis
      using preferred_better [OF pref mem] preferred_kept [OF pref mem] input sum n Some
        length_bt_insert [OF wf] old
      by (simp add: insert_ranked_def pipe_inv_def)
  qed
qed

section \<open>Envelopes\<close>

lemma add_finding_cases:
  assumes "pipe_inv rs p" and "max_findings \<le> 250"
  shows "if length rs < max_findings \<and> bound_to_anchor anchors allowed f
    then \<exists>p'. add_finding sha lower anchors max_findings u allowed f p = Inr p' \<and>
      pipe_inv (rs @ [ranked_of sha lower anchors u f]) p' \<and>
      pl_seen_units p' = pl_seen_units p \<and> pl_summaries p' = pl_summaries p
    else \<exists>e. add_finding sha lower anchors max_findings u allowed f p = Inl e"
proof (cases "length rs < max_findings")
  case False
  then show ?thesis using assms(1) by (auto simp: add_finding_def pipe_inv_def)
next
  case room: True
  let ?p = "p\<lparr>pl_input_findings := pl_input_findings p + 1\<rparr>"
  have count: "\<not> max_findings < Suc (pl_input_findings p)"
    using room assms(1) by (simp add: pipe_inv_def)
  show ?thesis
  proof (cases "bound_to_anchor anchors allowed f")
    case True
    then obtain a where a: "resolve anchors (fi_anchor_id f) = Some a" by (auto simp: bound_to_anchor_def)
    obtain p' where p': "insert_ranked (ranked_of sha lower anchors u f) ?p = Inr p'"
      "pipe_inv (rs @ [ranked_of sha lower anchors u f]) p'"
      "pl_seen_units p' = pl_seen_units ?p" "pl_summaries p' = pl_summaries ?p"
      using insert_ranked_ok [OF assms(1) _ refl, of "ranked_of sha lower anchors u f"] room assms(2) by auto
    then have "add_finding sha lower anchors max_findings u allowed f p = Inr p'"
      using True count a by (simp add: add_finding_def Let_def bound_to_anchor_def ranked_of_def)
    then show ?thesis using room True p' by simp
  next
    case False
    have "\<exists>e. add_finding sha lower anchors max_findings u allowed f p = Inl e"
    proof (cases "anchor_id_try_from (fi_anchor_id f)")
      case (Inl h)
      then show ?thesis using count by (simp add: add_finding_def Let_def)
    next
      case (Inr i)
      then have "i = fi_anchor_id f" by (rule anchor_id_same)
      then show ?thesis
        using False Inr count
        by (cases "resolve anchors i") (auto simp: add_finding_def Let_def bound_to_anchor_def)
    qed
    then show ?thesis using False by simp
  qed
qed

lemma add_findings_cases:
  assumes "pipe_inv rs p" and "max_findings \<le> 250" and "length rs \<le> max_findings"
  shows "if length rs + length fs \<le> max_findings \<and> list_all (bound_to_anchor anchors allowed) fs
    then \<exists>p'. try_fold (add_finding sha lower anchors max_findings u allowed) fs p = Inr p' \<and>
      pipe_inv (rs @ map (ranked_of sha lower anchors u) fs) p' \<and>
      pl_seen_units p' = pl_seen_units p \<and> pl_summaries p' = pl_summaries p
    else \<exists>e. try_fold (add_finding sha lower anchors max_findings u allowed) fs p = Inl e"
  using assms
proof (induction fs arbitrary: rs p)
  case (Cons f fs)
  note step = add_finding_cases [OF Cons.prems(1,2), of anchors allowed f sha lower u]
  show ?case
  proof (cases "length rs < max_findings \<and> bound_to_anchor anchors allowed f")
    case True
    then obtain p' where p': "add_finding sha lower anchors max_findings u allowed f p = Inr p'"
      "pipe_inv (rs @ [ranked_of sha lower anchors u f]) p'"
      "pl_seen_units p' = pl_seen_units p" "pl_summaries p' = pl_summaries p"
      using step by auto
    have "length (rs @ [ranked_of sha lower anchors u f]) \<le> max_findings" using True by simp
    from Cons.IH [OF p'(2) Cons.prems(2) this] show ?thesis using True p' by auto
  next
    case False
    then obtain e where "add_finding sha lower anchors max_findings u allowed f p = Inl e"
      using step by auto
    then show ?thesis using False by auto
  qed
qed simp

text \<open>What the pipeline accepts of one envelope, and what it ranks for it.\<close>

definition envelope_ok :: "issued_anchors \<Rightarrow> anchor_table \<Rightarrow> envelope \<Rightarrow> bool" where
  "envelope_ok issued anchors e \<longleftrightarrow>
     envelope_validate e = Inr () \<and>
     (\<exists>allowed. map_of issued (en_work_unit_id e) = Some allowed \<and>
       list_all (bound_to_anchor anchors allowed) (en_findings e))"

definition all_ranked ::
    "hasher \<Rightarrow> (string \<Rightarrow> string) \<Rightarrow> anchor_table \<Rightarrow> envelope list \<Rightarrow> ranked_finding list" where
  "all_ranked sha lower anchors es =
     concat (map (\<lambda>e. map (ranked_of sha lower anchors (en_work_unit_id e)) (en_findings e)) es)"

definition finding_count :: "envelope list \<Rightarrow> nat" where
  "finding_count es = (\<Sum>e \<leftarrow> es. length (en_findings e))"

lemma length_all_ranked: "length (all_ranked sha lower anchors es) = finding_count es"
  by (induction es) (simp_all add: all_ranked_def finding_count_def)

lemma add_envelope_cases:
  assumes "pipe_inv rs p" and "max_findings \<le> 250" and "length rs \<le> max_findings"
  shows "if length rs + length (en_findings e) \<le> max_findings \<and> envelope_ok issued anchors e \<and>
      en_work_unit_id e \<notin> set (pl_seen_units p)
    then \<exists>p'. add_envelope sha lower issued anchors max_findings e p = Inr p' \<and>
      pipe_inv (rs @ all_ranked sha lower anchors [e]) p' \<and>
      set (pl_seen_units p') = insert (en_work_unit_id e) (set (pl_seen_units p))
    else \<exists>x. add_envelope sha lower issued anchors max_findings e p = Inl x"
proof (cases "envelope_validate e = Inr () \<and> en_work_unit_id e \<notin> set (pl_seen_units p) \<and>
    map_of issued (en_work_unit_id e) \<noteq> None")
  case False
  then have "\<exists>x. add_envelope sha lower issued anchors max_findings e p = Inl x"
    by (cases "envelope_validate e") (auto simp: add_envelope_def)
  then show ?thesis using False by (auto simp: envelope_ok_def)
next
  case True
  then obtain allowed where allowed: "map_of issued (en_work_unit_id e) = Some allowed" by blast
  let ?p = "p\<lparr>pl_seen_units := bs_insert (en_work_unit_id e) (pl_seen_units p),
      pl_summaries := bt_insert (en_work_unit_id e) (render_safe_markdown (en_summary e)) (pl_summaries p)\<rparr>"
  have inv: "pipe_inv rs ?p" using assms(1) by (simp add: pipe_inv_def)
  have run: "add_envelope sha lower issued anchors max_findings e p =
      try_fold (add_finding sha lower anchors max_findings (en_work_unit_id e) allowed) (en_findings e) ?p"
    using True allowed by (simp add: add_envelope_def)
  show ?thesis
    using add_findings_cases [OF inv assms(2,3), of "en_findings e" anchors allowed sha lower "en_work_unit_id e"]
      True allowed unfolding run
    by (auto simp: envelope_ok_def all_ranked_def split: if_splits)
qed

lemma add_envelopes_cases:
  assumes "pipe_inv rs p" and "max_findings \<le> 250" and "length rs \<le> max_findings"
  shows "if length rs + finding_count es \<le> max_findings \<and> list_all (envelope_ok issued anchors) es \<and>
      distinct (map en_work_unit_id es) \<and> set (pl_seen_units p) \<inter> en_work_unit_id ` set es = {}
    then \<exists>p'. try_fold (add_envelope sha lower issued anchors max_findings) es p = Inr p' \<and>
      pipe_inv (rs @ all_ranked sha lower anchors es) p'
    else \<exists>x. try_fold (add_envelope sha lower issued anchors max_findings) es p = Inl x"
  using assms
proof (induction es arbitrary: rs p)
  case Nil
  then show ?case by (simp add: finding_count_def all_ranked_def)
next
  case (Cons e es)
  note step = add_envelope_cases [OF Cons.prems, of e issued anchors sha lower]
  show ?case
  proof (cases "length rs + length (en_findings e) \<le> max_findings \<and> envelope_ok issued anchors e \<and>
      en_work_unit_id e \<notin> set (pl_seen_units p)")
    case True
    then obtain p' where p': "add_envelope sha lower issued anchors max_findings e p = Inr p'"
      "pipe_inv (rs @ all_ranked sha lower anchors [e]) p'"
      "set (pl_seen_units p') = insert (en_work_unit_id e) (set (pl_seen_units p))"
      using step by auto
    have len: "length (rs @ all_ranked sha lower anchors [e]) = length rs + length (en_findings e)"
      by (simp add: length_all_ranked finding_count_def)
    have split: "all_ranked sha lower anchors (e # es) =
        all_ranked sha lower anchors [e] @ all_ranked sha lower anchors es"
      by (simp add: all_ranked_def)
    have "length (rs @ all_ranked sha lower anchors [e]) \<le> max_findings" unfolding len using True by blast
    from Cons.IH [OF p'(2) Cons.prems(2) this] show ?thesis
      using True p' unfolding len split by (auto simp: finding_count_def)
  next
    case False
    then obtain x where "add_envelope sha lower issued anchors max_findings e p = Inl x"
      using step by auto
    then show ?thesis using False by (auto simp: finding_count_def)
  qed
qed

lemma pipeline_start_inv: "pipe_inv [] pipeline_start"
  by (simp add: pipe_inv_def pipeline_start_def preferred_def bt_wf_def)

definition pipeline_accepts :: "issued_anchors \<Rightarrow> anchor_table \<Rightarrow> nat \<Rightarrow> envelope list \<Rightarrow> bool" where
  "pipeline_accepts issued anchors max_findings es \<longleftrightarrow>
     0 < max_findings \<and> max_findings \<le> 250 \<and> finding_count es \<le> max_findings \<and>
     list_all (envelope_ok issued anchors) es \<and> distinct (map en_work_unit_id es)"

lemma pipeline_cases:
  obtains (accepted) p where "pipeline_accepts issued anchors max_findings es"
      "pipe_inv (all_ranked sha lower anchors es) p"
      "validate_rank_and_render sha lower es issued anchors max_findings =
         Inr \<lparr>rs_findings = sort_key rank_key (bt_values (pl_by_key p)),
           rs_unit_summaries = pl_summaries p, rs_duplicates_omitted = pl_duplicates p\<rparr>"
    | (refused) x where "\<not> pipeline_accepts issued anchors max_findings es"
      "validate_rank_and_render sha lower es issued anchors max_findings = Inl x"
proof (cases "0 < max_findings \<and> max_findings \<le> 250")
  case False
  then show thesis
    using refused by (auto simp: pipeline_accepts_def validate_rank_and_render_def max_review_findings_def)
next
  case limit: True
  note cases = add_envelopes_cases [OF pipeline_start_inv conjunct2 [OF limit], of es issued anchors sha lower]
  have seen: "set (pl_seen_units pipeline_start) = {}" by (simp add: pipeline_start_def)
  show thesis
  proof (cases "pipeline_accepts issued anchors max_findings es")
    case True
    then obtain p where p: "try_fold (add_envelope sha lower issued anchors max_findings) es pipeline_start = Inr p"
      "pipe_inv (all_ranked sha lower anchors es) p"
      using cases seen by (auto simp: pipeline_accepts_def)
    have "length (pl_by_key p) \<le> max_findings"
      using p(2) True by (simp add: pipe_inv_def pipeline_accepts_def length_all_ranked)
    then show thesis
      using accepted [OF True p(2)] limit p(1)
      by (simp add: validate_rank_and_render_def max_review_findings_def)
  next
    case False
    then obtain x where "try_fold (add_envelope sha lower issued anchors max_findings) es pipeline_start = Inl x"
      using cases seen limit by (auto simp: pipeline_accepts_def)
    then show thesis
      using refused [OF False] limit by (simp add: validate_rank_and_render_def max_review_findings_def)
  qed
qed

lemma valid_envelope_finding:
  assumes "envelope_validate e = Inr ()" and "f \<in> set (en_findings e)"
  shows "validate_finding f () = Inr ()"
proof -
  have "try_fold validate_finding (en_findings e) () = Inr ()"
    using assms(1) by (auto simp: envelope_validate_def result_simps split: if_splits)
  moreover have "try_fold validate_finding fs () = Inr () \<Longrightarrow> f \<in> set fs \<Longrightarrow> validate_finding f () = Inr ()"
    for fs by (induction fs) (auto simp: result_simps)
  ultimately show ?thesis using assms(2) by blast
qed

lemma valid_replacement:
  assumes "validate_finding f () = Inr ()" and "fi_suggested_replacement f = Some r"
  shows "r \<noteq> [] \<and> \<not> contains marker_prefix r"
proof -
  have "validate_replacement r = Inr ()"
    using assms by (auto simp: validate_finding_def result_simps split: if_splits)
  then show ?thesis using marker_in_lower by (auto simp: validate_replacement_def split: if_splits)
qed

section \<open>Properties\<close>

text \<open>
  The aggregate is accepted exactly when the review limit is sensible and
  covers all findings, every envelope is valid and its work unit was issued and occurs
  once, and every finding names an anchor that was issued to that unit and resolves in
  the trusted table.  Nothing is salvaged otherwise, and the duplicate counter cannot
  overflow.
\<close>

theorem ranking_accepts_exactly:
  "(\<exists>out. validate_rank_and_render sha lower es issued anchors max_findings = Inr out) \<longleftrightarrow>
     0 < max_findings \<and> max_findings \<le> 250 \<and> (\<Sum>e \<leftarrow> es. length (en_findings e)) \<le> max_findings \<and>
     distinct (map en_work_unit_id es) \<and>
     (\<forall>e \<in> set es. envelope_validate e = Inr () \<and>
       (\<exists>allowed. map_of issued (en_work_unit_id e) = Some allowed \<and>
         (\<forall>f \<in> set (en_findings e). fi_anchor_id f \<in> set allowed \<and>
           anchor_id_try_from (fi_anchor_id f) = Inr (fi_anchor_id f) \<and>
           resolve anchors (fi_anchor_id f) \<noteq> None)))"
proof -
  have "(\<exists>out. validate_rank_and_render sha lower es issued anchors max_findings = Inr out) \<longleftrightarrow>
      pipeline_accepts issued anchors max_findings es"
    by (cases rule: pipeline_cases [of issued anchors max_findings es sha lower]) auto
  also have "\<dots> \<longleftrightarrow> 0 < max_findings \<and> max_findings \<le> 250 \<and> finding_count es \<le> max_findings \<and>
      distinct (map en_work_unit_id es) \<and> (\<forall>e \<in> set es. envelope_ok issued anchors e)"
    by (auto simp: pipeline_accepts_def list_all_iff)
  finally show ?thesis
    unfolding finding_count_def envelope_ok_def bound_to_anchor_def list_all_iff
    by (simp only: conj_ac)
qed

text \<open>
  \<^bold>\<open>C17.\<close>  Of the findings of an accepted aggregate, ranked exactly one per finding key:
  each ranked finding was submitted, every submitted finding is represented by one that
  ranks at least as high, the output is in rank order, and the findings kept and the
  duplicates omitted add up to the findings submitted.
\<close>

theorem ranking_keeps_best:
  assumes "validate_rank_and_render sha lower es issued anchors max_findings = Inr out"
  shows "set (rs_findings out) \<subseteq> set (all_ranked sha lower anchors es) \<and>
    (\<forall>r \<in> set (all_ranked sha lower anchors es). \<exists>v \<in> set (rs_findings out).
       rf_finding_key v = rf_finding_key r \<and> rank_key v \<le> rank_key r) \<and>
    distinct (map rf_finding_key (rs_findings out)) \<and>
    sorted (map rank_key (rs_findings out)) \<and>
    length (rs_findings out) + unat (rs_duplicates_omitted out) = (\<Sum>e \<leftarrow> es. length (en_findings e))"
proof (cases rule: pipeline_cases [of issued anchors max_findings es sha lower])
  case (refused x)
  then show ?thesis using assms by simp
next
  case (accepted p)
  let ?rs = "all_ranked sha lower anchors es"
  have out: "rs_findings out = sort_key rank_key (bt_values (pl_by_key p))"
    "rs_duplicates_omitted out = pl_duplicates p"
    using accepted(3) assms by auto
  have pref: "preferred ?rs (pl_by_key p)"
    and sum: "unat (pl_duplicates p) + length (pl_by_key p) = finding_count es"
    using accepted(2) by (simp_all add: pipe_inv_def length_all_ranked)
  have keep: "keeps ?rs k v" if "(k, v) \<in> set (pl_by_key p)" for k v
    using pref that by (simp add: preferred_def)
  have keys: "map rf_finding_key (bt_values (pl_by_key p)) = map fst (pl_by_key p)"
    using keep by (auto simp: bt_values_def keeps_def)
  have best: "\<exists>v \<in> set (bt_values (pl_by_key p)). rf_finding_key v = rf_finding_key r \<and> rank_key v \<le> rank_key r"
    if "r \<in> set ?rs" for r
  proof -
    have "rf_finding_key r \<in> fst ` set (pl_by_key p)" using pref that by (simp add: preferred_def)
    then obtain v where v: "(rf_finding_key r, v) \<in> set (pl_by_key p)" by force
    from keep [OF this] have "rf_finding_key v = rf_finding_key r \<and> rank_key v \<le> rank_key r"
      using that by (simp add: keeps_def)
    moreover have "v \<in> set (bt_values (pl_by_key p))" using v by (force simp: bt_values_def)
    ultimately show ?thesis by blast
  qed
  have sub: "set (bt_values (pl_by_key p)) \<subseteq> set ?rs"
    using keep by (auto simp: bt_values_def keeps_def)
  have dist: "distinct (map rf_finding_key (bt_values (pl_by_key p)))"
    unfolding keys using pref by (intro bt_wf_distinct) (simp add: preferred_def)
  have "length (bt_values (pl_by_key p)) = length (pl_by_key p)" by (simp add: bt_values_def)
  then show ?thesis using out best sub dist sum by (simp add: finding_count_def)
qed

definition zero_digest :: string where
  "zero_digest = replicate 64 (CHR ''0'')"

definition sample_anchor :: trusted_anchor where
  "sample_anchor =
     \<lparr>ta_id = ''ga1_'' @ zero_digest, ta_path = ChangedPath ''f'' ''f'' Modified,
      ta_position = Addition 3, ta_exact_line_digest = zero_digest,
      ta_context_digest = zero_digest\<rparr>"

definition sample_finding :: finding where
  "sample_finding =
     \<lparr>fi_anchor_id = ''ga1_'' @ zero_digest, fi_severity = High, fi_confidence_percent = 80,
      fi_category = Correctness, fi_title = ''Bug'', fi_explanation = ''It fails'',
      fi_evidence = ''Line 3'', fi_lineage_id = None, fi_suggested_replacement = Some ''x < 1''\<rparr>"

definition sample_envelope :: envelope where
  "sample_envelope =
     \<lparr>en_schema_version = findings_schema_version, en_work_unit_id = ''u1'',
      en_findings = [sample_finding, sample_finding\<lparr>fi_severity := Critical\<rparr>],
      en_summary = ''Two bugs''\<rparr>"

definition sample_trusted :: anchor_table where
  "sample_trusted = \<lparr>at_identity = Local \<lparr>li_repository_identity_sha256 = zero_digest,
       li_base_sha = ''b'', li_head_sha = ''h'', li_working_tree_sha256 = zero_digest,
       li_exact_diff_manifest_sha256 = zero_digest\<rparr>, at_anchors = [sample_anchor]\<rparr>"

lemmas content_eval =
  validate_plain_text_def validate_markdown_def validate_replacement_def blank_def has_control_def
  marker_prefix_def ascii_lowercase_def to_ascii_lowercase_def is_ascii_uppercase_def
  contains_unsafe_url_def contains_link_or_image_def starts_with_def str_lines_def
  quick_action_line_def trim_start_def trim_def char_width_def chunk_whitespace_def
  char_is_whitespace_def char_is_control_def strip_suffix_def is_ascii_alphanumeric_def
  is_ascii_digit_def is_ascii_lowercase_def Let_def

lemmas limit_defs =
  max_work_unit_id_bytes_def max_anchor_id_bytes_def max_title_bytes_def max_explanation_bytes_def
  max_evidence_bytes_def max_replacement_bytes_def max_summary_bytes_def max_envelope_findings_def

lemma sample_texts:
  "validate_markdown max_summary_bytes ''Two bugs'' = Inr ()"
  "validate_markdown max_explanation_bytes ''It fails'' = Inr ()"
  "validate_markdown max_evidence_bytes ''Line 3'' = Inr ()"
  "validate_plain_text ''Bug'' = Inr ()"
  "validate_replacement ''x < 1'' = Inr ()"
  "trim ''Bug'' = ''Bug''"
  by (simp_all add: content_eval limit_defs char_of_def)

lemma sample_labels: "valid_label (''ga1_'' @ zero_digest) 128" "valid_label ''u1'' 128"
  by (simp_all add: valid_label_def content_eval zero_digest_def list_all_iff)

lemma sample_envelope_valid: "envelope_validate sample_envelope = Inr ()"
proof -
  have "validate_finding (sample_finding\<lparr>fi_severity := s\<rparr>) u = Inr ()" for s u
    using sample_labels by (simp add: validate_finding_def sample_finding_def sample_texts
        max_title_bytes_def max_anchor_id_bytes_def)
  from this [of High] this [of Critical] show ?thesis
    using sample_labels by (simp add: envelope_validate_def sample_envelope_def sample_texts
        max_work_unit_id_bytes_def max_envelope_findings_def) (simp add: sample_finding_def)
qed

lemma sample_accepted:
  "\<exists>out. validate_rank_and_render (\<lambda>_. zero_digest) (\<lambda>s. s) [sample_envelope]
     [(''u1'', [''ga1_'' @ zero_digest])] sample_trusted 10 = Inr out"
proof -
  have "pipeline_accepts [(''u1'', [''ga1_'' @ zero_digest])] sample_trusted 10 [sample_envelope]"
    using sample_envelope_valid
    by (simp add: pipeline_accepts_def finding_count_def envelope_ok_def bound_to_anchor_def
        sample_envelope_def sample_finding_def sample_trusted_def sample_anchor_def resolve_def
        binary_search_def search_base.simps anchor_id_try_from_def anchor_prefix_def zero_digest_def
        sha256_hex_len_def is_lower_hex_def is_ascii_digit_def list_all_iff)
  then show ?thesis
    by (cases rule: pipeline_cases [of "[(''u1'', [''ga1_'' @ zero_digest])]" sample_trusted 10
          "[sample_envelope]" "\<lambda>_. zero_digest" "\<lambda>s. s"]) auto
qed

lemma sample_not_empty:
  assumes "validate_rank_and_render sha lower [sample_envelope] issued anchors n = Inr out"
  shows "rs_findings out \<noteq> []"
proof (cases rule: pipeline_cases [of issued anchors n "[sample_envelope]" sha lower])
  case (refused x)
  then show ?thesis using assms by simp
next
  case (accepted p)
  have "all_ranked sha lower anchors [sample_envelope] \<noteq> []"
    by (simp add: all_ranked_def sample_envelope_def)
  then have "pl_by_key p \<noteq> []" using accepted(2) by (auto simp: pipe_inv_def preferred_def)
  moreover have "set (rs_findings out) = set (bt_values (pl_by_key p))" using accepted(3) assms by auto
  ultimately show ?thesis by (auto simp: bt_values_def)
qed

theorem ranking_accepts_exactly_witness:
  "(\<exists>out. validate_rank_and_render (\<lambda>_. zero_digest) (\<lambda>s. s) [sample_envelope]
      [(''u1'', [''ga1_'' @ zero_digest])] sample_trusted 10 = Inr out) \<and>
   \<not> (\<exists>out. validate_rank_and_render (\<lambda>_. zero_digest) (\<lambda>s. s) [sample_envelope]
      [(''u1'', [''ga1_'' @ zero_digest])] sample_trusted 1 = Inr out)"
proof -
  have "length (en_findings sample_envelope) = 2" by (simp add: sample_envelope_def)
  then show ?thesis
    using iffD1 [OF ranking_accepts_exactly sample_accepted]
    unfolding ranking_accepts_exactly by simp
qed

theorem ranking_keeps_best_witness:
  "\<exists>out. validate_rank_and_render (\<lambda>_. zero_digest) (\<lambda>s. s) [sample_envelope]
     [(''u1'', [''ga1_'' @ zero_digest])] sample_trusted 10 = Inr out \<and>
     length (rs_findings out) + unat (rs_duplicates_omitted out) = 2"
proof -
  obtain out where out: "validate_rank_and_render (\<lambda>_. zero_digest) (\<lambda>s. s) [sample_envelope]
     [(''u1'', [''ga1_'' @ zero_digest])] sample_trusted 10 = Inr out"
    using sample_accepted by blast
  then show ?thesis using ranking_keeps_best [OF out] by (simp add: sample_envelope_def)
qed

text \<open>
  \<^bold>\<open>C18.\<close>  No rendered body can be taken for one of Revoot's own markers: whatever the
  model wrote, the body of a ranked finding does not contain the marker prefix, in the
  text, in the suggested replacement, or across their boundaries, and a suggested
  replacement does not contain the fence it is enclosed in.
\<close>

theorem rendered_bodies_carry_no_marker:
  assumes "validate_rank_and_render sha lower es issued anchors max_findings = Inr out"
    and "r \<in> set (rs_findings out)"
  shows "\<exists>e \<in> set es. \<exists>f \<in> set (en_findings e).
    rf_rendered_body r = render_finding f \<and> \<not> contains marker_prefix (render_finding f) \<and>
    (case fi_suggested_replacement f of None \<Rightarrow> True | Some v \<Rightarrow> \<not> contains (code_fence v) v)"
proof (cases rule: pipeline_cases [of issued anchors max_findings es sha lower])
  case (refused x)
  then show ?thesis using assms(1) by simp
next
  case (accepted p)
  have "set (rs_findings out) = set (bt_values (pl_by_key p))" using accepted(3) assms(1) by auto
  then obtain k where "(k, r) \<in> set (pl_by_key p)" using assms(2) by (auto simp: bt_values_def)
  then have "r \<in> set (all_ranked sha lower anchors es)"
    using accepted(2) by (auto simp: pipe_inv_def preferred_def keeps_def)
  then obtain e f where ef: "e \<in> set es" "f \<in> set (en_findings e)"
    and r: "r = ranked_of sha lower anchors (en_work_unit_id e) f"
    by (auto simp: all_ranked_def)
  have "envelope_validate e = Inr ()"
    using accepted(1) ef(1) by (simp add: pipeline_accepts_def list_all_iff envelope_ok_def)
  then have "validate_finding f () = Inr ()" using ef(2) by (rule valid_envelope_finding)
  then have "\<not> contains marker_prefix (render_finding f)"
    by (intro rendered_marker_free) (rule valid_replacement)
  moreover have "rf_rendered_body r = render_finding f"
    by (simp add: r ranked_of_def rankable_finding_def)
  ultimately show ?thesis using ef fence_not_contained by (auto split: option.split)
qed

theorem rendered_bodies_carry_no_marker_witness:
  "\<exists>out r. validate_rank_and_render (\<lambda>_. zero_digest) (\<lambda>s. s) [sample_envelope]
     [(''u1'', [''ga1_'' @ zero_digest])] sample_trusted 10 = Inr out \<and>
     r \<in> set (rs_findings out) \<and> \<not> contains marker_prefix (rf_rendered_body r)"
proof -
  obtain out where out: "validate_rank_and_render (\<lambda>_. zero_digest) (\<lambda>s. s) [sample_envelope]
     [(''u1'', [''ga1_'' @ zero_digest])] sample_trusted 10 = Inr out"
    using sample_accepted by blast
  then obtain r where r: "r \<in> set (rs_findings out)"
    using sample_not_empty by (metis ex_in_conv set_empty)
  then show ?thesis using out rendered_bodies_carry_no_marker [OF out r] by metis
qed

end
