(* ===== verification/Provider.thy ===== *)
theory Provider
  imports Text
begin

text \<open>
  The provider-neutral contracts, \<open>crates/revoot-core/src/provider.rs\<close>: requests and
  their validation, responses, errors and the cancellation token.

  A JSON value is of the type \<open>'v\<close>; \<open>json_size\<close>, the length of its encoding, and
  \<open>is_object\<close> come from \<open>serde_json\<close> and are parameters.  An \<open>f32\<close> is its IEEE 754 bit
  pattern.
\<close>

section \<open>Requests\<close>

definition max_model_messages :: nat where "max_model_messages = 512"
definition max_model_tools :: nat where "max_model_tools = 64"
definition max_content_blocks :: nat where "max_content_blocks = 1024"
definition max_text_bytes :: nat where "max_text_bytes = 2 * 1024 * 1024"
definition max_tool_json_bytes :: nat where "max_tool_json_bytes = 1024 * 1024"
definition max_tool_name_bytes :: nat where "max_tool_name_bytes = 128"
definition max_tool_id_bytes :: nat where "max_tool_id_bytes = 256"
definition max_model_id_bytes :: nat where "max_model_id_bytes = 256"

type_synonym f32 = "32 word"

datatype model_role = UserRole | AssistantRole

datatype 'v model_content =
    TextContent string
  | ToolUseContent string string 'v
  | ToolResultContent string string bool

record 'v model_message =
  mm_role :: model_role
  mm_content :: "'v model_content list"

record 'v model_tool =
  mt_name :: string
  mt_description :: string
  mt_input_schema :: 'v

record 'v model_request =
  mr_model :: string
  mr_system :: "string option"
  mr_messages :: "'v model_message list"
  mr_tools :: "'v model_tool list"
  mr_max_output_tokens :: u32
  mr_temperature :: "f32 option"

datatype model_request_error =
    RequestModel | RequestMessages | RequestContent | RequestText | RequestToolCount
  | RequestToolName | RequestToolId | RequestToolSchema | RequestOutputTokens | RequestTemperature

definition bounded_text :: "string \<Rightarrow> bool" where
  "bounded_text value \<longleftrightarrow> length value \<le> max_text_bytes \<and> CHR 0x00 \<notin> set value"

definition is_ascii_whitespace :: "char \<Rightarrow> bool" where
  "is_ascii_whitespace b \<longleftrightarrow> b \<in> {CHR '' '', CHR 0x09, CHR 0x0A, CHR 0x0C, CHR 0x0D}"

definition bounded_label :: "string \<Rightarrow> nat \<Rightarrow> bool" where
  "bounded_label value maximum \<longleftrightarrow>
     value \<noteq> [] \<and> length value \<le> maximum \<and>
     list_all (\<lambda>b. \<not> is_ascii_control b \<and> \<not> is_ascii_whitespace b) value"

text \<open>
  \<open>!value.is_finite() || !(0.0..=2.0).contains(&value)\<close>: the exponent is all ones, or the
  number is neither negative zero nor from 0 to 2, whose patterns are ordered like naturals.
\<close>

definition f32_finite :: "f32 \<Rightarrow> bool" where
  "f32_finite b \<longleftrightarrow> drop_bit 23 (b mod 2 ^ 31) \<noteq> 255"

definition f32_from_0_to_2 :: "f32 \<Rightarrow> bool" where
  "f32_from_0_to_2 b \<longleftrightarrow> b \<le> 0x40000000 \<or> b = 0x80000000"

definition temperature_ok :: "f32 option \<Rightarrow> bool" where
  "temperature_ok t \<longleftrightarrow>
     (case t of None \<Rightarrow> True | Some b \<Rightarrow> f32_finite b \<and> f32_from_0_to_2 b)"

definition validate_content ::
    "('v \<Rightarrow> nat) \<Rightarrow> 'v model_content \<Rightarrow> unit \<Rightarrow> model_request_error + unit" where
  "validate_content json_size content u =
     (case content of
        TextContent text \<Rightarrow> reject_if (\<not> bounded_text text) RequestText
      | ToolUseContent i name input \<Rightarrow>
          if \<not> bounded_label i max_tool_id_bytes then Inl RequestToolId
          else if \<not> bounded_label name max_tool_name_bytes then Inl RequestToolName
          else reject_if (max_tool_json_bytes < json_size input) RequestToolSchema
      | ToolResultContent i text _ \<Rightarrow>
          if \<not> bounded_label i max_tool_id_bytes then Inl RequestToolId
          else reject_if (\<not> bounded_text text) RequestText)"

definition validate_tool ::
    "('v \<Rightarrow> nat) \<Rightarrow> ('v \<Rightarrow> bool) \<Rightarrow> 'v model_tool \<Rightarrow> unit \<Rightarrow> model_request_error + unit" where
  "validate_tool json_size is_object tool u =
     (if \<not> bounded_label (mt_name tool) max_tool_name_bytes then Inl RequestToolName
      else reject_if (\<not> bounded_text (mt_description tool) \<or> \<not> is_object (mt_input_schema tool)
        \<or> max_tool_json_bytes < json_size (mt_input_schema tool)) RequestToolSchema)"

definition validate_message ::
    "('v \<Rightarrow> nat) \<Rightarrow> 'v model_message \<Rightarrow> nat \<Rightarrow> model_request_error + nat" where
  "validate_message json_size message blocks0 =
     (if mm_content message = [] then Inl RequestContent
      else
        let blocks = blocks0 + length (mm_content message) in
        if max_content_blocks < blocks then Inl RequestContent
        else and_then (try_fold (validate_content json_size) (mm_content message) ()) (\<lambda>_.
          Inr blocks))"

definition request_validate ::
    "('v \<Rightarrow> nat) \<Rightarrow> ('v \<Rightarrow> bool) \<Rightarrow> 'v model_request \<Rightarrow> model_request_error + unit" where
  "request_validate json_size is_object r =
     (if \<not> bounded_label (mr_model r) max_model_id_bytes then Inl RequestModel
      else if mr_messages r = [] \<or> max_model_messages < length (mr_messages r)
      then Inl RequestMessages
      else if max_model_tools < length (mr_tools r) then Inl RequestToolCount
      else if mr_max_output_tokens r = 0 then Inl RequestOutputTokens
      else if \<not> temperature_ok (mr_temperature r) then Inl RequestTemperature
      else if (case mr_system r of None \<Rightarrow> False | Some text \<Rightarrow> \<not> bounded_text text)
      then Inl RequestText
      else
        and_then (try_fold (validate_tool json_size is_object) (mr_tools r) ()) (\<lambda>_.
        and_then (try_fold (validate_message json_size) (mr_messages r) 0) (\<lambda>_. Inr ())))"

section \<open>Responses\<close>

record model_usage =
  mu_input_tokens :: u64
  mu_output_tokens :: u64
  mu_cached_input_tokens :: u64

datatype finish_reason = Stop | ToolUse | Length | ContentFilter | Unknown

record 'v model_response =
  ms_provider_response_id :: "string option"
  ms_model :: string
  ms_content :: "'v model_content list"
  ms_finish_reason :: finish_reason
  ms_usage :: model_usage

datatype provider_error_kind =
    InvalidRequest | Authentication | PermissionDenied | RateLimited | Timeout | CancelledByCaller
  | Unavailable | Protocol | ResponseTooLarge

record provider_error =
  pe_kind :: provider_error_kind
  pe_status_code :: "u16 option"
  pe_retryable :: bool

section \<open>Cancellation\<close>

text \<open>
  The token is one shared atomic byte, here the reason it holds.  \<open>compare_exchange\<close>
  succeeds only on a token that was not cancelled, so the first reason stays.
\<close>

datatype cancellation_reason = UserRequested | Deadline | Shutdown

type_synonym cancellation_token = "cancellation_reason option"

definition cancel :: "cancellation_reason \<Rightarrow> cancellation_token \<Rightarrow> cancellation_token" where
  "cancel reason token = (case token of None \<Rightarrow> Some reason | Some _ \<Rightarrow> token)"

definition is_cancelled :: "cancellation_token \<Rightarrow> bool" where
  "is_cancelled token \<longleftrightarrow> token \<noteq> None"

lemma cancel_stays [simp]: "is_cancelled (cancel r t)" "cancel s (cancel r t) = cancel r t"
  by (simp_all add: cancel_def is_cancelled_def split: option.split)

text \<open>What a valid request satisfies.\<close>

lemma try_fold_checks:
  "try_fold f xs () = Inr () \<longleftrightarrow> (\<forall>x \<in> set xs. f x () = Inr ())"
  by (induction xs) (auto simp: result_simps)

lemma validate_message_Inr:
  "validate_message json_size m n = Inr k \<longleftrightarrow>
     mm_content m \<noteq> [] \<and> k = n + length (mm_content m) \<and> k \<le> max_content_blocks \<and>
     (\<forall>c \<in> set (mm_content m). validate_content json_size c () = Inr ())"
  by (auto simp: validate_message_def Let_def result_simps try_fold_checks)

lemma validate_messages_Inr:
  "n \<le> max_content_blocks \<Longrightarrow> try_fold (validate_message json_size) ms n = Inr k \<longleftrightarrow>
     (\<forall>m \<in> set ms. mm_content m \<noteq> [] \<and>
       (\<forall>c \<in> set (mm_content m). validate_content json_size c () = Inr ())) \<and>
     k = n + (\<Sum>m \<leftarrow> ms. length (mm_content m)) \<and> k \<le> max_content_blocks"
proof (induction ms arbitrary: n)
  case (Cons m ms)
  show ?case
  proof (cases "n + length (mm_content m) \<le> max_content_blocks")
    case True
    then show ?thesis
      by (auto simp: result_simps validate_message_Inr Cons.IH)
  next
    case False
    then show ?thesis by (auto simp: result_simps validate_message_Inr)
  qed
qed auto

end
