(* ===== verification/Agent_Run.thy ===== *)
theory Agent_Run
  imports Agent_Budget Findings Provider
begin

text \<open>
  The agent run, the second part of \<open>crates/revoot-core/src/agent.rs\<close>: invocations, the
  lifecycle of turns, candidate admission and the terminal outcomes.

  The provider adapter and the clock are outside: a provider turn is given what the
  adapter answered, the reason the shared token was cancelled for while it worked (if it
  was), and the instants at which the clock was read, before and after.
\<close>

section \<open>Invocations\<close>

definition max_label_bytes :: nat where "max_label_bytes = 128"
definition max_work_units :: nat where "max_work_units = 128"
definition max_agent_summary_bytes :: nat where "max_agent_summary_bytes = 8 * 1024"
definition max_omissions :: nat where "max_omissions = 1000"

datatype agent_tool =
    ReadFile | Search | ListFiles | InspectChangedFile | InspectTests | ShowDiff
  | GetMergeRequestMetadata | GetPullRequestMetadata | GetExistingRevootFindings
  | ListChangeCommits | ShowCommitContext | SubmitCandidateFinding | SubmitReviewSummary

record review_invocation =
  iv_review_id :: string
  iv_snapshot :: review_snapshot_identity
  iv_work_unit_ids :: "string list"
  iv_provider_adapter :: string
  iv_model_id :: string
  iv_allowed_tools :: "agent_tool list"
  iv_limits :: budget_limits

datatype invocation_error =
    InvalidReviewId | InvalidWorkUnitIds | InvalidProviderAdapter | InvalidModelId
  | InvalidToolAllowlist | InvalidBudget budget_validation_error

definition agent_label :: "string \<Rightarrow> bool" where
  "agent_label value \<longleftrightarrow>
     value \<noteq> [] \<and> length value \<le> max_label_bytes \<and>
     list_all (\<lambda>b. is_ascii_alphanumeric b \<or> b \<in> set ''-_.:/@'') value"

definition invocation_validate :: "review_invocation \<Rightarrow> invocation_error + unit" where
  "invocation_validate i =
     (if \<not> agent_label (iv_review_id i) then Inl InvalidReviewId
      else if iv_work_unit_ids i = [] \<or> max_work_units < length (iv_work_unit_ids i)
        \<or> list_ex (\<lambda>u. \<not> agent_label u) (iv_work_unit_ids i)
      then Inl InvalidWorkUnitIds
      else if \<not> agent_label (iv_provider_adapter i) then Inl InvalidProviderAdapter
      else if \<not> agent_label (iv_model_id i) then Inl InvalidModelId
      else if iv_allowed_tools i = [] then Inl InvalidToolAllowlist
      else map_err InvalidBudget (budget_limits_validate (iv_limits i)))"

definition allows :: "review_invocation \<Rightarrow> agent_tool \<Rightarrow> bool" where
  "allows i tool \<longleftrightarrow> tool \<in> set (iv_allowed_tools i)"

section \<open>Turns, candidates and outcomes\<close>

datatype turn_purpose = InitialReview | ContinueInvestigation | VerifyCandidates | Synthesize

record agent_turn =
  at_turn_id :: u32
  at_request_id :: u32
  at_purpose :: turn_purpose

datatype agent_state = Ready | TurnInFlight u32 | Finished

datatype suppression_reason =
    BelowConfidenceThreshold | UnsupportedCategory | PriorReviewIncomplete
  | RepositoryContextMissing | DiffEvidenceMissing | LineageNotOwned | Policy | Duplicate

datatype admission = Admit | Suppress suppression_reason

definition admit_all :: "envelope \<Rightarrow> admission" where
  "admit_all _ = Admit"

datatype admission_error =
    AgentNotActive | NoTurnForCandidate | CandidateToolNotAllowed
  | InvalidEnvelope findings_validation_error | CandidateUnknownWorkUnit
  | CandidateBudget budget_error

datatype submission = Admitted | Suppressed suppression_reason

datatype omission_reason =
    InventoryIncomplete | FileTooLarge | BinaryFile | UnsupportedEncoding | SearchTruncated
  | DiffUnavailable | BudgetExhausted | LowSignalDeferred | HistoryUnavailable
  | HistoryIncomplete | ProviderLimited | PolicyExcluded

record omission =
  om_subject_id :: string
  om_reason :: omission_reason

datatype block_reason =
  Configuration | ProviderCapability | RepositoryUnavailable | SnapshotUnavailable

datatype failure_reason = ProviderFailure | ToolContract | CandidateContract | Internal

datatype review_outcome =
    CompleteReview "envelope list" string budget_usage
  | PartialReview "envelope list" string "omission list" budget_usage
  | NoFindings string "omission list" budget_usage
  | StaleReview budget_usage
  | BlockedReview block_reason budget_usage
  | FailedReview failure_reason budget_usage
  | CancelledReview budget_usage

datatype run_error =
    InvalidInvocation invocation_error | RunBudget budget_error | RunCancelled | NotActive
  | TurnStillInFlight | NoTurnInFlight | TurnMismatch | RunToolNotAllowed | BadRunSummary
  | BadOmissions

datatype provider_turn_error =
    AgentError run_error | TurnInvalidRequest model_request_error | AdapterMismatch
  | ModelMismatch | ProviderFailed provider_error

section \<open>The run\<close>

record agent_run =
  ar_invocation :: review_invocation
  ar_cancellation :: cancellation_token
  ar_budget :: agent_budget
  ar_state :: agent_state
  ar_accepted_candidates :: "envelope list"

definition run_new ::
    "review_invocation \<Rightarrow> cancellation_token \<Rightarrow> u64 \<Rightarrow> run_error + agent_run" where
  "run_new invocation cancellation started_at_millis =
     and_then (map_err InvalidInvocation (invocation_validate invocation)) (\<lambda>_.
     and_then (map_err RunBudget (budget_new (iv_limits invocation) started_at_millis)) (\<lambda>budget.
     Inr \<lparr>ar_invocation = invocation, ar_cancellation = cancellation, ar_budget = budget,
       ar_state = Ready, ar_accepted_candidates = []\<rparr>))"

text \<open>A call on the budget of a run, \<open>self.budget.f(...)\<close>, with its error converted.\<close>

definition with_budget ::
    "(budget_error \<Rightarrow> 'e) \<Rightarrow> (agent_budget \<Rightarrow> (budget_error + 'a) \<times> agent_budget) \<Rightarrow> agent_run
      \<Rightarrow> ('e + 'a) \<times> agent_run" where
  "with_budget wrap call r =
     (let (res, b) = call (ar_budget r) in (map_err wrap res, r\<lparr>ar_budget := b\<rparr>))"

definition require_not_cancelled :: "agent_run \<Rightarrow> run_error + unit" where
  "require_not_cancelled r = reject_if (is_cancelled (ar_cancellation r)) RunCancelled"

definition begin_turn ::
    "turn_purpose \<Rightarrow> reservation \<Rightarrow> u64 \<Rightarrow> agent_run \<Rightarrow> (run_error + agent_turn) \<times> agent_run" where
  "begin_turn purpose res now r =
     and_lift (require_not_cancelled r) r (\<lambda>_.
     and_lift (case ar_state r of Ready \<Rightarrow> Inr () | TurnInFlight _ \<Rightarrow> Inl TurnStillInFlight
         | Finished \<Rightarrow> Inl NotActive) r (\<lambda>_.
     and_run (with_budget RunBudget (begin_model_request res now) r) (\<lambda>request_id r.
     (Inr \<lparr>at_turn_id = request_id, at_request_id = request_id, at_purpose = purpose\<rparr>,
      r\<lparr>ar_state := TurnInFlight request_id\<rparr>))))"

definition finish_turn ::
    "agent_turn \<Rightarrow> request_usage \<Rightarrow> u64 \<Rightarrow> agent_run \<Rightarrow> (run_error + unit) \<times> agent_run" where
  "finish_turn turn use now r =
     and_lift (require_not_cancelled r) r (\<lambda>_.
     and_lift (case ar_state r of
         TurnInFlight turn_id \<Rightarrow> reject_if (turn_id \<noteq> at_turn_id turn) TurnMismatch
       | Ready \<Rightarrow> Inl NoTurnInFlight | Finished \<Rightarrow> Inl NotActive) r (\<lambda>_.
     and_run (with_budget RunBudget (finish_model_request (at_request_id turn) use now) r) (\<lambda>_ r.
     (Inr (), r\<lparr>ar_state := Ready\<rparr>))))"

text \<open>
  \<open>complete_provider_turn\<close>.  The adapter is given the request and the token; \<open>answer\<close> is
  what it returned and \<open>during\<close> whether the token was cancelled while it worked.  The
  clock is read at \<open>begin\<close> and, once, at \<open>later\<close>.
\<close>

definition abandon_turn ::
    "agent_turn \<Rightarrow> u64 \<Rightarrow> provider_turn_error \<Rightarrow> agent_run
      \<Rightarrow> (provider_turn_error + 'a) \<times> agent_run" where
  "abandon_turn turn later err r =
     and_run (with_budget (\<lambda>e. AgentError (RunBudget e))
       (abandon_model_request (at_request_id turn) later) r) (\<lambda>_ r.
     (Inl err, r\<lparr>ar_state := Ready\<rparr>))"

definition complete_provider_turn ::
    "('v \<Rightarrow> nat) \<Rightarrow> ('v \<Rightarrow> bool) \<Rightarrow> string \<Rightarrow> (provider_error + 'v model_response)
      \<Rightarrow> cancellation_reason option \<Rightarrow> 'v model_request \<Rightarrow> turn_purpose \<Rightarrow> reservation
      \<Rightarrow> u64 \<Rightarrow> u64 \<Rightarrow> agent_run \<Rightarrow> (provider_turn_error + 'v model_response) \<times> agent_run" where
  "complete_provider_turn json_size is_object adapter_id answer during request purpose res
       begin_at later r0 =
     and_lift (map_err TurnInvalidRequest (request_validate json_size is_object request)) r0 (\<lambda>_.
     and_lift (reject_if (adapter_id \<noteq> iv_provider_adapter (ar_invocation r0)) AdapterMismatch) r0
       (\<lambda>_.
     and_lift (reject_if (mr_model request \<noteq> iv_model_id (ar_invocation r0)) ModelMismatch) r0 (\<lambda>_.
     (case begin_turn purpose res begin_at r0 of
        (Inl e, r) \<Rightarrow> (Inl (AgentError e), r)
      | (Inr turn, r1) \<Rightarrow>
          let r = (case during of None \<Rightarrow> r1
                | Some why \<Rightarrow> r1\<lparr>ar_cancellation := cancel why (ar_cancellation r1)\<rparr>)
          in case answer of
            Inl e \<Rightarrow> abandon_turn turn later (ProviderFailed e) r
          | Inr response \<Rightarrow>
              if ms_model response \<noteq> iv_model_id (ar_invocation r)
              then abandon_turn turn later ModelMismatch r
              else
                let use = \<lparr>ru_input_tokens = mu_input_tokens (ms_usage response),
                      ru_output_tokens = mu_output_tokens (ms_usage response),
                      ru_cost_microusd = rs_cost_microusd res\<rparr>
                in (case finish_turn turn use later r of
                      (Inl e, r) \<Rightarrow> (Inl (AgentError e), r)
                    | (Inr _, r) \<Rightarrow> (Inr response, r))))))"

definition submit_candidate ::
    "(envelope \<Rightarrow> admission) \<Rightarrow> envelope \<Rightarrow> agent_run \<Rightarrow> (admission_error + submission) \<times> agent_run" where
  "submit_candidate hook candidate r =
     and_lift (reject_if (ar_state r = Finished) AgentNotActive) r (\<lambda>_.
     and_lift (reject_if (\<not> allows (ar_invocation r) SubmitCandidateFinding)
       CandidateToolNotAllowed) r (\<lambda>_.
     and_lift (map_err InvalidEnvelope (envelope_validate candidate)) r (\<lambda>_.
     and_lift (reject_if (en_work_unit_id candidate \<notin> set (iv_work_unit_ids (ar_invocation r)))
       CandidateUnknownWorkUnit) r (\<lambda>_.
     and_run (with_budget CandidateBudget
         (charge_candidates (clamp_word (length (en_findings candidate)))) r) (\<lambda>_ r.
     if list_ex (\<lambda>a. en_work_unit_id a = en_work_unit_id candidate) (ar_accepted_candidates r)
     then (Inr (Suppressed Duplicate), r)
     else case hook candidate of
         Admit \<Rightarrow>
           (Inr Admitted,
            r\<lparr>ar_accepted_candidates := ar_accepted_candidates r @ [candidate]\<rparr>)
       | Suppress reason \<Rightarrow> (Inr (Suppressed reason), r))))))"

definition finish_run ::
    "string \<Rightarrow> omission list \<Rightarrow> agent_run \<Rightarrow> (run_error + review_outcome) \<times> agent_run" where
  "finish_run summary omissions r =
     and_lift (require_not_cancelled r) r (\<lambda>_.
     and_lift (case ar_state r of TurnInFlight _ \<Rightarrow> Inl TurnStillInFlight | Finished \<Rightarrow> Inl NotActive
         | Ready \<Rightarrow> Inr ()) r (\<lambda>_.
     and_lift (reject_if (blank summary \<or> max_agent_summary_bytes < length summary) BadRunSummary) r (\<lambda>_.
     and_lift (reject_if (max_omissions < length omissions
         \<or> list_ex (\<lambda>o'. \<not> agent_label (om_subject_id o')) omissions) BadOmissions) r (\<lambda>_.
     let findings = ar_accepted_candidates r;
         use = ab_usage (ar_budget r);
         r' = r\<lparr>ar_state := Finished, ar_accepted_candidates := []\<rparr>
     in if findings = [] then (Inr (NoFindings summary omissions use), r')
        else if omissions = [] then (Inr (CompleteReview findings summary use), r')
        else (Inr (PartialReview findings summary omissions use), r')))))"

definition terminal ::
    "(budget_usage \<Rightarrow> review_outcome) \<Rightarrow> agent_run \<Rightarrow> (run_error + review_outcome) \<times> agent_run" where
  "terminal build r =
     (if ar_state r = Finished then (Inl NotActive, r)
      else (Inr (build (ab_usage (ar_budget r))), r\<lparr>ar_state := Finished\<rparr>))"

definition stale :: "agent_run \<Rightarrow> (run_error + review_outcome) \<times> agent_run" where
  "stale = terminal StaleReview"

definition blocked :: "block_reason \<Rightarrow> agent_run \<Rightarrow> (run_error + review_outcome) \<times> agent_run" where
  "blocked reason = terminal (BlockedReview reason)"

definition failed :: "failure_reason \<Rightarrow> agent_run \<Rightarrow> (run_error + review_outcome) \<times> agent_run" where
  "failed reason = terminal (FailedReview reason)"

definition cancelled :: "agent_run \<Rightarrow> (run_error + review_outcome) \<times> agent_run" where
  "cancelled r =
     (if \<not> is_cancelled (ar_cancellation r) then (Inl NotActive, r)
      else terminal CancelledReview r)"

end
