(* ===== verification/Agent_Lifecycle.thy ===== *)
theory Agent_Lifecycle
  imports Agent_Run
begin

text \<open>
  What the agent run guarantees.  Its calls form a transition system whose state changes
  are of the few shapes of \<open>agent_effect\<close>, and every one of them keeps the invariant:
  the run and its ledger agree, and the candidates kept are valid, authorized and paid for.
  Agent_Protocol states the properties.
\<close>

section \<open>Calls\<close>

text \<open>JSON values are kept as their text here; their size and shape stay parameters.\<close>

type_synonym json = string

datatype agent_call =
    BeginTurn turn_purpose reservation u64
  | FinishTurn agent_turn request_usage u64
  | ProviderTurn "json \<Rightarrow> nat" "json \<Rightarrow> bool" string "provider_error + json model_response"
      "cancellation_reason option" "json model_request" turn_purpose reservation u64 u64
  | SubmitCandidate "envelope \<Rightarrow> admission" envelope
  | FinishRun string "omission list"
  | MakeStale
  | MakeBlocked block_reason
  | MakeFailed failure_reason
  | MakeCancelled
  | CancelToken cancellation_reason
  | RunTool u32 u64 u64 u64

text \<open>
  The run after a call: the methods of \<open>AgentRun\<close>, a cancellation of the shared token, and
  a tool call charged through \<open>budget_mut\<close>, its only use.
\<close>

fun agent_do :: "agent_call \<Rightarrow> agent_run \<Rightarrow> agent_run" where
  "agent_do (BeginTurn purpose res now) r = snd (begin_turn purpose res now r)"
| "agent_do (FinishTurn turn use now) r = snd (finish_turn turn use now r)"
| "agent_do (ProviderTurn json_size is_object adapter answer during request purpose res t1 t2) r =
     snd (complete_provider_turn json_size is_object adapter answer during request purpose res t1 t2 r)"
| "agent_do (SubmitCandidate hook candidate) r = snd (submit_candidate hook candidate r)"
| "agent_do (FinishRun summary omissions) r = snd (finish_run summary omissions r)"
| "agent_do MakeStale r = snd (stale r)"
| "agent_do (MakeBlocked reason) r = snd (blocked reason r)"
| "agent_do (MakeFailed reason) r = snd (failed reason r)"
| "agent_do MakeCancelled r = snd (cancelled r)"
| "agent_do (CancelToken why) r = r\<lparr>ar_cancellation := cancel why (ar_cancellation r)\<rparr>"
| "agent_do (RunTool calls files bytes now) r =
     r\<lparr>ar_budget := snd (charge_tool calls files bytes now (ar_budget r))\<rparr>"

definition agent_initial :: "agent_run \<Rightarrow> bool" where
  "agent_initial r \<longleftrightarrow> (\<exists>invocation token t. run_new invocation token t = Inr r)"

inductive agent_reachable :: "agent_run \<Rightarrow> bool" where
  agent_new: "run_new invocation token t = Inr r \<Longrightarrow> agent_reachable r"
| agent_call: "agent_reachable r \<Longrightarrow> agent_reachable (agent_do call r)"

section \<open>The shapes of a state change\<close>

definition clock_moved :: "agent_budget \<Rightarrow> agent_budget \<Rightarrow> bool" where
  "clock_moved b b' \<longleftrightarrow> b' = b \<or> (\<exists>now. clock_ok now b \<and> b' = observed now b)"

lemma observe_time_moved: "clock_moved b (snd (observe_time now b))"
  by (auto simp: clock_moved_def observe_time_eq)

definition candidates_charged :: "u32 \<Rightarrow> agent_budget \<Rightarrow> agent_budget" where
  "candidates_charged n b = b\<lparr>ab_usage := (ab_usage b)
     \<lparr>bu_candidate_findings := saturating_add (bu_candidate_findings (ab_usage b)) n\<rparr>\<rparr>"

definition submittable :: "envelope \<Rightarrow> agent_run \<Rightarrow> bool" where
  "submittable c r \<longleftrightarrow>
     allows (ar_invocation r) SubmitCandidateFinding \<and>
     envelope_validate c = Inr () \<and> en_work_unit_id c \<in> set (iv_work_unit_ids (ar_invocation r)) \<and>
     fits (bu_candidate_findings (ab_usage (ar_budget r))) (clamp_word (length (en_findings c)))
       (bl_max_candidate_findings (ab_limits (ar_budget r)))"

inductive agent_effect :: "agent_run \<Rightarrow> agent_run \<Rightarrow> bool" where
  clock: "clock_moved (ar_budget r) b \<Longrightarrow> agent_effect r (r\<lparr>ar_budget := b\<rparr>)"
| token: "agent_effect r (r\<lparr>ar_cancellation := cancel why (ar_cancellation r)\<rparr>)"
| begun: "ar_state r = Ready \<Longrightarrow> \<not> is_cancelled (ar_cancellation r) \<Longrightarrow>
    clock_ok now (ar_budget r) \<Longrightarrow> reservable res (ar_budget r) \<Longrightarrow>
    agent_effect r (r\<lparr>ar_budget := reserve res (observed now (ar_budget r)),
      ar_state := TurnInFlight (saturating_add (bu_model_requests (ab_usage (ar_budget r))) 1)\<rparr>)"
| settled: "ar_state r = TurnInFlight i \<Longrightarrow> clock_ok now (ar_budget r) \<Longrightarrow>
    ab_in_flight (ar_budget r) = Some q \<Longrightarrow> input \<le> rs_input_tokens (if_reservation q) \<Longrightarrow>
    out \<le> rs_output_tokens (if_reservation q) \<Longrightarrow> cost \<le> rs_cost_microusd (if_reservation q) \<Longrightarrow>
    agent_effect r (r\<lparr>ar_budget := settle input out cost (observed now (ar_budget r)), ar_state := Ready\<rparr>)"
| suppressed: "submittable c r \<Longrightarrow>
    agent_effect r (r\<lparr>ar_budget := candidates_charged (clamp_word (length (en_findings c))) (ar_budget r)\<rparr>)"
| admitted: "ar_state r \<noteq> Finished \<Longrightarrow> submittable c r \<Longrightarrow>
    en_work_unit_id c \<notin> en_work_unit_id ` set (ar_accepted_candidates r) \<Longrightarrow>
    agent_effect r (r\<lparr>ar_budget := candidates_charged (clamp_word (length (en_findings c))) (ar_budget r),
      ar_accepted_candidates := ar_accepted_candidates r @ [c]\<rparr>)"
| tool: "clock_ok now (ar_budget r) \<Longrightarrow> chargeable calls files bytes (ar_budget r) \<Longrightarrow>
    agent_effect r (r\<lparr>ar_budget := tool_charged calls files bytes (observed now (ar_budget r))\<rparr>)"
| closed: "ar_state r \<noteq> Finished \<Longrightarrow> acc = [] \<or> acc = ar_accepted_candidates r \<Longrightarrow>
    agent_effect r (r\<lparr>ar_state := Finished, ar_accepted_candidates := acc\<rparr>)"

abbreviation agent_effects :: "agent_run \<Rightarrow> agent_run \<Rightarrow> bool" where
  "agent_effects \<equiv> agent_effect\<^sup>*\<^sup>*"

lemma effect_refl: "agent_effect r r"
  using clock [of r "ar_budget r"] by (simp add: clock_moved_def)

lemma effects_refl: "agent_effects r r"
  by simp

lemma begin_turn_cases:
  obtains (refused) e b where "begin_turn purpose res now r = (Inl e, r\<lparr>ar_budget := b\<rparr>)"
      "clock_moved (ar_budget r) b"
    | (begun) i where "ar_state r = Ready" "\<not> is_cancelled (ar_cancellation r)"
      "clock_ok now (ar_budget r)" "reservable res (ar_budget r)"
      "i = saturating_add (bu_model_requests (ab_usage (ar_budget r))) 1"
      "begin_turn purpose res now r =
        (Inr \<lparr>at_turn_id = i, at_request_id = i, at_purpose = purpose\<rparr>,
         r\<lparr>ar_budget := reserve res (observed now (ar_budget r)), ar_state := TurnInFlight i\<rparr>)"
proof (cases "ar_state r = Ready \<and> \<not> is_cancelled (ar_cancellation r)")
  case False
  then have "\<exists>e. begin_turn purpose res now r = (Inl e, r)"
    by (cases "ar_state r") (auto simp: begin_turn_def require_not_cancelled_def reject_if_def)
  then show thesis using refused [of _ "ar_budget r"] by (auto simp: clock_moved_def)
next
  case True
  then have run: "begin_turn purpose res now r =
      and_run (with_budget RunBudget (begin_model_request res now) r) (\<lambda>request_id r.
      (Inr \<lparr>at_turn_id = request_id, at_request_id = request_id, at_purpose = purpose\<rparr>,
       r\<lparr>ar_state := TurnInFlight request_id\<rparr>))"
    by (simp add: begin_turn_def require_not_cancelled_def)
  show thesis
  proof (cases rule: begin_cases [of now "ar_budget r" res])
    case (refused e)
    then have "begin_turn purpose res now r = (Inl (RunBudget e), r\<lparr>ar_budget := snd (observe_time now (ar_budget r))\<rparr>)"
      using run by (simp add: with_budget_def)
    then show thesis using observe_time_moved by (rule that(1))
  next
    case reserved
    then show thesis using begun True run by (simp add: with_budget_def)
  qed
qed

lemma finish_turn_cases:
  obtains (refused) e b where "finish_turn turn use now r = (Inl e, r\<lparr>ar_budget := b\<rparr>)"
      "clock_moved (ar_budget r) b"
    | (settled) i q where "ar_state r = TurnInFlight i" "\<not> is_cancelled (ar_cancellation r)"
      "i = at_turn_id turn" "clock_ok now (ar_budget r)" "ab_in_flight (ar_budget r) = Some q"
      "if_id q = at_request_id turn" "covered use (if_reservation q)"
      "finish_turn turn use now r = (Inr (), r\<lparr>ar_budget := settle (ru_input_tokens use)
         (ru_output_tokens use) (ru_cost_microusd use) (observed now (ar_budget r)), ar_state := Ready\<rparr>)"
proof (cases "ar_state r = TurnInFlight (at_turn_id turn) \<and> \<not> is_cancelled (ar_cancellation r)")
  case False
  then have "\<exists>e. finish_turn turn use now r = (Inl e, r)"
    by (cases "ar_state r") (auto simp: finish_turn_def require_not_cancelled_def reject_if_def)
  then show thesis using refused [of _ "ar_budget r"] by (auto simp: clock_moved_def)
next
  case True
  then have run: "finish_turn turn use now r =
      and_run (with_budget RunBudget (finish_model_request (at_request_id turn) use now) r) (\<lambda>_ r.
      (Inr (), r\<lparr>ar_state := Ready\<rparr>))"
    by (simp add: finish_turn_def require_not_cancelled_def)
  show thesis
  proof (cases rule: finish_cases [of "at_request_id turn" use now "ar_budget r"])
    case (refused e)
    then have "finish_turn turn use now r = (Inl (RunBudget e), r\<lparr>ar_budget := snd (observe_time now (ar_budget r))\<rparr>)"
      using run by (simp add: with_budget_def)
    then show thesis using observe_time_moved by (rule that(1))
  next
    case (settled q)
    then show thesis using that(2) [of "at_turn_id turn" q] True run by (simp add: with_budget_def)
  qed
qed

lemma begin_turn_effect: "agent_effect r (snd (begin_turn purpose res now r))"
  by (cases rule: begin_turn_cases [of purpose res now r]) (auto intro: agent_effect.intros)

lemma finish_turn_effect: "agent_effect r (snd (finish_turn turn use now r))"
  by (cases rule: finish_turn_cases [of turn use now r])
    (auto intro: agent_effect.intros simp: covered_def)

lemma abandon_turn_effect:
  assumes "ar_state r = TurnInFlight i"
  shows "agent_effect r (snd (abandon_turn turn later e r))"
proof (cases rule: abandon_cases [of "at_request_id turn" later "ar_budget r"])
  case (refused x)
  then show ?thesis
    using clock [OF observe_time_moved] by (simp add: abandon_turn_def with_budget_def)
next
  case (settled q)
  then show ?thesis
    using agent_effect.settled [OF assms settled(1,2)] by (simp add: abandon_turn_def with_budget_def)
qed

lemma provider_turn_effects:
  "agent_effects r (snd (complete_provider_turn json_size is_object adapter answer during request
     purpose res t1 t2 r))"
proof (cases "request_validate json_size is_object request = Inr () \<and>
    adapter = iv_provider_adapter (ar_invocation r) \<and> mr_model request = iv_model_id (ar_invocation r)")
  case False
  then have "snd (complete_provider_turn json_size is_object adapter answer during request
      purpose res t1 t2 r) = r"
    by (cases "request_validate json_size is_object request")
      (auto simp: complete_provider_turn_def reject_if_def)
  then show ?thesis by simp
next
  case True
  show ?thesis
  proof (cases rule: begin_turn_cases [of purpose res t1 r])
    case (refused e b)
    then show ?thesis
      using True clock by (simp add: complete_provider_turn_def r_into_rtranclp)
  next
    case (begun i)
    let ?turn = "\<lparr>at_turn_id = i, at_request_id = i, at_purpose = purpose\<rparr>"
    let ?r1 = "r\<lparr>ar_budget := reserve res (observed t1 (ar_budget r)), ar_state := TurnInFlight i\<rparr>"
    define r2 where "r2 = (case during of None \<Rightarrow> ?r1
        | Some why \<Rightarrow> ?r1\<lparr>ar_cancellation := cancel why (ar_cancellation ?r1)\<rparr>)"
    have "agent_effect r ?r1" using agent_effect.begun [OF begun(1-4)] begun(5) by simp
    moreover have "agent_effect ?r1 r2"
      unfolding r2_def using token [of ?r1] effect_refl by (cases during) auto
    ultimately have pre: "agent_effects r r2" by simp
    have state: "ar_state r2 = TurnInFlight i" by (simp add: r2_def split: option.split)
    define final where "final = snd (complete_provider_turn json_size is_object adapter answer during
        request purpose res t1 t2 r)"
    have "agent_effect r2 final"
    proof (cases answer)
      case (Inl e)
      then have "final = snd (abandon_turn ?turn t2 (ProviderFailed e) r2 ::
          (provider_turn_error + 'a model_response) \<times> agent_run)"
        using True begun(6) by (simp add: final_def complete_provider_turn_def Let_def r2_def)
      then show ?thesis using abandon_turn_effect [OF state] by simp
    next
      case (Inr response)
      show ?thesis
      proof (cases "ms_model response = iv_model_id (ar_invocation r2)")
        case False
        then have "final = snd (abandon_turn ?turn t2 ModelMismatch r2 ::
            (provider_turn_error + 'a model_response) \<times> agent_run)"
          using True begun(6) Inr by (simp add: final_def complete_provider_turn_def Let_def r2_def)
        then show ?thesis using abandon_turn_effect [OF state] by simp
      next
        case same: True
        let ?use = "\<lparr>ru_input_tokens = mu_input_tokens (ms_usage response),
            ru_output_tokens = mu_output_tokens (ms_usage response), ru_cost_microusd = rs_cost_microusd res\<rparr>"
        have "final = snd (finish_turn ?turn ?use t2 r2)"
          using True begun(6) Inr same
          by (simp add: final_def complete_provider_turn_def Let_def r2_def split: prod.split sum.split)
        then show ?thesis using finish_turn_effect by simp
      qed
    qed
    then show ?thesis using pre by (simp add: final_def)
  qed
qed

lemma submit_candidate_effect: "agent_effect r (snd (submit_candidate hook c r))"
proof (cases "ar_state r \<noteq> Finished \<and> submittable c r")
  case False
  then have "snd (submit_candidate hook c r) = r"
    by (cases "envelope_validate c")
      (auto simp: submit_candidate_def reject_if_def submittable_def with_budget_def charge_candidates_eq)
  then show ?thesis using effect_refl by simp
next
  case True
  then have run: "submit_candidate hook c r =
      (let r' = r\<lparr>ar_budget := candidates_charged (clamp_word (length (en_findings c))) (ar_budget r)\<rparr> in
       if list_ex (\<lambda>a. en_work_unit_id a = en_work_unit_id c) (ar_accepted_candidates r)
       then (Inr (Suppressed Duplicate), r')
       else case hook c of
           Admit \<Rightarrow> (Inr Admitted, r'\<lparr>ar_accepted_candidates := ar_accepted_candidates r @ [c]\<rparr>)
         | Suppress reason \<Rightarrow> (Inr (Suppressed reason), r'))"
    by (simp add: submit_candidate_def submittable_def with_budget_def charge_candidates_eq
        candidates_charged_def Let_def split: admission.split)
  have sub: "submittable c r" using True by blast
  show ?thesis
  proof (cases "list_ex (\<lambda>a. en_work_unit_id a = en_work_unit_id c) (ar_accepted_candidates r)")
    case True
    then show ?thesis unfolding run using agent_effect.suppressed [OF sub] by simp
  next
    case new: False
    then have "en_work_unit_id c \<notin> en_work_unit_id ` set (ar_accepted_candidates r)"
      by (force simp: list_ex_iff)
    then show ?thesis
      unfolding run using new agent_effect.suppressed [OF sub] agent_effect.admitted [OF _ sub] True
      by (cases "hook c") (simp_all add: Let_def)
  qed
qed

lemma finish_run_cases:
  obtains (refused) e where "finish_run summary omissions r = (Inl e, r)"
    | (finished) out where "ar_state r = Ready" "\<not> is_cancelled (ar_cancellation r)"
      "length omissions \<le> max_omissions"
      "finish_run summary omissions r = (Inr out, r\<lparr>ar_state := Finished, ar_accepted_candidates := []\<rparr>)"
      "out = (if ar_accepted_candidates r = [] then NoFindings summary omissions (ab_usage (ar_budget r))
        else if omissions = [] then CompleteReview (ar_accepted_candidates r) summary (ab_usage (ar_budget r))
        else PartialReview (ar_accepted_candidates r) summary omissions (ab_usage (ar_budget r)))"
proof (cases "\<not> is_cancelled (ar_cancellation r) \<and> ar_state r = Ready \<and>
    \<not> (blank summary \<or> max_agent_summary_bytes < length summary) \<and>
    \<not> (max_omissions < length omissions \<or> list_ex (\<lambda>o'. \<not> agent_label (om_subject_id o')) omissions)")
  case False
  then have "\<exists>e. finish_run summary omissions r = (Inl e, r)"
    by (cases "ar_state r") (auto simp: finish_run_def require_not_cancelled_def reject_if_def)
  then show thesis using refused by blast
next
  case True
  then show thesis
    by (intro finished) (simp_all add: finish_run_def require_not_cancelled_def Let_def)
qed

lemma finish_run_effect: "agent_effect r (snd (finish_run summary omissions r))"
  by (cases rule: finish_run_cases [of summary omissions r])
    (auto intro: effect_refl agent_effect.closed)

lemma terminal_effect: "agent_effect r (snd (terminal build r))"
  using closed [of r "ar_accepted_candidates r"] effect_refl by (simp add: terminal_def)

lemma tool_effect:
  "agent_effect r (r\<lparr>ar_budget := snd (charge_tool calls files bytes now (ar_budget r))\<rparr>)"
  by (cases rule: charge_tool_cases [of now "ar_budget r" calls files bytes])
    (auto intro: agent_effect.intros observe_time_moved)

lemma agent_do_effects: "agent_effects r (agent_do call r)"
proof (cases call)
  case (ProviderTurn json_size is_object adapter answer during request purpose res t1 t2)
  then show ?thesis using provider_turn_effects by simp
qed (auto intro!: r_into_rtranclp begin_turn_effect finish_turn_effect submit_candidate_effect
    finish_run_effect terminal_effect tool_effect token effect_refl
    simp: stale_def blocked_def failed_def cancelled_def)

section \<open>The invariant\<close>

text \<open>The lifecycle state and the ledger agree on the request in flight.\<close>

definition turn_agrees :: "agent_run \<Rightarrow> bool" where
  "turn_agrees r \<longleftrightarrow>
     (case ar_state r of
        Ready \<Rightarrow> ab_in_flight (ar_budget r) = None
      | TurnInFlight i \<Rightarrow> (\<exists>q. ab_in_flight (ar_budget r) = Some q \<and> if_id q = i)
      | Finished \<Rightarrow> True)"

text \<open>The candidates kept are valid, authorized, and paid for.\<close>

definition candidates_ok :: "agent_run \<Rightarrow> bool" where
  "candidates_ok r \<longleftrightarrow>
     list_all (\<lambda>c. envelope_validate c = Inr () \<and>
       en_work_unit_id c \<in> set (iv_work_unit_ids (ar_invocation r))) (ar_accepted_candidates r) \<and>
     (ar_accepted_candidates r \<noteq> [] \<longrightarrow> allows (ar_invocation r) SubmitCandidateFinding) \<and>
     distinct (map en_work_unit_id (ar_accepted_candidates r)) \<and>
     (\<Sum>c \<leftarrow> ar_accepted_candidates r. length (en_findings c))
       \<le> unat (bu_candidate_findings (ab_usage (ar_budget r)))"

definition agent_inv :: "agent_run \<Rightarrow> bool" where
  "agent_inv r \<longleftrightarrow>
     invocation_validate (ar_invocation r) = Inr () \<and>
     budget_inv (ar_budget r) \<and> ab_limits (ar_budget r) = iv_limits (ar_invocation r) \<and>
     turn_agrees r \<and> candidates_ok r"

lemma clock_moved_simps:
  assumes "clock_moved b b'"
  shows "ab_limits b' = ab_limits b" "ab_in_flight b' = ab_in_flight b"
    "bu_candidate_findings (ab_usage b') = bu_candidate_findings (ab_usage b)"
    "bu_turns (ab_usage b') = bu_turns (ab_usage b)" "budget_inv b \<Longrightarrow> budget_inv b'"
  using assms by (auto simp: clock_moved_def observed_inv)

lemma ledger_simps [simp]:
  "ab_limits (reserve res b) = ab_limits b"
  "ab_limits (settle x y z b) = ab_limits b"
  "ab_limits (tool_charged k l m b) = ab_limits b"
  "ab_limits (candidates_charged n b) = ab_limits b"
  "ab_in_flight (settle x y z b) = None"
  "ab_in_flight (tool_charged k l m b) = ab_in_flight b"
  "ab_in_flight (candidates_charged n b) = ab_in_flight b"
  "bu_candidate_findings (ab_usage (reserve res b)) = bu_candidate_findings (ab_usage b)"
  "bu_candidate_findings (ab_usage (settle x y z b)) = bu_candidate_findings (ab_usage b)"
  "bu_candidate_findings (ab_usage (tool_charged k l m b)) = bu_candidate_findings (ab_usage b)"
  "bu_turns (ab_usage (reserve res b)) = saturating_add (bu_turns (ab_usage b)) 1"
  "bu_turns (ab_usage (settle x y z b)) = bu_turns (ab_usage b)"
  "bu_turns (ab_usage (tool_charged k l m b)) = bu_turns (ab_usage b)"
  "bu_turns (ab_usage (candidates_charged n b)) = bu_turns (ab_usage b)"
  by (simp_all add: reserve_def settle_def tool_charged_def candidates_charged_def Let_def)

lemma reserve_in_flight:
  "ab_in_flight (reserve res b) =
     Some \<lparr>if_id = saturating_add (bu_model_requests (ab_usage b)) 1, if_reservation = res\<rparr>"
  by (simp add: reserve_def Let_def)

lemma findings_within_envelope:
  "envelope_validate c = Inr () \<Longrightarrow> length (en_findings c) \<le> 25"
  by (simp add: envelope_validate_def max_envelope_findings_def split: if_splits)

lemma charged_exactly:
  assumes "submittable c r"
  shows "unat (bu_candidate_findings (ab_usage (candidates_charged (clamp_word (length (en_findings c))) (ar_budget r)))) =
    unat (bu_candidate_findings (ab_usage (ar_budget r))) + length (en_findings c)"
proof -
  have "length (en_findings c) \<le> 25"
    using assms findings_within_envelope by (simp add: submittable_def)
  then have "unat (clamp_word (length (en_findings c)) :: u32) = length (en_findings c)"
    by (simp add: clamp_word_small)
  then show ?thesis
    using assms saturating_add_exact [of "bu_candidate_findings (ab_usage (ar_budget r))"
        "clamp_word (length (en_findings c))" "bl_max_candidate_findings (ab_limits (ar_budget r))"]
    by (simp add: submittable_def fits_def candidates_charged_def)
qed

lemma candidates_charged_inv:
  "submittable c r \<Longrightarrow> budget_inv (ar_budget r) \<Longrightarrow>
     budget_inv (candidates_charged (clamp_word (length (en_findings c))) (ar_budget r))"
  using candidates_inv [of "ar_budget r" "clamp_word (length (en_findings c))"]
  by (simp add: submittable_def charge_candidates_eq candidates_charged_def)

lemma agent_effect_inv: "agent_effect r r' \<Longrightarrow> agent_inv r \<Longrightarrow> agent_inv r'"
proof (induction rule: agent_effect.induct)
  case (clock r b)
  then show ?case
    using clock_moved_simps [OF clock(1)]
    by (auto simp: agent_inv_def turn_agrees_def candidates_ok_def split: agent_state.splits)
next
  case (begun r now res)
  then show ?case
    by (auto simp: agent_inv_def turn_agrees_def candidates_ok_def reserve_in_flight
        intro!: reserve_inv observed_inv)
next
  case (settled r i now q input out cost)
  then show ?case
    by (auto simp: agent_inv_def turn_agrees_def candidates_ok_def
        intro!: settle_inv [where r = q] observed_inv)
next
  case (suppressed c r)
  then show ?case
    using charged_exactly [OF suppressed(1)] candidates_charged_inv [OF suppressed(1)]
    by (auto simp: agent_inv_def turn_agrees_def candidates_ok_def split: agent_state.splits)
next
  case (admitted r c)
  then show ?case
    using charged_exactly [OF admitted(2)] candidates_charged_inv [OF admitted(2)]
    by (auto simp: agent_inv_def turn_agrees_def candidates_ok_def submittable_def split: agent_state.splits)
next
  case (tool now r calls files bytes)
  then show ?case
    by (auto simp: agent_inv_def turn_agrees_def candidates_ok_def split: agent_state.splits
        intro!: tool_charged_inv observed_inv)
qed (auto simp: agent_inv_def turn_agrees_def candidates_ok_def split: agent_state.splits)

lemma agent_effects_inv: "agent_effects r r' \<Longrightarrow> agent_inv r \<Longrightarrow> agent_inv r'"
  by (induction rule: rtranclp_induct) (auto intro: agent_effect_inv)

lemma agent_new_inv: "run_new invocation token t = Inr r \<Longrightarrow> agent_inv r"
proof -
  assume new: "run_new invocation token t = Inr r"
  then obtain b where b: "budget_new (iv_limits invocation) t = Inr b"
    and r: "r = \<lparr>ar_invocation = invocation, ar_cancellation = token, ar_budget = b,
      ar_state = Ready, ar_accepted_candidates = []\<rparr>"
    by (auto simp: run_new_def result_simps)
  have "budget_inv b" using b by (intro budget_inv_initial) (auto simp: budget_initial_def)
  moreover have "ab_in_flight b = None" "ab_limits b = iv_limits invocation"
    using b by (auto simp: budget_new_def result_simps)
  moreover have "invocation_validate invocation = Inr ()"
    using new by (auto simp: run_new_def result_simps)
  ultimately show ?thesis by (simp add: agent_inv_def turn_agrees_def candidates_ok_def r)
qed

lemma agent_reachable_inv: "agent_reachable r \<Longrightarrow> agent_inv r"
  by (induction rule: agent_reachable.induct)
    (auto intro: agent_new_inv agent_effects_inv agent_do_effects)

end
