(* ===== verification/Agent_Protocol.thy ===== *)
theory Agent_Protocol
  imports Agent_Lifecycle Findings_Ranked
begin

text \<open>
  The properties of the agent run.  The specification is a counter of turns with three
  phases and four events; every call on the run makes exactly the events of
  \<open>call_events\<close>, which gives the refinement, and every accepted call that does
  something uses up a measure bounded by the limits of the invocation.
\<close>

section \<open>Which calls are accepted\<close>

fun agent_accepts :: "agent_call \<Rightarrow> agent_run \<Rightarrow> bool" where
  "agent_accepts (BeginTurn purpose res now) r = (\<not> isl (fst (begin_turn purpose res now r)))"
| "agent_accepts (FinishTurn turn use now) r = (\<not> isl (fst (finish_turn turn use now r)))"
| "agent_accepts (ProviderTurn json_size is_object adapter answer during request purpose res t1 t2) r =
     (\<not> isl (fst (complete_provider_turn json_size is_object adapter answer during request purpose res t1 t2 r)))"
| "agent_accepts (SubmitCandidate hook candidate) r = (\<not> isl (fst (submit_candidate hook candidate r)))"
| "agent_accepts (FinishRun summary omissions) r = (\<not> isl (fst (finish_run summary omissions r)))"
| "agent_accepts MakeStale r = (\<not> isl (fst (stale r)))"
| "agent_accepts (MakeBlocked reason) r = (\<not> isl (fst (blocked reason r)))"
| "agent_accepts (MakeFailed reason) r = (\<not> isl (fst (failed reason r)))"
| "agent_accepts MakeCancelled r = (\<not> isl (fst (cancelled r)))"
| "agent_accepts (CancelToken why) r = True"
| "agent_accepts (RunTool calls files bytes now) r =
     (\<not> isl (fst (charge_tool calls files bytes now (ar_budget r))))"

text \<open>The methods of \<open>AgentRun\<close>: not the shared token, nor a charge made on the ledger itself.\<close>

fun run_method :: "agent_call \<Rightarrow> bool" where
  "run_method (CancelToken _) = False"
| "run_method (RunTool _ _ _ _) = False"
| "run_method _ = True"

lemma finished_refuses:
  assumes "ar_state r = Finished" and "run_method call"
  shows "agent_do call r = r \<and> \<not> agent_accepts call r"
proof (cases call)
  case (BeginTurn purpose res now)
  then show ?thesis using assms
    by (auto simp: begin_turn_def require_not_cancelled_def reject_if_def)
next
  case (FinishTurn turn use now)
  then show ?thesis using assms
    by (auto simp: finish_turn_def require_not_cancelled_def reject_if_def)
next
  case (ProviderTurn json_size is_object adapter answer during request purpose res t1 t2)
  have "\<exists>e. begin_turn purpose res t1 r = (Inl e, r)"
    using assms by (auto simp: begin_turn_def require_not_cancelled_def reject_if_def)
  then show ?thesis using ProviderTurn
    by (cases "request_validate json_size is_object request")
      (auto simp: complete_provider_turn_def reject_if_def)
next
  case (FinishRun summary omissions)
  then show ?thesis using assms
    by (auto simp: finish_run_def require_not_cancelled_def reject_if_def)
qed (use assms in \<open>auto simp: submit_candidate_def stale_def blocked_def failed_def cancelled_def
       terminal_def reject_if_def\<close>)

lemma finished_stays:
  assumes "ar_state r = Finished"
  shows "ar_state (agent_do call r) = Finished \<and>
    ar_accepted_candidates (agent_do call r) = ar_accepted_candidates r"
proof (cases "run_method call")
  case True
  then show ?thesis using finished_refuses [OF assms] assms by simp
next
  case False
  then show ?thesis using assms by (cases call) simp_all
qed

section \<open>The turn protocol\<close>

text \<open>
  A turn is started when none is open, which counts it; an open turn is settled; a run is
  finished when no turn is open, and stopped when it is not done; done is for good.
\<close>

datatype phase = Idle | Busy | Done

type_synonym protocol = "nat \<times> phase"

datatype protocol_event = TurnStarted | TurnSettled | RunFinished | RunStopped

fun protocol_next :: "protocol_event \<Rightarrow> protocol \<Rightarrow> protocol option" where
  "protocol_next TurnStarted (n, Idle) = Some (n + 1, Busy)"
| "protocol_next TurnSettled (n, Busy) = Some (n, Idle)"
| "protocol_next RunFinished (n, Idle) = Some (n, Done)"
| "protocol_next RunStopped (n, Idle) = Some (n, Done)"
| "protocol_next RunStopped (n, Busy) = Some (n, Done)"
| "protocol_next _ _ = None"

fun protocol_run :: "protocol_event list \<Rightarrow> protocol \<Rightarrow> protocol option" where
  "protocol_run [] p = Some p"
| "protocol_run (e # es) p = (case protocol_next e p of None \<Rightarrow> None | Some q \<Rightarrow> protocol_run es q)"

text \<open>
  The events each call may make, by whether it is accepted.  A refused provider turn made
  none when it was refused before the turn began, both when the provider failed, and only
  the first when the turn could not be settled.
\<close>

fun call_events :: "agent_call \<Rightarrow> bool \<Rightarrow> protocol_event list list" where
  "call_events (BeginTurn _ _ _) True = [[TurnStarted]]"
| "call_events (FinishTurn _ _ _) True = [[TurnSettled]]"
| "call_events (ProviderTurn _ _ _ _ _ _ _ _ _ _) True = [[TurnStarted, TurnSettled]]"
| "call_events (ProviderTurn _ _ _ _ _ _ _ _ _ _) False = [[], [TurnStarted], [TurnStarted, TurnSettled]]"
| "call_events (FinishRun _ _) True = [[RunFinished]]"
| "call_events MakeStale True = [[RunStopped]]"
| "call_events (MakeBlocked _) True = [[RunStopped]]"
| "call_events (MakeFailed _) True = [[RunStopped]]"
| "call_events MakeCancelled True = [[RunStopped]]"
| "call_events _ _ = [[]]"

fun phase_of :: "agent_state \<Rightarrow> phase" where
  "phase_of Ready = Idle"
| "phase_of (TurnInFlight _) = Busy"
| "phase_of Finished = Done"

definition protocol_of :: "agent_run \<Rightarrow> protocol" where
  "protocol_of r = (unat (bu_turns (ab_usage (ar_budget r))), phase_of (ar_state r))"

lemma begun_turns:
  assumes "reservable res b"
  shows "unat (saturating_add (bu_turns (ab_usage b)) 1) = unat (bu_turns (ab_usage b)) + 1"
  using assms saturating_add_exact [of "bu_turns (ab_usage b)" 1 "bl_max_turns (ab_limits b)"]
  by (simp add: reservable_def fits_def)

lemma clock_protocol: "clock_moved (ar_budget r) b \<Longrightarrow> protocol_of (r\<lparr>ar_budget := b\<rparr>) = protocol_of r"
  using clock_moved_simps by (simp add: protocol_of_def)

lemma begin_turn_protocol:
  "protocol_run (if isl (fst (begin_turn purpose res now r)) then [] else [TurnStarted]) (protocol_of r) =
     Some (protocol_of (snd (begin_turn purpose res now r)))"
proof (cases rule: begin_turn_cases [of purpose res now r])
  case (refused e b)
  then show ?thesis by (simp add: clock_protocol)
next
  case (begun i)
  then show ?thesis by (simp add: protocol_of_def begun_turns)
qed

lemma finish_turn_protocol:
  "protocol_run (if isl (fst (finish_turn turn use now r)) then [] else [TurnSettled]) (protocol_of r) =
     Some (protocol_of (snd (finish_turn turn use now r)))"
proof (cases rule: finish_turn_cases [of turn use now r])
  case (refused e b)
  then show ?thesis by (simp add: clock_protocol)
next
  case (settled i q)
  then show ?thesis by (simp add: protocol_of_def)
qed

lemma abandon_turn_protocol:
  assumes "ar_state r = TurnInFlight i"
  obtains (kept) "protocol_of (snd (abandon_turn turn later e r)) = protocol_of r"
    | (settled) "protocol_run [TurnSettled] (protocol_of r) =
        Some (protocol_of (snd (abandon_turn turn later e r)))"
proof (cases rule: abandon_cases [of "at_request_id turn" later "ar_budget r"])
  case (refused x)
  then show thesis
    using kept clock_protocol [OF observe_time_moved] by (simp add: abandon_turn_def with_budget_def)
next
  case (settled q)
  then show thesis
    using that(2) assms by (simp add: abandon_turn_def with_budget_def protocol_of_def)
qed

lemma abandon_turn_refuses: "isl (fst (abandon_turn turn later e r))"
  by (cases rule: abandon_cases [of "at_request_id turn" later "ar_budget r"])
    (simp_all add: abandon_turn_def with_budget_def)

lemma submit_candidate_protocol: "protocol_of (snd (submit_candidate hook c r)) = protocol_of r"
proof (cases "ar_state r \<noteq> Finished \<and> submittable c r")
  case False
  then have "snd (submit_candidate hook c r) = r"
    by (cases "envelope_validate c")
      (auto simp: submit_candidate_def reject_if_def submittable_def with_budget_def charge_candidates_eq)
  then show ?thesis by simp
next
  case True
  then show ?thesis
    by (simp add: submit_candidate_def submittable_def with_budget_def charge_candidates_eq
        protocol_of_def Let_def split: admission.split)
qed

lemma finish_run_protocol:
  "protocol_run (if isl (fst (finish_run summary omissions r)) then [] else [RunFinished]) (protocol_of r) =
     Some (protocol_of (snd (finish_run summary omissions r)))"
  by (cases rule: finish_run_cases [of summary omissions r]) (simp_all add: protocol_of_def)

lemma terminal_protocol:
  "protocol_run (if isl (fst (terminal build r)) then [] else [RunStopped]) (protocol_of r) =
     Some (protocol_of (snd (terminal build r)))"
  by (cases "ar_state r") (simp_all add: terminal_def protocol_of_def)

lemma cancelled_protocol:
  "protocol_run (if isl (fst (cancelled r)) then [] else [RunStopped]) (protocol_of r) =
     Some (protocol_of (snd (cancelled r)))"
proof (cases "is_cancelled (ar_cancellation r)")
  case True
  then have "cancelled r = terminal CancelledReview r" by (simp add: cancelled_def)
  then show ?thesis by (simp only: terminal_protocol)
qed (simp add: cancelled_def)

lemma tool_protocol:
  "protocol_of (r\<lparr>ar_budget := snd (charge_tool calls files bytes now (ar_budget r))\<rparr>) = protocol_of r"
proof (cases rule: charge_tool_cases [of now "ar_budget r" calls files bytes])
  case (refused e)
  then show ?thesis using clock_protocol [OF observe_time_moved] by simp
next
  case charged
  then show ?thesis by (simp add: protocol_of_def)
qed

lemma protocol_run_append:
  "protocol_run es p = Some q \<Longrightarrow> protocol_run (es @ es') p = protocol_run es' q"
  by (induction es arbitrary: p) (auto split: option.splits)

lemma provider_turn_protocol:
  "\<exists>es \<in> set (call_events (ProviderTurn json_size is_object adapter answer during request purpose res t1 t2)
        (agent_accepts (ProviderTurn json_size is_object adapter answer during request purpose res t1 t2) r)).
     protocol_run es (protocol_of r) = Some (protocol_of (snd (complete_provider_turn json_size is_object
       adapter answer during request purpose res t1 t2 r)))"
proof (cases "request_validate json_size is_object request = Inr () \<and>
    adapter = iv_provider_adapter (ar_invocation r) \<and> mr_model request = iv_model_id (ar_invocation r)")
  case False
  then have "\<exists>e. complete_provider_turn json_size is_object adapter answer during request
      purpose res t1 t2 r = (Inl e, r)"
    by (cases "request_validate json_size is_object request")
      (auto simp: complete_provider_turn_def reject_if_def)
  then show ?thesis by auto
next
  case True
  show ?thesis
  proof (cases rule: begin_turn_cases [of purpose res t1 r])
    case (refused e b)
    then show ?thesis
      using True clock_protocol by (simp add: complete_provider_turn_def)
  next
    case (begun i)
    let ?turn = "\<lparr>at_turn_id = i, at_request_id = i, at_purpose = purpose\<rparr>"
    let ?r1 = "r\<lparr>ar_budget := reserve res (observed t1 (ar_budget r)), ar_state := TurnInFlight i\<rparr>"
    define r2 where "r2 = (case during of None \<Rightarrow> ?r1
        | Some why \<Rightarrow> ?r1\<lparr>ar_cancellation := cancel why (ar_cancellation ?r1)\<rparr>)"
    have same: "protocol_of r2 = protocol_of ?r1"
      by (simp add: r2_def protocol_of_def split: option.split)
    have start: "protocol_run (TurnStarted # es) (protocol_of r) = protocol_run es (protocol_of r2)" for es
      using begin_turn_protocol [of purpose res t1 r] begun
        protocol_run_append [of "[TurnStarted]" "protocol_of r" "protocol_of r2" es]
      by (simp add: same)
    have state: "ar_state r2 = TurnInFlight i" by (simp add: r2_def split: option.split)
    define outcome where "outcome = complete_provider_turn json_size is_object adapter answer during
        request purpose res t1 t2 r"
    have failing: "\<not> agent_accepts (ProviderTurn json_size is_object adapter answer during request
          purpose res t1 t2) r \<and>
        (protocol_of (snd outcome) = protocol_of r2 \<or>
         protocol_run [TurnSettled] (protocol_of r2) = Some (protocol_of (snd outcome)))"
      if "outcome = abandon_turn ?turn t2 e r2" for e
      using that abandon_turn_refuses [of ?turn t2 e r2] abandon_turn_protocol [OF state, of ?turn t2 e]
      unfolding outcome_def [symmetric] by (auto simp: outcome_def [symmetric])
    have ending: "if isl (fst outcome)
        then protocol_of (snd outcome) = protocol_of r2 \<or>
          protocol_run [TurnSettled] (protocol_of r2) = Some (protocol_of (snd outcome))
        else protocol_run [TurnSettled] (protocol_of r2) = Some (protocol_of (snd outcome))"
    proof (cases answer)
      case (Inl e)
      then have "outcome = abandon_turn ?turn t2 (ProviderFailed e) r2"
        using True begun(6) by (simp add: outcome_def complete_provider_turn_def Let_def r2_def)
      then show ?thesis using failing by (auto simp: abandon_turn_refuses)
    next
      case (Inr response)
      show ?thesis
      proof (cases "ms_model response = iv_model_id (ar_invocation r2)")
        case False
        then have "outcome = abandon_turn ?turn t2 ModelMismatch r2"
          using True begun(6) Inr by (simp add: outcome_def complete_provider_turn_def Let_def r2_def)
        then show ?thesis using failing by (auto simp: abandon_turn_refuses)
      next
        case True': True
        let ?use = "\<lparr>ru_input_tokens = mu_input_tokens (ms_usage response),
            ru_output_tokens = mu_output_tokens (ms_usage response), ru_cost_microusd = rs_cost_microusd res\<rparr>"
        have "isl (fst outcome) = isl (fst (finish_turn ?turn ?use t2 r2)) \<and>
            snd outcome = snd (finish_turn ?turn ?use t2 r2)"
          using True begun(6) Inr True'
          by (simp add: outcome_def complete_provider_turn_def Let_def r2_def split: prod.split sum.split)
        then show ?thesis using finish_turn_protocol [of ?turn ?use t2 r2] by (auto split: if_splits)
      qed
    qed
    show ?thesis
      using ending start [of "[]"] start [of "[TurnSettled]"]
      by (auto simp: outcome_def [symmetric] split: if_splits)
  qed
qed

lemma call_protocol:
  "\<exists>es \<in> set (call_events call (agent_accepts call r)).
     protocol_run es (protocol_of r) = Some (protocol_of (agent_do call r))"
proof (cases call)
  case (BeginTurn purpose res now)
  then show ?thesis using begin_turn_protocol [of purpose res now r] by (auto split: if_splits)
next
  case (FinishTurn turn use now)
  then show ?thesis using finish_turn_protocol [of turn use now r] by (auto split: if_splits)
next
  case (ProviderTurn json_size is_object adapter answer during request purpose res t1 t2)
  then show ?thesis using provider_turn_protocol by (simp only: agent_do.simps)
next
  case (FinishRun summary omissions)
  then show ?thesis using finish_run_protocol [of summary omissions r] by (auto split: if_splits)
next
  case MakeStale
  then show ?thesis using terminal_protocol [of StaleReview r] by (auto simp: stale_def split: if_splits)
next
  case (MakeBlocked reason)
  then show ?thesis using terminal_protocol [of "BlockedReview reason" r]
    by (auto simp: blocked_def split: if_splits)
next
  case (MakeFailed reason)
  then show ?thesis using terminal_protocol [of "FailedReview reason" r]
    by (auto simp: failed_def split: if_splits)
next
  case MakeCancelled
  then show ?thesis using cancelled_protocol [of r] by (auto split: if_splits)
next
  case (CancelToken why)
  then show ?thesis by (simp add: protocol_of_def)
qed (simp_all add: submit_candidate_protocol tool_protocol)

section \<open>The measure\<close>

text \<open>Each event of the protocol uses up fuel while the turns stay below a bound.\<close>

fun protocol_fuel :: "nat \<Rightarrow> protocol \<Rightarrow> nat" where
  "protocol_fuel m (n, Idle) = 2 * (m - n) + 1"
| "protocol_fuel m (n, Busy) = 2 * (m - n) + 2"
| "protocol_fuel m (n, Done) = 0"

lemma protocol_next_fuel:
  "protocol_next e p = Some q \<Longrightarrow> fst q \<le> m \<Longrightarrow> protocol_fuel m q < protocol_fuel m p"
  by (cases "(e, p)" rule: protocol_next.cases) auto

lemma protocol_next_count: "protocol_next e p = Some q \<Longrightarrow> fst p \<le> fst q"
  by (cases "(e, p)" rule: protocol_next.cases) auto

lemma protocol_run_count: "protocol_run es p = Some q \<Longrightarrow> fst p \<le> fst q"
proof (induction es arbitrary: p)
  case (Cons e es)
  then obtain p' where "protocol_next e p = Some p'" "protocol_run es p' = Some q"
    by (auto split: option.splits)
  then show ?case using Cons.IH [of p'] protocol_next_count [of e p p'] by simp
qed simp

lemma protocol_run_fuel:
  "protocol_run es p = Some q \<Longrightarrow> fst q \<le> m \<Longrightarrow> protocol_fuel m q + length es \<le> protocol_fuel m p"
proof (induction es arbitrary: p)
  case (Cons e es)
  then obtain p' where step: "protocol_next e p = Some p'" and rest: "protocol_run es p' = Some q"
    by (auto split: option.splits)
  have "fst p' \<le> m" using protocol_run_count [OF rest] Cons.prems(2) by simp
  then have "protocol_fuel m p' < protocol_fuel m p" using protocol_next_fuel [OF step] by simp
  then show ?case using Cons.IH [OF rest Cons.prems(2)] by simp
qed simp

definition turn_limit :: "agent_run \<Rightarrow> nat" where
  "turn_limit r = unat (bl_max_turns (iv_limits (ar_invocation r)))"

definition run_fuel :: "agent_run \<Rightarrow> nat" where
  "run_fuel r = protocol_fuel (turn_limit r) (protocol_of r)"

definition tool_room :: "agent_run \<Rightarrow> nat" where
  "tool_room r = unat (bl_max_tool_calls (iv_limits (ar_invocation r))) -
     unat (bu_tool_calls (ab_usage (ar_budget r)))"

definition finding_room :: "agent_run \<Rightarrow> nat" where
  "finding_room r = unat (bl_max_candidate_findings (iv_limits (ar_invocation r))) -
     unat (bu_candidate_findings (ab_usage (ar_budget r)))"

definition work_left :: "agent_run \<Rightarrow> nat" where
  "work_left r = run_fuel r + tool_room r + finding_room r"

lemma turns_below: "agent_inv r \<Longrightarrow> fst (protocol_of r) \<le> turn_limit r"
proof -
  assume inv: "agent_inv r"
  then have "bu_turns (ab_usage (ar_budget r)) \<le> bl_max_turns (ab_limits (ar_budget r))"
    unfolding agent_inv_def budget_inv_def within_limits_def Let_def by blast
  then show ?thesis
    using inv by (simp add: agent_inv_def protocol_of_def turn_limit_def word_le_nat_alt)
qed

lemma effect_invocation: "agent_effect r r' \<Longrightarrow> ar_invocation r' = ar_invocation r"
  by (induction rule: agent_effect.induct) auto

lemma agent_do_invocation: "ar_invocation (agent_do call r) = ar_invocation r"
  using agent_do_effects [of r call] by (induction rule: rtranclp_induct) (auto dest: effect_invocation)

lemma call_inv: "agent_inv r \<Longrightarrow> agent_inv (agent_do call r)"
  using agent_effects_inv agent_do_effects by blast

lemma call_fuel:
  assumes "agent_inv r" and "protocol_run es (protocol_of r) = Some (protocol_of (agent_do call r))"
  shows "run_fuel (agent_do call r) + length es \<le> run_fuel r"
proof -
  have limit: "turn_limit (agent_do call r) = turn_limit r"
    by (simp add: turn_limit_def agent_do_invocation)
  have "fst (protocol_of (agent_do call r)) \<le> turn_limit r"
    using turns_below [OF call_inv [OF assms(1)], of call] limit by simp
  then show ?thesis using protocol_run_fuel [OF assms(2)] by (simp add: run_fuel_def limit)
qed

lemma clock_counters:
  assumes "clock_moved b b'"
  shows "bu_tool_calls (ab_usage b') = bu_tool_calls (ab_usage b)"
  using assms by (auto simp: clock_moved_def)

lemma saturating_add_grows: "unat a \<le> unat (saturating_add a b)" for a b :: "'w::len word"
  using saturating_add_ge [of a b] by (simp add: word_le_nat_alt)

lemma effect_counters:
  "agent_effect r r' \<Longrightarrow>
     unat (bu_tool_calls (ab_usage (ar_budget r))) \<le> unat (bu_tool_calls (ab_usage (ar_budget r'))) \<and>
     unat (bu_candidate_findings (ab_usage (ar_budget r)))
       \<le> unat (bu_candidate_findings (ab_usage (ar_budget r')))"
proof (induction rule: agent_effect.induct)
  case (clock r b)
  then show ?case using clock_moved_simps(3) clock_counters by simp
next
  case (settled r i now q input out cost)
  then show ?case by (simp add: settle_def Let_def)
next
  case (begun r now res)
  then show ?case by (simp add: reserve_def Let_def)
qed (simp_all add: candidates_charged_def tool_charged_def saturating_add_grows)

lemma effect_rooms:
  "agent_effect r r' \<Longrightarrow> tool_room r' \<le> tool_room r \<and> finding_room r' \<le> finding_room r"
  using effect_counters [of r r'] effect_invocation [of r r']
  by (simp add: tool_room_def finding_room_def diff_le_mono2)

lemma call_rooms: "tool_room (agent_do call r) \<le> tool_room r \<and> finding_room (agent_do call r) \<le> finding_room r"
  using agent_do_effects [of r call]
  by (induction rule: rtranclp_induct) (auto dest!: effect_rooms intro: le_trans)

text \<open>Runs of several calls.\<close>

definition agent_calls :: "agent_call list \<Rightarrow> agent_run \<Rightarrow> agent_run" where
  "agent_calls = fold agent_do"

lemma agent_calls_effects: "agent_effects r (agent_calls calls r)"
proof (induction calls arbitrary: r)
  case (Cons call calls)
  show ?case using rtranclp_trans [OF agent_do_effects Cons] by (simp add: agent_calls_def)
qed (simp add: agent_calls_def)

lemma agent_calls_reachable: "agent_reachable r \<Longrightarrow> agent_reachable (agent_calls calls r)"
  by (induction calls arbitrary: r) (auto simp: agent_calls_def intro: agent_call)

fun lifecycle_changes :: "agent_call list \<Rightarrow> agent_run \<Rightarrow> nat" where
  "lifecycle_changes [] r = 0"
| "lifecycle_changes (call # calls) r =
     (if protocol_of (agent_do call r) = protocol_of r then 0 else 1) +
     lifecycle_changes calls (agent_do call r)"

text \<open>
  Accepted calls that do something.  Cancelling the token, submitting an envelope without
  findings and charging no tool call are accepted without using up a limit.
\<close>

fun idle_call :: "agent_call \<Rightarrow> bool" where
  "idle_call (CancelToken _) = True"
| "idle_call (SubmitCandidate _ c) = (en_findings c = [])"
| "idle_call (RunTool calls _ _ _) = (calls = 0)"
| "idle_call _ = False"

fun working_calls :: "agent_call list \<Rightarrow> agent_run \<Rightarrow> nat" where
  "working_calls [] r = 0"
| "working_calls (call # calls) r =
     (if agent_accepts call r \<and> \<not> idle_call call then 1 else 0) +
     working_calls calls (agent_do call r)"

lemma submit_uses:
  assumes "agent_inv r" and "\<not> isl (fst (submit_candidate hook c r))" and "en_findings c \<noteq> []"
  shows "finding_room (snd (submit_candidate hook c r)) < finding_room r"
proof -
  have sub: "submittable c r" and active: "ar_state r \<noteq> Finished"
    using assms(2) by (cases "envelope_validate c";
      auto simp: submit_candidate_def reject_if_def submittable_def with_budget_def charge_candidates_eq
        split: if_splits)+
  let ?b = "candidates_charged (clamp_word (length (en_findings c))) (ar_budget r)"
  have "ar_budget (snd (submit_candidate hook c r)) = ?b \<and>
      ar_invocation (snd (submit_candidate hook c r)) = ar_invocation r"
    using sub active by (simp add: submit_candidate_def submittable_def with_budget_def
        charge_candidates_eq candidates_charged_def Let_def split: admission.split)
  moreover have "unat (bu_candidate_findings (ab_usage ?b)) =
      unat (bu_candidate_findings (ab_usage (ar_budget r))) + length (en_findings c)"
    by (rule charged_exactly [OF sub])
  moreover have "unat (bu_candidate_findings (ab_usage ?b))
      \<le> unat (bl_max_candidate_findings (iv_limits (ar_invocation r)))"
  proof -
    have "budget_inv ?b" using candidates_charged_inv [OF sub] assms(1) by (simp add: agent_inv_def)
    then have "bu_candidate_findings (ab_usage ?b) \<le> bl_max_candidate_findings (ab_limits ?b)"
      unfolding budget_inv_def within_limits_def Let_def by blast
    then show ?thesis using assms(1) by (simp add: agent_inv_def word_le_nat_alt)
  qed
  moreover obtain n where "length (en_findings c) = Suc n"
    using assms(3) by (cases "en_findings c") auto
  ultimately show ?thesis by (simp add: finding_room_def)
qed

lemma tool_uses:
  assumes "agent_inv r" and "\<not> isl (fst (charge_tool calls files bytes now (ar_budget r)))" and "calls \<noteq> 0"
  shows "tool_room (r\<lparr>ar_budget := snd (charge_tool calls files bytes now (ar_budget r))\<rparr>) < tool_room r"
proof (cases rule: charge_tool_cases [of now "ar_budget r" calls files bytes])
  case (refused e)
  then show ?thesis using assms(2) by simp
next
  case charged
  have "unat (bu_tool_calls (ab_usage (ar_budget r))) + unat calls
      \<le> unat (bl_max_tool_calls (iv_limits (ar_invocation r)))"
    using charged(2) assms(1) by (simp add: chargeable_def fits_def agent_inv_def)
  moreover from this have "unat (saturating_add (bu_tool_calls (ab_usage (ar_budget r))) calls) =
      unat (bu_tool_calls (ab_usage (ar_budget r))) + unat calls"
    by (rule saturating_add_exact)
  moreover have "0 < unat calls" using assms(3) by (simp add: unat_gt_0)
  ultimately show ?thesis using charged(3) by (simp add: tool_room_def tool_charged_def)
qed

lemma working_uses:
  assumes "agent_inv r" and "agent_accepts call r" and "\<not> idle_call call"
  shows "work_left (agent_do call r) < work_left r"
proof -
  obtain es where es: "es \<in> set (call_events call True)"
    "protocol_run es (protocol_of r) = Some (protocol_of (agent_do call r))"
    using call_protocol [of call r] assms(2) by auto
  note fuel = call_fuel [OF assms(1) es(2)]
  consider (submit) hook c where "call = SubmitCandidate hook c"
    | (tool) calls files bytes now where "call = RunTool calls files bytes now"
    | (turn) "es \<noteq> []"
    using es(1) assms(3) by (cases call) auto
  then show ?thesis
  proof cases
    case submit
    then have "finding_room (agent_do call r) < finding_room r" using assms submit_uses by simp
    then show ?thesis using fuel call_rooms [of call r] by (simp add: work_left_def)
  next
    case tool
    then have "tool_room (agent_do call r) < tool_room r" using assms tool_uses by simp
    then show ?thesis using fuel call_rooms [of call r] by (simp add: work_left_def)
  next
    case turn
    then have "run_fuel (agent_do call r) < run_fuel r" using fuel by (cases es) auto
    then show ?thesis using call_rooms [of call r] by (simp add: work_left_def)
  qed
qed

lemma call_uses: "agent_inv r \<Longrightarrow> work_left (agent_do call r) \<le> work_left r"
  using call_protocol [of call r] call_fuel [of r _ call] call_rooms [of call r]
  by (fastforce simp: work_left_def)

lemma working_calls_left: "agent_inv r \<Longrightarrow> working_calls calls r \<le> work_left r"
proof (induction calls arbitrary: r)
  case (Cons call calls)
  have "working_calls calls (agent_do call r) \<le> work_left (agent_do call r)"
    using Cons.IH [OF call_inv [OF Cons.prems]] .
  then show ?case using call_uses [OF Cons.prems, of call] working_uses [OF Cons.prems, of call] by auto
qed simp

lemma lifecycle_changes_fuel: "agent_inv r \<Longrightarrow> lifecycle_changes calls r \<le> run_fuel r"
proof (induction calls arbitrary: r)
  case (Cons call calls)
  obtain es where es: "protocol_run es (protocol_of r) = Some (protocol_of (agent_do call r))"
    using call_protocol [of call r] by auto
  have "protocol_of (agent_do call r) \<noteq> protocol_of r \<Longrightarrow> es \<noteq> []" using es by auto
  then have "(if protocol_of (agent_do call r) = protocol_of r then 0 else 1) \<le> length es"
    by (cases es) auto
  moreover have "lifecycle_changes calls (agent_do call r) \<le> run_fuel (agent_do call r)"
    using Cons.IH [OF call_inv [OF Cons.prems]] .
  ultimately show ?case using call_fuel [OF Cons.prems es] by simp
qed simp

lemma cancelled_effect:
  "agent_effect r r' \<Longrightarrow> is_cancelled (ar_cancellation r) \<Longrightarrow>
     is_cancelled (ar_cancellation r') \<and>
     bu_turns (ab_usage (ar_budget r')) = bu_turns (ab_usage (ar_budget r))"
  by (induction rule: agent_effect.induct) (auto dest: clock_moved_simps)

lemma cancelled_effects:
  "agent_effects r r' \<Longrightarrow> is_cancelled (ar_cancellation r) \<Longrightarrow>
     is_cancelled (ar_cancellation r') \<and>
     bu_turns (ab_usage (ar_budget r')) = bu_turns (ab_usage (ar_budget r))"
  by (induction rule: rtranclp_induct) (auto dest: cancelled_effect)

lemma run_new_protocol:
  "run_new invocation token t = Inr r \<Longrightarrow> protocol_of r = (0, Idle) \<and> ar_invocation r = invocation"
  by (auto simp: run_new_def budget_new_def zero_budget_usage_def protocol_of_def result_simps)

section \<open>Properties\<close>

definition sample_invocation :: review_invocation where
  "sample_invocation = \<lparr>iv_review_id = ''r1'', iv_snapshot = Local \<lparr>
       li_repository_identity_sha256 = ''d'', li_base_sha = ''b'', li_head_sha = ''h'',
       li_working_tree_sha256 = ''w'', li_exact_diff_manifest_sha256 = ''m''\<rparr>,
     iv_work_unit_ids = [''u1''], iv_provider_adapter = ''direct'', iv_model_id = ''m1'',
     iv_allowed_tools = [SubmitCandidateFinding], iv_limits = default_budget_limits\<rparr>"

definition sample_run :: agent_run where
  "sample_run = \<lparr>ar_invocation = sample_invocation, ar_cancellation = None,
     ar_budget = sample_fresh, ar_state = Ready, ar_accepted_candidates = []\<rparr>"

lemma sample_run_new: "run_new sample_invocation None 100 = Inr sample_run"
  by (simp add: run_new_def sample_run_def sample_invocation_def invocation_validate_def
      agent_label_def is_ascii_alphanumeric_def is_ascii_lowercase_def is_ascii_uppercase_def
      is_ascii_digit_def max_label_bytes_def max_work_units_def budget_new_def sample_fresh_def
      default_budget_limits_def budget_limits_validate_def)

text \<open>
  \<^bold>\<open>C12.\<close>  Whatever calls are made, and whatever the provider answers, the lifecycle
  state agrees with the ledger: there is a request in flight when a turn is, with the id
  of that turn, and none when the run is ready; and the ledger's own invariant holds.  A
  finished run refuses every method and is left as it was; it stays finished, with the same
  candidates, whatever is called.  (The shared token can still be cancelled and the
  ledger, reached through \<open>budget_mut\<close>, still be charged.)
\<close>

theorem run_agrees_with_ledger:
  assumes "agent_reachable r"
  shows "(ar_state r = Ready \<longrightarrow> ab_in_flight (ar_budget r) = None) \<and>
    (\<forall>i. ar_state r = TurnInFlight i \<longrightarrow> (\<exists>q. ab_in_flight (ar_budget r) = Some q \<and> if_id q = i)) \<and>
    within_limits (ar_budget r) \<and> ab_limits (ar_budget r) = iv_limits (ar_invocation r) \<and>
    (ar_state r = Finished \<longrightarrow>
      (\<forall>call. run_method call \<longrightarrow> agent_do call r = r \<and> \<not> agent_accepts call r) \<and>
      (\<forall>call. ar_state (agent_do call r) = Finished \<and>
        ar_accepted_candidates (agent_do call r) = ar_accepted_candidates r))"
  using agent_reachable_inv [OF assms] finished_refuses [of r] finished_stays [of r]
  by (auto simp: agent_inv_def turn_agrees_def budget_inv_def)

theorem run_agrees_with_ledger_witness:
  "within_limits (ar_budget (agent_calls [BeginTurn InitialReview sample_reservation 200] sample_run)) \<and>
   \<not> agent_accepts (SubmitCandidate admit_all sample_envelope) (agent_do MakeStale sample_run)"
proof -
  have "ar_state (agent_do MakeStale sample_run) = Finished"
    by (simp add: stale_def terminal_def sample_run_def)
  moreover have "run_method (SubmitCandidate admit_all sample_envelope)" by simp
  ultimately show ?thesis
    using run_agrees_with_ledger [OF agent_calls_reachable [OF agent_new [OF sample_run_new]]]
      run_agrees_with_ledger [OF agent_call [OF agent_new [OF sample_run_new]]] by blast
qed

text \<open>
  \<^bold>\<open>C13.\<close>  The agent run refines the turn protocol.  A new run is idle with no turn
  started, and after any calls, the next call makes in the protocol exactly the events that
  \<open>call_events\<close> lists for it.  An accepted begin starts one turn, and only when none is
  open; an accepted settlement closes the open turn; an accepted provider turn does both,
  and one that is refused may leave its turn open or settled; an accepted finish needs an
  idle run; the other endings need one that is not done; no other call, and no other
  refused call, moves the protocol.
\<close>

theorem run_refines_protocol:
  assumes "run_new invocation token t = Inr r"
  shows "protocol_of r = (0, Idle) \<and>
    (\<exists>es \<in> set (call_events call (agent_accepts call (agent_calls calls r))).
       protocol_run es (protocol_of (agent_calls calls r)) =
         Some (protocol_of (agent_do call (agent_calls calls r))))"
  using run_new_protocol [OF assms] call_protocol [of call "agent_calls calls r"] by simp

theorem run_refines_protocol_witness:
  "\<exists>es \<in> set (call_events MakeStale (agent_accepts MakeStale
       (agent_calls [BeginTurn InitialReview sample_reservation 200] sample_run))).
     protocol_run es (protocol_of (agent_calls [BeginTurn InitialReview sample_reservation 200] sample_run)) =
       Some (protocol_of (agent_do MakeStale
         (agent_calls [BeginTurn InitialReview sample_reservation 200] sample_run)))"
  using run_refines_protocol [OF sample_run_new] by blast

text \<open>
  \<^bold>\<open>C14.\<close>  The review loop ends.  However many calls are made, at most twice the turn
  limit plus one of them change the lifecycle (start a turn, settle it, close the run), and
  the accepted calls that do something (all but cancellations of the token, submissions
  without findings and charges of no tool call) are at most that many, plus the tool call
  limit, plus the candidate limit.
\<close>

theorem review_loop_terminates:
  assumes "run_new invocation token t = Inr r"
  shows "lifecycle_changes calls r \<le> 2 * unat (bl_max_turns (iv_limits invocation)) + 1 \<and>
    working_calls calls r \<le> 2 * unat (bl_max_turns (iv_limits invocation)) + 1 +
      unat (bl_max_tool_calls (iv_limits invocation)) +
      unat (bl_max_candidate_findings (iv_limits invocation))"
  using lifecycle_changes_fuel [OF agent_new_inv [OF assms], of calls]
    working_calls_left [OF agent_new_inv [OF assms], of calls] run_new_protocol [OF assms]
  by (auto simp: run_fuel_def turn_limit_def work_left_def tool_room_def finding_room_def)

theorem review_loop_terminates_witness:
  "lifecycle_changes (replicate 3 (BeginTurn InitialReview sample_reservation 200)) sample_run
     \<le> 2 * unat (bl_max_turns default_budget_limits) + 1"
  using review_loop_terminates [OF sample_run_new] by (simp add: sample_invocation_def)

text \<open>
  \<^bold>\<open>C15.\<close>  What a run reports when it finishes: its invocation is valid, and it reports
  only candidates that were valid envelopes for authorized work units, submitted by an
  allowed tool, at most one per unit, with no more findings in all than the candidate
  limit; it reports a complete review only without omissions, and only a run that was not
  cancelled and has no turn in flight finishes.
\<close>

theorem finished_reviews_are_authorized:
  assumes "agent_reachable r" and "finish_run summary omissions r = (Inr out, r')"
  shows "invocation_validate (ar_invocation r) = Inr () \<and>
    (\<exists>fs. list_all (\<lambda>c. envelope_validate c = Inr () \<and>
        en_work_unit_id c \<in> set (iv_work_unit_ids (ar_invocation r))) fs \<and>
      (fs \<noteq> [] \<longrightarrow> allows (ar_invocation r) SubmitCandidateFinding) \<and>
      distinct (map en_work_unit_id fs) \<and>
      (\<Sum>c \<leftarrow> fs. length (en_findings c)) \<le> unat (bl_max_candidate_findings (iv_limits (ar_invocation r))) \<and>
      out = (if fs = [] then NoFindings summary omissions (ab_usage (ar_budget r))
        else if omissions = [] then CompleteReview fs summary (ab_usage (ar_budget r))
        else PartialReview fs summary omissions (ab_usage (ar_budget r))) \<and>
      \<not> is_cancelled (ar_cancellation r) \<and> ar_state r = Ready \<and> ar_state r' = Finished)"
proof (cases rule: finish_run_cases [of summary omissions r])
  case (refused e)
  then show ?thesis using assms(2) by simp
next
  case (finished out')
  have inv: "agent_inv r" by (rule agent_reachable_inv [OF assms(1)])
  then have ok: "candidates_ok r" and valid: "invocation_validate (ar_invocation r) = Inr ()"
    by (simp_all add: agent_inv_def)
  have "bu_candidate_findings (ab_usage (ar_budget r)) \<le> bl_max_candidate_findings (iv_limits (ar_invocation r))"
    using inv unfolding agent_inv_def budget_inv_def within_limits_def Let_def by force
  then have "(\<Sum>c \<leftarrow> ar_accepted_candidates r. length (en_findings c))
      \<le> unat (bl_max_candidate_findings (iv_limits (ar_invocation r)))"
    using ok by (simp add: candidates_ok_def word_le_nat_alt)
  then show ?thesis
    using ok valid finished assms(2)
    by (intro conjI exI [of _ "ar_accepted_candidates r"]) (auto simp: candidates_ok_def)
qed

text \<open>A run that submits one candidate, with two findings, and finishes with it.\<close>

definition sample_submitted :: agent_run where
  "sample_submitted = agent_do (SubmitCandidate admit_all sample_envelope) sample_run"

lemma sample_submitted_eq:
  "sample_submitted = sample_run
     \<lparr>ar_budget := candidates_charged 2 sample_fresh, ar_accepted_candidates := [sample_envelope]\<rparr>"
proof -
  have sub: "submittable sample_envelope sample_run"
    using sample_envelope_valid
    by (simp add: submittable_def sample_run_def sample_invocation_def allows_def sample_envelope_def
        fits_def clamp_word_def sample_fresh_def zero_budget_usage_def default_budget_limits_def)
  have two: "clamp_word (length (en_findings sample_envelope)) = (2 :: u32)"
    by (simp add: sample_envelope_def clamp_word_def)
  show ?thesis
    using sub two unfolding sample_submitted_def submittable_def
    by (simp add: submit_candidate_def with_budget_def charge_candidates_eq
        candidates_charged_def admit_all_def sample_run_def)
qed

theorem finished_reviews_are_authorized_witness:
  "\<exists>use r'. finish_run ''done'' [] sample_submitted =
      (Inr (CompleteReview [sample_envelope] ''done'' use), r') \<and>
    invocation_validate (ar_invocation sample_submitted) = Inr () \<and> ar_state r' = Finished"
proof -
  have "finish_run ''done'' [] sample_submitted =
      (Inr (CompleteReview [sample_envelope] ''done'' (ab_usage (candidates_charged 2 sample_fresh))),
       sample_submitted\<lparr>ar_state := Finished, ar_accepted_candidates := []\<rparr>)"
    by (simp add: sample_submitted_eq finish_run_def require_not_cancelled_def sample_run_def
        is_cancelled_def max_agent_summary_bytes_def max_omissions_def blank_def
        char_is_whitespace_def Let_def)
  moreover have "agent_reachable sample_submitted"
    unfolding sample_submitted_def by (rule agent_call [OF agent_new [OF sample_run_new]])
  ultimately show ?thesis using finished_reviews_are_authorized by blast
qed

text \<open>
  \<^bold>\<open>C16.\<close>  Cancellation is final: once the token is cancelled, no later calls start
  another turn, and finishing the run, beginning a turn and settling one are refused as
  cancelled.
\<close>

theorem cancelled_run_never_succeeds:
  assumes "is_cancelled (ar_cancellation r)"
  shows "bu_turns (ab_usage (ar_budget (agent_calls calls r))) = bu_turns (ab_usage (ar_budget r)) \<and>
    fst (finish_run summary omissions (agent_calls calls r)) = Inl RunCancelled \<and>
    fst (begin_turn purpose res now (agent_calls calls r)) = Inl RunCancelled \<and>
    fst (finish_turn turn use now (agent_calls calls r)) = Inl RunCancelled"
  using cancelled_effects [OF agent_calls_effects assms, of calls]
  by (simp add: finish_run_def begin_turn_def finish_turn_def require_not_cancelled_def)

theorem cancelled_run_never_succeeds_witness:
  "fst (finish_run ''done'' [] (agent_calls [MakeBlocked Configuration] (agent_do (CancelToken Deadline) sample_run)))
     = Inl RunCancelled"
proof -
  have "is_cancelled (ar_cancellation (agent_do (CancelToken Deadline) sample_run))" by simp
  then show ?thesis using cancelled_run_never_succeeds by blast
qed

end
