(* ===== verification/Publication.thy ===== *)
theory Publication
  imports Anchors Text_Search
begin

text \<open>
  Publication planning, the first part of \<open>crates/revoot-core/src/publication.rs\<close>:
  markers, candidates, the discussion inventory, the create-or-nothing plan and its replay.

  Outside the model: SHA-256 and the JSON encodings \<open>serde_json\<close> gives a target, a
  snapshot identity and the plan's digest view.  They are the fields of a \<open>codec\<close>, and
  nothing is assumed of them.  The \<open>expect\<close> of \<open>prepare_publication\<close> is a panic.
\<close>

section \<open>Markers\<close>

definition publication_marker_prefix :: string where
  "publication_marker_prefix = ''<!-- revoot:v1 ''"

definition marker_suffix :: string where "marker_suffix = '' -->''"

definition lineage_marker_prefix :: string where
  "lineage_marker_prefix = ''<!-- revoot:lineage-v1 ''"

definition max_comment_bytes :: nat where "max_comment_bytes = 16 * 1024"
definition max_candidates :: nat where "max_candidates = 1000"
definition max_existing_notes :: nat where "max_existing_notes = 100000"

datatype publication_target = Inline anchor_id | Summary

record candidate =
  pc_target :: publication_target
  pc_body :: string

datatype target_kind = InlineKind | SummaryKind

record publication_marker =
  pm_scope_sha256 :: sha256_digest
  pm_fingerprint_sha256 :: sha256_digest
  pm_target_kind :: target_kind

record lineage_marker =
  lm_lineage_sha256 :: sha256_digest
  lm_occurrence_sha256 :: sha256_digest
  lm_reviewed_head :: git_sha
  lm_evidence_sha256 :: sha256_digest

definition lineage_new ::
    "hasher \<Rightarrow> sha256_digest \<Rightarrow> git_sha \<Rightarrow> sha256_digest \<Rightarrow> lineage_marker" where
  "lineage_new sha lineage head evidence =
     \<lparr>lm_lineage_sha256 = lineage,
      lm_occurrence_sha256 =
        sha (hash_fields [''revoot-finding-occurrence-v1'', lineage, head, evidence]),
      lm_reviewed_head = head, lm_evidence_sha256 = evidence\<rparr>"

definition lineage_render :: "lineage_marker \<Rightarrow> string" where
  "lineage_render m =
     lineage_marker_prefix @ ''lineage='' @ lm_lineage_sha256 m @ '' occurrence='' @
     lm_occurrence_sha256 m @ '' head='' @ lm_reviewed_head m @ '' evidence='' @
     lm_evidence_sha256 m @ marker_suffix"

text \<open>\<open>.ok()\<close> on a \<open>Result\<close>.\<close>

definition ok :: "'e + 'a \<Rightarrow> 'a option" where
  "ok r = (case r of Inl _ \<Rightarrow> None | Inr x \<Rightarrow> Some x)"

lemma ok_simps [simp]: "ok (Inl e) = None" "ok (Inr x) = Some x" "ok r = Some x \<longleftrightarrow> r = Inr x"
  by (cases r; simp add: ok_def)+

definition marker_content :: "string \<Rightarrow> string \<Rightarrow> string option" where
  "marker_content start value =
     Option.bind (strip_prefix start value) (strip_suffix marker_suffix)"

definition lineage_parse :: "hasher \<Rightarrow> string \<Rightarrow> lineage_marker option" where
  "lineage_parse sha value =
     Option.bind (marker_content lineage_marker_prefix value) (\<lambda>content.
     case split_on CHR '' '' content of
       [p1, p2, p3, p4] \<Rightarrow>
         Option.bind (strip_prefix ''lineage='' p1) (\<lambda>lineage.
         Option.bind (strip_prefix ''occurrence='' p2) (\<lambda>occurrence.
         Option.bind (strip_prefix ''head='' p3) (\<lambda>head.
         Option.bind (strip_prefix ''evidence='' p4) (\<lambda>evidence.
         Option.bind (ok (sha256_digest_try_from lineage)) (\<lambda>lineage.
         Option.bind (ok (sha256_digest_try_from occurrence)) (\<lambda>occurrence.
         Option.bind (ok (git_sha_try_from head)) (\<lambda>head.
         Option.bind (ok (sha256_digest_try_from evidence)) (\<lambda>evidence.
         if occurrence = lm_occurrence_sha256 (lineage_new sha lineage head evidence)
         then Some \<lparr>lm_lineage_sha256 = lineage, lm_occurrence_sha256 = occurrence,
           lm_reviewed_head = head, lm_evidence_sha256 = evidence\<rparr>
         else None))))))))
     | _ \<Rightarrow> None)"

text \<open>\<open>filter_map(parse)\<close>, and its sole element.\<close>

definition sole :: "'a list \<Rightarrow> 'a option" where
  "sole xs = (case xs of [x] \<Rightarrow> Some x | _ \<Rightarrow> None)"

definition lineage_from_body :: "hasher \<Rightarrow> string \<Rightarrow> lineage_marker option" where
  "lineage_from_body sha body = sole (List.map_filter (lineage_parse sha) (str_lines body))"

fun target_kind_name :: "target_kind \<Rightarrow> string" where
  "target_kind_name InlineKind = ''inline''"
| "target_kind_name SummaryKind = ''summary''"

definition marker_render :: "publication_marker \<Rightarrow> string" where
  "marker_render m =
     publication_marker_prefix @ ''scope='' @ pm_scope_sha256 m @ '' fingerprint='' @
     pm_fingerprint_sha256 m @ '' kind='' @ target_kind_name (pm_target_kind m) @ marker_suffix"

definition target_kind_parse :: "string \<Rightarrow> target_kind option" where
  "target_kind_parse kind =
     (if kind = ''inline'' then Some InlineKind
      else if kind = ''summary'' then Some SummaryKind else None)"

definition marker_parse :: "string \<Rightarrow> publication_marker option" where
  "marker_parse value =
     Option.bind (marker_content publication_marker_prefix value) (\<lambda>content.
     case split_on CHR '' '' content of
       [p1, p2, p3] \<Rightarrow>
         Option.bind (strip_prefix ''scope='' p1) (\<lambda>scope.
         Option.bind (strip_prefix ''fingerprint='' p2) (\<lambda>fingerprint.
         Option.bind (strip_prefix ''kind='' p3) (\<lambda>kind.
         Option.bind (ok (sha256_digest_try_from scope)) (\<lambda>scope.
         Option.bind (ok (sha256_digest_try_from fingerprint)) (\<lambda>fingerprint.
         Option.bind (target_kind_parse kind) (\<lambda>kind.
         Some \<lparr>pm_scope_sha256 = scope, pm_fingerprint_sha256 = fingerprint,
           pm_target_kind = kind\<rparr>))))))
     | _ \<Rightarrow> None)"

section \<open>Notes and plans\<close>

record existing_note =
  no_note_id :: u64
  no_author_user_id :: u64
  no_author_username :: "string option"
  no_body :: string
  no_discussion_id :: "string option"
  no_resolvable :: bool
  no_resolved :: bool
  no_resolved_by_user_id :: "u64 option"
  no_created_at :: "string option"
  no_updated_at :: "string option"
  no_resolved_at :: "string option"
  no_path :: "string option"
  no_line :: "u32 option"
  no_original_line :: "u32 option"

text \<open>The text after the last line feed, or all of it.\<close>

definition terminal_marker :: "existing_note \<Rightarrow> publication_marker option" where
  "terminal_marker n = marker_parse (last (split_on nl (no_body n)))"

record inventory =
  in_complete :: bool
  in_notes :: "existing_note list"

record prepared =
  pp_target :: publication_target
  pp_body :: string
  pp_marker :: publication_marker
  pp_marked_body :: string

datatype decision = CreateNote | NoOp u64

record publication_action =
  pa_publication :: prepared
  pa_decision :: decision

record publication_plan =
  pl_schema_version :: string
  pl_snapshot :: gitlab_snapshot_identity
  pl_bot_user_id :: u64
  pl_actions :: "publication_action list"
  pl_plan_sha256 :: sha256_digest

definition plan_schema_version :: string where
  "plan_schema_version = ''revoot.publication-plan/v1''"

datatype candidate_error = EmptyBody | BodyTooLarge | ControlCharacter | MarkerInjection

datatype replay_error =
    ReplaySchemaVersion | ReplayBotIdentity | ActionCount | ReplayCandidate candidate_error
  | SummaryNotLast | ActionOrder | MarkerOrFingerprint | ReplayDuplicateFingerprint | NoteIdentity
  | PlanDigest

datatype plan_error =
    InventoryIncomplete | InventoryTooLarge | BotIdentity | DuplicateNoteId | CandidateCount
  | PlanCandidate candidate_error | DuplicateFingerprint | MultipleSummaries
  | AmbiguousOwnedMatch | InternalReplay replay_error

text \<open>What comes from outside.\<close>

record codec =
  co_sha :: hasher
  co_target :: "publication_target \<Rightarrow> string"
  co_identity :: "review_snapshot_identity \<Rightarrow> string"
  co_plan :: "string \<times> gitlab_snapshot_identity \<times> u64 \<times> publication_action list \<Rightarrow> string"

definition check_note :: "existing_note \<Rightarrow> u64 list \<Rightarrow> plan_error + u64 list" where
  "check_note n ids =
     (if no_note_id n = 0 \<or> no_author_user_id n = 0 \<or> no_note_id n \<in> set ids
      then Inl DuplicateNoteId else Inr (bs_insert (no_note_id n) ids))"

definition validate_inventory :: "inventory \<Rightarrow> plan_error + unit" where
  "validate_inventory i =
     (if \<not> in_complete i then Inl InventoryIncomplete
      else if max_existing_notes < length (in_notes i) then Inl InventoryTooLarge
      else and_then (try_fold check_note (in_notes i) []) (\<lambda>_. Inr ()))"

definition validate_candidate :: "candidate \<Rightarrow> candidate_error + unit" where
  "validate_candidate c =
     (if blank (pc_body c) then Inl EmptyBody
      else if max_comment_bytes < length (pc_body c) then Inl BodyTooLarge
      else if list_ex (\<lambda>ch. char_is_control ch \<and> ch \<notin> {10, 9}) (str_chars (pc_body c))
      then Inl ControlCharacter
      else if contains publication_marker_prefix (pc_body c) then Inl MarkerInjection
      else Inr ())"

definition scope_digest :: "codec \<Rightarrow> review_snapshot_identity \<Rightarrow> sha256_digest" where
  "scope_digest c snapshot = co_sha c (co_identity c snapshot)"

fun target_kind_of :: "publication_target \<Rightarrow> target_kind" where
  "target_kind_of (Inline _) = InlineKind"
| "target_kind_of Summary = SummaryKind"

definition fingerprint_fields ::
    "codec \<Rightarrow> review_snapshot_identity \<Rightarrow> publication_target \<Rightarrow> string \<Rightarrow> string list" where
  "fingerprint_fields c snapshot target body =
     [''revoot-publication-fingerprint-v1'', scope_digest c snapshot, co_target c target, body]"

definition marker_of ::
    "codec \<Rightarrow> review_snapshot_identity \<Rightarrow> publication_target \<Rightarrow> string \<Rightarrow> publication_marker" where
  "marker_of c snapshot target body =
     \<lparr>pm_scope_sha256 = scope_digest c snapshot,
      pm_fingerprint_sha256 = co_sha c (hash_fields (fingerprint_fields c snapshot target body)),
      pm_target_kind = target_kind_of target\<rparr>"

definition prepare_review_publication ::
    "codec \<Rightarrow> review_snapshot_identity \<Rightarrow> publication_target \<Rightarrow> string \<Rightarrow> candidate_error + prepared" where
  "prepare_review_publication c snapshot target body =
     and_then (validate_candidate \<lparr>pc_target = target, pc_body = body\<rparr>) (\<lambda>_.
     let marker = marker_of c snapshot target body;
         prepared = \<lparr>pp_target = target, pp_body = body, pp_marker = marker,
           pp_marked_body = body @ [nl] @ marker_render marker\<rparr>
     in if max_comment_bytes < length (pp_marked_body prepared) then Inl BodyTooLarge
        else Inr prepared)"

definition prepare_publication ::
    "codec \<Rightarrow> gitlab_snapshot_identity \<Rightarrow> publication_target \<Rightarrow> string \<Rightarrow> 'e fault + prepared" where
  "prepare_publication c snapshot target body =
     map_err (\<lambda>_. Panicked) (prepare_review_publication c (GitLab snapshot) target body)"

text \<open>\<open>publication_order\<close> compares these keys.\<close>

definition publication_key :: "prepared \<Rightarrow> bool \<times> string" where
  "publication_key p = (pp_target p = Summary, pm_fingerprint_sha256 (pp_marker p))"

definition derive_plan_digest :: "codec \<Rightarrow> publication_plan \<Rightarrow> sha256_digest" where
  "derive_plan_digest c p =
     co_sha c (co_plan c (pl_schema_version p, pl_snapshot p, pl_bot_user_id p, pl_actions p))"

text \<open>The loop of \<open>PublicationPlan::validate_replay\<close>.\<close>

record replay_state =
  re_previous :: "prepared option"
  re_fingerprints :: "string list"
  re_saw_summary :: bool

definition check_action ::
    "codec \<Rightarrow> gitlab_snapshot_identity \<Rightarrow> publication_action \<Rightarrow> replay_state
      \<Rightarrow> replay_error fault + replay_state" where
  "check_action c snapshot a s =
     (let p = pa_publication a in
      and_then (map_err (\<lambda>e. Returned (ReplayCandidate e))
        (validate_candidate \<lparr>pc_target = pp_target p, pc_body = pp_body p\<rparr>)) (\<lambda>_.
      if re_saw_summary s then Inl (Returned SummaryNotLast)
      else if (case re_previous s of None \<Rightarrow> False
        | Some prior \<Rightarrow> \<not> publication_key prior < publication_key p)
      then Inl (Returned ActionOrder)
      else
        and_then (prepare_publication c snapshot (pp_target p) (pp_body p)) (\<lambda>expected.
        if max_comment_bytes < length (pp_marked_body expected)
        then Inl (Returned (ReplayCandidate BodyTooLarge))
        else if expected \<noteq> p \<or> pm_scope_sha256 (pp_marker p) \<noteq> scope_digest c (GitLab snapshot)
        then Inl (Returned MarkerOrFingerprint)
        else if pm_fingerprint_sha256 (pp_marker p) \<in> set (re_fingerprints s)
        then Inl (Returned ReplayDuplicateFingerprint)
        else
          let s' = \<lparr>re_previous = Some p,
                re_fingerprints = bs_insert (pm_fingerprint_sha256 (pp_marker p)) (re_fingerprints s),
                re_saw_summary = (pp_target p = Summary)\<rparr>
          in case pa_decision a of
               CreateNote \<Rightarrow> Inr s'
             | NoOp note_id \<Rightarrow>
                 if note_id \<noteq> 0 then Inr s' else Inl (Returned NoteIdentity))))"

definition plan_validate_replay :: "codec \<Rightarrow> publication_plan \<Rightarrow> replay_error fault + unit" where
  "plan_validate_replay c p =
     (if pl_schema_version p \<noteq> plan_schema_version then Inl (Returned ReplaySchemaVersion)
      else if pl_bot_user_id p = 0 then Inl (Returned ReplayBotIdentity)
      else if max_candidates < length (pl_actions p) then Inl (Returned ActionCount)
      else
        and_then (try_fold (check_action c (pl_snapshot p)) (pl_actions p)
          \<lparr>re_previous = None, re_fingerprints = [], re_saw_summary = False\<rparr>) (\<lambda>_.
        if derive_plan_digest c p \<noteq> pl_plan_sha256 p then Inl (Returned PlanDigest) else Inr ()))"

section \<open>Building a plan\<close>

definition finding_lineage_id :: "hasher \<Rightarrow> string \<Rightarrow> sha256_digest option" where
  "finding_lineage_id sha body =
     (case lineage_from_body sha body of
        Some m \<Rightarrow> Some (lm_lineage_sha256 m)
      | None \<Rightarrow> map_option (\<lambda>m. sha (pm_fingerprint_sha256 m))
          (sole (List.map_filter marker_parse (str_lines body))))"

record preparing =
  pr_prepared :: "prepared list"
  pr_fingerprints :: "string list"
  pr_summary_count :: nat

definition prepare_candidate ::
    "codec \<Rightarrow> gitlab_snapshot_identity \<Rightarrow> candidate \<Rightarrow> preparing \<Rightarrow> plan_error fault + preparing" where
  "prepare_candidate c snapshot cand s =
     and_then (map_err (\<lambda>e. Returned (PlanCandidate e)) (validate_candidate cand)) (\<lambda>_.
     and_then (prepare_publication c snapshot (pc_target cand) (pc_body cand)) (\<lambda>p.
     if max_comment_bytes < length (pp_marked_body p)
     then Inl (Returned (PlanCandidate BodyTooLarge))
     else if pm_fingerprint_sha256 (pp_marker p) \<in> set (pr_fingerprints s)
     then Inl (Returned DuplicateFingerprint)
     else Inr \<lparr>pr_prepared = pr_prepared s @ [p],
       pr_fingerprints = bs_insert (pm_fingerprint_sha256 (pp_marker p)) (pr_fingerprints s),
       pr_summary_count = pr_summary_count s + (if pc_target cand = Summary then 1 else 0)\<rparr>))"

text \<open>The notes of the bot that carry the marker, or failing those the lineage.\<close>

definition exact_matches :: "u64 \<Rightarrow> inventory \<Rightarrow> publication_marker \<Rightarrow> existing_note list" where
  "exact_matches bot_id i marker =
     filter (\<lambda>n. terminal_marker n = Some marker)
       (filter (\<lambda>n. no_author_user_id n = bot_id) (in_notes i))"

definition owned_matches :: "codec \<Rightarrow> u64 \<Rightarrow> inventory \<Rightarrow> prepared \<Rightarrow> existing_note list" where
  "owned_matches c bot_id i p =
     (if exact_matches bot_id i (pp_marker p) \<noteq> [] then exact_matches bot_id i (pp_marker p)
      else case finding_lineage_id (co_sha c) (pp_body p) of
        None \<Rightarrow> []
      | Some lineage \<Rightarrow>
          filter (\<lambda>n. finding_lineage_id (co_sha c) (no_body n) = Some lineage)
            (filter (\<lambda>n. no_author_user_id n = bot_id) (in_notes i)))"

definition decide_action ::
    "codec \<Rightarrow> u64 \<Rightarrow> inventory \<Rightarrow> prepared \<Rightarrow> publication_action list
      \<Rightarrow> plan_error fault + publication_action list" where
  "decide_action c bot_id i p actions =
     (case owned_matches c bot_id i p of
        [] \<Rightarrow> Inr (actions @ [\<lparr>pa_publication = p, pa_decision = CreateNote\<rparr>])
      | [n] \<Rightarrow> Inr (actions @ [\<lparr>pa_publication = p, pa_decision = NoOp (no_note_id n)\<rparr>])
      | _ \<Rightarrow> Inl (Returned AmbiguousOwnedMatch))"

text \<open>An error of a nested call converted, its panic passed on.\<close>

fun wrap_fault :: "('e \<Rightarrow> 'f) \<Rightarrow> 'e fault \<Rightarrow> 'f fault" where
  "wrap_fault g (Returned e) = Returned (g e)"
| "wrap_fault g Panicked = Panicked"

definition build_publication_plan ::
    "codec \<Rightarrow> gitlab_snapshot_identity \<Rightarrow> u64 \<Rightarrow> candidate list \<Rightarrow> inventory
      \<Rightarrow> plan_error fault + publication_plan" where
  "build_publication_plan c snapshot bot_id candidates i =
     (if bot_id = 0 then Inl (Returned BotIdentity)
      else
        and_then (map_err Returned (validate_inventory i)) (\<lambda>_.
        if max_candidates < length candidates then Inl (Returned CandidateCount)
        else
          and_then (try_fold (prepare_candidate c snapshot) candidates
            \<lparr>pr_prepared = [], pr_fingerprints = [], pr_summary_count = 0\<rparr>) (\<lambda>s.
          if 1 < pr_summary_count s then Inl (Returned MultipleSummaries)
          else
            and_then (try_fold (decide_action c bot_id i)
              (sort_key publication_key (pr_prepared s)) []) (\<lambda>actions.
            let p = \<lparr>pl_schema_version = plan_schema_version, pl_snapshot = snapshot,
                  pl_bot_user_id = bot_id, pl_actions = actions, pl_plan_sha256 = co_sha c []\<rparr>;
                plan = p\<lparr>pl_plan_sha256 := derive_plan_digest c p\<rparr>
            in and_then (map_err (wrap_fault InternalReplay) (plan_validate_replay c plan)) (\<lambda>_.
               Inr plan)))))"

text \<open>Note identifiers of a valid inventory, and the notes an action can match.\<close>

lemma inventory_note_ids:
  assumes "validate_inventory i = Inr u"
  shows "\<forall>n \<in> set (in_notes i). no_note_id n \<noteq> 0"
proof -
  obtain ids where "try_fold check_note (in_notes i) [] = Inr ids"
    using assms by (auto simp: validate_inventory_def result_simps split: if_splits)
  moreover have "try_fold check_note ns s = Inr t \<Longrightarrow> \<forall>n \<in> set ns. no_note_id n \<noteq> 0" for ns s t
    by (induction ns arbitrary: s) (auto simp: result_simps check_note_def split: if_splits)
  ultimately show ?thesis by blast
qed

lemma exact_matches_notes: "set (exact_matches b i m) \<subseteq> set (in_notes i)"
  by (auto simp: exact_matches_def)

lemma owned_matches_notes: "set (owned_matches c b i p) \<subseteq> set (in_notes i)"
  by (auto simp: owned_matches_def exact_matches_def split: option.splits)

end
