(* ===== verification/Publication_Planned.thy ===== *)
theory Publication_Planned
  imports Publication
begin

text \<open>
  What publication planning guarantees: markers survive rendering and parsing, a plan is
  built exactly from inputs that can be planned, and always replays; and the planner can
  panic.  What a plan decides is the subject of Publication_Decided.
\<close>

section \<open>Marker contents\<close>

lemma strip_suffix_Some: "strip_suffix p s = Some t \<longleftrightarrow> s = t @ p"
proof -
  have "strip_suffix p s = Some t \<longleftrightarrow> (\<exists>u. rev s = rev p @ u \<and> t = rev u)"
    by (auto simp: strip_suffix_def strip_prefix_Some)
  also have "\<dots> \<longleftrightarrow> s = t @ p" by (metis rev_append rev_rev_ident)
  finally show ?thesis .
qed

lemma marker_content_Some: "marker_content start v = Some t \<longleftrightarrow> v = start @ t @ marker_suffix"
  by (auto simp: marker_content_def bind_eq_Some_conv strip_prefix_Some strip_suffix_Some)

section \<open>Digests have no spaces\<close>

definition valid_digest :: "string \<Rightarrow> bool" where
  "valid_digest d \<longleftrightarrow> length d = 64 \<and> is_lower_hex d"

lemma digest_try_from: "sha256_digest_try_from v = Inr d \<longleftrightarrow> d = v \<and> valid_digest v"
  by (auto simp: sha256_digest_try_from_def valid_digest_def sha256_hex_len_def)

definition valid_git_sha :: "string \<Rightarrow> bool" where
  "valid_git_sha v \<longleftrightarrow> git_sha_try_from v = Inr v"

lemma git_sha_try_from: "git_sha_try_from v = Inr d \<longleftrightarrow> d = v \<and> valid_git_sha v"
  by (auto simp: git_sha_try_from_def valid_git_sha_def split: if_splits)

lemma lower_hex_no_space: "is_lower_hex v \<Longrightarrow> CHR '' '' \<notin> set v"
  by (auto simp: is_lower_hex_def list_all_iff is_ascii_digit_def)

lemma digest_no_space [simp]: "valid_digest d \<Longrightarrow> CHR '' '' \<notin> set d"
  by (simp add: valid_digest_def lower_hex_no_space)

lemma git_sha_no_space [simp]: "valid_git_sha v \<Longrightarrow> CHR '' '' \<notin> set v"
  by (auto simp: valid_git_sha_def git_sha_try_from_def lower_hex_no_space split: if_splits)

definition valid_marker :: "publication_marker \<Rightarrow> bool" where
  "valid_marker m \<longleftrightarrow> valid_digest (pm_scope_sha256 m) \<and> valid_digest (pm_fingerprint_sha256 m)"

lemma target_kind_parse_Some: "target_kind_parse k = Some t \<longleftrightarrow> k = target_kind_name t"
  by (cases t) (auto simp: target_kind_parse_def)

lemma target_kind_no_space [simp]: "CHR '' '' \<notin> set (target_kind_name k)"
  by (cases k) auto

lemma split3:
  "split_on c s = [p, q, r] \<longleftrightarrow> s = p @ c # q @ c # r \<and> c \<notin> set p \<and> c \<notin> set q \<and> c \<notin> set r"
proof
  assume split: "split_on c s = [p, q, r]"
  have "\<forall>w \<in> set (split_on c s). c \<notin> set w"
    by (induction s) (auto split: list.split)
  then show "s = p @ c # q @ c # r \<and> c \<notin> set p \<and> c \<notin> set q \<and> c \<notin> set r"
    using split_on_join [of c s] by (simp add: split)
qed simp

lemma case3_Some:
  "(case xs of [p, q, r] \<Rightarrow> f p q r | _ \<Rightarrow> None) = Some m \<longleftrightarrow>
     (\<exists>p q r. xs = [p, q, r] \<and> f p q r = Some m)"
  by (auto split: list.splits)

lemma if_Some: "(if P then Some x else None) = Some m \<longleftrightarrow> P \<and> m = x"
  by auto

lemma case4_Some:
  "(case xs of [p, q, r, t] \<Rightarrow> f p q r t | _ \<Rightarrow> None) = Some m \<longleftrightarrow>
     (\<exists>p q r t. xs = [p, q, r, t] \<and> f p q r t = Some m)"
  by (auto split: list.splits)

lemma marker_parse_Some:
  "marker_parse v = Some m \<longleftrightarrow> v = marker_render m \<and> valid_marker m"
proof
  assume "marker_parse v = Some m"
  then obtain content p q r where content: "marker_content publication_marker_prefix v = Some content"
    and split: "split_on CHR '' '' content = [p, q, r]"
    and parts: "strip_prefix ''scope='' p = Some (pm_scope_sha256 m)"
      "strip_prefix ''fingerprint='' q = Some (pm_fingerprint_sha256 m)"
      "valid_digest (pm_scope_sha256 m)" "valid_digest (pm_fingerprint_sha256 m)"
      "strip_prefix ''kind='' r = Some (target_kind_name (pm_target_kind m))"
    unfolding marker_parse_def bind_eq_Some_conv case3_Some
    by (auto simp: digest_try_from target_kind_parse_Some)
  then show "v = marker_render m \<and> valid_marker m"
    by (simp add: marker_content_Some split3 strip_prefix_Some marker_render_def valid_marker_def)
next
  assume m: "v = marker_render m \<and> valid_marker m"
  let ?content = "''scope='' @ pm_scope_sha256 m @ '' fingerprint='' @ pm_fingerprint_sha256 m @
      '' kind='' @ target_kind_name (pm_target_kind m)"
  have content: "marker_content publication_marker_prefix v = Some ?content"
    using m by (simp add: marker_content_Some marker_render_def)
  have "split_on CHR '' '' ?content = [''scope='' @ pm_scope_sha256 m,
      ''fingerprint='' @ pm_fingerprint_sha256 m, ''kind='' @ target_kind_name (pm_target_kind m)]"
    using m by (simp add: split3 valid_marker_def)
  then show "marker_parse v = Some m"
    using content m unfolding marker_parse_def
    by (simp add: digest_try_from [THEN iffD2] valid_marker_def target_kind_parse_Some [THEN iffD2])
qed

lemma split4:
  "split_on c s = [p, q, r, t] \<longleftrightarrow> s = p @ c # q @ c # r @ c # t \<and>
     c \<notin> set p \<and> c \<notin> set q \<and> c \<notin> set r \<and> c \<notin> set t"
proof
  assume split: "split_on c s = [p, q, r, t]"
  have "\<forall>w \<in> set (split_on c s). c \<notin> set w"
    by (induction s) (auto split: list.split)
  then show "s = p @ c # q @ c # r @ c # t \<and> c \<notin> set p \<and> c \<notin> set q \<and> c \<notin> set r \<and> c \<notin> set t"
    using split_on_join [of c s] by (simp add: split)
qed simp

definition valid_lineage :: "hasher \<Rightarrow> lineage_marker \<Rightarrow> bool" where
  "valid_lineage sha m \<longleftrightarrow>
     valid_digest (lm_lineage_sha256 m) \<and> valid_digest (lm_occurrence_sha256 m) \<and>
     valid_git_sha (lm_reviewed_head m) \<and> valid_digest (lm_evidence_sha256 m) \<and>
     m = lineage_new sha (lm_lineage_sha256 m) (lm_reviewed_head m) (lm_evidence_sha256 m)"

lemma lineage_parse_Some:
  "lineage_parse sha v = Some m \<longleftrightarrow> v = lineage_render m \<and> valid_lineage sha m"
proof
  assume "lineage_parse sha v = Some m"
  then obtain content p q r t l oc h ev where content: "marker_content lineage_marker_prefix v = Some content"
    and split: "split_on CHR '' '' content = [p, q, r, t]"
    and parts: "strip_prefix ''lineage='' p = Some l" "strip_prefix ''occurrence='' q = Some oc"
      "strip_prefix ''head='' r = Some h" "strip_prefix ''evidence='' t = Some ev"
    and valid: "valid_digest l" "valid_digest oc" "valid_git_sha h" "valid_digest ev"
    and same: "oc = lm_occurrence_sha256 (lineage_new sha l h ev)"
    and m: "m = \<lparr>lm_lineage_sha256 = l, lm_occurrence_sha256 = oc, lm_reviewed_head = h,
      lm_evidence_sha256 = ev\<rparr>"
    unfolding lineage_parse_def bind_eq_Some_conv case4_Some if_Some ok_simps digest_try_from
      git_sha_try_from by blast
  have "valid_lineage sha m" using valid same by (simp add: valid_lineage_def m lineage_new_def)
  moreover have "v = lineage_render m"
    using content split parts
    by (simp add: marker_content_Some split4 strip_prefix_Some lineage_render_def m)
  ultimately show "v = lineage_render m \<and> valid_lineage sha m" by blast
next
  assume m: "v = lineage_render m \<and> valid_lineage sha m"
  let ?content = "''lineage='' @ lm_lineage_sha256 m @ '' occurrence='' @ lm_occurrence_sha256 m @
      '' head='' @ lm_reviewed_head m @ '' evidence='' @ lm_evidence_sha256 m"
  have content: "marker_content lineage_marker_prefix v = Some ?content"
    using m by (simp add: marker_content_Some lineage_render_def)
  have split: "split_on CHR '' '' ?content = [''lineage='' @ lm_lineage_sha256 m,
      ''occurrence='' @ lm_occurrence_sha256 m, ''head='' @ lm_reviewed_head m,
      ''evidence='' @ lm_evidence_sha256 m]"
    using m by (simp add: split4 valid_lineage_def)
  have same: "lm_occurrence_sha256 (lineage_new sha (lm_lineage_sha256 m) (lm_reviewed_head m)
      (lm_evidence_sha256 m)) = lm_occurrence_sha256 m"
    using m unfolding valid_lineage_def by metis
  have tries: "sha256_digest_try_from (lm_lineage_sha256 m) = Inr (lm_lineage_sha256 m)"
    "sha256_digest_try_from (lm_occurrence_sha256 m) = Inr (lm_occurrence_sha256 m)"
    "git_sha_try_from (lm_reviewed_head m) = Inr (lm_reviewed_head m)"
    "sha256_digest_try_from (lm_evidence_sha256 m) = Inr (lm_evidence_sha256 m)"
    using m by (simp_all add: valid_lineage_def digest_try_from git_sha_try_from)
  show "lineage_parse sha v = Some m"
    using content split unfolding lineage_parse_def by (simp add: tries same)
qed

section \<open>Preparing\<close>

text \<open>The prepared form of a candidate, when it has one.\<close>

definition prepared_of :: "codec \<Rightarrow> gitlab_snapshot_identity \<Rightarrow> candidate \<Rightarrow> prepared" where
  "prepared_of c snapshot cand =
     (let marker = marker_of c (GitLab snapshot) (pc_target cand) (pc_body cand) in
      \<lparr>pp_target = pc_target cand, pp_body = pc_body cand, pp_marker = marker,
       pp_marked_body = pc_body cand @ [nl] @ marker_render marker\<rparr>)"

definition fits_comment :: "codec \<Rightarrow> gitlab_snapshot_identity \<Rightarrow> candidate \<Rightarrow> bool" where
  "fits_comment c snapshot cand \<longleftrightarrow> length (pp_marked_body (prepared_of c snapshot cand)) \<le> max_comment_bytes"

lemma prepare_publication_eq:
  assumes "validate_candidate \<lparr>pc_target = t, pc_body = b\<rparr> = Inr ()"
  shows "prepare_publication c snapshot t b =
    (if fits_comment c snapshot \<lparr>pc_target = t, pc_body = b\<rparr>
     then Inr (prepared_of c snapshot \<lparr>pc_target = t, pc_body = b\<rparr>) else Inl Panicked)"
  using assms
  by (simp add: prepare_publication_def prepare_review_publication_def fits_comment_def
      prepared_of_def Let_def)

abbreviation fingerprint_of :: "codec \<Rightarrow> gitlab_snapshot_identity \<Rightarrow> candidate \<Rightarrow> string" where
  "fingerprint_of c snapshot cand \<equiv> pm_fingerprint_sha256 (pp_marker (prepared_of c snapshot cand))"

lemma prepare_candidate_Inr:
  "prepare_candidate c snapshot cand s = Inr s' \<longleftrightarrow>
     validate_candidate cand = Inr () \<and> fits_comment c snapshot cand \<and>
     fingerprint_of c snapshot cand \<notin> set (pr_fingerprints s) \<and>
     s' = \<lparr>pr_prepared = pr_prepared s @ [prepared_of c snapshot cand],
       pr_fingerprints = bs_insert (fingerprint_of c snapshot cand) (pr_fingerprints s),
       pr_summary_count = pr_summary_count s + (if pc_target cand = Summary then 1 else 0)\<rparr>"
proof (cases cand)
  case (fields t b)
  show ?thesis
  proof (cases "validate_candidate cand")
    case (Inl e)
    then show ?thesis by (simp add: prepare_candidate_def)
  next
    case (Inr u)
    then have valid: "validate_candidate \<lparr>pc_target = t, pc_body = b\<rparr> = Inr ()" using fields by simp
    show ?thesis
      using Inr by (auto simp: prepare_candidate_def prepare_publication_eq [OF valid] fits_comment_def fields)
  qed
qed

lemma prepare_candidates_Inr:
  "try_fold (prepare_candidate c snapshot) cands s = Inr s' \<Longrightarrow>
     list_all (\<lambda>x. validate_candidate x = Inr () \<and> fits_comment c snapshot x) cands \<and>
     pr_prepared s' = pr_prepared s @ map (prepared_of c snapshot) cands \<and>
     distinct (map (fingerprint_of c snapshot) cands) \<and>
     set (map (fingerprint_of c snapshot) cands) \<inter> set (pr_fingerprints s) = {} \<and>
     pr_summary_count s' = pr_summary_count s + length (filter (\<lambda>x. pc_target x = Summary) cands)"
proof (induction cands arbitrary: s)
  case (Cons x xs)
  then obtain t where t: "prepare_candidate c snapshot x s = Inr t"
    "try_fold (prepare_candidate c snapshot) xs t = Inr s'"
    by (auto simp: result_simps)
  from Cons.IH [OF t(2)] t(1) show ?case by (auto simp: prepare_candidate_Inr)
qed simp

lemma prepare_candidates_ok:
  "list_all (\<lambda>x. validate_candidate x = Inr () \<and> fits_comment c snapshot x) cands \<Longrightarrow>
     distinct (map (fingerprint_of c snapshot) cands) \<Longrightarrow>
     set (map (fingerprint_of c snapshot) cands) \<inter> set (pr_fingerprints s) = {} \<Longrightarrow>
     \<exists>s'. try_fold (prepare_candidate c snapshot) cands s = Inr s'"
proof (induction cands arbitrary: s)
  case (Cons x xs)
  let ?t = "\<lparr>pr_prepared = pr_prepared s @ [prepared_of c snapshot x],
       pr_fingerprints = bs_insert (fingerprint_of c snapshot x) (pr_fingerprints s),
       pr_summary_count = pr_summary_count s + (if pc_target x = Summary then 1 else 0)\<rparr>"
  have step: "prepare_candidate c snapshot x s = Inr ?t"
    using Cons.prems by (simp add: prepare_candidate_Inr)
  have "\<exists>s'. try_fold (prepare_candidate c snapshot) xs ?t = Inr s'"
    using Cons.prems by (intro Cons.IH) auto
  then show ?case by (simp add: step)
qed simp

lemma prepare_candidates_error:
  "try_fold (prepare_candidate c snapshot) cands s = Inl f \<Longrightarrow> f \<noteq> Returned (InternalReplay e)"
  by (induction cands arbitrary: s)
    (auto simp: result_simps prepare_candidate_def prepare_publication_def split: if_splits)

section \<open>Deciding\<close>

definition decision_of :: "codec \<Rightarrow> u64 \<Rightarrow> inventory \<Rightarrow> prepared \<Rightarrow> decision" where
  "decision_of c b i p =
     (case owned_matches c b i p of [] \<Rightarrow> CreateNote | n # _ \<Rightarrow> NoOp (no_note_id n))"

lemma decide_action_Inr:
  "decide_action c b i p acts = Inr acts' \<longleftrightarrow>
     length (owned_matches c b i p) \<le> 1 \<and>
     acts' = acts @ [\<lparr>pa_publication = p, pa_decision = decision_of c b i p\<rparr>]"
  by (auto simp: decide_action_def decision_of_def split: list.splits)

lemma decide_actions_Inr:
  "try_fold (decide_action c b i) ps acts = Inr acts' \<Longrightarrow>
     list_all (\<lambda>p. length (owned_matches c b i p) \<le> 1) ps \<and>
     acts' = acts @ map (\<lambda>p. \<lparr>pa_publication = p, pa_decision = decision_of c b i p\<rparr>) ps"
proof (induction ps arbitrary: acts)
  case (Cons p ps)
  let ?a = "\<lparr>pa_publication = p, pa_decision = decision_of c b i p\<rparr>"
  have "length (owned_matches c b i p) \<le> 1" "try_fold (decide_action c b i) ps (acts @ [?a]) = Inr acts'"
    using Cons.prems by (auto simp: result_simps decide_action_Inr)
  with Cons.IH show ?case by fastforce
qed simp

lemma decide_actions_ok:
  "list_all (\<lambda>p. length (owned_matches c b i p) \<le> 1) ps \<Longrightarrow>
     \<exists>acts'. try_fold (decide_action c b i) ps acts = Inr acts'"
proof (induction ps arbitrary: acts)
  case (Cons p ps)
  have "decide_action c b i p acts = Inr (acts @ [\<lparr>pa_publication = p, pa_decision = decision_of c b i p\<rparr>])"
    using Cons.prems by (simp add: decide_action_Inr)
  then show ?case using Cons by simp
qed simp

lemma decide_actions_error:
  "try_fold (decide_action c b i) ps acts = Inl f \<Longrightarrow> f = Returned AmbiguousOwnedMatch"
  by (induction ps arbitrary: acts) (auto simp: result_simps decide_action_def split: list.splits)

section \<open>Replaying\<close>

lemma check_action_ok:
  assumes "validate_candidate x = Inr ()" and "fits_comment c snapshot x"
    and "\<not> re_saw_summary s"
    and "\<And>prior. re_previous s = Some prior \<Longrightarrow> publication_key prior < publication_key (prepared_of c snapshot x)"
    and "fingerprint_of c snapshot x \<notin> set (re_fingerprints s)" and "d \<noteq> NoOp 0"
  shows "check_action c snapshot \<lparr>pa_publication = prepared_of c snapshot x, pa_decision = d\<rparr> s =
    Inr \<lparr>re_previous = Some (prepared_of c snapshot x),
      re_fingerprints = bs_insert (fingerprint_of c snapshot x) (re_fingerprints s),
      re_saw_summary = (pc_target x = Summary)\<rparr>"
proof (cases x)
  case (fields t b)
  let ?p = "prepared_of c snapshot \<lparr>pc_target = t, pc_body = b\<rparr>"
  note a = assms [unfolded fields]
  have fields_of: "pp_target ?p = t" "pp_body ?p = b"
    "pm_scope_sha256 (pp_marker ?p) = scope_digest c (GitLab snapshot)"
    by (simp_all add: prepared_of_def marker_of_def Let_def)
  have run: "prepare_publication c snapshot t b = Inr ?p"
    using a(2) by (simp add: prepare_publication_eq [OF a(1)])
  have size: "\<not> max_comment_bytes < length (pp_marked_body ?p)"
    using a(2) by (simp add: fits_comment_def)
  have order: "\<not> (case re_previous s of None \<Rightarrow> False
      | Some prior \<Rightarrow> \<not> publication_key prior < publication_key ?p)"
    using a(4) by (auto split: option.split)
  show ?thesis
    unfolding fields using a(3,5,6) order size
    by (simp add: check_action_def fields_of a(1) run Let_def split: decision.split)
qed

lemma two_in_filter: "q \<in> set qs \<Longrightarrow> P q \<Longrightarrow> P r \<Longrightarrow> 2 \<le> length (filter P (qs @ r # rs))"
  by (induction qs) auto

definition planned :: "codec \<Rightarrow> gitlab_snapshot_identity \<Rightarrow> (prepared \<Rightarrow> decision) \<Rightarrow> prepared list \<Rightarrow> publication_action list" where
  "planned c snapshot d ps = map (\<lambda>p. \<lparr>pa_publication = p, pa_decision = d p\<rparr>) ps"

lemma check_actions_ok:
  assumes prep: "\<forall>p \<in> set ps. \<exists>x. p = prepared_of c snapshot x \<and> validate_candidate x = Inr () \<and>
      fits_comment c snapshot x"
    and strict: "sorted_wrt (\<lambda>p q. publication_key p < publication_key q) ps"
    and fps: "distinct (map (\<lambda>p. pm_fingerprint_sha256 (pp_marker p)) ps)"
    and one: "length (filter (\<lambda>p. pp_target p = Summary) ps) \<le> 1"
    and dec: "\<forall>p \<in> set ps. d p \<noteq> NoOp 0"
  shows "\<exists>t. try_fold (check_action c snapshot) (planned c snapshot d ps)
    \<lparr>re_previous = None, re_fingerprints = [], re_saw_summary = False\<rparr> = Inr t"
proof -
  let ?inv = "\<lambda>ys s. re_previous s = (if ys = [] then None else Some (pa_publication (last ys))) \<and>
      set (re_fingerprints s) = (\<lambda>a. pm_fingerprint_sha256 (pp_marker (pa_publication a))) ` set ys \<and>
      re_saw_summary s = (ys \<noteq> [] \<and> pp_target (pa_publication (last ys)) = Summary)"
  have "\<exists>t. try_fold (check_action c snapshot) (planned c snapshot d ps)
      \<lparr>re_previous = None, re_fingerprints = [], re_saw_summary = False\<rparr> = Inr t \<and>
      ?inv (planned c snapshot d ps) t"
  proof (rule try_fold_total)
    fix ys a and s :: replay_state
    assume pre: "prefix (ys @ [a]) (planned c snapshot d ps)" and inv: "?inv ys s"
    obtain zs where zs: "planned c snapshot d ps = ys @ a # zs" using pre by (auto simp: prefix_def)
    define qs where "qs = map pa_publication ys"
    have pubs: "map pa_publication (planned c snapshot d ps) = ps"
      by (simp add: planned_def comp_def)
    then have ps: "ps = qs @ pa_publication a # map pa_publication zs"
      using zs by (simp add: qs_def)
    obtain x where x: "pa_publication a = prepared_of c snapshot x" "validate_candidate x = Inr ()"
      "fits_comment c snapshot x" using prep ps by auto
    have "a \<in> set (planned c snapshot d ps)" using zs by simp
    then have a: "a = \<lparr>pa_publication = prepared_of c snapshot x, pa_decision = d (pa_publication a)\<rparr>"
      using x(1) by (auto simp: planned_def)
    have last: "qs \<noteq> [] \<Longrightarrow> publication_key (last qs) < publication_key (pa_publication a)"
      using strict unfolding ps by (auto simp: sorted_wrt_append)
    have "\<not> re_saw_summary s"
    proof
      assume "re_saw_summary s"
      then have ne: "ys \<noteq> []" and sum: "pp_target (last qs) = Summary"
        using inv by (auto simp: qs_def last_map)
      then have "pp_target (pa_publication a) = Summary"
        using last by (auto simp: publication_key_def qs_def less_prod_def)
      moreover have "last qs \<in> set qs" using ne by (intro last_in_set) (simp add: qs_def)
      ultimately have "2 \<le> length (filter (\<lambda>p. pp_target p = Summary) ps)"
        using sum two_in_filter [of "last qs" qs "\<lambda>p. pp_target p = Summary" "pa_publication a" "map pa_publication zs"]
        unfolding ps by blast
      then show False using one by simp
    qed
    moreover have "publication_key prior < publication_key (prepared_of c snapshot x)"
      if "re_previous s = Some prior" for prior
      using that inv last x(1) by (auto simp: qs_def last_map split: if_splits)
    moreover have "fingerprint_of c snapshot x \<notin> set (re_fingerprints s)"
      using fps inv x(1) unfolding ps by (auto simp: qs_def)
    moreover have "d (pa_publication a) \<noteq> NoOp 0" using dec ps by simp
    ultimately have "check_action c snapshot a s = Inr \<lparr>re_previous = Some (prepared_of c snapshot x),
      re_fingerprints = bs_insert (fingerprint_of c snapshot x) (re_fingerprints s),
      re_saw_summary = (pc_target x = Summary)\<rparr>"
      using check_action_ok [OF x(2,3)] a by metis
    moreover have "pp_target (prepared_of c snapshot x) = pc_target x"
      by (simp add: prepared_of_def Let_def)
    ultimately show "\<exists>t. check_action c snapshot a s = Inr t \<and> ?inv (ys @ [a]) t"
      using inv x(1) by simp
  qed simp
  then show ?thesis by blast
qed

text \<open>What building a plan goes through.\<close>

lemma sorted_keys_strict:
  "distinct (map f xs) \<Longrightarrow> sorted_wrt (\<lambda>x y. f x < f y) (sort_key f xs)"
proof -
  assume "distinct (map f xs)"
  then have "sorted_wrt (<) (map f (sort_key f xs))" by (intro distinct_sorted_strict) simp_all
  then show ?thesis by (simp add: sorted_wrt_map)
qed

lemma length_filter_mset: "mset xs = mset ys \<Longrightarrow> length (filter P xs) = length (filter P ys)"
  by (metis mset_filter size_mset)

lemma built_plan_replays:
  assumes inv: "validate_inventory i = Inr ()" and "b \<noteq> 0" and "length cands \<le> max_candidates"
    and cands: "list_all (\<lambda>x. validate_candidate x = Inr () \<and> fits_comment c snapshot x) cands"
    and fps: "distinct (map (fingerprint_of c snapshot) cands)"
    and one: "length (filter (\<lambda>x. pc_target x = Summary) cands) \<le> 1"
    and acts: "acts = planned c snapshot (decision_of c b i) (sort_key publication_key (map (prepared_of c snapshot) cands))"
    and plan: "plan = \<lparr>pl_schema_version = plan_schema_version, pl_snapshot = snapshot,
      pl_bot_user_id = b, pl_actions = acts, pl_plan_sha256 = d\<rparr>"
    and digest: "d = derive_plan_digest c plan"
  shows "plan_validate_replay c plan = Inr ()"
proof -
  let ?ps = "sort_key publication_key (map (prepared_of c snapshot) cands)"
  have target: "pp_target (prepared_of c snapshot x) = pc_target x" for x
    by (simp add: prepared_of_def Let_def)
  have fps': "distinct (map (\<lambda>p. pm_fingerprint_sha256 (pp_marker p)) ?ps)"
    using fps by (simp add: comp_def)
  have "distinct (map publication_key (map (prepared_of c snapshot) cands))"
    using fps by (auto simp: publication_key_def distinct_map inj_on_def)
  then have strict: "sorted_wrt (\<lambda>p q. publication_key p < publication_key q) ?ps"
    by (rule sorted_keys_strict)
  have "length (filter (\<lambda>p. pp_target p = Summary) ?ps) =
      length (filter (\<lambda>p. pp_target p = Summary) (map (prepared_of c snapshot) cands))"
    by (rule length_filter_mset) simp
  then have one': "length (filter (\<lambda>p. pp_target p = Summary) ?ps) \<le> 1"
    using one by (simp add: filter_map comp_def target)
  have prep: "\<forall>p \<in> set ?ps. \<exists>x. p = prepared_of c snapshot x \<and> validate_candidate x = Inr () \<and>
      fits_comment c snapshot x"
    using cands by (auto simp: list_all_iff)
  have "decision_of c b i p \<noteq> NoOp 0" for p
  proof (cases "owned_matches c b i p")
    case (Cons n ns)
    then have "n \<in> set (in_notes i)" using owned_matches_notes by (metis list.set_intros(1) subsetD)
    then show ?thesis using inventory_note_ids [OF inv] Cons by (auto simp: decision_of_def)
  qed (simp add: decision_of_def)
  then have dec: "\<forall>p \<in> set ?ps. decision_of c b i p \<noteq> NoOp 0" by blast
  obtain t where "try_fold (check_action c snapshot) acts
      \<lparr>re_previous = None, re_fingerprints = [], re_saw_summary = False\<rparr> = Inr t"
    using check_actions_ok [OF prep strict fps' one' dec] acts by blast
  moreover have "length acts \<le> max_candidates" using assms(3) acts by (simp add: planned_def)
  moreover have "derive_plan_digest c plan = pl_plan_sha256 plan" using digest plan by simp
  ultimately show ?thesis using assms(2) by (simp add: plan_validate_replay_def plan)
qed

lemma inventory_error: "validate_inventory i = Inl e \<Longrightarrow> e \<noteq> InternalReplay x"
proof -
  have "try_fold check_note ns ids = Inl e \<Longrightarrow> e = DuplicateNoteId" for ns ids
    by (induction ns arbitrary: ids) (auto simp: result_simps check_note_def split: if_splits)
  then show "validate_inventory i = Inl e \<Longrightarrow> e \<noteq> InternalReplay x"
    by (auto simp: validate_inventory_def result_simps split: if_splits)
qed

text \<open>The candidates a plan is built for.\<close>

definition plannable ::
    "codec \<Rightarrow> gitlab_snapshot_identity \<Rightarrow> u64 \<Rightarrow> candidate list \<Rightarrow> inventory \<Rightarrow> bool" where
  "plannable c snapshot b cands i \<longleftrightarrow>
     b \<noteq> 0 \<and> validate_inventory i = Inr () \<and> length cands \<le> max_candidates \<and>
     list_all (\<lambda>x. validate_candidate x = Inr () \<and> fits_comment c snapshot x) cands \<and>
     distinct (map (fingerprint_of c snapshot) cands) \<and>
     length (filter (\<lambda>x. pc_target x = Summary) cands) \<le> 1 \<and>
     list_all (\<lambda>p. length (owned_matches c b i p) \<le> 1) (map (prepared_of c snapshot) cands)"

lemma build_plan_cases:
  obtains (early) f where "build_publication_plan c snapshot b cands i = Inl f"
      "\<And>e. f \<noteq> Returned (InternalReplay e)"
      "\<not> plannable c snapshot b cands i"
    | (built) plan where "build_publication_plan c snapshot b cands i = Inr plan"
      "plan_validate_replay c plan = Inr ()" "plannable c snapshot b cands i"
      "pl_actions plan = planned c snapshot (decision_of c b i)
         (sort_key publication_key (map (prepared_of c snapshot) cands))"
proof (cases "b = 0 \<or> validate_inventory i \<noteq> Inr () \<or> max_candidates < length cands")
  case True
  then have "\<not> plannable c snapshot b cands i" by (auto simp: plannable_def)
  moreover have "\<exists>f. build_publication_plan c snapshot b cands i = Inl f \<and> (\<forall>e. f \<noteq> Returned (InternalReplay e))"
    using True by (cases "validate_inventory i") (auto simp: build_publication_plan_def dest: inventory_error)
  ultimately show thesis using early by blast
next
  case False
  let ?start = "\<lparr>pr_prepared = [], pr_fingerprints = [], pr_summary_count = 0\<rparr>"
  have run: "build_publication_plan c snapshot b cands i =
    and_then (try_fold (prepare_candidate c snapshot) cands ?start) (\<lambda>s.
      if 1 < pr_summary_count s then Inl (Returned MultipleSummaries)
      else and_then (try_fold (decide_action c b i) (sort_key publication_key (pr_prepared s)) []) (\<lambda>actions.
        let p = \<lparr>pl_schema_version = plan_schema_version, pl_snapshot = snapshot,
                pl_bot_user_id = b, pl_actions = actions, pl_plan_sha256 = co_sha c []\<rparr>;
            plan = p\<lparr>pl_plan_sha256 := derive_plan_digest c p\<rparr>
        in and_then (map_err (wrap_fault InternalReplay) (plan_validate_replay c plan)) (\<lambda>_. Inr plan)))"
    using False by (simp add: build_publication_plan_def)
  show thesis
  proof (cases "try_fold (prepare_candidate c snapshot) cands ?start")
    case (Inl f)
    have "\<not> plannable c snapshot b cands i"
    proof
      assume "plannable c snapshot b cands i"
      then have "\<exists>s. try_fold (prepare_candidate c snapshot) cands ?start = Inr s"
        by (intro prepare_candidates_ok) (simp_all add: plannable_def)
      then show False using Inl by simp
    qed
    then show thesis using early prepare_candidates_error [OF Inl] run Inl by simp
  next
    case (Inr s)
    from prepare_candidates_Inr [OF Inr] have s: "pr_prepared s = map (prepared_of c snapshot) cands"
      "list_all (\<lambda>x. validate_candidate x = Inr () \<and> fits_comment c snapshot x) cands"
      "distinct (map (fingerprint_of c snapshot) cands)"
      "pr_summary_count s = length (filter (\<lambda>x. pc_target x = Summary) cands)"
      by simp_all
    show thesis
    proof (cases "1 < pr_summary_count s")
      case True
      then have "\<not> plannable c snapshot b cands i" using s(4) by (simp add: plannable_def)
      then show thesis using early True Inr run by simp
    next
      case one: False
      let ?ps = "sort_key publication_key (map (prepared_of c snapshot) cands)"
      show thesis
      proof (cases "try_fold (decide_action c b i) ?ps []")
        case (Inl f)
        have "\<not> plannable c snapshot b cands i"
        proof
          assume "plannable c snapshot b cands i"
          then have "\<exists>acts. try_fold (decide_action c b i) ?ps [] = Inr acts"
            by (intro decide_actions_ok) (simp add: plannable_def list_all_iff)
          then show False using Inl by simp
        qed
        moreover have "build_publication_plan c snapshot b cands i = Inl f"
          using Inl one \<open>try_fold (prepare_candidate c snapshot) cands ?start = Inr s\<close> run s(1) by simp
        ultimately show thesis using early decide_actions_error [OF Inl] by blast
      next
        case acts: (Inr acts)
        from decide_actions_Inr [OF acts] have d: "list_all (\<lambda>p. length (owned_matches c b i p) \<le> 1) ?ps"
          "acts = planned c snapshot (decision_of c b i) ?ps" by (simp_all add: planned_def)
        define p where "p = \<lparr>pl_schema_version = plan_schema_version, pl_snapshot = snapshot,
          pl_bot_user_id = b, pl_actions = acts, pl_plan_sha256 = co_sha c []\<rparr>"
        define plan where "plan = p\<lparr>pl_plan_sha256 := derive_plan_digest c p\<rparr>"
        have "plan_validate_replay c plan = Inr ()"
        proof (rule built_plan_replays)
          show "plan = \<lparr>pl_schema_version = plan_schema_version, pl_snapshot = snapshot,
              pl_bot_user_id = b, pl_actions = acts, pl_plan_sha256 = pl_plan_sha256 plan\<rparr>"
            by (simp add: plan_def p_def)
          show "pl_plan_sha256 plan = derive_plan_digest c plan"
            by (simp add: plan_def p_def derive_plan_digest_def)
        qed (use False s one d(2) in auto)
        moreover have "plannable c snapshot b cands i"
          using False s one d(1) by (auto simp: plannable_def list_all_iff)
        moreover have "build_publication_plan c snapshot b cands i = Inr plan"
          using run Inr one s(1) acts calculation(1)
          unfolding plan_def p_def by (simp add: Let_def)
        moreover have "pl_actions plan = planned c snapshot (decision_of c b i) ?ps"
          by (simp add: plan_def p_def d(2))
        ultimately show thesis using built by blast
      qed
    qed
  qed
qed

section \<open>Properties\<close>

text \<open>
  \<^bold>\<open>C19.\<close>  Markers round-trip: a line parses as a publication marker exactly when it is
  the rendering of one with two valid digests, and as a lineage marker exactly when it is
  the rendering of a valid one whose occurrence digest is that of its other fields; the
  result is the marker that was rendered.
\<close>

theorem markers_round_trip:
  "(marker_parse v = Some m \<longleftrightarrow> v = marker_render m \<and> valid_marker m) \<and>
   (lineage_parse sha v = Some l \<longleftrightarrow> v = lineage_render l \<and> valid_lineage sha l)"
  by (rule conjI [OF marker_parse_Some lineage_parse_Some])

definition sample_codec :: codec where
  "sample_codec = \<lparr>co_sha = \<lambda>_. replicate 64 (CHR ''0''), co_target = \<lambda>_. [], co_identity = \<lambda>_. [],
     co_plan = \<lambda>_. []\<rparr>"

definition sample_snapshot :: gitlab_snapshot_identity where
  "sample_snapshot = \<lparr>gi_version = \<lparr>gv_scope = \<lparr>ss_instance_origin_digest = ''o'', ss_project_id = 1,
       ss_merge_request_iid = 2\<rparr>, gv_diff_version = \<lparr>dv_id = 3,
       dv_refs = \<lparr>df_base_sha = ''b'', df_start_sha = ''s'', df_head_sha = ''h''\<rparr>\<rparr>\<rparr>,
     gi_exact_diff_manifest_sha256 = ''m''\<rparr>"

definition empty_inventory :: inventory where
  "empty_inventory = \<lparr>in_complete = True, in_notes = []\<rparr>"

lemma str_chars_ascii: "list_all (\<lambda>b. (of_char b :: nat) < 128) s \<Longrightarrow> str_chars s = map of_char s"
  by (induction s rule: str_chars.induct) auto

lemma contains_prefix_angle: "CHR ''<'' \<notin> set s \<Longrightarrow> \<not> contains publication_marker_prefix s"
  using contains_set [of publication_marker_prefix s] by (auto simp: publication_marker_prefix_def)

lemma valid_as:
  assumes "0 < n" and "n \<le> max_comment_bytes"
  shows "validate_candidate \<lparr>pc_target = t, pc_body = replicate n (CHR ''a'')\<rparr> = Inr ()"
proof -
  have chars: "str_chars (replicate n (CHR ''a'')) = replicate n 97"
    by (subst str_chars_ascii) (simp_all add: list_all_iff)
  have "\<not> contains publication_marker_prefix (replicate n (CHR ''a''))"
    by (rule contains_prefix_angle) simp
  then show ?thesis
    using assms by (simp add: validate_candidate_def blank_def chars char_is_whitespace_def
        char_is_control_def list_ex_iff list_all_iff)
qed

lemma length_sample_marker: "length (marker_render (marker_of sample_codec s t b)) \<le> 200 \<and>
    100 \<le> length (marker_render (marker_of sample_codec s t b))"
  by (cases t) (simp_all add: marker_render_def marker_of_def sample_codec_def scope_digest_def
      publication_marker_prefix_def marker_suffix_def)

definition sample_candidate :: candidate where
  "sample_candidate = \<lparr>pc_target = Summary, pc_body = replicate 2 (CHR ''a'')\<rparr>"

lemma sample_plannable: "plannable sample_codec sample_snapshot 1 [sample_candidate] empty_inventory"
proof -
  have valid: "validate_candidate sample_candidate = Inr ()"
    unfolding sample_candidate_def by (rule valid_as) (simp_all add: max_comment_bytes_def)
  have "length (marker_render (marker_of sample_codec (GitLab sample_snapshot) Summary (replicate 2 (CHR ''a'')))) \<le> 200"
    using length_sample_marker by blast
  then have "fits_comment sample_codec sample_snapshot sample_candidate"
    by (simp add: fits_comment_def prepared_of_def Let_def max_comment_bytes_def sample_candidate_def)
  moreover have "owned_matches c b empty_inventory p = []" for c b p
    by (simp add: owned_matches_def exact_matches_def empty_inventory_def split: option.split)
  ultimately show ?thesis
    using valid by (simp add: plannable_def empty_inventory_def validate_inventory_def
        max_existing_notes_def max_candidates_def)
qed


text \<open>
  The planner can panic.  A body of 16384 bytes is a valid candidate, and with its
  marker it is too long for a comment; instead of refusing it the planner stops at
  \<open>expect("validated publication candidate prepares infallibly")\<close>.
\<close>

theorem planner_can_panic:
  "validate_candidate \<lparr>pc_target = Summary, pc_body = replicate 16384 (CHR ''a'')\<rparr> = Inr () \<and>
   build_publication_plan sample_codec sample_snapshot 1
     [\<lparr>pc_target = Summary, pc_body = replicate 16384 (CHR ''a'')\<rparr>] empty_inventory = Inl Panicked"
proof -
  let ?b = "replicate 16384 (CHR ''a'')"
  have valid: "validate_candidate \<lparr>pc_target = Summary, pc_body = ?b\<rparr> = Inr ()"
    by (rule valid_as) (simp_all add: max_comment_bytes_def)
  have "\<not> fits_comment sample_codec sample_snapshot \<lparr>pc_target = Summary, pc_body = ?b\<rparr>"
    by (simp add: fits_comment_def prepared_of_def Let_def max_comment_bytes_def)
  then have "prepare_candidate sample_codec sample_snapshot \<lparr>pc_target = Summary, pc_body = ?b\<rparr> s = Inl Panicked" for s
    by (simp add: prepare_candidate_def valid prepare_publication_eq [OF valid])
  then show ?thesis
    using valid by (simp add: build_publication_plan_def empty_inventory_def validate_inventory_def
        max_existing_notes_def max_candidates_def)
qed

end
