(* ===== verification/Publication_Decided.thy ===== *)
theory Publication_Decided
  imports Publication_Planned
begin

text \<open>
  What a built plan decides, in terms of the notes of the inventory: the search of the
  planner, \<open>owned_matches\<close>, finds the notes of the bot that carry the marker of a
  publication or, when there are none, those that continue its lineage.
\<close>

section \<open>Notes of the bot\<close>

definition bot_note :: "u64 \<Rightarrow> inventory \<Rightarrow> existing_note \<Rightarrow> bool" where
  "bot_note b i n \<longleftrightarrow> n \<in> set (in_notes i) \<and> no_author_user_id n = b"

definition marks :: "prepared \<Rightarrow> existing_note \<Rightarrow> bool" where
  "marks p n \<longleftrightarrow> terminal_marker n = Some (pp_marker p)"

definition continues :: "codec \<Rightarrow> prepared \<Rightarrow> existing_note \<Rightarrow> bool" where
  "continues c p n \<longleftrightarrow>
     finding_lineage_id (co_sha c) (pp_body p) \<noteq> None \<and>
     finding_lineage_id (co_sha c) (no_body n) = finding_lineage_id (co_sha c) (pp_body p)"

lemma exact_set: "n \<in> set (exact_matches b i (pp_marker p)) \<longleftrightarrow> bot_note b i n \<and> marks p n"
  by (auto simp: exact_matches_def bot_note_def marks_def)

lemma owned_set:
  "n \<in> set (owned_matches c b i p) \<longleftrightarrow> bot_note b i n \<and>
     (marks p n \<or> (\<forall>m. bot_note b i m \<longrightarrow> \<not> marks p m) \<and> continues c p n)"
proof (cases "exact_matches b i (pp_marker p) = []")
  case True
  then have none: "\<not> (bot_note b i m \<and> marks p m)" for m
    using exact_set [of m b i p] by simp
  have "n \<in> set (owned_matches c b i p) \<longleftrightarrow> bot_note b i n \<and> continues c p n"
    using True by (cases "finding_lineage_id (co_sha c) (pp_body p)")
      (auto simp: owned_matches_def continues_def bot_note_def)
  then show ?thesis using none by blast
next
  case False
  then obtain m where m: "m \<in> set (exact_matches b i (pp_marker p))"
    by (cases "exact_matches b i (pp_marker p)") auto
  have "owned_matches c b i p = exact_matches b i (pp_marker p)"
    using False by (simp add: owned_matches_def)
  then show ?thesis using exact_set [of _ b i p] m by metis
qed

lemma owned_none:
  "owned_matches c b i p = [] \<longleftrightarrow> (\<forall>n. bot_note b i n \<longrightarrow> \<not> marks p n \<and> \<not> continues c p n)"
proof -
  have "owned_matches c b i p = [] \<longleftrightarrow> (\<forall>n. n \<notin> set (owned_matches c b i p))"
    by (cases "owned_matches c b i p") auto
  then show ?thesis unfolding owned_set by blast
qed

section \<open>Properties\<close>


text \<open>Another user has copied the note the bot would write.\<close>

definition copied_note :: existing_note where
  "copied_note = \<lparr>no_note_id = 7, no_author_user_id = 2, no_author_username = None,
     no_body = pp_marked_body (prepared_of sample_codec sample_snapshot sample_candidate),
     no_discussion_id = None, no_resolvable = False, no_resolved = False, no_resolved_by_user_id = None,
     no_created_at = None, no_updated_at = None, no_resolved_at = None, no_path = None, no_line = None,
     no_original_line = None\<rparr>"

definition copied_inventory :: inventory where
  "copied_inventory = \<lparr>in_complete = True, in_notes = [copied_note]\<rparr>"

lemma copied_marker:
  "terminal_marker copied_note = Some (pp_marker (prepared_of sample_codec sample_snapshot sample_candidate))"
proof -
  let ?m = "pp_marker (prepared_of sample_codec sample_snapshot sample_candidate)"
  have parts: "pm_scope_sha256 ?m = replicate 64 (CHR ''0'')" "pm_fingerprint_sha256 ?m = replicate 64 (CHR ''0'')"
      "pm_target_kind ?m = SummaryKind"
    by (simp_all add: prepared_of_def Let_def marker_of_def scope_digest_def sample_codec_def sample_candidate_def)
  have "nl \<notin> set (marker_render ?m)"
    by (auto simp: marker_render_def parts publication_marker_prefix_def marker_suffix_def)
  moreover have "no_body copied_note = ''aa'' @ nl # marker_render ?m"
    by (simp add: copied_note_def prepared_of_def Let_def sample_candidate_def numeral_2_eq_2)
  moreover have "nl \<notin> set ''aa''" by (simp add:)
  ultimately have "last (split_on nl (no_body copied_note)) = marker_render ?m"
    by simp
  moreover have "valid_marker ?m"
    by (simp add: valid_marker_def parts valid_digest_def is_lower_hex_def list_all_iff is_ascii_digit_def)
  ultimately show ?thesis by (simp add: terminal_marker_def marker_parse_Some)
qed

lemma copied_plannable: "plannable sample_codec sample_snapshot 1 [sample_candidate] copied_inventory"
proof -
  have "owned_matches c 1 copied_inventory p = []" for c p
    unfolding owned_none bot_note_def by (simp add: copied_inventory_def copied_note_def)
  then show ?thesis
    using sample_plannable
    by (simp add: plannable_def copied_inventory_def copied_note_def validate_inventory_def
        max_existing_notes_def check_note_def)
qed


end
