(* ===== verification/Journal.thy ===== *)
theory Journal
  imports Publication_Planned
begin

text \<open>
  The publication journal, the second part of \<open>crates/revoot-core/src/publication.rs\<close>: the
  state machine that records intent before each action, confirms or reconciles its
  outcome, and validates itself before every transition.
\<close>

section \<open>The journal\<close>

datatype journal_state =
    JournalReady u32 | AwaitingOutcome u32 | AmbiguousOutcome u32 | JournalCompleted
  | StoppedStale u32 | JournalFailed u32

datatype journal_outcome = Created u64 | NoOpDone u64 | Reconciled u64

record journal_entry =
  je_action :: u32
  je_fingerprint_sha256 :: sha256_digest
  je_outcome :: journal_outcome

record journal =
  jo_schema_version :: string
  jo_plan_sha256 :: sha256_digest
  jo_snapshot :: gitlab_snapshot_identity
  jo_bot_user_id :: u64
  jo_actions :: "publication_action list"
  jo_state :: journal_state
  jo_entries :: "journal_entry list"

definition journal_schema_version :: string where
  "journal_schema_version = ''revoot.publication-journal/v1''"

datatype journal_error =
    RetainedState | InvalidState | StaleSnapshot | JournalIndex | JournalNoteIdentity
  | JournalInventory | JournalAmbiguousOwnedMatch

datatype journal_replay_error =
    JournalSchemaVersion | JournalPlan replay_error | EntryCount | EntryIndex | EntryOutcome
  | JournalStateError

datatype reconciliation = RetryAuthorized | Recovered u64

definition journal_try_new :: "codec \<Rightarrow> publication_plan \<Rightarrow> replay_error fault + journal" where
  "journal_try_new c p =
     and_then (plan_validate_replay c p) (\<lambda>_.
     Inr \<lparr>jo_schema_version = journal_schema_version, jo_plan_sha256 = pl_plan_sha256 p,
       jo_snapshot = pl_snapshot p, jo_bot_user_id = pl_bot_user_id p, jo_actions = pl_actions p,
       jo_state = (if pl_actions p = [] then JournalCompleted else JournalReady 0),
       jo_entries = []\<rparr>)"

definition retained_plan :: "journal \<Rightarrow> publication_plan" where
  "retained_plan j =
     \<lparr>pl_schema_version = plan_schema_version, pl_snapshot = jo_snapshot j,
      pl_bot_user_id = jo_bot_user_id j, pl_actions = jo_actions j,
      pl_plan_sha256 = jo_plan_sha256 j\<rparr>"

fun valid_outcome :: "decision \<Rightarrow> journal_outcome \<Rightarrow> bool" where
  "valid_outcome CreateNote (Created note_id) = (note_id \<noteq> 0)"
| "valid_outcome CreateNote (Reconciled note_id) = (note_id \<noteq> 0)"
| "valid_outcome (NoOp existing) (NoOpDone note_id) = (note_id = existing)"
| "valid_outcome _ _ = False"

text \<open>The loop over the entries; the state is the index of the next one.\<close>

definition check_entry ::
    "publication_action list \<Rightarrow> journal_entry \<Rightarrow> nat \<Rightarrow> journal_replay_error fault + nat" where
  "check_entry actions e index =
     (case try_word index of
        None \<Rightarrow> Inl (Returned EntryIndex)
      | Some expected \<Rightarrow>
          if length actions \<le> index then Inl (Returned EntryIndex)
          else
            let a = actions ! index in
            if je_action e \<noteq> expected
              \<or> je_fingerprint_sha256 e \<noteq> pm_fingerprint_sha256 (pp_marker (pa_publication a))
            then Inl (Returned EntryIndex)
            else if \<not> valid_outcome (pa_decision a) (je_outcome e)
            then Inl (Returned EntryOutcome)
            else Inr (index + 1))"

fun valid_state :: "publication_action list \<Rightarrow> u32 \<Rightarrow> u32 \<Rightarrow> journal_state \<Rightarrow> bool" where
  "valid_state actions completed n (JournalReady next) \<longleftrightarrow> next = completed \<and> next < n"
| "valid_state actions completed n (AwaitingOutcome action) \<longleftrightarrow> action = completed \<and> action < n"
| "valid_state actions completed n (AmbiguousOutcome action) \<longleftrightarrow>
     action = completed \<and> action < n \<and> pa_decision (actions ! unat action) = CreateNote"
| "valid_state actions completed n JournalCompleted \<longleftrightarrow> completed = n"
| "valid_state actions completed n (StoppedStale before) \<longleftrightarrow> before = completed \<and> before < n"
| "valid_state actions completed n (JournalFailed action) \<longleftrightarrow> action = completed \<and> action < n"

definition journal_validate_replay :: "codec \<Rightarrow> journal \<Rightarrow> journal_replay_error fault + unit" where
  "journal_validate_replay c j =
     (if jo_schema_version j \<noteq> journal_schema_version then Inl (Returned JournalSchemaVersion)
      else
        and_then (map_err (wrap_fault JournalPlan) (plan_validate_replay c (retained_plan j))) (\<lambda>_.
        if length (jo_actions j) < length (jo_entries j) then Inl (Returned EntryCount)
        else
          and_then (try_fold (check_entry (jo_actions j)) (jo_entries j) 0) (\<lambda>_.
          case (try_word (length (jo_entries j)), try_word (length (jo_actions j))) of
            (Some completed, Some n) \<Rightarrow>
              if valid_state (jo_actions j) completed n (jo_state j) then Inr ()
              else Inl (Returned JournalStateError)
          | _ \<Rightarrow> Inl (Returned JournalStateError))))"

section \<open>Transitions\<close>

type_synonym 'a journal_call = "(journal_error fault + 'a) \<times> journal"

text \<open>\<open>self.validate_replay().map_err(|_| RetainedState)?\<close>\<close>

definition retained_ok :: "codec \<Rightarrow> journal \<Rightarrow> journal_error fault + unit" where
  "retained_ok c j = map_err (wrap_fault (\<lambda>_. RetainedState)) (journal_validate_replay c j)"

definition begin_next ::
    "codec \<Rightarrow> gitlab_snapshot_identity \<Rightarrow> journal \<Rightarrow> publication_action journal_call" where
  "begin_next c observed j =
     and_lift (retained_ok c j) j (\<lambda>_.
     case jo_state j of
       JournalReady next \<Rightarrow>
         if observed \<noteq> jo_snapshot j
         then (Inl (Returned StaleSnapshot), j\<lparr>jo_state := StoppedStale next\<rparr>)
         else if length (jo_actions j) \<le> unat next then (Inl (Returned JournalIndex), j)
         else (Inr (jo_actions j ! unat next), j\<lparr>jo_state := AwaitingOutcome next\<rparr>)
     | _ \<Rightarrow> (Inl (Returned InvalidState), j))"

definition awaiting_index :: "journal \<Rightarrow> journal_error fault + nat" where
  "awaiting_index j =
     (case jo_state j of AwaitingOutcome action \<Rightarrow> Inr (unat action)
      | _ \<Rightarrow> Inl (Returned InvalidState))"

text \<open>
  \<open>complete_current\<close>: the entry is pushed before the next index is computed, and stays
  when that overflows.
\<close>

definition complete_current :: "journal_outcome \<Rightarrow> journal \<Rightarrow> unit journal_call" where
  "complete_current out j =
     (case (case jo_state j of AwaitingOutcome a \<Rightarrow> Some a | AmbiguousOutcome a \<Rightarrow> Some a | _ \<Rightarrow> None) of
        None \<Rightarrow> (Inl (Returned InvalidState), j)
      | Some action \<Rightarrow>
          if length (jo_actions j) \<le> unat action then (Inl (Returned JournalIndex), j)
          else
            let fingerprint =
                  pm_fingerprint_sha256 (pp_marker (pa_publication (jo_actions j ! unat action)));
                j' = j\<lparr>jo_entries := jo_entries j @ [\<lparr>je_action = action,
                  je_fingerprint_sha256 = fingerprint, je_outcome = out\<rparr>]\<rparr>
            in case checked_add action 1 of
                 None \<Rightarrow> (Inl (Returned JournalIndex), j')
               | Some next \<Rightarrow>
                   (Inr (), j'\<lparr>jo_state := (if unat next = length (jo_actions j)
                     then JournalCompleted else JournalReady next)\<rparr>))"

definition fail_current :: "journal_error \<Rightarrow> journal \<Rightarrow> 'a journal_call" where
  "fail_current e j =
     (case jo_state j of
        AwaitingOutcome a \<Rightarrow> (Inl (Returned e), j\<lparr>jo_state := JournalFailed a\<rparr>)
      | AmbiguousOutcome a \<Rightarrow> (Inl (Returned e), j\<lparr>jo_state := JournalFailed a\<rparr>)
      | JournalReady a \<Rightarrow> (Inl (Returned e), j\<lparr>jo_state := JournalFailed a\<rparr>)
      | _ \<Rightarrow> (Inl (Returned e), j))"

text \<open>Indexing with \<open>self.actions[i]\<close> panics out of range.\<close>

definition action_at :: "journal \<Rightarrow> nat \<Rightarrow> journal_error fault + publication_action" where
  "action_at j i =
     (if i < length (jo_actions j) then Inr (jo_actions j ! i) else Inl Panicked)"

definition confirm :: "codec \<Rightarrow> u64 \<Rightarrow> journal \<Rightarrow> unit journal_call" where
  "confirm c note_id j =
     and_lift (retained_ok c j) j (\<lambda>_.
     if note_id = 0 then fail_current JournalNoteIdentity j
     else
       and_lift (awaiting_index j) j (\<lambda>i.
       and_lift (action_at j i) j (\<lambda>action.
       case pa_decision action of
         CreateNote \<Rightarrow> complete_current (Created note_id) j
       | NoOp existing \<Rightarrow>
           if existing = note_id then complete_current (NoOpDone note_id) j
           else fail_current JournalNoteIdentity j)))"

definition mark_ambiguous :: "codec \<Rightarrow> journal \<Rightarrow> unit journal_call" where
  "mark_ambiguous c j =
     and_lift (retained_ok c j) j (\<lambda>_.
     and_lift (awaiting_index j) j (\<lambda>i.
     and_lift (action_at j i) j (\<lambda>action.
     if pa_decision action \<noteq> CreateNote then fail_current InvalidState j
     else case try_word i of
         None \<Rightarrow> (Inl (Returned JournalIndex), j)
       | Some a \<Rightarrow> (Inr (), j\<lparr>jo_state := AmbiguousOutcome a\<rparr>))))"

definition reconcile_ambiguous :: "codec \<Rightarrow> inventory \<Rightarrow> journal \<Rightarrow> reconciliation journal_call" where
  "reconcile_ambiguous c i j =
     and_lift (retained_ok c j) j (\<lambda>_.
     case jo_state j of
       AmbiguousOutcome action \<Rightarrow>
         and_lift (map_err (\<lambda>_. Returned JournalInventory) (validate_inventory i)) j (\<lambda>_.
         if length (jo_actions j) \<le> unat action then (Inl (Returned JournalIndex), j)
         else
           case exact_matches (jo_bot_user_id j) i
               (pp_marker (pa_publication (jo_actions j ! unat action))) of
             [] \<Rightarrow> (Inr RetryAuthorized, j\<lparr>jo_state := JournalReady action\<rparr>)
           | [n] \<Rightarrow>
               and_run (complete_current (Reconciled (no_note_id n)) j) (\<lambda>_ j.
               (Inr (Recovered (no_note_id n)), j))
           | _ \<Rightarrow> fail_current JournalAmbiguousOwnedMatch j)
     | _ \<Rightarrow> (Inl (Returned InvalidState), j))"

definition stop_stale :: "codec \<Rightarrow> journal \<Rightarrow> unit journal_call" where
  "stop_stale c j =
     and_lift (retained_ok c j) j (\<lambda>_.
     case jo_state j of
       JournalReady next \<Rightarrow> (Inr (), j\<lparr>jo_state := StoppedStale next\<rparr>)
     | _ \<Rightarrow> (Inl (Returned InvalidState), j))"

definition journal_fail :: "codec \<Rightarrow> journal \<Rightarrow> unit journal_call" where
  "journal_fail c j =
     and_lift (retained_ok c j) j (\<lambda>_.
     case jo_state j of
       AwaitingOutcome a \<Rightarrow> (Inr (), j\<lparr>jo_state := JournalFailed a\<rparr>)
     | AmbiguousOutcome a \<Rightarrow> (Inr (), j\<lparr>jo_state := JournalFailed a\<rparr>)
     | JournalReady a \<Rightarrow> (Inr (), j\<lparr>jo_state := JournalFailed a\<rparr>)
     | _ \<Rightarrow> (Inl (Returned InvalidState), j))"

section \<open>The journal as a transition system\<close>

datatype journal_op =
    BeginNext gitlab_snapshot_identity
  | Confirm u64
  | MarkAmbiguous
  | Reconcile inventory
  | StopStale
  | FailJournal

fun journal_do :: "codec \<Rightarrow> journal_op \<Rightarrow> journal \<Rightarrow> journal" where
  "journal_do c (BeginNext observed) j = snd (begin_next c observed j)"
| "journal_do c (Confirm note_id) j = snd (confirm c note_id j)"
| "journal_do c MarkAmbiguous j = snd (mark_ambiguous c j)"
| "journal_do c (Reconcile i) j = snd (reconcile_ambiguous c i j)"
| "journal_do c StopStale j = snd (stop_stale c j)"
| "journal_do c FailJournal j = snd (journal_fail c j)"

text \<open>What validation accepts.\<close>

definition entry_ok :: "publication_action list \<Rightarrow> nat \<Rightarrow> journal_entry \<Rightarrow> bool" where
  "entry_ok actions i e \<longleftrightarrow>
     i < length actions \<and> unat (je_action e) = i \<and>
     je_fingerprint_sha256 e = pm_fingerprint_sha256 (pp_marker (pa_publication (actions ! i))) \<and>
     valid_outcome (pa_decision (actions ! i)) (je_outcome e)"

lemma check_entry_Inr:
  "check_entry actions e i = Inr k \<longleftrightarrow> k = i + 1 \<and> entry_ok actions i e"
proof (cases "try_word i :: u32 option")
  case None
  have "unat (je_action e) \<noteq> i"
  proof
    assume "unat (je_action e) = i"
    then have "(try_word i :: u32 option) = Some (je_action e)" by (simp add: try_word_Some)
    then show False using None by simp
  qed
  then show ?thesis using None by (simp add: check_entry_def entry_ok_def)
next
  case (Some w)
  then have "unat w = i" by (simp add: try_word_Some)
  then have "je_action e = w \<longleftrightarrow> unat (je_action e) = i" by (auto simp: word_unat_eq_iff)
  then show ?thesis using Some by (auto simp: check_entry_def entry_ok_def Let_def)
qed

definition entries_ok :: "publication_action list \<Rightarrow> journal_entry list \<Rightarrow> bool" where
  "entries_ok actions es \<longleftrightarrow> (\<forall>i < length es. entry_ok actions i (es ! i))"

lemma check_entries_Inr:
  "try_fold (check_entry actions) es k = Inr m \<longleftrightarrow>
     m = k + length es \<and> (\<forall>i < length es. entry_ok actions (k + i) (es ! i))"
proof (induction es arbitrary: k)
  case (Cons e es)
  have split: "(\<forall>i < Suc (length es). entry_ok actions (k + i) ((e # es) ! i)) \<longleftrightarrow>
      entry_ok actions k e \<and> (\<forall>i < length es. entry_ok actions (Suc k + i) (es ! i))"
    by (simp add: All_less_Suc2)
  show ?case using Cons by (auto simp: result_simps check_entry_Inr split)
qed auto

definition state_ok :: "journal \<Rightarrow> bool" where
  "state_ok j \<longleftrightarrow>
     (case jo_state j of
        JournalReady n \<Rightarrow> unat n = length (jo_entries j) \<and> unat n < length (jo_actions j)
      | AwaitingOutcome n \<Rightarrow> unat n = length (jo_entries j) \<and> unat n < length (jo_actions j)
      | AmbiguousOutcome n \<Rightarrow> unat n = length (jo_entries j) \<and> unat n < length (jo_actions j) \<and>
          pa_decision (jo_actions j ! unat n) = CreateNote
      | JournalCompleted \<Rightarrow> length (jo_entries j) = length (jo_actions j)
      | StoppedStale n \<Rightarrow> unat n = length (jo_entries j) \<and> unat n < length (jo_actions j)
      | JournalFailed n \<Rightarrow> unat n = length (jo_entries j) \<and> unat n < length (jo_actions j))"

definition journal_ok :: "codec \<Rightarrow> journal \<Rightarrow> bool" where
  "journal_ok c j \<longleftrightarrow>
     jo_schema_version j = journal_schema_version \<and>
     plan_validate_replay c (retained_plan j) = Inr () \<and>
     length (jo_entries j) \<le> length (jo_actions j) \<and>
     entries_ok (jo_actions j) (jo_entries j) \<and> state_ok j"

lemma plan_valid_length: "plan_validate_replay c p = Inr u \<Longrightarrow> length (pl_actions p) \<le> 1000"
  by (auto simp: plan_validate_replay_def max_candidates_def split: if_splits)

lemma valid_state_iff:
  assumes "try_word (length (jo_entries j)) = Some completed" and "try_word (length (jo_actions j)) = Some n"
  shows "valid_state (jo_actions j) completed n (jo_state j) \<longleftrightarrow> state_ok j"
proof -
  have "unat completed = length (jo_entries j)" "unat n = length (jo_actions j)"
    using assms by (simp_all add: try_word_Some)
  then show ?thesis
    by (cases "jo_state j") (auto simp: state_ok_def word_unat_eq_iff word_less_nat_alt)
qed

lemma journal_valid_iff: "journal_validate_replay c j = Inr () \<longleftrightarrow> journal_ok c j"
proof (cases "plan_validate_replay c (retained_plan j)")
  case (Inl f)
  then show ?thesis by (simp add: journal_validate_replay_def journal_ok_def)
next
  case (Inr u)
  then have small: "length (jo_actions j) \<le> 1000" using plan_valid_length [OF Inr] by (simp add: retained_plan_def)
  show ?thesis
  proof (cases "length (jo_entries j) \<le> length (jo_actions j)")
    case False
    then show ?thesis by (simp add: journal_validate_replay_def journal_ok_def result_simps)
  next
    case True
    define completed n :: u32 where "completed = of_nat (length (jo_entries j))"
      and "n = of_nat (length (jo_actions j))"
    have tw: "try_word (length (jo_entries j)) = Some completed" "try_word (length (jo_actions j)) = Some n"
      using small True by (simp_all add: try_word_def completed_def n_def)
    show ?thesis
      using Inr True valid_state_iff [OF tw] check_entries_Inr [of "jo_actions j" "jo_entries j" 0]
      by (auto simp: journal_validate_replay_def journal_ok_def entries_ok_def tw result_simps split: if_splits)
  qed
qed

lemma retained_ok_eq: "journal_ok c j \<Longrightarrow> retained_ok c j = Inr ()"
  using journal_valid_iff [of c j] by (simp add: retained_ok_def)

text \<open>A change of state, and the completion of the current action, keep the journal valid.\<close>

lemma journal_ok_state:
  "journal_ok c j \<Longrightarrow> state_ok (j\<lparr>jo_state := s\<rparr>) \<Longrightarrow> journal_ok c (j\<lparr>jo_state := s\<rparr>)"
  by (simp add: journal_ok_def retained_plan_def)

lemma entries_ok_snoc:
  "entries_ok actions es \<Longrightarrow> entry_ok actions (length es) e \<Longrightarrow> entries_ok actions (es @ [e])"
  by (auto simp: entries_ok_def nth_append less_Suc_eq)

definition current_action :: "journal \<Rightarrow> u32 \<Rightarrow> bool" where
  "current_action j a \<longleftrightarrow> jo_state j = AwaitingOutcome a \<or> jo_state j = AmbiguousOutcome a"

lemma complete_current_ok:
  assumes ok: "journal_ok c j" and current: "current_action j a"
    and out: "valid_outcome (pa_decision (jo_actions j ! unat a)) out"
  shows "\<exists>j'. complete_current out j = (Inr (), j') \<and> journal_ok c j' \<and>
    jo_entries j' = jo_entries j @ [\<lparr>je_action = a,
      je_fingerprint_sha256 = pm_fingerprint_sha256 (pp_marker (pa_publication (jo_actions j ! unat a))),
      je_outcome = out\<rparr>] \<and>
    (jo_state j' = JournalCompleted \<or> jo_state j' = JournalReady (a + 1))"
proof -
  have a: "unat a = length (jo_entries j)" "unat a < length (jo_actions j)"
    using ok current by (auto simp: journal_ok_def state_ok_def current_action_def)
  have "length (jo_actions j) \<le> 1000"
    using ok plan_valid_length [of c "retained_plan j"] by (auto simp: journal_ok_def retained_plan_def)
  then have small: "unat a + unat (1 :: u32) < 2 ^ LENGTH(32)" using a by simp
  then have succ: "checked_add a 1 = Some (a + 1)" "unat (a + 1) = unat a + 1"
    using unat_plus_small [OF small] by (simp_all add: checked_add_def)
  let ?e = "\<lparr>je_action = a,
      je_fingerprint_sha256 = pm_fingerprint_sha256 (pp_marker (pa_publication (jo_actions j ! unat a))),
      je_outcome = out\<rparr>"
  let ?j = "j\<lparr>jo_entries := jo_entries j @ [?e], jo_state := (if unat (a + 1) = length (jo_actions j)
      then JournalCompleted else JournalReady (a + 1))\<rparr>"
  have "(case jo_state j of AwaitingOutcome a \<Rightarrow> Some a | AmbiguousOutcome a \<Rightarrow> Some a | _ \<Rightarrow> None) = Some a"
    using current by (auto simp: current_action_def)
  then have run: "complete_current out j = (Inr (), ?j)"
    using a(2) succ by (simp add: complete_current_def Let_def)
  have "entry_ok (jo_actions j) (length (jo_entries j)) ?e" using a out by (simp add: entry_ok_def)
  then have "journal_ok c ?j"
    using ok a succ(2) entries_ok_snoc by (auto simp: journal_ok_def retained_plan_def state_ok_def)
  then show ?thesis using run by simp
qed

lemma fail_current_ok: "journal_ok c j \<Longrightarrow> journal_ok c (snd (fail_current e j))"
  by (auto simp: fail_current_def intro!: journal_ok_state split: journal_state.split)
    (auto simp: journal_ok_def state_ok_def)

lemma begin_next_ok: "journal_ok c j \<Longrightarrow> journal_ok c (snd (begin_next c observed j))"
  by (auto simp: begin_next_def retained_ok_eq intro!: journal_ok_state split: journal_state.split)
    (auto simp: journal_ok_def state_ok_def)

lemma stop_stale_ok: "journal_ok c j \<Longrightarrow> journal_ok c (snd (stop_stale c j))"
  by (auto simp: stop_stale_def retained_ok_eq intro!: journal_ok_state split: journal_state.split)
    (auto simp: journal_ok_def state_ok_def)

lemma journal_fail_ok: "journal_ok c j \<Longrightarrow> journal_ok c (snd (journal_fail c j))"
  by (auto simp: journal_fail_def retained_ok_eq intro!: journal_ok_state split: journal_state.split)
    (auto simp: journal_ok_def state_ok_def)

lemma awaiting_in_range:
  "journal_ok c j \<Longrightarrow> jo_state j = AwaitingOutcome a \<Longrightarrow> action_at j (unat a) = Inr (jo_actions j ! unat a)"
  by (simp add: journal_ok_def state_ok_def action_at_def)

lemma confirm_ok:
  assumes "journal_ok c j"
  shows "journal_ok c (snd (confirm c note_id j))"
proof (cases "\<exists>a. note_id \<noteq> 0 \<and> jo_state j = AwaitingOutcome a")
  case False
  then show ?thesis
    using assms fail_current_ok [OF assms]
    by (auto simp: confirm_def retained_ok_eq awaiting_index_def split: journal_state.split)
next
  case True
  then obtain a where a: "note_id \<noteq> 0" "jo_state j = AwaitingOutcome a" by blast
  then have current: "current_action j a" by (simp add: current_action_def)
  have run: "confirm c note_id j =
      (case pa_decision (jo_actions j ! unat a) of
         CreateNote \<Rightarrow> complete_current (Created note_id) j
       | NoOp existing \<Rightarrow>
           if existing = note_id then complete_current (NoOpDone note_id) j
           else fail_current JournalNoteIdentity j)"
    using a awaiting_in_range [OF assms a(2)]
    by (simp add: confirm_def retained_ok_eq [OF assms] awaiting_index_def)
  show ?thesis
  proof (cases "pa_decision (jo_actions j ! unat a)")
    case CreateNote
    then show ?thesis
      using complete_current_ok [OF assms current, of "Created note_id"] a(1) run by auto
  next
    case (NoOp existing)
    then show ?thesis
      using complete_current_ok [OF assms current, of "NoOpDone note_id"] fail_current_ok [OF assms] run
      by auto
  qed
qed

lemma mark_ambiguous_ok:
  assumes "journal_ok c j"
  shows "journal_ok c (snd (mark_ambiguous c j))"
proof (cases "\<exists>a. jo_state j = AwaitingOutcome a")
  case False
  then show ?thesis
    using assms by (auto simp: mark_ambiguous_def retained_ok_eq awaiting_index_def split: journal_state.split)
next
  case True
  then obtain a where a: "jo_state j = AwaitingOutcome a" by blast
  have "(try_word (unat a) :: u32 option) = Some a" by (simp add: try_word_Some)
  then show ?thesis
    using a awaiting_in_range [OF assms a] fail_current_ok [OF assms] assms
    by (auto simp: mark_ambiguous_def retained_ok_eq awaiting_index_def intro!: journal_ok_state)
      (auto simp: journal_ok_def state_ok_def)
qed

lemma reconcile_ambiguous_ok:
  assumes "journal_ok c j"
  shows "journal_ok c (snd (reconcile_ambiguous c i j))"
proof (cases "\<exists>a. jo_state j = AmbiguousOutcome a \<and> validate_inventory i = Inr ()")
  case False
  then show ?thesis
    using assms
    by (cases "validate_inventory i")
      (auto simp: reconcile_ambiguous_def retained_ok_eq split: journal_state.split)
next
  case True
  then obtain a where a: "jo_state j = AmbiguousOutcome a" and inv: "validate_inventory i = Inr ()" by blast
  then have current: "current_action j a" by (simp add: current_action_def)
  have range: "\<not> length (jo_actions j) \<le> unat a" "pa_decision (jo_actions j ! unat a) = CreateNote"
    using assms a by (auto simp: journal_ok_def state_ok_def)
  let ?m = "exact_matches (jo_bot_user_id j) i (pp_marker (pa_publication (jo_actions j ! unat a)))"
  have run: "reconcile_ambiguous c i j = (case ?m of
        [] \<Rightarrow> (Inr RetryAuthorized, j\<lparr>jo_state := JournalReady a\<rparr>)
      | [n] \<Rightarrow> and_run (complete_current (Reconciled (no_note_id n)) j) (\<lambda>_ j.
          (Inr (Recovered (no_note_id n)), j))
      | _ \<Rightarrow> fail_current JournalAmbiguousOwnedMatch j)"
    using a inv range by (simp add: reconcile_ambiguous_def retained_ok_eq [OF assms])
  consider (none) "?m = []" | (one) n where "?m = [n]" | (many) n n' ns where "?m = n # n' # ns"
    by (metis list.exhaust)
  then show ?thesis
  proof cases
    case none
    then show ?thesis
      using run a assms by (auto intro!: journal_ok_state) (auto simp: journal_ok_def state_ok_def)
  next
    case (one n)
    then have "n \<in> set (in_notes i)" using exact_matches_notes by (metis list.set_intros(1) subsetD)
    then have "no_note_id n \<noteq> 0" using inventory_note_ids [OF inv] by blast
    then have "valid_outcome (pa_decision (jo_actions j ! unat a)) (Reconciled (no_note_id n))"
      using range(2) by simp
    from complete_current_ok [OF assms current this] obtain j' where
      "complete_current (Reconciled (no_note_id n)) j = (Inr (), j')" "journal_ok c j'" by blast
    then show ?thesis using run one by simp
  next
    case many
    then show ?thesis using run fail_current_ok [OF assms] by simp
  qed
qed

lemma journal_do_ok: "journal_ok c j \<Longrightarrow> journal_ok c (journal_do c op j)"
  by (cases op) (simp_all add: begin_next_ok confirm_ok mark_ambiguous_ok reconcile_ambiguous_ok
      stop_stale_ok journal_fail_ok)

definition journal_run :: "codec \<Rightarrow> journal_op list \<Rightarrow> journal \<Rightarrow> journal" where
  "journal_run c ops = fold (journal_do c) ops"

lemma journal_run_ok: "journal_ok c j \<Longrightarrow> journal_ok c (journal_run c ops j)"
  by (induction ops arbitrary: j) (simp_all add: journal_run_def journal_do_ok)

lemma journal_new_ok: "journal_try_new c p = Inr j \<Longrightarrow> journal_ok c j"
proof -
  assume new: "journal_try_new c p = Inr j"
  then have valid: "plan_validate_replay c p = Inr ()" by (auto simp: journal_try_new_def result_simps)
  then have "pl_schema_version p = plan_schema_version"
    by (auto simp: plan_validate_replay_def split: if_splits)
  moreover have j: "j = \<lparr>jo_schema_version = journal_schema_version, jo_plan_sha256 = pl_plan_sha256 p,
      jo_snapshot = pl_snapshot p, jo_bot_user_id = pl_bot_user_id p, jo_actions = pl_actions p,
      jo_state = (if pl_actions p = [] then JournalCompleted else JournalReady 0), jo_entries = []\<rparr>"
    using new by (auto simp: journal_try_new_def result_simps)
  ultimately have "retained_plan j = p" by (simp add: retained_plan_def)
  then show ?thesis
    using valid by (simp add: j journal_ok_def entries_ok_def state_ok_def)
qed

text \<open>How an action in hand can be handed back.\<close>

lemma fail_current_state: "jo_state (snd (fail_current e j)) = JournalReady a \<Longrightarrow> False"
  by (auto simp: fail_current_def split: journal_state.splits)

lemma complete_current_not_again:
  assumes "journal_ok c j" and "current_action j a" and "valid_outcome (pa_decision (jo_actions j ! unat a)) out"
  shows "jo_state (snd (complete_current out j)) \<noteq> JournalReady a"
  using complete_current_ok [OF assms] by auto

lemma confirm_not_again:
  assumes "journal_ok c j" and "current_action j a"
  shows "jo_state (snd (confirm c note_id j)) \<noteq> JournalReady a"
proof
  assume again: "jo_state (snd (confirm c note_id j)) = JournalReady a"
  have nz: "note_id \<noteq> 0"
  proof
    assume "note_id = 0"
    then have "snd (confirm c note_id j) = snd (fail_current JournalNoteIdentity j :: unit journal_call)"
      by (simp add: confirm_def retained_ok_eq [OF assms(1)])
    then show False using again fail_current_state by metis
  qed
  then have state: "jo_state j = AwaitingOutcome a"
    using again assms by (auto simp: confirm_def retained_ok_eq current_action_def awaiting_index_def)
  show False
  proof (cases "pa_decision (jo_actions j ! unat a)")
    case CreateNote
    then have "snd (confirm c note_id j) = snd (complete_current (Created note_id) j)"
      using nz state awaiting_in_range [OF assms(1) state]
      by (simp add: confirm_def retained_ok_eq [OF assms(1)] awaiting_index_def)
    then show False using again complete_current_not_again [OF assms, of "Created note_id"] CreateNote nz by simp
  next
    case (NoOp existing)
    then have "snd (confirm c note_id j) = (if existing = note_id then snd (complete_current (NoOpDone note_id) j)
        else snd (fail_current JournalNoteIdentity j :: unit journal_call))"
      using nz state awaiting_in_range [OF assms(1) state]
      by (simp add: confirm_def retained_ok_eq [OF assms(1)] awaiting_index_def)
    then show False
      using again complete_current_not_again [OF assms, of "NoOpDone note_id"] NoOp
        fail_current_state by (metis valid_outcome.simps(3))
  qed
qed

lemma mark_not_again:
  assumes "journal_ok c j" and "current_action j a"
  shows "jo_state (snd (mark_ambiguous c j)) \<noteq> JournalReady a"
proof (cases "jo_state j = AwaitingOutcome a")
  case False
  then show ?thesis
    using assms by (auto simp: mark_ambiguous_def retained_ok_eq current_action_def awaiting_index_def)
next
  case True
  have "(try_word (unat a) :: u32 option) = Some a" by (simp add: try_word_Some)
  then show ?thesis
    using True awaiting_in_range [OF assms(1) True] fail_current_state
    by (auto simp: mark_ambiguous_def retained_ok_eq [OF assms(1)] awaiting_index_def)
qed

lemma reconcile_again:
  assumes "journal_ok c j" and "current_action j a"
    and again: "jo_state (snd (reconcile_ambiguous c i j)) = JournalReady a"
  shows "jo_state j = AmbiguousOutcome a \<and> validate_inventory i = Inr () \<and>
    exact_matches (jo_bot_user_id j) i (pp_marker (pa_publication (jo_actions j ! unat a))) = []"
proof -
  have state: "jo_state j = AmbiguousOutcome a"
    using assms by (auto simp: reconcile_ambiguous_def retained_ok_eq current_action_def)
  have inv: "validate_inventory i = Inr ()"
    using again state by (cases "validate_inventory i")
      (auto simp: reconcile_ambiguous_def retained_ok_eq [OF assms(1)])
  have range: "\<not> length (jo_actions j) \<le> unat a" "pa_decision (jo_actions j ! unat a) = CreateNote"
    using assms(1) state by (auto simp: journal_ok_def state_ok_def)
  let ?m = "exact_matches (jo_bot_user_id j) i (pp_marker (pa_publication (jo_actions j ! unat a)))"
  have run: "reconcile_ambiguous c i j = (case ?m of
        [] \<Rightarrow> (Inr RetryAuthorized, j\<lparr>jo_state := JournalReady a\<rparr>)
      | [n] \<Rightarrow> and_run (complete_current (Reconciled (no_note_id n)) j) (\<lambda>_ j.
          (Inr (Recovered (no_note_id n)), j))
      | _ \<Rightarrow> fail_current JournalAmbiguousOwnedMatch j)"
    using state inv range by (simp add: reconcile_ambiguous_def retained_ok_eq [OF assms(1)])
  consider (none) "?m = []" | (one) n where "?m = [n]" | (many) n n' ns where "?m = n # n' # ns"
    by (metis list.exhaust)
  then show ?thesis
  proof cases
    case none
    then show ?thesis using state inv by blast
  next
    case (one n)
    then have "n \<in> set (in_notes i)" using exact_matches_notes by (metis list.set_intros(1) subsetD)
    then have "valid_outcome (pa_decision (jo_actions j ! unat a)) (Reconciled (no_note_id n))"
      using inventory_note_ids [OF inv] range(2) by simp
    from complete_current_ok [OF assms(1,2) this] obtain j' where
      "complete_current (Reconciled (no_note_id n)) j = (Inr (), j')"
      "jo_state j' = JournalCompleted \<or> jo_state j' = JournalReady (a + 1)" by blast
    then show ?thesis using again run one by auto
  next
    case many
    then have "snd (reconcile_ambiguous c i j) =
        snd (fail_current JournalAmbiguousOwnedMatch j :: reconciliation journal_call)"
      using run by simp
    then show ?thesis using again fail_current_state by metis
  qed
qed

section \<open>Properties\<close>

text \<open>
  \<^bold>\<open>C22.\<close>  A journal started from an intact plan stays valid under every sequence of
  calls, whatever the observed snapshots, note ids and inventories, so its own validation
  never stops it; and a completed journal holds exactly one entry per action, in order,
  each with an outcome its decision allows.
\<close>

theorem journal_always_replays:
  assumes "journal_try_new c p = Inr j0"
  shows "journal_validate_replay c (journal_run c ops j0) = Inr () \<and>
    (jo_state (journal_run c ops j0) = JournalCompleted \<longrightarrow>
      length (jo_entries (journal_run c ops j0)) = length (jo_actions (journal_run c ops j0)) \<and>
      (\<forall>i < length (jo_actions (journal_run c ops j0)).
         unat (je_action (jo_entries (journal_run c ops j0) ! i)) = i \<and>
         valid_outcome (pa_decision (jo_actions (journal_run c ops j0) ! i))
           (je_outcome (jo_entries (journal_run c ops j0) ! i))))"
proof -
  have ok: "journal_ok c (journal_run c ops j0)"
    by (rule journal_run_ok [OF journal_new_ok [OF assms]])
  then show ?thesis
    unfolding journal_valid_iff
    by (auto simp: journal_ok_def state_ok_def entries_ok_def entry_ok_def)
qed

definition sample_plan :: publication_plan where
  "sample_plan = (case build_publication_plan sample_codec sample_snapshot 1 [sample_candidate]
     empty_inventory of Inr p \<Rightarrow> p | Inl _ \<Rightarrow> undefined)"

lemma sample_journal: "\<exists>j. journal_try_new sample_codec sample_plan = Inr j"
proof (cases rule: build_plan_cases [of sample_codec sample_snapshot 1 "[sample_candidate]" empty_inventory])
  case (early f)
  then show ?thesis using sample_plannable by simp
next
  case (built plan)
  then show ?thesis by (simp add: sample_plan_def journal_try_new_def)
qed

theorem journal_always_replays_witness:
  "\<exists>j. journal_try_new sample_codec sample_plan = Inr j \<and>
     journal_validate_replay sample_codec
       (journal_run sample_codec [BeginNext sample_snapshot, MarkAmbiguous, Reconcile empty_inventory,
          BeginNext sample_snapshot, Confirm 7] j) = Inr ()"
proof -
  obtain j where j: "journal_try_new sample_codec sample_plan = Inr j" using sample_journal by blast
  then show ?thesis using journal_always_replays [OF j] by blast
qed

text \<open>
  \<^bold>\<open>C23.\<close>  No comment is created twice by mistake.  Once an action has been handed out, the
  journal authorizes it again only through a reconciliation with a valid, complete
  inventory in which the bot owns no note with the action's marker.
\<close>

theorem retry_only_after_clean_inventory:
  assumes "jo_state j = AwaitingOutcome a \<or> jo_state j = AmbiguousOutcome a"
    and "jo_state (journal_do c op j) = JournalReady a"
    and "journal_validate_replay c j = Inr ()"
  shows "\<exists>i. op = Reconcile i \<and> jo_state j = AmbiguousOutcome a \<and> validate_inventory i = Inr () \<and>
    (\<forall>n \<in> set (in_notes i). no_author_user_id n = jo_bot_user_id j \<longrightarrow>
       terminal_marker n \<noteq> Some (pp_marker (pa_publication (jo_actions j ! unat a))))"
proof -
  have ok: "journal_ok c j" using assms(3) by (simp add: journal_valid_iff)
  have current: "current_action j a" using assms(1) by (simp add: current_action_def)
  show ?thesis
  proof (cases op)
    case (Reconcile i)
    then have "exact_matches (jo_bot_user_id j) i (pp_marker (pa_publication (jo_actions j ! unat a))) = []"
      "jo_state j = AmbiguousOutcome a" "validate_inventory i = Inr ()"
      using reconcile_again [OF ok current] assms(2) by simp_all
    then show ?thesis using Reconcile by (auto simp: exact_matches_def filter_empty_conv)
  next
    case (Confirm n)
    then show ?thesis using confirm_not_again [OF ok current] assms(2) by simp
  next
    case MarkAmbiguous
    then show ?thesis using mark_not_again [OF ok current] assms(2) by simp
  qed (use assms(1,2) in \<open>auto simp: begin_next_def stop_stale_def journal_fail_def retained_ok_eq [OF ok]\<close>)
qed

lemma sample_plan_actions:
  "\<exists>p. pl_actions sample_plan = [\<lparr>pa_publication = p, pa_decision = CreateNote\<rparr>] \<and>
     pl_snapshot sample_plan = sample_snapshot"
proof (cases rule: build_plan_cases [of sample_codec sample_snapshot 1 "[sample_candidate]" empty_inventory])
  case (early f)
  then show ?thesis using sample_plannable by simp
next
  case (built plan)
  have none: "owned_matches b u empty_inventory q = []" for b u q
    by (simp add: owned_matches_def exact_matches_def empty_inventory_def split: option.split)
  have "pl_snapshot plan = sample_snapshot"
    using built(1) by (auto simp: build_publication_plan_def Let_def result_simps split: if_splits)
  then show ?thesis using built
    by (auto simp: sample_plan_def planned_def decision_of_def none)
qed

theorem retry_only_after_clean_inventory_witness:
  "\<exists>j. jo_state j = AmbiguousOutcome 0 \<and>
     jo_state (journal_do sample_codec (Reconcile empty_inventory) j) = JournalReady 0 \<and>
     validate_inventory empty_inventory = Inr ()"
proof -
  obtain j0 where j0: "journal_try_new sample_codec sample_plan = Inr j0" using sample_journal by blast
  obtain p where p: "pl_actions sample_plan = [\<lparr>pa_publication = p, pa_decision = CreateNote\<rparr>]"
    "pl_snapshot sample_plan = sample_snapshot" using sample_plan_actions by blast
  define j where "j = journal_run sample_codec [BeginNext sample_snapshot, MarkAmbiguous] j0"
  have ok: "journal_ok sample_codec (journal_run sample_codec ops j0)" for ops
    by (intro journal_run_ok journal_new_ok [OF j0])
  have start: "jo_state j0 = JournalReady 0" "jo_actions j0 = pl_actions sample_plan" "jo_snapshot j0 = sample_snapshot"
    using j0 p by (auto simp: journal_try_new_def result_simps)
  have r0: "retained_ok sample_codec j0 = Inr ()" using retained_ok_eq [OF ok [of "[]"]] by (simp add: journal_run_def)
  have r1: "retained_ok sample_codec (snd (begin_next sample_codec sample_snapshot j0)) = Inr ()"
    using retained_ok_eq [OF ok [of "[BeginNext sample_snapshot]"]] by (simp add: journal_run_def)
  have b: "snd (begin_next sample_codec sample_snapshot j0) = j0\<lparr>jo_state := AwaitingOutcome 0\<rparr>"
    using r0 start p by (simp add: begin_next_def)
  have j: "j = j0\<lparr>jo_state := AmbiguousOutcome 0\<rparr>"
    using r1 start p by (simp add: j_def journal_run_def b mark_ambiguous_def awaiting_index_def action_at_def try_word_def)
  have inv: "validate_inventory empty_inventory = Inr ()"
    by (simp add: empty_inventory_def validate_inventory_def max_existing_notes_def)
  have r: "retained_ok sample_codec j = Inr ()"
    unfolding j_def by (rule retained_ok_eq [OF ok])
  have again: "jo_state (journal_do sample_codec (Reconcile empty_inventory) j) = JournalReady 0"
    using r start p inv by (simp add: j reconcile_ambiguous_def exact_matches_def empty_inventory_def)
  have amb: "jo_state j = AmbiguousOutcome 0" by (simp add: j)
  have "journal_validate_replay sample_codec j = Inr ()"
    using ok [of "[BeginNext sample_snapshot, MarkAmbiguous]"] by (simp add: j_def journal_valid_iff)
  from retry_only_after_clean_inventory [OF disjI2 [OF amb] again this] show ?thesis
    using amb again by blast
qed

end
