(* ===== verification/Partition.thy ===== *)
theory Partition
  imports Review_Value Anchors
begin

text \<open>
  The second part of \<open>crates/revoot-core/src/partition.rs\<close>: selection of the changed
  files, packing into bounded work units, the plan and its replay validation.  JSON
  encoding and SHA-256 are the parameter \<open>partition_codec\<close>.
\<close>

section \<open>Inputs\<close>

definition max_policy_patterns :: nat where "max_policy_patterns = 1024"
definition max_pattern_bytes :: nat where "max_pattern_bytes = 1024"
definition max_plan_files :: nat where "max_plan_files = 100000"
definition work_unit_prefix :: string where "work_unit_prefix = ''wu2_''"
definition low_signal_budget_divisor :: u64 where "low_signal_budget_divisor = 10"
definition max_low_signal_bytes :: u64 where "max_low_signal_bytes = 64 * 1024"

datatype review_object_role = ExactDiff | OldBlob | NewBlob | BoundedContext

record review_object =
  ro_role :: review_object_role
  ro_content_sha256 :: sha256_digest
  ro_size_bytes :: u64

fun role_rank :: "review_object_role \<Rightarrow> nat" where
  "role_rank ExactDiff = 0"
| "role_rank OldBlob = 1"
| "role_rank NewBlob = 2"
| "role_rank BoundedContext = 3"

text \<open>The derived order of objects.\<close>

definition object_key :: "review_object \<Rightarrow> nat \<times> string \<times> u64" where
  "object_key r = (role_rank (ro_role r), ro_content_sha256 r, ro_size_bytes r)"

text \<open>\<open>objects.iter().try_fold(0, checked_add)\<close>\<close>

fun checked_total :: "u64 \<Rightarrow> u64 list \<Rightarrow> u64 option" where
  "checked_total n [] = Some n"
| "checked_total n (m # ms) =
     (case checked_add n m of None \<Rightarrow> None | Some k \<Rightarrow> checked_total k ms)"

record review_file_input =
  rf_path :: changed_path
  rf_class :: review_file_class
  rf_review_value :: review_value
  rf_objects :: "review_object list"
  rf_anchor_ids :: "anchor_id list"

definition canonical_path :: "review_file_input \<Rightarrow> repository_path" where
  "canonical_path f = cp_new_path (rf_path f)"

definition total_bytes :: "review_file_input \<Rightarrow> u64 option" where
  "total_bytes f = checked_total 0 (map ro_size_bytes (rf_objects f))"

record selection_policy =
  sp_version :: string
  sp_included_paths :: "repository_path list"
  sp_included_prefixes :: "string list"
  sp_included_suffixes :: "string list"
  sp_excluded_paths :: "repository_path list"
  sp_excluded_prefixes :: "string list"
  sp_excluded_suffixes :: "string list"
  sp_excluded_basename_prefixes :: "string list"
  sp_include_generated :: bool
  sp_max_file_bytes :: u64

record partition_limits =
  pt_max_files :: u32
  pt_max_total_bytes :: u64
  pt_max_work_units :: u32
  pt_max_files_per_work_unit :: u32
  pt_max_bytes_per_work_unit :: u64
  pt_max_anchors_per_work_unit :: u32

datatype configuration_error =
    BadPolicyVersion | PatternCount | BadPattern | FileBytes | Files | TotalBytes | WorkUnits
  | FilesPerWorkUnit | BytesPerWorkUnit | AnchorsPerWorkUnit

definition policy_label :: "string \<Rightarrow> bool" where
  "policy_label value \<longleftrightarrow>
     value \<noteq> [] \<and> length value \<le> 128 \<and>
     list_all (\<lambda>b. is_ascii_alphanumeric b \<or> b \<in> set ''-_./:'') value"

definition bad_pattern :: "string \<Rightarrow> bool" where
  "bad_pattern p \<longleftrightarrow>
     p = [] \<or> max_pattern_bytes < length p \<or> CHR 0x00 \<in> set p \<or> list_ex char_is_control (str_chars p)"

text \<open>The body of the loop over the five pattern lists.\<close>

definition check_patterns :: "string list \<Rightarrow> unit \<Rightarrow> configuration_error + unit" where
  "check_patterns patterns u =
     (if list_ex bad_pattern patterns then Inl BadPattern
      else if \<not> distinct patterns then Inl BadPattern
      else Inr ())"

definition policy_validate :: "selection_policy \<Rightarrow> configuration_error + unit" where
  "policy_validate p =
     (if \<not> policy_label (sp_version p) then Inl BadPolicyVersion
      else if max_policy_patterns < length (sp_included_paths p) + length (sp_included_prefixes p)
        + length (sp_included_suffixes p) + length (sp_excluded_paths p)
        + length (sp_excluded_prefixes p) + length (sp_excluded_suffixes p)
        + length (sp_excluded_basename_prefixes p)
      then Inl PatternCount
      else
        and_then (try_fold check_patterns [sp_included_prefixes p, sp_included_suffixes p,
          sp_excluded_prefixes p, sp_excluded_suffixes p, sp_excluded_basename_prefixes p] ()) (\<lambda>_.
        if sp_max_file_bytes p = 0 then Inl FileBytes else Inr ()))"

definition partition_limits_validate :: "partition_limits \<Rightarrow> configuration_error + unit" where
  "partition_limits_validate l =
     (if pt_max_files l = 0 \<or> max_plan_files < unat (pt_max_files l) then Inl Files
      else if pt_max_total_bytes l = 0 then Inl TotalBytes
      else if pt_max_work_units l = 0 then Inl WorkUnits
      else if pt_max_files_per_work_unit l = 0 \<or> pt_max_files l < pt_max_files_per_work_unit l
      then Inl FilesPerWorkUnit
      else if pt_max_bytes_per_work_unit l = 0 \<or> pt_max_total_bytes l < pt_max_bytes_per_work_unit l
      then Inl BytesPerWorkUnit
      else if pt_max_anchors_per_work_unit l = 0 then Inl AnchorsPerWorkUnit
      else Inr ())"

section \<open>The plan\<close>

datatype review_omission_reason =
    NotIncludedPolicy | ExactPathPolicy | PrefixPolicy | SuffixPolicy | GeneratedPolicy | OmitBinary
  | OmitUnsupportedEncoding | OmitFileTooLarge | MissingExactDiff | EmptyObjectSet
  | DuplicateObjectRole | DuplicateAnchor | InputByteOverflow | FileBudget | TotalByteBudget
  | LowSignalBudget | WorkUnitBudget | WorkUnitFileCapacity | WorkUnitByteCapacity
  | WorkUnitAnchorCapacity

text \<open>The derived order: the position of the constructor.\<close>

definition omission_reasons :: "review_omission_reason list" where
  "omission_reasons =
     [NotIncludedPolicy, ExactPathPolicy, PrefixPolicy, SuffixPolicy, GeneratedPolicy, OmitBinary,
      OmitUnsupportedEncoding, OmitFileTooLarge, MissingExactDiff, EmptyObjectSet,
      DuplicateObjectRole, DuplicateAnchor, InputByteOverflow, FileBudget, TotalByteBudget,
      LowSignalBudget, WorkUnitBudget, WorkUnitFileCapacity, WorkUnitByteCapacity,
      WorkUnitAnchorCapacity]"

definition reason_rank :: "review_omission_reason \<Rightarrow> nat" where
  "reason_rank r = length (takeWhile (\<lambda>q. q \<noteq> r) omission_reasons)"

lemma reason_rank_inj: "reason_rank r = reason_rank q \<Longrightarrow> r = q"
  by (cases r; cases q) (simp_all add: reason_rank_def omission_reasons_def)

instantiation review_omission_reason :: linorder
begin

definition less_eq_review_omission_reason ::
    "review_omission_reason \<Rightarrow> review_omission_reason \<Rightarrow> bool" where
  "p \<le> q \<longleftrightarrow> reason_rank p \<le> reason_rank q"

definition less_review_omission_reason ::
    "review_omission_reason \<Rightarrow> review_omission_reason \<Rightarrow> bool" where
  "p < q \<longleftrightarrow> reason_rank p < reason_rank q"

instance
  by intro_classes
    (auto simp: less_eq_review_omission_reason_def less_review_omission_reason_def
      intro: reason_rank_inj)

end

record omitted_file =
  of_path :: changed_path
  of_reason :: review_omission_reason

record work_unit_file =
  wf_path :: changed_path
  wf_class :: review_file_class
  wf_review_value :: review_value
  wf_objects :: "review_object list"
  wf_anchor_ids :: "anchor_id list"
  wf_input_bytes :: u64

type_synonym work_unit_id = string

record work_unit =
  wu_id :: work_unit_id
  wu_files :: "work_unit_file list"
  wu_input_bytes :: u64
  wu_anchor_count :: u32

record partition_coverage =
  pv_input_files :: u32
  pv_included_files :: u32
  pv_omitted_files :: u32
  pv_included_bytes :: u64
  pv_omission_reasons :: "(review_omission_reason, u32) btree"
  pv_complete :: bool

record partition_plan =
  pn_schema_version :: string
  pn_snapshot :: review_snapshot_identity
  pn_policy :: selection_policy
  pn_limits :: partition_limits
  pn_work_units :: "work_unit list"
  pn_omitted :: "omitted_file list"
  pn_coverage :: partition_coverage
  pn_plan_sha256 :: sha256_digest

definition partition_schema_version :: string where
  "partition_schema_version = ''revoot.partition-plan/v3''"

text \<open>
  SHA-256 and the JSON encodings.  The fields of the plan that the digest covers are
  \<open>PlanDigestView\<close>; encoding a plan or a view may fail.
\<close>

record plan_digest_view =
  pd_schema_version :: string
  pd_snapshot :: review_snapshot_identity
  pd_policy :: selection_policy
  pd_limits :: partition_limits
  pd_work_units :: "work_unit list"
  pd_omitted :: "omitted_file list"
  pd_coverage :: partition_coverage

record partition_codec =
  pc_sha :: hasher
  pc_snapshot :: "review_snapshot_identity \<Rightarrow> string"
  pc_policy :: "selection_policy \<Rightarrow> string"
  pc_files :: "work_unit_file list \<Rightarrow> string"
  pc_view :: "plan_digest_view \<Rightarrow> string option"
  pc_plan :: "partition_plan \<Rightarrow> string option"

text \<open>\<open>hash_serialized\<close> is \<^const>\<open>hash_field\<close> of the encoding; a string is encoded in quotes.\<close>

definition derive_work_unit_id ::
    "partition_codec \<Rightarrow> review_snapshot_identity \<Rightarrow> selection_policy \<Rightarrow> work_unit_file list \<Rightarrow> work_unit_id" where
  "derive_work_unit_id c snapshot policy files =
     work_unit_prefix @ pc_sha c (hash_fields
       [CHR 0x22 # ''revoot-work-unit-v2'' @ [CHR 0x22], pc_snapshot c snapshot, pc_policy c policy,
        pc_files c files])"

definition digest_view :: "partition_plan \<Rightarrow> plan_digest_view" where
  "digest_view p =
     \<lparr>pd_schema_version = pn_schema_version p, pd_snapshot = pn_snapshot p, pd_policy = pn_policy p,
      pd_limits = pn_limits p, pd_work_units = pn_work_units p, pd_omitted = pn_omitted p,
      pd_coverage = pn_coverage p\<rparr>"

definition derive_partition_digest :: "partition_codec \<Rightarrow> partition_plan \<Rightarrow> sha256_digest option" where
  "derive_partition_digest c p = map_option (pc_sha c) (pc_view c (digest_view p))"

datatype partition_replay_error =
    PlanSchemaVersion | PlanPolicyVersion | PlanConfiguration configuration_error | WorkUnitOrder
  | OmissionOrder | PlanDuplicatePath | PlanDuplicateAnchor | FileOrder | ObjectOrder | AnchorOrder
  | DerivedCount | LimitExceeded | BadWorkUnitId | BadCoverage | PartitionDigest | PlanSerialization

datatype partition_build_error =
    BuildConfiguration configuration_error | TooManyInputs | BuildDuplicatePath changed_path
  | BuildInvalidPath changed_path | InvalidReviewValue changed_path | BuildSerialization
  | PartitionInternalReplay partition_replay_error

datatype partition_canonical_error = CanonicalReplay partition_replay_error | CanonicalSerialization

section \<open>Selection\<close>

definition selection_reason ::
    "review_file_input \<Rightarrow> selection_policy \<Rightarrow> review_omission_reason option" where
  "selection_reason f p =
     (let path = canonical_path f;
          has_includes = sp_included_paths p \<noteq> [] \<or> sp_included_prefixes p \<noteq> []
            \<or> sp_included_suffixes p \<noteq> [];
          included = path \<in> set (sp_included_paths p)
            \<or> list_ex (\<lambda>q. starts_with q path) (sp_included_prefixes p)
            \<or> list_ex (\<lambda>q. ends_with q path) (sp_included_suffixes p)
      in if is_sensitive_model_context_path path then Some ExactPathPolicy
         else if has_includes \<and> \<not> included then Some NotIncludedPolicy
         else if path \<in> set (sp_excluded_paths p) then Some ExactPathPolicy
         else if list_ex (\<lambda>q. starts_with q path) (sp_excluded_prefixes p) then Some PrefixPolicy
         else if list_ex (\<lambda>q. ends_with q path) (sp_excluded_suffixes p) then Some SuffixPolicy
         else if list_ex (\<lambda>q. starts_with q (base_name path)) (sp_excluded_basename_prefixes p)
         then Some PrefixPolicy
         else if rf_class f = GeneratedFile \<and> \<not> sp_include_generated p then Some GeneratedPolicy
         else if rf_class f = BinaryFile then Some OmitBinary
         else if rf_class f = UnsupportedEncodingFile then Some OmitUnsupportedEncoding
         else if rf_objects f = [] then Some EmptyObjectSet
         else if \<not> list_ex (\<lambda>r. ro_role r = ExactDiff) (rf_objects f) then Some MissingExactDiff
         else case total_bytes f of
             None \<Rightarrow> Some InputByteOverflow
           | Some bytes \<Rightarrow> if sp_max_file_bytes p < bytes then Some OmitFileTooLarge else None)"

text \<open>\<open>windows(2).any\<close>: some two neighbours.\<close>

fun any_pair :: "('a \<Rightarrow> 'a \<Rightarrow> bool) \<Rightarrow> 'a list \<Rightarrow> bool" where
  "any_pair P (x # y # xs) = (P x y \<or> any_pair P (y # xs))"
| "any_pair P _ = False"

text \<open>
  \<open>prepare_file\<close> returns the file or its omission, and the anchors seen so far.  They
  are recorded before the total is computed.
\<close>

definition prepare_file ::
    "review_file_input \<Rightarrow> selection_policy \<Rightarrow> anchor_id set
      \<Rightarrow> (omitted_file + work_unit_file) \<times> anchor_id set" where
  "prepare_file f0 policy seen =
     (let omit = (\<lambda>reason. Inl \<lparr>of_path = rf_path f0, of_reason = reason\<rparr>) in
      case selection_reason f0 policy of
        Some reason \<Rightarrow> (omit reason, seen)
      | None \<Rightarrow>
          let f = f0\<lparr>rf_objects := sort_key object_key (rf_objects f0)\<rparr> in
          if any_pair (\<lambda>a b. ro_role a = ro_role b) (rf_objects f)
          then (omit DuplicateObjectRole, seen)
          else
            let f = f\<lparr>rf_anchor_ids := sort (rf_anchor_ids f)\<rparr> in
            if any_pair (=) (rf_anchor_ids f) \<or> list_ex (\<lambda>a. a \<in> seen) (rf_anchor_ids f)
            then (omit DuplicateAnchor, seen)
            else
              let seen = seen \<union> set (rf_anchor_ids f) in
              case total_bytes f of
                None \<Rightarrow> (omit InputByteOverflow, seen)
              | Some bytes \<Rightarrow>
                  (Inr \<lparr>wf_path = rf_path f, wf_class = rf_class f, wf_review_value = rf_review_value f,
                     wf_objects = rf_objects f, wf_anchor_ids = rf_anchor_ids f,
                     wf_input_bytes = bytes\<rparr>, seen))"

text \<open>The two loops of \<open>prepare_inputs\<close>.\<close>

definition check_input ::
    "review_file_input \<Rightarrow> repository_path set \<Rightarrow> partition_build_error + repository_path set" where
  "check_input f seen =
     (if semantic_issue (rf_path f) \<noteq> None then Inl (BuildInvalidPath (rf_path f))
      else if \<not> review_value_is_valid (rf_review_value f) then Inl (InvalidReviewValue (rf_path f))
      else insert_new canonical_path (BuildDuplicatePath (rf_path f)) f seen)"

fun prepare_files ::
    "selection_policy \<Rightarrow> review_file_input list \<Rightarrow> anchor_id set
      \<Rightarrow> work_unit_file list \<Rightarrow> omitted_file list \<Rightarrow> work_unit_file list \<times> omitted_file list" where
  "prepare_files policy [] seen included omitted = (included, omitted)"
| "prepare_files policy (f # fs) seen included omitted =
     (case prepare_file f policy seen of
        (Inr w, seen) \<Rightarrow> prepare_files policy fs seen (included @ [w]) omitted
      | (Inl x, seen) \<Rightarrow> prepare_files policy fs seen included (omitted @ [x]))"

fun tier_rank :: "value_tier \<Rightarrow> nat" where
  "tier_rank LowTier = 0"
| "tier_rank StandardTier = 1"
| "tier_rank HighTier = 2"

text \<open>The packing order: higher tier, higher score, fewer bytes, then path.\<close>

definition packing_key :: "work_unit_file \<Rightarrow> nat \<times> nat \<times> u64 \<times> changed_path" where
  "packing_key w =
     (2 - tier_rank (rv_tier (wf_review_value w)), 255 - unat (rv_score (wf_review_value w)),
      wf_input_bytes w, wf_path w)"

definition prepare_inputs ::
    "review_file_input list \<Rightarrow> selection_policy
      \<Rightarrow> partition_build_error + work_unit_file list \<times> omitted_file list" where
  "prepare_inputs files0 policy =
     (let files = sort_key rf_path files0 in
      and_then (try_fold check_input files {}) (\<lambda>_.
      let (included, omitted) = prepare_files policy files {} [] []
      in Inr (sort_key packing_key included, omitted)))"

section \<open>Packing\<close>

record packing =
  pk_bins :: "work_unit_file list list"
  pk_omitted :: "omitted_file list"
  pk_admitted_files :: u32
  pk_admitted_bytes :: u64
  pk_low_signal_bytes :: u64

definition low_signal_byte_limit :: "partition_limits \<Rightarrow> u64" where
  "low_signal_byte_limit l =
     (let proportional = pt_max_total_bytes l div low_signal_budget_divisor in
      if proportional < max_low_signal_bytes then proportional else max_low_signal_bytes)"

text \<open>\<open>a.checked_add(b).is_none_or(|total| total > limit)\<close>\<close>

definition over_limit :: "'w::len word \<Rightarrow> 'w word \<Rightarrow> 'w word \<Rightarrow> bool" where
  "over_limit a b limit =
     (case checked_add a b of None \<Rightarrow> True | Some n \<Rightarrow> limit < n)"

definition is_low :: "work_unit_file \<Rightarrow> bool" where
  "is_low w \<longleftrightarrow> rv_tier (wf_review_value w) = LowTier"

definition file_capacity_reason ::
    "work_unit_file \<Rightarrow> partition_limits \<Rightarrow> u32 \<Rightarrow> u64 \<Rightarrow> u64 \<Rightarrow> review_omission_reason option" where
  "file_capacity_reason w l admitted_files admitted_bytes low_bytes =
     (if pt_max_files l \<le> admitted_files then Some FileBudget
      else if is_low w \<and> over_limit low_bytes (wf_input_bytes w) (low_signal_byte_limit l)
      then Some LowSignalBudget
      else if over_limit admitted_bytes (wf_input_bytes w) (pt_max_total_bytes l)
      then Some TotalByteBudget
      else if pt_max_bytes_per_work_unit l < wf_input_bytes w then Some WorkUnitByteCapacity
      else if unat (pt_max_anchors_per_work_unit l) < length (wf_anchor_ids w)
      then Some WorkUnitAnchorCapacity
      else None)"

definition bin_bytes :: "work_unit_file list \<Rightarrow> u64" where
  "bin_bytes bin = (\<Sum>w \<leftarrow> bin. wf_input_bytes w)"

definition bin_anchors :: "work_unit_file list \<Rightarrow> nat" where
  "bin_anchors bin = (\<Sum>w \<leftarrow> bin. length (wf_anchor_ids w))"

definition bin_accepts :: "partition_limits \<Rightarrow> work_unit_file \<Rightarrow> work_unit_file list \<Rightarrow> bool" where
  "bin_accepts l w bin \<longleftrightarrow>
     length bin < unat (pt_max_files_per_work_unit l) \<and>
     \<not> over_limit (bin_bytes bin) (wf_input_bytes w) (pt_max_bytes_per_work_unit l) \<and>
     bin_anchors bin + length (wf_anchor_ids w) \<le> unat (pt_max_anchors_per_work_unit l)"

text \<open>The index of the first element that satisfies a predicate.\<close>

fun first_index :: "('a \<Rightarrow> bool) \<Rightarrow> 'a list \<Rightarrow> nat option" where
  "first_index P [] = None"
| "first_index P (x # xs) = (if P x then Some 0 else map_option Suc (first_index P xs))"

definition no_bin_reason ::
    "partition_limits \<Rightarrow> work_unit_file \<Rightarrow> work_unit_file list list \<Rightarrow> review_omission_reason" where
  "no_bin_reason l w bins =
     (if list_all (\<lambda>bin. unat (pt_max_files_per_work_unit l) \<le> length bin) bins
      then WorkUnitFileCapacity
      else if list_all (\<lambda>bin. over_limit (bin_bytes bin) (wf_input_bytes w)
        (pt_max_bytes_per_work_unit l)) bins
      then WorkUnitByteCapacity
      else if list_all (\<lambda>bin. unat (pt_max_anchors_per_work_unit l)
        < bin_anchors bin + length (wf_anchor_ids w)) bins
      then WorkUnitAnchorCapacity
      else WorkUnitBudget)"

text \<open>The body of the loop of \<open>pack_files\<close>.\<close>

definition pack_file :: "partition_limits \<Rightarrow> work_unit_file \<Rightarrow> packing \<Rightarrow> packing" where
  "pack_file l w s =
     (let omit = (\<lambda>reason. s\<lparr>pk_omitted := pk_omitted s @ [\<lparr>of_path = wf_path w, of_reason = reason\<rparr>]\<rparr>) in
      case file_capacity_reason w l (pk_admitted_files s) (pk_admitted_bytes s) (pk_low_signal_bytes s) of
        Some reason \<Rightarrow> omit reason
      | None \<Rightarrow>
          let bins = pk_bins s;
              dest = first_index (bin_accepts l w) bins;
              (bins, dest) = (if dest = None \<and> length bins < unat (pt_max_work_units l)
                then (bins @ [[]], Some (length bins)) else (bins, dest))
          in case dest of
               None \<Rightarrow> omit (no_bin_reason l w bins)
             | Some i \<Rightarrow>
                 s\<lparr>pk_admitted_files := pk_admitted_files s + 1,
                   pk_admitted_bytes := pk_admitted_bytes s + wf_input_bytes w,
                   pk_low_signal_bytes := (if is_low w then pk_low_signal_bytes s + wf_input_bytes w
                     else pk_low_signal_bytes s),
                   pk_bins := bins[i := bins ! i @ [w]]\<rparr>)"

definition pack_files :: "work_unit_file list \<Rightarrow> omitted_file list \<Rightarrow> partition_limits \<Rightarrow> packing" where
  "pack_files included omitted l =
     fold (pack_file l) included
       \<lparr>pk_bins = [], pk_omitted = omitted, pk_admitted_files = 0, pk_admitted_bytes = 0,
        pk_low_signal_bytes = 0\<rparr>"

section \<open>Replay validation\<close>

text \<open>\<open>!(value >= previous)\<close> of a neighbour, where there is one.\<close>

definition after :: "'a::linorder option \<Rightarrow> 'a \<Rightarrow> bool" where
  "after previous x = (case previous of None \<Rightarrow> True | Some p \<Rightarrow> p < x)"

text \<open>The loop of \<open>validate_unit_files\<close> and its variables.\<close>

record unit_check =
  uc_previous :: "changed_path option"
  uc_bytes :: u64
  uc_anchor_count :: u32
  uc_paths :: "repository_path set"
  uc_anchors :: "anchor_id set"

definition check_unit_file ::
    "work_unit_file \<Rightarrow> unit_check \<Rightarrow> partition_replay_error + unit_check" where
  "check_unit_file w s =
     (if \<not> after (uc_previous s) (wf_path w) then Inl FileOrder
      else if semantic_issue (wf_path w) \<noteq> None \<or> cp_new_path (wf_path w) \<in> uc_paths s
      then Inl PlanDuplicatePath
      else if \<not> review_value_is_valid (wf_review_value w) \<or> wf_objects w = []
        \<or> \<not> list_ex (\<lambda>r. ro_role r = ExactDiff) (wf_objects w)
      then Inl DerivedCount
      else if any_pair (\<lambda>a b. object_key b \<le> object_key a) (wf_objects w) then Inl ObjectOrder
      else if any_pair (\<lambda>a b. b \<le> a) (wf_anchor_ids w) then Inl AnchorOrder
      else
        and_then (map_err (\<lambda>_. PlanDuplicateAnchor)
          (try_fold (insert_new (\<lambda>a. a) ()) (wf_anchor_ids w) (uc_anchors s))) (\<lambda>anchors.
        and_then (ok_or DerivedCount (checked_total 0 (map ro_size_bytes (wf_objects w)))) (\<lambda>object_bytes.
        if object_bytes \<noteq> wf_input_bytes w then Inl DerivedCount
        else
          and_then (ok_or DerivedCount (checked_add (uc_bytes s) object_bytes)) (\<lambda>bytes.
          and_then (ok_or DerivedCount (try_word (length (wf_anchor_ids w)))) (\<lambda>n.
          and_then (ok_or DerivedCount (checked_add (uc_anchor_count s) n)) (\<lambda>count.
          Inr \<lparr>uc_previous = Some (wf_path w), uc_bytes = bytes, uc_anchor_count = count,
            uc_paths = insert (cp_new_path (wf_path w)) (uc_paths s), uc_anchors = anchors\<rparr>))))))"

definition validate_unit_files ::
    "work_unit_file list \<Rightarrow> repository_path set \<Rightarrow> anchor_id set
      \<Rightarrow> partition_replay_error + unit_check" where
  "validate_unit_files files paths anchors =
     try_fold check_unit_file files
       \<lparr>uc_previous = None, uc_bytes = 0, uc_anchor_count = 0, uc_paths = paths, uc_anchors = anchors\<rparr>"

text \<open>The loop over the work units and its variables.\<close>

record plan_check =
  ck_previous :: "work_unit_id option"
  ck_paths :: "repository_path set"
  ck_anchors :: "anchor_id set"
  ck_files :: u32
  ck_bytes :: u64
  ck_low_bytes :: u64

definition check_unit ::
    "partition_codec \<Rightarrow> partition_plan \<Rightarrow> work_unit \<Rightarrow> plan_check \<Rightarrow> partition_replay_error + plan_check" where
  "check_unit c p u s =
     (if \<not> after (ck_previous s) (wu_id u) then Inl WorkUnitOrder
      else
        and_then (validate_unit_files (wu_files u) (ck_paths s) (ck_anchors s)) (\<lambda>v.
        if uc_bytes v \<noteq> wu_input_bytes u \<or> uc_anchor_count v \<noteq> wu_anchor_count u
        then Inl DerivedCount
        else if unat (pt_max_files_per_work_unit (pn_limits p)) < length (wu_files u)
          \<or> pt_max_bytes_per_work_unit (pn_limits p) < uc_bytes v
          \<or> pt_max_anchors_per_work_unit (pn_limits p) < uc_anchor_count v
        then Inl LimitExceeded
        else if derive_work_unit_id c (pn_snapshot p) (pn_policy p) (wu_files u) \<noteq> wu_id u
        then Inl BadWorkUnitId
        else
          and_then (ok_or DerivedCount (try_word (length (wu_files u)))) (\<lambda>n.
          and_then (ok_or DerivedCount (checked_add (ck_files s) n)) (\<lambda>files.
          and_then (ok_or DerivedCount (checked_add (ck_bytes s) (uc_bytes v))) (\<lambda>bytes.
          and_then (ok_or DerivedCount (checked_total (ck_low_bytes s)
            (map wf_input_bytes (filter is_low (wu_files u))))) (\<lambda>low_bytes.
          Inr \<lparr>ck_previous = Some (wu_id u), ck_paths = uc_paths v, ck_anchors = uc_anchors v,
            ck_files = files, ck_bytes = bytes, ck_low_bytes = low_bytes\<rparr>))))))"

text \<open>\<open>*omitted_reasons.entry(reason).or_insert(0) += 1\<close>\<close>

definition count_reason ::
    "review_omission_reason \<Rightarrow> (review_omission_reason, u32) btree
      \<Rightarrow> (review_omission_reason, u32) btree" where
  "count_reason r m =
     bt_insert r ((case map_of m r of None \<Rightarrow> 0 | Some n \<Rightarrow> n) + 1) m"

definition check_omitted ::
    "omitted_file
      \<Rightarrow> changed_path option \<times> repository_path set \<times> (review_omission_reason, u32) btree
      \<Rightarrow> partition_replay_error
        + changed_path option \<times> repository_path set \<times> (review_omission_reason, u32) btree" where
  "check_omitted x s =
     (let (previous, paths, reasons) = s in
      if \<not> after previous (of_path x) then Inl OmissionOrder
      else if semantic_issue (of_path x) \<noteq> None \<or> cp_new_path (of_path x) \<in> paths
      then Inl PlanDuplicatePath
      else Inr (Some (of_path x), insert (cp_new_path (of_path x)) paths,
        count_reason (of_reason x) reasons))"

definition strictly_sorted :: "string list \<Rightarrow> bool" where
  "strictly_sorted xs = (\<not> any_pair (\<lambda>a b. b \<le> a) xs)"

text \<open>What follows the two loops: the counts of the coverage, and the digest.\<close>

definition check_coverage ::
    "partition_codec \<Rightarrow> partition_plan \<Rightarrow> plan_check \<Rightarrow> (review_omission_reason, u32) btree
      \<Rightarrow> partition_replay_error + unit" where
  "check_coverage c p s reasons =
     and_then (ok_or DerivedCount (try_word (length (pn_omitted p)))) (\<lambda>omitted_files.
     and_then (ok_or DerivedCount (checked_add (ck_files s) omitted_files)) (\<lambda>input_files.
     if pv_input_files (pn_coverage p) \<noteq> input_files
       \<or> pv_included_files (pn_coverage p) \<noteq> ck_files s
       \<or> pv_omitted_files (pn_coverage p) \<noteq> omitted_files
       \<or> pv_included_bytes (pn_coverage p) \<noteq> ck_bytes s
       \<or> pv_omission_reasons (pn_coverage p) \<noteq> reasons
       \<or> pv_complete (pn_coverage p) \<noteq> (pn_omitted p = [])
     then Inl BadCoverage
     else
       and_then (ok_or PlanSerialization (derive_partition_digest c p)) (\<lambda>expected.
       if expected \<noteq> pn_plan_sha256 p then Inl PartitionDigest else Inr ())))"

definition partition_validate_replay ::
    "partition_codec \<Rightarrow> partition_plan \<Rightarrow> partition_replay_error + unit" where
  "partition_validate_replay c p =
     (let l = pn_limits p in
      if pn_schema_version p \<noteq> partition_schema_version then Inl PlanSchemaVersion
      else
        and_then (map_err PlanConfiguration (partition_limits_validate l)) (\<lambda>_.
        and_then (map_err PlanConfiguration (policy_validate (pn_policy p))) (\<lambda>_.
        if \<not> strictly_sorted (sp_excluded_prefixes (pn_policy p))
          \<or> \<not> strictly_sorted (sp_excluded_suffixes (pn_policy p))
          \<or> \<not> strictly_sorted (sp_excluded_basename_prefixes (pn_policy p))
        then Inl (PlanConfiguration BadPattern)
        else
          and_then (try_fold (check_unit c p) (pn_work_units p)
            \<lparr>ck_previous = None, ck_paths = {}, ck_anchors = {}, ck_files = 0, ck_bytes = 0,
             ck_low_bytes = 0\<rparr>) (\<lambda>s.
          if unat (pt_max_work_units l) < length (pn_work_units p)
            \<or> pt_max_files l < ck_files s \<or> pt_max_total_bytes l < ck_bytes s
            \<or> low_signal_byte_limit l < ck_low_bytes s
          then Inl LimitExceeded
          else
            and_then (try_fold check_omitted (pn_omitted p) (None, ck_paths s, [])) (\<lambda>(_, _, reasons).
            check_coverage c p s reasons)))))"

definition canonical_json ::
    "partition_codec \<Rightarrow> partition_plan \<Rightarrow> partition_canonical_error + string" where
  "canonical_json c p =
     and_then (map_err CanonicalReplay (partition_validate_replay c p)) (\<lambda>_.
     ok_or CanonicalSerialization (pc_plan c p))"

section \<open>Building the plan\<close>

definition make_unit ::
    "partition_codec \<Rightarrow> review_snapshot_identity \<Rightarrow> selection_policy \<Rightarrow> work_unit_file list \<Rightarrow> work_unit" where
  "make_unit c snapshot policy bin =
     (let files = sort_key wf_path bin in
      \<lparr>wu_id = derive_work_unit_id c snapshot policy files, wu_files = files,
       wu_input_bytes = bin_bytes files, wu_anchor_count = clamp_word (bin_anchors files)\<rparr>)"

definition finalize_plan ::
    "partition_codec \<Rightarrow> review_snapshot_identity \<Rightarrow> selection_policy \<Rightarrow> partition_limits \<Rightarrow> packing
      \<Rightarrow> partition_build_error + partition_plan" where
  "finalize_plan c snapshot policy l packed =
     (let units = sort_key wu_id (map (make_unit c snapshot policy) (pk_bins packed));
          omitted = sort_key of_path (pk_omitted packed);
          reasons = fold (\<lambda>x. count_reason (of_reason x)) omitted []
      in and_then (ok_or TooManyInputs (try_word (length omitted))) (\<lambda>omitted_files.
         and_then (ok_or TooManyInputs (checked_add (pk_admitted_files packed) omitted_files)) (\<lambda>input_files.
         let cov = \<lparr>pv_input_files = input_files, pv_included_files = pk_admitted_files packed,
               pv_omitted_files = omitted_files, pv_included_bytes = pk_admitted_bytes packed,
               pv_omission_reasons = reasons, pv_complete = (omitted = [])\<rparr>;
             p = \<lparr>pn_schema_version = partition_schema_version, pn_snapshot = snapshot,
               pn_policy = policy, pn_limits = l, pn_work_units = units, pn_omitted = omitted,
               pn_coverage = cov, pn_plan_sha256 = pc_sha c []\<rparr>
         in and_then (ok_or BuildSerialization (derive_partition_digest c p)) (\<lambda>digest.
            let plan = p\<lparr>pn_plan_sha256 := digest\<rparr>
            in and_then (map_err PartitionInternalReplay (partition_validate_replay c plan)) (\<lambda>_.
               Inr plan)))))"

definition normalized_policy :: "selection_policy \<Rightarrow> selection_policy" where
  "normalized_policy p =
     p\<lparr>sp_excluded_prefixes := sort (sp_excluded_prefixes p),
       sp_excluded_suffixes := sort (sp_excluded_suffixes p),
       sp_excluded_basename_prefixes := sort (sp_excluded_basename_prefixes p)\<rparr>"

definition build_partition_plan ::
    "partition_codec \<Rightarrow> review_snapshot_identity \<Rightarrow> selection_policy \<Rightarrow> partition_limits
      \<Rightarrow> review_file_input list \<Rightarrow> partition_build_error + partition_plan" where
  "build_partition_plan c snapshot policy l files =
     and_then (map_err BuildConfiguration (policy_validate policy)) (\<lambda>_.
     and_then (map_err BuildConfiguration (partition_limits_validate l)) (\<lambda>_.
     if max_plan_files < length files then Inl TooManyInputs
     else
       let policy = normalized_policy policy in
       and_then (prepare_inputs files policy) (\<lambda>(included, omitted).
       finalize_plan c snapshot policy l (pack_files included omitted l))))"

end
