(* ===== verification/Partition_Replayed.thy ===== *)
theory Partition_Replayed
  imports Partition
begin

text \<open>
  What replay validation of a partition plan accepts: an exact characterisation of
  \<open>ReviewPartitionPlan::validate_replay\<close>, loop by loop, and the guarantees a retained
  plan carries when it is accepted.
\<close>

section \<open>Ordered sequences\<close>

lemma not_any_pair_sorted:
  "\<not> any_pair (\<lambda>a b. key b \<le> key a) xs \<longleftrightarrow> sorted_wrt (<) (map (key :: 'a \<Rightarrow> 'k::linorder) xs)"
proof (induction xs rule: induct_list012)
  case (3 x y zs)
  then show ?case by (fastforce simp: not_le intro: less_trans)
qed simp_all

lemma not_any_pair_strict: "\<not> any_pair (\<lambda>a b. b \<le> a) xs \<longleftrightarrow> sorted_wrt (<) (xs :: 'a::linorder list)"
  using not_any_pair_sorted [of "\<lambda>a. a" xs] by simp

definition ordered_after :: "'a::linorder option \<Rightarrow> 'a list \<Rightarrow> bool" where
  "ordered_after previous xs \<longleftrightarrow> sorted_wrt (<) xs \<and> (\<forall>x \<in> set xs. after previous x)"

lemma ordered_after_simps [simp]:
  "ordered_after previous []"
  "ordered_after previous (x # xs) \<longleftrightarrow> after previous x \<and> ordered_after (Some x) xs"
  "ordered_after None xs \<longleftrightarrow> sorted_wrt (<) xs"
  by (auto simp: ordered_after_def after_def split: option.splits intro: less_trans)

lemma checked_total_Some:
  "checked_total n ms = Some k \<longleftrightarrow> unat k = unat n + (\<Sum>m \<leftarrow> ms. unat m)"
proof (induction ms arbitrary: n)
  case Nil
  then show ?case by (auto simp: word_unat_eq_iff)
next
  case (Cons m ms)
  show ?case
  proof (cases "checked_add n m")
    case None
    then have "2 ^ LENGTH(64) \<le> unat n + unat m" by (simp only: checked_add_None)
    moreover have "unat k < 2 ^ LENGTH(64)" by (rule unsigned_less)
    ultimately have "unat k \<noteq> unat n + (\<Sum>m \<leftarrow> m # ms. unat m)" unfolding list.map sum_list.Cons by linarith
    then show ?thesis using None by simp
  next
    case (Some i)
    then show ?thesis using Cons.IH [of i] checked_add_Some [of n m i]
      by (simp add: add.assoc)
  qed
qed

lemma unat_of_nat_le: "n \<le> unat (k :: 'w::len word) \<Longrightarrow> unat (of_nat n :: 'w word) = n"
  using unsigned_less [of k, where ?'a = nat] by (intro unat_of_nat_small) (rule le_less_trans)

section \<open>The files of a work unit\<close>

definition unit_file_ok :: "work_unit_file \<Rightarrow> bool" where
  "unit_file_ok w \<longleftrightarrow>
     semantic_issue (wf_path w) = None \<and> review_value_is_valid (wf_review_value w) \<and>
     list_ex (\<lambda>r. ro_role r = ExactDiff) (wf_objects w) \<and>
     sorted_wrt (<) (map object_key (wf_objects w)) \<and> sorted_wrt (<) (wf_anchor_ids w) \<and>
     length (wf_anchor_ids w) < 2 ^ 32 \<and>
     unat (wf_input_bytes w) = (\<Sum>r \<leftarrow> wf_objects w. unat (ro_size_bytes r))"

abbreviation new_path :: "work_unit_file \<Rightarrow> repository_path" where
  "new_path w \<equiv> cp_new_path (wf_path w)"

lemma check_unit_file_Inr:
  "check_unit_file w s = Inr t \<longleftrightarrow>
     after (uc_previous s) (wf_path w) \<and> unit_file_ok w \<and> new_path w \<notin> uc_paths s \<and>
     set (wf_anchor_ids w) \<inter> uc_anchors s = {} \<and>
     uc_previous t = Some (wf_path w) \<and> uc_paths t = insert (new_path w) (uc_paths s) \<and>
     uc_anchors t = set (wf_anchor_ids w) \<union> uc_anchors s \<and>
     unat (uc_bytes t) = unat (uc_bytes s) + unat (wf_input_bytes w) \<and>
     unat (uc_anchor_count t) = unat (uc_anchor_count s) + length (wf_anchor_ids w)"
  (is "?l \<longleftrightarrow> ?r")
proof -
  obtain total where total: "checked_total 0 (map ro_size_bytes (wf_objects w)) = total" by simp
  have sum: "total = Some b \<longleftrightarrow> unat b = (\<Sum>r \<leftarrow> wf_objects w. unat (ro_size_bytes r))" for b
    unfolding total [symmetric] checked_total_Some by (simp add: comp_def)
  have word: "try_word n = Some (v :: u32) \<Longrightarrow> n < 2 ^ 32" for n v
    using unsigned_less [of v, where ?'a = nat] by (simp add: try_word_Some)
  have word': "n < 2 ^ 32 \<Longrightarrow> \<exists>v :: u32. try_word n = Some v \<and> unat v = n" for n
    by (simp add: try_word_def unat_of_nat_small)
  show ?thesis
  proof
    assume ?l
    then obtain b n c' where "after (uc_previous s) (wf_path w)" "semantic_issue (wf_path w) = None"
      "new_path w \<notin> uc_paths s" "review_value_is_valid (wf_review_value w)"
      "list_ex (\<lambda>r. ro_role r = ExactDiff) (wf_objects w)"
      "sorted_wrt (<) (map object_key (wf_objects w))" "sorted_wrt (<) (wf_anchor_ids w)"
      "distinct (wf_anchor_ids w)" "set (wf_anchor_ids w) \<inter> uc_anchors s = {}"
      "total = Some (wf_input_bytes w)" "checked_add (uc_bytes s) (wf_input_bytes w) = Some b"
      "try_word (length (wf_anchor_ids w)) = Some (n :: u32)" "checked_add (uc_anchor_count s) n = Some c'"
      "t = \<lparr>uc_previous = Some (wf_path w), uc_bytes = b, uc_anchor_count = c',
            uc_paths = insert (new_path w) (uc_paths s), uc_anchors = set (wf_anchor_ids w) \<union> uc_anchors s\<rparr>"
      unfolding check_unit_file_def
      by (auto simp: result_simps insert_new_all total not_any_pair_sorted not_any_pair_strict split: if_splits)
    then show ?r using word by (auto simp: unit_file_ok_def checked_add_Some try_word_Some sum)
  next
    assume r: ?r
    then have ok: "unit_file_ok w" by blast
    then have "distinct (wf_anchor_ids w)" by (auto simp: unit_file_ok_def strict_sorted_iff)
    moreover obtain v :: u32 where v: "try_word (length (wf_anchor_ids w)) = Some v" "unat v = length (wf_anchor_ids w)"
      using word' ok by (auto simp: unit_file_ok_def)
    moreover have "total = Some (wf_input_bytes w)" using ok by (simp add: sum unit_file_ok_def)
    moreover have "checked_add (uc_bytes s) (wf_input_bytes w) = Some (uc_bytes t)"
      "checked_add (uc_anchor_count s) v = Some (uc_anchor_count t)"
      using r v(2) by (simp_all add: checked_add_Some)
    moreover have "wf_objects w \<noteq> []" using ok by (auto simp: unit_file_ok_def)
    ultimately show ?l
      using r total by (auto simp: check_unit_file_def insert_new_all unit_file_ok_def
          not_any_pair_sorted not_any_pair_strict intro: unit_check.equality)
  qed
qed

lemma check_unit_files_Inr:
  "try_fold check_unit_file ws s = Inr t \<longleftrightarrow>
     ordered_after (uc_previous s) (map wf_path ws) \<and> list_all unit_file_ok ws \<and>
     distinct (map new_path ws) \<and> new_path ` set ws \<inter> uc_paths s = {} \<and>
     distinct (concat (map wf_anchor_ids ws)) \<and> set (concat (map wf_anchor_ids ws)) \<inter> uc_anchors s = {} \<and>
     uc_previous t = (if ws = [] then uc_previous s else Some (wf_path (last ws))) \<and>
     uc_paths t = new_path ` set ws \<union> uc_paths s \<and>
     uc_anchors t = set (concat (map wf_anchor_ids ws)) \<union> uc_anchors s \<and>
     unat (uc_bytes t) = unat (uc_bytes s) + (\<Sum>w \<leftarrow> ws. unat (wf_input_bytes w)) \<and>
     unat (uc_anchor_count t) = unat (uc_anchor_count s) + bin_anchors ws"
  (is "_ \<longleftrightarrow> ?r ws s")
proof (induction ws arbitrary: s)
  case Nil
  have "s = t \<longleftrightarrow> uc_previous t = uc_previous s \<and> uc_paths t = uc_paths s \<and> uc_anchors t = uc_anchors s
      \<and> uc_bytes t = uc_bytes s \<and> uc_anchor_count t = uc_anchor_count s"
    by (auto intro: unit_check.equality)
  then show ?case by (auto simp: bin_anchors_def word_unat_eq_iff)
next
  case (Cons w ws)
  have strict: "unit_file_ok w \<Longrightarrow> distinct (wf_anchor_ids w)"
    by (auto simp: unit_file_ok_def strict_sorted_iff)
  show ?case
  proof
    assume "try_fold check_unit_file (w # ws) s = Inr t"
    then obtain u where "check_unit_file w s = Inr u" and "try_fold check_unit_file ws u = Inr t"
      by (auto simp: result_simps)
    then show "?r (w # ws) s" using strict
      by (auto simp: check_unit_file_Inr Cons.IH bin_anchors_def)
  next
    assume r: "?r (w # ws) s"
    let ?b = "unat (uc_bytes s) + unat (wf_input_bytes w)"
      and ?n = "unat (uc_anchor_count s) + length (wf_anchor_ids w)"
    define u where "u = \<lparr>uc_previous = Some (wf_path w), uc_bytes = of_nat ?b, uc_anchor_count = of_nat ?n,
        uc_paths = insert (new_path w) (uc_paths s), uc_anchors = set (wf_anchor_ids w) \<union> uc_anchors s\<rparr>"
    have le: "?b \<le> unat (uc_bytes t)" "?n \<le> unat (uc_anchor_count t)" using r by (auto simp: bin_anchors_def)
    have u: "unat (uc_bytes u) = ?b" "unat (uc_anchor_count u) = ?n"
      unfolding u_def unit_check.select_convs by (rule unat_of_nat_le [OF le(1)], rule unat_of_nat_le [OF le(2)])
    then have "check_unit_file w s = Inr u" using r by (auto simp: check_unit_file_Inr u_def)
    moreover have "try_fold check_unit_file ws u = Inr t"
      using r u unfolding Cons.IH by (auto simp: bin_anchors_def u_def)
    ultimately show "try_fold check_unit_file (w # ws) s = Inr t" by simp
  qed
qed

section \<open>The work units\<close>

definition unit_ok :: "partition_codec \<Rightarrow> partition_plan \<Rightarrow> work_unit \<Rightarrow> bool" where
  "unit_ok c p u \<longleftrightarrow>
     list_all unit_file_ok (wu_files u) \<and> sorted_wrt (<) (map wf_path (wu_files u)) \<and>
     (\<Sum>w \<leftarrow> wu_files u. unat (wf_input_bytes w)) = unat (wu_input_bytes u) \<and>
     bin_anchors (wu_files u) = unat (wu_anchor_count u) \<and>
     length (wu_files u) \<le> unat (pt_max_files_per_work_unit (pn_limits p)) \<and>
     wu_input_bytes u \<le> pt_max_bytes_per_work_unit (pn_limits p) \<and>
     wu_anchor_count u \<le> pt_max_anchors_per_work_unit (pn_limits p) \<and>
     derive_work_unit_id c (pn_snapshot p) (pn_policy p) (wu_files u) = wu_id u"

abbreviation files_anchors :: "work_unit_file list \<Rightarrow> anchor_id list" where
  "files_anchors ws \<equiv> concat (map wf_anchor_ids ws)"

definition files_bytes :: "work_unit_file list \<Rightarrow> nat" where
  "files_bytes ws = (\<Sum>w \<leftarrow> ws. unat (wf_input_bytes w))"

lemma files_bytes_simps [simp]:
  "files_bytes [] = 0"
  "files_bytes (w # ws) = unat (wf_input_bytes w) + files_bytes ws"
  "files_bytes (ws @ vs) = files_bytes ws + files_bytes vs"
  by (simp_all add: files_bytes_def)

lemma check_unit_Inr:
  "check_unit c p u s = Inr t \<longleftrightarrow>
     after (ck_previous s) (wu_id u) \<and> unit_ok c p u \<and>
     distinct (map new_path (wu_files u)) \<and> new_path ` set (wu_files u) \<inter> ck_paths s = {} \<and>
     distinct (files_anchors (wu_files u)) \<and> set (files_anchors (wu_files u)) \<inter> ck_anchors s = {} \<and>
     ck_previous t = Some (wu_id u) \<and> ck_paths t = new_path ` set (wu_files u) \<union> ck_paths s \<and>
     ck_anchors t = set (files_anchors (wu_files u)) \<union> ck_anchors s \<and>
     unat (ck_files t) = unat (ck_files s) + length (wu_files u) \<and>
     unat (ck_bytes t) = unat (ck_bytes s) + files_bytes (wu_files u) \<and>
     unat (ck_low_bytes t) = unat (ck_low_bytes s) + files_bytes (filter is_low (wu_files u))"
  (is "?l \<longleftrightarrow> ?r")
proof
  assume ?l
  then obtain v n files bytes low where "after (ck_previous s) (wu_id u)"
    "validate_unit_files (wu_files u) (ck_paths s) (ck_anchors s) = Inr v"
    "uc_bytes v = wu_input_bytes u" "uc_anchor_count v = wu_anchor_count u"
    "length (wu_files u) \<le> unat (pt_max_files_per_work_unit (pn_limits p))"
    "uc_bytes v \<le> pt_max_bytes_per_work_unit (pn_limits p)"
    "uc_anchor_count v \<le> pt_max_anchors_per_work_unit (pn_limits p)"
    "derive_work_unit_id c (pn_snapshot p) (pn_policy p) (wu_files u) = wu_id u"
    "try_word (length (wu_files u)) = Some (n :: u32)" "checked_add (ck_files s) n = Some files"
    "checked_add (ck_bytes s) (uc_bytes v) = Some bytes"
    "checked_total (ck_low_bytes s) (map wf_input_bytes (filter is_low (wu_files u))) = Some low"
    "t = \<lparr>ck_previous = Some (wu_id u), ck_paths = uc_paths v, ck_anchors = uc_anchors v,
       ck_files = files, ck_bytes = bytes, ck_low_bytes = low\<rparr>"
    unfolding check_unit_def by (auto simp: result_simps not_less split: if_splits)
  then show ?r
    by (auto simp: validate_unit_files_def check_unit_files_Inr unit_ok_def files_bytes_def
        checked_add_Some try_word_Some checked_total_Some comp_def)
next
  assume r: ?r
  let ?ws = "wu_files u"
  let ?v = "\<lparr>uc_previous = (if ?ws = [] then None else Some (wf_path (last ?ws))),
    uc_bytes = wu_input_bytes u, uc_anchor_count = wu_anchor_count u,
    uc_paths = new_path ` set ?ws \<union> ck_paths s, uc_anchors = set (files_anchors ?ws) \<union> ck_anchors s\<rparr>"
  have "unat (wu_input_bytes u) = files_bytes ?ws" using r by (simp add: unit_ok_def files_bytes_def)
  then have add: "checked_add (ck_bytes s) (wu_input_bytes u) = Some (ck_bytes t)"
    using r by (simp add: checked_add_Some)
  have v: "validate_unit_files ?ws (ck_paths s) (ck_anchors s) = Inr ?v"
    using r by (simp add: validate_unit_files_def check_unit_files_Inr unit_ok_def)
  have "length ?ws \<le> unat (pt_max_files_per_work_unit (pn_limits p))" using r by (simp add: unit_ok_def)
  then have n: "unat (of_nat (length ?ws) :: u32) = length ?ws" by (rule unat_of_nat_le)
  then have word: "try_word (length ?ws) = Some (of_nat (length ?ws) :: u32)" by (simp add: try_word_Some)
  have files: "checked_add (ck_files s) (of_nat (length ?ws)) = Some (ck_files t)"
    using r n by (simp add: checked_add_Some)
  have low: "checked_total (ck_low_bytes s) (map wf_input_bytes (filter is_low ?ws)) = Some (ck_low_bytes t)"
    using r by (simp add: checked_total_Some comp_def files_bytes_def)
  show ?l
    using r by (simp add: check_unit_def v word files low add unit_ok_def not_less plan_check.equality)
qed

definition all_files :: "work_unit list \<Rightarrow> work_unit_file list" where
  "all_files us = concat (map wu_files us)"

lemma all_files_simps [simp]:
  "all_files [] = []"
  "all_files (u # us) = wu_files u @ all_files us"
  by (simp_all add: all_files_def)

lemma check_units_Inr:
  "try_fold (check_unit c p) us s = Inr t \<longleftrightarrow>
     ordered_after (ck_previous s) (map wu_id us) \<and> list_all (unit_ok c p) us \<and>
     distinct (map new_path (all_files us)) \<and> new_path ` set (all_files us) \<inter> ck_paths s = {} \<and>
     distinct (files_anchors (all_files us)) \<and> set (files_anchors (all_files us)) \<inter> ck_anchors s = {} \<and>
     ck_previous t = (if us = [] then ck_previous s else Some (wu_id (last us))) \<and>
     ck_paths t = new_path ` set (all_files us) \<union> ck_paths s \<and>
     ck_anchors t = set (files_anchors (all_files us)) \<union> ck_anchors s \<and>
     unat (ck_files t) = unat (ck_files s) + length (all_files us) \<and>
     unat (ck_bytes t) = unat (ck_bytes s) + files_bytes (all_files us) \<and>
     unat (ck_low_bytes t) = unat (ck_low_bytes s) + files_bytes (filter is_low (all_files us))"
  (is "_ \<longleftrightarrow> ?r us s")
proof (induction us arbitrary: s)
  case Nil
  have "s = t \<longleftrightarrow> ck_previous t = ck_previous s \<and> ck_paths t = ck_paths s \<and> ck_anchors t = ck_anchors s
      \<and> ck_files t = ck_files s \<and> ck_bytes t = ck_bytes s \<and> ck_low_bytes t = ck_low_bytes s"
    by (auto intro: plan_check.equality)
  then show ?case by (auto simp: word_unat_eq_iff)
next
  case (Cons u us)
  show ?case
  proof
    assume "try_fold (check_unit c p) (u # us) s = Inr t"
    then obtain v where "check_unit c p u s = Inr v" and "try_fold (check_unit c p) us v = Inr t"
      by (auto simp: result_simps)
    then show "?r (u # us) s" by (auto simp: check_unit_Inr Cons.IH)
  next
    assume r: "?r (u # us) s"
    let ?f = "unat (ck_files s) + length (wu_files u)"
      and ?b = "unat (ck_bytes s) + files_bytes (wu_files u)"
      and ?l = "unat (ck_low_bytes s) + files_bytes (filter is_low (wu_files u))"
    define v where "v = \<lparr>ck_previous = Some (wu_id u), ck_paths = new_path ` set (wu_files u) \<union> ck_paths s,
        ck_anchors = set (files_anchors (wu_files u)) \<union> ck_anchors s, ck_files = of_nat ?f,
        ck_bytes = of_nat ?b, ck_low_bytes = of_nat ?l\<rparr>"
    have le: "?f \<le> unat (ck_files t)" "?b \<le> unat (ck_bytes t)" "?l \<le> unat (ck_low_bytes t)"
      using r by auto
    have v: "unat (ck_files v) = ?f" "unat (ck_bytes v) = ?b" "unat (ck_low_bytes v) = ?l"
      unfolding v_def plan_check.select_convs
      by (rule unat_of_nat_le [OF le(1)], rule unat_of_nat_le [OF le(2)], rule unat_of_nat_le [OF le(3)])
    have "check_unit c p u s = Inr v" using r v by (auto simp: check_unit_Inr) (auto simp: v_def)
    moreover have "try_fold (check_unit c p) us v = Inr t"
      using r v unfolding Cons.IH by (auto simp: v_def)
    ultimately show "try_fold (check_unit c p) (u # us) s = Inr t" by simp
  qed
qed

section \<open>The omissions\<close>

definition count_reasons :: "omitted_file list \<Rightarrow> (review_omission_reason, u32) btree" where
  "count_reasons xs = fold (\<lambda>x. count_reason (of_reason x)) xs []"

abbreviation omitted_path :: "omitted_file \<Rightarrow> repository_path" where
  "omitted_path x \<equiv> cp_new_path (of_path x)"

lemma check_omitted_Inr:
  "try_fold check_omitted xs (previous, paths, reasons) = Inr (previous', paths', reasons') \<longleftrightarrow>
     ordered_after previous (map of_path xs) \<and> list_all (\<lambda>x. semantic_issue (of_path x) = None) xs \<and>
     distinct (map omitted_path xs) \<and> omitted_path ` set xs \<inter> paths = {} \<and>
     previous' = (if xs = [] then previous else Some (of_path (last xs))) \<and>
     paths' = omitted_path ` set xs \<union> paths \<and>
     reasons' = fold (\<lambda>x. count_reason (of_reason x)) xs reasons"
proof (induction xs arbitrary: previous paths reasons)
  case Nil
  then show ?case by auto
next
  case (Cons x xs)
  then show ?case by (auto simp: check_omitted_def [of x] result_simps)
qed

section \<open>Replay validation\<close>

definition plan_ok :: "partition_codec \<Rightarrow> partition_plan \<Rightarrow> bool" where
  "plan_ok c p \<longleftrightarrow>
     (let us = pn_work_units p; l = pn_limits p; cov = pn_coverage p; files = all_files us in
      pn_schema_version p = partition_schema_version \<and>
      partition_limits_validate l = Inr () \<and> policy_validate (pn_policy p) = Inr () \<and>
      sorted_wrt (<) (sp_excluded_prefixes (pn_policy p)) \<and>
      sorted_wrt (<) (sp_excluded_suffixes (pn_policy p)) \<and>
      sorted_wrt (<) (sp_excluded_basename_prefixes (pn_policy p)) \<and>
      sorted_wrt (<) (map wu_id us) \<and> list_all (unit_ok c p) us \<and>
      distinct (map new_path files @ map omitted_path (pn_omitted p)) \<and>
      distinct (files_anchors files) \<and>
      length us \<le> unat (pt_max_work_units l) \<and> length files \<le> unat (pt_max_files l) \<and>
      files_bytes files \<le> unat (pt_max_total_bytes l) \<and>
      files_bytes (filter is_low files) \<le> unat (low_signal_byte_limit l) \<and>
      sorted_wrt (<) (map of_path (pn_omitted p)) \<and>
      list_all (\<lambda>x. semantic_issue (of_path x) = None) (pn_omitted p) \<and>
      unat (pv_included_files cov) = length files \<and>
      unat (pv_omitted_files cov) = length (pn_omitted p) \<and>
      unat (pv_input_files cov) = length files + length (pn_omitted p) \<and>
      unat (pv_included_bytes cov) = files_bytes files \<and>
      pv_omission_reasons cov = count_reasons (pn_omitted p) \<and>
      (pv_complete cov \<longleftrightarrow> pn_omitted p = []) \<and>
      derive_partition_digest c p = Some (pn_plan_sha256 p))"

lemma check_coverage_Inr:
  "check_coverage c p s reasons = Inr () \<longleftrightarrow>
     unat (pv_included_files (pn_coverage p)) = unat (ck_files s) \<and>
     unat (pv_omitted_files (pn_coverage p)) = length (pn_omitted p) \<and>
     unat (pv_input_files (pn_coverage p)) = unat (ck_files s) + length (pn_omitted p) \<and>
     pv_included_bytes (pn_coverage p) = ck_bytes s \<and>
     pv_omission_reasons (pn_coverage p) = reasons \<and>
     (pv_complete (pn_coverage p) \<longleftrightarrow> pn_omitted p = []) \<and>
     derive_partition_digest c p = Some (pn_plan_sha256 p)"
  (is "?l \<longleftrightarrow> ?r")
proof
  assume ?l
  then obtain n i where "try_word (length (pn_omitted p)) = Some (n :: u32)"
    "checked_add (ck_files s) n = Some i" "pv_input_files (pn_coverage p) = i"
    "pv_included_files (pn_coverage p) = ck_files s" "pv_omitted_files (pn_coverage p) = n"
    "pv_included_bytes (pn_coverage p) = ck_bytes s" "pv_omission_reasons (pn_coverage p) = reasons"
    "pv_complete (pn_coverage p) \<longleftrightarrow> pn_omitted p = []"
    "derive_partition_digest c p = Some (pn_plan_sha256 p)"
    unfolding check_coverage_def by (auto simp: result_simps split: if_splits)
  then show ?r by (simp add: try_word_Some checked_add_Some)
next
  assume r: ?r
  have "(try_word (length (pn_omitted p)) :: u32 option) = Some (pv_omitted_files (pn_coverage p))"
    using r by (simp add: try_word_Some)
  moreover have "checked_add (ck_files s) (pv_omitted_files (pn_coverage p)) = Some (pv_input_files (pn_coverage p))"
    using r by (simp add: checked_add_Some)
  moreover have "pv_included_files (pn_coverage p) = ck_files s" using r by (simp add: word_unat_eq_iff)
  ultimately show ?l using r by (simp add: check_coverage_def)
qed

lemma validate_replay_iff: "partition_validate_replay c p = Inr () \<longleftrightarrow> plan_ok c p"
proof -
  let ?us = "pn_work_units p" and ?l = "pn_limits p"
  let ?s0 = "\<lparr>ck_previous = None, ck_paths = {}, ck_anchors = {}, ck_files = 0, ck_bytes = 0,
             ck_low_bytes = 0\<rparr> :: plan_check"
  show ?thesis
  proof
    assume "partition_validate_replay c p = Inr ()"
    then obtain s previous paths reasons where "pn_schema_version p = partition_schema_version"
      "partition_limits_validate ?l = Inr ()" "policy_validate (pn_policy p) = Inr ()"
      "strictly_sorted (sp_excluded_prefixes (pn_policy p))"
      "strictly_sorted (sp_excluded_suffixes (pn_policy p))"
      "strictly_sorted (sp_excluded_basename_prefixes (pn_policy p))"
      "try_fold (check_unit c p) ?us ?s0 = Inr s"
      "length ?us \<le> unat (pt_max_work_units ?l)" "ck_files s \<le> pt_max_files ?l"
      "ck_bytes s \<le> pt_max_total_bytes ?l" "ck_low_bytes s \<le> low_signal_byte_limit ?l"
      "try_fold check_omitted (pn_omitted p) (None, ck_paths s, []) = Inr (previous, paths, reasons)"
      "check_coverage c p s reasons = Inr ()"
      unfolding partition_validate_replay_def by (auto simp: result_simps not_less Let_def split: if_splits)
    then show "plan_ok c p"
      by (auto simp: plan_ok_def Let_def strictly_sorted_def not_any_pair_strict check_units_Inr
          check_omitted_Inr check_coverage_Inr count_reasons_def word_le_nat_alt)
  next
    assume ok: "plan_ok c p"
    define s where "s = \<lparr>ck_previous = (if ?us = [] then None else Some (wu_id (last ?us))),
      ck_paths = new_path ` set (all_files ?us), ck_anchors = set (files_anchors (all_files ?us)),
      ck_files = pv_included_files (pn_coverage p), ck_bytes = pv_included_bytes (pn_coverage p),
      ck_low_bytes = of_nat (files_bytes (filter is_low (all_files ?us)))\<rparr>"
    have low: "unat (ck_low_bytes s) = files_bytes (filter is_low (all_files ?us))"
      unfolding s_def plan_check.select_convs
      by (rule unat_of_nat_le [of _ "low_signal_byte_limit ?l"]) (use ok in \<open>simp add: plan_ok_def Let_def\<close>)
    have units: "try_fold (check_unit c p) ?us ?s0 = Inr s"
      unfolding check_units_Inr low using ok by (simp add: plan_ok_def Let_def s_def)
    have omitted: "try_fold check_omitted (pn_omitted p) (None, ck_paths s, []) =
        Inr (if pn_omitted p = [] then None else Some (of_path (last (pn_omitted p))),
          omitted_path ` set (pn_omitted p) \<union> ck_paths s, count_reasons (pn_omitted p))"
      unfolding check_omitted_Inr using ok by (auto simp: plan_ok_def Let_def count_reasons_def s_def)
    have "check_coverage c p s (count_reasons (pn_omitted p)) = Inr ()"
      using ok by (simp add: check_coverage_Inr plan_ok_def Let_def s_def)
    moreover have "ck_files s \<le> pt_max_files ?l" "ck_bytes s \<le> pt_max_total_bytes ?l"
      "ck_low_bytes s \<le> low_signal_byte_limit ?l"
      using ok low by (simp_all add: plan_ok_def Let_def word_le_nat_alt) (simp_all add: s_def)
    ultimately show "partition_validate_replay c p = Inr ()"
      using ok units omitted
      by (simp add: partition_validate_replay_def plan_ok_def Let_def strictly_sorted_def
          not_any_pair_strict not_less)
  qed
qed

end
