(* ===== verification/Partition_Built.thy ===== *)
theory Partition_Built
  imports Partition_Replayed
begin

text \<open>
  What the partition builder guarantees: which inputs it accepts, that every changed file
  ends up in exactly one place, that the policy decides what a model may see, and that the
  plan does not depend on the order of the input.
\<close>

section \<open>Preparing the inputs\<close>

definition input_ok :: "review_file_input \<Rightarrow> bool" where
  "input_ok f \<longleftrightarrow> semantic_issue (rf_path f) = None \<and> review_value_is_valid (rf_review_value f)"

lemma check_inputs_Inr:
  "try_fold check_input fs seen = Inr t \<longleftrightarrow>
     list_all input_ok fs \<and> distinct (map canonical_path fs) \<and> canonical_path ` set fs \<inter> seen = {} \<and>
     t = canonical_path ` set fs \<union> seen"
  by (induction fs arbitrary: seen) (auto simp: check_input_def input_ok_def insert_new_def result_simps)

definition file_wf :: "work_unit_file \<Rightarrow> bool" where
  "file_wf w \<longleftrightarrow>
     semantic_issue (wf_path w) = None \<and> review_value_is_valid (wf_review_value w) \<and>
     list_ex (\<lambda>r. ro_role r = ExactDiff) (wf_objects w) \<and>
     sorted_wrt (<) (map object_key (wf_objects w)) \<and> sorted_wrt (<) (wf_anchor_ids w) \<and>
     unat (wf_input_bytes w) = (\<Sum>r \<leftarrow> wf_objects w. unat (ro_size_bytes r))"

lemma unit_file_ok_iff: "unit_file_ok w \<longleftrightarrow> file_wf w \<and> length (wf_anchor_ids w) < 2 ^ 32"
  by (auto simp: unit_file_ok_def file_wf_def)

text \<open>What an included file has in common with its input.\<close>

definition prepared_as :: "selection_policy \<Rightarrow> review_file_input \<Rightarrow> work_unit_file \<Rightarrow> bool" where
  "prepared_as p f w \<longleftrightarrow>
     selection_reason f p = None \<and> wf_path w = rf_path f \<and> wf_class w = rf_class f \<and>
     wf_review_value w = rf_review_value f \<and> mset (wf_objects w) = mset (rf_objects f) \<and>
     mset (wf_anchor_ids w) = mset (rf_anchor_ids f)"

lemma any_pair_equal: "sorted xs \<Longrightarrow> \<not> any_pair (=) xs \<longleftrightarrow> sorted_wrt (<) (xs :: 'a::linorder list)"
  by (induction xs rule: induct_list012) (auto simp: less_le)

lemma role_rank_inj [simp]: "role_rank r = role_rank q \<longleftrightarrow> r = q"
  by (cases r; cases q) auto

lemma objects_strict:
  assumes "sorted (map object_key xs)" and "\<not> any_pair (\<lambda>a b. ro_role a = ro_role b) xs"
  shows "sorted_wrt (<) (map object_key xs)"
  using assms by (induction xs rule: induct_list012) (auto simp: less_le object_key_def)

lemma prepare_file_Inr:
  assumes "prepare_file f p seen = (Inr w, seen')" and "input_ok f"
  shows "prepared_as p f w \<and> file_wf w \<and> set (wf_anchor_ids w) \<inter> seen = {} \<and>
    seen' = seen \<union> set (wf_anchor_ids w)"
proof -
  let ?os = "sort_key object_key (rf_objects f)" and ?as = "sort (rf_anchor_ids f)"
  from assms(1) obtain b where w: "selection_reason f p = None"
    "\<not> any_pair (\<lambda>a b. ro_role a = ro_role b) ?os" "\<not> any_pair (=) ?as" "set ?as \<inter> seen = {}"
    "checked_total 0 (map ro_size_bytes ?os) = Some b"
    "w = \<lparr>wf_path = rf_path f, wf_class = rf_class f, wf_review_value = rf_review_value f,
       wf_objects = ?os, wf_anchor_ids = ?as, wf_input_bytes = b\<rparr>" "seen' = seen \<union> set ?as"
    unfolding prepare_file_def
    by (auto simp: Let_def total_bytes_def list_ex_iff split: option.splits if_splits)
  have "list_ex (\<lambda>r. ro_role r = ExactDiff) (rf_objects f)"
    using w(1) by (auto simp: selection_reason_def Let_def split: if_splits)
  then have "list_ex (\<lambda>r. ro_role r = ExactDiff) ?os" by (simp add: list_ex_iff)
  moreover have "sorted_wrt (<) (map object_key ?os)" using w(2) by (intro objects_strict) simp_all
  moreover have "sorted_wrt (<) ?as" using w(3) any_pair_equal [of ?as] by simp
  moreover have "unat b = (\<Sum>r \<leftarrow> ?os. unat (ro_size_bytes r))"
    using w(5) by (simp add: checked_total_Some comp_def)
  ultimately show ?thesis
    using w assms(2) by (auto simp: prepared_as_def file_wf_def input_ok_def)
qed

lemma prepare_file_Inl: "prepare_file f p seen = (Inl x, seen') \<Longrightarrow> of_path x = rf_path f \<and> seen \<subseteq> seen'"
  unfolding prepare_file_def by (auto simp: Let_def split: option.splits if_splits)

lemma prepare_files_result:
  assumes "prepare_files p fs seen included omitted = (included', omitted')" and "list_all input_ok fs"
  shows "\<exists>ws xs. included' = included @ ws \<and> omitted' = omitted @ xs \<and>
    mset (map wf_path ws) + mset (map of_path xs) = mset (map rf_path fs) \<and>
    list_all (\<lambda>w. file_wf w \<and> list_ex (\<lambda>f. prepared_as p f w) fs) ws \<and>
    distinct (files_anchors ws) \<and> set (files_anchors ws) \<inter> seen = {}"
  using assms
proof (induction fs arbitrary: seen included omitted)
  case Nil
  then show ?case by simp
next
  case (Cons f fs)
  obtain r seen1 where prep: "prepare_file f p seen = (r, seen1)" by force
  have ok: "input_ok f" "list_all input_ok fs" using Cons.prems(2) by simp_all
  show ?case
  proof (cases r)
    case (Inl x)
    then have "prepare_files p fs seen1 included (omitted @ [x]) = (included', omitted')"
      using Cons.prems(1) prep by simp
    from Cons.IH [OF this ok(2)] obtain ws xs where "included' = included @ ws" "omitted' = (omitted @ [x]) @ xs"
      "mset (map wf_path ws) + mset (map of_path xs) = mset (map rf_path fs)"
      "list_all (\<lambda>w. file_wf w \<and> list_ex (\<lambda>f. prepared_as p f w) fs) ws"
      "distinct (files_anchors ws)" "set (files_anchors ws) \<inter> seen1 = {}" by blast
    then show ?thesis
      using prepare_file_Inl [OF prep [unfolded Inl]]
      by (intro exI [of _ ws] exI [of _ "x # xs"]) (auto simp: list_all_iff)
  next
    case (Inr w)
    then have "prepare_files p fs seen1 (included @ [w]) omitted = (included', omitted')"
      using Cons.prems(1) prep by simp
    from Cons.IH [OF this ok(2)] obtain ws xs where "included' = (included @ [w]) @ ws" "omitted' = omitted @ xs"
      "mset (map wf_path ws) + mset (map of_path xs) = mset (map rf_path fs)"
      "list_all (\<lambda>w. file_wf w \<and> list_ex (\<lambda>f. prepared_as p f w) fs) ws"
      "distinct (files_anchors ws)" "set (files_anchors ws) \<inter> seen1 = {}" by blast
    moreover note one = prepare_file_Inr [OF prep [unfolded Inr] ok(1)]
    moreover have "distinct (wf_anchor_ids w)" using one by (auto simp: file_wf_def strict_sorted_iff)
    ultimately show ?thesis
      by (intro exI [of _ "w # ws"] exI [of _ xs]) (auto simp: list_all_iff prepared_as_def)
  qed
qed

text \<open>What does not depend on the order of a list.\<close>

lemma files_bytes_mset: "mset ws = mset vs \<Longrightarrow> files_bytes ws = files_bytes vs"
  unfolding files_bytes_def by (metis mset_map sum_mset_sum_list)

lemma bin_anchors_mset: "mset ws = mset vs \<Longrightarrow> bin_anchors ws = bin_anchors vs"
  unfolding bin_anchors_def by (metis mset_map sum_mset_sum_list)

lemma low_bytes_mset: "mset ws = mset vs \<Longrightarrow> files_bytes (filter P ws) = files_bytes (filter P vs)"
  by (intro files_bytes_mset) (metis mset_filter)

lemma mset_files_anchors: "mset (files_anchors ws) = \<Sum>\<^sub># (image_mset (\<lambda>w. mset (wf_anchor_ids w)) (mset ws))"
  by (induction ws) auto

lemma distinct_files_anchors_mset:
  "mset ws = mset vs \<Longrightarrow> distinct (files_anchors ws) = distinct (files_anchors vs)"
  by (intro mset_eq_imp_distinct_iff) (simp only: mset_files_anchors)

lemma distinct_files_anchors_sub:
  assumes "mset ws \<subseteq># mset vs" and "distinct (files_anchors vs)"
  shows "distinct (files_anchors ws)"
proof -
  obtain us where "mset vs = mset (ws @ us)"
    using assms(1) by (metis ex_mset mset_append subset_mset.le_iff_add)
  then have "distinct (files_anchors (ws @ us))" using assms(2) distinct_files_anchors_mset by blast
  then show ?thesis by simp
qed

lemma distinct_map_comp: "distinct (map (\<lambda>x. g (f x)) xs) \<Longrightarrow> distinct (map f xs)"
  by (induction xs) auto

lemma distinct_map_concat: "distinct (map f (concat bs)) \<Longrightarrow> b \<in> set bs \<Longrightarrow> distinct (map f b)"
  by (induction bs) auto

section \<open>Packing\<close>

lemma unat_bin_bytes: "files_bytes ws < 2 ^ 64 \<Longrightarrow> unat (bin_bytes ws) = files_bytes ws"
proof (induction ws)
  case (Cons w ws)
  then have "unat (bin_bytes ws) = files_bytes ws" by simp
  moreover have "bin_bytes (w # ws) = wf_input_bytes w + bin_bytes ws" by (simp add: bin_bytes_def)
  ultimately show ?case using Cons.prems by (simp add: unat_plus_small)
qed (simp add: bin_bytes_def)

lemma over_limit_iff: "over_limit a b limit \<longleftrightarrow> unat limit < unat a + unat (b :: 'w::len word)"
proof (cases "checked_add a b")
  case None
  then have "2 ^ LENGTH('w) \<le> unat a + unat b" by (simp only: checked_add_None)
  then have "unat limit < unat a + unat b" using unsigned_less [of limit, where ?'a = nat] by linarith
  then show ?thesis using None by (simp add: over_limit_def)
next
  case (Some n)
  then have "unat n = unat a + unat b" by (simp only: checked_add_Some)
  then show ?thesis using Some by (simp add: over_limit_def word_less_nat_alt)
qed

lemma first_index_Some: "first_index P xs = Some i \<Longrightarrow> i < length xs \<and> P (xs ! i)"
  by (induction xs arbitrary: i) (auto split: if_splits)

lemma mset_concat_push:
  "i < length bins \<Longrightarrow> mset (concat (bins[i := bins ! i @ [w]])) = add_mset w (mset (concat bins))"
proof (induction bins arbitrary: i)
  case (Cons b bins)
  then show ?case by (cases i) auto
qed simp

text \<open>A bin within the limits of a work unit, and the invariant of the packing loop.\<close>

definition bin_ok :: "partition_limits \<Rightarrow> work_unit_file list \<Rightarrow> bool" where
  "bin_ok l bin \<longleftrightarrow>
     bin \<noteq> [] \<and> length bin \<le> unat (pt_max_files_per_work_unit l) \<and>
     files_bytes bin \<le> unat (pt_max_bytes_per_work_unit l) \<and>
     bin_anchors bin \<le> unat (pt_max_anchors_per_work_unit l)"

definition packing_ok :: "partition_limits \<Rightarrow> work_unit_file list \<Rightarrow> omitted_file list \<Rightarrow> packing \<Rightarrow> bool" where
  "packing_ok l ws omitted s \<longleftrightarrow>
     (let packed = concat (pk_bins s) in
      list_all (bin_ok l) (pk_bins s) \<and> length (pk_bins s) \<le> unat (pt_max_work_units l) \<and>
      unat (pk_admitted_files s) = length packed \<and> length packed \<le> unat (pt_max_files l) \<and>
      unat (pk_admitted_bytes s) = files_bytes packed \<and> files_bytes packed \<le> unat (pt_max_total_bytes l) \<and>
      unat (pk_low_signal_bytes s) = files_bytes (filter is_low packed) \<and>
      files_bytes (filter is_low packed) \<le> unat (low_signal_byte_limit l) \<and>
      mset packed \<subseteq># mset ws \<and>
      mset (map wf_path packed) + mset (map of_path (pk_omitted s)) =
        mset (map wf_path ws) + mset (map of_path omitted))"

lemma subset_add_mset: "A \<subseteq># B \<Longrightarrow> A \<subseteq># add_mset w B"
  by (metis add_mset_add_single mset_subset_eq_add_left subset_mset.order_trans)

lemma packing_ok_omit:
  "packing_ok l ws omitted s \<Longrightarrow>
     packing_ok l (ws @ [w]) omitted
       (s\<lparr>pk_omitted := pk_omitted s @ [\<lparr>of_path = wf_path w, of_reason = reason\<rparr>]\<rparr>)"
  by (auto simp: packing_ok_def Let_def subset_add_mset)

lemma files_bytes_filter_push:
  "mset ws = add_mset w (mset vs) \<Longrightarrow>
     files_bytes (filter P ws) = files_bytes (filter P vs) + (if P w then unat (wf_input_bytes w) else 0)"
  using low_bytes_mset [of ws "w # vs" P] by simp

lemma packing_ok_admit:
  assumes ok: "packing_ok l ws omitted s"
    and capacity: "file_capacity_reason w l (pk_admitted_files s) (pk_admitted_bytes s) (pk_low_signal_bytes s) = None"
    and bins: "list_all (bin_ok l) bins'" "length bins' \<le> unat (pt_max_work_units l)"
    and pushed: "mset (concat bins') = add_mset w (mset (concat (pk_bins s)))"
  shows "packing_ok l (ws @ [w]) omitted
    (s\<lparr>pk_admitted_files := pk_admitted_files s + 1,
       pk_admitted_bytes := pk_admitted_bytes s + wf_input_bytes w,
       pk_low_signal_bytes := (if is_low w then pk_low_signal_bytes s + wf_input_bytes w
         else pk_low_signal_bytes s),
       pk_bins := bins'\<rparr>)"
proof -
  have room: "unat (pk_admitted_files s) < unat (pt_max_files l)"
    "unat (pk_admitted_bytes s) + unat (wf_input_bytes w) \<le> unat (pt_max_total_bytes l)"
    "is_low w \<Longrightarrow> unat (pk_low_signal_bytes s) + unat (wf_input_bytes w) \<le> unat (low_signal_byte_limit l)"
    using capacity unfolding file_capacity_reason_def
    by (auto simp: over_limit_iff not_le not_less word_less_nat_alt split: if_splits)
  have files: "unat (pk_admitted_files s + 1) = unat (pk_admitted_files s) + 1"
    using room(1) unsigned_less [of "pt_max_files l", where ?'a = nat] by (simp add: unat_plus_small)
  have bytes: "unat (pk_admitted_bytes s + wf_input_bytes w) = unat (pk_admitted_bytes s) + unat (wf_input_bytes w)"
    using room(2) unsigned_less [of "pt_max_total_bytes l", where ?'a = nat] by (intro unat_plus_small) simp
  have low: "is_low w \<Longrightarrow>
      unat (pk_low_signal_bytes s + wf_input_bytes w) = unat (pk_low_signal_bytes s) + unat (wf_input_bytes w)"
    using room(3) unsigned_less [of "low_signal_byte_limit l", where ?'a = nat] by (intro unat_plus_small) simp
  have len: "length (concat bins') = length (concat (pk_bins s)) + 1"
    using arg_cong [OF pushed, of size] by simp
  have paths: "mset (map wf_path (concat bins')) = add_mset (wf_path w) (mset (map wf_path (concat (pk_bins s))))"
    using arg_cong [OF pushed, of "image_mset wf_path"] by simp
  have total: "files_bytes (concat bins') = files_bytes (concat (pk_bins s)) + unat (wf_input_bytes w)"
    using files_bytes_filter_push [OF pushed, of "\<lambda>_. True"] by simp
  have lows: "files_bytes (filter is_low (concat bins')) =
      files_bytes (filter is_low (concat (pk_bins s))) + (if is_low w then unat (wf_input_bytes w) else 0)"
    by (rule files_bytes_filter_push [OF pushed])
  let ?s = "s\<lparr>pk_admitted_files := pk_admitted_files s + 1,
       pk_admitted_bytes := pk_admitted_bytes s + wf_input_bytes w,
       pk_low_signal_bytes := (if is_low w then pk_low_signal_bytes s + wf_input_bytes w
         else pk_low_signal_bytes s),
       pk_bins := bins'\<rparr>"
  have fields: "pk_bins ?s = bins'" "pk_omitted ?s = pk_omitted s" "pk_admitted_files ?s = pk_admitted_files s + 1"
    "pk_admitted_bytes ?s = pk_admitted_bytes s + wf_input_bytes w"
    "pk_low_signal_bytes ?s = (if is_low w then pk_low_signal_bytes s + wf_input_bytes w else pk_low_signal_bytes s)"
    by simp_all
  have old: "unat (pk_admitted_files s) = length (concat (pk_bins s))"
    "unat (pk_admitted_bytes s) = files_bytes (concat (pk_bins s))"
    "unat (pk_low_signal_bytes s) = files_bytes (filter is_low (concat (pk_bins s)))"
    "files_bytes (filter is_low (concat (pk_bins s))) \<le> unat (low_signal_byte_limit l)"
    "mset (concat (pk_bins s)) \<subseteq># mset ws"
    "mset (map wf_path (concat (pk_bins s))) + mset (map of_path (pk_omitted s)) =
        mset (map wf_path ws) + mset (map of_path omitted)"
    using ok unfolding packing_ok_def Let_def by blast+
  show ?thesis
    unfolding packing_ok_def Let_def fields len paths total lows pushed
    using bins room files bytes low old by (auto simp: add.commute)
qed

lemma bin_ok_push:
  assumes "bin_ok l bin" and "bin_accepts l w bin"
  shows "bin_ok l (bin @ [w])"
proof -
  have "files_bytes bin < 2 ^ LENGTH(64)"
    using assms(1) unsigned_less [of "pt_max_bytes_per_work_unit l", where ?'a = nat]
    unfolding bin_ok_def by (meson le_less_trans)
  then have "unat (bin_bytes bin) = files_bytes bin" by (simp add: unat_bin_bytes)
  then show ?thesis
    using assms by (auto simp: bin_ok_def bin_accepts_def over_limit_iff bin_anchors_def)
qed

lemma pack_file_ok:
  assumes limits: "partition_limits_validate l = Inr ()" and ok: "packing_ok l ws omitted s"
  shows "packing_ok l (ws @ [w]) omitted (pack_file l w s)"
proof (cases "file_capacity_reason w l (pk_admitted_files s) (pk_admitted_bytes s) (pk_low_signal_bytes s)")
  case (Some reason)
  then show ?thesis using packing_ok_omit [OF ok] by (simp add: pack_file_def)
next
  case None
  let ?bins = "pk_bins s"
  have bins: "list_all (bin_ok l) ?bins" "length ?bins \<le> unat (pt_max_work_units l)"
    using ok by (simp_all add: packing_ok_def Let_def)
  show ?thesis
  proof (cases "first_index (bin_accepts l w) ?bins")
    case (Some i)
    then have i: "i < length ?bins" "bin_accepts l w (?bins ! i)" by (auto dest: first_index_Some)
    then have "bin_ok l (?bins ! i @ [w])" using bins(1) by (intro bin_ok_push) (simp_all add: list_all_length)
    then have "list_all (bin_ok l) (?bins[i := ?bins ! i @ [w]])"
      using bins(1) by (auto simp: list_all_iff dest: set_update_subset_insert [THEN subsetD])
    from packing_ok_admit [OF ok None this _ mset_concat_push [OF i(1)]] show ?thesis
      using None Some bins(2) by (cases "is_low w") (simp_all add: pack_file_def Let_def)
  next
    case none: None
    show ?thesis
    proof (cases "length ?bins < unat (pt_max_work_units l)")
      case True
      have "wf_input_bytes w \<le> pt_max_bytes_per_work_unit l"
        "length (wf_anchor_ids w) \<le> unat (pt_max_anchors_per_work_unit l)"
        using None by (simp_all add: file_capacity_reason_def not_less split: if_splits)
      moreover have "pt_max_files_per_work_unit l \<noteq> 0"
        using limits by (simp add: partition_limits_validate_def split: if_splits)
      then have "0 < unat (pt_max_files_per_work_unit l)" by (simp add: unat_gt_0)
      ultimately have "bin_ok l [w]" by (simp add: bin_ok_def bin_anchors_def word_le_nat_alt Suc_le_eq)
      then have "list_all (bin_ok l) (?bins @ [[w]])" using bins(1) by simp
      moreover have "mset (concat (?bins @ [[w]])) = add_mset w (mset (concat ?bins))" by simp
      ultimately show ?thesis
        using packing_ok_admit [OF ok None, of "?bins @ [[w]]"] None none True
        by (cases "is_low w") (simp_all add: pack_file_def Let_def list_update_append)
    next
      case False
      then show ?thesis using None none packing_ok_omit [OF ok] by (simp add: pack_file_def)
    qed
  qed
qed

lemma pack_files_ok:
  assumes "partition_limits_validate l = Inr ()"
  shows "packing_ok l ws omitted (pack_files ws omitted l)"
proof (induction ws rule: rev_induct)
  case Nil
  then show ?case by (simp add: pack_files_def packing_ok_def)
next
  case (snoc w ws)
  then show ?case using pack_file_ok [OF assms snoc] by (simp add: pack_files_def)
qed

section \<open>The finished plan\<close>

definition make_units ::
    "partition_codec \<Rightarrow> review_snapshot_identity \<Rightarrow> selection_policy \<Rightarrow> work_unit_file list list \<Rightarrow> work_unit list" where
  "make_units c snapshot policy bins = sort_key wu_id (map (make_unit c snapshot policy) bins)"

lemma mset_all_files: "mset (all_files us) = \<Sum>\<^sub># (image_mset (\<lambda>u. mset (wu_files u)) (mset us))"
  by (induction us) auto

lemma mset_make_units: "mset (all_files (make_units c snapshot policy bins)) = mset (concat bins)"
proof -
  have "mset (all_files (map (make_unit c snapshot policy) bins)) = mset (concat bins)"
    by (induction bins) (simp_all add: make_unit_def Let_def)
  then show ?thesis by (simp add: mset_all_files make_units_def)
qed

definition draft_plan ::
    "partition_codec \<Rightarrow> review_snapshot_identity \<Rightarrow> selection_policy \<Rightarrow> partition_limits \<Rightarrow> packing \<Rightarrow> partition_plan" where
  "draft_plan c snapshot policy l packed =
     (let omitted = sort_key of_path (pk_omitted packed) in
      \<lparr>pn_schema_version = partition_schema_version, pn_snapshot = snapshot, pn_policy = policy,
       pn_limits = l, pn_work_units = make_units c snapshot policy (pk_bins packed),
       pn_omitted = omitted,
       pn_coverage = \<lparr>pv_input_files = pk_admitted_files packed + of_nat (length omitted),
         pv_included_files = pk_admitted_files packed, pv_omitted_files = of_nat (length omitted),
         pv_included_bytes = pk_admitted_bytes packed, pv_omission_reasons = count_reasons omitted,
         pv_complete = (omitted = [])\<rparr>,
       pn_plan_sha256 = pc_sha c []\<rparr>)"

lemma digest_without_digest [simp]:
  "derive_partition_digest c (p\<lparr>pn_plan_sha256 := d\<rparr>) = derive_partition_digest c p"
  by (simp add: derive_partition_digest_def digest_view_def)

lemma finalize_plan_eq:
  assumes "unat (pk_admitted_files packed) + length (pk_omitted packed) < 2 ^ 32"
  shows "finalize_plan c snapshot policy l packed =
    (let p = draft_plan c snapshot policy l packed in
     and_then (ok_or BuildSerialization (derive_partition_digest c p)) (\<lambda>digest.
     and_then (map_err PartitionInternalReplay
       (partition_validate_replay c (p\<lparr>pn_plan_sha256 := digest\<rparr>))) (\<lambda>_.
     Inr (p\<lparr>pn_plan_sha256 := digest\<rparr>))))"
proof -
  let ?n = "of_nat (length (pk_omitted packed)) :: u32"
  have "length (pk_omitted packed) < 2 ^ LENGTH(32)" using assms by simp
  then have n: "try_word (length (pk_omitted packed)) = Some ?n" "unat ?n = length (pk_omitted packed)"
    by (simp_all add: try_word_def unat_of_nat_small)
  then have "checked_add (pk_admitted_files packed) ?n = Some (pk_admitted_files packed + ?n)"
    using assms by (simp add: checked_add_def)
  then show ?thesis
    using n(1) by (simp add: finalize_plan_def draft_plan_def make_units_def count_reasons_def Let_def)
qed

section \<open>From the input to the plan\<close>

definition packing_of :: "selection_policy \<Rightarrow> partition_limits \<Rightarrow> review_file_input list \<Rightarrow> packing" where
  "packing_of p l files =
     (let (included, omitted) = prepare_files p (sort_key rf_path files) {} [] []
      in pack_files (sort_key packing_key included) omitted l)"

definition acceptable :: "selection_policy \<Rightarrow> partition_limits \<Rightarrow> review_file_input list \<Rightarrow> bool" where
  "acceptable p l files \<longleftrightarrow>
     policy_validate p = Inr () \<and> partition_limits_validate l = Inr () \<and> length files \<le> 100000 \<and>
     list_all input_ok files \<and> distinct (map canonical_path files)"

lemma build_acceptable:
  assumes "acceptable p l files"
  shows "build_partition_plan c snapshot p l files =
     finalize_plan c snapshot (normalized_policy p) l (packing_of (normalized_policy p) l files)"
proof -
  have "try_fold check_input (sort_key rf_path files) {} = Inr (canonical_path ` set files)"
    using assms by (simp add: check_inputs_Inr acceptable_def list_all_iff)
  then show ?thesis
    using assms by (simp add: build_partition_plan_def acceptable_def max_plan_files_def
        prepare_inputs_def packing_of_def split: prod.split)
qed

lemma build_unacceptable:
  assumes "\<not> acceptable p l files"
  shows "\<exists>e. build_partition_plan c snapshot p l files = Inl e \<and> (\<forall>r. e \<noteq> PartitionInternalReplay r)"
proof (cases "policy_validate p = Inr () \<and> partition_limits_validate l = Inr () \<and> length files \<le> 100000")
  case False
  then show ?thesis
    by (cases "policy_validate p"; cases "partition_limits_validate l")
      (auto simp: build_partition_plan_def max_plan_files_def)
next
  case True
  then have bad: "\<not> (list_all input_ok files \<and> distinct (map canonical_path files))"
    using assms by (simp add: acceptable_def)
  have "try_fold check_input (sort_key rf_path files) {} \<noteq> Inr t" for t
    using bad by (auto simp: check_inputs_Inr list_all_iff)
  then obtain e where e: "try_fold check_input (sort_key rf_path files) {} = Inl e"
    by (cases "try_fold check_input (sort_key rf_path files) {}") auto
  have "try_fold check_input fs seen = Inl e \<Longrightarrow> \<forall>r. e \<noteq> PartitionInternalReplay r" for fs seen
    by (induction fs arbitrary: seen) (auto simp: check_input_def insert_new_def result_simps split: if_splits)
  then show ?thesis
    using True e by (simp add: build_partition_plan_def prepare_inputs_def max_plan_files_def)
qed

lemma packing_of_facts:
  assumes "acceptable p l files" and "packed = packing_of q l files"
  shows "packing_ok l (concat (pk_bins packed)) [] (packed\<lparr>pk_omitted := []\<rparr>)"
    and "mset (map wf_path (concat (pk_bins packed))) + mset (map of_path (pk_omitted packed)) =
      mset (map rf_path files)"
    and "\<forall>w \<in> set (concat (pk_bins packed)). file_wf w \<and> list_ex (\<lambda>f. prepared_as q f w) files"
    and "distinct (files_anchors (concat (pk_bins packed)))"
proof -
  have ok: "list_all input_ok (sort_key rf_path files)" "partition_limits_validate l = Inr ()"
    using assms(1) by (auto simp: acceptable_def list_all_iff)
  obtain ws xs where prep: "prepare_files q (sort_key rf_path files) {} [] [] = (ws, xs)" by force
  from prepare_files_result [OF prep ok(1)] have
    paths: "mset (map wf_path ws) + mset (map of_path xs) = mset (map rf_path (sort_key rf_path files))"
    and wf: "list_all (\<lambda>w. file_wf w \<and> list_ex (\<lambda>f. prepared_as q f w) (sort_key rf_path files)) ws"
    and anchors: "distinct (files_anchors ws)" by auto
  let ?vs = "sort_key packing_key ws"
  have packed: "packed = pack_files ?vs xs l" using prep assms(2) by (simp add: packing_of_def)
  have pack: "packing_ok l ?vs xs packed" unfolding packed by (rule pack_files_ok [OF ok(2)])
  then have sub: "mset (concat (pk_bins packed)) \<subseteq># mset ?vs"
    and all: "mset (map wf_path (concat (pk_bins packed))) + mset (map of_path (pk_omitted packed)) =
        mset (map wf_path ?vs) + mset (map of_path xs)"
    unfolding packing_ok_def Let_def by blast+
  show "packing_ok l (concat (pk_bins packed)) [] (packed\<lparr>pk_omitted := []\<rparr>)"
    using pack by (simp add: packing_ok_def Let_def)
  show "mset (map wf_path (concat (pk_bins packed))) + mset (map of_path (pk_omitted packed)) =
      mset (map rf_path files)"
    unfolding all using paths by simp
  have "set (concat (pk_bins packed)) \<subseteq> set ws" using set_mset_mono [OF sub] by simp
  then show "\<forall>w \<in> set (concat (pk_bins packed)). file_wf w \<and> list_ex (\<lambda>f. prepared_as q f w) files"
    using wf by (auto simp: list_all_iff list_ex_iff)
  have "distinct (files_anchors ?vs)" using anchors distinct_files_anchors_mset [of ?vs ws] by simp
  then show "distinct (files_anchors (concat (pk_bins packed)))"
    using distinct_files_anchors_sub [OF sub] by blast
qed

lemma normalized_policy_ok:
  assumes "policy_validate p = Inr ()"
  shows "policy_validate (normalized_policy p) = Inr ()"
    and "sorted_wrt (<) (sp_excluded_prefixes (normalized_policy p))"
    and "sorted_wrt (<) (sp_excluded_suffixes (normalized_policy p))"
    and "sorted_wrt (<) (sp_excluded_basename_prefixes (normalized_policy p))"
proof -
  have check: "check_patterns xs () = Inr () \<longleftrightarrow> \<not> list_ex bad_pattern xs \<and> distinct xs" for xs
    by (simp add: check_patterns_def)
  have sort: "check_patterns (sort xs) () = Inr () \<longleftrightarrow> check_patterns xs () = Inr ()" for xs
    by (simp add: check list_ex_iff)
  have strict: "check_patterns xs () = Inr () \<Longrightarrow> sorted_wrt (<) (sort xs)" for xs
    by (simp add: check distinct_sorted_strict)
  from assms show "policy_validate (normalized_policy p) = Inr ()"
    "sorted_wrt (<) (sp_excluded_prefixes (normalized_policy p))"
    "sorted_wrt (<) (sp_excluded_suffixes (normalized_policy p))"
    "sorted_wrt (<) (sp_excluded_basename_prefixes (normalized_policy p))"
    by (simp_all add: policy_validate_def normalized_policy_def result_simps sort strict split: if_splits)
qed

lemma make_unit_ok:
  assumes bin: "bin_ok l bin" and wf: "\<forall>w \<in> set bin. file_wf w" and paths: "distinct (map new_path bin)"
    and p: "pn_limits p = l" "pn_snapshot p = snapshot" "pn_policy p = policy"
  shows "unit_ok c p (make_unit c snapshot policy bin)"
proof -
  let ?fs = "sort_key wf_path bin" and ?u = "make_unit c snapshot policy bin"
  have m: "mset ?fs = mset bin" by simp
  have bytes: "files_bytes ?fs = files_bytes bin" and anchors: "bin_anchors ?fs = bin_anchors bin"
    by (rule files_bytes_mset [OF m], rule bin_anchors_mset [OF m])
  have "files_bytes ?fs < 2 ^ LENGTH(64)"
    using bin bytes unsigned_less [of "pt_max_bytes_per_work_unit l", where ?'a = nat]
    unfolding bin_ok_def by (metis le_less_trans)
  then have b: "unat (bin_bytes ?fs) = files_bytes bin" using unat_bin_bytes [of ?fs] bytes by simp
  have "bin_anchors ?fs < 2 ^ LENGTH(32)"
    using bin anchors unsigned_less [of "pt_max_anchors_per_work_unit l", where ?'a = nat]
    unfolding bin_ok_def by (metis le_less_trans)
  then have a: "unat (clamp_word (bin_anchors ?fs) :: u32) = bin_anchors bin" "bin_anchors bin < 2 ^ 32"
    using anchors by (simp_all add: clamp_word_small)
  have "length (wf_anchor_ids w) \<le> bin_anchors bin" if "w \<in> set bin" for w
    using member_le_sum_list [of "length (wf_anchor_ids w)" "map (\<lambda>w. length (wf_anchor_ids w)) bin"] that
    by (simp add: bin_anchors_def)
  then have files: "list_all unit_file_ok ?fs"
    using wf a(2) by (auto simp: list_all_iff unit_file_ok_iff dest: le_less_trans)
  have "distinct (map wf_path bin)"
    using paths by (rule distinct_map_comp)
  then have "sorted_wrt (<) (map wf_path ?fs)" by (intro distinct_sorted_strict) simp_all
  then show ?thesis
    using bin files bytes anchors a b p
    by (simp add: unit_ok_def make_unit_def Let_def bin_ok_def word_le_nat_alt files_bytes_def)
qed

text \<open>
  The ids of the packed units: only a collision of the derived ids can stop a plan from
  replaying.
\<close>

definition unit_ids ::
    "partition_codec \<Rightarrow> review_snapshot_identity \<Rightarrow> selection_policy \<Rightarrow> work_unit_file list list \<Rightarrow> work_unit_id list" where
  "unit_ids c snapshot policy bins =
     map (\<lambda>bin. derive_work_unit_id c snapshot policy (sort_key wf_path bin)) bins"

lemma draft_plan_ok:
  assumes acc: "acceptable p l files" and q: "q = normalized_policy p"
    and packed: "packed = packing_of q l files"
    and digest: "derive_partition_digest c (draft_plan c snapshot q l packed) = Some d"
  shows "plan_ok c ((draft_plan c snapshot q l packed)\<lparr>pn_plan_sha256 := d\<rparr>) \<longleftrightarrow>
    distinct (unit_ids c snapshot q (pk_bins packed))"
proof -
  let ?p = "(draft_plan c snapshot q l packed)\<lparr>pn_plan_sha256 := d\<rparr>"
  let ?bins = "pk_bins packed" and ?om = "sort_key of_path (pk_omitted packed)"
  let ?us = "make_units c snapshot q ?bins"
  note facts = packing_of_facts [OF acc packed]
  have m: "mset (all_files ?us) = mset (concat ?bins)" by (rule mset_make_units)
  have ids: "mset (map wu_id ?us) = mset (unit_ids c snapshot q ?bins)"
    by (simp add: make_units_def unit_ids_def make_unit_def Let_def comp_def multiset.map_comp)
  have "sorted (map wu_id ?us)" by (simp add: make_units_def)
  then have strict: "sorted_wrt (<) (map wu_id ?us) \<longleftrightarrow> distinct (unit_ids c snapshot q ?bins)"
    using mset_eq_imp_distinct_iff [OF ids] by (auto simp: strict_sorted_iff)
  have input: "distinct (map canonical_path files)" "list_all input_ok files" "length files \<le> 100000"
    using acc by (simp_all add: acceptable_def)
  have mpaths: "mset (map wf_path (all_files ?us) @ map of_path ?om) = mset (map rf_path files)"
    using facts(2) arg_cong [OF m, of "image_mset wf_path"] by simp
  have "mset (map cp_new_path (map wf_path (all_files ?us) @ map of_path ?om)) =
      mset (map cp_new_path (map rf_path files))"
    using arg_cong [OF mpaths, of "image_mset cp_new_path"] by (simp add: multiset.map_comp)
  then have "mset (map new_path (all_files ?us) @ map omitted_path ?om) = mset (map canonical_path files)"
    by (simp add: canonical_path_def [abs_def] comp_def multiset.map_comp)
  then have paths: "distinct (map new_path (all_files ?us) @ map omitted_path ?om)"
    using mset_eq_imp_distinct_iff input(1) by blast
  have "distinct (map of_path ?om)" using paths
    by (intro distinct_map_comp [of cp_new_path]) simp
  then have omitted: "sorted_wrt (<) (map of_path ?om)" by (intro distinct_sorted_strict) simp_all
  have "set (map of_path ?om) \<subseteq> set (map rf_path files)"
    using mset_eq_setD [OF mpaths] by auto
  then have semantic: "list_all (\<lambda>x. semantic_issue (of_path x) = None) ?om"
    using input(2) by (auto simp: list_all_iff input_ok_def)
  have anchors: "distinct (files_anchors (all_files ?us))"
    using facts(4) distinct_files_anchors_mset [OF m] by blast
  have len: "length (all_files ?us) = length (concat ?bins)" using m by (metis size_mset)
  have bytes: "files_bytes (all_files ?us) = files_bytes (concat ?bins)"
    "files_bytes (filter is_low (all_files ?us)) = files_bytes (filter is_low (concat ?bins))"
    by (rule files_bytes_mset [OF m], rule low_bytes_mset [OF m])
  have "size (mset (map wf_path (concat ?bins)) + mset (map of_path (pk_omitted packed))) = length files"
    unfolding facts(2) by simp
  then have size: "length (concat ?bins) + length ?om \<le> 100000" using input(3) by (simp add: length_concat)
  have pack: "list_all (bin_ok l) ?bins" "length ?bins \<le> unat (pt_max_work_units l)"
    "unat (pk_admitted_files packed) = length (concat ?bins)" "length (concat ?bins) \<le> unat (pt_max_files l)"
    "unat (pk_admitted_bytes packed) = files_bytes (concat ?bins)"
    "files_bytes (concat ?bins) \<le> unat (pt_max_total_bytes l)"
    "files_bytes (filter is_low (concat ?bins)) \<le> unat (low_signal_byte_limit l)"
    using facts(1) unfolding packing_ok_def Let_def by auto
  have counts: "unat (of_nat (length ?om) :: u32) = length ?om"
    "unat (pk_admitted_files packed + of_nat (length ?om)) = length (concat ?bins) + length ?om"
    using size pack(3) by (simp_all add: unat_of_nat_small unat_plus_small del: length_concat)
  have bin_paths: "distinct (map new_path bin)" if "bin \<in> set ?bins" for bin
  proof -
    have "distinct (map new_path (concat ?bins))"
      using paths mset_eq_imp_distinct_iff [of "map new_path (all_files ?us)" "map new_path (concat ?bins)"]
        arg_cong [OF m, of "image_mset new_path"] by simp
    then show ?thesis using that by (rule distinct_map_concat)
  qed
  have "\<forall>u \<in> set ?us. unit_ok c ?p u"
  proof
    fix u assume "u \<in> set ?us"
    then obtain bin where bin: "bin \<in> set ?bins" "u = make_unit c snapshot q bin" by (auto simp: make_units_def)
    show "unit_ok c ?p u" unfolding bin(2)
    proof (rule make_unit_ok)
      show "bin_ok l bin" using pack(1) bin(1) by (simp add: list_all_iff)
      show "\<forall>w \<in> set bin. file_wf w" using facts(3) bin(1) by auto
      show "distinct (map new_path bin)" by (rule bin_paths [OF bin(1)])
    qed (simp_all add: draft_plan_def Let_def)
  qed
  then have units: "list_all (unit_ok c ?p) ?us" by (simp add: list_all_iff)
  have policy: "policy_validate p = Inr ()" "partition_limits_validate l = Inr ()"
    using acc by (simp_all add: acceptable_def)
  have fields: "pn_work_units ?p = ?us" "pn_limits ?p = l" "pn_policy ?p = q" "pn_omitted ?p = ?om"
    "pn_schema_version ?p = partition_schema_version" "pn_plan_sha256 ?p = d"
    "pn_coverage ?p = \<lparr>pv_input_files = pk_admitted_files packed + of_nat (length ?om),
         pv_included_files = pk_admitted_files packed, pv_omitted_files = of_nat (length ?om),
         pv_included_bytes = pk_admitted_bytes packed, pv_omission_reasons = count_reasons ?om,
         pv_complete = (?om = [])\<rparr>"
    by (simp_all add: draft_plan_def Let_def)
  have "length ?us = length ?bins" by (simp add: make_units_def)
  then show ?thesis
    unfolding plan_ok_def Let_def fields partition_coverage.select_convs len bytes counts
    using policy normalized_policy_ok [OF policy(1)] strict units paths anchors pack omitted semantic digest
    by (simp add: q del: length_concat)
qed

lemma build_result:
  assumes acc: "acceptable p l files" and q: "q = normalized_policy p"
    and packed: "packed = packing_of q l files"
  shows "build_partition_plan c snapshot p l files = Inr plan \<longleftrightarrow>
    (\<exists>d. derive_partition_digest c (draft_plan c snapshot q l packed) = Some d \<and>
      distinct (unit_ids c snapshot q (pk_bins packed)) \<and>
      plan = (draft_plan c snapshot q l packed)\<lparr>pn_plan_sha256 := d\<rparr>)"
proof -
  note facts = packing_of_facts [OF acc packed]
  have "size (mset (map wf_path (concat (pk_bins packed))) + mset (map of_path (pk_omitted packed))) = length files"
    unfolding facts(2) by simp
  moreover have "unat (pk_admitted_files packed) = length (concat (pk_bins packed))"
    using facts(1) by (simp add: packing_ok_def Let_def)
  ultimately have "unat (pk_admitted_files packed) + length (pk_omitted packed) < 2 ^ 32"
    using acc by (simp add: acceptable_def)
  note eq = finalize_plan_eq [OF this]
  show ?thesis
    unfolding build_acceptable [OF acc] q [symmetric] packed [symmetric] eq
    using draft_plan_ok [OF acc q packed]
    by (auto simp: Let_def result_simps validate_replay_iff)
qed

lemma build_Inr_acceptable:
  "build_partition_plan c snapshot p l files = Inr plan \<Longrightarrow> acceptable p l files"
  using build_unacceptable [of p l files c snapshot] by auto

lemma built_partition_replays:
  assumes "build_partition_plan c snapshot p l files = Inr plan"
  shows "partition_validate_replay c plan = Inr ()"
proof -
  have acc: "acceptable p l files" by (rule build_Inr_acceptable [OF assms])
  show ?thesis
    using assms draft_plan_ok [OF acc refl refl] unfolding validate_replay_iff build_result [OF acc refl refl]
    by blast
qed

lemma list_ex_sort [simp]: "list_ex P (sort xs) = list_ex P xs"
  by (simp add: list_ex_iff)

lemma selection_normalized: "selection_reason f (normalized_policy p) = selection_reason f p"
  by (simp add: selection_reason_def normalized_policy_def Let_def cong: if_cong option.case_cong)

lemma prepared_not_sensitive:
  "prepared_as p f w \<Longrightarrow> \<not> is_sensitive_model_context_path (new_path w)"
  by (auto simp: prepared_as_def selection_reason_def canonical_path_def Let_def split: if_splits)

section \<open>Properties\<close>

text \<open>
  A retained plan that replays is safe to execute: every work unit is within the
  limits on files, bytes and anchors and carries the id derived from its content, the whole
  plan is within the total limits and gives low-signal files at most a tenth of the bytes
  and at most 64 KiB, no path occurs twice, included or omitted, no anchor is issued twice,
  every byte count is the exact sum of its objects, and the coverage states the true counts.
\<close>

theorem replayed_plan_is_bounded:
  assumes "partition_validate_replay c p = Inr ()"
  shows "list_all (\<lambda>u. length (wu_files u) \<le> unat (pt_max_files_per_work_unit (pn_limits p)) \<and>
      (\<Sum>w \<leftarrow> wu_files u. \<Sum>r \<leftarrow> wf_objects w. unat (ro_size_bytes r)) \<le> unat (pt_max_bytes_per_work_unit (pn_limits p)) \<and>
      length (files_anchors (wu_files u)) \<le> unat (pt_max_anchors_per_work_unit (pn_limits p)) \<and>
      wu_id u = derive_work_unit_id c (pn_snapshot p) (pn_policy p) (wu_files u)) (pn_work_units p) \<and>
    length (pn_work_units p) \<le> unat (pt_max_work_units (pn_limits p)) \<and>
    length (all_files (pn_work_units p)) \<le> unat (pt_max_files (pn_limits p)) \<and>
    files_bytes (all_files (pn_work_units p)) \<le> unat (pt_max_total_bytes (pn_limits p)) \<and>
    files_bytes (filter is_low (all_files (pn_work_units p))) \<le> min (unat (pt_max_total_bytes (pn_limits p)) div 10) 65536 \<and>
    distinct (map new_path (all_files (pn_work_units p)) @ map omitted_path (pn_omitted p)) \<and>
    distinct (files_anchors (all_files (pn_work_units p))) \<and>
    unat (pv_included_files (pn_coverage p)) = length (all_files (pn_work_units p)) \<and>
    unat (pv_included_bytes (pn_coverage p)) = files_bytes (all_files (pn_work_units p)) \<and>
    unat (pv_omitted_files (pn_coverage p)) = length (pn_omitted p) \<and>
    pv_complete (pn_coverage p) = (pn_omitted p = [])"
proof -
  have ok: "plan_ok c p" using assms by (simp add: validate_replay_iff)
  have "unat (low_signal_byte_limit l) \<le> min (unat (pt_max_total_bytes l) div 10) 65536" for l
    by (simp add: low_signal_byte_limit_def low_signal_budget_divisor_def max_low_signal_bytes_def
        word_less_nat_alt unat_div_distrib)
  then have low: "files_bytes (filter is_low (all_files (pn_work_units p)))
      \<le> min (unat (pt_max_total_bytes (pn_limits p)) div 10) 65536"
    using ok by (simp add: plan_ok_def Let_def) (meson le_trans min.bounded_iff)
  have anchors: "bin_anchors ws = length (files_anchors ws)" for ws
    by (simp add: bin_anchors_def length_concat comp_def)
  have bytes: "list_all unit_file_ok ws \<Longrightarrow>
      (\<Sum>w \<leftarrow> ws. \<Sum>r \<leftarrow> wf_objects w. unat (ro_size_bytes r)) = (\<Sum>w \<leftarrow> ws. unat (wf_input_bytes w))" for ws
    by (induction ws) (simp_all add: unit_file_ok_def)
  have "list_all (unit_ok c p) (pn_work_units p)" using ok by (simp add: plan_ok_def Let_def)
  then have units: "list_all (\<lambda>u. length (wu_files u) \<le> unat (pt_max_files_per_work_unit (pn_limits p)) \<and>
      (\<Sum>w \<leftarrow> wu_files u. \<Sum>r \<leftarrow> wf_objects w. unat (ro_size_bytes r)) \<le> unat (pt_max_bytes_per_work_unit (pn_limits p)) \<and>
      length (files_anchors (wu_files u)) \<le> unat (pt_max_anchors_per_work_unit (pn_limits p)) \<and>
      wu_id u = derive_work_unit_id c (pn_snapshot p) (pn_policy p) (wu_files u)) (pn_work_units p)"
    by (rule list.pred_mono_strong) (simp add: unit_ok_def anchors bytes word_le_nat_alt)
  show ?thesis using ok units low by (simp add: plan_ok_def Let_def)
qed

text \<open>
  \<^bold>\<open>C24.\<close>  Nothing is lost.  Every changed file of the input is in exactly one work unit or
  is listed as omitted; every file in a work unit was selected by the policy, has a new path
  that is not sensitive, and carries exactly the objects and anchors of its input; the plan
  replays; and it is the same plan for every order of the input.  The old path of a renamed
  file is not looked at: \<open>renamed_secret_is_selected\<close> below.
\<close>

theorem partition_accounts_for_every_file:
  assumes built: "build_partition_plan c snapshot p l files = Inr plan"
  shows "mset (map wf_path (all_files (pn_work_units plan))) + mset (map of_path (pn_omitted plan)) =
      mset (map rf_path files) \<and>
    list_all (\<lambda>w. \<not> is_sensitive_model_context_path (new_path w) \<and>
      list_ex (\<lambda>f. rf_path f = wf_path w \<and> selection_reason f p = None \<and>
        mset (rf_objects f) = mset (wf_objects w) \<and> mset (rf_anchor_ids f) = mset (wf_anchor_ids w)) files)
      (all_files (pn_work_units plan)) \<and>
    partition_validate_replay c plan = Inr () \<and>
    (\<forall>files'. mset files' = mset files \<longrightarrow> build_partition_plan c snapshot p l files' = Inr plan)"
proof -
  define q packed where "q = normalized_policy p" and "packed = packing_of q l files"
  have acc: "acceptable p l files" by (rule build_Inr_acceptable [OF built])
  then obtain d where d: "derive_partition_digest c (draft_plan c snapshot q l packed) = Some d"
    "distinct (unit_ids c snapshot q (pk_bins packed))"
    and plan: "plan = (draft_plan c snapshot q l packed)\<lparr>pn_plan_sha256 := d\<rparr>"
    using built build_result [OF acc q_def packed_def] by blast
  note facts = packing_of_facts [OF acc packed_def]
  have fields: "all_files (pn_work_units plan) = all_files (make_units c snapshot q (pk_bins packed))"
    "mset (pn_omitted plan) = mset (pk_omitted packed)"
    by (simp_all add: plan draft_plan_def Let_def)
  have m: "mset (all_files (pn_work_units plan)) = mset (concat (pk_bins packed))"
    unfolding fields by (rule mset_make_units)
  have "mset (map wf_path (all_files (pn_work_units plan))) + mset (map of_path (pn_omitted plan)) =
      mset (map rf_path files)"
    using facts(2) arg_cong [OF m, of "image_mset wf_path"] fields(2) by simp
  moreover have "list_all (\<lambda>w. \<not> is_sensitive_model_context_path (new_path w) \<and>
      list_ex (\<lambda>f. rf_path f = wf_path w \<and> selection_reason f p = None \<and>
        mset (rf_objects f) = mset (wf_objects w) \<and> mset (rf_anchor_ids f) = mset (wf_anchor_ids w)) files)
      (all_files (pn_work_units plan))"
    using facts(3) mset_eq_setD [OF m] prepared_not_sensitive
    by (fastforce simp: list_all_iff list_ex_iff prepared_as_def selection_normalized q_def)
  moreover have "partition_validate_replay c plan = Inr ()"
    by (rule built_partition_replays [OF built])
  moreover have "build_partition_plan c snapshot p l files' = Inr plan" if same: "mset files' = mset files" for files'
  proof -
    have set: "set files' = set files" by (rule mset_eq_setD [OF same])
    have "distinct (map canonical_path files')"
      using acc distinct_map_mset [OF same, of canonical_path] unfolding acceptable_def by blast
    then have acc': "acceptable p l files'"
      using acc set same by (simp add: acceptable_def list_all_iff) (metis size_mset)
    have "inj_on canonical_path (set files)" using acc by (simp add: acceptable_def distinct_map)
    then have "inj_on rf_path (set files')" unfolding set by (auto simp: inj_on_def canonical_path_def)
    then have "sort_key rf_path files' = sort_key rf_path files" by (rule sort_key_mset_cong [OF same])
    then have "packed = packing_of q l files'" by (simp add: packed_def packing_of_def)
    then show ?thesis using build_result [OF acc' q_def] d plan by blast
  qed
  ultimately show ?thesis by blast
qed

text \<open>
  \<^bold>\<open>C25.\<close>  A plan is built exactly when the policy and the limits are valid, there are at
  most 100000 files with consistent, pairwise different paths and valid review values, the
  plan can be encoded, and no two packed units derive the same id; in particular the builder
  refuses its own result only for a collision of ids.
\<close>

theorem partition_accepts_exactly:
  "(\<exists>plan. build_partition_plan c snapshot p l files = Inr plan) \<longleftrightarrow>
     policy_validate p = Inr () \<and> partition_limits_validate l = Inr () \<and> length files \<le> 100000 \<and>
     list_all (\<lambda>f. semantic_issue (rf_path f) = None \<and> review_value_is_valid (rf_review_value f)) files \<and>
     distinct (map canonical_path files) \<and>
     derive_partition_digest c (draft_plan c snapshot (normalized_policy p) l
       (packing_of (normalized_policy p) l files)) \<noteq> None \<and>
     distinct (unit_ids c snapshot (normalized_policy p)
       (pk_bins (packing_of (normalized_policy p) l files)))"
proof -
  have "acceptable p l files \<longleftrightarrow>
     policy_validate p = Inr () \<and> partition_limits_validate l = Inr () \<and> length files \<le> 100000 \<and>
     list_all (\<lambda>f. semantic_issue (rf_path f) = None \<and> review_value_is_valid (rf_review_value f)) files \<and>
     distinct (map canonical_path files)"
    by (simp add: acceptable_def input_ok_def [abs_def])
  moreover have "acceptable p l files \<Longrightarrow>
      (\<exists>plan. build_partition_plan c snapshot p l files = Inr plan) \<longleftrightarrow>
      derive_partition_digest c (draft_plan c snapshot (normalized_policy p) l
        (packing_of (normalized_policy p) l files)) \<noteq> None \<and>
      distinct (unit_ids c snapshot (normalized_policy p)
        (pk_bins (packing_of (normalized_policy p) l files)))"
    using build_result [OF _ refl refl] by auto
  ultimately show ?thesis using build_Inr_acceptable by blast
qed

section \<open>A concrete plan\<close>

definition sample_partition_codec :: partition_codec where
  "sample_partition_codec =
     \<lparr>pc_sha = \<lambda>_. replicate 64 (CHR ''0''), pc_snapshot = \<lambda>_. [], pc_policy = \<lambda>_. [],
      pc_files = \<lambda>_. [], pc_view = \<lambda>_. Some [], pc_plan = \<lambda>_. Some []\<rparr>"

definition sample_policy :: selection_policy where
  "sample_policy =
     \<lparr>sp_version = ''v1'', sp_included_paths = [], sp_included_prefixes = [], sp_included_suffixes = [],
      sp_excluded_paths = [], sp_excluded_prefixes = [], sp_excluded_suffixes = [],
      sp_excluded_basename_prefixes = [], sp_include_generated = False, sp_max_file_bytes = 100\<rparr>"

definition sample_limits :: partition_limits where
  "sample_limits =
     \<lparr>pt_max_files = 2, pt_max_total_bytes = 100, pt_max_work_units = 1, pt_max_files_per_work_unit = 2,
      pt_max_bytes_per_work_unit = 100, pt_max_anchors_per_work_unit = 5\<rparr>"

definition sample_input :: "changed_path \<Rightarrow> review_file_input" where
  "sample_input path =
     \<lparr>rf_path = path, rf_class = TextFile,
      rf_review_value = \<lparr>rv_tier = HighTier, rv_score = 210, rv_reasons = {SourceCode}\<rparr>,
      rf_objects = [\<lparr>ro_role = ExactDiff, ro_content_sha256 = ''d'', ro_size_bytes = 7\<rparr>],
      rf_anchor_ids = [''a'']\<rparr>"

abbreviation sample_change :: changed_path where
  "sample_change \<equiv> ChangedPath ''a.rs'' ''a.rs'' Modified"

definition sample_snapshot :: review_snapshot_identity where
  "sample_snapshot = Local \<lparr>li_repository_identity_sha256 = replicate 64 (CHR ''1''), li_base_sha = replicate 40 (CHR ''a''),
     li_head_sha = replicate 40 (CHR ''b''), li_working_tree_sha256 = replicate 64 (CHR ''2''),
     li_exact_diff_manifest_sha256 = replicate 64 (CHR ''3'')\<rparr>"

lemma sample_built:
  "\<exists>plan. build_partition_plan sample_partition_codec snapshot sample_policy sample_limits
     [sample_input sample_change] = Inr plan"
proof -
  let ?q = "normalized_policy sample_policy" and ?fs = "[sample_input sample_change]"
  have acc: "acceptable sample_policy sample_limits ?fs"
    by (simp add: acceptable_def sample_policy_def sample_limits_def sample_input_def input_ok_def
        policy_validate_def policy_label_def max_policy_patterns_def check_patterns_def
        partition_limits_validate_def max_plan_files_def semantic_issue_def review_value_is_valid_def
        is_ascii_alphanumeric_def is_ascii_lowercase_def is_ascii_digit_def is_ascii_uppercase_def)
  have "length (pk_bins (packing_of ?q sample_limits ?fs)) \<le> 1"
    using packing_of_facts(1) [OF acc refl, of ?q] by (simp add: packing_ok_def Let_def sample_limits_def)
  then have "distinct (unit_ids c snapshot ?q (pk_bins (packing_of ?q sample_limits ?fs)))" for c
    by (cases "pk_bins (packing_of ?q sample_limits ?fs)") (simp_all add: unit_ids_def)
  then show ?thesis
    using build_result [OF acc refl refl, of sample_partition_codec snapshot]
    by (auto simp: derive_partition_digest_def sample_partition_codec_def)
qed

theorem replayed_plan_is_bounded_witness:
  "\<exists>plan. partition_validate_replay sample_partition_codec plan = Inr () \<and>
     length (all_files (pn_work_units plan)) \<le> unat (pt_max_files (pn_limits plan))"
proof -
  obtain plan where "build_partition_plan sample_partition_codec sample_snapshot sample_policy sample_limits
     [sample_input sample_change] = Inr plan" using sample_built by blast
  then have "partition_validate_replay sample_partition_codec plan = Inr ()" by (rule built_partition_replays)
  then show ?thesis using replayed_plan_is_bounded by blast
qed

theorem partition_accounts_for_every_file_witness:
  "\<exists>plan. build_partition_plan sample_partition_codec sample_snapshot sample_policy sample_limits
       [sample_input sample_change] = Inr plan \<and>
     length (all_files (pn_work_units plan)) + length (pn_omitted plan) = 1"
proof -
  obtain plan where plan: "build_partition_plan sample_partition_codec sample_snapshot sample_policy sample_limits
     [sample_input sample_change] = Inr plan" using sample_built by blast
  then have "size (mset (map wf_path (all_files (pn_work_units plan))) + mset (map of_path (pn_omitted plan))) =
      size (mset (map rf_path [sample_input sample_change]))"
    using partition_accounts_for_every_file [OF plan] by metis
  then show ?thesis using plan by simp
qed

text \<open>
  The sensitive paths are looked for in the new path only: a secret file that is renamed is
  selected, packed into a work unit and handed to the model with its diff, although the
  documentation promises that the sensitive path classes are excluded from the prompts.
\<close>

abbreviation renamed_secret :: changed_path where
  "renamed_secret \<equiv> ChangedPath ''.env'' ''settings.txt'' Renamed"

lemma renamed_secret_packed:
  "map (map wf_path) (pk_bins (packing_of (normalized_policy sample_policy) sample_limits
     [sample_input renamed_secret])) = [[renamed_secret]]"
  by (simp add: packing_of_def prepare_file_def selection_reason_def sample_input_def sample_policy_def
      canonical_path_def Let_def is_sensitive_model_context_path_def base_name_def starts_with_def
      ends_with_def total_bytes_def checked_add_def normalized_policy_def pack_files_def pack_file_def
      sample_limits_def file_capacity_reason_def is_low_def over_limit_def word_less_nat_alt)

theorem renamed_secret_is_selected:
  "is_sensitive_model_context_path ''.env'' \<and>
   (\<exists>plan. build_partition_plan sample_partition_codec snapshot sample_policy sample_limits
      [sample_input renamed_secret] = Inr plan \<and>
      map wf_path (all_files (pn_work_units plan)) = [renamed_secret])"
proof -
  let ?q = "normalized_policy sample_policy" and ?fs = "[sample_input renamed_secret]"
  have acc: "acceptable sample_policy sample_limits ?fs"
    by (simp add: acceptable_def sample_policy_def sample_limits_def sample_input_def input_ok_def
        policy_validate_def policy_label_def max_policy_patterns_def check_patterns_def
        partition_limits_validate_def max_plan_files_def semantic_issue_def review_value_is_valid_def
        is_ascii_alphanumeric_def is_ascii_lowercase_def is_ascii_digit_def is_ascii_uppercase_def)
  obtain w where w: "pk_bins (packing_of ?q sample_limits ?fs) = [[w]]" "wf_path w = renamed_secret"
    using renamed_secret_packed by (auto simp: map_eq_Cons_conv)
  then obtain plan where plan: "build_partition_plan sample_partition_codec snapshot sample_policy sample_limits ?fs = Inr plan"
    using build_result [OF acc refl refl, of sample_partition_codec snapshot]
    by (auto simp: derive_partition_digest_def sample_partition_codec_def unit_ids_def)
  then obtain d where "plan = (draft_plan sample_partition_codec snapshot ?q sample_limits
      (packing_of ?q sample_limits ?fs))\<lparr>pn_plan_sha256 := d\<rparr>"
    using build_result [OF acc refl refl, of sample_partition_codec snapshot] by (auto split: option.splits if_splits)
  then have "mset (all_files (pn_work_units plan)) = {#w#}"
    using w by (simp add: draft_plan_def Let_def mset_make_units)
  then have "all_files (pn_work_units plan) = [w]" by (simp add: mset_single_iff)
  then show ?thesis using plan w(2)
    by (simp add: is_sensitive_model_context_path_def base_name_def starts_with_def)
qed

end
