(* ===== verification/Egress.thy ===== *)
theory Egress
  imports Text_Search
begin

unbundle bit_operations_syntax

text \<open>
  \<open>crates/revoot-core/src/egress.rs\<close>: the pure egress policy.  Canonical endpoints, path
  allowlists, classification of addresses, private CIDR exceptions, validation of a DNS
  observation, and the decision whether a request may leave and to which addresses it is
  pinned.  The redacting \<open>Debug\<close> implementations are left out.
\<close>

section \<open>Host names\<close>

definition max_hostname_bytes :: nat where "max_hostname_bytes = 253"
definition max_path_bytes :: nat where "max_path_bytes = 1024"
definition max_dns_answers :: nat where "max_dns_answers = 32"
definition max_dns_ttl_seconds :: u32 where "max_dns_ttl_seconds = 86400"

type_synonym hostname = string

datatype endpoint_error =
    HttpsRequired | MissingAuthority | UserinfoNotAllowed | QueryNotAllowed | FragmentNotAllowed
  | IpLiteralNotAllowed | InvalidHostname | InvalidPort | InvalidPath | InvalidCharacter
  | OriginHasPath

definition is_ascii :: "string \<Rightarrow> bool" where
  "is_ascii s \<longleftrightarrow> list_all (\<lambda>b. b < CHR 0x80) s"

text \<open>The value of a string of decimal digits.\<close>

definition digits_value :: "string \<Rightarrow> nat" where
  "digits_value s = foldl (\<lambda>n b. n * 10 + (of_char b - 48)) 0 s"

text \<open>
  \<open>input.parse::<IpAddr>().is_ok()\<close>.  An IPv4 literal is four numbers up to 255 of one to
  three digits without a leading zero.  An IPv6 literal contains a colon; the check of the
  labels refuses it with the same error, so only the first alternative is modelled.
\<close>

definition ipv4_part :: "string \<Rightarrow> bool" where
  "ipv4_part s \<longleftrightarrow>
     s \<noteq> [] \<and> length s \<le> 3 \<and> list_all is_ascii_digit s \<and> digits_value s \<le> 255 \<and>
     (hd s = CHR ''0'' \<longrightarrow> length s = 1)"

definition is_ipv4_literal :: "string \<Rightarrow> bool" where
  "is_ipv4_literal s \<longleftrightarrow>
     (let parts = split_on (CHR ''.'') s in length parts = 4 \<and> list_all ipv4_part parts)"

definition bad_label :: "string \<Rightarrow> bool" where
  "bad_label l \<longleftrightarrow>
     l = [] \<or> 63 < length l \<or> starts_with ''-'' l \<or> ends_with ''-'' l
     \<or> \<not> list_all (\<lambda>b. is_ascii_lowercase b \<or> is_ascii_digit b \<or> b = CHR ''-'') l"

definition hostname_parse :: "string \<Rightarrow> endpoint_error + hostname" where
  "hostname_parse input =
     (if input = [] \<or> max_hostname_bytes < length input \<or> \<not> is_ascii input \<or> ends_with ''.'' input
        \<or> is_ipv4_literal input \<or> list_all is_ascii_digit input
      then Inl InvalidHostname
      else
        let canonical = ascii_lowercase input in
        if list_ex bad_label (split_on (CHR ''.'') canonical) then Inl InvalidHostname
        else Inr canonical)"

section \<open>Origins and endpoints\<close>

record https_origin =
  ho_hostname :: hostname
  ho_explicit_port :: "u16 option"

definition origin_try_new :: "hostname \<Rightarrow> u16 \<Rightarrow> endpoint_error + https_origin" where
  "origin_try_new host port =
     (if port = 0 then Inl InvalidPort
      else Inr \<lparr>ho_hostname = host, ho_explicit_port = (if port \<noteq> 443 then Some port else None)\<rparr>)"

definition origin_port :: "https_origin \<Rightarrow> u16" where
  "origin_port r = (case ho_explicit_port r of None \<Rightarrow> 443 | Some port \<Rightarrow> port)"

record https_endpoint =
  he_origin :: https_origin
  he_path :: string

definition validate_path :: "string \<Rightarrow> endpoint_error + unit" where
  "validate_path path =
     (if \<not> starts_with ''/'' path \<or> max_path_bytes < length path then Inl InvalidPath
      else if path = ''/'' then Inr ()
      else if ends_with ''/'' path
        \<or> list_ex (\<lambda>s. s = [] \<or> s = ''.'' \<or> s = ''..'') (tl (split_on (CHR ''/'') path))
      then Inl InvalidPath
      else if \<not> list_all (\<lambda>b. b = CHR ''/'' \<or> is_ascii_alphanumeric b \<or> b \<in> set ''-._~'') path
      then Inl InvalidPath
      else Inr ())"

text \<open>\<open>port.parse::<u16>()\<close>: a sign is allowed, and leading zeros are.\<close>

definition parse_u16 :: "string \<Rightarrow> u16 option" where
  "parse_u16 s =
     (let digits = (case strip_prefix ''+'' s of None \<Rightarrow> s | Some t \<Rightarrow> t) in
      if digits = [] \<or> \<not> list_all is_ascii_digit digits then None
      else try_word (digits_value digits))"

text \<open>\<open>str::rsplit_once\<close> by a character.\<close>

definition rsplit_once :: "char \<Rightarrow> string \<Rightarrow> (string \<times> string) option" where
  "rsplit_once c s = map_option (\<lambda>(a, b). (rev b, rev a)) (split_once [c] (rev s))"

definition parse_authority :: "string \<Rightarrow> endpoint_error + string \<times> u16" where
  "parse_authority authority =
     (case rsplit_once (CHR '':'') authority of
        Some (host, port) \<Rightarrow>
          if CHR '':'' \<in> set host \<or> port = [] then Inl InvalidPort
          else
            and_then (ok_or InvalidPort (parse_u16 port)) (\<lambda>port.
            if port = 0 then Inl InvalidPort else Inr (host, port))
      | None \<Rightarrow> Inr (authority, 443))"

definition endpoint_parse :: "string \<Rightarrow> endpoint_error + https_endpoint" where
  "endpoint_parse input =
     (if \<not> is_ascii input \<or> list_ex is_ascii_control input then Inl InvalidCharacter
      else
        and_then (ok_or HttpsRequired (strip_prefix ''https://'' input)) (\<lambda>remainder.
        if CHR ''@'' \<in> set remainder then Inl UserinfoNotAllowed
        else if CHR ''?'' \<in> set remainder then Inl QueryNotAllowed
        else if CHR ''#'' \<in> set remainder then Inl FragmentNotAllowed
        else if CHR ''%'' \<in> set remainder \<or> CHR 0x5C \<in> set remainder \<or> CHR '' '' \<in> set remainder
        then Inl InvalidCharacter
        else
          let (authority, path) = (case split_once ''/'' remainder of
                None \<Rightarrow> (remainder, ''/'')
              | Some (authority, _) \<Rightarrow> (authority, drop (length authority) remainder))
          in if authority = [] then Inl MissingAuthority
             else if starts_with ''['' authority \<or> ends_with '']'' authority then Inl IpLiteralNotAllowed
             else
               and_then (parse_authority authority) (\<lambda>(host, port).
               and_then (hostname_parse host) (\<lambda>host.
               and_then (validate_path path) (\<lambda>_.
               and_then (origin_try_new host port) (\<lambda>origin.
               Inr \<lparr>he_origin = origin, he_path = path\<rparr>))))))"

definition origin_parse :: "string \<Rightarrow> endpoint_error + https_origin" where
  "origin_parse input =
     and_then (endpoint_parse input) (\<lambda>e.
     if he_path e \<noteq> ''/'' then Inl OriginHasPath else Inr (he_origin e))"

section \<open>Allowlists\<close>

datatype path_rule = ExactPath string | PrefixPath string

definition path_rule_exact :: "string \<Rightarrow> endpoint_error + path_rule" where
  "path_rule_exact path = and_then (validate_path path) (\<lambda>_. Inr (ExactPath path))"

definition path_rule_prefix :: "string \<Rightarrow> endpoint_error + path_rule" where
  "path_rule_prefix path = and_then (validate_path path) (\<lambda>_. Inr (PrefixPath path))"

fun rule_permits :: "path_rule \<Rightarrow> string \<Rightarrow> bool" where
  "rule_permits (ExactPath path) candidate \<longleftrightarrow> candidate = path"
| "rule_permits (PrefixPath path) candidate \<longleftrightarrow>
     (if path = ''/'' then True
      else candidate = path
        \<or> (case strip_prefix path candidate of None \<Rightarrow> False | Some rest \<Rightarrow> starts_with ''/'' rest))"

record allowed_origin =
  ao_origin :: https_origin
  ao_paths :: "path_rule list"

record adapter_egress_policy =
  ae_adapter_id :: string
  ae_origins :: "allowed_origin list"

datatype egress_policy_error =
    InvalidAdapterId | EmptyAdapterAllowlist | DuplicateAdapter | EmptyOriginAllowlist
  | DuplicateOrigin | EmptyPathAllowlist | DuplicatePathRule | InvalidCaBundleIdentity

text \<open>Some element equals an earlier one: \<open>!distinct\<close>.\<close>

definition allowed_origin_try_new :: "https_origin \<Rightarrow> path_rule list \<Rightarrow> egress_policy_error + allowed_origin" where
  "allowed_origin_try_new origin paths =
     (if paths = [] then Inl EmptyPathAllowlist
      else if \<not> distinct paths then Inl DuplicatePathRule
      else Inr \<lparr>ao_origin = origin, ao_paths = paths\<rparr>)"

definition origin_permits :: "allowed_origin \<Rightarrow> https_endpoint \<Rightarrow> bool" where
  "origin_permits r e \<longleftrightarrow>
     ao_origin r = he_origin e \<and> list_ex (\<lambda>rule. rule_permits rule (he_path e)) (ao_paths r)"

definition valid_adapter_id :: "string \<Rightarrow> bool" where
  "valid_adapter_id value \<longleftrightarrow>
     value \<noteq> [] \<and> length value \<le> 64 \<and> \<not> starts_with ''-'' value \<and> \<not> ends_with ''-'' value \<and>
     list_all (\<lambda>b. is_ascii_lowercase b \<or> is_ascii_digit b \<or> b = CHR ''-'') value"

definition adapter_policy_try_new ::
    "string \<Rightarrow> allowed_origin list \<Rightarrow> egress_policy_error + adapter_egress_policy" where
  "adapter_policy_try_new adapter_id origins =
     (if \<not> valid_adapter_id adapter_id then Inl InvalidAdapterId
      else if origins = [] then Inl EmptyOriginAllowlist
      else if \<not> distinct (map ao_origin origins) then Inl DuplicateOrigin
      else Inr \<lparr>ae_adapter_id = adapter_id, ae_origins = origins\<rparr>)"

section \<open>Addresses\<close>

text \<open>An address is its 32 or 128 bits, the first octet or segment on top.\<close>

datatype ip_address = V4 u32 | V6 u128

datatype ip_class =
    PublicAddress | PrivateAddress | SharedAddress | LoopbackAddress | LinkLocalAddress
  | MetadataAddress | DocumentationAddress | BenchmarkAddress | MulticastAddress
  | UnspecifiedAddress | TransitionAddress | ReservedAddress

definition octets :: "u32 \<Rightarrow> nat list" where
  "octets a = map (\<lambda>i. unat (drop_bit i a) mod 256) [24, 16, 8, 0]"

definition segments :: "u128 \<Rightarrow> u16 list" where
  "segments a = map (\<lambda>i. ucast (drop_bit i a)) [112, 96, 80, 64, 48, 32, 16, 0]"

definition ipv4 :: "nat \<Rightarrow> nat \<Rightarrow> nat \<Rightarrow> nat \<Rightarrow> u32" where
  "ipv4 a b c d = of_nat (((a * 256 + b) * 256 + c) * 256 + d)"

definition classify_ipv4 :: "u32 \<Rightarrow> ip_class" where
  "classify_ipv4 a =
     (let ot = octets a; o0 = ot ! 0; o1 = ot ! 1; o2 = ot ! 2 in
      if a = 0 then UnspecifiedAddress
      else if ot \<in> set [[169, 254, 169, 254], [169, 254, 169, 123], [169, 254, 170, 2], [169, 254, 170, 23]]
        \<or> a = ipv4 100 100 100 200 \<or> a = ipv4 168 63 129 16
      then MetadataAddress
      else if o0 = 127 then LoopbackAddress
      else if o0 = 10 \<or> o0 = 172 \<and> 16 \<le> o1 \<and> o1 \<le> 31 \<or> o0 = 192 \<and> o1 = 168 then PrivateAddress
      else if o0 = 100 \<and> 64 \<le> o1 \<and> o1 \<le> 127 then SharedAddress
      else if o0 = 169 \<and> o1 = 254 then LinkLocalAddress
      else if [o0, o1, o2] \<in> set [[192, 0, 2], [198, 51, 100], [203, 0, 113]] then DocumentationAddress
      else if o0 = 198 \<and> (o1 = 18 \<or> o1 = 19) then BenchmarkAddress
      else if [o0, o1, o2] = [192, 88, 99] then TransitionAddress
      else if 224 \<le> o0 \<and> o0 \<le> 239 then MulticastAddress
      else if o0 = 0 \<or> 240 \<le> o0 \<or> [o0, o1, o2] = [192, 0, 0] then ReservedAddress
      else PublicAddress)"

definition classify_ipv6 :: "u128 \<Rightarrow> ip_class" where
  "classify_ipv6 a =
     (let sg = segments a; s0 = sg ! 0; s1 = sg ! 1 in
      if a = 0 then UnspecifiedAddress
      else if a = 1 then LoopbackAddress
      else if a = 0xfd000ec2000000000000000000000254 \<or> a = 0xfe8000000000000000000000a9fea9fe
      then MetadataAddress
      else if take 6 sg = [0, 0, 0, 0, 0, 0xffff] \<or> s0 = 0x0064 \<and> s1 = 0xff9b \<or> s0 = 0x2002
      then TransitionAddress
      else if s0 AND 0xfe00 = 0xfc00 then PrivateAddress
      else if s0 AND 0xffc0 = 0xfe80 then LinkLocalAddress
      else if s0 AND 0xff00 = 0xff00 then MulticastAddress
      else if s0 = 0x2001 \<and> s1 = 0x0db8 \<or> s0 = 0x3fff \<and> s1 AND 0xf000 = 0 then DocumentationAddress
      else if s0 = 0x2001 \<and> s1 = 0x0002 \<and> sg ! 2 = 0 then BenchmarkAddress
      else if s0 = 0x2001 \<and> s1 \<le> 0x01ff \<or> s0 = 0x0100 \<and> take 3 (drop 1 sg) = [0, 0, 0]
      then ReservedAddress
      else if s0 AND 0xe000 = 0x2000 then PublicAddress
      else ReservedAddress)"

fun classify_ip_address :: "ip_address \<Rightarrow> ip_class" where
  "classify_ip_address (V4 a) = classify_ipv4 a"
| "classify_ip_address (V6 a) = classify_ipv6 a"

section \<open>Private CIDR blocks\<close>

record ip_cidr =
  ic_network :: ip_address
  ic_prefix_length :: u8

datatype ip_cidr_error = InvalidPrefixLength | HostBitsSet | NotPrivate

text \<open>
  \<open>u32::MAX << (32 - prefix_length)\<close>; the callers have checked that the prefix length is
  at most 32, or 128.
\<close>

definition masked_v4 :: "u32 \<Rightarrow> u8 \<Rightarrow> u32" where
  "masked_v4 v k = (if k = 0 then 0 else v AND push_bit (32 - unat k) (- 1))"

definition masked_v6 :: "u128 \<Rightarrow> u8 \<Rightarrow> u128" where
  "masked_v6 v k = (if k = 0 then 0 else v AND push_bit (128 - unat k) (- 1))"

fun masked_address :: "ip_address \<Rightarrow> u8 \<Rightarrow> ip_address" where
  "masked_address (V4 a) k = V4 (masked_v4 a k)"
| "masked_address (V6 a) k = V6 (masked_v6 a k)"

fun is_ipv4 :: "ip_address \<Rightarrow> bool" where
  "is_ipv4 (V4 _) = True"
| "is_ipv4 (V6 _) = False"

fun private_cidr_supported :: "ip_address \<Rightarrow> u8 \<Rightarrow> bool" where
  "private_cidr_supported (V4 a) k \<longleftrightarrow>
     list_ex (\<lambda>(base, n). n \<le> k \<and> masked_v4 a n = base)
       [(ipv4 10 0 0 0, 8), (ipv4 172 16 0 0, 12), (ipv4 192 168 0 0, 16)]"
| "private_cidr_supported (V6 a) k \<longleftrightarrow> 7 \<le> k \<and> masked_v6 a 7 = push_bit 112 0xfc00"

definition cidr_private :: "ip_address \<Rightarrow> u8 \<Rightarrow> ip_cidr_error + ip_cidr" where
  "cidr_private network k =
     (let longest = (if is_ipv4 network then 32 else 128) in
      if longest < k then Inl InvalidPrefixLength
      else if masked_address network k \<noteq> network then Inl HostBitsSet
      else if \<not> private_cidr_supported network k then Inl NotPrivate
      else Inr \<lparr>ic_network = network, ic_prefix_length = k\<rparr>)"

definition cidr_contains :: "ip_cidr \<Rightarrow> ip_address \<Rightarrow> bool" where
  "cidr_contains c a \<longleftrightarrow>
     is_ipv4 (ic_network c) = is_ipv4 a \<and> masked_address a (ic_prefix_length c) = ic_network c"

section \<open>DNS observations\<close>

record dns_answer =
  da_address :: ip_address
  da_ttl_seconds :: u32

record dns_observation =
  do_hostname :: hostname
  do_answers :: "dns_answer list"

record dns_policy =
  dp_max_answers :: nat
  dp_min_ttl_seconds :: u32
  dp_max_ttl_seconds :: u32
  dp_allowed_private_cidrs :: "ip_cidr list"

datatype dns_policy_error = InvalidAnswerBound | InvalidTtlBounds | DuplicatePrivateCidr

datatype dns_denial =
    HostnameMismatch | NoAnswers | TooManyAnswers | TtlOutOfBounds | DuplicateAddress
  | AddressClassDenied ip_class

record dns_resolution =
  dr_hostname :: hostname
  dr_addresses :: "ip_address list"
  dr_minimum_ttl_seconds :: u32

definition dns_policy_try_new ::
    "nat \<Rightarrow> u32 \<Rightarrow> u32 \<Rightarrow> ip_cidr list \<Rightarrow> dns_policy_error + dns_policy" where
  "dns_policy_try_new max_answers min_ttl max_ttl cidrs =
     (if \<not> (1 \<le> max_answers \<and> max_answers \<le> max_dns_answers) then Inl InvalidAnswerBound
      else if min_ttl = 0 \<or> max_ttl < min_ttl \<or> max_dns_ttl_seconds < max_ttl then Inl InvalidTtlBounds
      else if \<not> distinct cidrs then Inl DuplicatePrivateCidr
      else Inr \<lparr>dp_max_answers = max_answers, dp_min_ttl_seconds = min_ttl,
        dp_max_ttl_seconds = max_ttl, dp_allowed_private_cidrs = cidrs\<rparr>)"

definition default_dns_policy :: dns_policy where
  "default_dns_policy =
     \<lparr>dp_max_answers = 8, dp_min_ttl_seconds = 1, dp_max_ttl_seconds = 3600,
      dp_allowed_private_cidrs = []\<rparr>"

text \<open>The derived order of addresses: IPv4 first, then by octets.\<close>

fun address_key :: "ip_address \<Rightarrow> nat \<times> nat" where
  "address_key (V4 a) = (0, unat a)"
| "address_key (V6 a) = (1, unat a)"

text \<open>The body of the loop over the answers: the addresses so far and the least TTL.\<close>

definition class_allowed :: "dns_policy \<Rightarrow> ip_address \<Rightarrow> bool" where
  "class_allowed p a \<longleftrightarrow>
     classify_ip_address a = PublicAddress \<or>
     classify_ip_address a = PrivateAddress \<and> list_ex (\<lambda>c. cidr_contains c a) (dp_allowed_private_cidrs p)"

definition check_answer ::
    "dns_policy \<Rightarrow> dns_answer \<Rightarrow> ip_address list \<times> u32 \<Rightarrow> dns_denial + ip_address list \<times> u32" where
  "check_answer p answer s =
     (let (addresses, minimum_ttl) = s in
      if \<not> (dp_min_ttl_seconds p \<le> da_ttl_seconds answer \<and> da_ttl_seconds answer \<le> dp_max_ttl_seconds p)
      then Inl TtlOutOfBounds
      else if da_address answer \<in> set addresses then Inl DuplicateAddress
      else if \<not> class_allowed p (da_address answer)
      then Inl (AddressClassDenied (classify_ip_address (da_address answer)))
      else Inr (addresses @ [da_address answer], min minimum_ttl (da_ttl_seconds answer)))"

definition dns_validate :: "dns_policy \<Rightarrow> dns_observation \<Rightarrow> dns_denial + dns_resolution" where
  "dns_validate p d =
     (if do_answers d = [] then Inl NoAnswers
      else if dp_max_answers p < length (do_answers d) then Inl TooManyAnswers
      else
        and_then (try_fold (check_answer p) (do_answers d) ([], - 1)) (\<lambda>(addresses, minimum_ttl).
        Inr \<lparr>dr_hostname = do_hostname d, dr_addresses = sort_key address_key addresses,
          dr_minimum_ttl_seconds = minimum_ttl\<rparr>))"

datatype rebinding_decision = Unchanged | RebindingDenied dns_denial | AddressSetChanged

definition compare_dns_rebinding ::
    "dns_resolution \<Rightarrow> dns_observation \<Rightarrow> dns_policy \<Rightarrow> rebinding_decision" where
  "compare_dns_rebinding pinned fresh p =
     (if do_hostname fresh \<noteq> dr_hostname pinned then RebindingDenied HostnameMismatch
      else case dns_validate p fresh of
          Inr validated \<Rightarrow>
            if dr_addresses validated = dr_addresses pinned then Unchanged else AddressSetChanged
        | Inl denial \<Rightarrow> RebindingDenied denial)"

section \<open>The policy\<close>

datatype proxy_mode = DirectMode | ExplicitHttps https_origin

datatype ca_mode =
    BundledWebPki | SystemRoots | CustomBundle "u8 list" | SystemAndCustom "u8 list"

fun has_valid_bundle_identity :: "ca_mode \<Rightarrow> bool" where
  "has_valid_bundle_identity BundledWebPki = True"
| "has_valid_bundle_identity SystemRoots = True"
| "has_valid_bundle_identity (CustomBundle sha256) = list_ex (\<lambda>b. b \<noteq> 0) sha256"
| "has_valid_bundle_identity (SystemAndCustom sha256) = list_ex (\<lambda>b. b \<noteq> 0) sha256"

datatype route_observation =
    DirectRoute dns_observation | ProxyRoute https_origin dns_observation

record egress_policy =
  ep_adapters :: "adapter_egress_policy list"
  ep_proxy_mode :: proxy_mode
  ep_certificate_authorities :: ca_mode
  ep_upstream_dns_policy :: dns_policy
  ep_proxy_dns_policy :: dns_policy

definition egress_policy_try_new ::
    "adapter_egress_policy list \<Rightarrow> proxy_mode \<Rightarrow> ca_mode \<Rightarrow> dns_policy \<Rightarrow> dns_policy
      \<Rightarrow> egress_policy_error + egress_policy" where
  "egress_policy_try_new adapters mode ca upstream proxy =
     (if adapters = [] then Inl EmptyAdapterAllowlist
      else if \<not> distinct (map ae_adapter_id adapters) then Inl DuplicateAdapter
      else if \<not> has_valid_bundle_identity ca then Inl InvalidCaBundleIdentity
      else Inr \<lparr>ep_adapters = adapters, ep_proxy_mode = mode, ep_certificate_authorities = ca,
        ep_upstream_dns_policy = upstream, ep_proxy_dns_policy = proxy\<rparr>)"

datatype route_kind = DirectKind | ExplicitProxyKind

datatype egress_denial =
    UnknownAdapter | OriginNotAllowed | PathNotAllowed | RouteMismatch | ProxyMismatch
  | DnsDenied dns_denial | RedirectDisabled

record allowed_egress =
  al_adapter_id :: string
  al_endpoint :: https_endpoint
  al_route_kind :: route_kind
  al_certificate_authorities :: ca_mode
  al_resolution :: dns_resolution

text \<open>\<open>ProviderEgressDecision\<close> is a result: \<^const>\<open>Inr\<close> is \<open>Allowed\<close>.\<close>

definition adapter_permits :: "adapter_egress_policy \<Rightarrow> https_endpoint \<Rightarrow> egress_denial + unit" where
  "adapter_permits ad e =
     (case find (\<lambda>r. ao_origin r = he_origin e) (ae_origins ad) of
        None \<Rightarrow> Inl OriginNotAllowed
      | Some r \<Rightarrow> if \<not> origin_permits r e then Inl PathNotAllowed else Inr ())"

definition check_route ::
    "egress_policy \<Rightarrow> https_endpoint \<Rightarrow> route_observation \<Rightarrow> egress_denial + route_kind \<times> dns_resolution" where
  "check_route p e route =
     (case (ep_proxy_mode p, route) of
        (DirectMode, DirectRoute upstream) \<Rightarrow>
          if do_hostname upstream \<noteq> ho_hostname (he_origin e) then Inl (DnsDenied HostnameMismatch)
          else map_err DnsDenied (map_sum id (Pair DirectKind) (dns_validate (ep_upstream_dns_policy p) upstream))
      | (ExplicitHttps configured, ProxyRoute observed proxy_dns) \<Rightarrow>
          if configured \<noteq> observed then Inl ProxyMismatch
          else if do_hostname proxy_dns \<noteq> ho_hostname configured then Inl (DnsDenied HostnameMismatch)
          else map_err DnsDenied (map_sum id (Pair ExplicitProxyKind) (dns_validate (ep_proxy_dns_policy p) proxy_dns))
      | _ \<Rightarrow> Inl RouteMismatch)"

definition authorize ::
    "egress_policy \<Rightarrow> string \<Rightarrow> https_endpoint \<Rightarrow> route_observation \<Rightarrow> egress_denial + allowed_egress" where
  "authorize p adapter_id e route =
     (case find (\<lambda>ad. ae_adapter_id ad = adapter_id) (ep_adapters p) of
        None \<Rightarrow> Inl UnknownAdapter
      | Some ad \<Rightarrow>
          and_then (adapter_permits ad e) (\<lambda>_.
          and_then (check_route p e route) (\<lambda>(kind, resolution).
          Inr \<lparr>al_adapter_id = adapter_id, al_endpoint = e, al_route_kind = kind,
            al_certificate_authorities = ep_certificate_authorities p, al_resolution = resolution\<rparr>)))"

definition authorize_redirect :: "egress_policy \<Rightarrow> https_endpoint \<Rightarrow> egress_denial + allowed_egress" where
  "authorize_redirect p target = Inl RedirectDisabled"

end
