(* ===== verification/Egress_Enforced.thy ===== *)
theory Egress_Enforced
  imports Egress
begin

unbundle bit_operations_syntax

text \<open>
  What the egress policy guarantees: the addresses a request is pinned to, the meaning of
  the classification of addresses as CIDR blocks, and host names in canonical form.
\<close>

section \<open>Validated observations\<close>

definition ttl_ok :: "dns_policy \<Rightarrow> dns_answer \<Rightarrow> bool" where
  "ttl_ok p x \<longleftrightarrow> dp_min_ttl_seconds p \<le> da_ttl_seconds x \<and> da_ttl_seconds x \<le> dp_max_ttl_seconds p"

lemma check_answers_Inr:
  "try_fold (check_answer p) xs (as, m) = Inr (as', m') \<longleftrightarrow>
     list_all (ttl_ok p) xs \<and> list_all (\<lambda>x. class_allowed p (da_address x)) xs \<and>
     distinct (map da_address xs) \<and> da_address ` set xs \<inter> set as = {} \<and>
     as' = as @ map da_address xs \<and> m' = fold (\<lambda>x m. min m (da_ttl_seconds x)) xs m"
proof (induction xs arbitrary: as m)
  case (Cons x xs)
  have "check_answer p x (as, m) = Inr s \<longleftrightarrow>
      ttl_ok p x \<and> da_address x \<notin> set as \<and> class_allowed p (da_address x) \<and>
      s = (as @ [da_address x], min m (da_ttl_seconds x))" for s
    by (auto simp: check_answer_def ttl_ok_def)
  then show ?case using Cons.IH by (auto simp: result_simps)
qed auto

lemma fold_min: "fold (\<lambda>x m. min m (f x)) xs m = Min (insert m (f ` set xs))"
  for f :: "'a \<Rightarrow> 'b::linorder"
proof (induction xs arbitrary: m)
  case (Cons x xs)
  have "Min (insert (min m (f x)) (f ` set xs)) = Min (insert m (insert (f x) (f ` set xs)))"
    by (cases "xs = []") (simp_all add: min.assoc)
  then show ?case using Cons by simp
qed simp

lemma address_key_inj: "address_key a = address_key b \<Longrightarrow> a = b"
  by (cases a; cases b) (simp_all add: word_unat_eq_iff)

interpretation addresses: derived_order address_key
  by unfold_locales (rule address_key_inj)

text \<open>The resolution that is pinned for an observation.\<close>

definition resolves_to :: "dns_policy \<Rightarrow> dns_observation \<Rightarrow> dns_resolution \<Rightarrow> bool" where
  "resolves_to p d r \<longleftrightarrow>
     dr_hostname r = do_hostname d \<and> do_answers d \<noteq> [] \<and> length (do_answers d) \<le> dp_max_answers p \<and>
     list_all (ttl_ok p) (do_answers d) \<and> distinct (map da_address (do_answers d)) \<and>
     list_all (class_allowed p) (dr_addresses r) \<and>
     mset (dr_addresses r) = mset (map da_address (do_answers d)) \<and> sorted (map address_key (dr_addresses r)) \<and>
     dr_minimum_ttl_seconds r = Min (da_ttl_seconds ` set (do_answers d))"

lemma dns_validate_Inr: "dns_validate p d = Inr r \<longleftrightarrow> resolves_to p d r"
proof -
  let ?xs = "do_answers d" and ?as = "map da_address (do_answers d)"
  have min: "fold (\<lambda>x m. min m (da_ttl_seconds x)) ?xs (- 1) = Min (da_ttl_seconds ` set ?xs)" if "?xs \<noteq> []"
    using that by (simp add: fold_min min_absorb2 word_order.extremum)
  have sorted: "mset ys = mset ?as \<and> sorted (map address_key ys) \<longleftrightarrow> ys = sort_key address_key ?as" for ys
    using sort_key_inj_key_eq [of ?as ys address_key] addresses.inj_on_key by auto
  have classes: "list_all (class_allowed p) (sort_key address_key ?as) \<longleftrightarrow>
      list_all (\<lambda>x. class_allowed p (da_address x)) ?xs" by (simp add: list_all_iff)
  have "dns_validate p d = Inr r \<longleftrightarrow>
      ?xs \<noteq> [] \<and> length ?xs \<le> dp_max_answers p \<and> list_all (ttl_ok p) ?xs \<and>
      list_all (\<lambda>x. class_allowed p (da_address x)) ?xs \<and> distinct ?as \<and>
      r = \<lparr>dr_hostname = do_hostname d, dr_addresses = sort_key address_key ?as,
        dr_minimum_ttl_seconds = fold (\<lambda>x m. min m (da_ttl_seconds x)) ?xs (- 1)\<rparr>"
    by (auto simp: dns_validate_def check_answers_Inr result_simps not_less)
  also have "\<dots> \<longleftrightarrow> resolves_to p d r"
    unfolding resolves_to_def using min sorted [of "dr_addresses r"] classes
    by (auto intro: dns_resolution.equality)
  finally show ?thesis .
qed

section \<open>Properties of the decision\<close>

text \<open>
  \<^bold>\<open>C26.\<close>  A request leaves only where the policy says.  An allowed request names a known
  adapter whose allowlist has the endpoint's exact origin and a rule for its path; the route
  is the configured one; the DNS observation is for the very host that is connected to; and
  the connection is pinned to exactly the observed addresses, which are at most the bounded
  number, pairwise different, with lifetimes within the bounds, and each either public or
  private inside an approved block.  Redirects never leave.
\<close>

theorem egress_is_pinned:
  assumes "authorize p i e route = Inr a"
  shows "list_ex (\<lambda>ad. ae_adapter_id ad = i \<and> list_ex (\<lambda>r. ao_origin r = he_origin e \<and>
        list_ex (\<lambda>rule. rule_permits rule (he_path e)) (ao_paths r)) (ae_origins ad)) (ep_adapters p) \<and>
    al_adapter_id a = i \<and> al_endpoint a = e \<and>
    (case route of
       DirectRoute d \<Rightarrow> ep_proxy_mode p = DirectMode \<and> do_hostname d = ho_hostname (he_origin e) \<and>
         al_route_kind a = DirectKind \<and> resolves_to (ep_upstream_dns_policy p) d (al_resolution a)
     | ProxyRoute proxy d \<Rightarrow> ep_proxy_mode p = ExplicitHttps proxy \<and> do_hostname d = ho_hostname proxy \<and>
         al_route_kind a = ExplicitProxyKind \<and> resolves_to (ep_proxy_dns_policy p) d (al_resolution a)) \<and>
    authorize_redirect p target = Inl RedirectDisabled"
proof -
  obtain ad r kind res where ad: "find (\<lambda>ad. ae_adapter_id ad = i) (ep_adapters p) = Some ad"
    and permits: "find (\<lambda>r. ao_origin r = he_origin e) (ae_origins ad) = Some r" "origin_permits r e"
    and route: "check_route p e route = Inr (kind, res)"
    and a: "a = \<lparr>al_adapter_id = i, al_endpoint = e, al_route_kind = kind,
            al_certificate_authorities = ep_certificate_authorities p, al_resolution = res\<rparr>"
    using assms by (auto simp: authorize_def adapter_permits_def result_simps split: option.splits if_splits)
  have "ad \<in> set (ep_adapters p) \<and> ae_adapter_id ad = i" "r \<in> set (ae_origins ad) \<and> ao_origin r = he_origin e"
    using ad permits(1) by (auto simp: find_Some_iff)
  then have "list_ex (\<lambda>ad. ae_adapter_id ad = i \<and> list_ex (\<lambda>r. ao_origin r = he_origin e \<and>
        list_ex (\<lambda>rule. rule_permits rule (he_path e)) (ao_paths r)) (ae_origins ad)) (ep_adapters p)"
    using permits(2) by (auto simp: list_ex_iff origin_permits_def)
  moreover have "map_sum id (Pair k) m = Inr (kind, res) \<longleftrightarrow> k = kind \<and> m = Inr res" for k and m :: "dns_denial + dns_resolution"
    by (cases m) auto
  then have "case route of
       DirectRoute d \<Rightarrow> ep_proxy_mode p = DirectMode \<and> do_hostname d = ho_hostname (he_origin e) \<and>
         kind = DirectKind \<and> resolves_to (ep_upstream_dns_policy p) d res
     | ProxyRoute proxy d \<Rightarrow> ep_proxy_mode p = ExplicitHttps proxy \<and> do_hostname d = ho_hostname proxy \<and>
         kind = ExplicitProxyKind \<and> resolves_to (ep_proxy_dns_policy p) d res"
    using route
    by (auto simp: check_route_def result_simps dns_validate_Inr split: route_observation.splits proxy_mode.splits if_splits)
  ultimately show ?thesis unfolding a allowed_egress.select_convs
    by (simp only: authorize_redirect_def simp_thms)
qed

definition example_origin :: https_origin where
  "example_origin = \<lparr>ho_hostname = ''h'', ho_explicit_port = None\<rparr>"

definition example_policy :: egress_policy where
  "example_policy = \<lparr>ep_adapters = [\<lparr>ae_adapter_id = ''a'', ae_origins =
       [\<lparr>ao_origin = example_origin, ao_paths = [PrefixPath ''/'']\<rparr>]\<rparr>],
     ep_proxy_mode = DirectMode, ep_certificate_authorities = SystemRoots,
     ep_upstream_dns_policy = default_dns_policy, ep_proxy_dns_policy = default_dns_policy\<rparr>"

definition example_endpoint :: https_endpoint where
  "example_endpoint = \<lparr>he_origin = example_origin, he_path = ''/v1''\<rparr>"

definition example_observation :: dns_observation where
  "example_observation = \<lparr>do_hostname = ''h'', do_answers = [\<lparr>da_address = V4 0x08080808, da_ttl_seconds = 60\<rparr>]\<rparr>"

definition example_allowed :: allowed_egress where
  "example_allowed = \<lparr>al_adapter_id = ''a'', al_endpoint = example_endpoint, al_route_kind = DirectKind,
     al_certificate_authorities = SystemRoots, al_resolution =
       \<lparr>dr_hostname = ''h'', dr_addresses = [V4 0x08080808], dr_minimum_ttl_seconds = 60\<rparr>\<rparr>"

lemma example_allows: "authorize example_policy ''a'' example_endpoint (DirectRoute example_observation) = Inr example_allowed"
proof -
  have "classify_ipv4 0x08080808 = PublicAddress"
    by (simp add: classify_ipv4_def octets_def ipv4_def)
  then have "dns_validate default_dns_policy example_observation = Inr (al_resolution example_allowed)"
    by (simp add: dns_validate_def example_observation_def example_allowed_def default_dns_policy_def
        check_answer_def class_allowed_def)
  then show ?thesis
    by (simp add: authorize_def example_policy_def adapter_permits_def example_endpoint_def origin_permits_def
        check_route_def example_observation_def example_origin_def example_allowed_def)
qed

theorem egress_is_pinned_witness:
  "resolves_to default_dns_policy example_observation (al_resolution example_allowed)"
  using egress_is_pinned [OF example_allows, where target = example_endpoint]
  by (simp add: example_policy_def)

section \<open>Addresses as CIDR blocks\<close>

lemma and_high_mask: "v AND push_bit n (- 1) = push_bit n (drop_bit n v)" for v :: "'w::len word"
  by (rule bit_eqI) (auto simp: bit_simps)

lemma unat_high_mask: "unat (v AND push_bit n (- 1)) = unat v div 2 ^ n * 2 ^ n" for v :: "'w::len word"
proof -
  have "unat v div 2 ^ n * 2 ^ n \<le> unat v" by simp
  then have "unat v div 2 ^ n * 2 ^ n < 2 ^ LENGTH('w)"
    using unsigned_less [of v, where ?'a = nat] by (rule le_less_trans)
  then show ?thesis
    unfolding and_high_mask unsigned_push_bit_eq unsigned_drop_bit_eq
    unfolding push_bit_eq_mult drop_bit_eq_div by (simp add: take_bit_nat_eq_self)
qed

lemma masked_v4_block:
  assumes "k \<noteq> 0" and "unat k + j = 32" and "unat b = m * 2 ^ j"
  shows "masked_v4 v k = b \<longleftrightarrow> unat v div 2 ^ j = m"
proof -
  have j: "32 - unat k = j" using assms(2) by simp
  have "masked_v4 v k = b \<longleftrightarrow> unat (masked_v4 v k) = unat b" by (simp add: word_unat_eq_iff)
  also have "\<dots> \<longleftrightarrow> unat v div 2 ^ j = m"
    unfolding assms(3) masked_v4_def j using assms(1) by (simp only: if_False unat_high_mask) simp
  finally show ?thesis .
qed

text \<open>An address by its four octets.\<close>

lemma octet_split:
  obtains a b c d where "unat v = ((a * 256 + b) * 256 + c) * 256 + d" "a < 256" "b < 256" "c < 256" "d < 256"
    "octets v = [a, b, c, d]"
proof
  let ?n = "unat (v :: u32)"
  have n: "?n < 256 * (256 * (256 * 256))" using unsigned_less [of v, where ?'a = nat] by simp
  have parts: "?n div 16777216 = ?n div 256 div 256 div 256" "?n div 65536 = ?n div 256 div 256"
    by (simp_all add: div_mult2_eq [symmetric])
  show "?n = ((?n div 16777216 * 256 + ?n div 65536 mod 256) * 256 + ?n div 256 mod 256) * 256 + ?n mod 256"
    unfolding parts by (simp only: div_mult_mod_eq)
  show a: "?n div 16777216 < 256" unfolding parts using n by (simp only: less_mult_imp_div_less mult_ac)
  show "octets v = [?n div 16777216, ?n div 65536 mod 256, ?n div 256 mod 256, ?n mod 256]"
    using a by (simp only: octets_def list.map unsigned_drop_bit_eq drop_bit_eq_div) (simp add: unat_div)
qed simp_all

text \<open>
  The classes of IPv4 addresses as a table of CIDR blocks, the first match wins: the
  special-purpose registry, with the cloud metadata addresses on top.
\<close>

definition ipv4_blocks :: "(u32 \<times> u8 \<times> ip_class) list" where
  "ipv4_blocks =
     [(ipv4 0 0 0 0, 32, UnspecifiedAddress),
      (ipv4 169 254 169 254, 32, MetadataAddress), (ipv4 169 254 169 123, 32, MetadataAddress),
      (ipv4 169 254 170 2, 32, MetadataAddress), (ipv4 169 254 170 23, 32, MetadataAddress),
      (ipv4 100 100 100 200, 32, MetadataAddress), (ipv4 168 63 129 16, 32, MetadataAddress),
      (ipv4 127 0 0 0, 8, LoopbackAddress),
      (ipv4 10 0 0 0, 8, PrivateAddress), (ipv4 172 16 0 0, 12, PrivateAddress),
      (ipv4 192 168 0 0, 16, PrivateAddress),
      (ipv4 100 64 0 0, 10, SharedAddress), (ipv4 169 254 0 0, 16, LinkLocalAddress),
      (ipv4 192 0 2 0, 24, DocumentationAddress), (ipv4 198 51 100 0, 24, DocumentationAddress),
      (ipv4 203 0 113 0, 24, DocumentationAddress),
      (ipv4 198 18 0 0, 15, BenchmarkAddress), (ipv4 192 88 99 0, 24, TransitionAddress),
      (ipv4 224 0 0 0, 4, MulticastAddress),
      (ipv4 0 0 0 0, 8, ReservedAddress), (ipv4 240 0 0 0, 4, ReservedAddress),
      (ipv4 192 0 0 0, 24, ReservedAddress)]"

fun first_block :: "(u32 \<times> u8 \<times> ip_class) list \<Rightarrow> u32 \<Rightarrow> ip_class" where
  "first_block [] v = PublicAddress"
| "first_block ((base, k, c) # bs) v = (if masked_v4 v k = base then c else first_block bs v)"

text \<open>Numbers in base 256.\<close>

definition join256 :: "nat \<Rightarrow> nat \<Rightarrow> nat" where
  "join256 a b = a * 256 + b"

definition octets_of :: "u32 \<Rightarrow> nat \<Rightarrow> nat \<Rightarrow> nat \<Rightarrow> nat \<Rightarrow> bool" where
  "octets_of v a b c d \<longleftrightarrow>
     unat v = join256 (join256 (join256 a b) c) d \<and> a < 256 \<and> b < 256 \<and> c < 256 \<and> d < 256"

lemma join256_between:
  assumes "b < 256" and "hi \<le> 256"
  shows "join256 p lo \<le> join256 a b \<and> join256 a b < join256 p hi \<longleftrightarrow> a = p \<and> lo \<le> b \<and> b < hi"
  using assms unfolding join256_def by (cases a p rule: linorder_cases) auto

lemma join256_eq: "b < 256 \<Longrightarrow> q < 256 \<Longrightarrow> join256 a b = join256 p q \<longleftrightarrow> a = p \<and> b = q"
  using join256_between [of b "q + 1" p q a] by (auto simp: join256_def)

lemma join256_div: "b < 256 \<Longrightarrow> join256 a b div 256 = a"
  by (simp add: join256_def)

lemma join256_less: "a < m \<Longrightarrow> b < 256 \<Longrightarrow> join256 a b < m * 256"
  unfolding join256_def by (cases m) auto

lemma unat_ipv4:
  assumes "a < 256" "b < 256" "c < 256" "d < 256"
  shows "unat (ipv4 a b c d) = join256 (join256 (join256 a b) c) d"
proof -
  have "join256 (join256 (join256 a b) c) d < 256 * 256 * 256 * 256"
    by (intro join256_less) (use assms in simp_all)
  then have "unat (of_nat (join256 (join256 (join256 a b) c) d) :: u32) = join256 (join256 (join256 a b) c) d"
    by (simp add: unsigned_of_nat take_bit_nat_eq_self)
  then show ?thesis by (simp only: ipv4_def join256_def)
qed

lemma quotients:
  assumes "octets_of v a b c d"
  shows "unat v div 2 ^ 8 = join256 (join256 a b) c" "unat v div 2 ^ 16 = join256 a b" "unat v div 2 ^ 24 = a"
    "unat v div 2 ^ 20 = join256 a b div 2 ^ 4" "unat v div 2 ^ 22 = join256 a b div 2 ^ 6"
    "unat v div 2 ^ 17 = join256 a b div 2 ^ 1" "unat v div 2 ^ 28 = a div 2 ^ 4"
proof -
  have v: "unat v = join256 (join256 (join256 a b) c) d" "a < 256" "b < 256" "c < 256" "d < 256"
    using assms by (simp_all add: octets_of_def)
  have split: "n div 2 ^ (i + j) = n div 2 ^ i div 2 ^ j" for n i j :: nat
    by (simp add: power_add div_mult2_eq)
  show one: "unat v div 2 ^ 8 = join256 (join256 a b) c" using v join256_div [of d] by simp
  show two: "unat v div 2 ^ 16 = join256 a b" using split [of "unat v" 8 8] one v join256_div [of c] by simp
  show three: "unat v div 2 ^ 24 = a" using split [of "unat v" 16 8] two v join256_div [of b] by simp
  show "unat v div 2 ^ 20 = join256 a b div 2 ^ 4" "unat v div 2 ^ 22 = join256 a b div 2 ^ 6"
    "unat v div 2 ^ 17 = join256 a b div 2 ^ 1"
    unfolding two [symmetric] by (simp_all only: split [symmetric]) simp_all
  show "unat v div 2 ^ 28 = a div 2 ^ 4"
    using split [of "unat v" 24 4] three by simp
qed

lemma octets_of_octets:
  obtains a b c d where "octets_of v a b c d" "octets v = [a, b, c, d]"
  using octet_split [of v] unfolding octets_of_def join256_def by metis

lemma block_32:
  assumes "octets_of v a b c d" "p < 256" "q < 256" "r < 256" "s < 256"
  shows "masked_v4 v 32 = ipv4 p q r s \<longleftrightarrow> a = p \<and> b = q \<and> c = r \<and> d = s"
    "v = ipv4 p q r s \<longleftrightarrow> a = p \<and> b = q \<and> c = r \<and> d = s"
proof -
  show "v = ipv4 p q r s \<longleftrightarrow> a = p \<and> b = q \<and> c = r \<and> d = s"
    using assms by (simp add: octets_of_def word_unat_eq_iff unat_ipv4 join256_eq)
  then show "masked_v4 v 32 = ipv4 p q r s \<longleftrightarrow> a = p \<and> b = q \<and> c = r \<and> d = s"
    by (simp add: masked_v4_def)
qed

lemma block_24:
  assumes "octets_of v a b c d" "p < 256" "q < 256" "r < 256"
  shows "masked_v4 v 24 = ipv4 p q r 0 \<longleftrightarrow> a = p \<and> b = q \<and> c = r"
proof -
  have "unat (ipv4 p q r 0) = join256 (join256 p q) r * 2 ^ 8" using assms by (simp add: unat_ipv4 join256_def)
  then have "masked_v4 v 24 = ipv4 p q r 0 \<longleftrightarrow> join256 (join256 a b) c = join256 (join256 p q) r"
    unfolding quotients(1) [OF assms(1), symmetric] by (intro masked_v4_block) simp_all
  then show ?thesis using assms by (simp add: octets_of_def join256_eq)
qed

lemma block_16:
  assumes "octets_of v a b c d" "p < 256" "q < 256"
  shows "masked_v4 v 16 = ipv4 p q 0 0 \<longleftrightarrow> a = p \<and> b = q"
proof -
  have "unat (ipv4 p q 0 0) = join256 p q * 2 ^ 16" using assms by (simp add: unat_ipv4 join256_def)
  then have "masked_v4 v 16 = ipv4 p q 0 0 \<longleftrightarrow> join256 a b = join256 p q"
    unfolding quotients(2) [OF assms(1), symmetric] by (intro masked_v4_block) simp_all
  then show ?thesis using assms by (simp add: octets_of_def join256_eq)
qed

lemma block_8:
  assumes "octets_of v a b c d" "p < 256"
  shows "masked_v4 v 8 = ipv4 p 0 0 0 \<longleftrightarrow> a = p"
  unfolding quotients(3) [OF assms(1), symmetric]
  by (intro masked_v4_block) (use assms in \<open>simp_all add: unat_ipv4 join256_def\<close>)

lemma div_power_eq: "n div 2 ^ j = m \<longleftrightarrow> m * 2 ^ j \<le> n \<and> n < m * 2 ^ j + 2 ^ j" for n :: nat
proof
  assume m: "n div 2 ^ j = m"
  have "n mod 2 ^ j < 2 ^ j" by simp
  moreover have "m * 2 ^ j + n mod 2 ^ j = n" using div_mult_mod_eq [of n "2 ^ j"] unfolding m .
  ultimately show "m * 2 ^ j \<le> n \<and> n < m * 2 ^ j + 2 ^ j" by linarith
next
  assume "m * 2 ^ j \<le> n \<and> n < m * 2 ^ j + 2 ^ j"
  then show "n div 2 ^ j = m" by (intro div_nat_eqI) (simp_all add: mult.commute)
qed

lemma odd_blocks:
  assumes "octets_of v a b c d"
  shows "masked_v4 v 12 = ipv4 172 16 0 0 \<longleftrightarrow> a = 172 \<and> 16 \<le> b \<and> b < 32"
    "masked_v4 v 10 = ipv4 100 64 0 0 \<longleftrightarrow> a = 100 \<and> 64 \<le> b \<and> b < 128"
    "masked_v4 v 15 = ipv4 198 18 0 0 \<longleftrightarrow> a = 198 \<and> 18 \<le> b \<and> b < 20"
    "masked_v4 v 4 = ipv4 224 0 0 0 \<longleftrightarrow> 224 \<le> a \<and> a < 240"
    "masked_v4 v 4 = ipv4 240 0 0 0 \<longleftrightarrow> 240 \<le> a"
proof -
  have b: "b < 256" "a < 256" using assms by (simp_all add: octets_of_def)
  have block: "masked_v4 v k = ipv4 p q 0 0 \<longleftrightarrow> unat v div 2 ^ j = m"
    if "k \<noteq> 0" "unat k + j = 32" "p < 256" "q < 256" "join256 p q * 65536 = m * 2 ^ j" for k p q j m
    using that by (intro masked_v4_block) (simp_all add: unat_ipv4 join256_def)
  have "masked_v4 v 12 = ipv4 172 16 0 0 \<longleftrightarrow> unat v div 2 ^ 20 = 2753"
    by (intro block) (simp_all add: join256_def)
  also have "\<dots> \<longleftrightarrow> join256 172 16 \<le> join256 a b \<and> join256 a b < join256 172 32"
    unfolding quotients(4) [OF assms] div_power_eq by (simp add: join256_def)
  finally show "masked_v4 v 12 = ipv4 172 16 0 0 \<longleftrightarrow> a = 172 \<and> 16 \<le> b \<and> b < 32"
    using b by (simp add: join256_between)
  have "masked_v4 v 10 = ipv4 100 64 0 0 \<longleftrightarrow> unat v div 2 ^ 22 = 401"
    by (intro block) (simp_all add: join256_def)
  also have "\<dots> \<longleftrightarrow> join256 100 64 \<le> join256 a b \<and> join256 a b < join256 100 128"
    unfolding quotients(5) [OF assms] div_power_eq by (simp add: join256_def)
  finally show "masked_v4 v 10 = ipv4 100 64 0 0 \<longleftrightarrow> a = 100 \<and> 64 \<le> b \<and> b < 128"
    using b by (simp add: join256_between)
  have "masked_v4 v 15 = ipv4 198 18 0 0 \<longleftrightarrow> unat v div 2 ^ 17 = 25353"
    by (intro block) (simp_all add: join256_def)
  also have "\<dots> \<longleftrightarrow> join256 198 18 \<le> join256 a b \<and> join256 a b < join256 198 20"
    unfolding quotients(6) [OF assms] div_power_eq by (simp add: join256_def)
  finally show "masked_v4 v 15 = ipv4 198 18 0 0 \<longleftrightarrow> a = 198 \<and> 18 \<le> b \<and> b < 20"
    using b by (simp add: join256_between)
  have "masked_v4 v 4 = ipv4 224 0 0 0 \<longleftrightarrow> unat v div 2 ^ 28 = 14"
    by (intro block) (simp_all add: join256_def)
  then show "masked_v4 v 4 = ipv4 224 0 0 0 \<longleftrightarrow> 224 \<le> a \<and> a < 240"
    unfolding quotients(7) [OF assms] div_power_eq by simp
  have "masked_v4 v 4 = ipv4 240 0 0 0 \<longleftrightarrow> unat v div 2 ^ 28 = 15"
    by (intro block) (simp_all add: join256_def)
  then show "masked_v4 v 4 = ipv4 240 0 0 0 \<longleftrightarrow> 240 \<le> a"
    unfolding quotients(7) [OF assms] div_power_eq using b by simp
qed

lemmas ipv4_block_simps = block_32 block_24 block_16 block_8 odd_blocks

text \<open>
  The hand-written case distinction on octets is exactly the table of CIDR blocks:
  every IPv4 address has the class of the first block that contains it, and is public
  otherwise.
\<close>

theorem classify_ipv4_is_the_table: "classify_ipv4 v = first_block ipv4_blocks v"
proof -
  obtain a b c d where v: "octets_of v a b c d" "octets v = [a, b, c, d]" by (rule octets_of_octets)
  have zero: "v = 0 \<longleftrightarrow> v = ipv4 0 0 0 0" by (simp add: ipv4_def)
  have "classify_ipv4 v =
     (if a = 0 \<and> b = 0 \<and> c = 0 \<and> d = 0 then UnspecifiedAddress
      else if a = 169 \<and> b = 254 \<and> c = 169 \<and> d = 254 \<or> a = 169 \<and> b = 254 \<and> c = 169 \<and> d = 123
        \<or> a = 169 \<and> b = 254 \<and> c = 170 \<and> d = 2 \<or> a = 169 \<and> b = 254 \<and> c = 170 \<and> d = 23
        \<or> a = 100 \<and> b = 100 \<and> c = 100 \<and> d = 200 \<or> a = 168 \<and> b = 63 \<and> c = 129 \<and> d = 16 then MetadataAddress
      else if a = 127 then LoopbackAddress
      else if a = 10 \<or> a = 172 \<and> 16 \<le> b \<and> b \<le> 31 \<or> a = 192 \<and> b = 168 then PrivateAddress
      else if a = 100 \<and> 64 \<le> b \<and> b \<le> 127 then SharedAddress
      else if a = 169 \<and> b = 254 then LinkLocalAddress
      else if a = 192 \<and> b = 0 \<and> c = 2 \<or> a = 198 \<and> b = 51 \<and> c = 100 \<or> a = 203 \<and> b = 0 \<and> c = 113
      then DocumentationAddress
      else if a = 198 \<and> (b = 18 \<or> b = 19) then BenchmarkAddress
      else if a = 192 \<and> b = 88 \<and> c = 99 then TransitionAddress
      else if 224 \<le> a \<and> a \<le> 239 then MulticastAddress
      else if a = 0 \<or> 240 \<le> a \<or> a = 192 \<and> b = 0 \<and> c = 0 then ReservedAddress
      else PublicAddress)"
    unfolding classify_ipv4_def v(2) zero by (simp add: block_32(2) [OF v(1)])
  also have "\<dots> = first_block ipv4_blocks v"
    by (simp add: ipv4_blocks_def ipv4_block_simps [OF v(1)] del: One_nat_def)
  finally show ?thesis .
qed

end
