(* ===== verification/Review_History.thy ===== *)
theory Review_History
  imports Publication Ordered_Map
begin

text \<open>
  The prior-review context, \<open>crates/revoot-core/src/review_history.rs\<close>: validation of the
  complete inventory of earlier discussions, and the lineages it owns.

  \<open>usize\<close> sums of the lengths of strings in memory are natural numbers: the checked
  additions of the source cannot fail on them.
\<close>

section \<open>Discussions\<close>

definition max_discussions :: nat where "max_discussions = 500"
definition max_discussion_id_bytes :: nat where "max_discussion_id_bytes = 256"
definition max_prior_path_bytes :: nat where "max_prior_path_bytes = 4096"
definition max_prior_body_bytes :: nat where "max_prior_body_bytes = 4 * 1024"
definition max_prior_total_body_bytes :: nat where "max_prior_total_body_bytes = 256 * 1024"
definition max_replies_per_discussion :: nat where "max_replies_per_discussion = 100"
definition max_timestamp_bytes :: nat where "max_timestamp_bytes = 64"

datatype prior_source = RevootSource | OtherSource
datatype prior_state = OpenState | ResolvedState | OutdatedState

record prior_reply =
  pr_comment_id :: string
  pr_source :: prior_source
  pr_body :: string
  pr_created_at :: "string option"
  pr_updated_at :: "string option"

record prior_resolution =
  ps_source :: prior_source
  ps_resolved_at :: "string option"

record prior_discussion =
  pd_thread_id :: string
  pd_comment_id :: string
  pd_source :: prior_source
  pd_state :: prior_state
  pd_path :: "string option"
  pd_line :: "u32 option"
  pd_original_line :: "u32 option"
  pd_body :: string
  pd_replies :: "prior_reply list"
  pd_resolution :: "prior_resolution option"
  pd_lineage :: "lineage_marker option"

record prior_context =
  px_discussions :: "prior_discussion list"

datatype prior_context_error =
    TooManyDiscussions | InvalidIdentity | DuplicateIdentity | InvalidPriorPath | InvalidBody
  | TotalBodyBytes | DuplicateLineage | TooManyReplies | InvalidTimestamp

section \<open>Validation\<close>

definition host_token :: "nat \<Rightarrow> string \<Rightarrow> bool" where
  "host_token bound s \<longleftrightarrow>
     s \<noteq> [] \<and> length s \<le> bound \<and>
     list_all (\<lambda>b. is_ascii_graphic b \<and> b \<noteq> CHR ''<'' \<and> b \<noteq> CHR ''>'') s"

definition valid_identity :: "string \<Rightarrow> bool" where
  "valid_identity = host_token max_discussion_id_bytes"

definition valid_timestamp :: "string option \<Rightarrow> bool" where
  "valid_timestamp s = (case s of None \<Rightarrow> True | Some s \<Rightarrow> host_token max_timestamp_bytes s)"

definition bad_prior_path :: "string \<Rightarrow> bool" where
  "bad_prior_path p \<longleftrightarrow>
     p = [] \<or> max_prior_path_bytes < length p \<or> CHR 0x00 \<in> set p \<or> starts_with ''/'' p"

definition bad_prior_body :: "string \<Rightarrow> bool" where
  "bad_prior_body b \<longleftrightarrow> b = [] \<or> max_prior_body_bytes < length b \<or> CHR 0x00 \<in> set b"

text \<open>The body of the loop over the replies: the ids so far and the total of the body bytes.\<close>

definition check_reply ::
    "string \<Rightarrow> prior_reply \<Rightarrow> string set \<times> nat \<Rightarrow> prior_context_error + string set \<times> nat" where
  "check_reply root r s =
     (let (ids, total_bytes) = s in
      if \<not> valid_identity (pr_comment_id r) \<or> pr_comment_id r = root \<or> pr_comment_id r \<in> ids
      then Inl DuplicateIdentity
      else if bad_prior_body (pr_body r) then Inl InvalidBody
      else if \<not> valid_timestamp (pr_created_at r) \<or> \<not> valid_timestamp (pr_updated_at r)
      then Inl InvalidTimestamp
      else Inr (insert (pr_comment_id r) ids, total_bytes + length (pr_body r)))"

definition active_lineage :: "prior_discussion \<Rightarrow> sha256_digest option" where
  "active_lineage d =
     (if pd_source d = RevootSource \<and> pd_state d \<noteq> ResolvedState
      then map_option lm_lineage_sha256 (pd_lineage d) else None)"

text \<open>The body of the loop over the discussions: identities, active lineages, body bytes.\<close>

type_synonym prior_scan = "(string \<times> string) set \<times> sha256_digest set \<times> nat"

definition check_discussion :: "prior_discussion \<Rightarrow> prior_scan \<Rightarrow> prior_context_error + prior_scan" where
  "check_discussion d s =
     (let (identities, lineages, total_bytes) = s; identity = (pd_thread_id d, pd_comment_id d) in
      if \<not> valid_identity (pd_thread_id d) \<or> \<not> valid_identity (pd_comment_id d) then Inl InvalidIdentity
      else if identity \<in> identities then Inl DuplicateIdentity
      else if (case pd_path d of None \<Rightarrow> False | Some p \<Rightarrow> bad_prior_path p) then Inl InvalidPriorPath
      else if pd_line d = Some 0 \<or> pd_original_line d = Some 0 then Inl InvalidPriorPath
      else if bad_prior_body (pd_body d) then Inl InvalidBody
      else if max_replies_per_discussion < length (pd_replies d) then Inl TooManyReplies
      else
        and_then (try_fold (check_reply (pd_comment_id d)) (pd_replies d) ({}, total_bytes)) (\<lambda>(_, total_bytes).
        if (case pd_resolution d of None \<Rightarrow> False | Some r \<Rightarrow> \<not> valid_timestamp (ps_resolved_at r))
        then Inl InvalidTimestamp
        else if (pd_state d = ResolvedState) \<noteq> (pd_resolution d \<noteq> None) then Inl InvalidIdentity
        else
          let total_bytes = total_bytes + length (pd_body d) in
          if max_prior_total_body_bytes < total_bytes then Inl TotalBodyBytes
          else case active_lineage d of
              None \<Rightarrow> Inr (insert identity identities, lineages, total_bytes)
            | Some l \<Rightarrow>
                if l \<in> lineages then Inl DuplicateLineage
                else Inr (insert identity identities, insert l lineages, total_bytes)))"

definition prior_key :: "prior_discussion \<Rightarrow> string \<times> string" where
  "prior_key d = (pd_thread_id d, pd_comment_id d)"

definition prior_context_try_new :: "prior_discussion list \<Rightarrow> prior_context_error + prior_context" where
  "prior_context_try_new ds =
     (if max_discussions < length ds then Inl TooManyDiscussions
      else
        and_then (try_fold check_discussion ds ({}, {}, 0)) (\<lambda>_.
        Inr \<lparr>px_discussions = sort_key prior_key ds\<rparr>))"

text \<open>A \<open>BTreeSet\<close>: strictly increasing.\<close>

definition owned_lineages :: "prior_context \<Rightarrow> sha256_digest list" where
  "owned_lineages c =
     fold bs_insert
       (List.map_filter (\<lambda>d. map_option lm_lineage_sha256 (pd_lineage d))
         (filter (\<lambda>d. pd_source d = RevootSource) (px_discussions c))) []"

section \<open>What is accepted\<close>

definition reply_ok :: "prior_discussion \<Rightarrow> prior_reply \<Rightarrow> bool" where
  "reply_ok d r \<longleftrightarrow>
     valid_identity (pr_comment_id r) \<and> pr_comment_id r \<noteq> pd_comment_id d \<and> \<not> bad_prior_body (pr_body r) \<and>
     valid_timestamp (pr_created_at r) \<and> valid_timestamp (pr_updated_at r)"

definition discussion_ok :: "prior_discussion \<Rightarrow> bool" where
  "discussion_ok d \<longleftrightarrow>
     valid_identity (pd_thread_id d) \<and> valid_identity (pd_comment_id d) \<and>
     (case pd_path d of None \<Rightarrow> True | Some p \<Rightarrow> \<not> bad_prior_path p) \<and>
     pd_line d \<noteq> Some 0 \<and> pd_original_line d \<noteq> Some 0 \<and> \<not> bad_prior_body (pd_body d) \<and>
     length (pd_replies d) \<le> max_replies_per_discussion \<and>
     list_all (reply_ok d) (pd_replies d) \<and> distinct (map pr_comment_id (pd_replies d)) \<and>
     (case pd_resolution d of None \<Rightarrow> pd_state d \<noteq> ResolvedState
        | Some r \<Rightarrow> pd_state d = ResolvedState \<and> valid_timestamp (ps_resolved_at r))"

definition body_bytes :: "prior_discussion \<Rightarrow> nat" where
  "body_bytes d = length (pd_body d) + (\<Sum>r \<leftarrow> pd_replies d. length (pr_body r))"

definition context_ok :: "prior_discussion list \<Rightarrow> bool" where
  "context_ok ds \<longleftrightarrow>
     length ds \<le> max_discussions \<and> list_all discussion_ok ds \<and> distinct (map prior_key ds) \<and>
     distinct (List.map_filter active_lineage ds) \<and>
     (\<Sum>d \<leftarrow> ds. body_bytes d) \<le> max_prior_total_body_bytes"

lemma check_replies_Inr:
  "try_fold (check_reply root) rs (ids, n) = Inr (ids', n') \<longleftrightarrow>
     list_all (\<lambda>r. valid_identity (pr_comment_id r) \<and> pr_comment_id r \<noteq> root \<and> \<not> bad_prior_body (pr_body r) \<and>
       valid_timestamp (pr_created_at r) \<and> valid_timestamp (pr_updated_at r)) rs \<and>
     distinct (map pr_comment_id rs) \<and> pr_comment_id ` set rs \<inter> ids = {} \<and>
     ids' = ids \<union> pr_comment_id ` set rs \<and> n' = n + (\<Sum>r \<leftarrow> rs. length (pr_body r))"
proof (induction rs arbitrary: ids n)
  case (Cons r rs)
  have "check_reply root r (ids, n) = Inr s \<longleftrightarrow>
      valid_identity (pr_comment_id r) \<and> pr_comment_id r \<noteq> root \<and> pr_comment_id r \<notin> ids \<and>
      \<not> bad_prior_body (pr_body r) \<and> valid_timestamp (pr_created_at r) \<and> valid_timestamp (pr_updated_at r) \<and>
      s = (insert (pr_comment_id r) ids, n + length (pr_body r))" for s
    by (auto simp: check_reply_def)
  then show ?case using Cons.IH by (auto simp: result_simps)
qed auto

lemma check_discussion_Inr:
  "check_discussion d (is, ls, n) = Inr s \<longleftrightarrow>
     discussion_ok d \<and> prior_key d \<notin> is \<and> set_option (active_lineage d) \<inter> ls = {} \<and>
     n + body_bytes d \<le> max_prior_total_body_bytes \<and>
     s = (insert (prior_key d) is, ls \<union> set_option (active_lineage d), n + body_bytes d)"
proof -
  have replies: "try_fold (check_reply (pd_comment_id d)) (pd_replies d) ({}, n) = Inr (ids, n') \<longleftrightarrow>
      list_all (reply_ok d) (pd_replies d) \<and> distinct (map pr_comment_id (pd_replies d)) \<and>
      ids = pr_comment_id ` set (pd_replies d) \<and> n' = n + (\<Sum>r \<leftarrow> pd_replies d. length (pr_body r))" for ids n'
    unfolding check_replies_Inr reply_ok_def by simp
  show ?thesis
    unfolding check_discussion_def Let_def prod.case discussion_ok_def prior_key_def body_bytes_def
    by (cases "pd_path d"; cases "pd_resolution d"; cases "active_lineage d"; cases "pd_state d = ResolvedState";
        simp add: result_simps replies ac_simps not_less not_le split del: if_split cong: if_cong)
      (auto simp: result_simps replies ac_simps not_less split: if_splits)
qed

lemma check_discussions_Inr:
  "try_fold check_discussion ds (is, ls, n) = Inr s \<longleftrightarrow>
     list_all discussion_ok ds \<and> distinct (map prior_key ds) \<and> prior_key ` set ds \<inter> is = {} \<and>
     distinct (List.map_filter active_lineage ds) \<and> set (List.map_filter active_lineage ds) \<inter> ls = {} \<and>
     (ds \<noteq> [] \<longrightarrow> n + (\<Sum>d \<leftarrow> ds. body_bytes d) \<le> max_prior_total_body_bytes) \<and>
     s = (is \<union> prior_key ` set ds, ls \<union> set (List.map_filter active_lineage ds), n + (\<Sum>d \<leftarrow> ds. body_bytes d))"
proof (induction ds arbitrary: "is" ls n)
  case (Cons d ds)
  show ?case
    by (cases "active_lineage d")
      (auto simp: result_simps check_discussion_Inr Cons.IH map_filter_simps add.assoc)
qed (auto simp: map_filter_simps)

lemma prior_context_Inr:
  "prior_context_try_new ds = Inr c \<longleftrightarrow> context_ok ds \<and> px_discussions c = sort_key prior_key ds"
  by (auto simp: prior_context_try_new_def result_simps check_discussions_Inr context_ok_def not_less
      map_filter_simps intro: prior_context.equality)

text \<open>
  A prior-review inventory is accepted exactly when every discussion is valid,
  no two have the same identity, no two open Revoot discussions claim the same lineage,
  and the text of all bodies and replies is within the bound.  What is retained is the
  inventory sorted by identity: whatever order the host lists the discussions in, the
  result is the same.
\<close>

theorem prior_context_accepts_exactly:
  "prior_context_try_new ds = Inr c \<longleftrightarrow>
     context_ok ds \<and> mset (px_discussions c) = mset ds \<and> sorted_wrt (<) (map prior_key (px_discussions c))"
proof -
  have "prior_context_try_new ds = Inr c \<longleftrightarrow> context_ok ds \<and> px_discussions c = sort_key prior_key ds"
    by (rule prior_context_Inr)
  also have "\<dots> \<longleftrightarrow> context_ok ds \<and> mset (px_discussions c) = mset ds \<and>
      sorted_wrt (<) (map prior_key (px_discussions c))" (is "_ \<and> ?A \<longleftrightarrow> _ \<and> ?B \<and> ?C")
  proof (rule conj_cong [OF refl])
    assume "context_ok ds"
    then have d: "distinct (map prior_key ds)" by (simp add: context_ok_def)
    then have strict: "sorted_wrt (<) (map prior_key (sort_key prior_key ds))"
      by (intro distinct_sorted_strict) simp_all
    have "xs = sort_key prior_key ds" if "mset xs = mset ds" "sorted_wrt (<) (map prior_key xs)" for xs
      using that d sort_key_inj_key_eq [of ds xs prior_key]
      by (simp add: distinct_map strict_sorted_iff)
    then show "?A \<longleftrightarrow> ?B \<and> ?C" using strict by auto
  qed
  finally show ?thesis .
qed

text \<open>An accepted inventory is accepted again, unchanged.\<close>

lemma context_ok_perm:
  assumes "mset xs = mset ys" shows "context_ok xs = context_ok ys"
proof -
  have "mset (List.map_filter active_lineage xs) = mset (List.map_filter active_lineage ys)"
    using assms by (simp add: map_filter_def)
  then have "distinct (List.map_filter active_lineage xs) = distinct (List.map_filter active_lineage ys)"
    by (rule mset_eq_imp_distinct_iff)
  moreover have "length xs = length ys" "set xs = set ys" "sum_list (map body_bytes xs) = sum_list (map body_bytes ys)"
    using assms by (rule mset_eq_length, rule mset_eq_setD, metis mset_map sum_mset_sum_list)
  ultimately show ?thesis
    using distinct_map_mset [OF assms, of prior_key] by (simp add: context_ok_def list_all_iff)
qed

lemma prior_context_canonical:
  assumes "prior_context_try_new ds = Inr c" and "mset ds' = mset ds"
  shows "prior_context_try_new ds' = Inr c" "prior_context_try_new (px_discussions c) = Inr c"
proof -
  have c: "context_ok ds" "px_discussions c = sort_key prior_key ds"
    using assms(1) by (simp_all add: prior_context_Inr)
  then have "distinct (map prior_key ds)" by (simp add: context_ok_def)
  then have "inj_on prior_key (set ds)" by (simp add: distinct_map)
  then have "sort_key prior_key ds' = px_discussions c"
    using c(2) assms(2) by (metis mset_eq_setD sort_key_mset_cong)
  then show "prior_context_try_new ds' = Inr c"
    using c(1) context_ok_perm [OF assms(2)] by (simp add: prior_context_Inr)
  have "mset (px_discussions c) = mset ds" using c(2) by simp
  then show "prior_context_try_new (px_discussions c) = Inr c"
    using c context_ok_perm [of "px_discussions c" ds] by (simp add: prior_context_Inr sort_key_id_if_sorted)
qed

text \<open>The owned lineages, in order.\<close>

lemma owned_lineages_exact:
  "set (owned_lineages c) =
     {lm_lineage_sha256 m | d m. d \<in> set (px_discussions c) \<and> pd_source d = RevootSource \<and> pd_lineage d = Some m}"
proof -
  have "set (List.map_filter f xs) = {y. \<exists>x \<in> set xs. f x = Some y}" for f :: "prior_discussion \<Rightarrow> sha256_digest option" and xs
    by (induction xs) (auto simp: map_filter_simps split: option.splits)
  then show ?thesis unfolding owned_lineages_def by auto
qed

end
