(* ===== verification/Evaluation.thy ===== *)
theory Evaluation
  imports Findings Ordered_Map
begin

text \<open>
  Scoring of the review-quality corpus, \<open>crates/revoot-core/src/evaluation.rs\<close>: exact
  matching of a case's findings against its expected defects, and the release gate over a
  corpus.
\<close>

section \<open>Cases and scores\<close>

record expected_defect =
  ed_anchor_id :: string
  ed_category :: category

record evaluation_case =
  ec_schema_version :: string
  ec_case_id :: string
  ec_clean_change :: bool
  ec_expected_defects :: "expected_defect list"

record evaluation_score =
  es_expected :: u32
  es_reported :: u32
  es_true_positive :: u32
  es_false_positive :: u32
  es_false_negative :: u32
  es_duplicate_reports :: u32
  es_clean_change_silent :: bool

text \<open>The derived order of categories is their order of declaration.\<close>

fun category_rank :: "category \<Rightarrow> nat" where
  "category_rank Correctness = 0"
| "category_rank Security = 1"
| "category_rank Reliability = 2"
| "category_rank Performance = 3"
| "category_rank Maintainability = 4"

lemma category_rank_inj: "category_rank a = category_rank b \<Longrightarrow> a = b"
  by (cases a; cases b) simp_all

instantiation category :: linorder
begin

definition less_eq_category :: "category \<Rightarrow> category \<Rightarrow> bool" where
  "p \<le> q \<longleftrightarrow> category_rank p \<le> category_rank q"

definition less_category :: "category \<Rightarrow> category \<Rightarrow> bool" where
  "p < q \<longleftrightarrow> category_rank p < category_rank q"

instance
  by intro_classes (auto simp: less_eq_category_def less_category_def intro: category_rank_inj)

end

record corpus_score =
  cs_cases :: u32
  cs_clean_cases :: u32
  cs_noisy_clean_cases :: u32
  cs_expected :: u32
  cs_reported :: u32
  cs_true_positive :: u32
  cs_false_positive :: u32
  cs_false_negative :: u32
  cs_duplicate_reports :: u32
  cs_precision_basis_points :: u16
  cs_recall_basis_points :: u16
  cs_category_recall_basis_points :: "(category, u16) btree"

record evaluation_thresholds =
  et_minimum_precision_basis_points :: u16
  et_minimum_recall_basis_points :: u16
  et_minimum_category_recall_basis_points :: u16
  et_maximum_noisy_clean_cases :: u32
  et_maximum_duplicate_reports :: u32

definition default_thresholds :: evaluation_thresholds where
  "default_thresholds =
     \<lparr>et_minimum_precision_basis_points = 9000, et_minimum_recall_basis_points = 8500,
      et_minimum_category_recall_basis_points = 7500, et_maximum_noisy_clean_cases = 0,
      et_maximum_duplicate_reports = 0\<rparr>"

datatype gate_failure =
    PrecisionFailure | RecallFailure | CategoryRecallFailure | CleanChangeNoise | DuplicateReports

record evaluation_gate =
  eg_passed :: bool
  eg_score :: corpus_score
  eg_thresholds :: evaluation_thresholds
  eg_failures :: "gate_failure list"

datatype evaluation_error =
    EvalSchemaVersion | EvalCaseId | ContradictoryCleanCase | DuplicateExpectedDefect
  | InvalidThreshold | CountOverflow

section \<open>The score of a case\<close>

definition evaluation_schema_version :: string where
  "evaluation_schema_version = ''revoot.evaluation-case/v1''"

definition as_u32 :: "nat \<Rightarrow> evaluation_error + u32" where
  "as_u32 n = ok_or CountOverflow (try_word n)"

definition valid_case_id :: "string \<Rightarrow> bool" where
  "valid_case_id i \<longleftrightarrow>
     i \<noteq> [] \<and> length i \<le> 128 \<and> list_all (\<lambda>b. is_ascii_alphanumeric b \<or> b \<in> set ''-_./'') i"

definition observed_defects :: "finding list \<Rightarrow> expected_defect list" where
  "observed_defects fs = map (\<lambda>f. \<lparr>ed_anchor_id = fi_anchor_id f, ed_category = fi_category f\<rparr>) fs"

definition case_score :: "evaluation_case \<Rightarrow> finding list \<Rightarrow> evaluation_error + evaluation_score" where
  "case_score c fs =
     (if ec_schema_version c \<noteq> evaluation_schema_version then Inl EvalSchemaVersion
      else if \<not> valid_case_id (ec_case_id c) then Inl EvalCaseId
      else if ec_clean_change c \<noteq> (ec_expected_defects c = []) then Inl ContradictoryCleanCase
      else
        let expected = set (ec_expected_defects c) in
        if card expected \<noteq> length (ec_expected_defects c) then Inl DuplicateExpectedDefect
        else
          let observed = set (observed_defects fs) in
          and_then (as_u32 (card expected)) (\<lambda>e.
          and_then (as_u32 (length fs)) (\<lambda>r.
          and_then (as_u32 (card (expected \<inter> observed))) (\<lambda>tp.
          and_then (as_u32 (card (observed - expected))) (\<lambda>fp.
          and_then (as_u32 (card (expected - observed))) (\<lambda>fn.
          and_then (as_u32 (length fs - card observed)) (\<lambda>dup.
          Inr \<lparr>es_expected = e, es_reported = r, es_true_positive = tp, es_false_positive = fp,
            es_false_negative = fn, es_duplicate_reports = dup,
            es_clean_change_silent = (ec_clean_change c \<and> fs = [])\<rparr>)))))))"

section \<open>The corpus and its gate\<close>

definition eval_add :: "u32 \<Rightarrow> u32 \<Rightarrow> evaluation_error + u32" where
  "eval_add a b = ok_or CountOverflow (checked_add a b)"

definition ratio_basis_points :: "u32 \<Rightarrow> u32 \<Rightarrow> bool \<Rightarrow> u16" where
  "ratio_basis_points n d empty_is_perfect =
     (if d = 0 then (if empty_is_perfect then 10000 else 0)
      else
        let scaled = min (unat n * 10000 div unat d) 10000
        in case try_word scaled of Some w \<Rightarrow> w | None \<Rightarrow> 10000)"

text \<open>\<open>*map.entry(category).or_default() += 1\<close>, checked.\<close>

definition count_category :: "expected_defect \<Rightarrow> (category, u32) btree \<Rightarrow> evaluation_error + (category, u32) btree" where
  "count_category d m =
     (let n = (case map_of m (ed_category d) of None \<Rightarrow> 0 | Some n \<Rightarrow> n) in
      and_then (eval_add n 1) (\<lambda>n. Inr (bt_insert (ed_category d) n m)))"

text \<open>The body of the loop over the cases: the totals and the two counts by category.\<close>

type_synonym corpus_state = "corpus_score \<times> (category, u32) btree \<times> (category, u32) btree"

definition add_clean_case :: "evaluation_case \<Rightarrow> evaluation_score \<Rightarrow> corpus_score \<Rightarrow> evaluation_error + corpus_score" where
  "add_clean_case c s sc =
     (if ec_clean_change c then
        and_then (eval_add (cs_clean_cases sc) 1) (\<lambda>clean.
        if \<not> es_clean_change_silent s then
          and_then (eval_add (cs_noisy_clean_cases sc) 1) (\<lambda>noisy.
          Inr (sc\<lparr>cs_clean_cases := clean, cs_noisy_clean_cases := noisy\<rparr>))
        else Inr (sc\<lparr>cs_clean_cases := clean\<rparr>))
      else Inr sc)"

definition add_case :: "evaluation_case \<times> finding list \<Rightarrow> corpus_state \<Rightarrow> evaluation_error + corpus_state" where
  "add_case x st =
     (let (c, fs) = x; (sc, expected, true_positive) = st in
      and_then (case_score c fs) (\<lambda>s.
      and_then (eval_add (cs_expected sc) (es_expected s)) (\<lambda>e.
      and_then (eval_add (cs_reported sc) (es_reported s)) (\<lambda>r.
      and_then (eval_add (cs_true_positive sc) (es_true_positive s)) (\<lambda>tp.
      and_then (eval_add (cs_false_positive sc) (es_false_positive s)) (\<lambda>fp.
      and_then (eval_add (cs_false_negative sc) (es_false_negative s)) (\<lambda>fn.
      and_then (eval_add (cs_duplicate_reports sc) (es_duplicate_reports s)) (\<lambda>dup.
      and_then (add_clean_case c s (sc\<lparr>cs_expected := e, cs_reported := r, cs_true_positive := tp,
          cs_false_positive := fp, cs_false_negative := fn, cs_duplicate_reports := dup\<rparr>)) (\<lambda>sc.
      and_then (try_fold count_category (ec_expected_defects c) expected) (\<lambda>expected.
      and_then (try_fold count_category
          (filter (\<lambda>d. d \<in> set (observed_defects fs)) (ec_expected_defects c)) true_positive) (\<lambda>true_positive.
      Inr (sc, expected, true_positive))))))))))))"

definition category_recalls :: "(category, u32) btree \<Rightarrow> (category, u32) btree \<Rightarrow> (category, u16) btree" where
  "category_recalls expected true_positive =
     fold (\<lambda>(c, n). bt_insert c
       (ratio_basis_points (case map_of true_positive c of None \<Rightarrow> 0 | Some k \<Rightarrow> k) n True)) expected []"

definition gate_failures :: "corpus_score \<Rightarrow> evaluation_thresholds \<Rightarrow> gate_failure list" where
  "gate_failures sc t =
     (if cs_precision_basis_points sc < et_minimum_precision_basis_points t then [PrecisionFailure] else []) @
     (if cs_recall_basis_points sc < et_minimum_recall_basis_points t then [RecallFailure] else []) @
     (if list_ex (\<lambda>r. r < et_minimum_category_recall_basis_points t) (bt_values (cs_category_recall_basis_points sc))
      then [CategoryRecallFailure] else []) @
     (if et_maximum_noisy_clean_cases t < cs_noisy_clean_cases sc then [CleanChangeNoise] else []) @
     (if et_maximum_duplicate_reports t < cs_duplicate_reports sc then [DuplicateReports] else [])"

definition zero_corpus_score :: "u32 \<Rightarrow> corpus_score" where
  "zero_corpus_score n =
     \<lparr>cs_cases = n, cs_clean_cases = 0, cs_noisy_clean_cases = 0, cs_expected = 0, cs_reported = 0,
      cs_true_positive = 0, cs_false_positive = 0, cs_false_negative = 0, cs_duplicate_reports = 0,
      cs_precision_basis_points = 0, cs_recall_basis_points = 0, cs_category_recall_basis_points = []\<rparr>"

definition finish_score :: "corpus_state \<Rightarrow> corpus_score" where
  "finish_score st =
     (let (sc, expected, true_positive) = st in
      sc\<lparr>cs_precision_basis_points := ratio_basis_points (cs_true_positive sc)
            (saturating_add (cs_true_positive sc) (cs_false_positive sc)) (cs_expected sc = 0),
         cs_recall_basis_points := ratio_basis_points (cs_true_positive sc) (cs_expected sc) True,
         cs_category_recall_basis_points := category_recalls expected true_positive\<rparr>)"

definition evaluate_corpus ::
    "(evaluation_case \<times> finding list) list \<Rightarrow> evaluation_thresholds \<Rightarrow> evaluation_error + evaluation_gate" where
  "evaluate_corpus cases t =
     (if 10000 < et_minimum_precision_basis_points t \<or> 10000 < et_minimum_recall_basis_points t
        \<or> 10000 < et_minimum_category_recall_basis_points t
      then Inl InvalidThreshold
      else
        and_then (as_u32 (length cases)) (\<lambda>n.
        and_then (try_fold add_case cases (zero_corpus_score n, [], [])) (\<lambda>st.
        let score = finish_score st; failures = gate_failures score t in
        Inr \<lparr>eg_passed = (failures = []), eg_score = score, eg_thresholds = t, eg_failures = failures\<rparr>)))"

end
