(* ===== verification/Evaluation_Gated.thy ===== *)
theory Evaluation_Gated
  imports Evaluation
begin

text \<open>
  What a score counts and what a passed release gate means, in exact arithmetic over the
  natural numbers.
\<close>

section \<open>The counts of a case\<close>

definition defects :: "evaluation_case \<times> finding list \<Rightarrow> expected_defect list" where
  "defects x = ec_expected_defects (fst x)"

definition found :: "evaluation_case \<times> finding list \<Rightarrow> expected_defect list" where
  "found x = filter (\<lambda>d. d \<in> set (observed_defects (snd x))) (defects x)"

definition wrong_reports :: "evaluation_case \<times> finding list \<Rightarrow> nat" where
  "wrong_reports x = card (set (observed_defects (snd x)) - set (defects x))"

definition repeated_reports :: "evaluation_case \<times> finding list \<Rightarrow> nat" where
  "repeated_reports x = length (snd x) - card (set (observed_defects (snd x)))"

definition noisy :: "evaluation_case \<times> finding list \<Rightarrow> bool" where
  "noisy x \<longleftrightarrow> ec_clean_change (fst x) \<and> snd x \<noteq> []"

lemma as_u32_Inr [result_simps]: "as_u32 n = Inr w \<longleftrightarrow> unat w = n"
  by (simp add: as_u32_def result_simps try_word_Some)

lemma eval_add_Inr [result_simps]: "eval_add a b = Inr w \<longleftrightarrow> unat w = unat a + unat b"
  by (simp add: eval_add_def result_simps checked_add_Some)

lemma length_found: "length (found x) \<le> length (defects x)"
  by (simp add: found_def)

lemma card_found:
  assumes "distinct (defects x)"
  shows "card (set (defects x) \<inter> set (observed_defects (snd x))) = length (found x)"
proof -
  have "set (defects x) \<inter> set (observed_defects (snd x)) = set (found x)" by (auto simp: found_def)
  moreover have "distinct (found x)" unfolding found_def using assms by (rule distinct_filter)
  ultimately show ?thesis by (simp only: distinct_card)
qed

lemma case_score_Inr:
  assumes "case_score c fs = Inr s"
  shows "unat (es_expected s) = length (defects (c, fs))" "unat (es_reported s) = length fs"
    "unat (es_true_positive s) = length (found (c, fs))"
    "unat (es_false_positive s) = wrong_reports (c, fs)"
    "unat (es_false_negative s) = length (defects (c, fs)) - length (found (c, fs))"
    "unat (es_duplicate_reports s) = repeated_reports (c, fs)"
    "es_clean_change_silent s \<longleftrightarrow> ec_clean_change c \<and> fs = []"
    "distinct (defects (c, fs))" "ec_clean_change c \<longleftrightarrow> defects (c, fs) = []"
proof -
  have len: "card (set (ec_expected_defects c)) = length (ec_expected_defects c)"
    and clean: "ec_clean_change c \<longleftrightarrow> ec_expected_defects c = []"
    using assms by (auto simp: case_score_def Let_def split: if_splits)
  then have d: "distinct (ec_expected_defects c)" by (simp add: card_distinct)
  let ?E = "set (ec_expected_defects c)" and ?O = "set (observed_defects fs)"
  have tp: "card (?E \<inter> ?O) = length (found (c, fs))"
    using card_found [of "(c, fs)"] d by (simp add: defects_def)
  have "card (?E - ?O) = card ?E - card (?E \<inter> ?O)" by (rule card_Diff_subset_Int) simp
  then have fn: "card (?E - ?O) = length (ec_expected_defects c) - length (found (c, fs))"
    unfolding tp len .
  show "unat (es_expected s) = length (defects (c, fs))" "unat (es_reported s) = length fs"
    "unat (es_true_positive s) = length (found (c, fs))"
    "unat (es_false_positive s) = wrong_reports (c, fs)"
    "unat (es_false_negative s) = length (defects (c, fs)) - length (found (c, fs))"
    "unat (es_duplicate_reports s) = repeated_reports (c, fs)"
    "es_clean_change_silent s \<longleftrightarrow> ec_clean_change c \<and> fs = []"
    using assms len tp fn
    by (auto simp: case_score_def Let_def result_simps defects_def wrong_reports_def repeated_reports_def
        split: if_splits)
  show "distinct (defects (c, fs))" "ec_clean_change c \<longleftrightarrow> defects (c, fs) = []"
    using d clean by (simp_all add: defects_def)
qed

lemma report_balance:
  assumes "distinct (defects x)"
  shows "length (found x) + wrong_reports x + repeated_reports x = length (snd x)"
proof -
  let ?E = "set (defects x)" and ?O = "set (observed_defects (snd x))"
  have "card ?O = card (?O \<inter> ?E) + card (?O - ?E)" by (simp add: card_Int_Diff)
  moreover have "card (?O \<inter> ?E) = length (found x)" using card_found [OF assms] by (simp only: Int_commute)
  moreover have "card ?O \<le> length (snd x)"
    using card_length [of "observed_defects (snd x)"] by (simp add: observed_defects_def)
  ultimately show ?thesis by (simp add: wrong_reports_def repeated_reports_def)
qed

text \<open>
  A score accounts for every expectation and every report: each expected defect is
  found or missed, and each reported finding is a found defect, a wrong report, or the
  repetition of another one.
\<close>

theorem score_accounts_for_reports:
  assumes "case_score c fs = Inr s"
  shows "unat (es_true_positive s) + unat (es_false_negative s) = unat (es_expected s) \<and>
    unat (es_expected s) = length (ec_expected_defects c) \<and>
    unat (es_true_positive s) + unat (es_false_positive s) + unat (es_duplicate_reports s) = unat (es_reported s) \<and>
    unat (es_reported s) = length fs \<and>
    unat (es_true_positive s) = card (set (ec_expected_defects c) \<inter> set (observed_defects fs)) \<and>
    (es_clean_change_silent s \<longleftrightarrow> es_expected s = 0 \<and> es_reported s = 0)"
proof -
  note counts = case_score_Inr [OF assms]
  have "card (set (ec_expected_defects c) \<inter> set (observed_defects fs)) = length (found (c, fs))"
    using card_found [OF counts(8)] by (simp add: defects_def)
  then show ?thesis
    using counts length_found [of "(c, fs)"] report_balance [OF counts(8)]
    by (simp add: unat_eq_zero [symmetric]) (simp add: defects_def)
qed

definition example_case :: evaluation_case where
  "example_case = \<lparr>ec_schema_version = evaluation_schema_version, ec_case_id = ''c'', ec_clean_change = False,
     ec_expected_defects = [\<lparr>ed_anchor_id = ''a'', ed_category = Security\<rparr>]\<rparr>"

definition example_score :: evaluation_score where
  "example_score = \<lparr>es_expected = 1, es_reported = 0, es_true_positive = 0, es_false_positive = 0,
     es_false_negative = 1, es_duplicate_reports = 0, es_clean_change_silent = False\<rparr>"

lemma example_scored: "case_score example_case [] = Inr example_score"
  by (simp add: case_score_def example_case_def valid_case_id_def is_ascii_alphanumeric_def is_ascii_lowercase_def
      observed_defects_def as_u32_def try_word_def example_score_def)

theorem score_accounts_for_reports_witness: "unat (es_true_positive example_score) = 0"
  using score_accounts_for_reports [OF example_scored] by (simp add: example_score_def)

section \<open>Counts by category\<close>

definition count_of :: "(category, u32) btree \<Rightarrow> category \<Rightarrow> nat" where
  "count_of m k = (case map_of m k of None \<Rightarrow> 0 | Some n \<Rightarrow> unat n)"

definition of_category :: "category \<Rightarrow> expected_defect list \<Rightarrow> nat" where
  "of_category k ds = length (filter (\<lambda>d. ed_category d = k) ds)"

definition counts_ok :: "(category, u32) btree \<Rightarrow> bool" where
  "counts_ok m \<longleftrightarrow> bt_wf m \<and> (\<forall>k. map_of m k \<noteq> Some 0)"

lemma count_category_Inr:
  assumes "count_category d m = Inr m'" and "counts_ok m"
  shows "counts_ok m' \<and> count_of m' k = count_of m k + of_category k [d]"
proof -
  obtain n where n: "unat n = count_of m (ed_category d) + 1" and m': "m' = bt_insert (ed_category d) n m"
    using assms(1) by (auto simp: count_category_def Let_def result_simps count_of_def split: option.splits)
  have "map_of m' = (map_of m)(ed_category d \<mapsto> n)" "bt_wf m'"
    using assms(2) m' by (simp_all add: map_of_bt_insert counts_ok_def bt_wf_insert)
  then show ?thesis using assms(2) n by (auto simp: counts_ok_def count_of_def of_category_def)
qed

lemma count_categories_Inr:
  assumes "try_fold count_category ds m = Inr m'" and "counts_ok m"
  shows "counts_ok m' \<and> count_of m' k = count_of m k + of_category k ds"
  using assms
proof (induction ds arbitrary: m)
  case (Cons d ds)
  then obtain m1 where m1: "count_category d m = Inr m1" "try_fold count_category ds m1 = Inr m'"
    by (auto simp: result_simps)
  show ?case
    using Cons.IH [OF m1(2)] count_category_Inr [OF m1(1) Cons.prems(2), of k] by (simp add: of_category_def)
qed (simp add: of_category_def)

lemma bt_insert_last: "list_all (\<lambda>(k', _). k' < k) m \<Longrightarrow> bt_insert k v m = m @ [(k, v)]"
  by (induction k v m rule: bt_insert.induct) auto

lemma fold_bt_insert:
  assumes "bt_wf m" and "\<And>x y. x \<in> set m \<Longrightarrow> y \<in> set acc \<Longrightarrow> fst y < fst x"
  shows "fold (\<lambda>(c, n). bt_insert c (f c n)) m acc = acc @ map (\<lambda>(c, n). (c, f c n)) m"
  using assms
proof (induction m arbitrary: acc)
  case (Cons x m)
  obtain c n where x: "x = (c, n)" by (cases x)
  have "bt_insert c (f c n) acc = acc @ [(c, f c n)]"
    using Cons.prems(2) [of x] x by (intro bt_insert_last) (auto simp: list_all_iff)
  moreover have "fst y < fst z" if "z \<in> set m" "y \<in> set (acc @ [(c, f c n)])" for y z
    using that Cons.prems(1) Cons.prems(2) [of z y] x by (auto simp: bt_wf_def)
  moreover have "bt_wf m" using Cons.prems(1) by (simp add: bt_wf_def)
  ultimately show ?case using Cons.IH [of "acc @ [(c, f c n)]"] x by simp
qed simp

lemma category_recalls_eq:
  "bt_wf e \<Longrightarrow> category_recalls e t = map (\<lambda>(c, n). (c, ratio_basis_points
     (case map_of t c of None \<Rightarrow> 0 | Some k \<Rightarrow> k) n True)) e"
  unfolding category_recalls_def by (subst fold_bt_insert) auto

section \<open>Ratios\<close>

lemma ratio_below:
  assumes "m \<le> 10000"
  shows "ratio_basis_points n d b < m \<longleftrightarrow>
    (if d = 0 then \<not> b \<and> m \<noteq> 0 else unat n * 10000 < unat m * unat d)"
proof (cases "d = 0")
  case True
  then show ?thesis using assms by (auto simp: ratio_basis_points_def word_gt_0 not_less)
next
  case False
  let ?q = "unat n * 10000 div unat d"
  have m: "unat m \<le> 10000" using assms by (simp add: word_le_nat_alt)
  have d: "0 < unat d" using False by (simp add: unat_gt_0)
  have "unat (ratio_basis_points n d b) = min ?q 10000"
  proof -
    have "min ?q 10000 < 2 ^ LENGTH(16)" by simp
    then show ?thesis using False
      by (simp add: ratio_basis_points_def try_word_def Let_def unat_of_nat_small)
  qed
  then have "ratio_basis_points n d b < m \<longleftrightarrow> ?q < unat m" using m by (auto simp: word_less_nat_alt)
  also have "\<dots> \<longleftrightarrow> unat n * 10000 < unat m * unat d" using d by (rule div_less_iff_less_mult)
  finally show ?thesis using False by simp
qed

section \<open>The totals of a corpus\<close>

definition total_of :: "(evaluation_case \<times> finding list \<Rightarrow> nat) \<Rightarrow> (evaluation_case \<times> finding list) list \<Rightarrow> nat" where
  "total_of f xs = sum_list (map f xs)"

lemma total_of_append [simp]: "total_of f (xs @ [x]) = total_of f xs + f x"
  by (simp add: total_of_def)

lemma total_of_Nil [simp]: "total_of f [] = 0"
  by (simp add: total_of_def)

definition totals :: "(evaluation_case \<times> finding list) list \<Rightarrow> corpus_state \<Rightarrow> bool" where
  "totals xs st \<longleftrightarrow>
     (case st of (sc, e, t) \<Rightarrow>
        unat (cs_expected sc) = total_of (length \<circ> defects) xs \<and>
        unat (cs_reported sc) = total_of (length \<circ> snd) xs \<and>
        unat (cs_true_positive sc) = total_of (length \<circ> found) xs \<and>
        unat (cs_false_positive sc) = total_of wrong_reports xs \<and>
        unat (cs_duplicate_reports sc) = total_of repeated_reports xs \<and>
        unat (cs_noisy_clean_cases sc) = length (filter noisy xs) \<and>
        counts_ok e \<and> counts_ok t \<and>
        (\<forall>k. count_of e k = total_of (of_category k \<circ> defects) xs) \<and>
        (\<forall>k. count_of t k = total_of (of_category k \<circ> found) xs) \<and>
        total_of (length \<circ> found) xs + total_of wrong_reports xs + total_of repeated_reports xs =
          total_of (length \<circ> snd) xs)"

lemma totals_zero: "totals [] (zero_corpus_score n, [], [])"
  by (simp add: totals_def zero_corpus_score_def counts_ok_def bt_wf_def count_of_def)

lemma add_clean_case_Inr:
  assumes "add_clean_case c s sc = Inr sc'"
  shows "cs_expected sc' = cs_expected sc" "cs_reported sc' = cs_reported sc"
    "cs_true_positive sc' = cs_true_positive sc" "cs_false_positive sc' = cs_false_positive sc"
    "cs_duplicate_reports sc' = cs_duplicate_reports sc"
    "unat (cs_noisy_clean_cases sc') =
       unat (cs_noisy_clean_cases sc) + (if ec_clean_change c \<and> \<not> es_clean_change_silent s then 1 else 0)"
  using assms
  by (cases "ec_clean_change c"; cases "es_clean_change_silent s"; auto simp: add_clean_case_def result_simps)+

lemma add_case_totals:
  assumes "totals xs st" and "add_case x st = Inr st'"
  shows "totals (xs @ [x]) st'"
proof -
  obtain c fs sc e t where x: "x = (c, fs)" and st: "st = (sc, e, t)" by (cases x, cases st) auto
  obtain s ve vr vt vf vn vd sc2 e' t' where s: "case_score c fs = Inr s"
    and sums: "unat ve = unat (cs_expected sc) + unat (es_expected s)"
      "unat vr = unat (cs_reported sc) + unat (es_reported s)"
      "unat vt = unat (cs_true_positive sc) + unat (es_true_positive s)"
      "unat vf = unat (cs_false_positive sc) + unat (es_false_positive s)"
      "unat vd = unat (cs_duplicate_reports sc) + unat (es_duplicate_reports s)"
    and clean: "add_clean_case c s (sc\<lparr>cs_expected := ve, cs_reported := vr, cs_true_positive := vt,
          cs_false_positive := vf, cs_false_negative := vn, cs_duplicate_reports := vd\<rparr>) = Inr sc2"
    and e': "try_fold count_category (defects x) e = Inr e'"
    and t': "try_fold count_category (found x) t = Inr t'"
    and st': "st' = (sc2, e', t')"
    using assms(2) unfolding x st add_case_def defects_def found_def fst_conv snd_conv Let_def prod.case
    by (simp only: result_simps) blast
  note counts = case_score_Inr [OF s, folded x] and kept = add_clean_case_Inr [OF clean]
  have noisy: "ec_clean_change c \<and> \<not> es_clean_change_silent s \<longleftrightarrow> noisy x" using counts(7) x by (auto simp: noisy_def)
  have ok: "counts_ok e" "counts_ok t" using assms(1) by (simp_all add: totals_def st)
  show ?thesis
    unfolding totals_def st' prod.case
    using assms(1) count_categories_Inr [OF e' ok(1)] count_categories_Inr [OF t' ok(2)]
      sums counts(1-6) kept noisy report_balance [OF counts(8)]
    by (simp add: totals_def st x)
qed

lemma corpus_totals:
  assumes "try_fold add_case xs (zero_corpus_score n, [], []) = Inr st"
  shows "totals xs st"
  using assms by (rule try_fold_inv_prefix) (auto intro: totals_zero add_case_totals)

text \<open>The verdict over the finished score.\<close>

lemma categories_below:
  assumes "counts_ok e" and "m \<le> 10000"
  shows "list_ex (\<lambda>r. r < m) (bt_values (category_recalls e t)) \<longleftrightarrow>
    (\<exists>k. count_of t k * 10000 < unat m * count_of e k)"
proof -
  let ?n = "\<lambda>c. case map_of t c of None \<Rightarrow> 0 | Some k \<Rightarrow> k"
  have wf: "bt_wf e" using assms(1) by (simp add: counts_ok_def)
  have entry: "(c, n) \<in> set e \<longleftrightarrow> map_of e c = Some n" for c n
    using bt_wf_distinct [OF wf] by (auto dest: map_of_SomeD)
  have below: "ratio_basis_points (?n c) n True < m \<longleftrightarrow> count_of t c * 10000 < unat m * count_of e c"
    if "map_of e c = Some n" for c n
  proof -
    have "n \<noteq> 0" using that assms(1) by (auto simp: counts_ok_def)
    then show ?thesis
      unfolding ratio_below [OF assms(2)] using that by (simp add: count_of_def split: option.split)
  qed
  have "list_ex (\<lambda>r. r < m) (bt_values (category_recalls e t)) \<longleftrightarrow>
      (\<exists>c n. (c, n) \<in> set e \<and> ratio_basis_points (?n c) n True < m)"
    unfolding category_recalls_eq [OF wf] bt_values_def list_ex_iff by (auto split: prod.splits)
  also have "\<dots> \<longleftrightarrow> (\<exists>c n. map_of e c = Some n \<and> count_of t c * 10000 < unat m * count_of e c)"
    unfolding entry using below by blast
  also have "\<dots> \<longleftrightarrow> (\<exists>k. count_of t k * 10000 < unat m * count_of e k)"
    by (rule iff_exI) (auto simp: count_of_def split: option.split)
  finally show ?thesis .
qed

lemma gate_failures_Nil:
  "gate_failures sc t = [] \<longleftrightarrow>
     \<not> cs_precision_basis_points sc < et_minimum_precision_basis_points t \<and>
     \<not> cs_recall_basis_points sc < et_minimum_recall_basis_points t \<and>
     \<not> list_ex (\<lambda>r. r < et_minimum_category_recall_basis_points t) (bt_values (cs_category_recall_basis_points sc)) \<and>
     cs_noisy_clean_cases sc \<le> et_maximum_noisy_clean_cases t \<and>
     cs_duplicate_reports sc \<le> et_maximum_duplicate_reports t"
  by (auto simp: gate_failures_def not_less)

text \<open>
  \<^bold>\<open>C27.\<close>  The release gate means what its thresholds say.  A corpus passes exactly when, in
  exact arithmetic over its cases, precision, recall, the recall of every category, the
  noise on clean changes and the repeated reports meet the thresholds: no rounding, no
  saturation and no overflow changes the verdict.  Without any report precision is perfect
  only when nothing was to be found.
\<close>

theorem release_gate_exact:
  assumes "evaluate_corpus xs t = Inr g"
  shows "eg_passed g \<longleftrightarrow>
    (let E = total_of (length \<circ> defects) xs; T = total_of (length \<circ> found) xs; F = total_of wrong_reports xs in
     unat (et_minimum_precision_basis_points t) * (T + F) \<le> 10000 * T \<and>
     (T + F = 0 \<longrightarrow> E = 0 \<or> et_minimum_precision_basis_points t = 0) \<and>
     unat (et_minimum_recall_basis_points t) * E \<le> 10000 * T \<and>
     (\<forall>k. unat (et_minimum_category_recall_basis_points t) * total_of (of_category k \<circ> defects) xs
        \<le> 10000 * total_of (of_category k \<circ> found) xs) \<and>
     length (filter noisy xs) \<le> unat (et_maximum_noisy_clean_cases t) \<and>
     total_of repeated_reports xs \<le> unat (et_maximum_duplicate_reports t))"
proof -
  obtain n sc e ct where thresholds: "et_minimum_precision_basis_points t \<le> 10000"
      "et_minimum_recall_basis_points t \<le> 10000" "et_minimum_category_recall_basis_points t \<le> 10000"
    and run: "try_fold add_case xs (zero_corpus_score n, [], []) = Inr (sc, e, ct)"
    and g: "eg_passed g \<longleftrightarrow> gate_failures (finish_score (sc, e, ct)) t = []"
    using assms by (auto simp: evaluate_corpus_def Let_def result_simps not_less split: if_splits)
  have "totals xs (sc, e, ct)" using run by (rule corpus_totals)
  then have E: "unat (cs_expected sc) = total_of (length \<circ> defects) xs"
    and T: "unat (cs_true_positive sc) = total_of (length \<circ> found) xs"
    and F: "unat (cs_false_positive sc) = total_of wrong_reports xs"
    and D: "unat (cs_duplicate_reports sc) = total_of repeated_reports xs"
    and N: "unat (cs_noisy_clean_cases sc) = length (filter noisy xs)"
    and ok: "counts_ok e" "count_of e = (\<lambda>k. total_of (of_category k \<circ> defects) xs)"
      "count_of ct = (\<lambda>k. total_of (of_category k \<circ> found) xs)"
    and fits: "unat (cs_true_positive sc) + unat (cs_false_positive sc) \<le> unat (cs_reported sc)"
    unfolding totals_def prod.case by auto
  let ?P = "saturating_add (cs_true_positive sc) (cs_false_positive sc)"
  have P: "unat ?P = total_of (length \<circ> found) xs + total_of wrong_reports xs"
    using saturating_add_exact [OF fits] T F by simp
  have zero: "?P = 0 \<longleftrightarrow> unat ?P = 0" "cs_expected sc = 0 \<longleftrightarrow> unat (cs_expected sc) = 0"
    by (simp_all add: unat_eq_zero)
  have recall: "\<not> ratio_basis_points (cs_true_positive sc) (cs_expected sc) True < et_minimum_recall_basis_points t \<longleftrightarrow>
      unat (et_minimum_recall_basis_points t) * unat (cs_expected sc) \<le> 10000 * unat (cs_true_positive sc)"
    unfolding ratio_below [OF thresholds(2)] by (auto simp: not_less mult.commute)
  have precision: "\<not> ratio_basis_points (cs_true_positive sc) ?P (cs_expected sc = 0) < et_minimum_precision_basis_points t \<longleftrightarrow>
      unat (et_minimum_precision_basis_points t) * unat ?P \<le> 10000 * unat (cs_true_positive sc) \<and>
      (unat ?P = 0 \<longrightarrow> unat (cs_expected sc) = 0 \<or> et_minimum_precision_basis_points t = 0)"
    unfolding ratio_below [OF thresholds(1)] zero by (auto simp: not_less mult.commute)
  have "eg_passed g \<longleftrightarrow>
      \<not> ratio_basis_points (cs_true_positive sc) ?P (cs_expected sc = 0) < et_minimum_precision_basis_points t \<and>
      \<not> ratio_basis_points (cs_true_positive sc) (cs_expected sc) True < et_minimum_recall_basis_points t \<and>
      \<not> list_ex (\<lambda>r. r < et_minimum_category_recall_basis_points t) (bt_values (category_recalls e ct)) \<and>
      cs_noisy_clean_cases sc \<le> et_maximum_noisy_clean_cases t \<and>
      cs_duplicate_reports sc \<le> et_maximum_duplicate_reports t"
    unfolding g gate_failures_Nil by (simp add: finish_score_def)
  also have "\<dots> \<longleftrightarrow> unat (et_minimum_precision_basis_points t) * unat ?P \<le> 10000 * unat (cs_true_positive sc) \<and>
      (unat ?P = 0 \<longrightarrow> unat (cs_expected sc) = 0 \<or> et_minimum_precision_basis_points t = 0) \<and>
      unat (et_minimum_recall_basis_points t) * unat (cs_expected sc) \<le> 10000 * unat (cs_true_positive sc) \<and>
      (\<forall>k. unat (et_minimum_category_recall_basis_points t) * count_of e k \<le> 10000 * count_of ct k) \<and>
      unat (cs_noisy_clean_cases sc) \<le> unat (et_maximum_noisy_clean_cases t) \<and>
      unat (cs_duplicate_reports sc) \<le> unat (et_maximum_duplicate_reports t)"
    unfolding precision recall categories_below [OF ok(1) thresholds(3)]
    by (simp add: not_less word_le_nat_alt mult.commute)
  finally show ?thesis unfolding Let_def E T F D N P ok(2,3) .
qed

lemma example_totals:
  "try_fold add_case [(example_case, [])] (zero_corpus_score 1, [], []) =
     Inr ((zero_corpus_score 1)\<lparr>cs_expected := 1, cs_false_negative := 1\<rparr>, [(Security, 1)], [])"
proof -
  have "ec_clean_change example_case = False"
    "ec_expected_defects example_case = [\<lparr>ed_anchor_id = ''a'', ed_category = Security\<rparr>]"
    by (simp_all add: example_case_def)
  then show ?thesis
    by (simp add: add_case_def example_scored example_score_def zero_corpus_score_def eval_add_def checked_add_def
        add_clean_case_def count_category_def observed_defects_def)
qed

theorem release_gate_exact_witness:
  "case evaluate_corpus [(example_case, [])] default_thresholds of Inl _ \<Rightarrow> False | Inr g \<Rightarrow> \<not> eg_passed g"
proof -
  have one: "as_u32 (length [(example_case, [] :: finding list)]) = Inr 1"
    by (simp add: as_u32_def try_word_def)
  obtain g where g: "evaluate_corpus [(example_case, [])] default_thresholds = Inr g"
    unfolding evaluate_corpus_def one and_then_simps example_totals by (simp add: default_thresholds_def Let_def)
  show ?thesis
    using release_gate_exact [OF g] g
    by (simp add: total_of_def defects_def found_def example_case_def observed_defects_def default_thresholds_def)
qed

end
