(* ===== verification/Repository.thy ===== *)
theory Repository
  imports Agent_Budget Provider Ordered_Map Text_Search
begin

text \<open>
  The read-only repository tools, \<open>crates/revoot-core/src/repository.rs\<close>: relative paths,
  the bounded inventory of a checkout, and the listing, reading, searching and diff tools
  that charge the review-wide budget.

  The operating system is a parameter: a \<open>file_system\<close> answers the calls the module makes
  and nothing is assumed of it, so it may also change between two calls.  Names are byte
  strings and a path below the canonical root is the list of its components.  The
  cancellation token is read at every poll and does not change within one call.
\<close>

section \<open>Relative paths\<close>

definition max_query_bytes :: nat where "max_query_bytes = 512"
definition max_search_excerpt_bytes :: nat where "max_search_excerpt_bytes = 512"

type_synonym relative_path = string

datatype relative_path_error = EmptyPath | NulInPath | AbsolutePath | NonUtf8Path' | NotNormalized | ReservedPath

text \<open>\<open>Path::components\<close> of a path that is not absolute: empty components and dots
  vanish, but a dot in front stays.\<close>

datatype path_component = NormalComponent string | CurDir | ParentDir

definition path_components :: "string \<Rightarrow> path_component list" where
  "path_components v =
     (let component = (\<lambda>s. if s = ''..'' then ParentDir else NormalComponent s) in
      case split_on (CHR ''/'') v of
        [] \<Rightarrow> []
      | p # ps \<Rightarrow>
          (if p = [] then [] else if p = ''.'' then [CurDir] else [component p]) @
          map component (filter (\<lambda>s. s \<noteq> [] \<and> s \<noteq> ''.'') ps))"

definition is_dot_git :: "string \<Rightarrow> bool" where
  "is_dot_git s \<longleftrightarrow> ascii_lowercase s = ''.git''"

text \<open>The values are strings, so every component is UTF-8.\<close>

fun normal_component :: "path_component \<Rightarrow> string list \<Rightarrow> relative_path_error + string list" where
  "normal_component (NormalComponent s) acc = (if s = [] then Inl NotNormalized else Inr (acc @ [s]))"
| "normal_component CurDir acc = Inl NotNormalized"
| "normal_component ParentDir acc = Inl NotNormalized"

definition relative_path_try_from :: "string \<Rightarrow> relative_path_error + relative_path" where
  "relative_path_try_from v =
     (if v = [] then Inl EmptyPath
      else if CHR 0x00 \<in> set v then Inl NulInPath
      else if starts_with ''/'' v then Inl AbsolutePath
      else
        and_then (try_fold normal_component (path_components v) []) (\<lambda>normalized.
        if normalized = [] \<or> list_ex is_dot_git normalized then Inl ReservedPath
        else
          let canonical = join ''/'' normalized in
          if canonical \<noteq> v then Inl NotNormalized else Inr canonical))"

definition to_path_buf :: "relative_path \<Rightarrow> string list" where
  "to_path_buf p = split_on (CHR ''/'') p"

section \<open>Limits\<close>

record repository_limits =
  rl_max_inventory_entries :: u32
  rl_max_inventory_files :: u32
  rl_max_inventory_depth :: u16
  rl_max_file_bytes :: u64
  rl_max_read_bytes :: u64
  rl_max_search_bytes :: u64
  rl_max_search_matches :: u32
  rl_max_list_results :: u32
  rl_max_diff_bytes :: u64

definition default_repository_limits :: repository_limits where
  "default_repository_limits =
     \<lparr>rl_max_inventory_entries = 100000, rl_max_inventory_files = 25000, rl_max_inventory_depth = 64,
      rl_max_file_bytes = 2 * 1024 * 1024, rl_max_read_bytes = 256 * 1024,
      rl_max_search_bytes = 8 * 1024 * 1024, rl_max_search_matches = 200, rl_max_list_results = 2000,
      rl_max_diff_bytes = 2 * 1024 * 1024\<rparr>"

datatype repository_limit_error =
    LimitInventoryEntries | LimitInventoryFiles | LimitInventoryDepth | LimitFileBytes | LimitReadBytes
  | LimitSearchBytes | LimitSearchMatches | LimitListResults | LimitDiffBytes

definition repository_limits_validate :: "repository_limits \<Rightarrow> repository_limit_error + unit" where
  "repository_limits_validate l =
     (if rl_max_inventory_entries l = 0 \<or> rl_max_inventory_entries l < rl_max_inventory_files l
      then Inl LimitInventoryEntries
      else if rl_max_inventory_files l = 0 then Inl LimitInventoryFiles
      else if rl_max_inventory_depth l = 0 then Inl LimitInventoryDepth
      else if rl_max_file_bytes l = 0 then Inl LimitFileBytes
      else if rl_max_read_bytes l = 0 \<or> rl_max_file_bytes l < rl_max_read_bytes l then Inl LimitReadBytes
      else if rl_max_search_bytes l = 0 then Inl LimitSearchBytes
      else if rl_max_search_matches l = 0 then Inl LimitSearchMatches
      else if rl_max_list_results l = 0 then Inl LimitListResults
      else if rl_max_diff_bytes l = 0 then Inl LimitDiffBytes
      else Inr ())"

section \<open>Files and the operating system\<close>

record repository_file =
  rf_path :: relative_path
  rf_size_bytes :: u64

datatype gap_reason =
    GapDepthLimit | GapEntryLimit | GapFileLimit | GapNonUtf8Path | GapHardLink | GapSymbolicLink
  | GapUnsupportedFileType | GapMetadataUnavailable | GapDirectoryUnavailable

datatype inventory_coverage = InventoryComplete | InventoryPartial u32 "gap_reason set"

record repository_inventory =
  ri_files :: "repository_file list"
  ri_coverage :: inventory_coverage

datatype file_kind = RegularFile | Directory | SymbolicLink | OtherFile

record metadata =
  md_kind :: file_kind
  md_len :: u64
  md_nlink :: u64
  md_dev :: u64
  md_ino :: u64
  md_ctime :: int
  md_ctime_nsec :: int

text \<open>
  An open file: its metadata, the bytes it yields up to the end or an error, and its
  metadata after reading.
\<close>

record open_file =
  of_metadata :: "metadata option"
  of_content :: "string option"
  of_final_metadata :: "metadata option"

text \<open>
  \<open>canonicalize\<close> and \<open>is_dir\<close> of the root; \<open>read_dir\<close>, whose entries may each be an
  error; \<open>symlink_metadata\<close>; and \<open>open\<close> with \<open>O_NOFOLLOW\<close>.
\<close>

record file_system =
  fs_root_is_dir :: "bool option"
  fs_read_dir :: "string list \<Rightarrow> string option list option"
  fs_symlink_metadata :: "string list \<Rightarrow> metadata option"
  fs_open :: "string list \<Rightarrow> open_file option"

record inventoried_file =
  iv_public :: repository_file
  iv_device :: u64
  iv_inode :: u64
  iv_changed_seconds :: int
  iv_changed_nanoseconds :: int

definition inventoried :: "relative_path \<Rightarrow> metadata \<Rightarrow> inventoried_file" where
  "inventoried p m =
     \<lparr>iv_public = \<lparr>rf_path = p, rf_size_bytes = md_len m\<rparr>, iv_device = md_dev m, iv_inode = md_ino m,
      iv_changed_seconds = md_ctime m, iv_changed_nanoseconds = md_ctime_nsec m\<rparr>"

definition file_matches :: "inventoried_file \<Rightarrow> metadata \<Rightarrow> bool" where
  "file_matches f m \<longleftrightarrow>
     md_kind m = RegularFile \<and> md_nlink m = 1 \<and> md_dev m = iv_device f \<and> md_ino m = iv_inode f \<and>
     md_len m = rf_size_bytes (iv_public f) \<and> md_ctime m = iv_changed_seconds f \<and>
     md_ctime_nsec m = iv_changed_nanoseconds f"

datatype repository_error =
    InvalidRepositoryLimits repository_limit_error | RootUnavailable | RootNotDirectory
  | InventoryUnavailable | InvalidRange | InvalidQuery | ResultLimit | PathNotInventoried | PathChanged
  | SymbolicLinkError | NotRegularFile | FileTooLarge | FileUnavailable | NonUtf8Content
  | RepoDiffUnavailable | RepoDiffTooLarge | RepoCancelled | RepoBudget budget_error

definition repo_check_cancelled :: "cancellation_token \<Rightarrow> repository_error + unit" where
  "repo_check_cancelled token = (if is_cancelled token then Inl RepoCancelled else Inr ())"

section \<open>The inventory\<close>

text \<open>The \<open>&mut\<close> arguments of the walk.\<close>

record walk =
  wk_files :: "repository_file list"
  wk_identities :: "(relative_path, inventoried_file) btree"
  wk_reasons :: "gap_reason set"
  wk_omitted :: u32
  wk_entries :: u32

definition empty_walk :: walk where
  "empty_walk = \<lparr>wk_files = [], wk_identities = [], wk_reasons = {}, wk_omitted = 0, wk_entries = 0\<rparr>"

definition note_gap :: "gap_reason \<Rightarrow> walk \<Rightarrow> walk" where
  "note_gap r w = w\<lparr>wk_reasons := insert r (wk_reasons w), wk_omitted := saturating_add (wk_omitted w) 1\<rparr>"

definition collect_directory_entries :: "string option list \<Rightarrow> walk \<Rightarrow> string list \<times> walk" where
  "collect_directory_entries es w =
     (List.map_filter (\<lambda>e. e) es, fold (\<lambda>e. if e = None then note_gap GapMetadataUnavailable else id) es w)"

definition add_file :: "relative_path \<Rightarrow> metadata \<Rightarrow> walk \<Rightarrow> walk" where
  "add_file p m w =
     w\<lparr>wk_identities := bt_insert p (inventoried p m) (wk_identities w),
       wk_files := wk_files w @ [iv_public (inventoried p m)]\<rparr>"

text \<open>The end of the loop over the entries of a directory, for one that is no directory.\<close>

definition admit_entry :: "repository_limits \<Rightarrow> string list \<Rightarrow> metadata \<Rightarrow> walk \<Rightarrow> walk" where
  "admit_entry l path m w =
     (if md_kind m \<noteq> RegularFile then note_gap GapUnsupportedFileType w
      else if md_nlink m \<noteq> 1 then note_gap GapHardLink w
      else if unat (rl_max_inventory_files l) \<le> length (wk_files w) then note_gap GapFileLimit w
      else
        let relative = join ''/'' path in
        if \<not> utf8_valid relative then note_gap GapNonUtf8Path w
        else case relative_path_try_from relative of
            Inl _ \<Rightarrow> note_gap GapNonUtf8Path w
          | Inr p \<Rightarrow> add_file p m w)"

text \<open>
  \<open>walk_directory\<close> and the loop over its sorted entries.  The count of entries bounds the
  recursion: every directory that is entered was counted.
\<close>

function (sequential) walk_directory ::
      "file_system \<Rightarrow> repository_limits \<Rightarrow> cancellation_token \<Rightarrow> string list \<Rightarrow> u16 \<Rightarrow> walk \<Rightarrow> repository_error + walk"
  and walk_entries ::
      "file_system \<Rightarrow> repository_limits \<Rightarrow> cancellation_token \<Rightarrow> string list \<Rightarrow> u16 \<Rightarrow> string list \<Rightarrow> walk
        \<Rightarrow> repository_error + walk"
where
  "walk_directory fs l token dir depth w =
     and_then (repo_check_cancelled token) (\<lambda>_.
     if rl_max_inventory_depth l < depth then Inr (note_gap GapDepthLimit w)
     else case fs_read_dir fs dir of
         None \<Rightarrow>
           if dir = [] then Inl InventoryUnavailable else Inr (note_gap GapDirectoryUnavailable w)
       | Some es \<Rightarrow>
           walk_entries fs l token dir depth (sort (fst (collect_directory_entries es w)))
             (snd (collect_directory_entries es w)))"
| "walk_entries fs l token dir depth [] w = Inr w"
| "walk_entries fs l token dir depth (name # names) w =
     and_then (repo_check_cancelled token) (\<lambda>_.
     if rl_max_inventory_entries l \<le> wk_entries w
     then walk_entries fs l token dir depth names (note_gap GapEntryLimit w)
     else
       let w1 = w\<lparr>wk_entries := saturating_add (wk_entries w) 1\<rparr> in
       if is_dot_git name then walk_entries fs l token dir depth names w1
       else case fs_symlink_metadata fs (dir @ [name]) of
           None \<Rightarrow> walk_entries fs l token dir depth names (note_gap GapMetadataUnavailable w1)
         | Some m \<Rightarrow>
             if md_kind m = SymbolicLink
             then walk_entries fs l token dir depth names (note_gap GapSymbolicLink w1)
             else if md_kind m = Directory
             then
               and_then (walk_directory fs l token (dir @ [name]) (saturating_add depth 1) w1)
                 (walk_entries fs l token dir depth names)
             else walk_entries fs l token dir depth names (admit_entry l (dir @ [name]) m w1))"
  by pat_completeness auto

lemma wk_entries_simps [simp]:
  "wk_entries (note_gap r w) = wk_entries w"
  "wk_entries (snd (collect_directory_entries es w)) = wk_entries w"
  "wk_entries (admit_entry l path m w) = wk_entries w"
proof -
  show gap: "wk_entries (note_gap r w) = wk_entries w" for r w by (simp add: note_gap_def)
  have "wk_entries (fold (\<lambda>e. if e = None then note_gap GapMetadataUnavailable else id) es w) = wk_entries w"
    by (induction es arbitrary: w) (simp_all add: gap)
  then show "wk_entries (snd (collect_directory_entries es w)) = wk_entries w"
    by (simp add: collect_directory_entries_def)
  show "wk_entries (admit_entry l path m w) = wk_entries w"
    by (simp add: admit_entry_def gap add_file_def Let_def split: sum.split)
qed

lemma count_entry:
  "w < max \<Longrightarrow> unat (saturating_add w 1) = Suc (unat w)" for w max :: u32
  using unsigned_less [of max, where ?'a = nat]
  by (simp add: unat_saturating_add word_less_nat_alt)

lemma walk_entries_grow_partial:
  "walk_directory_walk_entries_dom (Inl (fs, l, token, dir, depth, w)) \<Longrightarrow>
     walk_directory fs l token dir depth w = Inr w' \<Longrightarrow> unat (wk_entries w) \<le> unat (wk_entries w')"
  "walk_directory_walk_entries_dom (Inr (fs, l, token, dir, depth, names, w)) \<Longrightarrow>
     walk_entries fs l token dir depth names w = Inr w' \<Longrightarrow> unat (wk_entries w) \<le> unat (wk_entries w')"
proof (induction fs l token dir depth w and fs l token dir depth names w arbitrary: w' and w' rule: walk_directory_walk_entries.pinduct)
  case (1 fs l token dir depth w)
  then show ?case
    by (auto simp: walk_directory.psimps repo_check_cancelled_def split: if_splits option.splits)
next
  case (2 fs l token dir depth w)
  then show ?case by (simp add: walk_entries.psimps)
next
  case (3 fs l token dir depth name names w)
  let ?w1 = "w\<lparr>wk_entries := saturating_add (wk_entries w) 1\<rparr>"
  have grow: "unat (wk_entries w) \<le> unat (wk_entries ?w1)"
    by (simp add: word_le_nat_alt [symmetric] saturating_add_ge)
  have "\<not> is_cancelled token" using 3 by (auto simp: walk_entries.psimps repo_check_cancelled_def)
  then have poll: "repo_check_cancelled token = Inr ()" by (simp add: repo_check_cancelled_def)
  note run = "3.prems" [unfolded walk_entries.psimps(2) [OF 3(1)] poll and_then_simps Let_def]
  show ?case
  proof (cases "rl_max_inventory_entries l \<le> wk_entries w")
    case True
    then show ?thesis using "3.IH"(1) [OF poll True] run by simp
  next
    case counted: False
    show ?thesis
    proof (cases "is_dot_git name \<or> fs_symlink_metadata fs (dir @ [name]) = None")
      case True
      then show ?thesis
        using "3.IH"(2) [OF poll counted refl] "3.IH"(3) [OF poll counted refl] run counted grow
        by (cases "is_dot_git name") fastforce+
    next
      case False
      then obtain m where m: "fs_symlink_metadata fs (dir @ [name]) = Some m" and git: "\<not> is_dot_git name" by auto
      note IH = "3.IH"(4-7) [OF poll counted refl git m]
      show ?thesis
      proof (cases "md_kind m = Directory")
        case True
        then obtain w2 where "walk_directory fs l token (dir @ [name]) (saturating_add depth 1) ?w1 = Inr w2"
            "walk_entries fs l token dir depth names w2 = Inr w'"
          using run counted git m by (auto simp: result_simps)
        then show ?thesis using IH(2) [OF _ True] IH(3) [OF _ True] True grow by fastforce
      next
        case other: False
        then show ?thesis using IH(1) IH(4) [OF _ other] run counted git m grow by (cases "md_kind m = SymbolicLink") fastforce+
      qed
    qed
  qed
qed

termination walk_directory
proof (relation "inv_image (less_than <*lex*> less_than <*lex*> less_than)
    (\<lambda>x. case x of
        Inl (fs, l, token, dir, depth, w) \<Rightarrow> (unat (rl_max_inventory_entries l) - unat (wk_entries w), 1, 0)
      | Inr (fs, l, token, dir, depth, names, w) \<Rightarrow>
          (unat (rl_max_inventory_entries l) - unat (wk_entries w), 0, length names))", goal_cases)
  case 1
  show ?case by (intro wf_inv_image wf_lex_prod wf_less_than)
next
  case (7 fs l token dir depth name names w x w1 m)
  then have "wk_entries w < rl_max_inventory_entries l" by simp
  then have "unat (wk_entries w1) = Suc (unat (wk_entries w))" "unat (wk_entries w) < unat (rl_max_inventory_entries l)"
    using 7 by (simp_all add: count_entry word_less_nat_alt)
  then show ?case by simp
next
  case (8 fs l token dir depth name names w x w1 m w2)
  then have "wk_entries w < rl_max_inventory_entries l" by simp
  then have "unat (wk_entries w1) = Suc (unat (wk_entries w))" "unat (wk_entries w) < unat (rl_max_inventory_entries l)"
    using 8 by (simp_all add: count_entry word_less_nat_alt)
  moreover have "unat (wk_entries w1) \<le> unat (wk_entries w2)"
    using 8 by (intro walk_entries_grow_partial(1)) auto
  ultimately show ?case by auto
qed (auto intro!: le_neq_implies_less diff_le_mono2 simp: word_le_nat_alt [symmetric] saturating_add_ge)

declare walk_directory.simps [simp del] walk_entries.simps(2) [simp del]

definition walk_coverage :: "walk \<Rightarrow> inventory_coverage" where
  "walk_coverage w =
     (if wk_reasons w = {} then InventoryComplete else InventoryPartial (wk_omitted w) (wk_reasons w))"

type_synonym inventory_result = "repository_inventory \<times> (relative_path, inventoried_file) btree"

definition build_inventory ::
    "file_system \<Rightarrow> repository_limits \<Rightarrow> cancellation_token \<Rightarrow> repository_error + inventory_result" where
  "build_inventory fs l token =
     and_then (walk_directory fs l token [] 0 empty_walk) (\<lambda>w.
     Inr (\<lparr>ri_files = sort_key rf_path (wk_files w), ri_coverage = walk_coverage w\<rparr>, wk_identities w))"

text \<open>Some proper or full prefix of the path is a symbolic link, none before it missing.\<close>

fun has_symlink :: "file_system \<Rightarrow> string list \<Rightarrow> string list \<Rightarrow> bool" where
  "has_symlink fs current [] = False"
| "has_symlink fs current (c # cs) =
     (case fs_symlink_metadata fs (current @ [c]) of
        Some m \<Rightarrow> if md_kind m = SymbolicLink then True else has_symlink fs (current @ [c]) cs
      | None \<Rightarrow> False)"

definition selected_path_has_symlink :: "file_system \<Rightarrow> relative_path \<Rightarrow> bool" where
  "selected_path_has_symlink fs p = has_symlink fs [] (split_on (CHR ''/'') p)"

text \<open>The body of the loop over the selected paths, which come in order and once each.\<close>

definition select_path ::
    "file_system \<Rightarrow> repository_limits \<Rightarrow> cancellation_token \<Rightarrow> nat \<times> relative_path \<Rightarrow> walk \<Rightarrow> repository_error + walk" where
  "select_path fs l token ip w =
     (let (index, path) = ip in
      and_then (repo_check_cancelled token) (\<lambda>_.
      if unat (rl_max_inventory_entries l) \<le> index then Inr (note_gap GapEntryLimit w)
      else if unat (rl_max_inventory_depth l) < length (split_on (CHR ''/'') path) then Inr (note_gap GapDepthLimit w)
      else if unat (rl_max_inventory_files l) \<le> length (wk_files w) then Inr (note_gap GapFileLimit w)
      else if selected_path_has_symlink fs path then Inr (note_gap GapSymbolicLink w)
      else case fs_symlink_metadata fs (to_path_buf path) of
          None \<Rightarrow> Inr (note_gap GapMetadataUnavailable w)
        | Some m \<Rightarrow>
            if md_kind m \<noteq> RegularFile then Inr (note_gap GapUnsupportedFileType w)
            else if md_nlink m \<noteq> 1 then Inr (note_gap GapHardLink w)
            else Inr (add_file path m w)))"

definition build_selected_inventory ::
    "file_system \<Rightarrow> repository_limits \<Rightarrow> relative_path list \<Rightarrow> cancellation_token \<Rightarrow> repository_error + inventory_result" where
  "build_selected_inventory fs l paths token =
     and_then (try_fold (select_path fs l token) (List.enumerate 0 (fold bs_insert paths [])) empty_walk) (\<lambda>w.
     Inr (\<lparr>ri_files = wk_files w, ri_coverage = walk_coverage w\<rparr>, wk_identities w))"

section \<open>The toolbox\<close>

record toolbox =
  tb_limits :: repository_limits
  tb_inventory :: repository_inventory
  tb_files :: "(relative_path, inventoried_file) btree"
  tb_diffs :: "(relative_path, string) btree"

definition check_root :: "file_system \<Rightarrow> repository_limits \<Rightarrow> cancellation_token \<Rightarrow> repository_error + unit" where
  "check_root fs l token =
     and_then (repo_check_cancelled token) (\<lambda>_.
     and_then (map_err InvalidRepositoryLimits (repository_limits_validate l)) (\<lambda>_.
     case fs_root_is_dir fs of
       None \<Rightarrow> Inl RootUnavailable
     | Some is_dir \<Rightarrow> if \<not> is_dir then Inl RootNotDirectory else Inr ()))"

definition collect_diffs :: "(relative_path \<times> string) list \<Rightarrow> (relative_path, string) btree" where
  "collect_diffs ds = fold (\<lambda>(p, t). bt_insert p t) ds []"

definition toolbox_open ::
    "file_system \<Rightarrow> repository_limits \<Rightarrow> (relative_path \<times> string) list \<Rightarrow> cancellation_token \<Rightarrow> repository_error + toolbox" where
  "toolbox_open fs l diffs token =
     and_then (check_root fs l token) (\<lambda>_.
     and_then (build_inventory fs l token) (\<lambda>(inventory, files).
     Inr \<lparr>tb_limits = l, tb_inventory = inventory, tb_files = files, tb_diffs = collect_diffs diffs\<rparr>))"

definition toolbox_open_selected ::
    "file_system \<Rightarrow> repository_limits \<Rightarrow> (relative_path \<times> string) list \<Rightarrow> relative_path list \<Rightarrow> cancellation_token
      \<Rightarrow> repository_error + toolbox" where
  "toolbox_open_selected fs l diffs paths token =
     and_then (check_root fs l token) (\<lambda>_.
     and_then (build_selected_inventory fs l paths token) (\<lambda>(inventory, files).
     Inr \<lparr>tb_limits = l, tb_inventory = inventory, tb_files = files, tb_diffs = collect_diffs diffs\<rparr>))"

text \<open>\<open>budget.charge_tool(..)?\<close>\<close>

definition charge :: "u64 \<Rightarrow> u64 \<Rightarrow> u64 \<Rightarrow> agent_budget \<Rightarrow> (repository_error + unit) \<times> agent_budget" where
  "charge files bytes now b = (let (r, b') = charge_tool 1 files bytes now b in (map_err RepoBudget r, b'))"

section \<open>Listing\<close>

definition is_below :: "relative_path \<Rightarrow> relative_path \<Rightarrow> bool" where
  "is_below path below \<longleftrightarrow>
     path = below \<or> (case strip_prefix below path of None \<Rightarrow> False | Some rest \<Rightarrow> starts_with ''/'' rest)"

record list_result =
  lr_files :: "repository_file list"
  lr_truncated :: bool

definition list_files ::
    "toolbox \<Rightarrow> relative_path option \<Rightarrow> u32 \<Rightarrow> cancellation_token \<Rightarrow> u64 \<Rightarrow> agent_budget
      \<Rightarrow> (repository_error + list_result) \<times> agent_budget" where
  "list_files tb below max_results token now b =
     and_lift (repo_check_cancelled token) b (\<lambda>_.
     if max_results = 0 \<or> rl_max_list_results (tb_limits tb) < max_results then (Inl ResultLimit, b)
     else
       let matching = filter (\<lambda>f. case below of None \<Rightarrow> True | Some p \<Rightarrow> is_below (rf_path f) p) (ri_files (tb_inventory tb));
           files = take (unat max_results) matching
       in and_run (charge (clamp_word (length files)) 0 now b) (\<lambda>_ b.
          (Inr \<lparr>lr_files = files, lr_truncated = (drop (unat max_results) matching \<noteq> [])\<rparr>, b)))"

section \<open>Reading\<close>

record line_range =
  lg_start :: u32
  lg_end :: u32

definition range_valid :: "line_range \<Rightarrow> bool" where
  "range_valid r \<longleftrightarrow> 0 < lg_start r \<and> lg_start r \<le> lg_end r"

text \<open>\<open>str::split_inclusive\<close> by the line feed.\<close>

definition split_inclusive :: "string \<Rightarrow> string list" where
  "split_inclusive s =
     (let ls = split_on nl s in map (\<lambda>l. l @ [nl]) (butlast ls) @ (if last ls = [] then [] else [last ls]))"

definition line_number :: "nat \<Rightarrow> u32" where
  "line_number index = saturating_add (clamp_word index) 1"

text \<open>The loop of \<open>select_lines\<close>: the content, the last line taken, and whether it stopped for size.\<close>

fun select_loop :: "line_range \<Rightarrow> u64 \<Rightarrow> nat \<Rightarrow> string list \<Rightarrow> string \<times> u32 \<times> bool \<Rightarrow> string \<times> u32 \<times> bool" where
  "select_loop r max_bytes index [] s = s"
| "select_loop r max_bytes index (line # lines) (content, last_line, truncated) =
     (if line_number index < lg_start r then select_loop r max_bytes (Suc index) lines (content, last_line, truncated)
      else if lg_end r < line_number index then (content, last_line, truncated)
      else if unat max_bytes < length content + length line then (content, last_line, True)
      else select_loop r max_bytes (Suc index) lines (content @ line, line_number index, truncated))"

definition select_lines :: "string \<Rightarrow> line_range \<Rightarrow> u64 \<Rightarrow> repository_error + string \<times> u32 \<times> bool" where
  "select_lines text r max_bytes =
     (let (content, last_line, truncated) =
        select_loop r max_bytes 0 (split_inclusive text) ([], saturating_sub (lg_start r) 1, False)
      in if content = [] \<and> text \<noteq> [] \<and> last_line < lg_start r then Inl InvalidRange
         else Inr (content, last_line, truncated))"

definition read_bounded_file :: "string option \<Rightarrow> u64 \<Rightarrow> repository_error + string" where
  "read_bounded_file content maximum =
     (case content of
        None \<Rightarrow> Inl FileUnavailable
      | Some s \<Rightarrow>
          let bytes = take (unat (saturating_add maximum 1)) s in
          if maximum < clamp_word (length bytes) then Inl FileTooLarge else Inr bytes)"

definition read_inventoried :: "file_system \<Rightarrow> toolbox \<Rightarrow> relative_path \<Rightarrow> repository_error + string" where
  "read_inventoried fs tb path =
     and_then (ok_or PathNotInventoried (map_of (tb_files tb) path)) (\<lambda>expected.
     and_then (ok_or FileUnavailable (fs_open fs (to_path_buf path))) (\<lambda>file.
     and_then (ok_or FileUnavailable (of_metadata file)) (\<lambda>m.
     if md_kind m \<noteq> RegularFile then Inl NotRegularFile
     else if md_nlink m \<noteq> 1 then Inl PathChanged
     else if \<not> file_matches expected m then Inl PathChanged
     else if rl_max_file_bytes (tb_limits tb) < md_len m then Inl FileTooLarge
     else
       and_then (read_bounded_file (of_content file) (rl_max_file_bytes (tb_limits tb))) (\<lambda>bytes.
       and_then (ok_or FileUnavailable (of_final_metadata file)) (\<lambda>final.
       if \<not> file_matches expected final then Inl PathChanged else Inr bytes)))))"

record read_result =
  rr_path :: relative_path
  rr_start_line :: u32
  rr_end_line :: u32
  rr_content :: string
  rr_truncated :: bool

definition read_file ::
    "file_system \<Rightarrow> toolbox \<Rightarrow> relative_path \<Rightarrow> line_range \<Rightarrow> cancellation_token \<Rightarrow> u64 \<Rightarrow> agent_budget
      \<Rightarrow> (repository_error + read_result) \<times> agent_budget" where
  "read_file fs tb path r token now b =
     and_lift (repo_check_cancelled token) b (\<lambda>_.
     if \<not> range_valid r then (Inl InvalidRange, b)
     else
       and_lift (ok_or PathNotInventoried (map_of (tb_files tb) path)) b (\<lambda>expected.
       and_run (charge 1 (min (rf_size_bytes (iv_public expected)) (rl_max_read_bytes (tb_limits tb))) now b) (\<lambda>_ b.
       and_lift (read_inventoried fs tb path) b (\<lambda>bytes.
       if \<not> utf8_valid bytes then (Inl NonUtf8Content, b)
       else
         and_lift (select_lines bytes r (rl_max_read_bytes (tb_limits tb))) b (\<lambda>(content, end_line, truncated).
         (Inr \<lparr>rr_path = path, rr_start_line = lg_start r, rr_end_line = end_line, rr_content = content,
            rr_truncated = truncated\<rparr>, b))))))"

section \<open>Searching\<close>

record search_match =
  sm_path :: relative_path
  sm_line :: u32
  sm_column :: u32
  sm_excerpt :: string

record search_request =
  sq_query :: string
  sq_paths :: "relative_path list"
  sq_max_results :: u32

record search_result =
  sr_matches :: "search_match list"
  sr_scanned_files :: u32
  sr_skipped_files :: u32
  sr_truncated :: bool

definition is_char_boundary :: "string \<Rightarrow> nat \<Rightarrow> bool" where
  "is_char_boundary s i \<longleftrightarrow> i = 0 \<or> i = length s \<or> i < length s \<and> \<not> is_continuation (s ! i)"

text \<open>Steps back to a boundary, but not before \<open>low\<close>.\<close>

fun step_back :: "string \<Rightarrow> nat \<Rightarrow> nat \<Rightarrow> nat" where
  "step_back s low 0 = 0"
| "step_back s low (Suc i) = (if low < Suc i \<and> \<not> is_char_boundary s (Suc i) then step_back s low i else Suc i)"

definition bounded_excerpt :: "string \<Rightarrow> nat \<Rightarrow> nat \<Rightarrow> string" where
  "bounded_excerpt line column maximum =
     (if length line \<le> maximum then line
      else
        let start = step_back line 0 (column - maximum div 4);
            end = step_back line start (min (start + maximum) (length line))
        in take (end - start) (drop start line))"

text \<open>The matches of a text in order: line index, column and line.\<close>

definition line_matches :: "string \<Rightarrow> string \<Rightarrow> (nat \<times> nat \<times> string) list" where
  "line_matches query text =
     concat (map (\<lambda>(index, line). map (\<lambda>before. (index, length before, line)) (match_prefixes query [] 0 line))
       (List.enumerate 0 (str_lines text)))"

fun push_matches ::
    "relative_path \<Rightarrow> nat \<Rightarrow> (nat \<times> nat \<times> string) list \<Rightarrow> search_match list \<times> bool \<Rightarrow> search_match list \<times> bool" where
  "push_matches path maximum [] s = s"
| "push_matches path maximum ((index, column, line) # ms) (matches, truncated) =
     (if length matches = maximum then (matches, True)
      else push_matches path maximum ms
        (matches @ [\<lparr>sm_path = path, sm_line = line_number index, sm_column = line_number column,
           sm_excerpt = bounded_excerpt line column max_search_excerpt_bytes\<rparr>], truncated))"

definition collect_matches :: "relative_path \<Rightarrow> string \<Rightarrow> search_request \<Rightarrow> search_match list \<times> bool \<Rightarrow> search_match list \<times> bool" where
  "collect_matches path text request s =
     push_matches path (unat (sq_max_results request)) (line_matches (sq_query request) text) s"

text \<open>The loop over the candidates: matches, counts of files, scanned bytes, truncation.\<close>

record search_scan =
  sn_matches :: "search_match list"
  sn_scanned_files :: u32
  sn_skipped_files :: u32
  sn_scanned_bytes :: u64
  sn_truncated :: bool

definition skip_file :: "search_scan \<Rightarrow> search_scan" where
  "skip_file s = s\<lparr>sn_skipped_files := saturating_add (sn_skipped_files s) 1\<rparr>"

fun search_loop ::
    "file_system \<Rightarrow> toolbox \<Rightarrow> search_request \<Rightarrow> cancellation_token \<Rightarrow> relative_path list \<Rightarrow> search_scan
      \<Rightarrow> repository_error + search_scan" where
  "search_loop fs tb request token [] s = Inr s"
| "search_loop fs tb request token (path # paths) s =
     and_then (repo_check_cancelled token) (\<lambda>_.
     and_then (ok_or PathNotInventoried (map_of (tb_files tb) path)) (\<lambda>file.
     if rl_max_file_bytes (tb_limits tb) < rf_size_bytes (iv_public file)
       \<or> rl_max_search_bytes (tb_limits tb) < saturating_add (sn_scanned_bytes s) (rf_size_bytes (iv_public file))
     then search_loop fs tb request token paths ((skip_file s)\<lparr>sn_truncated := True\<rparr>)
     else case read_inventoried fs tb path of
         Inl e \<Rightarrow>
           if e = NonUtf8Content \<or> e = FileTooLarge then search_loop fs tb request token paths (skip_file s) else Inl e
       | Inr bytes \<Rightarrow>
           let s = s\<lparr>sn_scanned_bytes := saturating_add (sn_scanned_bytes s) (clamp_word (length bytes))\<rparr> in
           if \<not> utf8_valid bytes then search_loop fs tb request token paths (skip_file s)
           else
             let (matches, truncated) = collect_matches path bytes request (sn_matches s, sn_truncated s);
                 s = s\<lparr>sn_scanned_files := saturating_add (sn_scanned_files s) 1,
                   sn_matches := matches, sn_truncated := truncated\<rparr>
             in if unat (sq_max_results request) \<le> length matches then Inr (s\<lparr>sn_truncated := True\<rparr>)
                else search_loop fs tb request token paths s))"

definition search_candidates :: "toolbox \<Rightarrow> search_request \<Rightarrow> repository_error + relative_path list" where
  "search_candidates tb request =
     (if sq_paths request = [] then Inr (map rf_path (ri_files (tb_inventory tb)))
      else if list_ex (\<lambda>p. map_of (tb_files tb) p = None) (sq_paths request) then Inl PathNotInventoried
      else Inr (sq_paths request))"

definition reserved_bytes :: "toolbox \<Rightarrow> relative_path list \<Rightarrow> u64" where
  "reserved_bytes tb candidates =
     min (fold (\<lambda>n total. saturating_add total n)
         (map (\<lambda>f. min (rf_size_bytes (iv_public f)) (rl_max_file_bytes (tb_limits tb)))
           (List.map_filter (map_of (tb_files tb)) candidates)) 0)
       (rl_max_search_bytes (tb_limits tb))"

definition empty_scan :: search_scan where
  "empty_scan = \<lparr>sn_matches = [], sn_scanned_files = 0, sn_skipped_files = 0, sn_scanned_bytes = 0, sn_truncated = False\<rparr>"

definition search ::
    "file_system \<Rightarrow> toolbox \<Rightarrow> search_request \<Rightarrow> cancellation_token \<Rightarrow> u64 \<Rightarrow> agent_budget
      \<Rightarrow> (repository_error + search_result) \<times> agent_budget" where
  "search fs tb request token now b =
     and_lift (repo_check_cancelled token) b (\<lambda>_.
     if sq_query request = [] \<or> max_query_bytes < length (sq_query request)
       \<or> list_ex (\<lambda>c. c = nl \<or> c = ret \<or> c = CHR 0x00) (sq_query request)
     then (Inl InvalidQuery, b)
     else if sq_max_results request = 0 \<or> rl_max_search_matches (tb_limits tb) < sq_max_results request
     then (Inl ResultLimit, b)
     else
       and_lift (search_candidates tb request) b (\<lambda>candidates.
       and_run (charge (clamp_word (length candidates)) (reserved_bytes tb candidates) now b) (\<lambda>_ b.
       and_lift (search_loop fs tb request token candidates empty_scan) b (\<lambda>s.
       (Inr \<lparr>sr_matches = sn_matches s, sr_scanned_files = sn_scanned_files s,
          sr_skipped_files = sn_skipped_files s, sr_truncated = sn_truncated s\<rparr>, b)))))"

section \<open>Showing a diff\<close>

record diff_result =
  df_path :: relative_path
  df_content :: string

definition show_diff ::
    "toolbox \<Rightarrow> relative_path \<Rightarrow> cancellation_token \<Rightarrow> u64 \<Rightarrow> agent_budget
      \<Rightarrow> (repository_error + diff_result) \<times> agent_budget" where
  "show_diff tb path token now b =
     and_lift (repo_check_cancelled token) b (\<lambda>_.
     and_lift (ok_or RepoDiffUnavailable (map_of (tb_diffs tb) path)) b (\<lambda>content.
     if rl_max_diff_bytes (tb_limits tb) < clamp_word (length content) then (Inl RepoDiffTooLarge, b)
     else
       and_run (charge 1 (clamp_word (length content)) now b) (\<lambda>_ b.
       (Inr \<lparr>df_path = path, df_content = content\<rparr>, b))))"

end
