(* ===== verification/Repository_Inventory.thy ===== *)
theory Repository_Inventory
  imports Repository
begin

text \<open>
  The inventory of a checkout is safe (only regular files with one link, never through a
  symbolic link or into \<open>.git\<close>, within the limits) and honest (one that calls itself
  complete has every file below the root).
\<close>

section \<open>Induction over a walk\<close>

abbreviation count_one :: "walk \<Rightarrow> walk" where
  "count_one w \<equiv> w\<lparr>wk_entries := saturating_add (wk_entries w) 1\<rparr>"

lemma poll_Inr: "and_then (repo_check_cancelled token) f = Inr x \<longleftrightarrow> repo_check_cancelled token = Inr () \<and> f () = Inr x"
  by (auto simp: result_simps)

lemma walk_entries_Cons:
  assumes "walk_entries fs l token dir depth (name # names) w = Inr w'"
  obtains (full) "rl_max_inventory_entries l \<le> wk_entries w"
      "walk_entries fs l token dir depth names (note_gap GapEntryLimit w) = Inr w'"
    | (git) "\<not> rl_max_inventory_entries l \<le> wk_entries w" "is_dot_git name"
      "walk_entries fs l token dir depth names (count_one w) = Inr w'"
    | (unknown) "\<not> rl_max_inventory_entries l \<le> wk_entries w" "\<not> is_dot_git name"
      "fs_symlink_metadata fs (dir @ [name]) = None"
      "walk_entries fs l token dir depth names (note_gap GapMetadataUnavailable (count_one w)) = Inr w'"
    | (link) m where "\<not> rl_max_inventory_entries l \<le> wk_entries w" "\<not> is_dot_git name"
      "fs_symlink_metadata fs (dir @ [name]) = Some m" "md_kind m = SymbolicLink"
      "walk_entries fs l token dir depth names (note_gap GapSymbolicLink (count_one w)) = Inr w'"
    | (sub) m w2 where "\<not> rl_max_inventory_entries l \<le> wk_entries w" "\<not> is_dot_git name"
      "fs_symlink_metadata fs (dir @ [name]) = Some m" "md_kind m = Directory" "md_kind m \<noteq> SymbolicLink"
      "walk_directory fs l token (dir @ [name]) (saturating_add depth 1) (count_one w) = Inr w2"
      "walk_entries fs l token dir depth names w2 = Inr w'"
    | (other) m where "\<not> rl_max_inventory_entries l \<le> wk_entries w" "\<not> is_dot_git name"
      "fs_symlink_metadata fs (dir @ [name]) = Some m" "md_kind m \<noteq> SymbolicLink" "md_kind m \<noteq> Directory"
      "walk_entries fs l token dir depth names (admit_entry l (dir @ [name]) m (count_one w)) = Inr w'"
  using assms unfolding walk_entries.simps(2) poll_Inr Let_def
  by (auto simp: and_then_Inr split: if_splits option.splits)

lemma walk_directory_cases:
  assumes "walk_directory fs l token dir depth w = Inr w'"
  obtains (deep) "repo_check_cancelled token = Inr ()" "rl_max_inventory_depth l < depth" "w' = note_gap GapDepthLimit w"
    | (unreadable) "fs_read_dir fs dir = None" "dir \<noteq> []" "w' = note_gap GapDirectoryUnavailable w"
    | (entries) es where "repo_check_cancelled token = Inr ()" "\<not> rl_max_inventory_depth l < depth" "fs_read_dir fs dir = Some es"
      "walk_entries fs l token dir depth (sort (fst (collect_directory_entries es w)))
         (snd (collect_directory_entries es w)) = Inr w'"
  using assms unfolding walk_directory.simps poll_Inr by (auto split: if_splits option.splits)

lemma polled: "walk_entries fs l token dir depth (name # names) w = Inr w' \<Longrightarrow> repo_check_cancelled token = Inr ()"
  unfolding walk_entries.simps(2) poll_Inr by simp

text \<open>A predicate that the steps of the walk keep.\<close>

locale walk_invariant =
  fixes fs :: file_system and l :: repository_limits and I :: "walk \<Rightarrow> bool"
  assumes gap: "I w \<Longrightarrow> I (note_gap r w)"
    and count: "I w \<Longrightarrow> \<not> rl_max_inventory_entries l \<le> wk_entries w \<Longrightarrow> I (count_one w)"
    and admit: "I w \<Longrightarrow> fs_symlink_metadata fs path = Some m \<Longrightarrow> I (admit_entry l path m w)"
begin

lemma collect: "I w \<Longrightarrow> I (snd (collect_directory_entries es w))"
proof -
  have "I w \<Longrightarrow> I (fold (\<lambda>e. if e = None then note_gap GapMetadataUnavailable else id) es w)" for w
    by (induction es arbitrary: w) (simp_all add: gap)
  then show "I w \<Longrightarrow> I (snd (collect_directory_entries es w))" by (simp add: collect_directory_entries_def)
qed

lemma walk:
  "g = fs \<Longrightarrow> k = l \<Longrightarrow> walk_directory g k token dir depth w = Inr w' \<Longrightarrow> I w \<Longrightarrow> I w'"
  "g = fs \<Longrightarrow> k = l \<Longrightarrow> walk_entries g k token dir depth names w = Inr w' \<Longrightarrow> I w \<Longrightarrow> I w'"
proof (induction g k token dir depth w and g k token dir depth names w arbitrary: w' and w'
    rule: walk_directory_walk_entries.induct)
  case (1 g k token dir depth w)
  from "1.prems"(3) show ?case
  proof (cases rule: walk_directory_cases)
    case (entries es)
    then show ?thesis using "1.IH" "1.prems" collect by simp
  qed (use "1.prems" gap in auto)
next
  case (2 g k token dir depth w)
  then show ?case by simp
next
  case (3 g k token dir depth name names w)
  note poll = polled [OF "3.prems"(3)]
  from "3.prems"(3) show ?case
  proof (cases rule: walk_entries_Cons)
    case full
    then show ?thesis using "3.IH"(1) [OF poll] "3.prems" gap by simp
  next
    case git
    then show ?thesis using "3.IH"(2) [OF poll] "3.prems" count by simp
  next
    case unknown
    then show ?thesis using "3.IH"(3) [OF poll] "3.prems" count gap by simp
  next
    case (link m)
    then show ?thesis using "3.IH"(4) [OF poll] "3.prems" count gap by simp
  next
    case (sub m w2)
    have "I (count_one w)" using "3.prems" sub(1) count by simp
    then have "I w2" using "3.IH"(5) [OF poll _ refl _ sub(3)] sub "3.prems"(1,2) by simp
    then show ?thesis using "3.IH"(6) [OF poll _ refl _ sub(3) sub(5,4)] sub "3.prems"(1,2) by simp
  next
    case (other m)
    then show ?thesis using "3.IH"(7) [OF poll] "3.prems" count admit by simp
  qed
qed

end

section \<open>Normalized paths\<close>

definition normal_name :: "string \<Rightarrow> bool" where
  "normal_name s \<longleftrightarrow> s \<noteq> [] \<and> s \<noteq> ''.'' \<and> s \<noteq> ''..'' \<and> \<not> is_dot_git s"

definition normal_path :: "string \<Rightarrow> bool" where
  "normal_path v \<longleftrightarrow> CHR 0x00 \<notin> set v \<and> list_all normal_name (split_on (CHR ''/'') v)"

lemma normal_components_Inr:
  "try_fold normal_component cs acc = Inr ws \<longleftrightarrow>
     (\<exists>us. cs = map NormalComponent us \<and> [] \<notin> set us \<and> ws = acc @ us)"
proof (induction cs arbitrary: acc)
  case (Cons c cs)
  show ?case
  proof (cases c)
    case (NormalComponent s)
    have "(\<exists>us. NormalComponent s # cs = map NormalComponent us \<and> [] \<notin> set us \<and> ws = acc @ us) \<longleftrightarrow>
        s \<noteq> [] \<and> (\<exists>us. cs = map NormalComponent us \<and> [] \<notin> set us \<and> ws = acc @ s # us)"
      by (auto simp: Cons_eq_map_conv)
    then show ?thesis using NormalComponent Cons [of "acc @ [s]"] by simp
  qed (auto simp: Cons_eq_map_conv)
qed auto

lemma relative_path_Inr: "relative_path_try_from v = Inr p \<longleftrightarrow> p = v \<and> normal_path v"
proof
  assume "relative_path_try_from v = Inr p"
  then obtain us where us: "path_components v = map NormalComponent us" "[] \<notin> set us" "us \<noteq> []"
      "\<not> list_ex is_dot_git us" "join ''/'' us = v" "p = v" "CHR 0x00 \<notin> set v"
    by (auto simp: relative_path_try_from_def result_simps normal_components_Inr Let_def split: if_splits)
  obtain w ws where split: "split_on (CHR ''/'') v = w # ws" by (cases "split_on (CHR ''/'') v") auto
  have dots: "s \<noteq> ''.'' \<and> s \<noteq> ''..'' \<and> CHR ''/'' \<notin> set s" if "s \<in> set us" for s
  proof -
    have "NormalComponent s \<in> set (path_components v)" using us(1) that by simp
    then show ?thesis
      using split split_on_free [of s "CHR ''/''" v] by (auto simp: path_components_def split: if_splits)
  qed
  then have "split_on (CHR ''/'') v = us"
    using us(3,5) split_on_join_words [of us "CHR ''/''"] by (simp add: list_all_iff)
  then show "p = v \<and> normal_path v"
    using us dots by (auto simp: normal_path_def normal_name_def list_all_iff list_ex_iff)
next
  assume v: "p = v \<and> normal_path v"
  let ?us = "split_on (CHR ''/'') v"
  have names: "normal_name u" if "u \<in> set ?us" for u using v that by (simp add: normal_path_def list_all_iff)
  obtain w ws where split: "?us = w # ws" by (cases ?us) auto
  have "filter (\<lambda>s. s \<noteq> [] \<and> s \<noteq> ''.'') ws = ws"
    using names split by (intro filter_True) (auto simp: normal_name_def)
  moreover have "map (\<lambda>s. if s = ''..'' then ParentDir else NormalComponent s) ws = map NormalComponent ws"
    using names split by (auto simp: normal_name_def)
  ultimately have "path_components v = map NormalComponent ?us"
    using names [of w] split by (auto simp: path_components_def normal_name_def)
  then have fold: "try_fold normal_component (path_components v) [] = Inr ?us"
    using names by (auto simp: normal_components_Inr normal_name_def)
  have v': "v \<noteq> []" "\<not> starts_with ''/'' v"
  proof -
    show "v \<noteq> []" using names [of w] split by (auto simp: normal_name_def)
    show "\<not> starts_with ''/'' v"
      using names [of "[]"] by (auto simp: starts_with_append normal_name_def)
  qed
  moreover have "\<not> list_ex is_dot_git ?us" using names by (auto simp: list_ex_iff normal_name_def)
  ultimately show "relative_path_try_from v = Inr p"
    using v fold by (simp add: relative_path_try_from_def normal_path_def Let_def split_on_join)
qed

lemma relative_path_ok: "normal_path v \<Longrightarrow> relative_path_try_from v = Inr v"
  by (simp add: relative_path_Inr)

section \<open>What the walk admits\<close>

definition admitted :: "file_system \<Rightarrow> repository_file \<Rightarrow> metadata \<Rightarrow> bool" where
  "admitted fs f m \<longleftrightarrow>
     normal_path (rf_path f) \<and> (\<exists>path. rf_path f = join ''/'' path \<and> fs_symlink_metadata fs path = Some m) \<and>
     md_kind m = RegularFile \<and> md_nlink m = 1 \<and> md_len m = rf_size_bytes f"

definition walk_safe :: "file_system \<Rightarrow> repository_limits \<Rightarrow> walk \<Rightarrow> bool" where
  "walk_safe fs l w \<longleftrightarrow>
     length (wk_files w) \<le> unat (rl_max_inventory_files l) \<and>
     wk_entries w \<le> rl_max_inventory_entries l \<and>
     list_all (\<lambda>f. \<exists>m. admitted fs f m) (wk_files w) \<and>
     bt_wf (wk_identities w) \<and>
     (\<forall>p v. map_of (wk_identities w) p = Some v \<longrightarrow>
        (\<exists>m. admitted fs (iv_public v) m \<and> v = inventoried p m)) \<and>
     fst ` set (wk_identities w) = rf_path ` set (wk_files w)"

lemma walk_safe_cong: "walk_safe fs l (w\<lparr>wk_reasons := r, wk_omitted := n\<rparr>) = walk_safe fs l w"
  by (simp add: walk_safe_def)

lemma walk_safe_gap: "walk_safe fs l w \<Longrightarrow> walk_safe fs l (note_gap r w)"
  by (simp add: note_gap_def walk_safe_cong)

lemma walk_safe_admit:
  assumes "walk_safe fs l w" and m: "fs_symlink_metadata fs path = Some m"
  shows "walk_safe fs l (admit_entry l path m w)"
proof (cases "md_kind m \<noteq> RegularFile \<or> md_nlink m \<noteq> 1 \<or> unat (rl_max_inventory_files l) \<le> length (wk_files w)
    \<or> \<not> utf8_valid (join ''/'' path) \<or> \<not> normal_path (join ''/'' path)")
  case True
  then show ?thesis
    using walk_safe_gap [OF assms(1)] by (auto simp: admit_entry_def Let_def relative_path_Inr split: sum.split)
next
  case False
  let ?p = "join ''/'' path"
  have "relative_path_try_from ?p = Inr ?p" using False by (simp add: relative_path_Inr)
  then have admit: "admit_entry l path m w = add_file ?p m w" using False by (simp add: admit_entry_def)
  have new: "admitted fs (iv_public (inventoried ?p m)) m"
    using False m by (auto simp: admitted_def inventoried_def)
  have wf: "bt_wf (wk_identities w)" using assms(1) by (simp add: walk_safe_def)
  show ?thesis
    unfolding admit using assms(1) False new
    by (auto simp: walk_safe_def add_file_def bt_wf_insert map_of_bt_insert [OF wf] set_fst_bt_insert)
      (auto simp: inventoried_def)
qed

lemma walk_safe_count:
  assumes "walk_safe fs l w" and "\<not> rl_max_inventory_entries l \<le> wk_entries w"
  shows "walk_safe fs l (count_one w)"
proof -
  have "unat (saturating_add (wk_entries w) 1) = Suc (unat (wk_entries w))"
    using assms(2) by (intro count_entry) (simp add: not_le)
  then have "saturating_add (wk_entries w) 1 \<le> rl_max_inventory_entries l"
    using assms(2) by (simp add: word_le_nat_alt)
  then show ?thesis using assms(1) by (simp add: walk_safe_def)
qed

interpretation safe: walk_invariant fs l "walk_safe fs l" for fs l
  by unfold_locales (auto intro: walk_safe_gap walk_safe_count walk_safe_admit)

lemma walk_safe_empty: "walk_safe fs l empty_walk"
  by (simp add: walk_safe_def empty_walk_def bt_wf_def)

section \<open>The walk only adds\<close>

definition extends :: "walk \<Rightarrow> walk \<Rightarrow> bool" where
  "extends w w' \<longleftrightarrow> set (wk_files w) \<subseteq> set (wk_files w') \<and> wk_reasons w \<subseteq> wk_reasons w'"

lemma extends_gap: "extends u w \<Longrightarrow> extends u (note_gap r w)"
  by (auto simp: extends_def note_gap_def)

interpretation grow: walk_invariant fs l "extends u" for fs l u
proof unfold_locales
  fix w path m
  assume u: "extends u w"
  then have "extends u (add_file p m w)" for p by (auto simp: extends_def add_file_def)
  then show "extends u (admit_entry l path m w)"
    using extends_gap [OF u] by (simp add: admit_entry_def Let_def split: sum.split)
next
  show "extends u w \<Longrightarrow> extends u (note_gap r w)" for w r by (rule extends_gap)
qed (auto simp: extends_def)

lemma walk_extends:
  "walk_directory fs l token dir depth w = Inr w' \<Longrightarrow> extends w w'"
  "walk_entries fs l token dir depth names w = Inr w' \<Longrightarrow> extends w w'"
  using grow.walk [OF refl refl] by (auto simp: extends_def)

lemma gap_stays: "extends (note_gap r w) w' \<Longrightarrow> wk_reasons w' \<noteq> {}"
  by (auto simp: extends_def note_gap_def)

section \<open>A complete inventory misses nothing\<close>

text \<open>The entries a directory lists, and the directories below one.\<close>

definition lists :: "file_system \<Rightarrow> string list \<Rightarrow> string \<Rightarrow> bool" where
  "lists fs dir name \<longleftrightarrow>
     (\<exists>es. fs_read_dir fs dir = Some es \<and> Some name \<in> set es) \<and> \<not> is_dot_git name"

inductive below :: "file_system \<Rightarrow> string list \<Rightarrow> string list \<Rightarrow> bool" for fs where
  here: "below fs dir dir"
| sub: "lists fs dir name \<Longrightarrow> fs_symlink_metadata fs (dir @ [name]) = Some m \<Longrightarrow> md_kind m = Directory \<Longrightarrow>
    below fs (dir @ [name]) d \<Longrightarrow> below fs dir d"

text \<open>An entry that is represented: a directory, or a regular file in the inventory.\<close>

definition represented :: "file_system \<Rightarrow> repository_file set \<Rightarrow> string list \<Rightarrow> bool" where
  "represented fs files path \<longleftrightarrow>
     (\<exists>m. fs_symlink_metadata fs path = Some m \<and>
        (md_kind m = Directory \<or>
         md_kind m = RegularFile \<and> \<lparr>rf_path = join ''/'' path, rf_size_bytes = md_len m\<rparr> \<in> files))"

definition all_listed :: "file_system \<Rightarrow> repository_file set \<Rightarrow> string list \<Rightarrow> bool" where
  "all_listed fs files dir \<longleftrightarrow>
     (\<exists>es. fs_read_dir fs dir = Some es \<and> None \<notin> set es) \<and>
     (\<forall>name. lists fs dir name \<longrightarrow> represented fs files (dir @ [name]))"

lemma represented_mono: "represented fs A path \<Longrightarrow> A \<subseteq> B \<Longrightarrow> represented fs B path"
  by (auto simp: represented_def)

lemma all_listed_mono: "all_listed fs A d \<Longrightarrow> A \<subseteq> B \<Longrightarrow> all_listed fs B d"
  by (auto simp: all_listed_def intro: represented_mono)

lemma collect_reasons: "wk_reasons (snd (collect_directory_entries es w)) = {} \<Longrightarrow> None \<notin> set es"
proof -
  let ?f = "\<lambda>e. if e = None then note_gap GapMetadataUnavailable else id"
  have keep: "wk_reasons w \<subseteq> wk_reasons (fold ?f es w)" for es w
  proof (induction es arbitrary: w)
    case (Cons e es)
    have "wk_reasons w \<subseteq> wk_reasons (?f e w)" by (auto simp: note_gap_def)
    then show ?case using Cons [of "?f e w"] by (simp only: fold_Cons comp_apply)
  qed simp
  have "wk_reasons (fold ?f es w) \<noteq> {}" if "None \<in> set es" for w
    using that
  proof (induction es arbitrary: w)
    case (Cons e es)
    then show ?case using keep [of "note_gap GapMetadataUnavailable w" es] by (cases e) (auto simp: note_gap_def)
  qed simp
  then show "wk_reasons (snd (collect_directory_entries es w)) = {} \<Longrightarrow> None \<notin> set es"
    by (auto simp: collect_directory_entries_def)
qed

lemma collected: "Some name \<in> set es \<longleftrightarrow> name \<in> set (sort (fst (collect_directory_entries es w)))"
proof -
  have "Some name \<in> set es \<longleftrightarrow> name \<in> set (List.map_filter (\<lambda>e. e) es)"
    by (induction es) (auto simp: map_filter_simps split: option.splits)
  then show ?thesis by (simp add: collect_directory_entries_def)
qed

lemma admit_no_gap:
  "wk_reasons (admit_entry l path m w) = {} \<Longrightarrow> md_kind m = RegularFile \<and>
     \<lparr>rf_path = join ''/'' path, rf_size_bytes = md_len m\<rparr> \<in> set (wk_files (admit_entry l path m w))"
  by (auto simp: admit_entry_def Let_def note_gap_def add_file_def inventoried_def relative_path_Inr relative_path_ok
      split: if_splits sum.splits)

lemma complete_walk:
  "walk_directory fs l token dir depth w = Inr w' \<Longrightarrow> wk_reasons w' = {} \<Longrightarrow> below fs dir d \<Longrightarrow>
     all_listed fs (set (wk_files w')) d"
  "walk_entries fs l token dir depth names w = Inr w' \<Longrightarrow> wk_reasons w' = {} \<Longrightarrow> name \<in> set names \<Longrightarrow>
     \<not> is_dot_git name \<Longrightarrow>
     represented fs (set (wk_files w')) (dir @ [name]) \<and>
     (\<forall>m d. fs_symlink_metadata fs (dir @ [name]) = Some m \<longrightarrow> md_kind m = Directory \<longrightarrow> below fs (dir @ [name]) d \<longrightarrow>
        all_listed fs (set (wk_files w')) d)"
proof (induction fs l token dir depth w and fs l token dir depth names w arbitrary: w' d and w' name
    rule: walk_directory_walk_entries.induct)
  case (1 fs l token dir depth w)
  from "1.prems"(1) show ?case
  proof (cases rule: walk_directory_cases)
    case (entries es)
    note IH = "1.IH" [OF entries, OF "1.prems"(2)]
    have "wk_reasons (snd (collect_directory_entries es w)) = {}"
      using walk_extends(2) [OF entries(4)] "1.prems"(2) by (simp add: extends_def)
    then have readable: "fs_read_dir fs dir = Some es \<and> None \<notin> set es"
      using entries(3) collect_reasons by blast
    have listed: "name \<in> set (sort (fst (collect_directory_entries es w)))" "\<not> is_dot_git name" if "lists fs dir name" for name
      using that entries(3) collected [of name es w] by (auto simp: lists_def)
    from "1.prems"(3) show ?thesis
    proof cases
      case here
      then show ?thesis using readable IH listed by (auto simp: all_listed_def)
    next
      case (sub name m)
      then show ?thesis using IH [OF listed] by blast
    qed
  qed (use "1.prems" note_gap_def in \<open>auto simp: note_gap_def\<close>)
next
  case (2 fs l token dir depth w)
  then show ?case by simp
next
  case (3 fs l token dir depth first names w)
  note poll = polled [OF "3.prems"(1)] and clean = "3.prems"(2) and git = "3.prems"(4)
  from "3.prems"(1) show ?case
  proof (cases rule: walk_entries_Cons)
    case full
    then show ?thesis using walk_extends(2) [OF full(2)] gap_stays clean by blast
  next
    case dot: git
    then have "name \<in> set names" using "3.prems"(3) git by auto
    then show ?thesis using "3.IH"(2) [OF poll dot(1) refl dot(2) dot(3) clean _ git] by blast
  next
    case unknown
    then show ?thesis using walk_extends(2) [OF unknown(4)] gap_stays clean by blast
  next
    case (link m)
    then show ?thesis using walk_extends(2) [OF link(5)] gap_stays clean by blast
  next
    case (sub m w2)
    have grow: "set (wk_files w2) \<subseteq> set (wk_files w')" "wk_reasons w2 = {}"
      using walk_extends(2) [OF sub(7)] clean by (auto simp: extends_def)
    note dirs = "3.IH"(5) [OF poll sub(1) refl sub(2,3,5,4,6) grow(2)]
    note rest = "3.IH"(6) [OF poll sub(1) refl sub(2,3,5,4,6,7) clean]
    show ?thesis
    proof (cases "name = first")
      case True
      then show ?thesis using sub(3,4) dirs all_listed_mono [OF _ grow(1)] by (auto simp: represented_def)
    next
      case False
      then show ?thesis using rest [OF _ git] "3.prems"(3) by simp
    qed
  next
    case (other m)
    note rest = "3.IH"(7) [OF poll other(1) refl other(2-5,6) clean]
    have grow: "set (wk_files (admit_entry l (dir @ [first]) m (count_one w))) \<subseteq> set (wk_files w')"
        "wk_reasons (admit_entry l (dir @ [first]) m (count_one w)) = {}"
      using walk_extends(2) [OF other(6)] clean by (auto simp: extends_def)
    show ?thesis
    proof (cases "name = first")
      case True
      then show ?thesis using other(3,5) admit_no_gap [OF grow(2)] grow(1) by (auto simp: represented_def)
    next
      case False
      then show ?thesis using rest [OF _ git] "3.prems"(3) by simp
    qed
  qed
qed

text \<open>
  \<^bold>\<open>C28.\<close>  An inventory is safe and honest, whatever the file system answers.  It holds at
  most the allowed number of files, each under a normalized path that never enters
  \<open>.git\<close>, a regular file with one link and the size the system reported.  And when it
  calls itself complete, every directory below the root was read, and every entry listed
  there is a directory or is in the inventory: nothing was skipped silently.  Entries named
  \<open>.git\<close> are left out by design and do not count.
\<close>

theorem inventory_is_safe_and_honest:
  assumes "build_inventory fs l token = Inr (inventory, files)"
  shows "length (ri_files inventory) \<le> unat (rl_max_inventory_files l) \<and>
    sorted (map rf_path (ri_files inventory)) \<and>
    list_all (\<lambda>f. \<exists>m. admitted fs f m) (ri_files inventory) \<and>
    (\<forall>p. map_of files p \<noteq> None \<longleftrightarrow> p \<in> rf_path ` set (ri_files inventory)) \<and>
    (ri_coverage inventory = InventoryComplete \<longrightarrow>
       (\<forall>dir. below fs [] dir \<longrightarrow> all_listed fs (set (ri_files inventory)) dir))"
proof -
  obtain w where walk: "walk_directory fs l token [] 0 empty_walk = Inr w"
    and result: "ri_files inventory = sort_key rf_path (wk_files w)" "ri_coverage inventory = walk_coverage w"
      "files = wk_identities w"
    using assms by (auto simp: build_inventory_def result_simps)
  have "walk_safe fs l w" using safe.walk(1) [OF refl refl walk walk_safe_empty] .
  then have "length (wk_files w) \<le> unat (rl_max_inventory_files l)"
      "list_all (\<lambda>f. \<exists>m. admitted fs f m) (wk_files w)" "fst ` set (wk_identities w) = rf_path ` set (wk_files w)"
    by (simp_all add: walk_safe_def)
  moreover have "all_listed fs (set (wk_files w)) dir" if "ri_coverage inventory = InventoryComplete" "below fs [] dir" for dir
    using complete_walk(1) [OF walk _ that(2)] that(1) result(2) by (simp add: walk_coverage_def split: if_splits)
  ultimately show ?thesis
    unfolding result by (simp add: list_all_iff map_of_eq_None_iff)
qed

text \<open>A checkout with one file beside its \<open>.git\<close>.\<close>

definition example_metadata :: "file_kind \<Rightarrow> metadata" where
  "example_metadata k = \<lparr>md_kind = k, md_len = 1, md_nlink = 1, md_dev = 1, md_ino = 1, md_ctime = 0, md_ctime_nsec = 0\<rparr>"

definition example_file_system :: file_system where
  "example_file_system =
     \<lparr>fs_root_is_dir = Some True,
      fs_read_dir = (\<lambda>p. if p = [] then Some [Some ''a'', Some ''.git''] else None),
      fs_symlink_metadata = (\<lambda>p. if p = [''a''] then Some (example_metadata RegularFile) else None),
      fs_open = (\<lambda>p. if p = [''a''] then Some \<lparr>of_metadata = Some (example_metadata RegularFile),
        of_content = Some ''x'', of_final_metadata = Some (example_metadata RegularFile)\<rparr> else None)\<rparr>"

definition example_inventory :: inventory_result where
  "example_inventory =
     (\<lparr>ri_files = [\<lparr>rf_path = ''a'', rf_size_bytes = 1\<rparr>], ri_coverage = InventoryComplete\<rparr>,
      [(''a'', inventoried ''a'' (example_metadata RegularFile))])"

lemma example_normal: "normal_path ''a''"
  by (simp add: normal_path_def normal_name_def is_dot_git_def ascii_lowercase_def to_ascii_lowercase_def is_ascii_uppercase_def)

lemma example_names: "is_dot_git ''.git''" "\<not> is_dot_git ''a''"
  by (simp_all add: is_dot_git_def ascii_lowercase_def to_ascii_lowercase_def is_ascii_uppercase_def)

lemma example_utf8: "utf8_valid ''a''" "utf8_valid ''x''"
  by (simp_all add: utf8_valid_def utf8_valid_up_to.simps)

lemma example_built: "build_inventory example_file_system default_repository_limits None = Inr example_inventory"
  by (simp add: word_le_nat_alt Let_def build_inventory_def walk_directory.simps walk_entries.simps(2) repo_check_cancelled_def is_cancelled_def
      collect_directory_entries_def map_filter_simps example_file_system_def default_repository_limits_def empty_walk_def
      saturating_add_def example_names admit_entry_def example_metadata_def example_utf8 relative_path_ok [OF example_normal]
      add_file_def inventoried_def example_inventory_def walk_coverage_def)

theorem inventory_is_safe_and_honest_witness:
  "all_listed example_file_system {\<lparr>rf_path = ''a'', rf_size_bytes = 1\<rparr>} []"
  using inventory_is_safe_and_honest [OF example_built [unfolded example_inventory_def]] by (simp add: below.here)

end
