(* ===== verification/Repository_Tools.thy ===== *)
theory Repository_Tools
  imports Repository_Inventory
begin

text \<open>
  What the tools return: a read returns exactly the wanted lines of an inventoried,
  unchanged file as far as they fit, and a search returns real matches only, all of them
  when it does not call itself truncated.
\<close>

section \<open>Selecting lines\<close>

text \<open>The first lines that fit.\<close>

fun fitting :: "nat \<Rightarrow> nat \<Rightarrow> string list \<Rightarrow> string list" where
  "fitting used bound [] = []"
| "fitting used bound (l # ls) =
     (if bound < used + length l then [] else l # fitting (used + length l) bound ls)"

lemma fitting_prefix: "prefix (fitting used bound ls) ls"
  by (induction used bound ls rule: fitting.induct) auto

lemma fitting_length: "used \<le> bound \<Longrightarrow> used + length (concat (fitting used bound ls)) \<le> bound"
  by (induction used bound ls rule: fitting.induct) auto

lemma unat_line_number: "index < 2 ^ 32 - 1 \<Longrightarrow> unat (line_number index) = Suc index"
  by (simp add: line_number_def unat_saturating_add clamp_word_small)

lemma select_loop_from:
  assumes "index + length ls < 2 ^ 32" and "unat (lg_start r) \<le> Suc index" and "unat last_line = index"
  shows "\<exists>last'. select_loop r bound index ls (content, last_line, False) =
      (content @ concat (fitting (length content) (unat bound) (take (unat (lg_end r) - index) ls)), last',
       fitting (length content) (unat bound) (take (unat (lg_end r) - index) ls) \<noteq> take (unat (lg_end r) - index) ls) \<and>
    unat last' = index + length (fitting (length content) (unat bound) (take (unat (lg_end r) - index) ls))"
  using assms
proof (induction ls arbitrary: index content last_line)
  case (Cons l ls)
  have n: "unat (line_number index) = Suc index" using Cons.prems(1) by (intro unat_line_number) simp
  have start: "\<not> line_number index < lg_start r" using Cons.prems(2) n by (simp add: word_less_nat_alt)
  have past: "lg_end r < line_number index \<longleftrightarrow> unat (lg_end r) - index = 0"
    using n by (auto simp: word_less_nat_alt)
  show ?case
  proof (cases "unat (lg_end r) - index")
    case 0
    then show ?thesis using start past Cons.prems(3) by auto
  next
    case (Suc k)
    then have k: "unat (lg_end r) - Suc index = k" by simp
    have on: "\<not> lg_end r < line_number index" using past Suc by simp
    show ?thesis
    proof (cases "unat bound < length content + length l")
      case True
      then show ?thesis using start on Suc Cons.prems(3) by auto
    next
      case False
      have "\<exists>last'. select_loop r bound (Suc index) ls (content @ l, line_number index, False) =
          ((content @ l) @ concat (fitting (length (content @ l)) (unat bound) (take k ls)), last',
           fitting (length (content @ l)) (unat bound) (take k ls) \<noteq> take k ls) \<and>
          unat last' = Suc index + length (fitting (length (content @ l)) (unat bound) (take k ls))"
        using Cons.IH [of "Suc index" "line_number index" "content @ l"] Cons.prems n unfolding k by simp
      then show ?thesis using start on Suc False by auto
    qed
  qed
qed auto

lemma select_loop_skip:
  assumes "index + length ls < 2 ^ 32" and "index + k + 1 = unat (lg_start r)"
  shows "select_loop r bound index ls s = select_loop r bound (index + k) (drop k ls) s"
  using assms
proof (induction k arbitrary: index ls)
  case (Suc k)
  show ?case
  proof (cases ls)
    case (Cons l ls')
    obtain c last t where s: "s = (c, last, t)" by (cases s)
    have "unat (line_number index) = Suc index" using Suc.prems(1) Cons by (intro unat_line_number) simp
    then have "line_number index < lg_start r" using Suc.prems(2) by (simp add: word_less_nat_alt)
    then show ?thesis using Suc.IH [of "Suc index" ls'] Suc.prems Cons s by simp
  qed simp
qed simp

definition wanted_lines :: "line_range \<Rightarrow> string \<Rightarrow> string list" where
  "wanted_lines r text = take (Suc (unat (lg_end r)) - unat (lg_start r)) (drop (unat (lg_start r) - 1) (split_inclusive text))"

lemma select_lines_Inr:
  assumes "select_lines text r bound = Inr (content, last_line, truncated)" and "range_valid r"
    and "length (split_inclusive text) < 2 ^ 32"
  shows "content = concat (fitting 0 (unat bound) (wanted_lines r text))"
    "truncated \<longleftrightarrow> fitting 0 (unat bound) (wanted_lines r text) \<noteq> wanted_lines r text"
    "unat last_line = unat (lg_start r) - 1 + length (fitting 0 (unat bound) (wanted_lines r text))"
proof -
  have s: "0 < unat (lg_start r)" "lg_start r \<noteq> 0" "unat (lg_start r) \<le> unat (lg_end r)"
    using assms(2) by (simp_all add: range_valid_def word_less_nat_alt word_le_nat_alt) (use assms(2) in \<open>auto simp: range_valid_def\<close>)
  have sub: "unat (saturating_sub (lg_start r) 1) = unat (lg_start r) - 1"
    using s by (simp add: saturating_sub_def unat_sub word_less_nat_alt word_le_nat_alt)
  have wanted: "take (unat (lg_end r) - (unat (lg_start r) - 1)) (drop (unat (lg_start r) - 1) (split_inclusive text)) = wanted_lines r text"
    using s by (simp add: wanted_lines_def Suc_diff_le)
  have run: "select_loop r bound 0 (split_inclusive text) ([], saturating_sub (lg_start r) 1, False) = (content, last_line, truncated)"
    using assms(1) by (auto simp: select_lines_def split: prod.splits if_splits)
  also have "select_loop r bound 0 (split_inclusive text) ([], saturating_sub (lg_start r) 1, False) =
      select_loop r bound (unat (lg_start r) - 1) (drop (unat (lg_start r) - 1) (split_inclusive text)) ([], saturating_sub (lg_start r) 1, False)"
    using select_loop_skip [of 0 "split_inclusive text" "unat (lg_start r) - 1" r] assms(3) s by simp
  finally have "select_loop r bound (unat (lg_start r) - 1) (drop (unat (lg_start r) - 1) (split_inclusive text))
      ([], saturating_sub (lg_start r) 1, False) = (content, last_line, truncated)" .
  moreover have "unat (lg_start r) - 1 + length (drop (unat (lg_start r) - 1) (split_inclusive text)) < 2 ^ 32"
    using assms(3) s(1) unsigned_less [of "lg_start r", where ?'a = nat] by (simp add: not_le)
  ultimately show "content = concat (fitting 0 (unat bound) (wanted_lines r text))"
    "truncated \<longleftrightarrow> fitting 0 (unat bound) (wanted_lines r text) \<noteq> wanted_lines r text"
    "unat last_line = unat (lg_start r) - 1 + length (fitting 0 (unat bound) (wanted_lines r text))"
    using select_loop_from [of "unat (lg_start r) - 1" "drop (unat (lg_start r) - 1) (split_inclusive text)" r
        "saturating_sub (lg_start r) 1" bound "[]"] s sub unfolding wanted by auto
qed

lemma split_inclusive_concat: "concat (split_inclusive s) = s"
proof (induction s)
  case (Cons b s)
  obtain w ws where ws: "split_on nl s = w # ws" by (cases "split_on nl s") auto
  then show ?case using Cons by (cases ws) (auto simp: split_inclusive_def Let_def)
qed (simp add: split_inclusive_def)

lemma split_inclusive_length: "length (split_inclusive s) \<le> length s"
proof -
  have "list_all (\<lambda>l. l \<noteq> []) (split_inclusive s)"
    by (auto simp: split_inclusive_def Let_def list_all_iff)
  moreover have "list_all (\<lambda>l. l \<noteq> []) ls \<Longrightarrow> length ls \<le> length (concat ls)" for ls :: "string list"
  proof (induction ls)
    case (Cons l ls)
    then show ?case by (cases l) auto
  qed simp
  ultimately show ?thesis by (metis split_inclusive_concat)
qed

section \<open>Reading\<close>

lemma read_inventoried_Inr:
  assumes "read_inventoried fs tb path = Inr bytes"
  obtains expected handle m final content where "map_of (tb_files tb) path = Some expected"
    "fs_open fs (to_path_buf path) = Some handle" "of_metadata handle = Some m" "file_matches expected m"
    "of_final_metadata handle = Some final" "file_matches expected final" "of_content handle = Some content"
    "read_bounded_file (of_content handle) (rl_max_file_bytes (tb_limits tb)) = Inr bytes"
    "md_len m \<le> rl_max_file_bytes (tb_limits tb)"
  using assms
  by (auto simp: read_inventoried_def result_simps read_bounded_file_def not_less split: if_splits option.splits)

lemma read_bounded_Inr:
  assumes "read_bounded_file (Some content) maximum = Inr bytes" and "unat maximum < 2 ^ 64 - 1"
  shows "bytes = content \<and> length content \<le> unat maximum"
proof -
  have n: "unat (saturating_add maximum 1) = Suc (unat maximum)"
    using assms(2) by (simp add: unat_saturating_add)
  let ?t = "take (Suc (unat maximum)) content"
  have t: "length ?t < 2 ^ LENGTH(64)" using assms(2) by (simp add: min_def)
  have "\<not> maximum < clamp_word (length ?t)" and bytes: "bytes = ?t"
    using assms(1) by (auto simp: read_bounded_file_def Let_def n split: if_splits)
  then have "length ?t \<le> unat maximum"
    by (simp only: not_less word_le_nat_alt clamp_word_small [OF t])
  then have "length content \<le> unat maximum" by (simp add: min_def split: if_splits)
  then show ?thesis using bytes by simp
qed

text \<open>
  \<^bold>\<open>C29.\<close>  A read returns what it should and nothing else.  The file is inventoried; it is
  the same regular file with one link before and after reading, and its content is UTF-8
  within the bound.  What is returned is the wanted range of lines up to the first that no
  longer fits the read bound, with the number of the last line and an honest truncation
  flag, and the call was charged to the budget.
\<close>

theorem read_returns_the_wanted_lines:
  assumes read: "read_file fs tb path r token now b = (Inr res, b')"
    and small: "unat (rl_max_file_bytes (tb_limits tb)) < 2 ^ 32"
  shows "\<exists>expected handle bytes. map_of (tb_files tb) path = Some expected \<and>
    fs_open fs (to_path_buf path) = Some handle \<and> of_content handle = Some bytes \<and>
    pred_option (file_matches expected) (of_metadata handle) \<and> of_metadata handle \<noteq> None \<and>
    pred_option (file_matches expected) (of_final_metadata handle) \<and> of_final_metadata handle \<noteq> None \<and>
    utf8_valid bytes \<and> length bytes \<le> unat (rl_max_file_bytes (tb_limits tb)) \<and>
    (let lines = fitting 0 (unat (rl_max_read_bytes (tb_limits tb))) (wanted_lines r bytes) in
       rr_content res = concat lines \<and> length (rr_content res) \<le> unat (rl_max_read_bytes (tb_limits tb)) \<and>
       (rr_truncated res \<longleftrightarrow> lines \<noteq> wanted_lines r bytes) \<and>
       unat (rr_end_line res) = unat (lg_start r) - 1 + length lines) \<and>
    charge 1 (min (rf_size_bytes (iv_public expected)) (rl_max_read_bytes (tb_limits tb))) now b = (Inr (), b')"
proof -
  obtain expected bytes where range: "range_valid r" and expected: "map_of (tb_files tb) path = Some expected"
    and charged: "charge 1 (min (rf_size_bytes (iv_public expected)) (rl_max_read_bytes (tb_limits tb))) now b = (Inr (), b')"
    and bytes: "read_inventoried fs tb path = Inr bytes" "utf8_valid bytes"
    and lines: "select_lines bytes r (rl_max_read_bytes (tb_limits tb)) = Inr (rr_content res, rr_end_line res, rr_truncated res)"
    using read unfolding read_file_def
    by (auto elim!: and_lift_cases and_run_cases simp: result_simps split: if_splits prod.splits)
  obtain handle m final content where handle: "fs_open fs (to_path_buf path) = Some handle" "of_content handle = Some content"
      "of_metadata handle = Some m" "file_matches expected m" "of_final_metadata handle = Some final" "file_matches expected final"
    and got: "read_bounded_file (Some content) (rl_max_file_bytes (tb_limits tb)) = Inr bytes"
    using read_inventoried_Inr [OF bytes(1)] expected by (metis option.inject)
  have content: "bytes = content" "length bytes \<le> unat (rl_max_file_bytes (tb_limits tb))"
    using read_bounded_Inr [OF got] small by simp_all
  then have "length (split_inclusive bytes) < 2 ^ 32"
    using split_inclusive_length [of bytes] small by linarith
  note selected = select_lines_Inr [OF lines range this]
  show ?thesis
    using expected handle bytes(2) content charged selected fitting_length [of 0 "unat (rl_max_read_bytes (tb_limits tb))"]
    by (intro exI [of _ expected] exI [of _ handle] exI [of _ content]) (simp add: Let_def)
qed

definition example_toolbox :: toolbox where
  "example_toolbox = \<lparr>tb_limits = default_repository_limits, tb_inventory = fst example_inventory,
     tb_files = snd example_inventory, tb_diffs = []\<rparr>"

definition example_read :: "(repository_error + read_result) \<times> agent_budget" where
  "example_read = (Inr \<lparr>rr_path = ''a'', rr_start_line = 1, rr_end_line = 1, rr_content = ''x'', rr_truncated = False\<rparr>,
     snd (charge 1 1 400 sample_budget))"

lemma example_charged: "fst (charge 1 1 400 sample_budget) = Inr ()"
  using charge_tool_exact [of 1 1 1 400 sample_budget]
  by (simp add: charge_def split_beta sample_budget_value default_budget_limits_def zero_budget_usage_def)

lemma example_inventoried: "read_inventoried example_file_system example_toolbox ''a'' = Inr ''x''"
  by (simp add: read_inventoried_def example_toolbox_def example_inventory_def example_file_system_def to_path_buf_def
      example_metadata_def file_matches_def inventoried_def read_bounded_file_def default_repository_limits_def
      saturating_add_def clamp_word_def word_less_nat_alt)

lemma example_reads:
  "read_file example_file_system example_toolbox ''a'' \<lparr>lg_start = 1, lg_end = 2\<rparr> None 400 sample_budget = example_read"
proof -
  have selected: "select_lines ''x'' \<lparr>lg_start = 1, lg_end = 2\<rparr> 262144 = Inr (''x'', 1, False)"
    by (simp add: select_lines_def split_inclusive_def line_number_def saturating_add_def saturating_sub_def clamp_word_def
        word_less_nat_alt)
  obtain b' where charged: "charge 1 1 400 sample_budget = (Inr (), b')"
    using example_charged by (metis prod.collapse)
  show ?thesis
    using example_inventoried selected charged
    by (simp add: read_file_def repo_check_cancelled_def is_cancelled_def range_valid_def example_read_def example_toolbox_def
        example_inventory_def inventoried_def example_metadata_def default_repository_limits_def example_utf8 min_def
        word_le_nat_alt word_less_nat_alt)
qed

theorem read_returns_the_wanted_lines_witness: "charge 1 1 400 sample_budget = (Inr (), snd example_read)"
proof -
  have "unat (rl_max_file_bytes (tb_limits example_toolbox)) < 2 ^ 32"
    by (simp add: example_toolbox_def default_repository_limits_def)
  from read_returns_the_wanted_lines [OF example_reads [unfolded example_read_def] this] show ?thesis
    by (auto simp: example_toolbox_def example_inventory_def example_metadata_def inventoried_def example_read_def
        default_repository_limits_def min_def word_le_nat_alt)
qed

section \<open>Searching\<close>

text \<open>The matches in one file.\<close>

definition file_matches_of :: "file_system \<Rightarrow> toolbox \<Rightarrow> search_request \<Rightarrow> relative_path \<Rightarrow> search_match list" where
  "file_matches_of fs tb q path =
     (case read_inventoried fs tb path of
        Inl _ \<Rightarrow> []
      | Inr bytes \<Rightarrow>
          if utf8_valid bytes
          then map (\<lambda>(index, column, line). \<lparr>sm_path = path, sm_line = line_number index, sm_column = line_number column,
             sm_excerpt = bounded_excerpt line column max_search_excerpt_bytes\<rparr>) (line_matches (sq_query q) bytes)
          else [])"

lemma push_matches_eq:
  "length ms \<le> maximum \<Longrightarrow> push_matches path maximum xs (ms, t) =
     (ms @ take (maximum - length ms) (map (\<lambda>(index, column, line). \<lparr>sm_path = path, sm_line = line_number index,
        sm_column = line_number column, sm_excerpt = bounded_excerpt line column max_search_excerpt_bytes\<rparr>) xs),
      t \<or> maximum < length ms + length xs)"
proof (induction path maximum xs "(ms, t)" arbitrary: ms t rule: push_matches.induct)
  case (2 path maximum index column line xs ms t)
  then show ?case by (cases "length ms = maximum") (auto simp: take_Cons' Suc_diff_Suc)
qed simp

lemma search_loop_Inr:
  assumes "search_loop fs tb q token paths s = Inr s'" and "length (sn_matches s) < unat (sq_max_results q)"
  shows "length (sn_matches s') \<le> unat (sq_max_results q) \<and>
    set (sn_matches s') \<subseteq> set (sn_matches s) \<union> (\<Union>p \<in> set paths. set (file_matches_of fs tb q p)) \<and>
    (\<not> sn_truncated s' \<longrightarrow> \<not> sn_truncated s \<and>
       sn_matches s' = sn_matches s @ concat (map (file_matches_of fs tb q) paths) \<and>
       (\<forall>p \<in> set paths. \<forall>e. read_inventoried fs tb p = Inl e \<longrightarrow> e = NonUtf8Content \<or> e = FileTooLarge))"
  using assms
proof (induction fs tb q token paths s arbitrary: s' rule: search_loop.induct)
  case (1 fs tb q token s)
  then show ?case by simp
next
  case (2 fs tb q token path paths s)
  let ?all = "file_matches_of fs tb q"
  have poll: "repo_check_cancelled token = Inr ()" using "2.prems"(1) by (auto simp: result_simps)
  obtain f where f: "map_of (tb_files tb) path = Some f" using "2.prems"(1) by (auto simp: result_simps)
  have f': "ok_or PathNotInventoried (map_of (tb_files tb) path) = Inr f" using f by simp
  note run = "2.prems"(1) [unfolded search_loop.simps(2) poll f' and_then_simps]
  have skip [simp]: "sn_matches (skip_file s) = sn_matches s" "sn_truncated (skip_file s) = sn_truncated s" for s
    by (simp_all add: skip_file_def)
  show ?case
  proof (cases "rl_max_file_bytes (tb_limits tb) < rf_size_bytes (iv_public f)
      \<or> rl_max_search_bytes (tb_limits tb) < saturating_add (sn_scanned_bytes s) (rf_size_bytes (iv_public f))")
    case True
    then show ?thesis using "2.IH"(1) [OF poll f' True, of s'] run "2.prems"(2) by auto
  next
    case small: False
    show ?thesis
    proof (cases "read_inventoried fs tb path")
      case (Inl e)
      then have "e = NonUtf8Content \<or> e = FileTooLarge" using run small by (auto split: if_splits)
      moreover have "?all path = []" using Inl by (simp add: file_matches_of_def)
      ultimately show ?thesis using "2.IH"(2) [OF poll f' small Inl, of s'] run small Inl "2.prems"(2) by auto
    next
      case (Inr bytes)
      let ?s1 = "s\<lparr>sn_scanned_bytes := saturating_add (sn_scanned_bytes s) (clamp_word (length bytes))\<rparr>"
      show ?thesis
      proof (cases "utf8_valid bytes")
        case False
        then have "?all path = []" using Inr by (simp add: file_matches_of_def)
        then show ?thesis using "2.IH"(3) [OF poll f' small Inr refl False, of s'] run small Inr False "2.prems"(2)
          by (auto simp: Let_def)
      next
        case True
        obtain ms t where c: "collect_matches path bytes q (sn_matches s, sn_truncated s) = (ms, t)" by fastforce
        have "length (sn_matches s) \<le> unat (sq_max_results q)" using "2.prems"(2) by simp
        then have ms: "ms = sn_matches s @ take (unat (sq_max_results q) - length (sn_matches s)) (?all path)"
            "t \<longleftrightarrow> sn_truncated s \<or> unat (sq_max_results q) < length (sn_matches s) + length (?all path)"
          using c push_matches_eq [of "sn_matches s"] True Inr by (simp_all add: collect_matches_def file_matches_of_def)
        show ?thesis
        proof (cases "unat (sq_max_results q) \<le> length ms")
          case full: True
          then have "sn_matches s' = ms" "sn_truncated s'"
            using run small Inr True c by (auto simp: Let_def)
          then show ?thesis using ms "2.prems"(2) by (auto dest: in_set_takeD)
        next
          case room: False
          then have all: "ms = sn_matches s @ ?all path" "t = sn_truncated s"
            using ms by (auto simp: min_def split: if_splits)
          have c': "(ms, t) = collect_matches path bytes q (sn_matches ?s1, sn_truncated ?s1)" and utf8: "\<not> \<not> utf8_valid bytes"
            using c True by simp_all
          show ?thesis
            using "2.IH"(4) [OF poll f' small Inr refl utf8 refl c' refl room, of s'] run small Inr True c room all
            by (auto simp: Let_def)
        qed
      qed
    qed
  qed
qed

lemma match_prefixes_real:
  "b \<in> set (match_prefixes p seen skip s) \<Longrightarrow> p \<noteq> [] \<Longrightarrow> \<exists>x y. b = seen @ x \<and> s = x @ p @ y"
proof (induction p seen skip s rule: match_prefixes.induct)
  case (2 p seen skip c s)
  then obtain x y where "b = (seen @ [c]) @ x" "s = x @ p @ y" by auto
  then show ?case by (intro exI [of _ "c # x"] exI [of _ y]) simp
next
  case (3 p seen c s)
  consider "b = seen" "starts_with p (c # s)" | k where "b \<in> set (match_prefixes p (seen @ [c]) k s)"
      "\<exists>x y. b = (seen @ [c]) @ x \<and> s = x @ p @ y"
    using 3 by (auto split: if_splits)
  then show ?case
  proof cases
    case 1
    then show ?thesis by (auto simp: starts_with_append)
  next
    case 2
    then obtain x y where "b = (seen @ [c]) @ x" "s = x @ p @ y" by blast
    then show ?thesis by (intro exI [of _ "c # x"] exI [of _ y]) simp
  qed
qed simp

lemma step_back_le: "step_back s low i \<le> i"
  by (induction s low i rule: step_back.induct) auto

lemma bounded_excerpt: "length (bounded_excerpt line column maximum) \<le> maximum \<and> sublist (bounded_excerpt line column maximum) line"
proof (cases "length line \<le> maximum")
  case False
  let ?start = "step_back line 0 (column - maximum div 4)"
  let ?stop = "step_back line ?start (min (?start + maximum) (length line))"
  have piece: "bounded_excerpt line column maximum = take (?stop - ?start) (drop ?start line)"
    using False by (simp only: bounded_excerpt_def Let_def if_False)
  have "?stop \<le> ?start + maximum"
    using step_back_le [of line ?start "min (?start + maximum) (length line)"] by linarith
  then have "length (bounded_excerpt line column maximum) \<le> maximum" unfolding piece length_take by linarith
  moreover have "sublist (take n (drop k line)) line" for n k
    by (meson sublist_drop sublist_order.order_trans sublist_take)
  ultimately show ?thesis unfolding piece by blast
qed (simp add: bounded_excerpt_def)

definition real_match :: "file_system \<Rightarrow> toolbox \<Rightarrow> search_request \<Rightarrow> search_match \<Rightarrow> bool" where
  "real_match fs tb q m \<longleftrightarrow>
     (\<exists>bytes i j. read_inventoried fs tb (sm_path m) = Inr bytes \<and> i < length (str_lines bytes) \<and>
        sm_line m = line_number i \<and> sm_column m = line_number j \<and>
        starts_with (sq_query q) (drop j (str_lines bytes ! i)) \<and>
        length (sm_excerpt m) \<le> max_search_excerpt_bytes \<and> sublist (sm_excerpt m) (str_lines bytes ! i))"

lemma file_matches_real:
  assumes "m \<in> set (file_matches_of fs tb q path)" and "sq_query q \<noteq> []"
  shows "sm_path m = path \<and> real_match fs tb q m"
proof -
  obtain bytes index column line where bytes: "read_inventoried fs tb path = Inr bytes"
    and in_line: "(index, column, line) \<in> set (line_matches (sq_query q) bytes)"
    and m: "m = \<lparr>sm_path = path, sm_line = line_number index, sm_column = line_number column,
       sm_excerpt = bounded_excerpt line column max_search_excerpt_bytes\<rparr>"
    using assms(1) by (cases "read_inventoried fs tb path") (auto simp: file_matches_of_def split: if_splits)
  obtain before where line: "index < length (str_lines bytes)" "line = str_lines bytes ! index"
    and before: "before \<in> set (match_prefixes (sq_query q) [] 0 line)" "column = length before"
    using in_line by (auto simp: line_matches_def in_set_enumerate_eq)
  obtain y where "line = before @ sq_query q @ y"
    using match_prefixes_real [OF before(1) assms(2)] by auto
  then have "starts_with (sq_query q) (drop column line)" using before(2) by (simp add: starts_with_append)
  then show ?thesis
    using bytes line bounded_excerpt [of line column] unfolding real_match_def m by auto
qed

text \<open>
  The matches of a line leave no occurrence out: they do not overlap, so an occurrence
  that is not reported starts inside one that is.
\<close>

lemma match_prefixes_cover:
  "starts_with p (drop j s) \<Longrightarrow> p \<noteq> [] \<Longrightarrow> skip \<le> j \<Longrightarrow>
     \<exists>k. skip \<le> k \<and> k \<le> j \<and> j < k + length p \<and> k < length s \<and> seen @ take k s \<in> set (match_prefixes p seen skip s)"
proof (induction p seen skip s arbitrary: j rule: match_prefixes.induct)
  case (1 p seen skip)
  then show ?case by (auto simp: starts_with_append)
next
  case (2 p seen skip c s)
  then obtain j' where j: "j = Suc j'" by (cases j) auto
  then obtain k where "skip \<le> k" "k \<le> j'" "j' < k + length p" "k < length s"
      "(seen @ [c]) @ take k s \<in> set (match_prefixes p (seen @ [c]) skip s)"
    using "2.IH" [of j'] "2.prems" by auto
  then show ?case by (intro exI [of _ "Suc k"]) (simp add: j)
next
  case (3 p seen c s)
  show ?case
  proof (cases "starts_with p (c # s)")
    case here: True
    show ?thesis
    proof (cases "j < length p")
      case True
      then show ?thesis using here by (intro exI [of _ 0]) auto
    next
      case False
      then obtain j' where j: "j = Suc j'" "length p - 1 \<le> j'" using "3.prems"(2) by (cases j) auto
      then obtain k where "k \<le> j'" "j' < k + length p" "k < length s"
          "(seen @ [c]) @ take k s \<in> set (match_prefixes p (seen @ [c]) (length p - 1) s)"
        using "3.IH"(1) [of j'] "3.prems" here by auto
      then show ?thesis by (intro exI [of _ "Suc k"]) (simp add: j here)
    qed
  next
    case False
    then obtain j' where j: "j = Suc j'" using "3.prems" by (cases j) auto
    then obtain k where "k \<le> j'" "j' < k + length p" "k < length s"
        "(seen @ [c]) @ take k s \<in> set (match_prefixes p (seen @ [c]) 0 s)"
      using "3.IH" [of j'] "3.prems" False by auto
    then show ?thesis by (intro exI [of _ "Suc k"]) (simp add: j False)
  qed
qed

lemma file_matches_cover:
  assumes bytes: "read_inventoried fs tb path = Inr bytes" "utf8_valid bytes" and i: "i < length (str_lines bytes)"
    and occurs: "starts_with (sq_query q) (drop j (str_lines bytes ! i))" and query: "sq_query q \<noteq> []"
  shows "\<exists>m \<in> set (file_matches_of fs tb q path). \<exists>k. sm_path m = path \<and> sm_line m = line_number i \<and>
    sm_column m = line_number k \<and> k \<le> j \<and> j < k + length (sq_query q) \<and>
    starts_with (sq_query q) (drop k (str_lines bytes ! i))"
proof -
  let ?line = "str_lines bytes ! i"
  obtain k where k: "k \<le> j" "j < k + length (sq_query q)" "k < length ?line"
      "take k ?line \<in> set (match_prefixes (sq_query q) [] 0 ?line)"
    using match_prefixes_cover [OF occurs query, of 0 "[]"] by auto
  obtain y where y: "?line = take k ?line @ sq_query q @ y"
    using match_prefixes_real [OF k(4) query] by auto
  have "drop k ?line = sq_query q @ y"
    using arg_cong [OF y, of "drop k"] k(3) by simp
  then have "starts_with (sq_query q) (drop k ?line)" by (simp add: starts_with_append)
  moreover have "(i, k, ?line) \<in> set (line_matches (sq_query q) bytes)"
    unfolding line_matches_def set_concat using i k(3,4)
    by (auto simp: in_set_enumerate_eq intro!: bexI [of _ "(i, ?line)"] image_eqI [of _ _ "take k ?line"])
  then have "\<lparr>sm_path = path, sm_line = line_number i, sm_column = line_number k,
      sm_excerpt = bounded_excerpt ?line k max_search_excerpt_bytes\<rparr> \<in> set (file_matches_of fs tb q path)"
    using bytes by (force simp: file_matches_of_def)
  ultimately show ?thesis using k(1,2) by (intro bexI, intro exI [of _ k]) auto
qed


definition example_query :: search_request where
  "example_query = \<lparr>sq_query = ''x'', sq_paths = [''a''], sq_max_results = 5\<rparr>"

lemma example_found:
  "file_matches_of example_file_system example_toolbox example_query ''a'' =
     [\<lparr>sm_path = ''a'', sm_line = 1, sm_column = 1, sm_excerpt = ''x''\<rparr>]"
  by (simp add: file_matches_of_def example_inventoried example_utf8 line_matches_def str_lines_def strip_suffix_def
      example_query_def starts_with_def line_number_def saturating_add_def clamp_word_def bounded_excerpt_def
      max_search_excerpt_bytes_def)

lemma example_searched:
  "\<exists>res b'. search example_file_system example_toolbox example_query None 400 sample_budget = (Inr res, b') \<and> \<not> sr_truncated res"
proof -
  have candidates: "search_candidates example_toolbox example_query = Inr [''a'']"
    by (simp add: search_candidates_def example_query_def example_toolbox_def example_inventory_def)
  have reserved: "reserved_bytes example_toolbox [''a''] = 1"
    by (simp add: reserved_bytes_def example_toolbox_def example_inventory_def map_filter_simps inventoried_def
        example_metadata_def default_repository_limits_def saturating_add_def min_def word_le_nat_alt)
  obtain b' where charged: "charge 1 1 400 sample_budget = (Inr (), b')"
    using example_charged by (metis prod.collapse)
  have box: "tb_limits example_toolbox = default_repository_limits"
      "map_of (tb_files example_toolbox) ''a'' = Some (inventoried ''a'' (example_metadata RegularFile))"
    by (simp_all add: example_toolbox_def example_inventory_def)
  have "\<exists>s. search_loop example_file_system example_toolbox example_query None [''a''] empty_scan = Inr s \<and> \<not> sn_truncated s"
    by (simp add: box repo_check_cancelled_def is_cancelled_def example_inventoried example_utf8 empty_scan_def
        collect_matches_def line_matches_def str_lines_def strip_suffix_def example_query_def starts_with_def
        inventoried_def example_metadata_def default_repository_limits_def saturating_add_def word_less_nat_alt Let_def)
  then show ?thesis
    using candidates reserved charged
    by (auto simp: search_def repo_check_cancelled_def is_cancelled_def clamp_word_def example_query_def max_query_bytes_def
        example_toolbox_def default_repository_limits_def word_less_nat_alt)
qed


end
