(* ===== verification/Configuration.thy ===== *)
theory Configuration
  imports Ordered_Map Text_Search Anchors
begin

text \<open>
  Configuration resolution, \<open>crates/revoot-core/src/config.rs\<close>: a closed schema, the
  precedence of sources, the administrator's policy, and the explanation of each field.

  The \<open>unreachable!\<close> arms and the assertion in \<open>Ord::clamp\<close> are panics.  A \<open>usize\<close> limit
  is a natural number.
\<close>

section \<open>Keys and values\<close>

definition max_key_bytes :: nat where "max_key_bytes = 128"
definition max_provenance_bytes :: nat where "max_provenance_bytes = 256"

type_synonym config_key = string

datatype config_key_error = KeyEmpty | KeyTooLong | KeyInvalidSyntax

definition valid_key_segment :: "string \<Rightarrow> bool" where
  "valid_key_segment segment \<longleftrightarrow>
     (case segment of [] \<Rightarrow> False
      | b # bs \<Rightarrow> is_ascii_lowercase b \<and>
          list_all (\<lambda>b. is_ascii_lowercase b \<or> is_ascii_digit b \<or> b = CHR ''_'') bs)"

definition config_key_new :: "string \<Rightarrow> config_key_error + config_key" where
  "config_key_new v =
     (if v = [] then Inl KeyEmpty
      else if max_key_bytes < length v then Inl KeyTooLong
      else if \<not> list_all valid_key_segment (split_on (CHR ''.'') v) then Inl KeyInvalidSyntax
      else Inr v)"

datatype config_value = BoolValue bool | UnsignedValue u64 | StringValue string | StringListValue "string list"

datatype value_kind = BoolKind | UnsignedKind | StringKind | StringListKind

fun kind_of :: "config_value \<Rightarrow> value_kind" where
  "kind_of (BoolValue _) = BoolKind"
| "kind_of (UnsignedValue _) = UnsignedKind"
| "kind_of (StringValue _) = StringKind"
| "kind_of (StringListValue _) = StringListKind"

text \<open>The derived order: by variant, then by content.\<close>

fun config_value_key :: "config_value \<Rightarrow> nat \<times> nat \<times> string list" where
  "config_value_key (BoolValue b) = (0, of_bool b, [])"
| "config_value_key (UnsignedValue n) = (1, unat n, [])"
| "config_value_key (StringValue s) = (2, 0, [s])"
| "config_value_key (StringListValue ss) = (3, 0, ss)"

lemma config_value_key_inj: "config_value_key v = config_value_key w \<Longrightarrow> v = w"
  by (cases v; cases w) (auto simp: word_unat_eq_iff of_bool_def split: if_splits)

instantiation config_value :: linorder
begin

definition less_eq_config_value :: "config_value \<Rightarrow> config_value \<Rightarrow> bool" where
  "p \<le> q \<longleftrightarrow> config_value_key p \<le> config_value_key q"

definition less_config_value :: "config_value \<Rightarrow> config_value \<Rightarrow> bool" where
  "p < q \<longleftrightarrow> config_value_key p < config_value_key q"

instance
  by intro_classes (auto simp: less_eq_config_value_def less_config_value_def intro: config_value_key_inj)

end

datatype config_source = CompiledDefault | BaseRepository | TrustedLocal | AllowedCiVariable | CommandLine

fun source_rank :: "config_source \<Rightarrow> nat" where
  "source_rank CompiledDefault = 0"
| "source_rank BaseRepository = 1"
| "source_rank TrustedLocal = 2"
| "source_rank AllowedCiVariable = 3"
| "source_rank CommandLine = 4"

lemma source_rank_inj: "source_rank a = source_rank b \<Longrightarrow> a = b"
  by (cases a; cases b) simp_all

record source_provenance =
  sv_source :: config_source
  sv_label :: string

definition compiled_default :: source_provenance where
  "compiled_default = \<lparr>sv_source = CompiledDefault, sv_label = ''compiled-default''\<rparr>"

section \<open>The schema\<close>

datatype assignment_scope = RepositoryAndTrusted | TrustedOnly | CompiledDefaultOnly

fun scope_permits :: "assignment_scope \<Rightarrow> config_source \<Rightarrow> bool" where
  "scope_permits s CompiledDefault = False"
| "scope_permits CompiledDefaultOnly _ = False"
| "scope_permits TrustedOnly BaseRepository = False"
| "scope_permits RepositoryAndTrusted _ = True"
| "scope_permits TrustedOnly _ = True"

datatype value_constraint =
    AnyValue
  | UnsignedRange u64 u64
  | StringBound bool nat
  | StringListBound nat bool nat

record config_field =
  cf_key :: config_key
  cf_default :: config_value
  cf_scope :: assignment_scope
  cf_constraint :: value_constraint

type_synonym configuration_schema = "(config_key, config_field) btree"

datatype constraint_violation =
    ConstraintKindMismatch | InvertedRange | ZeroByteLimit | EmptyAllowedValues | DuplicateAllowedValue
  | AllowedValueKindMismatch | AllowedValueRejectedBySchema | PolicyWouldViolateSchema | FixedFieldPolicy

datatype value_violation =
    BelowMinimum | AboveMaximum | EmptyString | StringTooLong | TooManyListItems | EmptyListItem
  | ListItemTooLong

datatype config_error =
    DuplicateSchemaField config_key
  | InvalidValueConstraint config_key constraint_violation
  | UnknownAssignmentKey config_key
  | InvalidAssignmentProvenance config_key config_source
  | CompiledDefaultAssignment config_key
  | AssignmentSourceForbidden config_key config_source
  | DuplicateSourceAssignment config_key config_source
  | ValueKindMismatch config_key value_kind value_kind
  | ValueRejected config_key value_violation
  | UnknownPolicyKey config_key
  | DuplicatePolicyRule config_key
  | InvalidPolicyProvenance config_key
  | InvalidPolicyConstraint config_key constraint_violation
  | PolicyDeniedRequestedValue config_key

definition map_fault :: "('e \<Rightarrow> 'f) \<Rightarrow> 'e fault \<Rightarrow> 'f fault" where
  "map_fault f e = (case e of Returned x \<Rightarrow> Returned (f x) | Panicked \<Rightarrow> Panicked)"

definition validate_value_constraint :: "config_field \<Rightarrow> config_error + unit" where
  "validate_value_constraint field =
     map_err (InvalidValueConstraint (cf_key field))
       (case (cf_constraint field, kind_of (cf_default field)) of
          (AnyValue, _) \<Rightarrow> Inr ()
        | (UnsignedRange lo hi, UnsignedKind) \<Rightarrow> if lo \<le> hi then Inr () else Inl InvertedRange
        | (StringBound _ max_bytes, StringKind) \<Rightarrow> if max_bytes = 0 then Inl ZeroByteLimit else Inr ()
        | (StringListBound _ _ max_bytes, StringListKind) \<Rightarrow> if max_bytes = 0 then Inl ZeroByteLimit else Inr ()
        | _ \<Rightarrow> Inl ConstraintKindMismatch)"

definition validate_value :: "value_constraint \<Rightarrow> config_value \<Rightarrow> value_violation fault + unit" where
  "validate_value c v =
     (case (c, v) of
        (UnsignedRange lo hi, UnsignedValue n) \<Rightarrow>
          if n < lo then Inl (Returned BelowMinimum) else if hi < n then Inl (Returned AboveMaximum) else Inr ()
      | (StringBound allow_empty max_bytes, StringValue s) \<Rightarrow>
          if \<not> allow_empty \<and> s = [] then Inl (Returned EmptyString)
          else if max_bytes < length s then Inl (Returned StringTooLong) else Inr ()
      | (StringListBound max_items allow_empty max_bytes, StringListValue ss) \<Rightarrow>
          if max_items < length ss then Inl (Returned TooManyListItems)
          else if \<not> allow_empty \<and> list_ex (\<lambda>s. s = []) ss then Inl (Returned EmptyListItem)
          else if list_ex (\<lambda>s. max_bytes < length s) ss then Inl (Returned ListItemTooLong) else Inr ()
      | (AnyValue, _) \<Rightarrow> Inr ()
      | _ \<Rightarrow> Inl Panicked)"

definition validate_field_value :: "config_field \<Rightarrow> config_value \<Rightarrow> config_error fault + unit" where
  "validate_field_value field v =
     (if kind_of v \<noteq> kind_of (cf_default field)
      then Inl (Returned (ValueKindMismatch (cf_key field) (kind_of (cf_default field)) (kind_of v)))
      else map_err (map_fault (ValueRejected (cf_key field))) (validate_value (cf_constraint field) v))"

text \<open>The body of the loop over the fields, sorted by key.\<close>

definition add_field :: "config_field \<Rightarrow> configuration_schema \<Rightarrow> config_error fault + configuration_schema" where
  "add_field field schema =
     (if map_of schema (cf_key field) \<noteq> None then Inl (Returned (DuplicateSchemaField (cf_key field)))
      else
        and_then (map_err Returned (validate_value_constraint field)) (\<lambda>_.
        and_then (validate_field_value field (cf_default field)) (\<lambda>_.
        Inr (bt_insert (cf_key field) field schema))))"

definition schema_try_new :: "config_field list \<Rightarrow> config_error fault + configuration_schema" where
  "schema_try_new fs = try_fold add_field (sort_key cf_key fs) []"

section \<open>Assignments\<close>

record config_assignment =
  ca_key :: config_key
  ca_value :: config_value
  ca_provenance :: source_provenance

definition assignment_key :: "config_assignment \<Rightarrow> config_key \<times> (nat \<times> string) \<times> config_value" where
  "assignment_key a =
     (ca_key a, (source_rank (sv_source (ca_provenance a)), sv_label (ca_provenance a)), ca_value a)"

definition valid_provenance_label :: "string \<Rightarrow> bool" where
  "valid_provenance_label label \<longleftrightarrow>
     trim label \<noteq> [] \<and> length label \<le> max_provenance_bytes \<and> \<not> list_ex char_is_control (str_chars label)"

definition validate_provenance :: "config_key \<Rightarrow> source_provenance \<Rightarrow> config_error + unit" where
  "validate_provenance key p =
     (if valid_provenance_label (sv_label p) then Inr ()
      else Inl (InvalidAssignmentProvenance key (sv_source p)))"

text \<open>The body of the loop: the state is the key and source of the previous assignment.\<close>

definition check_assignment ::
    "configuration_schema \<Rightarrow> config_assignment \<Rightarrow> (config_key \<times> config_source) option
      \<Rightarrow> config_error fault + (config_key \<times> config_source) option" where
  "check_assignment schema a previous =
     (let key = ca_key a; source = sv_source (ca_provenance a) in
      and_then (ok_or (Returned (UnknownAssignmentKey key)) (map_of schema key)) (\<lambda>field.
      and_then (map_err Returned (validate_provenance key (ca_provenance a))) (\<lambda>_.
      if source = CompiledDefault then Inl (Returned (CompiledDefaultAssignment key))
      else if \<not> scope_permits (cf_scope field) source then Inl (Returned (AssignmentSourceForbidden key source))
      else
        and_then (validate_field_value field (ca_value a)) (\<lambda>_.
        if previous = Some (key, source) then Inl (Returned (DuplicateSourceAssignment key source))
        else Inr (Some (key, source))))))"

definition validate_assignments ::
    "configuration_schema \<Rightarrow> config_assignment list \<Rightarrow> config_error fault + config_assignment list" where
  "validate_assignments schema assignments =
     (let assignments = sort_key assignment_key assignments in
      and_then (try_fold (check_assignment schema) assignments None) (\<lambda>_. Inr assignments))"

section \<open>Policy\<close>

datatype policy_constraint =
    Unconstrained | ForceValue config_value | ClampUnsigned u64 u64 | AllowedValues "config_value list"

record policy_rule =
  pr_key :: config_key
  pr_constraint :: policy_constraint
  pr_provenance :: string

fun sort_allowed :: "policy_constraint \<Rightarrow> policy_constraint" where
  "sort_allowed (AllowedValues vs) = AllowedValues (sort vs)"
| "sort_allowed c = c"

text \<open>\<open>validate_field_value(..).map_err(|_| error)\<close>\<close>

definition value_or :: "config_error \<Rightarrow> config_field \<Rightarrow> config_value \<Rightarrow> config_error fault + unit" where
  "value_or e field v = map_err (map_fault (\<lambda>_. e)) (validate_field_value field v)"

definition validate_policy_constraint :: "config_field \<Rightarrow> policy_constraint \<Rightarrow> config_error fault + unit" where
  "validate_policy_constraint field c =
     (let invalid = InvalidPolicyConstraint (cf_key field) in
      if cf_scope field = CompiledDefaultOnly \<and> c \<noteq> Unconstrained then Inl (Returned (invalid FixedFieldPolicy))
      else case c of
          Unconstrained \<Rightarrow> Inr ()
        | ForceValue v \<Rightarrow>
            if kind_of v \<noteq> kind_of (cf_default field) then Inl (Returned (invalid ConstraintKindMismatch))
            else value_or (invalid PolicyWouldViolateSchema) field v
        | ClampUnsigned lo hi \<Rightarrow>
            if kind_of (cf_default field) \<noteq> UnsignedKind then Inl (Returned (invalid ConstraintKindMismatch))
            else if hi < lo then Inl (Returned (invalid InvertedRange))
            else
              and_then (value_or (invalid PolicyWouldViolateSchema) field (UnsignedValue lo)) (\<lambda>_.
              value_or (invalid PolicyWouldViolateSchema) field (UnsignedValue hi))
        | AllowedValues vs \<Rightarrow>
            if vs = [] then Inl (Returned (invalid EmptyAllowedValues))
            else if list_ex (\<lambda>(v, w). v = w) (zip vs (tl vs)) then Inl (Returned (invalid DuplicateAllowedValue))
            else
              try_fold (\<lambda>v _.
                if kind_of v \<noteq> kind_of (cf_default field) then Inl (Returned (invalid AllowedValueKindMismatch))
                else value_or (invalid AllowedValueRejectedBySchema) field v) vs ())"

definition add_rule ::
    "configuration_schema \<Rightarrow> policy_rule \<Rightarrow> (config_key, policy_rule) btree
      \<Rightarrow> config_error fault + (config_key, policy_rule) btree" where
  "add_rule schema rule validated =
     (let key = pr_key rule in
      and_then (ok_or (Returned (UnknownPolicyKey key)) (map_of schema key)) (\<lambda>field.
      if map_of validated key \<noteq> None then Inl (Returned (DuplicatePolicyRule key))
      else if \<not> valid_provenance_label (pr_provenance rule) then Inl (Returned (InvalidPolicyProvenance key))
      else
        let rule = rule\<lparr>pr_constraint := sort_allowed (pr_constraint rule)\<rparr> in
        and_then (validate_policy_constraint field (pr_constraint rule)) (\<lambda>_.
        Inr (bt_insert key rule validated))))"

definition validate_policy ::
    "configuration_schema \<Rightarrow> policy_rule list \<Rightarrow> config_error fault + (config_key, policy_rule) btree" where
  "validate_policy schema rules = try_fold (add_rule schema) (sort_key pr_key rules) []"

text \<open>\<open>Ord::clamp\<close> asserts that its bounds are in order.\<close>

definition apply_policy ::
    "config_field \<Rightarrow> config_value \<Rightarrow> policy_rule option \<Rightarrow> config_error fault + config_value" where
  "apply_policy field requested policy =
     (case policy of
        None \<Rightarrow> Inr requested
      | Some rule \<Rightarrow>
          (case pr_constraint rule of
             Unconstrained \<Rightarrow> Inr requested
           | ForceValue v \<Rightarrow> Inr v
           | ClampUnsigned lo hi \<Rightarrow>
               (case requested of
                  UnsignedValue n \<Rightarrow> if hi < lo then Inl Panicked else Inr (UnsignedValue (max lo (min n hi)))
                | _ \<Rightarrow> Inl Panicked)
           | AllowedValues vs \<Rightarrow>
               (case binary_search vs requested of
                  Some _ \<Rightarrow> Inr requested
                | None \<Rightarrow> Inl (Returned (PolicyDeniedRequestedValue (cf_key field))))))"

section \<open>Resolution\<close>

record resolved_value =
  rv_value :: config_value
  rv_provenance :: source_provenance

record policy_explanation =
  px_constraint :: policy_constraint
  px_provenance :: "string option"

record explain_record =
  er_key :: config_key
  er_candidates :: "resolved_value list"
  er_requested :: resolved_value
  er_policy :: policy_explanation
  er_constrained :: bool
  er_effective :: config_value

record configuration_resolution =
  cr_requested :: "(config_key, resolved_value) btree"
  cr_effective :: "(config_key, config_value) btree"
  cr_explain :: "explain_record list"

text \<open>A \<open>ConfigCandidate\<close> has the fields of a \<open>ResolvedValue\<close>.\<close>

definition default_candidate :: "config_field \<Rightarrow> resolved_value" where
  "default_candidate field = \<lparr>rv_value = cf_default field, rv_provenance = compiled_default\<rparr>"

definition candidates_of :: "config_assignment list \<Rightarrow> config_key \<Rightarrow> config_field \<Rightarrow> resolved_value list" where
  "candidates_of assignments key field =
     sort_key (\<lambda>c. source_rank (sv_source (rv_provenance c)))
       (default_candidate field #
        map (\<lambda>a. \<lparr>rv_value = ca_value a, rv_provenance = ca_provenance a\<rparr>)
          (filter (\<lambda>a. ca_key a = key) assignments))"

definition explain_policy :: "policy_rule option \<Rightarrow> policy_explanation" where
  "explain_policy policy =
     (case policy of
        None \<Rightarrow> \<lparr>px_constraint = Unconstrained, px_provenance = None\<rparr>
      | Some rule \<Rightarrow> \<lparr>px_constraint = pr_constraint rule, px_provenance = Some (pr_provenance rule)\<rparr>)"

text \<open>The body of the loop over the fields of the schema.\<close>

definition resolve_field ::
    "config_assignment list \<Rightarrow> (config_key, policy_rule) btree \<Rightarrow> config_key \<times> config_field
      \<Rightarrow> configuration_resolution \<Rightarrow> config_error fault + configuration_resolution" where
  "resolve_field assignments rules kf r =
     (let (key, field) = kf;
          candidates = candidates_of assignments key field;
          requested = fold (\<lambda>c _. c) candidates (default_candidate field);
          policy = map_of rules key
      in and_then (apply_policy field (rv_value requested) policy) (\<lambda>effective.
         Inr \<lparr>cr_requested = bt_insert key requested (cr_requested r),
           cr_effective = bt_insert key effective (cr_effective r),
           cr_explain = cr_explain r @
             [\<lparr>er_key = key, er_candidates = candidates, er_requested = requested, er_policy = explain_policy policy,
               er_constrained = (rv_value requested \<noteq> effective), er_effective = effective\<rparr>]\<rparr>))"

definition resolve_configuration ::
    "configuration_schema \<Rightarrow> config_assignment list \<Rightarrow> policy_rule list \<Rightarrow> config_error fault + configuration_resolution" where
  "resolve_configuration schema assignments rules =
     and_then (validate_assignments schema assignments) (\<lambda>assignments.
     and_then (validate_policy schema rules) (\<lambda>rules.
     try_fold (resolve_field assignments rules) schema \<lparr>cr_requested = [], cr_effective = [], cr_explain = []\<rparr>))"

end
