(* ===== verification/Configuration_Resolved.thy ===== *)
theory Configuration_Resolved
  imports Configuration
begin

text \<open>
  What resolution guarantees: the effective value of every field is within the product's
  constraint and obeys the administrator's policy, the requested one comes from the
  highest source that may set it, nothing depends on the order of the input, and no
  \<open>unreachable!\<close> is reached.
\<close>

section \<open>Loops that fail\<close>

lemma try_fold_error:
  assumes "try_fold f xs s = Inl e" and "I s"
    and "\<And>x s t. x \<in> set xs \<Longrightarrow> I s \<Longrightarrow> f x s = Inr t \<Longrightarrow> I t"
  shows "\<exists>x t. x \<in> set xs \<and> I t \<and> f x t = Inl e"
  using assms
proof (induction xs arbitrary: s)
  case (Cons x xs)
  show ?case
  proof (cases "f x s")
    case (Inl e')
    then show ?thesis using Cons.prems by auto
  next
    case (Inr t)
    then have "I t" using Cons.prems(2) Cons.prems(3) [of x s t] by simp
    moreover have "try_fold f xs t = Inl e" using Cons.prems(1) Inr by simp
    ultimately obtain y u where "y \<in> set xs" "I u" "f y u = Inl e"
      using Cons.IH [of t] Cons.prems(3) by (meson list.set_intros(2))
    then show ?thesis by auto
  qed
qed simp

lemma try_fold_all:
  "try_fold f xs s = Inr t \<Longrightarrow> x \<in> set xs \<Longrightarrow> \<exists>u v. f x u = Inr v"
  by (induction xs arbitrary: s) (auto simp: result_simps)

lemma map_fault_simps [simp]: "map_fault f (Returned x) = Returned (f x)" "map_fault f Panicked = Panicked"
  "map_fault f e = Panicked \<longleftrightarrow> e = Panicked" "Panicked = map_fault f e \<longleftrightarrow> e = Panicked"
  by (simp_all add: map_fault_def split: fault.split)

section \<open>Schemas\<close>

fun constraint_fits :: "value_constraint \<Rightarrow> value_kind \<Rightarrow> bool" where
  "constraint_fits AnyValue _ = True"
| "constraint_fits (UnsignedRange _ _) k = (k = UnsignedKind)"
| "constraint_fits (StringBound _ _) k = (k = StringKind)"
| "constraint_fits (StringListBound _ _ _) k = (k = StringListKind)"

definition field_ok :: "config_field \<Rightarrow> bool" where
  "field_ok f \<longleftrightarrow> constraint_fits (cf_constraint f) (kind_of (cf_default f)) \<and> validate_field_value f (cf_default f) = Inr ()"

definition schema_ok :: "configuration_schema \<Rightarrow> bool" where
  "schema_ok s \<longleftrightarrow> bt_wf s \<and> (\<forall>k f. map_of s k = Some f \<longrightarrow> cf_key f = k \<and> field_ok f)"

lemma fits_of_valid: "validate_value_constraint f = Inr () \<Longrightarrow> constraint_fits (cf_constraint f) (kind_of (cf_default f))"
  by (cases "cf_constraint f"; cases "kind_of (cf_default f)") (auto simp: validate_value_constraint_def)

lemma validate_value_safe: "constraint_fits c (kind_of v) \<Longrightarrow> validate_value c v \<noteq> Inl Panicked"
  by (cases c; cases v) (auto simp: validate_value_def)

lemma validate_field_value_safe:
  "constraint_fits (cf_constraint f) (kind_of (cf_default f)) \<Longrightarrow> validate_field_value f v \<noteq> Inl Panicked"
  using validate_value_safe [of "cf_constraint f" v] by (auto simp: validate_field_value_def result_simps)

lemma add_field_Inr:
  "add_field f s = Inr t \<longleftrightarrow>
     map_of s (cf_key f) = None \<and> validate_value_constraint f = Inr () \<and> validate_field_value f (cf_default f) = Inr () \<and>
     t = bt_insert (cf_key f) f s"
  by (auto simp: add_field_def result_simps)

lemma add_field_ok: "add_field f s = Inr t \<Longrightarrow> schema_ok s \<Longrightarrow> schema_ok t"
  using fits_of_valid [of f]
  by (auto simp: add_field_Inr schema_ok_def field_ok_def bt_wf_insert map_of_bt_insert)

lemma schema_ok_empty: "schema_ok []"
  by (simp add: schema_ok_def bt_wf_def)

lemma schema_try_new_Inr:
  assumes "schema_try_new fs = Inr s"
  shows "schema_ok s" "f \<in> set fs \<Longrightarrow> map_of s (cf_key f) = Some f" "map_of s k = Some f \<Longrightarrow> f \<in> set fs"
proof -
  let ?I = "\<lambda>ys s. schema_ok s \<and> (\<forall>f \<in> set ys. map_of s (cf_key f) = Some f) \<and>
    (\<forall>k f. map_of s k = Some f \<longrightarrow> f \<in> set ys)"
  have "?I (sort_key cf_key fs) s"
    using assms unfolding schema_try_new_def
  proof (rule try_fold_inv_prefix)
    show "?I [] []" by (simp add: schema_ok_empty)
    fix ys f s t
    assume "?I ys s" and t: "add_field f s = Inr t"
    then have "schema_ok t" by (blast intro: add_field_ok)
    moreover have "map_of t = (map_of s)(cf_key f \<mapsto> f)" "map_of s (cf_key f) = None"
      using t \<open>?I ys s\<close> by (simp_all add: add_field_Inr schema_ok_def map_of_bt_insert)
    moreover have "cf_key g \<noteq> cf_key f" if "g \<in> set ys" for g
      using that \<open>?I ys s\<close> calculation(3) by auto
    ultimately show "?I (ys @ [f]) t" using \<open>?I ys s\<close> by simp
  qed
  then show "schema_ok s" "f \<in> set fs \<Longrightarrow> map_of s (cf_key f) = Some f" "map_of s k = Some f \<Longrightarrow> f \<in> set fs" by auto
qed

lemma schema_try_new_safe: "schema_try_new fs \<noteq> Inl Panicked"
proof
  assume "schema_try_new fs = Inl Panicked"
  then obtain f s where "add_field f s = Inl Panicked"
    using try_fold_error [of add_field "sort_key cf_key fs" "[]" Panicked "\<lambda>_. True"] by (auto simp: schema_try_new_def)
  then show False
    using validate_field_value_safe [of f "cf_default f"] fits_of_valid [of f]
    by (auto simp: add_field_def result_simps split: if_splits)
qed

section \<open>Assignments\<close>

definition assignment_ok :: "configuration_schema \<Rightarrow> config_assignment \<Rightarrow> bool" where
  "assignment_ok s a \<longleftrightarrow>
     (\<exists>f. map_of s (ca_key a) = Some f \<and> scope_permits (cf_scope f) (sv_source (ca_provenance a)) \<and>
        sv_source (ca_provenance a) \<noteq> CompiledDefault \<and> validate_field_value f (ca_value a) = Inr ())"

lemma check_assignment_Inr: "check_assignment s a p = Inr q \<Longrightarrow> assignment_ok s a"
  by (auto simp: check_assignment_def assignment_ok_def Let_def result_simps split: if_splits)

lemma check_assignment_safe: "schema_ok s \<Longrightarrow> check_assignment s a p \<noteq> Inl Panicked"
  using validate_field_value_safe
  by (fastforce simp: check_assignment_def Let_def result_simps schema_ok_def field_ok_def split: if_splits)

lemma validate_assignments_Inr:
  assumes "validate_assignments s as = Inr bs"
  shows "bs = sort_key assignment_key as" "a \<in> set as \<Longrightarrow> assignment_ok s a"
proof -
  show "bs = sort_key assignment_key as" using assms by (simp add: validate_assignments_def Let_def result_simps)
  obtain q where run: "try_fold (check_assignment s) (sort_key assignment_key as) None = Inr q"
    using assms by (auto simp: validate_assignments_def Let_def result_simps)
  show "assignment_ok s a" if "a \<in> set as"
    using try_fold_all [OF run, of a] that by (auto dest: check_assignment_Inr)
qed

lemma assignment_key_inj: "assignment_key a = assignment_key b \<Longrightarrow> a = b"
  by (auto simp: assignment_key_def intro!: config_assignment.equality source_provenance.equality source_rank_inj)

interpretation assignments: derived_order assignment_key
  by unfold_locales (rule assignment_key_inj)

lemma validate_assignments_perm: "mset as = mset bs \<Longrightarrow> validate_assignments s as = validate_assignments s bs"
  unfolding validate_assignments_def by (drule assignments.sort_perm) simp

section \<open>Policy rules\<close>

text \<open>What a policy makes of a requested value.\<close>

fun obeys :: "policy_constraint \<Rightarrow> config_value \<Rightarrow> config_value \<Rightarrow> bool" where
  "obeys Unconstrained v e = (e = v)"
| "obeys (ForceValue x) v e = (e = x)"
| "obeys (ClampUnsigned lo hi) v e =
     (\<exists>n k. v = UnsignedValue n \<and> e = UnsignedValue k \<and> lo \<le> k \<and> k \<le> hi \<and> (lo \<le> n \<and> n \<le> hi \<longrightarrow> k = n))"
| "obeys (AllowedValues vs) v e = (e = v \<and> v \<in> set vs)"

definition rule_ok :: "config_field \<Rightarrow> policy_constraint \<Rightarrow> bool" where
  "rule_ok f c \<longleftrightarrow>
     (cf_scope f = CompiledDefaultOnly \<longrightarrow> c = Unconstrained) \<and>
     (case c of
        Unconstrained \<Rightarrow> True
      | ForceValue v \<Rightarrow> validate_field_value f v = Inr ()
      | ClampUnsigned lo hi \<Rightarrow> kind_of (cf_default f) = UnsignedKind \<and> lo \<le> hi \<and>
          validate_field_value f (UnsignedValue lo) = Inr () \<and> validate_field_value f (UnsignedValue hi) = Inr ()
      | AllowedValues vs \<Rightarrow> sorted_wrt (<) vs)"

lemma value_or_Inr [result_simps]: "value_or e f v = Inr u \<longleftrightarrow> validate_field_value f v = Inr ()"
  by (simp add: value_or_def result_simps)

lemma no_equal_neighbours:
  "sorted vs \<Longrightarrow> \<not> list_ex (\<lambda>(v, w). v = w) (zip vs (tl vs)) \<Longrightarrow> sorted_wrt (<) vs" for vs :: "'a::linorder list"
proof (induction vs)
  case (Cons v vs)
  then show ?case by (cases vs) (auto simp: less_le)
qed simp

lemma validate_policy_constraint_Inr:
  "validate_policy_constraint f (sort_allowed c) = Inr () \<Longrightarrow> rule_ok f (sort_allowed c)"
  by (cases c) (auto simp: validate_policy_constraint_def rule_ok_def Let_def result_simps not_less
      intro!: no_equal_neighbours split: if_splits)

lemma value_or_safe: "field_ok f \<Longrightarrow> value_or e f v \<noteq> Inl Panicked"
  using validate_field_value_safe [of f v] by (auto simp: value_or_def result_simps field_ok_def)

lemma validate_policy_constraint_safe:
  assumes "field_ok f" shows "validate_policy_constraint f c \<noteq> Inl Panicked"
proof (cases c)
  case (AllowedValues vs)
  show ?thesis
  proof
    assume "validate_policy_constraint f c = Inl Panicked"
    then have "try_fold (\<lambda>v _. if kind_of v \<noteq> kind_of (cf_default f)
        then Inl (Returned (InvalidPolicyConstraint (cf_key f) AllowedValueKindMismatch))
        else value_or (InvalidPolicyConstraint (cf_key f) AllowedValueRejectedBySchema) f v) vs () = Inl Panicked"
      using AllowedValues by (auto simp: validate_policy_constraint_def Let_def split: if_splits)
    then show False
      using try_fold_error [of _ vs "()" Panicked "\<lambda>_. True"] value_or_safe [OF assms] by (fastforce split: if_splits)
  qed
qed (use value_or_safe [OF assms] in \<open>auto simp: validate_policy_constraint_def Let_def result_simps split: if_splits\<close>)

definition sorted_rule :: "policy_rule \<Rightarrow> policy_rule" where
  "sorted_rule r = r\<lparr>pr_constraint := sort_allowed (pr_constraint r)\<rparr>"

lemma add_rule_Inr:
  "add_rule s r m = Inr m' \<longleftrightarrow>
     (\<exists>f. map_of s (pr_key r) = Some f \<and> map_of m (pr_key r) = None \<and> valid_provenance_label (pr_provenance r) \<and>
        validate_policy_constraint f (sort_allowed (pr_constraint r)) = Inr () \<and>
        m' = bt_insert (pr_key r) (sorted_rule r) m)"
  by (auto simp: add_rule_def sorted_rule_def Let_def result_simps)

definition rules_ok :: "configuration_schema \<Rightarrow> (config_key, policy_rule) btree \<Rightarrow> bool" where
  "rules_ok s m \<longleftrightarrow> (\<forall>k r f. map_of m k = Some r \<longrightarrow> map_of s k = Some f \<longrightarrow> rule_ok f (pr_constraint r))"

lemma validate_policy_Inr:
  assumes "validate_policy s rs = Inr m"
  shows "rules_ok s m" "distinct (map pr_key rs)" "r \<in> set rs \<Longrightarrow> map_of m (pr_key r) = Some (sorted_rule r)"
    "k \<notin> pr_key ` set rs \<Longrightarrow> map_of m k = None"
proof -
  let ?I = "\<lambda>ys m. bt_wf m \<and> rules_ok s m \<and> distinct (map pr_key ys) \<and>
    (\<forall>r \<in> set ys. map_of m (pr_key r) = Some (sorted_rule r)) \<and> (\<forall>k. k \<notin> pr_key ` set ys \<longrightarrow> map_of m k = None)"
  have "?I (sort_key pr_key rs) m"
    using assms unfolding validate_policy_def
  proof (rule try_fold_inv_prefix)
    show "?I [] []" by (simp add: bt_wf_def rules_ok_def)
    fix ys r m m'
    assume I: "?I ys m" and m': "add_rule s r m = Inr m'"
    then have new: "map_of m' = (map_of m)(pr_key r \<mapsto> sorted_rule r)" "bt_wf m'" "map_of m (pr_key r) = None"
      by (auto simp: add_rule_Inr map_of_bt_insert bt_wf_insert)
    moreover have "rules_ok s m'"
      using I m' new(1) validate_policy_constraint_Inr by (auto simp: rules_ok_def add_rule_Inr sorted_rule_def)
    moreover have "pr_key r \<notin> pr_key ` set ys" using I new(3) by fastforce
    moreover have "pr_key q \<noteq> pr_key r" if "q \<in> set ys" for q
      using that calculation(5) by (metis imageI)
    ultimately show "?I (ys @ [r]) m'" using I by auto
  qed
  then show "rules_ok s m" "distinct (map pr_key rs)" "r \<in> set rs \<Longrightarrow> map_of m (pr_key r) = Some (sorted_rule r)"
    "k \<notin> pr_key ` set rs \<Longrightarrow> map_of m k = None" by auto
qed

lemma validate_policy_safe: "schema_ok s \<Longrightarrow> validate_policy s rs \<noteq> Inl Panicked"
proof
  assume s: "schema_ok s" and "validate_policy s rs = Inl Panicked"
  then obtain r m where "add_rule s r m = Inl Panicked"
    using try_fold_error [of "add_rule s" "sort_key pr_key rs" "[]" Panicked "\<lambda>_. True"] by (auto simp: validate_policy_def)
  then show False
    using s validate_policy_constraint_safe
    by (fastforce simp: add_rule_def Let_def result_simps schema_ok_def split: if_splits)
qed

section \<open>Applying the policy\<close>

lemma clamped: "lo \<le> hi \<Longrightarrow> lo \<le> max lo (min n hi) \<and> max lo (min n hi) \<le> hi \<and> (lo \<le> n \<and> n \<le> hi \<longrightarrow> max lo (min n hi) = n)"
  for n :: u64 by (auto simp: max_def min_def)

lemma field_value_between:
  assumes "validate_field_value f (UnsignedValue lo) = Inr ()" "validate_field_value f (UnsignedValue hi) = Inr ()"
    and "lo \<le> k" "k \<le> hi"
  shows "validate_field_value f (UnsignedValue k) = Inr ()"
  using assms
  by (cases "cf_constraint f") (auto simp: validate_field_value_def validate_value_def result_simps not_less split: if_splits)

lemma apply_policy_Inr:
  assumes "apply_policy f v (Some r) = Inr e" and "rule_ok f (pr_constraint r)" and "validate_field_value f v = Inr ()"
  shows "obeys (pr_constraint r) v e \<and> validate_field_value f e = Inr ()"
proof (cases "pr_constraint r")
  case (ClampUnsigned lo hi)
  then obtain n where v: "v = UnsignedValue n" and e: "e = UnsignedValue (max lo (min n hi))" and range: "lo \<le> hi"
    using assms by (auto simp: apply_policy_def rule_ok_def split: config_value.splits if_splits)
  have ends: "validate_field_value f (UnsignedValue lo) = Inr ()" "validate_field_value f (UnsignedValue hi) = Inr ()"
    using assms(2) ClampUnsigned by (simp_all add: rule_ok_def)
  have "validate_field_value f e = Inr ()"
    unfolding e using clamped [OF range, of n] by (blast intro: field_value_between [OF ends])
  moreover have "obeys (ClampUnsigned lo hi) v e"
    unfolding v e obeys.simps using clamped [OF range, of n] by blast
  ultimately show ?thesis unfolding ClampUnsigned by blast
next
  case (AllowedValues vs)
  then have "sorted_wrt (<) vs" using assms(2) by (simp add: rule_ok_def)
  then have "v \<in> set vs" if "binary_search vs v = Some i" for i
    using that by (auto simp: binary_search_Some)
  then show ?thesis using assms AllowedValues by (auto simp: apply_policy_def split: option.splits)
qed (use assms in \<open>auto simp: apply_policy_def rule_ok_def\<close>)

lemma apply_policy_safe:
  assumes "policy = None \<or> policy = Some r \<and> rule_ok f (pr_constraint r)" and "validate_field_value f v = Inr ()"
  shows "apply_policy f v policy \<noteq> Inl Panicked"
proof -
  have "kind_of v = kind_of (cf_default f)" using assms(2) by (simp add: validate_field_value_def split: if_splits)
  then show ?thesis
    using assms by (cases "policy"; cases "pr_constraint r"; cases v)
      (auto simp: apply_policy_def rule_ok_def split: option.splits)
qed

section \<open>Resolution\<close>

definition candidate_of :: "config_assignment \<Rightarrow> resolved_value" where
  "candidate_of a = \<lparr>rv_value = ca_value a, rv_provenance = ca_provenance a\<rparr>"

definition candidate_rank :: "resolved_value \<Rightarrow> nat" where
  "candidate_rank c = source_rank (sv_source (rv_provenance c))"

definition requested_of :: "config_assignment list \<Rightarrow> config_key \<Rightarrow> config_field \<Rightarrow> resolved_value" where
  "requested_of as key f = fold (\<lambda>c _. c) (candidates_of as key f) (default_candidate f)"

lemma fold_last: "xs \<noteq> [] \<Longrightarrow> fold (\<lambda>c _. c) xs d = last xs"
  by (induction xs arbitrary: d rule: induct_list012) auto

lemma last_greatest: "sorted (map f xs) \<Longrightarrow> xs \<noteq> [] \<Longrightarrow> last xs \<in> set xs \<and> (\<forall>x \<in> set xs. f x \<le> f (last xs))"
  for f :: "'a \<Rightarrow> nat"
  by (induction xs) (auto split: if_splits)

text \<open>The requested value: the default, or the assignment of the highest source.\<close>

lemma requested_of:
  "requested_of as key f = default_candidate f \<and> (\<forall>a \<in> set as. ca_key a = key \<longrightarrow> candidate_rank (candidate_of a) = 0) \<or>
   (\<exists>a \<in> set as. ca_key a = key \<and> requested_of as key f = candidate_of a \<and>
      (\<forall>b \<in> set as. ca_key b = key \<longrightarrow> candidate_rank (candidate_of b) \<le> candidate_rank (candidate_of a)))"
proof -
  let ?cs = "default_candidate f # map candidate_of (filter (\<lambda>a. ca_key a = key) as)"
  have cs: "candidates_of as key f = sort_key candidate_rank ?cs"
    by (simp only: candidates_of_def candidate_of_def [abs_def] candidate_rank_def [abs_def])
  have all: "set (candidates_of as key f) = set ?cs" unfolding cs by (rule set_sort)
  then have ne: "candidates_of as key f \<noteq> []" by auto
  have "sorted (map candidate_rank (candidates_of as key f))" unfolding cs by (rule sorted_sort_key)
  note greatest = last_greatest [OF this ne, unfolded all]
  have req: "requested_of as key f = last (candidates_of as key f)"
    unfolding requested_of_def by (rule fold_last [OF ne])
  have "last (candidates_of as key f) \<in> set ?cs" using greatest by blast
  then consider "requested_of as key f = default_candidate f"
    | a where "a \<in> set as" "ca_key a = key" "requested_of as key f = candidate_of a" unfolding req by auto
  then show ?thesis
  proof cases
    case 1
    then have "candidate_rank c \<le> 0" if "c \<in> set ?cs" for c
      using req greatest that by (auto simp: default_candidate_def compiled_default_def candidate_rank_def)
    then show ?thesis using 1 by auto
  next
    case 2
    then show ?thesis using req greatest by auto
  qed
qed

definition resolved_field ::
    "config_assignment list \<Rightarrow> (config_key, policy_rule) btree \<Rightarrow> configuration_resolution \<Rightarrow> config_key \<Rightarrow> config_field \<Rightarrow> bool" where
  "resolved_field as m r key f \<longleftrightarrow>
     (\<exists>e. map_of (cr_requested r) key = Some (requested_of as key f) \<and> map_of (cr_effective r) key = Some e \<and>
        apply_policy f (rv_value (requested_of as key f)) (map_of m key) = Inr e)"

lemma resolve_field_Inr:
  "resolve_field as m (key, f) r = Inr r' \<longleftrightarrow>
     (\<exists>e. apply_policy f (rv_value (requested_of as key f)) (map_of m key) = Inr e \<and>
        r' = \<lparr>cr_requested = bt_insert key (requested_of as key f) (cr_requested r),
          cr_effective = bt_insert key e (cr_effective r),
          cr_explain = cr_explain r @
             [\<lparr>er_key = key, er_candidates = candidates_of as key f, er_requested = requested_of as key f,
               er_policy = explain_policy (map_of m key),
               er_constrained = (rv_value (requested_of as key f) \<noteq> e), er_effective = e\<rparr>]\<rparr>)"
  by (auto simp: resolve_field_def requested_of_def Let_def result_simps)

lemma resolve_fields_Inr:
  assumes "try_fold (resolve_field as m) s \<lparr>cr_requested = [], cr_effective = [], cr_explain = []\<rparr> = Inr r"
    and "distinct (map fst s)"
  shows "list_all (\<lambda>(key, f). resolved_field as m r key f) s \<and> map er_key (cr_explain r) = map fst s \<and>
    fst ` set (cr_effective r) = fst ` set s"
proof -
  let ?I = "\<lambda>ys r. bt_wf (cr_requested r) \<and> bt_wf (cr_effective r) \<and>
    list_all (\<lambda>(key, f). resolved_field as m r key f) ys \<and> map er_key (cr_explain r) = map fst ys \<and>
    fst ` set (cr_effective r) = fst ` set ys"
  have "?I s r"
    using assms(1)
  proof (rule try_fold_inv_prefix)
    show "?I [] \<lparr>cr_requested = [], cr_effective = [], cr_explain = []\<rparr>" by (simp add: bt_wf_def)
    fix ys x r r'
    assume pre: "prefix (ys @ [x]) s" and I: "?I ys r" and step: "resolve_field as m x r = Inr r'"
    obtain key f where x: "x = (key, f)" by (cases x)
    obtain zs where s: "s = ys @ (key, f) # zs" using pre x by (auto simp: prefix_def)
    have new: "key \<notin> fst ` set ys" using assms(2) unfolding s by simp
    obtain e where e: "apply_policy f (rv_value (requested_of as key f)) (map_of m key) = Inr e"
      and r': "cr_requested r' = bt_insert key (requested_of as key f) (cr_requested r)"
        "cr_effective r' = bt_insert key e (cr_effective r)" "map er_key (cr_explain r') = map fst (ys @ [x])"
      using step I unfolding x resolve_field_Inr by auto
    have maps: "map_of (cr_requested r') = (map_of (cr_requested r))(key \<mapsto> requested_of as key f)"
      "map_of (cr_effective r') = (map_of (cr_effective r))(key \<mapsto> e)"
      using I unfolding r' by (simp_all add: map_of_bt_insert)
    have "resolved_field as m r' k g" if "(k, g) \<in> set ys" for k g
    proof -
      have "k \<noteq> key" using new that by force
      then show ?thesis using I that maps by (auto simp: resolved_field_def list_all_iff)
    qed
    moreover have "resolved_field as m r' key f" using maps e by (simp add: resolved_field_def)
    ultimately show "?I (ys @ [x]) r'"
      using I r' x by (auto simp: list_all_iff bt_wf_insert set_fst_bt_insert)
  qed
  then show ?thesis by blast
qed

lemma resolve_Inr:
  assumes "schema_ok s" and "resolve_configuration s as rs = Inr r"
  obtains m where "validate_policy s rs = Inr m" "\<And>a. a \<in> set as \<Longrightarrow> assignment_ok s a"
    "\<And>k f. map_of s k = Some f \<Longrightarrow> resolved_field (sort_key assignment_key as) m r k f"
    "fst ` set (cr_effective r) = fst ` set s" "map er_key (cr_explain r) = map fst s"
proof -
  obtain bs m where bs: "validate_assignments s as = Inr bs" and m: "validate_policy s rs = Inr m"
    and run: "try_fold (resolve_field bs m) s \<lparr>cr_requested = [], cr_effective = [], cr_explain = []\<rparr> = Inr r"
    using assms(2) by (auto simp: resolve_configuration_def result_simps)
  have "distinct (map fst s)" using assms(1) by (simp add: schema_ok_def bt_wf_distinct)
  note all = resolve_fields_Inr [OF run this]
  show thesis
  proof (rule that [OF m])
    show "a \<in> set as \<Longrightarrow> assignment_ok s a" for a by (rule validate_assignments_Inr(2) [OF bs])
    show "map_of s k = Some f \<Longrightarrow> resolved_field (sort_key assignment_key as) m r k f" for k f
      using all validate_assignments_Inr(1) [OF bs] by (auto simp: list_all_iff dest!: map_of_SomeD)
    show "fst ` set (cr_effective r) = fst ` set s" "map er_key (cr_explain r) = map fst s" using all by blast+
  qed
qed

text \<open>Where the requested value comes from.\<close>

definition came_from :: "config_assignment list \<Rightarrow> config_field \<Rightarrow> resolved_value \<Rightarrow> bool" where
  "came_from as f v \<longleftrightarrow>
     v = default_candidate f \<and> cf_key f \<notin> ca_key ` set as \<or>
     (\<exists>a \<in> set as. ca_key a = cf_key f \<and> v = candidate_of a \<and> scope_permits (cf_scope f) (sv_source (ca_provenance a)) \<and>
        (\<forall>b \<in> set as. ca_key b = cf_key f \<longrightarrow>
           source_rank (sv_source (ca_provenance b)) \<le> source_rank (sv_source (ca_provenance a))))"

lemma requested_came_from:
  assumes ok: "\<And>a. a \<in> set as \<Longrightarrow> assignment_ok s a" and f: "map_of s (cf_key f) = Some f" and field: "field_ok f"
  shows "came_from as f (requested_of (sort_key assignment_key as) (cf_key f) f) \<and>
    validate_field_value f (rv_value (requested_of (sort_key assignment_key as) (cf_key f) f)) = Inr ()"
proof -
  have rank: "candidate_rank (candidate_of a) = source_rank (sv_source (ca_provenance a))" for a
    by (simp add: candidate_rank_def candidate_of_def)
  have allowed: "scope_permits (cf_scope f) (sv_source (ca_provenance a))" "candidate_rank (candidate_of a) \<noteq> 0"
      "validate_field_value f (ca_value a) = Inr ()" if "a \<in> set as" "ca_key a = cf_key f" for a
    using ok [OF that(1)] f that(2) source_rank_inj [of "sv_source (ca_provenance a)" CompiledDefault]
    by (auto simp: assignment_ok_def rank)
  consider "requested_of (sort_key assignment_key as) (cf_key f) f = default_candidate f" "cf_key f \<notin> ca_key ` set as"
    | a where "a \<in> set as" "ca_key a = cf_key f" "requested_of (sort_key assignment_key as) (cf_key f) f = candidate_of a"
        "\<forall>b \<in> set as. ca_key b = cf_key f \<longrightarrow> candidate_rank (candidate_of b) \<le> candidate_rank (candidate_of a)"
    using requested_of [of "sort_key assignment_key as" "cf_key f" f] allowed(2) by fastforce
  then show ?thesis
  proof cases
    case 1
    then show ?thesis using field by (simp add: came_from_def field_ok_def default_candidate_def)
  next
    case 2
    have "came_from as f (candidate_of a)"
      using 2(1,2,4) allowed(1) [OF 2(1,2)] unfolding came_from_def rank by blast
    then show ?thesis using 2(3) allowed(3) [OF 2(1,2)] by (simp add: candidate_of_def)
  qed
qed

lemma obeys_sorted [simp]: "obeys (sort_allowed c) v e = obeys c v e"
  by (cases c) simp_all

lemma fixed_field:
  assumes "came_from as f v" and "cf_scope f = CompiledDefaultOnly"
  shows "rv_value v = cf_default f"
proof -
  have "\<not> scope_permits CompiledDefaultOnly x" for x by (cases x) simp_all
  then show ?thesis using assms by (auto simp: came_from_def default_candidate_def)
qed

lemma resolve_perm:
  assumes "resolve_configuration s as rs = Inr r" "schema_ok s" and perm: "mset as' = mset as" "mset rs' = mset rs"
  shows "resolve_configuration s as' rs' = Inr r"
proof -
  obtain m where "validate_policy s rs = Inr m" using assms(1) by (auto simp: resolve_configuration_def result_simps)
  then have "inj_on pr_key (set rs)" using validate_policy_Inr(2) [of s rs m] by (simp add: distinct_map)
  then have rules: "sort_key pr_key rs = sort_key pr_key rs'" by (rule sort_key_mset_cong [OF perm(2) [symmetric]])
  have "resolve_configuration s as' rs' = resolve_configuration s as rs"
    unfolding resolve_configuration_def validate_policy_def validate_assignments_perm [OF perm(1), of s] rules ..
  then show ?thesis using assms(1) by simp
qed

text \<open>
  \<^bold>\<open>C31.\<close>  A resolved configuration obeys the product and the administrator.  For every field
  of the schema, the requested value is the default or the assignment of the highest source,
  which the field's scope allows; the effective value satisfies the product constraint; a
  fixed field has its default; with a policy rule the effective value is what the rule
  says, and without one it is the requested value.  Nothing else is configured, and no
  order of the assignments or the rules changes the result.
\<close>

theorem resolution_obeys_schema_and_policy:
  assumes schema: "schema_try_new fs = Inr s" and run: "resolve_configuration s as rs = Inr r"
  shows "list_all (\<lambda>f. \<exists>v e. map_of (cr_requested r) (cf_key f) = Some v \<and> map_of (cr_effective r) (cf_key f) = Some e \<and>
      came_from as f v \<and> validate_field_value f e = Inr () \<and>
      (cf_scope f = CompiledDefaultOnly \<longrightarrow> e = cf_default f) \<and>
      (\<forall>rule \<in> set rs. pr_key rule = cf_key f \<longrightarrow> obeys (pr_constraint rule) (rv_value v) e) \<and>
      (cf_key f \<notin> pr_key ` set rs \<longrightarrow> e = rv_value v)) fs \<and>
    fst ` set (cr_effective r) = cf_key ` set fs \<and>
    (\<forall>as' rs'. mset as' = mset as \<and> mset rs' = mset rs \<longrightarrow> resolve_configuration s as' rs' = Inr r)"
proof -
  note s = schema_try_new_Inr [OF schema]
  obtain m where m: "validate_policy s rs = Inr m" and ok: "\<And>a. a \<in> set as \<Longrightarrow> assignment_ok s a"
    and fields: "\<And>k f. map_of s k = Some f \<Longrightarrow> resolved_field (sort_key assignment_key as) m r k f"
    and keys: "fst ` set (cr_effective r) = fst ` set s"
    using s(1) run by (rule resolve_Inr) blast
  note rules = validate_policy_Inr [OF m]
  have "\<exists>v e. map_of (cr_requested r) (cf_key f) = Some v \<and> map_of (cr_effective r) (cf_key f) = Some e \<and>
      came_from as f v \<and> validate_field_value f e = Inr () \<and>
      (cf_scope f = CompiledDefaultOnly \<longrightarrow> e = cf_default f) \<and>
      (\<forall>rule \<in> set rs. pr_key rule = cf_key f \<longrightarrow> obeys (pr_constraint rule) (rv_value v) e) \<and>
      (cf_key f \<notin> pr_key ` set rs \<longrightarrow> e = rv_value v)" if "f \<in> set fs" for f
  proof -
    have f: "map_of s (cf_key f) = Some f" using s(2) that by blast
    then have field: "field_ok f" using s(1) by (auto simp: schema_ok_def)
    let ?v = "requested_of (sort_key assignment_key as) (cf_key f) f"
    have origin: "came_from as f ?v" "validate_field_value f (rv_value ?v) = Inr ()"
      "cf_scope f = CompiledDefaultOnly \<longrightarrow> rv_value ?v = cf_default f"
      using requested_came_from [of as s f, OF ok f field] fixed_field [of as f ?v] by blast+
    obtain e where e: "map_of (cr_requested r) (cf_key f) = Some ?v" "map_of (cr_effective r) (cf_key f) = Some e"
      "apply_policy f (rv_value ?v) (map_of m (cf_key f)) = Inr e"
      using fields [OF f] by (auto simp: resolved_field_def)
    show ?thesis
    proof (cases "cf_key f \<in> pr_key ` set rs")
      case True
      then obtain rule where rule: "rule \<in> set rs" "pr_key rule = cf_key f" by auto
      then have mapped: "map_of m (cf_key f) = Some (sorted_rule rule)" using rules(3) by metis
      then have "rule_ok f (pr_constraint (sorted_rule rule))" using rules(1) f by (auto simp: rules_ok_def)
      then have "obeys (pr_constraint rule) (rv_value ?v) e" "validate_field_value f e = Inr ()"
          "cf_scope f = CompiledDefaultOnly \<longrightarrow> e = rv_value ?v"
        using apply_policy_Inr [of f "rv_value ?v" "sorted_rule rule" e] e(3) mapped origin
        by (auto simp: sorted_rule_def rule_ok_def apply_policy_def)
      moreover have "q = rule" if "q \<in> set rs" "pr_key q = cf_key f" for q
        using that rule rules(2) by (metis distinct_map inj_on_eq_iff)
      ultimately show ?thesis using e origin True by (intro exI [of _ ?v] exI [of _ e]) auto
    next
      case False
      then have "e = rv_value ?v" using e(3) rules(4) by (simp add: apply_policy_def)
      moreover have "pr_key q \<noteq> cf_key f" if "q \<in> set rs" for q using False that by (metis imageI)
      ultimately show ?thesis using e origin by (intro exI [of _ ?v] exI [of _ e]) auto
    qed
  qed
  moreover have "fst ` set s = cf_key ` set fs"
  proof -
    have "k \<in> fst ` set s \<longleftrightarrow> k \<in> cf_key ` set fs" for k
    proof -
      have "k \<in> fst ` set s \<longleftrightarrow> (\<exists>f. map_of s k = Some f)" by (metis map_of_eq_None_iff not_None_eq)
      also have "\<dots> \<longleftrightarrow> k \<in> cf_key ` set fs" using s by (force simp: schema_ok_def)
      finally show ?thesis .
    qed
    then show ?thesis by blast
  qed
  ultimately show ?thesis
    unfolding list_all_iff keys using resolve_perm [OF run s(1)] by blast
qed

text \<open>
  \<^bold>\<open>C32.\<close>  Resolution never panics: whatever the fields, the assignments and the rules, the
  \<open>unreachable!\<close> arms and the assertion of \<open>clamp\<close> are not reached.
\<close>

theorem configuration_never_panics:
  "and_then (schema_try_new fs) (\<lambda>s. resolve_configuration s as rs) \<noteq> Inl Panicked"
proof (cases "schema_try_new fs")
  case (Inl e)
  then show ?thesis using schema_try_new_safe [of fs] by auto
next
  case (Inr s)
  note s = schema_try_new_Inr(1) [OF Inr]
  have "validate_assignments s as \<noteq> Inl Panicked"
  proof
    assume "validate_assignments s as = Inl Panicked"
    then have "try_fold (check_assignment s) (sort_key assignment_key as) None = Inl Panicked"
      by (simp add: validate_assignments_def Let_def result_simps)
    then show False
      using try_fold_error [of "check_assignment s" _ None Panicked "\<lambda>_. True"] check_assignment_safe [OF s] by blast
  qed
  moreover have "try_fold (resolve_field bs m) s r0 \<noteq> Inl Panicked"
    if bs: "validate_assignments s as = Inr bs" and m: "validate_policy s rs = Inr m" for bs m r0
  proof
    assume "try_fold (resolve_field bs m) s r0 = Inl Panicked"
    then obtain key f r where f: "(key, f) \<in> set s" and "resolve_field bs m (key, f) r = Inl Panicked"
      using try_fold_error [of "resolve_field bs m" s r0 Panicked "\<lambda>_. True"] by auto
    then have fail: "apply_policy f (rv_value (requested_of bs key f)) (map_of m key) = Inl Panicked"
      by (auto simp: resolve_field_def requested_of_def Let_def result_simps)
    have "map_of s key = Some f" using s f by (auto simp: schema_ok_def bt_wf_distinct)
    then have f: "map_of s (cf_key f) = Some f" "cf_key f = key" "field_ok f" using s by (auto simp: schema_ok_def)
    have "validate_field_value f (rv_value (requested_of bs key f)) = Inr ()"
      using requested_came_from [OF validate_assignments_Inr(2) [OF bs] f(1,3)] f(2) validate_assignments_Inr(1) [OF bs] by simp
    moreover have "map_of m key = None \<or> map_of m key = Some r \<and> rule_ok f (pr_constraint r)" if "map_of m key \<noteq> None \<longrightarrow> map_of m key = Some r" for r
      using validate_policy_Inr(1) [OF m] f that by (auto simp: rules_ok_def)
    ultimately show False
      using apply_policy_safe [of "map_of m key" "the (map_of m key)" f] fail by (metis option.collapse)
  qed
  ultimately show ?thesis
    using Inr validate_policy_safe [OF s, of rs] by (auto simp: resolve_configuration_def result_simps)
qed

definition example_field :: config_field where
  "example_field = \<lparr>cf_key = ''n'', cf_default = UnsignedValue 5, cf_scope = TrustedOnly, cf_constraint = UnsignedRange 1 10\<rparr>"

definition example_assignment :: config_assignment where
  "example_assignment = \<lparr>ca_key = ''n'', ca_value = UnsignedValue 9,
     ca_provenance = \<lparr>sv_source = CommandLine, sv_label = ''x''\<rparr>\<rparr>"

definition example_rule :: policy_rule where
  "example_rule = \<lparr>pr_key = ''n'', pr_constraint = ClampUnsigned 2 7, pr_provenance = ''x''\<rparr>"

lemma example_resolves:
  "schema_try_new [example_field] = Inr [(''n'', example_field)]"
  "\<exists>r. resolve_configuration [(''n'', example_field)] [example_assignment] [example_rule] = Inr r"
proof -
  have label: "valid_provenance_label ''x''"
    by (simp add: valid_provenance_label_def trim_def char_width_def chunk_whitespace_def char_is_whitespace_def
        char_is_control_def max_provenance_bytes_def)
  show "schema_try_new [example_field] = Inr [(''n'', example_field)]"
    by (simp add: schema_try_new_def add_field_def example_field_def validate_value_constraint_def validate_field_value_def
        validate_value_def word_le_nat_alt word_less_nat_alt)
  show "\<exists>r. resolve_configuration [(''n'', example_field)] [example_assignment] [example_rule] = Inr r"
    by (simp add: resolve_configuration_def validate_assignments_def check_assignment_def validate_provenance_def
        validate_policy_def add_rule_def validate_policy_constraint_def value_or_def resolve_field_def apply_policy_def
        candidates_of_def default_candidate_def compiled_default_def label Let_def
        example_field_def example_assignment_def example_rule_def validate_field_value_def validate_value_def
        word_le_nat_alt word_less_nat_alt)
qed

theorem resolution_obeys_schema_and_policy_witness:
  "\<exists>r k. resolve_configuration [(''n'', example_field)] [example_assignment] [example_rule] = Inr r \<and>
     map_of (cr_effective r) ''n'' = Some (UnsignedValue k) \<and> k \<le> 7"
proof -
  obtain r where r: "resolve_configuration [(''n'', example_field)] [example_assignment] [example_rule] = Inr r"
    using example_resolves(2) by blast
  have fields: "pr_key example_rule = ''n''" "pr_constraint example_rule = ClampUnsigned 2 7" "cf_key example_field = ''n''"
    by (simp_all add: example_rule_def example_field_def)
  have "example_field \<in> set [example_field]" by simp
  from resolution_obeys_schema_and_policy [OF example_resolves(1) r, THEN conjunct1, unfolded list_all_iff, THEN bspec, OF this]
  obtain v :: resolved_value and e where e: "map_of (cr_effective r) (cf_key example_field) = Some e"
    and rule: "\<forall>rule \<in> set [example_rule]. pr_key rule = cf_key example_field \<longrightarrow> obeys (pr_constraint rule) (rv_value v) e"
    by (elim exE conjE) (rule that)
  have "obeys (ClampUnsigned 2 7) (rv_value v) e"
    using rule [THEN bspec, of example_rule] fields by simp
  then show ?thesis using r e fields(3) by (auto simp only: obeys.simps)
qed

end
