(* ===== verification/Address_Text.thy ===== *)
theory Address_Text
  imports Text_Search
begin

text \<open>
  The standard library's textual numbers and IP addresses: the decimal and hexadecimal
  forms of integers, and the parsers and printers of \<open>Ipv4Addr\<close> and \<open>Ipv6Addr\<close>, with
  the proof that parsing reads back what was printed.
\<close>

section \<open>Numbers\<close>

text \<open>\<open>{n}\<close> and \<open>{n:x}\<close>\<close>

definition digit_text :: "nat \<Rightarrow> char" where
  "digit_text d = (if d < 10 then char_of (48 + d) else char_of (87 + d))"

function numeral_text :: "nat \<Rightarrow> nat \<Rightarrow> string" where
  "numeral_text radix n =
     (if radix < 2 \<or> n < radix then [digit_text n]
      else numeral_text radix (n div radix) @ [digit_text (n mod radix)])"
  by pat_completeness auto

termination numeral_text
  by (relation "measure snd") auto

declare numeral_text.simps [simp del]

abbreviation decimal :: "nat \<Rightarrow> string" where "decimal \<equiv> numeral_text 10"
abbreviation hexadecimal :: "nat \<Rightarrow> string" where "hexadecimal \<equiv> numeral_text 16"

text \<open>\<open>char::to_digit\<close>\<close>

definition to_digit :: "nat \<Rightarrow> char \<Rightarrow> nat option" where
  "to_digit radix b =
     (let v = (if is_ascii_digit b then Some (of_char b - 48)
               else if is_ascii_lowercase b then Some (of_char b - 87)
               else if is_ascii_uppercase b then Some (of_char b - 55) else None)
      in case v of Some d \<Rightarrow> (if d < radix then Some d else None) | None \<Rightarrow> None)"

definition digits_of :: "nat \<Rightarrow> string \<Rightarrow> string" where
  "digits_of radix s = takeWhile (\<lambda>b. to_digit radix b \<noteq> None) s"

definition radix_value :: "nat \<Rightarrow> string \<Rightarrow> nat" where
  "radix_value radix s = foldl (\<lambda>n b. n * radix + the (to_digit radix b)) 0 s"

section \<open>Addresses\<close>

text \<open>
  The parser of \<open>core::net\<close>: \<open>read_number\<close> with a radix, a greatest number of digits, and
  whether a leading zero is allowed, on a type of \<open>below\<close> values; it leaves the rest of the
  input.
\<close>

definition read_number :: "nat \<Rightarrow> nat \<Rightarrow> bool \<Rightarrow> nat \<Rightarrow> string \<Rightarrow> (nat \<times> string) option" where
  "read_number radix most zero_first below s =
     (let ds = digits_of radix s in
      if ds = [] \<or> most < length ds \<or> \<not> zero_first \<and> hd ds = CHR ''0'' \<and> 1 < length ds
         \<or> below \<le> radix_value radix ds
      then None else Some (radix_value radix ds, drop (length ds) s))"

definition read_octet :: "string \<Rightarrow> (nat \<times> string) option" where
  "read_octet = read_number 10 3 False 256"

definition read_group :: "string \<Rightarrow> (nat \<times> string) option" where
  "read_group = read_number 16 4 True 65536"

definition read_separated ::
    "char \<Rightarrow> bool \<Rightarrow> (string \<Rightarrow> ('a \<times> string) option) \<Rightarrow> string \<Rightarrow> ('a \<times> string) option" where
  "read_separated sep at_start inner s =
     (if at_start then inner s else case s of b # r \<Rightarrow> if b = sep then inner r else None | [] \<Rightarrow> None)"

definition read_ipv4 :: "string \<Rightarrow> ((nat \<times> nat \<times> nat \<times> nat) \<times> string) option" where
  "read_ipv4 s =
     Option.bind (read_octet s) (\<lambda>(a, s).
     Option.bind (read_separated (CHR ''.'') False read_octet s) (\<lambda>(b, s).
     Option.bind (read_separated (CHR ''.'') False read_octet s) (\<lambda>(c, s).
     Option.bind (read_separated (CHR ''.'') False read_octet s) (\<lambda>(d, s). Some ((a, b, c, d), s)))))"

definition parse_ipv4 :: "string \<Rightarrow> (nat \<times> nat \<times> nat \<times> nat) option" where
  "parse_ipv4 s =
     (if 15 < length s then None
      else case read_ipv4 s of Some (a, r) \<Rightarrow> (if r = [] then Some a else None) | None \<Rightarrow> None)"

definition ipv4_text :: "nat \<times> nat \<times> nat \<times> nat \<Rightarrow> string" where
  "ipv4_text = (\<lambda>(a, b, c, d). decimal a @ ''.'' @ decimal b @ ''.'' @ decimal c @ ''.'' @ decimal d)"

text \<open>
  \<open>read_groups\<close> fills at most the given number of 16-bit groups; an embedded IPv4 address
  takes two and ends the list.
\<close>

fun read_groups :: "nat \<Rightarrow> bool \<Rightarrow> string \<Rightarrow> nat list \<times> bool \<times> string" where
  "read_groups 0 at_start s = ([], False, s)"
| "read_groups (Suc k) at_start s =
     (case (if 0 < k then read_separated (CHR '':'') at_start read_ipv4 s else None) of
        Some ((a, b, c, d), r) \<Rightarrow> ([a * 256 + b, c * 256 + d], True, r)
      | None \<Rightarrow> (case read_separated (CHR '':'') at_start read_group s of
            None \<Rightarrow> ([], False, s)
          | Some (g, r) \<Rightarrow> (case read_groups k False r of (gs, v4, r') \<Rightarrow> (g # gs, v4, r'))))"

definition parse_ipv6 :: "string \<Rightarrow> nat list option" where
  "parse_ipv6 s =
     (case read_groups 8 True s of (front, v4, r) \<Rightarrow>
        if length front = 8 then (if r = [] then Some front else None)
        else if v4 then None
        else case strip_prefix ''::'' r of
            None \<Rightarrow> None
          | Some r' \<Rightarrow> (case read_groups (7 - length front) True r' of (rear, _, r'') \<Rightarrow>
              if r'' = [] then Some (front @ replicate (8 - length front - length rear) 0 @ rear)
              else None))"

text \<open>\<open>fmt_subslice\<close>, the longest run of zero groups, and the printed address\<close>

definition groups_text :: "nat list \<Rightarrow> string" where
  "groups_text gs = join '':'' (map hexadecimal gs)"

text \<open>The run is its start and its length; the first of the longest wins.\<close>

fun longest_zeros :: "nat \<Rightarrow> nat list \<Rightarrow> nat \<times> nat \<Rightarrow> nat \<times> nat \<Rightarrow> nat \<times> nat" where
  "longest_zeros i [] current longest = longest"
| "longest_zeros i (g # gs) current longest =
     (if g = 0 then
        let current = (if snd current = 0 then i else fst current, Suc (snd current)) in
        longest_zeros (Suc i) gs current (if snd longest < snd current then current else longest)
      else longest_zeros (Suc i) gs (0, 0) longest)"

definition ipv4_mapped :: "nat list \<Rightarrow> (nat \<times> nat \<times> nat \<times> nat) option" where
  "ipv4_mapped gs =
     (if take 6 gs = [0, 0, 0, 0, 0, 65535]
      then Some (gs ! 6 div 256, gs ! 6 mod 256, gs ! 7 div 256, gs ! 7 mod 256) else None)"

definition ipv6_text :: "nat list \<Rightarrow> string" where
  "ipv6_text gs =
     (case ipv4_mapped gs of
        Some a \<Rightarrow> ''::ffff:'' @ ipv4_text a
      | None \<Rightarrow>
          (case longest_zeros 0 gs (0, 0) (0, 0) of (start, n) \<Rightarrow>
             if 1 < n then groups_text (take start gs) @ ''::'' @ groups_text (drop (start + n) gs)
             else groups_text gs))"

section \<open>Reading back what was printed\<close>

lemma digit_text_code: "d < 16 \<Longrightarrow> of_char (digit_text d) = (if d < 10 then 48 + d else 87 + d)"
  by (simp add: digit_text_def)

lemma char_le_code: "c \<le> d \<longleftrightarrow> (of_char c :: nat) \<le> of_char d"
  by (simp add: less_eq_char_def)

lemma to_digit_text: "d < radix \<Longrightarrow> radix \<le> 16 \<Longrightarrow> to_digit radix (digit_text d) = Some d"
  by (auto simp: to_digit_def is_ascii_digit_def is_ascii_lowercase_def is_ascii_uppercase_def
      char_le_code digit_text_code)

lemma digit_text_zero: "d < 16 \<Longrightarrow> digit_text d = CHR ''0'' \<longleftrightarrow> d = 0"
proof -
  have "digit_text d = CHR ''0'' \<longleftrightarrow> (of_char (digit_text d) :: nat) = of_char (CHR ''0'')"
    by (simp only: of_char_eq_iff)
  then show "d < 16 \<Longrightarrow> digit_text d = CHR ''0'' \<longleftrightarrow> d = 0" by (simp add: digit_text_code)
qed

locale numeral_base =
  fixes radix :: nat
  assumes radix: "2 \<le> radix" "radix \<le> 16"
begin

lemma text_digits: "list_all (\<lambda>b. to_digit radix b \<noteq> None) (numeral_text radix n)"
proof (induction n rule: less_induct)
  case (less n)
  have "n mod radix < radix" "\<not> n < radix \<Longrightarrow> n div radix < n" using radix by auto
  then show ?case using less [of "n div radix"] radix
    by (subst numeral_text.simps) (auto simp: to_digit_text)
qed

lemma text_not_Nil [simp]: "numeral_text radix n \<noteq> []"
  by (subst numeral_text.simps) simp

lemma text_value: "radix_value radix (numeral_text radix n) = n"
proof (induction n rule: less_induct)
  case (less n)
  have "n mod radix < radix" "\<not> n < radix \<Longrightarrow> n div radix < n" using radix by auto
  then show ?case using less [of "n div radix"] radix
    by (subst numeral_text.simps) (auto simp: to_digit_text radix_value_def)
qed

lemma text_first: "hd (numeral_text radix n) = CHR ''0'' \<longleftrightarrow> n = 0"
proof (induction n rule: less_induct)
  case (less n)
  have "\<not> n < radix \<Longrightarrow> n div radix < n \<and> n div radix \<noteq> 0"
    using radix by (auto simp: div_greater_zero_iff)
  then show ?case using less [of "n div radix"] radix
    by (subst numeral_text.simps) (auto simp: digit_text_zero)
qed

lemma text_length: "n < radix ^ Suc k \<Longrightarrow> length (numeral_text radix n) \<le> Suc k"
proof (induction k arbitrary: n)
  case 0
  then show ?case by (subst numeral_text.simps) simp
next
  case (Suc k)
  have "n div radix < radix ^ Suc k" using Suc.prems by (simp add: less_mult_imp_div_less mult.commute)
  then show ?case using Suc.IH [of "n div radix"] by (subst numeral_text.simps) simp
qed

lemma read_text:
  assumes "n < below" and "n < radix ^ k" and "0 < k" and "rest = [] \<or> to_digit radix (hd rest) = None"
  shows "read_number radix k zero_first below (numeral_text radix n @ rest) = Some (n, rest)"
proof -
  have ds: "digits_of radix (numeral_text radix n @ rest) = numeral_text radix n"
  proof -
    have "takeWhile (\<lambda>b. to_digit radix b \<noteq> None) rest = []" using assms(4) by (cases rest) auto
    then show ?thesis using text_digits [of n]
      by (simp add: digits_of_def takeWhile_append list_all_iff)
  qed
  have "n = 0 \<Longrightarrow> length (numeral_text radix n) = 1" using radix by (subst numeral_text.simps) simp
  then have "\<not> (hd (numeral_text radix n) = CHR ''0'' \<and> 1 < length (numeral_text radix n))"
    using text_first [of n] by auto
  then show ?thesis
    using assms(1-3) text_length [of n "k - 1"] unfolding read_number_def ds Let_def text_value by auto
qed

end

interpretation dec: numeral_base 10 by unfold_locales simp_all
interpretation hex: numeral_base 16 by unfold_locales simp_all

lemma to_digit_punctuation [simp]:
  "to_digit 10 (CHR ''.'') = None" "to_digit 10 (CHR '':'') = None" "to_digit 16 (CHR '':'') = None"
  by (simp_all add: to_digit_def is_ascii_digit_def is_ascii_lowercase_def is_ascii_uppercase_def
      char_le_code)

lemma read_octet_text:
  "n < 256 \<Longrightarrow> rest = [] \<or> to_digit 10 (hd rest) = None \<Longrightarrow>
     read_octet (decimal n @ rest) = Some (n, rest)"
  using dec.read_text [of n 256 3 rest False] by (simp add: read_octet_def)

lemma read_group_text:
  "n < 65536 \<Longrightarrow> rest = [] \<or> to_digit 16 (hd rest) = None \<Longrightarrow>
     read_group (hexadecimal n @ rest) = Some (n, rest)"
  using hex.read_text [of n 65536 4 rest True] by (simp add: read_group_def)

lemma read_ipv4_text:
  assumes "a < 256" "b < 256" "c < 256" "d < 256"
  shows "read_ipv4 (ipv4_text (a, b, c, d)) = Some ((a, b, c, d), [])"
  using assms read_octet_text [of d "[]"]
  by (simp add: read_ipv4_def ipv4_text_def read_octet_text read_separated_def)

text \<open>A group printed in hexadecimal is not taken for an embedded IPv4 address.\<close>

lemma read_octet_rest:
  assumes "read_octet s = Some (n, r)"
  shows "\<exists>ds. s = ds @ r \<and> list_all (\<lambda>b. to_digit 10 b \<noteq> None) ds"
proof -
  have "r = drop (length (digits_of 10 s)) s"
    using assms by (auto simp: read_octet_def read_number_def Let_def split: if_splits)
  then have r: "r = dropWhile (\<lambda>b. to_digit 10 b \<noteq> None) s"
    by (simp add: digits_of_def dropWhile_eq_drop)
  show "\<exists>ds. s = ds @ r \<and> list_all (\<lambda>b. to_digit 10 b \<noteq> None) ds"
  proof (intro exI conjI)
    show "s = takeWhile (\<lambda>b. to_digit 10 b \<noteq> None) s @ r" unfolding r by simp
    show "list_all (\<lambda>b. to_digit 10 b \<noteq> None) (takeWhile (\<lambda>b. to_digit 10 b \<noteq> None) s)"
      unfolding list_all_iff using set_takeWhileD by metis
  qed
qed

lemma no_dot_no_ipv4:
  assumes "CHR ''.'' \<notin> set g" and "rest = [] \<or> hd rest \<noteq> CHR ''.'' \<and> to_digit 10 (hd rest) = None"
  shows "read_ipv4 (g @ rest) = None"
proof (rule ccontr)
  assume "read_ipv4 (g @ rest) \<noteq> None"
  then obtain n t where octet: "read_octet (g @ rest) = Some (n, t)"
    by (cases "read_octet (g @ rest)") (auto simp: read_ipv4_def)
  then have "read_separated (CHR ''.'') False read_octet t \<noteq> None"
    using \<open>read_ipv4 (g @ rest) \<noteq> None\<close>
    by (cases "read_separated (CHR ''.'') False read_octet t") (auto simp: read_ipv4_def)
  then obtain r where "t = CHR ''.'' # r" by (cases t) (auto simp: read_separated_def split: if_splits)
  with octet have octet: "read_octet (g @ rest) = Some (n, CHR ''.'' # r)" by simp
  obtain ds where ds: "g @ rest = ds @ CHR ''.'' # r" "list_all (\<lambda>b. to_digit 10 b \<noteq> None) ds"
    using read_octet_rest [OF octet] by blast
  show False
  proof (cases "length ds < length g")
    case True
    then have "(g @ rest) ! length ds \<in> set g" by (simp add: nth_append)
    then show False using assms(1) ds(1) by simp
  next
    case False
    then have "rest = drop (length g) (ds @ CHR ''.'' # r)" using ds(1) append_eq_conv_conj [of g rest] by simp
    then have "rest = drop (length g) ds @ CHR ''.'' # r" using False by simp
    moreover have "set (drop (length g) ds) \<subseteq> set ds" by (rule set_drop_subset)
    ultimately show False using assms(2) ds(2)
      by (cases "drop (length g) ds") (auto simp: list_all_iff)
  qed
qed

lemma hexadecimal_plain:
  assumes "c \<in> {CHR ''.'', CHR '':''}"
  shows "c \<notin> set (hexadecimal n)"
proof
  assume "c \<in> set (hexadecimal n)"
  then have "to_digit 16 c \<noteq> None" using hex.text_digits [of n] by (simp add: list_all_iff)
  moreover have "to_digit 16 (CHR ''.'') = None"
    by (simp add: to_digit_def is_ascii_digit_def is_ascii_lowercase_def is_ascii_uppercase_def char_le_code)
  ultimately show False using assms by auto
qed

section \<open>Reading back an IPv6 address\<close>

text \<open>The groups after the first one, each behind its colon.\<close>

definition tail_text :: "nat list \<Rightarrow> string" where
  "tail_text gs = concat (map (\<lambda>g. CHR '':'' # hexadecimal g) gs)"

lemma groups_text_Cons: "groups_text (g # gs) = hexadecimal g @ tail_text gs"
  by (induction gs arbitrary: g) (simp_all add: groups_text_def tail_text_def)

abbreviation ends_groups :: "string \<Rightarrow> bool" where
  "ends_groups rest \<equiv> rest = [] \<or> (\<exists>r. rest = CHR '':'' # CHR '':'' # r)"

lemma no_number:
  "read_ipv4 [] = None" "read_ipv4 (CHR '':'' # r) = None"
  "read_group [] = None" "read_group (CHR '':'' # r) = None"
  by (simp_all add: read_ipv4_def read_octet_def read_group_def read_number_def digits_of_def)

lemma read_groups_stop: "ends_groups rest \<Longrightarrow> read_groups k at_start rest = ([], False, rest)"
  by (cases k) (auto simp: read_separated_def no_number)

lemma group_not_ipv4:
  "rest = [] \<or> hd rest = CHR '':'' \<Longrightarrow> read_ipv4 (hexadecimal g @ rest) = None"
  using hexadecimal_plain [of "CHR ''.''" g] by (intro no_dot_no_ipv4) auto

lemma tail_text_next: "ends_groups rest \<Longrightarrow> tail_text gs @ rest = [] \<or> hd (tail_text gs @ rest) = CHR '':''"
  by (cases gs) (auto simp: tail_text_def)

lemma read_tail_text:
  "list_all (\<lambda>g. g < 65536) gs \<Longrightarrow> length gs \<le> k \<Longrightarrow> ends_groups rest \<Longrightarrow>
     read_groups k False (tail_text gs @ rest) = (gs, False, rest)"
proof (induction gs arbitrary: k)
  case Nil
  have "tail_text [] = []" by (simp add: tail_text_def)
  then show ?case using read_groups_stop [OF Nil.prems(3)] by simp
next
  case (Cons g gs)
  obtain k' where k: "k = Suc k'" using Cons.prems(2) by (cases k) auto
  let ?rest = "tail_text gs @ rest"
  note colon = tail_text_next [OF Cons.prems(3), of gs]
  have printed: "tail_text (g # gs) @ rest = CHR '':'' # hexadecimal g @ ?rest" by (simp add: tail_text_def)
  have "read_groups k' False ?rest = (gs, False, rest)" using Cons k by simp
  moreover have "read_group (hexadecimal g @ ?rest) = Some (g, ?rest)"
    using Cons.prems(1) colon by (intro read_group_text) auto
  ultimately show ?case unfolding printed k
    using group_not_ipv4 [OF colon] by (cases "0 < k'") (auto simp: read_separated_def)
qed

lemma read_groups_text:
  assumes "list_all (\<lambda>g. g < 65536) gs" and "length gs \<le> k" and "ends_groups rest"
  shows "read_groups k True (groups_text gs @ rest) = (gs, False, rest)"
proof (cases gs)
  case Nil
  then show ?thesis using read_groups_stop [OF assms(3)] by (simp add: groups_text_def)
next
  case (Cons g gs')
  obtain k' where k: "k = Suc k'" using assms(2) Cons by (cases k) auto
  let ?rest = "tail_text gs' @ rest"
  note colon = tail_text_next [OF assms(3), of gs']
  have printed: "groups_text gs @ rest = hexadecimal g @ ?rest" by (simp add: Cons groups_text_Cons)
  have "read_groups k' False ?rest = (gs', False, rest)" using assms Cons k by (simp add: read_tail_text)
  moreover have "read_group (hexadecimal g @ ?rest) = Some (g, ?rest)"
    using assms(1) Cons colon by (intro read_group_text) auto
  ultimately show ?thesis unfolding printed k
    using group_not_ipv4 [OF colon] Cons by (cases "0 < k'") (auto simp: read_separated_def)
qed

definition zero_run :: "nat list \<Rightarrow> nat \<times> nat \<Rightarrow> bool" where
  "zero_run gs r \<longleftrightarrow> (\<forall>j < snd r. fst r + j < length gs \<and> gs ! (fst r + j) = 0)"

lemma zero_run_append: "zero_run gs r \<Longrightarrow> zero_run (gs @ hs) r"
  by (auto simp: zero_run_def nth_append)

lemma longest_zeros_run:
  "zero_run front current \<Longrightarrow> (snd current \<noteq> 0 \<longrightarrow> fst current + snd current = length front) \<Longrightarrow>
   zero_run front longest \<Longrightarrow> zero_run (front @ gs) (longest_zeros (length front) gs current longest)"
proof (induction gs arbitrary: front current longest)
  case (Cons g gs)
  define next_run where "next_run = (if snd current = 0 then length front else fst current, Suc (snd current))"
  show ?case
  proof (cases "g = 0")
    case True
    have run: "zero_run (front @ [0]) next_run" unfolding zero_run_def
    proof (intro allI impI)
      fix j assume "j < snd next_run"
      then show "fst next_run + j < length (front @ [0]) \<and> (front @ [0]) ! (fst next_run + j) = 0"
        using Cons.prems(1,2) by (cases "snd current = j") (auto simp: next_run_def zero_run_def nth_append)
    qed
    have "fst next_run + snd next_run = length (front @ [0])"
      using Cons.prems(2) by (auto simp: next_run_def)
    then have "zero_run ((front @ [0]) @ gs) (longest_zeros (length (front @ [0])) gs next_run
        (if snd longest < snd next_run then next_run else longest))"
      using run zero_run_append [OF Cons.prems(3)] by (intro Cons.IH) auto
    moreover have step: "longest_zeros (length front) (g # gs) current longest =
        longest_zeros (length (front @ [0])) gs next_run (if snd longest < snd next_run then next_run else longest)"
      using True by (simp add: Let_def next_run_def)
    ultimately show ?thesis unfolding step using True by simp
  next
    case False
    have "zero_run ((front @ [g]) @ gs) (longest_zeros (length (front @ [g])) gs (0, 0) longest)"
      using zero_run_append [OF Cons.prems(3)]
      by (intro Cons.IH) (simp_all add: zero_run_def [of _ "(0, 0)"])
    then show ?thesis using False by simp
  qed
qed (simp add: zero_run_append)

lemma longest_zeros_split:
  assumes "longest_zeros 0 gs (0, 0) (0, 0) = (start, n)" and "0 < n"
  shows "gs = take start gs @ replicate n 0 @ drop (start + n) gs" and "start + n \<le> length gs"
proof -
  have run: "zero_run gs (start, n)"
    using longest_zeros_run [of "[]" "(0, 0)" "(0, 0)" gs] assms(1) by (simp add: zero_run_def)
  then have "start + (n - 1) < length gs"
    using assms(2) by (simp add: zero_run_def) (metis One_nat_def Suc_pred add_Suc_right diff_Suc_1 lessI)
  then show bound: "start + n \<le> length gs" by simp
  have "take n (drop start gs) = replicate n 0"
    using run bound by (intro nth_equalityI) (auto simp: zero_run_def)
  then show "gs = take start gs @ replicate n 0 @ drop (start + n) gs"
    by (metis append_take_drop_id drop_drop add.commute)
qed

lemma parse_ipv6_text:
  assumes len: "length gs = 8" and small: "list_all (\<lambda>g. g < 65536) gs"
  shows "parse_ipv6 (ipv6_text gs) = Some gs"
proof (cases "ipv4_mapped gs")
  case None
  obtain start n where run: "longest_zeros 0 gs (0, 0) (0, 0) = (start, n)" by fastforce
  show ?thesis
  proof (cases "1 < n")
    case True
    note split = longest_zeros_split [OF run order.strict_trans [OF zero_less_one True]]
    let ?front = "take start gs" and ?rear = "drop (start + n) gs"
    have printed: "ipv6_text gs = groups_text ?front @ ''::'' @ groups_text ?rear"
      using None True run by (simp add: ipv6_text_def)
    have parts: "list_all (\<lambda>g. g < 65536) ?front" "list_all (\<lambda>g. g < 65536) ?rear"
      using small by (auto simp: list_all_iff dest: in_set_takeD in_set_dropD)
    have lengths: "length ?front = start" "length ?rear = 8 - start - n" "start < 8"
      using split(2) len True by auto
    have "read_groups 8 True (groups_text ?front @ ''::'' @ groups_text ?rear) =
        (?front, False, ''::'' @ groups_text ?rear)"
      using parts lengths by (intro read_groups_text) auto
    moreover have "read_groups (7 - start) True (groups_text ?rear) = (?rear, False, [])"
      using read_groups_text [of ?rear "7 - start" "[]"] parts lengths True by simp
    moreover have "8 - start - (8 - start - n) = n" using split(2) len by simp
    ultimately show ?thesis unfolding printed parse_ipv6_def using lengths split by simp
  next
    case False
    then have "ipv6_text gs = groups_text gs" using None run by (simp add: ipv6_text_def)
    then show ?thesis using read_groups_text [OF small, of 8 "[]"] len by (simp add: parse_ipv6_def)
  qed
next
  case (Some a)
  then have front: "take 6 gs = [0, 0, 0, 0, 0, 65535]"
    and a: "a = (gs ! 6 div 256, gs ! 6 mod 256, gs ! 7 div 256, gs ! 7 mod 256)"
    by (auto simp: ipv4_mapped_def split: if_splits)
  have "gs ! 6 < 65536" "gs ! 7 < 65536" using small len by (simp_all add: list_all_length)
  then have "read_ipv4 (ipv4_text a) = Some (a, [])"
    unfolding a by (intro read_ipv4_text) (simp_all add: less_mult_imp_div_less)
  moreover have hex: "hexadecimal 65535 = ''ffff''" 
    by (simp add: numeral_text.simps digit_text_def char_of_eq_iff)
  moreover have "read_group (hexadecimal 65535 @ CHR '':'' # ipv4_text a) = Some (65535, CHR '':'' # ipv4_text a)"
    by (rule read_group_text) simp_all
  moreover have "read_ipv4 (hexadecimal 65535 @ CHR '':'' # ipv4_text a) = None"
    by (rule group_not_ipv4) simp
  ultimately have "read_groups 7 True (''ffff:'' @ ipv4_text a) = ([65535, gs ! 6, gs ! 7], True, [])"
    by (simp add: read_groups.simps(2) [of 6, unfolded Suc_numeral add_num_simps]
      read_groups.simps(2) [of 5, unfolded Suc_numeral add_num_simps] read_separated_def a)
  moreover have "read_groups 8 True (''::ffff:'' @ ipv4_text a) = ([], False, ''::ffff:'' @ ipv4_text a)"
    by (rule read_groups_stop) simp
  moreover have "gs = take 6 gs @ [gs ! 6, gs ! 7]"
    using len Cons_nth_drop_Suc [of 6 gs] Cons_nth_drop_Suc [of 7 gs] append_take_drop_id [of 6 gs] by simp
  moreover have "replicate 5 (0 :: nat) = [0, 0, 0, 0, 0]" by (simp add: numeral_eq_Suc)
  ultimately show ?thesis using Some front by (simp add: ipv6_text_def parse_ipv6_def)
qed

end
