(* ===== verification/Gitlab_Context.thy ===== *)
theory Gitlab_Context
  imports Address_Text Snapshot Ordered_Map Egress
begin

text \<open>
  \<open>gitlab_context.rs\<close>: canonical GitLab origins, project paths and ref names, the
  classification of the CI environment into an untrusted hint, and its verification against
  the merge request that the authenticated adapter observed.  A function that inserts into
  \<open>&mut reasons\<close> returns the set it leaves.
\<close>

section \<open>Origins\<close>

definition https_prefix :: string where "https_prefix = ''https://''"
definition default_https_port :: u16 where "default_https_port = 443"
definition max_host_bytes :: nat where "max_host_bytes = 253"
definition max_host_label_bytes :: nat where "max_host_label_bytes = 63"
definition max_project_path_bytes :: nat where "max_project_path_bytes = 1024"
definition max_project_path_component_bytes :: nat where "max_project_path_component_bytes = 255"
definition max_project_path_components :: nat where "max_project_path_components = 20"
definition max_ref_bytes :: nat where "max_ref_bytes = 1024"
definition max_ref_component_bytes :: nat where "max_ref_component_bytes = 255"

record gitlab_origin_policy =
  supported_non_default_ports :: "u16 set"

datatype gitlab_origin_policy_error = ZeroPort | DefaultPort

definition gitlab_origin_policy_new :: "u16 list \<Rightarrow> gitlab_origin_policy_error + gitlab_origin_policy" where
  "gitlab_origin_policy_new ports =
     and_then
       (try_fold (\<lambda>port seen.
          if port = 0 then Inl ZeroPort
          else if port = default_https_port then Inl DefaultPort
          else Inr (insert port seen)) ports {})
       (\<lambda>seen. Inr \<lparr>supported_non_default_ports = seen\<rparr>)"

definition origin_policy_supports :: "gitlab_origin_policy \<Rightarrow> u16 \<Rightarrow> bool" where
  "origin_policy_supports p port \<longleftrightarrow>
     port = default_https_port \<or> port \<in> supported_non_default_ports p"

record gitlab_origin =
  go_canonical :: string
  go_host :: string
  go_non_default_port :: "u16 option"

datatype gitlab_origin_error =
  OriginScheme | OriginUserInfo | OriginPath | OriginQuery | OriginFragment
| OriginHost | OriginPort | UnsupportedPort u16

definition parse_port :: "string \<Rightarrow> gitlab_origin_error + u16" where
  "parse_port raw_port =
     (if raw_port = [] \<or> \<not> list_all is_ascii_digit raw_port
         \<or> 1 < length raw_port \<and> starts_with ''0'' raw_port
      then Inl OriginPort
      else and_then (ok_or OriginPort (try_word (decimal_value raw_port)))
        (\<lambda>port. if port = 0 then Inl OriginPort else Inr port))"

definition parse_port_suffix :: "string \<Rightarrow> gitlab_origin_error + u16" where
  "parse_port_suffix after =
     (if after = [] then Inr default_https_port
      else and_then (ok_or OriginPort (strip_prefix '':'' after)) parse_port)"

definition host_label_ok :: "string \<Rightarrow> bool" where
  "host_label_ok label \<longleftrightarrow>
     \<not> (label = [] \<or> max_host_label_bytes < length label \<or> starts_with ''-'' label \<or> ends_with ''-'' label
        \<or> \<not> list_all (\<lambda>b. is_ascii_alphanumeric b \<or> b = CHR ''-'') label)"

definition canonical_host :: "string \<Rightarrow> gitlab_origin_error + string" where
  "canonical_host raw_host =
     (if raw_host = [] \<or> max_host_bytes < length raw_host \<or> \<not> is_ascii raw_host
         \<or> ends_with ''.'' raw_host \<or> contains ''%'' raw_host
      then Inl OriginHost
      else if list_all (\<lambda>b. is_ascii_digit b \<or> b = CHR ''.'') raw_host
      then ok_or OriginHost (map_option ipv4_text (parse_ipv4 raw_host))
      else if list_all host_label_ok (split_on (CHR ''.'') raw_host)
      then Inr (ascii_lowercase raw_host)
      else Inl OriginHost)"

text \<open>\<open>str::rsplit_once\<close> by a character\<close>

definition rsplit_once :: "char \<Rightarrow> string \<Rightarrow> (string \<times> string) option" where
  "rsplit_once c s =
     (if c \<in> set s
      then (let after = takeWhile (\<lambda>b. b \<noteq> c) (rev s)
            in Some (rev (drop (Suc (length after)) (rev s)), rev after))
      else None)"

definition authority_parse :: "string \<Rightarrow> gitlab_origin_error + string \<times> u16" where
  "authority_parse authority =
     (if authority = [] then Inl OriginHost
      else case strip_prefix ''['' authority of
        Some bracketed \<Rightarrow>
          if CHR '']'' \<notin> set bracketed then Inl OriginHost
          else
            let literal = takeWhile (\<lambda>b. b \<noteq> CHR '']'') bracketed;
                suffix_with_bracket = dropWhile (\<lambda>b. b \<noteq> CHR '']'') bracketed in
            and_then (ok_or OriginHost (parse_ipv6 literal)) (\<lambda>address.
            and_then (ok_or OriginHost (strip_prefix '']'' suffix_with_bracket)) (\<lambda>after.
            and_then (parse_port_suffix after) (\<lambda>port.
            Inr (''['' @ ipv6_text address @ '']'', port))))
      | None \<Rightarrow>
          if CHR ''['' \<in> set authority \<or> CHR '']'' \<in> set authority
             \<or> 1 < length (filter (\<lambda>b. b = CHR '':'') authority)
          then Inl OriginHost
          else
            and_then
              (case rsplit_once (CHR '':'') authority of
                 Some (host, raw_port) \<Rightarrow> and_then (parse_port raw_port) (\<lambda>port. Inr (host, port))
               | None \<Rightarrow> Inr (authority, default_https_port))
              (\<lambda>(raw_host, port). and_then (canonical_host raw_host) (\<lambda>host. Inr (host, port))))"

definition gitlab_origin_parse :: "string \<Rightarrow> gitlab_origin_policy \<Rightarrow> gitlab_origin_error + gitlab_origin" where
  "gitlab_origin_parse value policy =
     and_then (ok_or OriginScheme (strip_prefix https_prefix value)) (\<lambda>authority.
     if CHR ''@'' \<in> set authority then Inl OriginUserInfo
     else if CHR ''?'' \<in> set authority then Inl OriginQuery
     else if CHR ''#'' \<in> set authority then Inl OriginFragment
     else
       let authority = (case strip_suffix ''/'' authority of Some a \<Rightarrow> a | None \<Rightarrow> authority) in
       if CHR ''/'' \<in> set authority then Inl OriginPath
       else and_then (authority_parse authority) (\<lambda>(host, port).
         if \<not> origin_policy_supports policy port then Inl (UnsupportedPort port)
         else
           let non_default_port = (if port \<noteq> default_https_port then Some port else None) in
           Inr \<lparr>go_canonical =
                  (case non_default_port of
                     None \<Rightarrow> https_prefix @ host
                   | Some port \<Rightarrow> https_prefix @ host @ '':'' @ decimal (unat port)),
                go_host = host, go_non_default_port = non_default_port\<rparr>))"

definition gitlab_origin_port :: "gitlab_origin \<Rightarrow> u16" where
  "gitlab_origin_port origin = (case go_non_default_port origin of Some port \<Rightarrow> port | None \<Rightarrow> default_https_port)"

section \<open>Project paths and ref names\<close>

type_synonym gitlab_project_path = string

datatype gitlab_project_path_error = PPEmpty | PPLength | PPDepth | PPComponent | PPCharacter

definition name_byte :: "char \<Rightarrow> bool" where
  "name_byte b \<longleftrightarrow> is_ascii_alphanumeric b \<or> b = CHR ''-'' \<or> b = CHR ''_'' \<or> b = CHR ''.''"

definition check_path_component :: "string \<Rightarrow> unit \<Rightarrow> gitlab_project_path_error + unit" where
  "check_path_component component _ =
     (if component = [] \<or> max_project_path_component_bytes < length component
         \<or> component = ''.'' \<or> component = ''..'' then Inl PPComponent
      else if \<not> list_all name_byte component then Inl PPCharacter
      else Inr ())"

definition gitlab_project_path_try_from :: "string \<Rightarrow> gitlab_project_path_error + gitlab_project_path" where
  "gitlab_project_path_try_from value =
     (if value = [] then Inl PPEmpty
      else if max_project_path_bytes < length value then Inl PPLength
      else
        let components = split_on (CHR ''/'') value in
        if length components < 2 \<or> max_project_path_components < length components then Inl PPDepth
        else and_then (try_fold check_path_component components ()) (\<lambda>_. Inr value))"

type_synonym git_ref_name = string

datatype git_ref_name_error = RefEmpty | RefLength | RefComponent | RefCharacter | RefAmbiguous

text \<open>\<open>component.get(i..).is_some_and(...)\<close>\<close>

definition lock_component :: "string \<Rightarrow> bool" where
  "lock_component component \<longleftrightarrow>
     (case slice_from (length component - 5) component of
        Some tail \<Rightarrow> ascii_lowercase tail = ascii_lowercase ''.lock'' | None \<Rightarrow> False)"

definition check_ref_component :: "string \<Rightarrow> unit \<Rightarrow> git_ref_name_error + unit" where
  "check_ref_component component _ =
     (if component = [] \<or> max_ref_component_bytes < length component
         \<or> starts_with ''.'' component \<or> lock_component component then Inl RefComponent
      else if \<not> list_all name_byte component then Inl RefCharacter
      else Inr ())"

definition git_ref_name_try_from :: "string \<Rightarrow> git_ref_name_error + git_ref_name" where
  "git_ref_name_try_from value =
     (if value = [] then Inl RefEmpty
      else if max_ref_bytes < length value then Inl RefLength
      else if starts_with ''/'' value \<or> starts_with ''-'' value \<or> ends_with ''/'' value
         \<or> ends_with ''.'' value \<or> contains ''//'' value \<or> contains ''..'' value \<or> contains [CHR ''@'', CHR ''{''] value
      then Inl RefAmbiguous
      else and_then (try_fold check_ref_component (split_on (CHR ''/'') value) ()) (\<lambda>_. Inr value))"

record gitlab_project_identity =
  gp_id :: u64
  gp_path :: gitlab_project_path

section \<open>The CI environment\<close>

datatype ci_field =
  ServerUrl | PipelineSource | PipelineProjectId | PipelineProjectPath
| MergeRequestProjectId | MergeRequestProjectPath | MergeRequestIid
| MergeRequestSourceProjectId | MergeRequestSourceProjectPath
| MergeRequestSourceBranch | MergeRequestTargetBranch | MergeRequestEventType
| CommitSha | MergeRequestSourceBranchSha

fun environment_name :: "ci_field \<Rightarrow> string" where
  "environment_name ServerUrl = ''CI_SERVER_URL''"
| "environment_name PipelineSource = ''CI_PIPELINE_SOURCE''"
| "environment_name PipelineProjectId = ''CI_PROJECT_ID''"
| "environment_name PipelineProjectPath = ''CI_PROJECT_PATH''"
| "environment_name MergeRequestProjectId = ''CI_MERGE_REQUEST_PROJECT_ID''"
| "environment_name MergeRequestProjectPath = ''CI_MERGE_REQUEST_PROJECT_PATH''"
| "environment_name MergeRequestIid = ''CI_MERGE_REQUEST_IID''"
| "environment_name MergeRequestSourceProjectId = ''CI_MERGE_REQUEST_SOURCE_PROJECT_ID''"
| "environment_name MergeRequestSourceProjectPath = ''CI_MERGE_REQUEST_SOURCE_PROJECT_PATH''"
| "environment_name MergeRequestSourceBranch = ''CI_MERGE_REQUEST_SOURCE_BRANCH_NAME''"
| "environment_name MergeRequestTargetBranch = ''CI_MERGE_REQUEST_TARGET_BRANCH_NAME''"
| "environment_name MergeRequestEventType = ''CI_MERGE_REQUEST_EVENT_TYPE''"
| "environment_name CommitSha = ''CI_COMMIT_SHA''"
| "environment_name MergeRequestSourceBranchSha = ''CI_MERGE_REQUEST_SOURCE_BRANCH_SHA''"

definition required_ci_fields :: "ci_field list" where
  "required_ci_fields =
     [ServerUrl, PipelineSource, PipelineProjectId, PipelineProjectPath,
      MergeRequestProjectId, MergeRequestProjectPath, MergeRequestIid,
      MergeRequestSourceProjectId, MergeRequestSourceProjectPath,
      MergeRequestSourceBranch, MergeRequestTargetBranch, MergeRequestEventType, CommitSha]"

definition ci_field_of :: "string \<Rightarrow> ci_field option" where
  "ci_field_of name =
     find (\<lambda>field. environment_name field = name) (required_ci_fields @ [MergeRequestSourceBranchSha])"

text \<open>The derived order of the fields is the order of their declaration.\<close>

fun ci_field_rank :: "ci_field \<Rightarrow> nat" where
  "ci_field_rank ServerUrl = 0"
| "ci_field_rank PipelineSource = 1"
| "ci_field_rank PipelineProjectId = 2"
| "ci_field_rank PipelineProjectPath = 3"
| "ci_field_rank MergeRequestProjectId = 4"
| "ci_field_rank MergeRequestProjectPath = 5"
| "ci_field_rank MergeRequestIid = 6"
| "ci_field_rank MergeRequestSourceProjectId = 7"
| "ci_field_rank MergeRequestSourceProjectPath = 8"
| "ci_field_rank MergeRequestSourceBranch = 9"
| "ci_field_rank MergeRequestTargetBranch = 10"
| "ci_field_rank MergeRequestEventType = 11"
| "ci_field_rank CommitSha = 12"
| "ci_field_rank MergeRequestSourceBranchSha = 13"

lemma ci_field_rank_inj: "ci_field_rank f = ci_field_rank g \<Longrightarrow> f = g"
  by (cases f; cases g) simp_all

instantiation ci_field :: linorder
begin

definition less_eq_ci_field :: "ci_field \<Rightarrow> ci_field \<Rightarrow> bool" where
  "f \<le> g \<longleftrightarrow> ci_field_rank f \<le> ci_field_rank g"

definition less_ci_field :: "ci_field \<Rightarrow> ci_field \<Rightarrow> bool" where
  "f < g \<longleftrightarrow> ci_field_rank f < ci_field_rank g"

instance
  by intro_classes (auto simp: less_eq_ci_field_def less_ci_field_def intro: ci_field_rank_inj)

end

datatype ci_ambiguity =
  DuplicateVariable ci_field | InvalidCiValue ci_field | UnsupportedPipelineSource
| UnsupportedMergeRequestEventType | ConflictingHeadSha | InconsistentProjectIdentity
| UnrelatedPipelineProject

fun ci_ambiguity_key :: "ci_ambiguity \<Rightarrow> nat \<times> nat" where
  "ci_ambiguity_key (DuplicateVariable f) = (0, ci_field_rank f)"
| "ci_ambiguity_key (InvalidCiValue f) = (1, ci_field_rank f)"
| "ci_ambiguity_key UnsupportedPipelineSource = (2, 0)"
| "ci_ambiguity_key UnsupportedMergeRequestEventType = (3, 0)"
| "ci_ambiguity_key ConflictingHeadSha = (4, 0)"
| "ci_ambiguity_key InconsistentProjectIdentity = (5, 0)"
| "ci_ambiguity_key UnrelatedPipelineProject = (6, 0)"

lemma ci_ambiguity_key_inj: "ci_ambiguity_key a = ci_ambiguity_key b \<Longrightarrow> a = b"
  by (cases a; cases b) (auto intro: ci_field_rank_inj)

instantiation ci_ambiguity :: linorder
begin

definition less_eq_ci_ambiguity :: "ci_ambiguity \<Rightarrow> ci_ambiguity \<Rightarrow> bool" where
  "a \<le> b \<longleftrightarrow> ci_ambiguity_key a \<le> ci_ambiguity_key b"

definition less_ci_ambiguity :: "ci_ambiguity \<Rightarrow> ci_ambiguity \<Rightarrow> bool" where
  "a < b \<longleftrightarrow> ci_ambiguity_key a < ci_ambiguity_key b"

instance
  by intro_classes (auto simp: less_eq_ci_ambiguity_def less_ci_ambiguity_def less_le
    dest: ci_ambiguity_key_inj)

end

record gitlab_ci_hint =
  hint_origin :: gitlab_origin
  hint_pipeline_project :: gitlab_project_identity
  hint_target_project :: gitlab_project_identity
  hint_source_project :: gitlab_project_identity
  hint_merge_request_iid :: u64
  hint_source_ref :: git_ref_name
  hint_target_ref :: git_ref_name
  hint_head_sha :: git_sha

definition hint_is_fork :: "gitlab_ci_hint \<Rightarrow> bool" where
  "hint_is_fork h \<longleftrightarrow> hint_source_project h \<noteq> hint_target_project h"

datatype gitlab_ci_context =
  CiReady gitlab_ci_hint | CiMissing "ci_field list" | CiAmbiguous "ci_ambiguity list"
| CiForkMismatch gitlab_ci_hint

fun ci_context_hint :: "gitlab_ci_context \<Rightarrow> gitlab_ci_hint option" where
  "ci_context_hint (CiReady h) = Some h"
| "ci_context_hint (CiForkMismatch h) = Some h"
| "ci_context_hint (CiMissing _) = None"
| "ci_context_hint (CiAmbiguous _) = None"

type_synonym ci_variables = "(ci_field, string) btree"

definition collect_variable ::
    "string \<times> string \<Rightarrow> ci_variables \<times> ci_ambiguity list \<Rightarrow> ci_variables \<times> ci_ambiguity list" where
  "collect_variable = (\<lambda>(name, value) (selected, reasons).
     case ci_field_of name of
       None \<Rightarrow> (selected, reasons)
     | Some field \<Rightarrow>
         (bt_insert field value selected,
          if map_of selected field \<noteq> None then bs_insert (DuplicateVariable field) reasons else reasons))"

definition collect_ci_variables :: "(string \<times> string) list \<Rightarrow> ci_variables \<times> ci_ambiguity list" where
  "collect_ci_variables variables = fold collect_variable variables ([], [])"

definition missing_ci_fields :: "ci_variables \<Rightarrow> ci_field list" where
  "missing_ci_fields selected =
     filter (\<lambda>field. case map_of selected field of None \<Rightarrow> True | Some v \<Rightarrow> v = []) required_ci_fields"

definition parse_ci_value ::
    "ci_variables \<Rightarrow> ci_field \<Rightarrow> (string \<Rightarrow> 'e + 'a) \<Rightarrow> ci_ambiguity list \<Rightarrow> 'a option \<times> ci_ambiguity list" where
  "parse_ci_value selected field parser reasons =
     (case map_of selected field of
        None \<Rightarrow> (None, reasons)
      | Some value \<Rightarrow>
          if value = [] then (None, reasons)
          else case parser value of
            Inr parsed \<Rightarrow> (Some parsed, reasons)
          | Inl _ \<Rightarrow> (None, bs_insert (InvalidCiValue field) reasons))"

definition parse_optional_ci_value ::
    "ci_variables \<Rightarrow> ci_field \<Rightarrow> (string \<Rightarrow> 'e + 'a) \<Rightarrow> ci_ambiguity list \<Rightarrow> 'a option \<times> ci_ambiguity list" where
  "parse_optional_ci_value selected field parser reasons =
     (case map_of selected field of
        None \<Rightarrow> (None, reasons)
      | Some value \<Rightarrow>
          if value = [] then (None, reasons)
          else case parser value of
            Inr parsed \<Rightarrow> (Some parsed, reasons)
          | Inl _ \<Rightarrow> (None, bs_insert (InvalidCiValue field) reasons))"

definition positive_number :: "string \<Rightarrow> unit + u64" where
  "positive_number value =
     (if value = [] \<or> \<not> list_all is_ascii_digit value \<or> starts_with ''0'' value then Inl ()
      else and_then (ok_or () (try_word (decimal_value value)))
        (\<lambda>i. if 0 < i then Inr i else Inl ()))"

definition parse_ci_positive_number ::
    "ci_variables \<Rightarrow> ci_field \<Rightarrow> ci_ambiguity list \<Rightarrow> u64 option \<times> ci_ambiguity list" where
  "parse_ci_positive_number selected field reasons = parse_ci_value selected field positive_number reasons"

text \<open>\<open>.and_then(|id| ProjectId::try_from(id).ok())\<close>\<close>

definition positive_id_ok :: "u64 option \<Rightarrow> u64 option" where
  "positive_id_ok n =
     Option.bind n (\<lambda>v. case positive_id_try_from v of Inr i \<Rightarrow> Some i | Inl _ \<Rightarrow> None)"

definition parse_ci_positive_id ::
    "ci_variables \<Rightarrow> ci_field \<Rightarrow> ci_ambiguity list \<Rightarrow> u64 option \<times> ci_ambiguity list" where
  "parse_ci_positive_id selected field reasons =
     (let (n, reasons) = parse_ci_positive_number selected field reasons in (positive_id_ok n, reasons))"

definition parse_ci_project_path ::
    "ci_variables \<Rightarrow> ci_field \<Rightarrow> ci_ambiguity list \<Rightarrow> gitlab_project_path option \<times> ci_ambiguity list" where
  "parse_ci_project_path selected field reasons =
     parse_ci_value selected field gitlab_project_path_try_from reasons"

definition parse_ci_ref ::
    "ci_variables \<Rightarrow> ci_field \<Rightarrow> ci_ambiguity list \<Rightarrow> git_ref_name option \<times> ci_ambiguity list" where
  "parse_ci_ref selected field reasons = parse_ci_value selected field git_ref_name_try_from reasons"

record parsed_ci_projects =
  pj_pipeline_id :: "u64 option"
  pj_pipeline_path :: "gitlab_project_path option"
  pj_target_id :: "u64 option"
  pj_target_path :: "gitlab_project_path option"
  pj_source_id :: "u64 option"
  pj_source_path :: "gitlab_project_path option"

definition parse_ci_projects ::
    "ci_variables \<Rightarrow> ci_ambiguity list \<Rightarrow> parsed_ci_projects \<times> ci_ambiguity list" where
  "parse_ci_projects selected reasons =
     (let (pipeline_id, reasons) = parse_ci_positive_id selected PipelineProjectId reasons;
          (pipeline_path, reasons) = parse_ci_project_path selected PipelineProjectPath reasons;
          (target_id, reasons) = parse_ci_positive_id selected MergeRequestProjectId reasons;
          (target_path, reasons) = parse_ci_project_path selected MergeRequestProjectPath reasons;
          (source_id, reasons) = parse_ci_positive_id selected MergeRequestSourceProjectId reasons;
          (source_path, reasons) = parse_ci_project_path selected MergeRequestSourceProjectPath reasons
      in (\<lparr>pj_pipeline_id = pipeline_id, pj_pipeline_path = pipeline_path,
           pj_target_id = target_id, pj_target_path = target_path,
           pj_source_id = source_id, pj_source_path = source_path\<rparr>, reasons))"

record parsed_ci_review =
  pv_origin :: "gitlab_origin option"
  pv_merge_request_iid :: "u64 option"
  pv_source_ref :: "git_ref_name option"
  pv_target_ref :: "git_ref_name option"
  pv_head_sha :: "git_sha option"

definition parse_ci_review ::
    "ci_variables \<Rightarrow> gitlab_origin_policy \<Rightarrow> ci_ambiguity list \<Rightarrow> parsed_ci_review \<times> ci_ambiguity list" where
  "parse_ci_review selected policy reasons =
     (let (found_origin, reasons) =
            parse_ci_value selected ServerUrl (\<lambda>value. gitlab_origin_parse value policy) reasons;
          (iid, reasons) = parse_ci_positive_number selected MergeRequestIid reasons;
          (source_ref, reasons) = parse_ci_ref selected MergeRequestSourceBranch reasons;
          (target_ref, reasons) = parse_ci_ref selected MergeRequestTargetBranch reasons;
          (head_sha, reasons) = parse_ci_value selected CommitSha git_sha_try_from reasons
      in (\<lparr>pv_origin = found_origin, pv_merge_request_iid = positive_id_ok iid,
           pv_source_ref = source_ref, pv_target_ref = target_ref, pv_head_sha = head_sha\<rparr>, reasons))"

definition unsupported_value :: "ci_variables \<Rightarrow> ci_field \<Rightarrow> string \<Rightarrow> bool" where
  "unsupported_value selected field expected \<longleftrightarrow>
     (case map_of selected field of Some value \<Rightarrow> value \<noteq> [] \<and> value \<noteq> expected | None \<Rightarrow> False)"

definition validate_ci_execution ::
    "ci_variables \<Rightarrow> git_sha option \<Rightarrow> ci_ambiguity list \<Rightarrow> ci_ambiguity list" where
  "validate_ci_execution selected head_sha reasons =
     (let reasons = insert_if (unsupported_value selected PipelineSource ''merge_request_event'')
            UnsupportedPipelineSource reasons;
          reasons = insert_if (unsupported_value selected MergeRequestEventType ''detached'')
            UnsupportedMergeRequestEventType reasons;
          (source_sha, reasons) =
            parse_optional_ci_value selected MergeRequestSourceBranchSha git_sha_try_from reasons
      in case source_sha of
           None \<Rightarrow> reasons
         | Some source_sha \<Rightarrow>
             insert_if (case head_sha of Some head \<Rightarrow> head \<noteq> source_sha | None \<Rightarrow> False)
               ConflictingHeadSha reasons)"

definition assemble_ci_hint :: "parsed_ci_projects \<Rightarrow> parsed_ci_review \<Rightarrow> gitlab_ci_hint option" where
  "assemble_ci_hint p r =
     Option.bind (pv_origin r) (\<lambda>found_origin.
     Option.bind (pj_pipeline_id p) (\<lambda>pipeline_id.
     Option.bind (pj_pipeline_path p) (\<lambda>pipeline_path.
     Option.bind (pj_target_id p) (\<lambda>target_id.
     Option.bind (pj_target_path p) (\<lambda>target_path.
     Option.bind (pj_source_id p) (\<lambda>source_id.
     Option.bind (pj_source_path p) (\<lambda>source_path.
     Option.bind (pv_merge_request_iid r) (\<lambda>iid.
     Option.bind (pv_source_ref r) (\<lambda>source_ref.
     Option.bind (pv_target_ref r) (\<lambda>target_ref.
     Option.bind (pv_head_sha r) (\<lambda>head_sha.
     Some \<lparr>hint_origin = found_origin,
           hint_pipeline_project = \<lparr>gp_id = pipeline_id, gp_path = pipeline_path\<rparr>,
           hint_target_project = \<lparr>gp_id = target_id, gp_path = target_path\<rparr>,
           hint_source_project = \<lparr>gp_id = source_id, gp_path = source_path\<rparr>,
           hint_merge_request_iid = iid, hint_source_ref = source_ref, hint_target_ref = target_ref,
           hint_head_sha = head_sha\<rparr>)))))))))))"

definition identity_matches :: "gitlab_project_identity \<Rightarrow> gitlab_project_identity \<Rightarrow> bool" where
  "identity_matches l r \<longleftrightarrow> gp_id l = gp_id r \<and> gp_path l = gp_path r"

definition identities_consistent :: "gitlab_project_identity \<Rightarrow> gitlab_project_identity \<Rightarrow> bool" where
  "identities_consistent l r \<longleftrightarrow> (gp_id l = gp_id r) = (gp_path l = gp_path r)"

definition classify_project_relationship :: "gitlab_ci_hint \<Rightarrow> gitlab_ci_context" where
  "classify_project_relationship h =
     (let pipeline_is_target = identity_matches (hint_pipeline_project h) (hint_target_project h);
          pipeline_is_source = identity_matches (hint_pipeline_project h) (hint_source_project h);
          source_is_target = identity_matches (hint_source_project h) (hint_target_project h)
      in if \<not> (identities_consistent (hint_pipeline_project h) (hint_target_project h)
               \<and> identities_consistent (hint_pipeline_project h) (hint_source_project h)
               \<and> identities_consistent (hint_source_project h) (hint_target_project h))
         then CiAmbiguous [InconsistentProjectIdentity]
         else if \<not> pipeline_is_target \<and> \<not> pipeline_is_source then CiAmbiguous [UnrelatedPipelineProject]
         else if \<not> source_is_target then CiForkMismatch h
         else CiReady h)"

definition classify_gitlab_ci_environment ::
    "(string \<times> string) list \<Rightarrow> gitlab_origin_policy \<Rightarrow> gitlab_ci_context" where
  "classify_gitlab_ci_environment variables policy =
     (let (selected, reasons) = collect_ci_variables variables;
          missing = missing_ci_fields selected;
          (projects, reasons) = parse_ci_projects selected reasons;
          (review, reasons) = parse_ci_review selected policy reasons;
          reasons = validate_ci_execution selected (pv_head_sha review) reasons
      in if reasons \<noteq> [] then CiAmbiguous reasons
         else if missing \<noteq> [] then CiMissing missing
         else case assemble_ci_hint projects review of
           None \<Rightarrow> CiAmbiguous [InconsistentProjectIdentity]
         | Some h \<Rightarrow> classify_project_relationship h)"

section \<open>Verification\<close>

record gitlab_verification_input =
  vi_origin :: gitlab_origin
  vi_project :: gitlab_project_identity
  vi_merge_request_iid :: u64
  vi_ci_hint :: "gitlab_ci_hint option"

record authoritative_merge_request =
  am_target_project :: gitlab_project_identity
  am_source_project :: gitlab_project_identity
  am_merge_request_iid :: u64
  am_source_ref :: git_ref_name
  am_target_ref :: git_ref_name
  am_head_sha :: git_sha

datatype verification_mismatch =
  ConfiguredProjectId | ConfiguredProjectPath | ConfiguredMergeRequestIid | CiOrigin
| CiPipelineProjectId | CiPipelineProjectPath | CiTargetProjectId | CiTargetProjectPath
| CiSourceProjectId | CiSourceProjectPath | CiMergeRequestIid | CiSourceRef | CiTargetRef | CiHeadSha

record verified_gitlab_context =
  vc_origin :: gitlab_origin
  vc_target_project :: gitlab_project_identity
  vc_source_project :: gitlab_project_identity
  vc_merge_request_iid :: u64
  vc_source_ref :: git_ref_name
  vc_target_ref :: git_ref_name
  vc_head_sha :: git_sha

text \<open>The set of mismatches is only built and tested for emptiness, so it is a set.\<close>

datatype verification_result =
  VerifiedContext verified_gitlab_context | VerificationMismatch "verification_mismatch set"

definition compare_values :: "bool \<Rightarrow> verification_mismatch \<Rightarrow> verification_mismatch set \<Rightarrow> verification_mismatch set" where
  "compare_values matches mismatch mismatches = (if \<not> matches then insert mismatch mismatches else mismatches)"

definition compare_project ::
    "gitlab_project_identity \<Rightarrow> gitlab_project_identity \<Rightarrow> verification_mismatch \<Rightarrow> verification_mismatch
      \<Rightarrow> verification_mismatch set \<Rightarrow> verification_mismatch set" where
  "compare_project l r id_mismatch path_mismatch mismatches =
     compare_values (gp_path l = gp_path r) path_mismatch
       (compare_values (gp_id l = gp_id r) id_mismatch mismatches)"

definition compare_hint ::
    "gitlab_origin \<Rightarrow> gitlab_ci_hint \<Rightarrow> authoritative_merge_request \<Rightarrow> verification_mismatch set
      \<Rightarrow> verification_mismatch set" where
  "compare_hint trusted_origin h a mismatches =
     (let mismatches = compare_values (hint_origin h = trusted_origin) CiOrigin mismatches;
          project =
            (if identity_matches (hint_pipeline_project h) (hint_source_project h) then Some (am_source_project a)
             else if identity_matches (hint_pipeline_project h) (hint_target_project h) then Some (am_target_project a)
             else None);
          mismatches =
            (case project of
               Some project \<Rightarrow>
                 compare_project (hint_pipeline_project h) project CiPipelineProjectId CiPipelineProjectPath mismatches
             | None \<Rightarrow> insert CiPipelineProjectPath (insert CiPipelineProjectId mismatches));
          mismatches = compare_project (hint_target_project h) (am_target_project a)
            CiTargetProjectId CiTargetProjectPath mismatches;
          mismatches = compare_project (hint_source_project h) (am_source_project a)
            CiSourceProjectId CiSourceProjectPath mismatches;
          mismatches = compare_values (hint_merge_request_iid h = am_merge_request_iid a) CiMergeRequestIid mismatches;
          mismatches = compare_values (hint_source_ref h = am_source_ref a) CiSourceRef mismatches;
          mismatches = compare_values (hint_target_ref h = am_target_ref a) CiTargetRef mismatches
      in compare_values (hint_head_sha h = am_head_sha a) CiHeadSha mismatches)"

definition gitlab_verify ::
    "gitlab_verification_input \<Rightarrow> authoritative_merge_request \<Rightarrow> verification_result" where
  "gitlab_verify i a =
     (let mismatches = compare_values (gp_id (vi_project i) = gp_id (am_target_project a)) ConfiguredProjectId {};
          mismatches = compare_values (gp_path (vi_project i) = gp_path (am_target_project a))
            ConfiguredProjectPath mismatches;
          mismatches = compare_values (vi_merge_request_iid i = am_merge_request_iid a)
            ConfiguredMergeRequestIid mismatches;
          mismatches =
            (case vi_ci_hint i of Some h \<Rightarrow> compare_hint (vi_origin i) h a mismatches | None \<Rightarrow> mismatches)
      in if mismatches \<noteq> {} then VerificationMismatch mismatches
         else VerifiedContext
           \<lparr>vc_origin = vi_origin i, vc_target_project = am_target_project a,
            vc_source_project = am_source_project a, vc_merge_request_iid = am_merge_request_iid a,
            vc_source_ref = am_source_ref a, vc_target_ref = am_target_ref a,
            vc_head_sha = am_head_sha a\<rparr>)"

end
