(* ===== verification/Gitlab_Origin_Canonical.thy ===== *)
theory Gitlab_Origin_Canonical
  imports Gitlab_Context
begin

text \<open>
  The canonical form of a parsed GitLab origin parses, under the same policy, to the same
  origin: hosts are lowercased once and for all, addresses are printed in the one form that
  the parser reads back, and the default port is left out.
\<close>

section \<open>Ports\<close>

lemma decimal_digits: "list_all is_ascii_digit (decimal n)"
proof -
  have "to_digit 10 b \<noteq> None \<Longrightarrow> is_ascii_digit b" for b
    by (auto simp: to_digit_def is_ascii_lowercase_def is_ascii_uppercase_def char_le_code split: if_splits)
  then show ?thesis using dec.text_digits [of n] by (auto simp: list_all_iff)
qed

lemma decimal_value_text: "decimal_value (decimal n) = n"
proof -
  have "fold (\<lambda>b n. n * 10 + (of_char b - 48)) s k = foldl (\<lambda>n b. n * 10 + the (to_digit 10 b)) k s"
    if "list_all is_ascii_digit s" for s and k :: nat
    using that
  proof (induction s arbitrary: k)
    case (Cons b s)
    have "of_char b < (58 :: nat)" using Cons.prems by (simp add: is_ascii_digit_def char_le_code)
    then have "of_char b - 48 < (10 :: nat)" by linarith
    then have "the (to_digit 10 b) = of_char b - (48 :: nat)"
      using Cons.prems by (simp add: to_digit_def)
    then show ?case using Cons by simp
  qed simp
  from this [OF decimal_digits [of n], of 0] show ?thesis
    using dec.text_value [of n] by (simp add: decimal_value_def radix_value_def)
qed

lemma starts_with_char: "starts_with [c] s \<longleftrightarrow> s \<noteq> [] \<and> hd s = c"
  by (cases s) (auto simp: starts_with_def)

lemma ends_with_char: "ends_with [c] s \<longleftrightarrow> s \<noteq> [] \<and> last s = c"
  by (cases s rule: rev_cases) (auto simp: ends_with_def starts_with_char)

lemma parse_port_text: "port \<noteq> 0 \<Longrightarrow> parse_port (decimal (unat port)) = Inr port"
  using dec.text_first [of "unat port"] decimal_digits [of "unat port"]
    unsigned_less [of port, where ?'a = nat]
  by (auto simp: parse_port_def starts_with_char decimal_value_text try_word_def unat_eq_0)

lemma parse_port_nonzero: "parse_port s = Inr port \<Longrightarrow> port \<noteq> 0"
  by (auto simp: parse_port_def result_simps split: if_splits)

section \<open>Hosts\<close>

lemma read_number_below: "read_number radix most zero_first below s = Some (n, r) \<Longrightarrow> n < below"
  by (auto simp: read_number_def Let_def split: if_splits)

lemma read_separated_Some: "read_separated sep at_start inner s = Some x \<Longrightarrow> \<exists>u. inner u = Some x"
  by (auto simp: read_separated_def split: if_splits list.splits)

lemma read_ipv4_below:
  assumes "read_ipv4 s = Some ((a, b, c, d), r)"
  shows "a < 256 \<and> b < 256 \<and> c < 256 \<and> d < 256"
  using assms
  by (auto simp: read_ipv4_def read_octet_def bind_eq_Some_conv
      dest!: read_separated_Some dest: read_number_below)

lemma read_groups_below:
  "read_groups k at_start s = (gs, v4, r) \<Longrightarrow> length gs \<le> k \<and> list_all (\<lambda>g. g < 65536) gs"
proof (induction k at_start s arbitrary: gs v4 r rule: read_groups.induct)
  case (2 k at_start s)
  let ?address = "if 0 < k then read_separated (CHR '':'') at_start read_ipv4 s else None"
  show ?case
  proof (cases ?address)
    case (Some x)
    obtain a b c d t where x: "x = ((a, b, c, d), t)" by (metis surj_pair)
    have "\<exists>u. read_ipv4 u = Some ((a, b, c, d), t)"
      using Some by (auto simp: x read_separated_def split: if_splits list.splits)
    then have "a < 256 \<and> b < 256 \<and> c < 256 \<and> d < 256" using read_ipv4_below by blast
    moreover have "0 < k" using Some by (auto split: if_splits)
    ultimately show ?thesis using "2.prems" Some by (auto simp: x)
  next
    case None
    show ?thesis
    proof (cases "read_separated (CHR '':'') at_start read_group s")
      case missing: None
      then show ?thesis using "2.prems" None by auto
    next
      case (Some x)
      obtain g t where x: "x = (g, t)" by fastforce
      obtain gs' v4' r' where rest: "read_groups k False t = (gs', v4', r')" by (metis surj_pair)
      have "g < 65536"
        using Some by (auto simp: x read_separated_def read_group_def dest: read_number_below split: if_splits list.splits)
      moreover have "length gs' \<le> k \<and> list_all (\<lambda>g. g < 65536) gs'"
        using "2.IH" [OF None Some] rest x by blast
      ultimately show ?thesis using "2.prems" None Some rest by (auto simp: x)
    qed
  qed
qed simp

lemma parse_ipv6_groups:
  assumes "parse_ipv6 s = Some gs"
  shows "length gs = 8 \<and> list_all (\<lambda>g. g < 65536) gs"
proof -
  obtain front v4 r where front: "read_groups 8 True s = (front, v4, r)" by (metis surj_pair)
  note ok = read_groups_below [OF front]
  show ?thesis
  proof (cases "length front = 8")
    case True
    then show ?thesis using assms ok front by (auto simp: parse_ipv6_def split: if_splits)
  next
    case False
    then obtain r' where r': "strip_prefix ''::'' r = Some r'" and no_v4: "\<not> v4"
      using assms front by (auto simp: parse_ipv6_def split: if_splits option.splits)
    obtain rear v4' r'' where rear: "read_groups (7 - length front) True r' = (rear, v4', r'')" by (metis surj_pair)
    have "gs = front @ replicate (8 - length front - length rear) 0 @ rear"
      using assms front rear r' no_v4 False by (auto simp: parse_ipv6_def split: if_splits)
    then show ?thesis using ok read_groups_below [OF rear] False by (auto simp: list_all_iff)
  qed
qed

definition address_char :: "char \<Rightarrow> bool" where
  "address_char b \<longleftrightarrow> is_ascii_digit b \<or> is_ascii_lowercase b \<or> b = CHR '':'' \<or> b = CHR ''.''"

lemma numeral_chars: "radix \<in> {10, 16} \<Longrightarrow> list_all address_char (numeral_text radix n)"
proof (induction n rule: less_induct)
  case (less n)
  have digit: "d < 16 \<Longrightarrow> address_char (digit_text d)" for d
    by (auto simp: address_char_def is_ascii_digit_def is_ascii_lowercase_def char_le_code digit_text_code)
  have "n mod radix < 16" "\<not> n < radix \<Longrightarrow> n div radix < n" using less.prems by auto
  then show ?case using less digit by (subst numeral_text.simps) auto
qed

lemma join_all: "list_all P sep \<Longrightarrow> \<forall>w \<in> set ws. list_all P w \<Longrightarrow> list_all P (join sep ws)"
  by (induction sep ws rule: join.induct) auto

lemma ipv4_text_chars: "list_all address_char (ipv4_text a)"
  using numeral_chars [of 10] by (cases a) (auto simp: ipv4_text_def address_char_def [of "CHR ''.''"])

lemma ipv6_text_chars: "list_all address_char (ipv6_text gs)"
proof -
  have groups: "list_all address_char (groups_text hs)" for hs
    using numeral_chars [of 16] unfolding groups_text_def by (intro join_all) (auto simp: address_char_def)
  have letters: "list_all address_char ''::ffff:''" "list_all address_char ''::''"
    by (simp_all add: address_char_def is_ascii_digit_def is_ascii_lowercase_def char_le_code)
  show ?thesis using groups ipv4_text_chars letters
    by (simp add: ipv6_text_def split: option.split prod.split)
qed

lemma lower_code:
  "of_char (to_ascii_lowercase b) = (if is_ascii_uppercase b then of_char b + 32 else of_char b :: nat)"
  by (auto simp: to_ascii_lowercase_def is_ascii_uppercase_def char_le_code)

lemma lower_classes:
  "is_ascii_digit (to_ascii_lowercase b) = is_ascii_digit b"
  "is_ascii_alphanumeric (to_ascii_lowercase b) = is_ascii_alphanumeric b"
  "\<not> is_ascii_uppercase (to_ascii_lowercase b)"
  by (auto simp: is_ascii_digit_def is_ascii_alphanumeric_def is_ascii_lowercase_def is_ascii_uppercase_def
      char_le_code lower_code split: if_splits)

lemma lower_idem: "to_ascii_lowercase (to_ascii_lowercase b) = to_ascii_lowercase b"
  using lower_classes(3) [of b] by (simp add: to_ascii_lowercase_def [of "to_ascii_lowercase b"])

lemma lower_same: "\<not> is_ascii_alphanumeric c \<Longrightarrow> to_ascii_lowercase b = c \<longleftrightarrow> b = c"
  by (metis is_ascii_alphanumeric_def lower_classes(2) to_ascii_lowercase_def)

lemma plain_chars:
  "\<not> is_ascii_alphanumeric (CHR ''.'')" "\<not> is_ascii_alphanumeric (CHR ''-'')"
  "\<not> is_ascii_alphanumeric (CHR '':'')" "\<not> is_ascii_alphanumeric (CHR ''%'')"
  "\<not> is_ascii_alphanumeric (CHR ''['')" "\<not> is_ascii_alphanumeric (CHR '']'')"
  "\<not> is_ascii_alphanumeric (CHR ''@'')" "\<not> is_ascii_alphanumeric (CHR ''?'')"
  "\<not> is_ascii_alphanumeric (CHR ''#'')" "\<not> is_ascii_alphanumeric (CHR ''/'')"
  by (simp_all add: is_ascii_alphanumeric_def is_ascii_digit_def is_ascii_lowercase_def
      is_ascii_uppercase_def char_le_code)

lemma contains_char: "contains [c] s \<longleftrightarrow> c \<in> set s"
  by (auto simp: contains_iff dest: split_list)

lemma split_on_map:
  assumes "\<And>b. f b = c \<longleftrightarrow> b = c"
  shows "split_on c (map f s) = map (map f) (split_on c s)"
  by (induction s) (auto simp: assms split: list.split)

text \<open>Every byte of a host is a letter, a digit, a dot or a hyphen.\<close>

definition host_char :: "char \<Rightarrow> bool" where
  "host_char b \<longleftrightarrow> is_ascii_alphanumeric b \<or> b = CHR ''.'' \<or> b = CHR ''-''"

lemma host_chars_of_labels:
  assumes "list_all host_label_ok (split_on (CHR ''.'') s)"
  shows "list_all host_char s"
proof -
  have "list_all host_char (join ''.'' (split_on (CHR ''.'') s))"
    using assms by (intro join_all) (auto simp: host_char_def host_label_ok_def list_all_iff)
  then show ?thesis by (simp add: split_on_join)
qed

lemma host_label_lower: "host_label_ok (map to_ascii_lowercase l) = host_label_ok l"
  by (cases "l = []")
    (auto simp: host_label_ok_def starts_with_char ends_with_char hd_map last_map list_all_iff
      lower_same plain_chars lower_classes)

lemma ascii_host: "list_all host_char s \<Longrightarrow> is_ascii s"
  by (auto simp: is_ascii_def list_all_iff host_char_def is_ascii_alphanumeric_def is_ascii_digit_def
      is_ascii_lowercase_def is_ascii_uppercase_def char_le_code less_char_def)

lemma canonical_name:
  assumes "canonical_host raw = Inr host"
    and "\<not> list_all (\<lambda>b. is_ascii_digit b \<or> b = CHR ''.'') raw"
  shows "canonical_host host = Inr host \<and> list_all host_char host"
proof -
  have host: "host = map to_ascii_lowercase raw" and labels: "list_all host_label_ok (split_on (CHR ''.'') raw)"
    and raw: "raw \<noteq> []" "length raw \<le> max_host_bytes" "\<not> ends_with ''.'' raw"
    using assms by (auto simp: canonical_host_def ascii_lowercase_def split: if_splits)
  have "split_on (CHR ''.'') host = map (map to_ascii_lowercase) (split_on (CHR ''.'') raw)"
    unfolding host by (rule split_on_map) (simp add: lower_same plain_chars)
  then have labels': "list_all host_label_ok (split_on (CHR ''.'') host)"
    using labels by (simp add: list_all_iff host_label_lower)
  then have chars: "list_all host_char host" by (rule host_chars_of_labels)
  have "\<not> list_all (\<lambda>b. is_ascii_digit b \<or> b = CHR ''.'') host"
    using assms(2) by (auto simp: host list_all_iff lower_classes lower_same plain_chars)
  moreover have "\<not> ends_with ''.'' host"
    using raw by (simp add: host ends_with_char last_map lower_same plain_chars)
  moreover have "\<not> contains ''%'' host"
    using chars by (auto simp: contains_char list_all_iff host_char_def plain_chars)
  moreover have "ascii_lowercase host = host" by (simp add: host ascii_lowercase_def lower_idem)
  ultimately show ?thesis
    using raw labels' chars ascii_host [OF chars] by (simp add: canonical_host_def host)
qed

lemma canonical_address:
  assumes "canonical_host raw = Inr host"
    and "list_all (\<lambda>b. is_ascii_digit b \<or> b = CHR ''.'') raw"
  shows "canonical_host host = Inr host \<and> list_all host_char host"
proof -
  obtain a b c d where host: "host = ipv4_text (a, b, c, d)" and "parse_ipv4 raw = Some (a, b, c, d)"
    using assms by (auto simp: canonical_host_def ok_or_Inr split: if_splits)
  then have small: "a < 256" "b < 256" "c < 256" "d < 256"
    using read_ipv4_below [of raw a b c d] by (auto simp: parse_ipv4_def split: if_splits option.splits)
  have short: "length (decimal n) \<le> 3" if "n < 256" for n using dec.text_length [of n 2] that by simp
  have length: "length host \<le> 15" using short [OF small(1)] short [OF small(2)] short [OF small(3)] short [OF small(4)]
    by (simp add: host ipv4_text_def)
  have digits: "list_all (\<lambda>b. is_ascii_digit b \<or> b = CHR ''.'') host"
    using decimal_digits by (auto simp: host ipv4_text_def list_all_iff)
  have chars: "list_all host_char host"
    using digits by (auto simp: list_all_iff host_char_def is_ascii_alphanumeric_def)
  have "last host = last (decimal d)" by (simp add: host ipv4_text_def)
  moreover have "is_ascii_digit (last (decimal d))" using decimal_digits [of d] dec.text_not_Nil [of d] by (simp add: list_all_iff)
  ultimately have "last host \<noteq> CHR ''.''" by (auto simp: is_ascii_digit_def char_le_code)
  then have "\<not> ends_with ''.'' host" by (simp add: ends_with_char)
  moreover have "\<not> contains ''%'' host"
    using chars by (auto simp: contains_char list_all_iff host_char_def plain_chars)
  moreover have "parse_ipv4 host = Some (a, b, c, d)"
    using length small by (simp add: parse_ipv4_def host read_ipv4_text)
  moreover have "host \<noteq> []" by (simp add: host ipv4_text_def)
  ultimately show ?thesis using length digits chars ascii_host [OF chars]
    by (simp add: canonical_host_def max_host_bytes_def) (simp add: host)
qed

section \<open>Authorities\<close>

definition port_text :: "u16 \<Rightarrow> string" where
  "port_text port = (if port = default_https_port then [] else CHR '':'' # decimal (unat port))"

lemma port_suffix_text: "port \<noteq> 0 \<Longrightarrow> parse_port_suffix (port_text port) = Inr port"
  by (simp add: parse_port_suffix_def port_text_def parse_port_text)

definition authority_char :: "char \<Rightarrow> bool" where
  "authority_char b \<longleftrightarrow> is_ascii_alphanumeric b \<or> b \<in> {CHR ''.'', CHR ''-'', CHR '':'', CHR ''['', CHR '']''}"

lemma authority_chars:
  "list_all host_char s \<Longrightarrow> list_all authority_char s"
  "list_all address_char s \<Longrightarrow> list_all authority_char s"
  "list_all authority_char (port_text port)"
  using decimal_digits [of "unat port"]
  by (auto simp: list_all_iff authority_char_def host_char_def address_char_def is_ascii_alphanumeric_def port_text_def)

lemma rsplit_once_free:
  "CHR '':'' \<notin> set t \<Longrightarrow> rsplit_once (CHR '':'') (h @ CHR '':'' # t) = Some (h, t)"
  by (simp add: rsplit_once_def Let_def takeWhile_append)

lemma rsplit_once_none: "CHR '':'' \<notin> set h \<Longrightarrow> rsplit_once (CHR '':'') h = None"
  by (simp add: rsplit_once_def)

lemma authority_of_host:
  assumes "canonical_host host = Inr host" and "list_all host_char host" and "port \<noteq> 0"
  shows "authority_parse (host @ port_text port) = Inr (host, port)"
proof -
  have host: "host \<noteq> []" using assms(1) by (auto simp: canonical_host_def)
  have free: "c \<notin> set host" if "c \<in> {CHR ''['', CHR '']'', CHR '':''}" for c
    using that assms(2) by (auto simp: list_all_iff host_char_def plain_chars)
  have digits: "c \<notin> set (decimal n)" if "c \<in> {CHR ''['', CHR '']'', CHR '':''}" for c n
    using that decimal_digits [of n] by (auto simp: list_all_iff is_ascii_digit_def char_le_code)
  have "strip_prefix ''['' (host @ port_text port) = None"
    using host free [of "CHR ''[''"] by (cases host) auto
  moreover have colons: "filter (\<lambda>b. b = CHR '':'') host = []" "filter (\<lambda>b. b = CHR '':'') (decimal n) = []" for n
    using free digits by (auto simp: filter_empty_conv)
  moreover have "CHR ''['' \<notin> set (port_text port)" "CHR '']'' \<notin> set (port_text port)"
    using digits by (auto simp: port_text_def)
  ultimately show ?thesis
    using host free digits assms(1,3)
    by (simp add: authority_parse_def port_text_def rsplit_once_free rsplit_once_none parse_port_text)
qed

lemma authority_of_address:
  assumes "length gs = 8" and "list_all (\<lambda>g. g < 65536) gs" and "port \<noteq> 0"
  shows "authority_parse ((''['' @ ipv6_text gs @ '']'') @ port_text port) = Inr (''['' @ ipv6_text gs @ '']'', port)"
proof -
  have free: "CHR '']'' \<notin> set (ipv6_text gs)"
    using ipv6_text_chars [of gs]
    by (auto simp: list_all_iff address_char_def is_ascii_digit_def is_ascii_lowercase_def char_le_code)
  then have "takeWhile (\<lambda>b. b \<noteq> CHR '']'') (ipv6_text gs @ CHR '']'' # port_text port) = ipv6_text gs"
    "dropWhile (\<lambda>b. b \<noteq> CHR '']'') (ipv6_text gs @ CHR '']'' # port_text port) = CHR '']'' # port_text port"
    by (simp_all add: takeWhile_append dropWhile_append)
  then show ?thesis
    using assms by (simp add: authority_parse_def Let_def parse_ipv6_text port_suffix_text)
qed

lemma authority_canonical:
  assumes "authority_parse authority = Inr (host, port)"
  shows "authority_parse (host @ port_text port) = Inr (host, port) \<and> list_all authority_char (host @ port_text port)
    \<and> host \<noteq> []"
proof (cases "strip_prefix ''['' authority")
  case None
  obtain raw where "canonical_host raw = Inr host" and port: "port \<noteq> 0"
    using assms None parse_port_nonzero
    by (auto simp: authority_parse_def result_simps default_https_port_def split: if_splits option.splits)
  then have "canonical_host host = Inr host \<and> list_all host_char host"
    using canonical_name canonical_address by blast
  moreover from this have "host \<noteq> []" by (auto simp: canonical_host_def)
  ultimately show ?thesis using authority_of_host port authority_chars by simp
next
  case (Some bracketed)
  obtain gs after where gs: "parse_ipv6 (takeWhile (\<lambda>b. b \<noteq> CHR '']'') bracketed) = Some gs"
    and host: "host = ''['' @ ipv6_text gs @ '']''" and after: "parse_port_suffix after = Inr port"
    using assms Some by (auto simp: authority_parse_def result_simps Let_def split: if_splits)
  have "port \<noteq> 0" using after parse_port_nonzero
    by (auto simp: parse_port_suffix_def result_simps default_https_port_def split: if_splits)
  moreover have "list_all authority_char host"
    using authority_chars(2) [OF ipv6_text_chars [of gs]] by (simp add: host authority_char_def)
  ultimately show ?thesis
    using authority_of_address parse_ipv6_groups [OF gs] authority_chars(3) by (simp add: host)
qed

section \<open>Origins\<close>

text \<open>
  \<^bold>\<open>C35.\<close>  The canonical text of a parsed origin parses to the same origin, so comparing origins
  is comparing what they denote.  It is the prefix, the host, and the port where it is not
  443; the host is not empty and the port is one the policy supports.
\<close>

theorem canonical_origin_round_trip:
  assumes "gitlab_origin_parse text policy = Inr origin"
  shows "gitlab_origin_parse (go_canonical origin) policy = Inr origin
    \<and> go_canonical origin = https_prefix @ go_host origin @ port_text (gitlab_origin_port origin)
    \<and> go_host origin \<noteq> [] \<and> origin_policy_supports policy (gitlab_origin_port origin)"
proof -
  obtain authority host port where parsed: "authority_parse authority = Inr (host, port)"
    and supported: "origin_policy_supports policy port"
    and origin: "origin = \<lparr>go_canonical = https_prefix @ host @ port_text port, go_host = host,
      go_non_default_port = (if port \<noteq> default_https_port then Some port else None)\<rparr>"
    using assms
    by (auto simp: gitlab_origin_parse_def result_simps Let_def port_text_def split: if_splits prod.splits)
  note again = authority_canonical [OF parsed]
  let ?authority = "host @ port_text port"
  have free: "c \<notin> set ?authority" if "c \<in> {CHR ''@'', CHR ''?'', CHR ''#'', CHR ''/''}" for c
  proof -
    have "\<not> authority_char c" using that by (auto simp: authority_char_def plain_chars)
    then show ?thesis using again by (metis list_all_iff)
  qed
  have "strip_suffix ''/'' ?authority = None"
  proof (rule ccontr)
    assume "strip_suffix ''/'' ?authority \<noteq> None"
    then obtain t where "rev ?authority = ''/'' @ t"
      by (auto simp: strip_suffix_def strip_prefix_Some simp del: rev_append)
    then have "CHR ''/'' \<in> set (rev ?authority)" by simp
    then show False using free by simp
  qed
  then have "gitlab_origin_parse (https_prefix @ ?authority) policy = Inr origin"
    using again supported free by (simp add: gitlab_origin_parse_def Let_def origin port_text_def)
  moreover have "host \<noteq> []"
    using again by simp
  ultimately show ?thesis
    using supported by (auto simp: origin gitlab_origin_port_def origin_policy_supports_def)
qed

definition sample_policy :: gitlab_origin_policy where
  "sample_policy = \<lparr>supported_non_default_ports = {8443}\<rparr>"

definition sample_origin :: gitlab_origin where
  "sample_origin = \<lparr>go_canonical = ''https://git.io:8443'', go_host = ''git.io'', go_non_default_port = Some 8443\<rparr>"

lemma sample_parses: "gitlab_origin_parse ''https://Git.io:8443/'' sample_policy = Inr sample_origin"
proof -
  have port: "parse_port ''8443'' = Inr 8443"
    by (simp add: parse_port_def is_ascii_digit_def starts_with_def decimal_value_def try_word_def)
  have host: "canonical_host ''Git.io'' = Inr ''git.io''"
    by (simp add: canonical_host_def max_host_bytes_def max_host_label_bytes_def is_ascii_def ends_with_def
        starts_with_def host_label_ok_def is_ascii_alphanumeric_def is_ascii_digit_def is_ascii_lowercase_def
        is_ascii_uppercase_def ascii_lowercase_def to_ascii_lowercase_def char_of_eq_iff)
  have "authority_parse ''Git.io:8443'' = Inr (''git.io'', 8443)"
    by (simp add: authority_parse_def rsplit_once_def port host)
  moreover have "decimal 8443 = ''8443''" by (simp add: numeral_text.simps digit_text_def char_of_eq_iff)
  ultimately show ?thesis
    by (simp add: gitlab_origin_parse_def https_prefix_def strip_suffix_def origin_policy_supports_def
        default_https_port_def sample_policy_def sample_origin_def)
qed

lemma canonical_origin_round_trip_witness:
  "gitlab_origin_parse ''https://Git.io:8443/'' sample_policy = Inr sample_origin \<and>
   gitlab_origin_parse (go_canonical sample_origin) sample_policy = Inr sample_origin \<and>
   go_canonical sample_origin = ''https://git.io:8443''"
  using sample_parses canonical_origin_round_trip [OF sample_parses] by (simp add: sample_origin_def)

end
