(* ===== verification/Gitlab_Context_Verified.thy ===== *)
theory Gitlab_Context_Verified
  imports Gitlab_Origin_Canonical
begin

text \<open>
  The CI environment yields a hint exactly when it describes one merge request
  consistently, verification succeeds exactly when every selection and hint agrees with the
  observed merge request, and a canonical origin parses to itself.
\<close>

section \<open>What the environment says\<close>

text \<open>The values given to a field, in order.\<close>

definition ci_values :: "ci_field \<Rightarrow> (string \<times> string) list \<Rightarrow> string list" where
  "ci_values f vs = map snd (filter (\<lambda>(name, _). name = environment_name f) vs)"

definition ci_reads :: "(string \<times> string) list \<Rightarrow> ci_field \<Rightarrow> (string \<Rightarrow> 'e + 'a) \<Rightarrow> 'a \<Rightarrow> bool" where
  "ci_reads vs f parser x \<longleftrightarrow> (\<exists>v. ci_values f vs = [v] \<and> parser v = Inr x)"

definition ci_describes :: "(string \<times> string) list \<Rightarrow> gitlab_origin_policy \<Rightarrow> gitlab_ci_hint \<Rightarrow> bool" where
  "ci_describes vs policy h \<longleftrightarrow>
     ci_values PipelineSource vs = [''merge_request_event'']
   \<and> ci_values MergeRequestEventType vs = [''detached'']
   \<and> ci_reads vs ServerUrl (\<lambda>v. gitlab_origin_parse v policy) (hint_origin h)
   \<and> ci_reads vs PipelineProjectId positive_number (gp_id (hint_pipeline_project h))
   \<and> ci_reads vs PipelineProjectPath gitlab_project_path_try_from (gp_path (hint_pipeline_project h))
   \<and> ci_reads vs MergeRequestProjectId positive_number (gp_id (hint_target_project h))
   \<and> ci_reads vs MergeRequestProjectPath gitlab_project_path_try_from (gp_path (hint_target_project h))
   \<and> ci_reads vs MergeRequestSourceProjectId positive_number (gp_id (hint_source_project h))
   \<and> ci_reads vs MergeRequestSourceProjectPath gitlab_project_path_try_from (gp_path (hint_source_project h))
   \<and> ci_reads vs MergeRequestIid positive_number (hint_merge_request_iid h)
   \<and> ci_reads vs MergeRequestSourceBranch git_ref_name_try_from (hint_source_ref h)
   \<and> ci_reads vs MergeRequestTargetBranch git_ref_name_try_from (hint_target_ref h)
   \<and> ci_reads vs CommitSha git_sha_try_from (hint_head_sha h)
   \<and> ci_values MergeRequestSourceBranchSha vs \<in> {[], [[]], [hint_head_sha h]}"

text \<open>
  The three project identities agree in both parts or differ in both, and the pipeline
  belongs to the source or the target project.
\<close>

definition projects_related :: "gitlab_ci_hint \<Rightarrow> bool" where
  "projects_related h \<longleftrightarrow>
     (let pipeline = hint_pipeline_project h; target = hint_target_project h; source = hint_source_project h in
      (gp_id source = gp_id target \<longleftrightarrow> gp_path source = gp_path target) \<and> (pipeline = source \<or> pipeline = target))"

section \<open>Reading the variables\<close>

lemma ci_field_of_name: "ci_field_of (environment_name f) = Some f"
  by (cases f) (simp_all add: ci_field_of_def required_ci_fields_def)

lemma ci_field_of_Some: "ci_field_of name = Some f \<longleftrightarrow> name = environment_name f"
  using ci_field_of_name [of f] by (auto simp: ci_field_of_def find_Some_iff)

lemma ci_values_Cons:
  "ci_values f ((name, value) # vs) =
     (if ci_field_of name = Some f then value # ci_values f vs else ci_values f vs)"
  by (simp add: ci_values_def ci_field_of_Some)

lemma collect_variable_eq:
  "collect_variable (name, value) (selected, reasons) =
     (case ci_field_of name of None \<Rightarrow> (selected, reasons)
      | Some f \<Rightarrow> (bt_insert f value selected,
          insert_if (map_of selected f \<noteq> None) (DuplicateVariable f) reasons))"
  by (simp add: collect_variable_def insert_if_def split: option.split)

lemma collected_value:
  "bt_wf selected \<Longrightarrow> map_of (fst (fold collect_variable vs (selected, reasons))) f =
     (if ci_values f vs = [] then map_of selected f else Some (last (ci_values f vs)))"
proof (induction vs arbitrary: selected reasons)
  case Nil
  then show ?case by (simp add: ci_values_def)
next
  case (Cons nv vs)
  obtain name val where nv: "nv = (name, val)" by fastforce
  show ?case
    by (cases "ci_field_of name") (auto simp: nv collect_variable_eq ci_values_Cons Cons.IH Cons.prems bt_wf_insert map_of_bt_insert)
qed

lemma collected_reasons:
  "bt_wf selected \<Longrightarrow> snd (fold collect_variable vs (selected, reasons)) = [] \<longleftrightarrow>
     reasons = [] \<and> (\<forall>f. length (ci_values f vs) + (if map_of selected f \<noteq> None then 1 else 0) \<le> 1
       \<or> ci_values f vs = [])"
proof (induction vs arbitrary: selected reasons)
  case Nil
  then show ?case by (simp add: ci_values_def)
next
  case (Cons nv vs)
  obtain name val where nv: "nv = (name, val)" by fastforce
  show ?case
  proof (cases "ci_field_of name")
    case None
    then show ?thesis by (simp add: nv collect_variable_eq ci_values_Cons Cons.IH Cons.prems)
  next
    case (Some g)
    have "snd (fold collect_variable (nv # vs) (selected, reasons)) = [] \<longleftrightarrow>
        reasons = [] \<and> map_of selected g = None \<and> (\<forall>f. length (ci_values f vs) +
          (if f = g \<or> map_of selected f \<noteq> None then 1 else 0) \<le> 1 \<or> ci_values f vs = [])"
      by (auto simp: nv Some collect_variable_eq Cons.IH Cons.prems bt_wf_insert map_of_bt_insert)
    moreover have "ci_values f (nv # vs) = (if f = g then val # ci_values f vs else ci_values f vs)" for f
      by (simp add: nv Some ci_values_Cons)
    ultimately show ?thesis by (auto 4 3 split: if_splits)
  qed
qed

lemma collect_no_reasons: "snd (collect_ci_variables vs) = [] \<longleftrightarrow> (\<forall>f. length (ci_values f vs) \<le> 1)"
proof -
  have "length xs \<le> 1 \<or> xs = [] \<longleftrightarrow> length xs \<le> 1" for xs :: "string list" by auto
  then show ?thesis by (simp add: collect_ci_variables_def collected_reasons bt.wf_empty)
qed

lemma collect_sole:
  assumes "\<forall>f. length (ci_values f vs) \<le> 1"
  shows "map_of (fst (collect_ci_variables vs)) f = Some v \<longleftrightarrow> ci_values f vs = [v]"
  using assms [rule_format, of f] by (cases "ci_values f vs") (auto simp: collect_ci_variables_def collected_value bt.wf_empty)

definition ci_parsed :: "ci_variables \<Rightarrow> ci_field \<Rightarrow> (string \<Rightarrow> 'e + 'a) \<Rightarrow> 'a option" where
  "ci_parsed selected f parser =
     (case map_of selected f of None \<Rightarrow> None
      | Some v \<Rightarrow> if v = [] then None else case parser v of Inr x \<Rightarrow> Some x | Inl _ \<Rightarrow> None)"

definition ci_invalid :: "ci_variables \<Rightarrow> ci_field \<Rightarrow> (string \<Rightarrow> 'e + 'a) \<Rightarrow> bool" where
  "ci_invalid selected f parser \<longleftrightarrow> (\<exists>v e. map_of selected f = Some v \<and> v \<noteq> [] \<and> parser v = Inl e)"

lemma parse_ci_value_eq:
  "parse_ci_value selected f parser reasons =
     (ci_parsed selected f parser, insert_if (ci_invalid selected f parser) (InvalidCiValue f) reasons)"
  by (auto simp: parse_ci_value_def ci_parsed_def ci_invalid_def insert_if_def split: option.split sum.split)

lemma parse_optional_ci_value_eq:
  "parse_optional_ci_value selected f parser reasons =
     (ci_parsed selected f parser, insert_if (ci_invalid selected f parser) (InvalidCiValue f) reasons)"
  by (auto simp: parse_optional_ci_value_def ci_parsed_def ci_invalid_def insert_if_def split: option.split sum.split)

lemma ci_parsed_Some:
  assumes "\<forall>f. length (ci_values f vs) \<le> 1" and "\<exists>e. parser [] = Inl e"
  shows "ci_parsed (fst (collect_ci_variables vs)) f parser = Some x \<longleftrightarrow> ci_reads vs f parser x"
  using assms(2) collect_sole [OF assms(1), of f, symmetric]
  by (cases "map_of (fst (collect_ci_variables vs)) f")
    (auto simp: ci_parsed_def ci_reads_def collect_sole [OF assms(1), symmetric] split: sum.splits)

lemma ci_reads_valid:
  assumes "\<forall>f. length (ci_values f vs) \<le> 1" and "ci_reads vs f parser x"
  shows "\<not> ci_invalid (fst (collect_ci_variables vs)) f parser"
  using collect_sole [OF assms(1), of f] assms(2) by (auto simp: ci_invalid_def ci_reads_def)

lemma empty_refused:
  "\<exists>e. positive_number [] = Inl e" "\<exists>e. gitlab_project_path_try_from [] = Inl e"
  "\<exists>e. git_ref_name_try_from [] = Inl e" "\<exists>e. git_sha_try_from [] = Inl e"
  "\<exists>e. gitlab_origin_parse [] policy = Inl e"
  by (simp_all add: positive_number_def gitlab_project_path_try_from_def git_ref_name_try_from_def
      git_sha_try_from_def git_sha_min_len_def git_sha_max_len_def gitlab_origin_parse_def https_prefix_def)

lemma ci_parsed_iff:
  assumes "\<forall>f. length (ci_values f vs) \<le> 1"
  shows "ci_parsed (fst (collect_ci_variables vs)) f positive_number = Some n \<longleftrightarrow> ci_reads vs f positive_number n"
    and "ci_parsed (fst (collect_ci_variables vs)) f gitlab_project_path_try_from = Some p \<longleftrightarrow>
      ci_reads vs f gitlab_project_path_try_from p"
    and "ci_parsed (fst (collect_ci_variables vs)) f git_ref_name_try_from = Some r \<longleftrightarrow>
      ci_reads vs f git_ref_name_try_from r"
    and "ci_parsed (fst (collect_ci_variables vs)) f git_sha_try_from = Some s \<longleftrightarrow>
      ci_reads vs f git_sha_try_from s"
    and "ci_parsed (fst (collect_ci_variables vs)) f (\<lambda>v. gitlab_origin_parse v policy) = Some g \<longleftrightarrow>
      ci_reads vs f (\<lambda>v. gitlab_origin_parse v policy) g"
  by (rule ci_parsed_Some [OF assms], rule empty_refused)+

lemma ci_reads_nonempty:
  "ci_reads vs f positive_number n \<Longrightarrow> \<exists>v. ci_values f vs = [v] \<and> v \<noteq> []"
  "ci_reads vs f gitlab_project_path_try_from p \<Longrightarrow> \<exists>v. ci_values f vs = [v] \<and> v \<noteq> []"
  "ci_reads vs f git_ref_name_try_from r \<Longrightarrow> \<exists>v. ci_values f vs = [v] \<and> v \<noteq> []"
  "ci_reads vs f git_sha_try_from s \<Longrightarrow> \<exists>v. ci_values f vs = [v] \<and> v \<noteq> []"
  "ci_reads vs f (\<lambda>v. gitlab_origin_parse v policy) g \<Longrightarrow> \<exists>v. ci_values f vs = [v] \<and> v \<noteq> []"
  using empty_refused(1-4) empty_refused(5) [of policy] by (auto simp: ci_reads_def)

lemma positive_number_pos: "positive_number v = Inr n \<Longrightarrow> n \<noteq> 0"
  by (auto simp: positive_number_def result_simps split: if_splits)

lemma positive_id_parsed: "positive_id_ok (ci_parsed selected f positive_number) = ci_parsed selected f positive_number"
  by (auto simp: positive_id_ok_def ci_parsed_def positive_id_try_from_def
      dest: positive_number_pos split: option.split sum.split)

section \<open>The classification\<close>

lemma identity_matches_iff: "identity_matches l r \<longleftrightarrow> l = (r :: gitlab_project_identity)"
  by (cases l; cases r) (simp add: identity_matches_def)

lemma related_iff:
  fixes p s t :: gitlab_project_identity
  shows "identities_consistent p t \<and> identities_consistent p s \<and> identities_consistent s t \<and> (p = t \<or> p = s) \<longleftrightarrow>
    (gp_id s = gp_id t \<longleftrightarrow> gp_path s = gp_path t) \<and> (p = s \<or> p = t)"
  by (cases p; cases s; cases t) (simp add: identities_consistent_def, blast)

lemma classified:
  fixes h :: gitlab_ci_hint
  shows "projects_related h \<Longrightarrow> classify_project_relationship h =
      (if hint_source_project h = hint_target_project h then CiReady h else CiForkMismatch h)"
    and "\<not> projects_related h \<Longrightarrow> \<exists>rs. classify_project_relationship h = CiAmbiguous rs"
proof -
  let ?p = "hint_pipeline_project h" and ?t = "hint_target_project h" and ?s = "hint_source_project h"
  let ?c = "identities_consistent ?p ?t \<and> identities_consistent ?p ?s \<and> identities_consistent ?s ?t"
  have related: "projects_related h \<longleftrightarrow> ?c \<and> (?p = ?t \<or> ?p = ?s)"
    using related_iff [of ?p ?t ?s] by (simp add: projects_related_def Let_def)
  have run: "classify_project_relationship h =
      (if \<not> ?c then CiAmbiguous [InconsistentProjectIdentity]
       else if ?p \<noteq> ?t \<and> ?p \<noteq> ?s then CiAmbiguous [UnrelatedPipelineProject]
       else if ?s \<noteq> ?t then CiForkMismatch h else CiReady h)"
    by (simp only: classify_project_relationship_def Let_def identity_matches_iff)
  show "projects_related h \<Longrightarrow> classify_project_relationship h =
      (if ?s = ?t then CiReady h else CiForkMismatch h)"
    unfolding related run by (cases "?s = ?t"; cases "?p = ?t") (simp_all add: identities_consistent_def)
  show "\<not> projects_related h \<Longrightarrow> \<exists>rs. classify_project_relationship h = CiAmbiguous rs"
    unfolding related run by (cases ?c) auto
qed

lemma classified_hint:
  fixes h h' :: gitlab_ci_hint
  shows "ci_context_hint (classify_project_relationship h) = Some h' \<longleftrightarrow> h' = h \<and> projects_related h"
    and "classify_project_relationship h = CiReady h' \<longleftrightarrow>
      h' = h \<and> projects_related h \<and> hint_source_project h = hint_target_project h"
  using classified [of h] by (cases "projects_related h"; auto)+

lemma assembled:
  "assemble_ci_hint p r = Some h \<longleftrightarrow>
     pv_origin r = Some (hint_origin h) \<and>
     pj_pipeline_id p = Some (gp_id (hint_pipeline_project h)) \<and>
     pj_pipeline_path p = Some (gp_path (hint_pipeline_project h)) \<and>
     pj_target_id p = Some (gp_id (hint_target_project h)) \<and>
     pj_target_path p = Some (gp_path (hint_target_project h)) \<and>
     pj_source_id p = Some (gp_id (hint_source_project h)) \<and>
     pj_source_path p = Some (gp_path (hint_source_project h)) \<and>
     pv_merge_request_iid r = Some (hint_merge_request_iid h) \<and>
     pv_source_ref r = Some (hint_source_ref h) \<and> pv_target_ref r = Some (hint_target_ref h) \<and>
     pv_head_sha r = Some (hint_head_sha h)"
  by (auto simp: assemble_ci_hint_def bind_eq_Some_conv)

lemma missing_Nil:
  "missing_ci_fields selected = [] \<longleftrightarrow>
     (\<forall>f \<in> set required_ci_fields. \<exists>v. map_of selected f = Some v \<and> v \<noteq> [])"
  by (auto simp: missing_ci_fields_def filter_empty_conv split: option.splits)

lemma unsupported_iff:
  "unsupported_value selected f expected \<longleftrightarrow>
     (\<exists>v. map_of selected f = Some v \<and> v \<noteq> [] \<and> v \<noteq> expected)"
  by (simp add: unsupported_value_def split: option.split)

lemma validated_Nil:
  "validate_ci_execution selected head reasons = [] \<longleftrightarrow>
     reasons = [] \<and> \<not> unsupported_value selected PipelineSource ''merge_request_event''
   \<and> \<not> unsupported_value selected MergeRequestEventType ''detached''
   \<and> \<not> ci_invalid selected MergeRequestSourceBranchSha git_sha_try_from
   \<and> \<not> (\<exists>v w. ci_parsed selected MergeRequestSourceBranchSha git_sha_try_from = Some v \<and> head = Some w \<and> w \<noteq> v)"
  by (auto simp: validate_ci_execution_def parse_optional_ci_value_eq Let_def split: option.splits)

text \<open>The parsers that may refuse a value, each with its field.\<close>

definition no_invalid_value :: "ci_variables \<Rightarrow> gitlab_origin_policy \<Rightarrow> bool" where
  "no_invalid_value selected policy \<longleftrightarrow>
     (\<forall>f \<in> {PipelineProjectId, MergeRequestProjectId, MergeRequestSourceProjectId, MergeRequestIid}.
        \<not> ci_invalid selected f positive_number)
   \<and> (\<forall>f \<in> {PipelineProjectPath, MergeRequestProjectPath, MergeRequestSourceProjectPath}.
        \<not> ci_invalid selected f gitlab_project_path_try_from)
   \<and> (\<forall>f \<in> {MergeRequestSourceBranch, MergeRequestTargetBranch}. \<not> ci_invalid selected f git_ref_name_try_from)
   \<and> \<not> ci_invalid selected ServerUrl (\<lambda>v. gitlab_origin_parse v policy)
   \<and> \<not> ci_invalid selected CommitSha git_sha_try_from
   \<and> \<not> ci_invalid selected MergeRequestSourceBranchSha git_sha_try_from"

lemmas ci_parse_defs = parse_ci_projects_def parse_ci_review_def parse_ci_positive_id_def
  parse_ci_positive_number_def parse_ci_project_path_def parse_ci_ref_def parse_ci_value_eq
  positive_id_parsed Let_def prod.case

text \<open>A hint is assembled from the parsed values, and no value was refused.\<close>

definition hint_parsed :: "ci_variables \<Rightarrow> gitlab_origin_policy \<Rightarrow> gitlab_ci_hint \<Rightarrow> bool" where
  "hint_parsed selected policy h \<longleftrightarrow>
     ci_parsed selected ServerUrl (\<lambda>v. gitlab_origin_parse v policy) = Some (hint_origin h)
   \<and> ci_parsed selected PipelineProjectId positive_number = Some (gp_id (hint_pipeline_project h))
   \<and> ci_parsed selected PipelineProjectPath gitlab_project_path_try_from = Some (gp_path (hint_pipeline_project h))
   \<and> ci_parsed selected MergeRequestProjectId positive_number = Some (gp_id (hint_target_project h))
   \<and> ci_parsed selected MergeRequestProjectPath gitlab_project_path_try_from = Some (gp_path (hint_target_project h))
   \<and> ci_parsed selected MergeRequestSourceProjectId positive_number = Some (gp_id (hint_source_project h))
   \<and> ci_parsed selected MergeRequestSourceProjectPath gitlab_project_path_try_from = Some (gp_path (hint_source_project h))
   \<and> ci_parsed selected MergeRequestIid positive_number = Some (hint_merge_request_iid h)
   \<and> ci_parsed selected MergeRequestSourceBranch git_ref_name_try_from = Some (hint_source_ref h)
   \<and> ci_parsed selected MergeRequestTargetBranch git_ref_name_try_from = Some (hint_target_ref h)
   \<and> ci_parsed selected CommitSha git_sha_try_from = Some (hint_head_sha h)"

lemma classify_cases:
  fixes vs :: "(string \<times> string) list"
  defines "selected \<equiv> fst (collect_ci_variables vs)"
  shows "\<exists>outcome. classify_gitlab_ci_environment vs policy = outcome \<and>
    (if snd (collect_ci_variables vs) = [] \<and> no_invalid_value selected policy
        \<and> \<not> unsupported_value selected PipelineSource ''merge_request_event''
        \<and> \<not> unsupported_value selected MergeRequestEventType ''detached''
        \<and> \<not> (\<exists>v w. ci_parsed selected MergeRequestSourceBranchSha git_sha_try_from = Some v
             \<and> ci_parsed selected CommitSha git_sha_try_from = Some w \<and> w \<noteq> v)
        \<and> missing_ci_fields selected = []
     then outcome = CiAmbiguous [InconsistentProjectIdentity] \<and> (\<nexists>h. hint_parsed selected policy h)
        \<or> (\<exists>h. hint_parsed selected policy h \<and> outcome = classify_project_relationship h)
     else ci_context_hint outcome = None)"
proof -
  obtain reasons where collected: "collect_ci_variables vs = (selected, reasons)"
    by (simp add: selected_def) (metis prod.collapse)
  obtain p r rs where p: "parse_ci_projects selected reasons = (p, rs)"
    and r: "fst (parse_ci_review selected policy rs) = r" by (metis surj_pair)
  have hint: "assemble_ci_hint p r = Some h \<longleftrightarrow> hint_parsed selected policy h" for h
    using p r unfolding assembled hint_parsed_def by (auto simp: ci_parse_defs)
  have reviewed: "pv_head_sha r = ci_parsed selected CommitSha git_sha_try_from"
    using r by (auto simp: ci_parse_defs)
  have clean: "snd (parse_ci_review selected policy rs) = [] \<and>
      \<not> ci_invalid selected MergeRequestSourceBranchSha git_sha_try_from \<longleftrightarrow>
      reasons = [] \<and> no_invalid_value selected policy"
    using p by (auto simp: ci_parse_defs no_invalid_value_def)
  obtain rs' where rs': "parse_ci_review selected policy rs = (r, rs')" using r by (cases "parse_ci_review selected policy rs") auto
  have run: "classify_gitlab_ci_environment vs policy =
      (if validate_ci_execution selected (pv_head_sha r) rs' \<noteq> []
       then CiAmbiguous (validate_ci_execution selected (pv_head_sha r) rs')
       else if missing_ci_fields selected \<noteq> [] then CiMissing (missing_ci_fields selected)
       else case assemble_ci_hint p r of None \<Rightarrow> CiAmbiguous [InconsistentProjectIdentity]
         | Some h \<Rightarrow> classify_project_relationship h)"
    by (simp add: classify_gitlab_ci_environment_def collected p rs' Let_def)
  have accepted: "validate_ci_execution selected (pv_head_sha r) rs' = [] \<longleftrightarrow>
      reasons = [] \<and> no_invalid_value selected policy
    \<and> \<not> unsupported_value selected PipelineSource ''merge_request_event''
    \<and> \<not> unsupported_value selected MergeRequestEventType ''detached''
    \<and> \<not> (\<exists>v w. ci_parsed selected MergeRequestSourceBranchSha git_sha_try_from = Some v
         \<and> ci_parsed selected CommitSha git_sha_try_from = Some w \<and> w \<noteq> v)"
    using clean unfolding validated_Nil reviewed rs' snd_conv by blast
  show ?thesis
    unfolding run accepted collected snd_conv using hint
    by (cases "assemble_ci_hint p r") auto
qed

section \<open>What the environment describes\<close>

lemma described_sole:
  assumes "ci_describes vs policy h"
  shows "\<forall>f. length (ci_values f vs) \<le> 1"
proof
  fix f
  show "length (ci_values f vs) \<le> 1"
    using assms by (cases f) (auto simp: ci_describes_def ci_reads_def)
qed

lemma git_sha_same: "git_sha_try_from v = Inr w \<Longrightarrow> w = v"
  by (auto simp: git_sha_try_from_def split: if_splits)

lemma hint_parsed_iff:
  assumes "\<forall>f. length (ci_values f vs) \<le> 1"
  shows "hint_parsed (fst (collect_ci_variables vs)) policy h \<longleftrightarrow>
     ci_reads vs ServerUrl (\<lambda>v. gitlab_origin_parse v policy) (hint_origin h)
   \<and> ci_reads vs PipelineProjectId positive_number (gp_id (hint_pipeline_project h))
   \<and> ci_reads vs PipelineProjectPath gitlab_project_path_try_from (gp_path (hint_pipeline_project h))
   \<and> ci_reads vs MergeRequestProjectId positive_number (gp_id (hint_target_project h))
   \<and> ci_reads vs MergeRequestProjectPath gitlab_project_path_try_from (gp_path (hint_target_project h))
   \<and> ci_reads vs MergeRequestSourceProjectId positive_number (gp_id (hint_source_project h))
   \<and> ci_reads vs MergeRequestSourceProjectPath gitlab_project_path_try_from (gp_path (hint_source_project h))
   \<and> ci_reads vs MergeRequestIid positive_number (hint_merge_request_iid h)
   \<and> ci_reads vs MergeRequestSourceBranch git_ref_name_try_from (hint_source_ref h)
   \<and> ci_reads vs MergeRequestTargetBranch git_ref_name_try_from (hint_target_ref h)
   \<and> ci_reads vs CommitSha git_sha_try_from (hint_head_sha h)"
  unfolding hint_parsed_def
  by (simp only: ci_parsed_iff [OF assms])

text \<open>The values of the fields that are not parsed into the hint.\<close>

lemma branch_sha_agrees:
  assumes "\<forall>f. length (ci_values f vs) \<le> 1" and "ci_reads vs CommitSha git_sha_try_from head"
  defines "selected \<equiv> fst (collect_ci_variables vs)"
  shows "\<not> ci_invalid selected MergeRequestSourceBranchSha git_sha_try_from \<and>
      \<not> (\<exists>v w. ci_parsed selected MergeRequestSourceBranchSha git_sha_try_from = Some v
             \<and> ci_parsed selected CommitSha git_sha_try_from = Some w \<and> w \<noteq> v) \<longleftrightarrow>
    ci_values MergeRequestSourceBranchSha vs \<in> {[], [[]], [head]}"
proof -
  have commit: "ci_parsed selected CommitSha git_sha_try_from = Some head"
    using ci_parsed_iff(4) [OF assms(1)] assms(2) by (simp add: selected_def)
  have good: "git_sha_try_from head = Inr head"
    using assms(2) by (auto simp: ci_reads_def dest: git_sha_same)
  note sole = collect_sole [OF assms(1), folded selected_def]
  consider (none) "ci_values MergeRequestSourceBranchSha vs = []"
    | (one) v where "ci_values MergeRequestSourceBranchSha vs = [v]"
    using assms(1) [rule_format, of MergeRequestSourceBranchSha]
    by (cases "ci_values MergeRequestSourceBranchSha vs") auto
  then show ?thesis
  proof cases
    case none
    then have "map_of selected MergeRequestSourceBranchSha = None"
      using sole [of MergeRequestSourceBranchSha] by (cases "map_of selected MergeRequestSourceBranchSha") auto
    then show ?thesis by (simp add: none ci_invalid_def ci_parsed_def)
  next
    case one
    then have v: "map_of selected MergeRequestSourceBranchSha = Some v" by (simp add: sole)
    show ?thesis unfolding commit one
      by (cases "git_sha_try_from v") (auto simp: ci_invalid_def ci_parsed_def v good dest: git_sha_same)
  qed
qed

lemma fixed_value:
  assumes "\<forall>f. length (ci_values f vs) \<le> 1" and "expected \<noteq> []"
  shows "\<not> unsupported_value (fst (collect_ci_variables vs)) f expected
      \<and> (\<exists>v. map_of (fst (collect_ci_variables vs)) f = Some v \<and> v \<noteq> []) \<longleftrightarrow>
    ci_values f vs = [expected]"
  using assms(2) by (auto simp: unsupported_iff collect_sole [OF assms(1)])

text \<open>The conditions under which the classification gives a hint, on the collected variables.\<close>

definition ci_accepts :: "(string \<times> string) list \<Rightarrow> gitlab_origin_policy \<Rightarrow> gitlab_ci_hint \<Rightarrow> bool" where
  "ci_accepts vs policy h \<longleftrightarrow>
     (let selected = fst (collect_ci_variables vs) in
      snd (collect_ci_variables vs) = [] \<and> no_invalid_value selected policy
        \<and> \<not> unsupported_value selected PipelineSource ''merge_request_event''
        \<and> \<not> unsupported_value selected MergeRequestEventType ''detached''
        \<and> \<not> (\<exists>v w. ci_parsed selected MergeRequestSourceBranchSha git_sha_try_from = Some v
             \<and> ci_parsed selected CommitSha git_sha_try_from = Some w \<and> w \<noteq> v)
        \<and> missing_ci_fields selected = [] \<and> hint_parsed selected policy h)"

lemma hint_parsed_unique:
  fixes h h' :: gitlab_ci_hint
  shows "hint_parsed selected policy h \<Longrightarrow> hint_parsed selected policy h' \<Longrightarrow> h' = h"
  by (cases h; cases h'; cases "hint_pipeline_project h"; cases "hint_pipeline_project h'";
      cases "hint_target_project h"; cases "hint_target_project h'";
      cases "hint_source_project h"; cases "hint_source_project h'")
    (simp add: hint_parsed_def)

lemma classify_outcome:
  fixes h :: gitlab_ci_hint
  shows "ci_accepts vs policy h \<Longrightarrow>
      classify_gitlab_ci_environment vs policy = classify_project_relationship h"
    and "(\<nexists>h. ci_accepts vs policy h) \<Longrightarrow> ci_context_hint (classify_gitlab_ci_environment vs policy) = None"
proof -
  show "classify_gitlab_ci_environment vs policy = classify_project_relationship h"
    if accepts: "ci_accepts vs policy h"
  proof -
    obtain h' where "hint_parsed (fst (collect_ci_variables vs)) policy h'"
      and "classify_gitlab_ci_environment vs policy = classify_project_relationship h'"
      using classify_cases [of vs policy] accepts by (auto simp: ci_accepts_def Let_def split: if_splits)
    moreover have "hint_parsed (fst (collect_ci_variables vs)) policy h"
      using accepts by (simp add: ci_accepts_def Let_def)
    ultimately show ?thesis using hint_parsed_unique by metis
  qed
  show "ci_context_hint (classify_gitlab_ci_environment vs policy) = None" if "\<nexists>h. ci_accepts vs policy h"
    using classify_cases [of vs policy] that by (auto simp: ci_accepts_def Let_def split: if_splits)
qed

lemma ci_accepts_iff: "ci_accepts vs policy h \<longleftrightarrow> ci_describes vs policy h"
proof (cases "\<forall>f. length (ci_values f vs) \<le> 1")
  case False
  then show ?thesis using described_sole by (metis ci_accepts_def collect_no_reasons)
next
  case sole: True
  define selected where "selected = fst (collect_ci_variables vs)"
  note reads = hint_parsed_iff [OF sole, folded selected_def]
  note valid = ci_reads_valid [OF sole, folded selected_def]
  have present: "(\<exists>v. map_of selected f = Some v \<and> v \<noteq> []) \<longleftrightarrow> (\<exists>v. ci_values f vs = [v] \<and> v \<noteq> [])" for f
    by (simp add: selected_def collect_sole [OF sole])
  have fixed: "\<not> unsupported_value selected f e \<and> (\<exists>v. map_of selected f = Some v \<and> v \<noteq> []) \<longleftrightarrow>
      ci_values f vs = [e]" if "e \<noteq> []" for f e
    using fixed_value [OF sole that] by (simp add: selected_def)
  show ?thesis
  proof
    assume "ci_accepts vs policy h"
    then have parsed: "hint_parsed selected policy h" and rest: "no_invalid_value selected policy"
      "\<not> unsupported_value selected PipelineSource ''merge_request_event''"
      "\<not> unsupported_value selected MergeRequestEventType ''detached''"
      "\<not> (\<exists>v w. ci_parsed selected MergeRequestSourceBranchSha git_sha_try_from = Some v
             \<and> ci_parsed selected CommitSha git_sha_try_from = Some w \<and> w \<noteq> v)"
      "\<forall>f \<in> set required_ci_fields. \<exists>v. map_of selected f = Some v \<and> v \<noteq> []"
      by (simp_all add: ci_accepts_def Let_def selected_def missing_Nil)
    have "ci_reads vs CommitSha git_sha_try_from (hint_head_sha h)" using parsed by (simp only: reads)
    note sha = branch_sha_agrees [OF sole this, folded selected_def]
    have "ci_values PipelineSource vs = [''merge_request_event'']"
      "ci_values MergeRequestEventType vs = [''detached'']"
      using rest fixed [of "''merge_request_event''" PipelineSource] fixed [of "''detached''" MergeRequestEventType]
      by (simp_all add: required_ci_fields_def)
    moreover have "ci_values MergeRequestSourceBranchSha vs \<in> {[], [[]], [hint_head_sha h]}"
      using sha rest(1,4) unfolding no_invalid_value_def by blast
    ultimately show "ci_describes vs policy h" using parsed unfolding reads ci_describes_def by blast
  next
    assume d: "ci_describes vs policy h"
    then have parsed: "hint_parsed selected policy h" unfolding reads ci_describes_def by blast
    have "ci_reads vs CommitSha git_sha_try_from (hint_head_sha h)" using d by (simp add: ci_describes_def)
    note sha = branch_sha_agrees [OF sole this, folded selected_def]
    have fields: "\<exists>v. ci_values f vs = [v] \<and> v \<noteq> []" if "f \<in> set required_ci_fields" for f
      using that d
      by (cases f) (simp_all add: ci_describes_def required_ci_fields_def,
          (blast intro: ci_reads_nonempty)+)
    have "\<not> ci_invalid selected MergeRequestSourceBranchSha git_sha_try_from"
      using d sha by (simp add: ci_describes_def)
    then have "no_invalid_value selected policy"
      using d unfolding no_invalid_value_def ci_describes_def
      by (elim conjE) (intro conjI ballI; (elim insertE emptyE)?; hypsubst?; (rule valid, assumption | assumption))
    moreover have "\<not> unsupported_value selected PipelineSource ''merge_request_event''"
      "\<not> unsupported_value selected MergeRequestEventType ''detached''"
      using d fixed [of "''merge_request_event''" PipelineSource] fixed [of "''detached''" MergeRequestEventType]
      by (simp_all add: ci_describes_def)
    moreover have "missing_ci_fields selected = []" unfolding missing_Nil present using fields by blast
    moreover have "snd (collect_ci_variables vs) = []" using sole by (simp add: collect_no_reasons)
    ultimately show "ci_accepts vs policy h"
      using parsed sha d unfolding ci_accepts_def Let_def selected_def [symmetric] ci_describes_def by blast
  qed
qed

lemma collect_ignores:
  "fold collect_variable (filter (\<lambda>(name, _). ci_field_of name \<noteq> None) vs) s = fold collect_variable vs s"
proof (induction vs arbitrary: s)
  case (Cons nv vs)
  then show ?case by (cases nv; cases s; cases "ci_field_of (fst nv)") (simp_all add: collect_variable_eq)
qed simp

text \<open>
  \<^bold>\<open>C33.\<close>  The CI environment yields a hint exactly when it describes one merge request without
  contradiction: every field given once, each value accepted by its parser, a detached
  merge-request pipeline, an optional source-branch commit equal to the head, project
  identities that agree in both parts or in neither, and a pipeline of the source or target
  project.  The context is ready exactly when, moreover, source and target are one project.
  Variables outside the allowlist, secrets among them, have no influence.
\<close>

theorem ci_hint_exactly:
  fixes h :: gitlab_ci_hint
  shows "(ci_context_hint (classify_gitlab_ci_environment vs policy) = Some h \<longleftrightarrow>
            ci_describes vs policy h \<and> projects_related h)
       \<and> (classify_gitlab_ci_environment vs policy = CiReady h \<longleftrightarrow>
            ci_describes vs policy h \<and> projects_related h \<and> hint_source_project h = hint_target_project h)
       \<and> classify_gitlab_ci_environment (filter (\<lambda>(name, _). ci_field_of name \<noteq> None) vs) policy =
            classify_gitlab_ci_environment vs policy"
proof (intro conjI)
  have hint: "ci_context_hint (classify_gitlab_ci_environment vs policy) = Some h \<Longrightarrow> ci_describes vs policy h"
  proof -
    assume hint: "ci_context_hint (classify_gitlab_ci_environment vs policy) = Some h"
    then obtain h' where "ci_accepts vs policy h'" using classify_outcome(2) [of vs policy] by fastforce
    then show "ci_describes vs policy h"
      using hint classify_outcome(1) [of vs policy h'] classified_hint(1) by (metis ci_accepts_iff)
  qed
  have run: "ci_describes vs policy h \<Longrightarrow>
      classify_gitlab_ci_environment vs policy = classify_project_relationship h"
    using classify_outcome(1) by (simp add: ci_accepts_iff)
  show some: "ci_context_hint (classify_gitlab_ci_environment vs policy) = Some h \<longleftrightarrow>
      ci_describes vs policy h \<and> projects_related h"
    using hint run classified_hint(1) by metis
  show "classify_gitlab_ci_environment vs policy = CiReady h \<longleftrightarrow>
      ci_describes vs policy h \<and> projects_related h \<and> hint_source_project h = hint_target_project h"
    using some run classified_hint(2) by (metis ci_context_hint.simps(1))
  show "classify_gitlab_ci_environment (filter (\<lambda>(name, _). ci_field_of name \<noteq> None) vs) policy =
      classify_gitlab_ci_environment vs policy"
    by (simp only: classify_gitlab_ci_environment_def collect_ci_variables_def collect_ignores)
qed

section \<open>Verification against the observed merge request\<close>

lemma compare_empty [simp]:
  "compare_values b m ms = {} \<longleftrightarrow> b \<and> ms = {}"
  "compare_project l r m m' ms = {} \<longleftrightarrow> l = r \<and> ms = {}" for l r :: gitlab_project_identity
  by (simp add: compare_values_def) (cases l; cases r; simp add: compare_project_def compare_values_def)

text \<open>What a hint must satisfy for the observed merge request.\<close>

definition hint_agrees :: "gitlab_origin \<Rightarrow> gitlab_ci_hint \<Rightarrow> authoritative_merge_request \<Rightarrow> bool" where
  "hint_agrees trusted_origin h a \<longleftrightarrow>
     hint_origin h = trusted_origin \<and> hint_target_project h = am_target_project a
   \<and> hint_source_project h = am_source_project a
   \<and> hint_pipeline_project h \<in> {am_source_project a, am_target_project a}
   \<and> hint_merge_request_iid h = am_merge_request_iid a
   \<and> hint_source_ref h = am_source_ref a \<and> hint_target_ref h = am_target_ref a
   \<and> hint_head_sha h = am_head_sha a"

lemma compare_hint_empty: "compare_hint trusted_origin h a ms = {} \<longleftrightarrow> ms = {} \<and> hint_agrees trusted_origin h a"
  unfolding compare_hint_def Let_def hint_agrees_def compare_empty
  by (cases "hint_pipeline_project h = hint_source_project h";
      cases "hint_pipeline_project h = hint_target_project h")
    (auto simp: identity_matches_iff)

text \<open>
  \<^bold>\<open>C34.\<close>  A context is verified exactly when the trusted selection names the observed merge
  request and the CI hint, where there is one, agrees with it in every part; what is verified
  is the observation, never the hint.  A hint read from the CI environment that was verified
  means that the environment described exactly this commit, these refs and this merge request.
\<close>

theorem verified_exactly:
  "(gitlab_verify i a = VerifiedContext c \<longleftrightarrow>
      vi_project i = am_target_project a \<and> vi_merge_request_iid i = am_merge_request_iid a
    \<and> (\<forall>h. vi_ci_hint i = Some h \<longrightarrow> hint_agrees (vi_origin i) h a)
    \<and> c = \<lparr>vc_origin = vi_origin i, vc_target_project = am_target_project a,
           vc_source_project = am_source_project a, vc_merge_request_iid = am_merge_request_iid a,
           vc_source_ref = am_source_ref a, vc_target_ref = am_target_ref a, vc_head_sha = am_head_sha a\<rparr>)
   \<and> (vi_ci_hint i = ci_context_hint (classify_gitlab_ci_environment vs policy) \<longrightarrow>
      vi_ci_hint i \<noteq> None \<longrightarrow> gitlab_verify i a = VerifiedContext c \<longrightarrow>
      ci_values CommitSha vs = [vc_head_sha c] \<and>
      ci_reads vs MergeRequestSourceBranch git_ref_name_try_from (vc_source_ref c) \<and>
      ci_reads vs MergeRequestTargetBranch git_ref_name_try_from (vc_target_ref c) \<and>
      ci_reads vs MergeRequestIid positive_number (vc_merge_request_iid c))"
  (is "(?verified \<longleftrightarrow> ?agrees) \<and> ?described")
proof -
  have configured: "compare_values (vi_merge_request_iid i = am_merge_request_iid a) ConfiguredMergeRequestIid
      (compare_values (gp_path (vi_project i) = gp_path (am_target_project a)) ConfiguredProjectPath
        (compare_values (gp_id (vi_project i) = gp_id (am_target_project a)) ConfiguredProjectId {})) = {} \<longleftrightarrow>
      vi_project i = am_target_project a \<and> vi_merge_request_iid i = am_merge_request_iid a"
    using identity_matches_iff [of "vi_project i" "am_target_project a"] by (auto simp: identity_matches_def)
  have verified: "?verified \<longleftrightarrow> ?agrees"
    using configured unfolding gitlab_verify_def Let_def
    by (cases "vi_ci_hint i") (auto simp: compare_hint_empty)
  moreover have ?described
  proof (intro impI)
    assume read: "vi_ci_hint i = ci_context_hint (classify_gitlab_ci_environment vs policy)"
      and "vi_ci_hint i \<noteq> None" and "gitlab_verify i a = VerifiedContext c"
    then obtain h where h: "vi_ci_hint i = Some h" and agrees: "hint_agrees (vi_origin i) h a"
      and c: "vc_head_sha c = am_head_sha a" "vc_source_ref c = am_source_ref a"
        "vc_target_ref c = am_target_ref a" "vc_merge_request_iid c = am_merge_request_iid a"
      using verified by auto
    then have described: "ci_describes vs policy h"
      using read ci_accepts_iff classify_outcome(2) [of vs policy] classify_outcome(1) classified_hint(1)
      by (metis option.distinct(1))
    then obtain v where "ci_values CommitSha vs = [v]" "git_sha_try_from v = Inr (hint_head_sha h)"
      by (auto simp: ci_describes_def ci_reads_def)
    then have "ci_values CommitSha vs = [hint_head_sha h]" using git_sha_same by metis
    then show "ci_values CommitSha vs = [vc_head_sha c] \<and>
        ci_reads vs MergeRequestSourceBranch git_ref_name_try_from (vc_source_ref c) \<and>
        ci_reads vs MergeRequestTargetBranch git_ref_name_try_from (vc_target_ref c) \<and>
        ci_reads vs MergeRequestIid positive_number (vc_merge_request_iid c)"
      using described agrees by (simp add: c ci_describes_def hint_agrees_def)
  qed
  ultimately show ?thesis by blast
qed

section \<open>A merge-request pipeline\<close>

definition sample_sha :: string where
  "sample_sha = ''0123456789abcdef0123456789abcdef01234567''"

definition sample_environment :: "(string \<times> string) list" where
  "sample_environment =
     [(''CI_SERVER_URL'', ''https://Git.io:8443/''), (''CI_PIPELINE_SOURCE'', ''merge_request_event''),
      (''CI_PROJECT_ID'', ''42''), (''CI_PROJECT_PATH'', ''group/project''),
      (''CI_MERGE_REQUEST_PROJECT_ID'', ''42''), (''CI_MERGE_REQUEST_PROJECT_PATH'', ''group/project''),
      (''CI_MERGE_REQUEST_IID'', ''7''), (''CI_JOB_TOKEN'', ''secret''),
      (''CI_MERGE_REQUEST_SOURCE_PROJECT_ID'', ''42''),
      (''CI_MERGE_REQUEST_SOURCE_PROJECT_PATH'', ''group/project''),
      (''CI_MERGE_REQUEST_SOURCE_BRANCH_NAME'', ''feature/x''),
      (''CI_MERGE_REQUEST_TARGET_BRANCH_NAME'', ''main''),
      (''CI_MERGE_REQUEST_EVENT_TYPE'', ''detached''), (''CI_COMMIT_SHA'', sample_sha),
      (''CI_MERGE_REQUEST_SOURCE_BRANCH_SHA'', [])]"

definition sample_project :: gitlab_project_identity where
  "sample_project = \<lparr>gp_id = 42, gp_path = ''group/project''\<rparr>"

definition sample_hint :: gitlab_ci_hint where
  "sample_hint = \<lparr>hint_origin = sample_origin, hint_pipeline_project = sample_project,
     hint_target_project = sample_project, hint_source_project = sample_project,
     hint_merge_request_iid = 7, hint_source_ref = ''feature/x'', hint_target_ref = ''main'',
     hint_head_sha = sample_sha\<rparr>"

lemma sample_values:
  "positive_number ''42'' = Inr 42" "positive_number ''7'' = Inr 7"
  "gitlab_project_path_try_from ''group/project'' = Inr ''group/project''"
  "git_ref_name_try_from ''feature/x'' = Inr ''feature/x''" "git_ref_name_try_from ''main'' = Inr ''main''"
  "git_sha_try_from sample_sha = Inr sample_sha"
  by (simp_all add: positive_number_def is_ascii_digit_def starts_with_def decimal_value_def try_word_def
      gitlab_project_path_try_from_def max_project_path_bytes_def max_project_path_components_def
      check_path_component_def max_project_path_component_bytes_def name_byte_def is_ascii_alphanumeric_def
      is_ascii_lowercase_def is_ascii_uppercase_def git_ref_name_try_from_def max_ref_bytes_def ends_with_def
      check_ref_component_def max_ref_component_bytes_def lock_component_def slice_from_def ascii_lowercase_def
      to_ascii_lowercase_def is_continuation_def git_sha_try_from_def git_sha_min_len_def git_sha_max_len_def
      sample_sha_def is_lower_hex_def char_of_eq_iff word_less_nat_alt)

lemma sample_described: "ci_describes sample_environment sample_policy sample_hint"
  unfolding ci_describes_def
  by (intro conjI; simp add: ci_reads_def ci_values_def sample_environment_def sample_hint_def sample_project_def
      sample_values sample_parses)

lemma sample_classified: "classify_gitlab_ci_environment sample_environment sample_policy = CiReady sample_hint"
proof -
  have "projects_related sample_hint" by (simp add: projects_related_def sample_hint_def)
  then show ?thesis
    using classify_outcome(1) sample_described classified(1) by (simp add: ci_accepts_iff sample_hint_def)
qed

definition sample_observation :: authoritative_merge_request where
  "sample_observation = \<lparr>am_target_project = sample_project, am_source_project = sample_project,
     am_merge_request_iid = 7, am_source_ref = ''feature/x'', am_target_ref = ''main'',
     am_head_sha = sample_sha\<rparr>"

definition sample_input :: gitlab_verification_input where
  "sample_input = \<lparr>vi_origin = sample_origin, vi_project = sample_project, vi_merge_request_iid = 7,
     vi_ci_hint = Some sample_hint\<rparr>"

lemma verified_exactly_witness:
  "(\<exists>c. gitlab_verify sample_input sample_observation = VerifiedContext c \<and> vc_head_sha c = sample_sha)
   \<and> ci_values CommitSha sample_environment = [sample_sha]"
proof -
  let ?c = "\<lparr>vc_origin = sample_origin, vc_target_project = sample_project, vc_source_project = sample_project,
    vc_merge_request_iid = 7, vc_source_ref = ''feature/x'', vc_target_ref = ''main'', vc_head_sha = sample_sha\<rparr>"
  note exact = verified_exactly [of sample_input sample_observation ?c sample_environment sample_policy]
  have "hint_agrees sample_origin sample_hint sample_observation"
    by (simp add: hint_agrees_def sample_hint_def sample_observation_def)
  then have verified: "gitlab_verify sample_input sample_observation = VerifiedContext ?c"
    using exact by (simp add: sample_input_def sample_observation_def)
  have read: "vi_ci_hint sample_input = ci_context_hint (classify_gitlab_ci_environment sample_environment sample_policy)"
    by (simp add: sample_classified sample_input_def)
  have "vi_ci_hint sample_input \<noteq> None" by (simp add: sample_input_def)
  then have "ci_values CommitSha sample_environment = [vc_head_sha ?c]"
    using conjunct2 [OF exact] read verified by blast
  then have "ci_values CommitSha sample_environment = [sample_sha]" by simp
  then show ?thesis using verified by auto
qed

end
