(* ===== verification/Gitlab_Wire.thy ===== *)
theory Gitlab_Wire
  imports Gitlab_Context Assessment Publication Ordered_Map
begin

text \<open>
  \<open>gitlab_wire.rs\<close>: bounded parsing of GitLab responses.  The headers that are observed, the
  offset pagination of one response and of a sequence of pages, and the conversion of the wire
  records for merge requests, diff versions, changed files, discussions and raw blobs.

  Outside the model: \<open>serde_json::from_str\<close> is the argument \<open>json\<close>, a decoder of the text into
  the wire record or nothing, and SHA-256 is the argument \<open>sha\<close>.  Nothing is assumed of them.
\<close>

section \<open>Limits\<close>

definition hard_max_json_body_bytes :: nat where "hard_max_json_body_bytes = 32 * 1024 * 1024"
definition hard_max_blob_body_bytes :: nat where "hard_max_blob_body_bytes = 32 * 1024 * 1024"
definition hard_max_items_per_page :: u32 where "hard_max_items_per_page = 1000"
definition hard_max_pages :: u32 where "hard_max_pages = 10000"
definition hard_max_total_items :: u32 where "hard_max_total_items = 1000000"
definition hard_max_header_count :: u32 where "hard_max_header_count = 512"
definition hard_max_header_bytes :: nat where "hard_max_header_bytes = 64 * 1024"

record gitlab_wire_limits =
  wl_max_json_body_bytes :: nat
  wl_max_blob_body_bytes :: nat
  wl_max_items_per_page :: u32
  wl_max_pages :: u32
  wl_max_total_items :: u32
  wl_max_diff_bytes :: nat
  wl_max_note_body_bytes :: nat
  wl_max_string_bytes :: nat
  wl_max_notes_per_discussion :: u32
  wl_max_header_count :: u32
  wl_max_header_name_bytes :: nat
  wl_max_header_value_bytes :: nat

definition default_wire_limits :: gitlab_wire_limits where
  "default_wire_limits =
     \<lparr>wl_max_json_body_bytes = 8 * 1024 * 1024, wl_max_blob_body_bytes = 4 * 1024 * 1024,
      wl_max_items_per_page = 100, wl_max_pages = 1000, wl_max_total_items = 100000,
      wl_max_diff_bytes = 2 * 1024 * 1024, wl_max_note_body_bytes = 128 * 1024,
      wl_max_string_bytes = 4096, wl_max_notes_per_discussion = 1000, wl_max_header_count = 128,
      wl_max_header_name_bytes = 128, wl_max_header_value_bytes = 16 * 1024\<rparr>"

datatype gitlab_wire_error =
  WireInvalidLimits | UnexpectedStatus u16 | BodyTooLarge nat nat | EmptyBody | InvalidUtf8 nat
| MalformedJson | WrongContentType | TooManyHeaders nat u32 | InvalidHeaderName | HeaderNameTooLong
| HeaderValueTooLong | InvalidHeaderValue | DuplicateHeader string | InvalidHeaderNumber string
| ContentLengthMismatch u64 nat | StringTooLong | InvalidIdentifier | InvalidProject | InvalidRef
| InvalidSha | WireInvalidPath | InvalidMergeRequestState | InvalidChangedFileCount
| DiffRefsHeadMismatch | InvalidDiffVersionState | TooManyPageItems nat u32 | InvalidRequestedPage
| PaginationPageMismatch | PaginationPerPageMismatch | PaginationPreviousMismatch
| PaginationNextMismatch | PaginationCycle | PaginationGap | PaginationAfterTerminal
| PaginationContinuationMissing | PaginationAmbiguousContinuation | PaginationTotalMismatch
| PaginationOverflow | MalformedLinkHeader | TooManyPages | TooManyTotalItems | InvalidChangedPath
| ContradictoryDiffFlags | WireDiffTooLarge nat nat | InvalidExactVersion | TooManyDiscussionNotes
| InvalidDiscussion | DuplicateDiscussionId | WireDuplicateNoteId | CreatedResponseMismatch
| NoteBodyTooLarge | BlobMetadataMissing string | BlobMetadataMismatch string | BlobDigestMismatch
| BlobSizeMismatch

definition wire_limits_validate :: "gitlab_wire_limits \<Rightarrow> gitlab_wire_error + unit" where
  "wire_limits_validate l =
     (if 0 < wl_max_json_body_bytes l \<and> wl_max_json_body_bytes l \<le> hard_max_json_body_bytes
       \<and> 0 < wl_max_blob_body_bytes l \<and> wl_max_blob_body_bytes l \<le> hard_max_blob_body_bytes
       \<and> 0 < wl_max_items_per_page l \<and> wl_max_items_per_page l \<le> hard_max_items_per_page
       \<and> 0 < wl_max_pages l \<and> wl_max_pages l \<le> hard_max_pages
       \<and> 0 < wl_max_total_items l \<and> wl_max_total_items l \<le> hard_max_total_items
       \<and> 0 < wl_max_diff_bytes l \<and> wl_max_diff_bytes l \<le> wl_max_json_body_bytes l
       \<and> 0 < wl_max_note_body_bytes l \<and> wl_max_note_body_bytes l \<le> wl_max_json_body_bytes l
       \<and> 0 < wl_max_string_bytes l \<and> wl_max_string_bytes l \<le> wl_max_json_body_bytes l
       \<and> 0 < wl_max_notes_per_discussion l \<and> wl_max_notes_per_discussion l \<le> wl_max_total_items l
       \<and> 0 < wl_max_header_count l \<and> wl_max_header_count l \<le> hard_max_header_count
       \<and> 0 < wl_max_header_name_bytes l \<and> wl_max_header_name_bytes l \<le> hard_max_header_bytes
       \<and> 0 < wl_max_header_value_bytes l \<and> wl_max_header_value_bytes l \<le> hard_max_header_bytes
      then Inr () else Inl WireInvalidLimits)"

section \<open>Responses and wire records\<close>

record response_header =
  rh_name :: string
  rh_value :: string

record response_observation =
  rs_status :: u16
  rs_headers :: "response_header list"
  rs_body :: string

record response_metadata =
  rm_status :: u16
  rm_content_length :: "u64 option"
  rm_request_id :: "string option"

record project_wire =
  pw_id :: u64
  pw_path_with_namespace :: string

record diff_refs_wire =
  rw_base_sha :: string
  rw_start_sha :: string
  rw_head_sha :: string

record merge_request_wire =
  mw_id :: u64
  mw_iid :: u64
  mw_project_id :: u64
  mw_source_project_id :: "u64 option"
  mw_target_project_id :: u64
  mw_state :: string
  mw_source_branch :: string
  mw_target_branch :: string
  mw_sha :: string
  mw_diff_refs :: "diff_refs_wire option"
  mw_changes_count :: "string option"

datatype merge_request_state = Opened | Closed | Merged | Locked

record validated_merge_request =
  vm_merge_request_id :: u64
  vm_iid :: u64
  vm_project_id :: u64
  vm_source_project_id :: "u64 option"
  vm_target_project_id :: u64
  vm_state :: merge_request_state
  vm_source_ref :: git_ref_name
  vm_target_ref :: git_ref_name
  vm_head_sha :: git_sha
  vm_diff_refs :: "diff_refs option"
  vm_changed_files :: changed_file_count

record diff_version_wire =
  dw_id :: u64
  dw_head_commit_sha :: string
  dw_base_commit_sha :: string
  dw_start_commit_sha :: string
  dw_state :: string
  dw_real_size :: "string option"
  dw_created_at :: "string option"
  dw_merge_request_id :: "u64 option"
  dw_patch_id_sha :: "string option"

record validated_diff_version =
  vd_record :: diff_version_record
  vd_state :: diff_version_state
  vd_reported_files :: changed_file_count
  vd_merge_request_id :: "u64 option"

record changed_file_wire =
  fw_old_path :: string
  fw_new_path :: string
  fw_a_mode :: "string option"
  fw_b_mode :: "string option"
  fw_diff :: "string option"
  fw_new_file :: bool
  fw_renamed_file :: bool
  fw_deleted_file :: bool
  fw_generated_file :: "bool option"
  fw_collapsed :: "bool option"
  fw_too_large :: "bool option"

record validated_changed_file =
  vf_file :: changed_file
  vf_generated :: "bool option"
  vf_unified_diff :: "string option"

record exact_diff_version_wire = diff_version_wire +
  dw_diffs :: "changed_file_wire list"

record validated_exact_version =
  ve_version :: validated_diff_version
  ve_files :: "validated_changed_file list"

record discussion_author_wire =
  aw_id :: u64
  aw_username :: string

record discussion_position_wire =
  ow_old_path :: "string option"
  ow_new_path :: "string option"
  ow_old_line :: "u32 option"
  ow_new_line :: "u32 option"

record discussion_note_wire =
  nw_id :: u64
  nw_note_type :: "string option"
  nw_body :: string
  nw_author :: discussion_author_wire
  nw_system :: bool
  nw_resolvable :: bool
  nw_resolved :: bool
  nw_resolved_by :: "discussion_author_wire option"
  nw_created_at :: "string option"
  nw_updated_at :: "string option"
  nw_resolved_at :: "string option"
  nw_position :: "discussion_position_wire option"

record discussion_wire =
  sw_id :: string
  sw_individual_note :: bool
  sw_notes :: "discussion_note_wire list"

record validated_discussion =
  vs_id :: string
  vs_individual_note :: bool
  vs_notes :: "existing_note list"

record validated_created_publication =
  vp_note_id :: u64

record validated_raw_blob =
  vb_identity :: blob_identity
  vb_execute_filemode :: bool
  vb_body :: string

record pagination_metadata =
  pgm_page_number :: u32
  pgm_per_page :: u32
  pgm_item_count :: u32
  pgm_next_page :: "u32 option"
  pgm_total_items :: "u64 option"
  pgm_total_pages :: "u32 option"

record 'a gitlab_page =
  pg_metadata :: pagination_metadata
  pg_items :: "'a list"

section \<open>Headers\<close>

type_synonym parsed_headers = "(string, string) btree"

definition observed_header :: "string \<Rightarrow> bool" where
  "observed_header name \<longleftrightarrow>
     name \<in> set [''content-length'', ''content-type'', ''link'', ''x-page'', ''x-next-page'',
       ''x-prev-page'', ''x-per-page'', ''x-total'', ''x-total-pages'', ''x-request-id'',
       ''x-gitlab-blob-id'', ''x-gitlab-commit-id'', ''x-gitlab-content-sha256'', ''x-gitlab-encoding'',
       ''x-gitlab-execute-filemode'', ''x-gitlab-file-name'', ''x-gitlab-file-path'',
       ''x-gitlab-last-commit-id'', ''x-gitlab-ref'', ''x-gitlab-size'']"

definition header_name_byte :: "char \<Rightarrow> bool" where
  "header_name_byte b \<longleftrightarrow> is_ascii_alphanumeric b \<or> b = CHR ''-''"

definition add_header ::
    "gitlab_wire_limits \<Rightarrow> response_header \<Rightarrow> parsed_headers \<Rightarrow> gitlab_wire_error + parsed_headers" where
  "add_header l h values =
     (if wl_max_header_name_bytes l < length (rh_name h) then Inl HeaderNameTooLong
      else if wl_max_header_value_bytes l < length (rh_value h) then Inl HeaderValueTooLong
      else if rh_name h = [] \<or> \<not> list_all header_name_byte (rh_name h) then Inl InvalidHeaderName
      else if \<not> utf8_valid (rh_name h) then Inl InvalidHeaderName
      else
        let name = ascii_lowercase (rh_name h) in
        if \<not> utf8_valid (rh_value h) then Inl InvalidHeaderValue
        else if list_ex (\<lambda>b. b = ret \<or> b = nl \<or> b = CHR 0x00) (rh_value h) then Inl InvalidHeaderValue
        else if observed_header name
        then (if map_of values name \<noteq> None then Inl (DuplicateHeader name)
              else Inr (bt_insert name (trim (rh_value h)) values))
        else Inr values)"

definition parse_headers ::
    "response_header list \<Rightarrow> gitlab_wire_limits \<Rightarrow> gitlab_wire_error + parsed_headers" where
  "parse_headers input l =
     (if unat (wl_max_header_count l) < length input
      then Inl (TooManyHeaders (length input) (wl_max_header_count l))
      else try_fold (add_header l) input [])"

definition header_required :: "parsed_headers \<Rightarrow> string \<Rightarrow> gitlab_wire_error + string" where
  "header_required hs name = ok_or (BlobMetadataMissing name) (map_of hs name)"

definition parse_strict_u64 :: "string \<Rightarrow> string \<Rightarrow> gitlab_wire_error + u64" where
  "parse_strict_u64 value name =
     (if value = [] \<or> \<not> list_all is_ascii_digit value \<or> 1 < length value \<and> starts_with ''0'' value
      then Inl (InvalidHeaderNumber name)
      else ok_or (InvalidHeaderNumber name) (try_word (decimal_value value)))"

definition parse_strict_u32 :: "string \<Rightarrow> string \<Rightarrow> gitlab_wire_error + u32" where
  "parse_strict_u32 value name =
     and_then (parse_strict_u64 value name) (\<lambda>parsed.
     ok_or (InvalidHeaderNumber name) (try_word (unat parsed)))"

text \<open>\<open>Option::map(f).transpose()\<close>\<close>

definition transposed :: "('a \<Rightarrow> 'e + 'b) \<Rightarrow> 'a option \<Rightarrow> 'e + 'b option" where
  "transposed f m = (case m of None \<Rightarrow> Inr None | Some x \<Rightarrow> and_then (f x) (\<lambda>y. Inr (Some y)))"

definition header_required_u64 :: "parsed_headers \<Rightarrow> string \<Rightarrow> gitlab_wire_error + u64" where
  "header_required_u64 hs name =
     and_then (header_required hs name) (\<lambda>value. parse_strict_u64 value name)"

definition header_optional_u64 :: "parsed_headers \<Rightarrow> string \<Rightarrow> gitlab_wire_error + u64 option" where
  "header_optional_u64 hs name = transposed (\<lambda>value. parse_strict_u64 value name) (map_of hs name)"

definition header_optional_u32 :: "parsed_headers \<Rightarrow> string \<Rightarrow> gitlab_wire_error + u32 option" where
  "header_optional_u32 hs name = transposed (\<lambda>value. parse_strict_u32 value name) (map_of hs name)"

datatype page_signal = Unobserved | Terminal | PageSignal u32

fun signal_next_page :: "page_signal \<Rightarrow> u32 option" where
  "signal_next_page (PageSignal page) = Some page"
| "signal_next_page Unobserved = None"
| "signal_next_page Terminal = None"

definition header_page_signal :: "parsed_headers \<Rightarrow> string \<Rightarrow> gitlab_wire_error + page_signal" where
  "header_page_signal hs name =
     (case map_of hs name of
        None \<Rightarrow> Inr Unobserved
      | Some value \<Rightarrow> if value = [] then Inr Terminal
          else and_then (parse_strict_u32 value name) (\<lambda>page. Inr (PageSignal page)))"

definition validate_content_length :: "parsed_headers \<Rightarrow> nat \<Rightarrow> gitlab_wire_error + unit" where
  "validate_content_length hs observed =
     and_then (header_optional_u64 hs ''content-length'') (\<lambda>declared.
     case declared of
       None \<Rightarrow> Inr ()
     | Some n \<Rightarrow> reject_if (n \<noteq> clamp_word observed) (ContentLengthMismatch n observed))"

definition parse_required_sha_header :: "parsed_headers \<Rightarrow> string \<Rightarrow> gitlab_wire_error + git_sha" where
  "parse_required_sha_header hs name =
     and_then (header_required hs name) (\<lambda>value.
     map_err (\<lambda>_. BlobMetadataMismatch name) (git_sha_try_from value))"

section \<open>The Link header\<close>

text \<open>\<open>str::trim_matches\<close> of a character, and \<open>str::split_ascii_whitespace\<close>.\<close>

definition trim_char :: "char \<Rightarrow> string \<Rightarrow> string" where
  "trim_char c s = rev (dropWhile (\<lambda>b. b = c) (rev (dropWhile (\<lambda>b. b = c) s)))"

definition ascii_words :: "string \<Rightarrow> string list" where
  "ascii_words s =
     filter (\<lambda>w. w \<noteq> []) (split_by (\<lambda>c. c \<in> {'' '', [CHR 0x09], [nl], [CHR 0x0C], [ret]}) s)"

text \<open>The first parameter that is \<open>rel=\<close>, without its quotes.\<close>

fun first_relations :: "string list \<Rightarrow> string option" where
  "first_relations [] = None"
| "first_relations (parameter # ps) =
     (case strip_prefix ''rel='' (trim parameter) of
        Some value \<Rightarrow> Some (trim_char (CHR 0x22) value) | None \<Rightarrow> first_relations ps)"

definition link_page_parameter ::
    "string \<Rightarrow> u32 option \<Rightarrow> gitlab_wire_error + u32 option" where
  "link_page_parameter parameter page =
     (case strip_prefix ''page='' parameter of
        None \<Rightarrow> Inr page
      | Some value \<Rightarrow>
          if page \<noteq> None then Inl MalformedLinkHeader
          else and_then (parse_strict_u32 value ''link'') (\<lambda>n. Inr (Some n)))"

definition link_entry :: "string \<Rightarrow> u32 option \<Rightarrow> gitlab_wire_error + u32 option" where
  "link_entry raw next_page =
     and_then (ok_or MalformedLinkHeader (split_once ''>'' (trim raw))) (\<lambda>(target, parameters).
     and_then (ok_or MalformedLinkHeader (strip_prefix ''<'' target)) (\<lambda>target.
     case first_relations (split_on (CHR '';'') parameters) of
       None \<Rightarrow> Inr next_page
     | Some relations \<Rightarrow>
         if ''next'' \<notin> set (ascii_words relations) then Inr next_page
         else if next_page \<noteq> None then Inl MalformedLinkHeader
         else
           and_then (ok_or MalformedLinkHeader (split_once ''?'' target)) (\<lambda>(_, query).
           and_then (try_fold link_page_parameter (split_on (CHR ''&'') query) None) (\<lambda>page.
           and_then (ok_or MalformedLinkHeader page) (\<lambda>n. Inr (Some n))))))"

definition parse_link_next :: "string \<Rightarrow> gitlab_wire_error + page_signal" where
  "parse_link_next value =
     and_then (try_fold link_entry (split_on (CHR '','') value) None) (\<lambda>next_page.
     Inr (case next_page of Some n \<Rightarrow> PageSignal n | None \<Rightarrow> Terminal))"

section \<open>Pagination of one response\<close>

definition combine_next_signals :: "page_signal \<Rightarrow> page_signal \<Rightarrow> gitlab_wire_error + page_signal" where
  "combine_next_signals header link =
     (if header = Unobserved then Inr link
      else if link = Unobserved then Inr header
      else if header = link then Inr header
      else Inl PaginationNextMismatch)"

definition validate_pagination_echoes ::
    "parsed_headers \<Rightarrow> u32 \<Rightarrow> u32 \<Rightarrow> gitlab_wire_error + unit" where
  "validate_pagination_echoes hs requested_page requested_per_page =
     and_then (header_optional_u32 hs ''x-page'') (\<lambda>page.
     and_then (reject_if (page \<noteq> None \<and> page \<noteq> Some requested_page) PaginationPageMismatch) (\<lambda>_.
     and_then (header_optional_u32 hs ''x-per-page'') (\<lambda>per_page.
     and_then (reject_if (per_page \<noteq> None \<and> per_page \<noteq> Some requested_per_page) PaginationPerPageMismatch) (\<lambda>_.
     let expected_previous =
       (if 1 < requested_page then PageSignal (requested_page - 1) else Terminal) in
     and_then (header_page_signal hs ''x-prev-page'') (\<lambda>observed_previous.
     reject_if (observed_previous \<noteq> Unobserved \<and> observed_previous \<noteq> expected_previous)
       PaginationPreviousMismatch)))))"

definition checked_mul :: "'w::len word \<Rightarrow> 'w word \<Rightarrow> 'w word option" where
  "checked_mul a b = (if unat a * unat b < 2 ^ LENGTH('w) then Some (a * b) else None)"

text \<open>The callers pass a page and a page size that are not zero.\<close>

definition validate_pagination_totals ::
    "u64 \<Rightarrow> u32 \<Rightarrow> u32 \<Rightarrow> u32 \<Rightarrow> nat \<Rightarrow> gitlab_wire_error + page_signal" where
  "validate_pagination_totals total_count pages requested_page requested_per_page item_count =
     and_then (ok_or PaginationOverflow
       (map_option (\<lambda>value. value div ucast requested_per_page)
         (checked_add total_count (ucast requested_per_page - 1)))) (\<lambda>calculated.
     and_then (ok_or PaginationOverflow (try_word (unat (max calculated 1)))) (\<lambda>calculated.
     and_then (reject_if (pages \<noteq> calculated \<or> pages < requested_page) PaginationTotalMismatch) (\<lambda>_.
     and_then (ok_or PaginationOverflow
       (checked_mul (ucast (requested_page - 1)) (ucast requested_per_page))) (\<lambda>consumed_before.
     let expected_items = min (saturating_sub total_count consumed_before) (ucast requested_per_page) in
     and_then (reject_if (expected_items \<noteq> clamp_word item_count) PaginationTotalMismatch) (\<lambda>_.
     if requested_page < pages
     then and_then (ok_or PaginationOverflow (checked_add requested_page 1)) (\<lambda>page. Inr (PageSignal page))
     else Inr Terminal)))))"

definition resolve_next ::
    "u64 option \<Rightarrow> u32 option \<Rightarrow> u32 \<Rightarrow> u32 \<Rightarrow> nat \<Rightarrow> page_signal \<Rightarrow> gitlab_wire_error + page_signal" where
  "resolve_next total_items total_pages requested_page requested_per_page item_count explicit_next =
     (case (total_items, total_pages) of
        (Some total_count, Some pages) \<Rightarrow>
          and_then (validate_pagination_totals total_count pages requested_page requested_per_page item_count) (\<lambda>expected.
          if explicit_next \<noteq> Unobserved \<and> explicit_next \<noteq> expected then Inl PaginationNextMismatch
          else Inr expected)
      | _ \<Rightarrow> (case explicit_next of
            Unobserved \<Rightarrow> if item_count < unat requested_per_page then Inr Terminal
              else Inl PaginationAmbiguousContinuation
          | observed \<Rightarrow> Inr observed))"

definition check_next_page :: "u32 \<Rightarrow> nat \<Rightarrow> u32 option \<Rightarrow> gitlab_wire_error + unit" where
  "check_next_page requested_page item_count next_page =
     (case next_page of
        None \<Rightarrow> Inr ()
      | Some n \<Rightarrow>
          if n \<le> requested_page then Inl PaginationCycle
          else if n \<noteq> saturating_add requested_page 1 then Inl PaginationGap
          else if item_count = 0 then Inl PaginationNextMismatch
          else Inr ())"

definition parse_pagination ::
    "response_observation \<Rightarrow> u32 \<Rightarrow> u32 \<Rightarrow> nat \<Rightarrow> gitlab_wire_limits \<Rightarrow> gitlab_wire_error + pagination_metadata" where
  "parse_pagination response requested_page requested_per_page item_count l =
     and_then (reject_if (requested_page = 0 \<or> requested_per_page = 0
       \<or> wl_max_items_per_page l < requested_per_page) InvalidRequestedPage) (\<lambda>_.
     and_then (parse_headers (rs_headers response) l) (\<lambda>hs.
     and_then (validate_pagination_echoes hs requested_page requested_per_page) (\<lambda>_.
     and_then (header_optional_u64 hs ''x-total'') (\<lambda>total_items.
     and_then (header_optional_u32 hs ''x-total-pages'') (\<lambda>total_pages.
     and_then (reject_if ((total_items \<noteq> None) \<noteq> (total_pages \<noteq> None)) PaginationTotalMismatch) (\<lambda>_.
     and_then (reject_if (unat requested_per_page < item_count)
       (TooManyPageItems item_count requested_per_page)) (\<lambda>_.
     and_then (header_page_signal hs ''x-next-page'') (\<lambda>header_next.
     and_then (case map_of hs ''link'' of None \<Rightarrow> Inr Unobserved | Some value \<Rightarrow> parse_link_next value) (\<lambda>link_next.
     and_then (combine_next_signals header_next link_next) (\<lambda>explicit_next.
     and_then (resolve_next total_items total_pages requested_page requested_per_page item_count explicit_next) (\<lambda>resolved.
     let next_page = signal_next_page resolved in
     and_then (check_next_page requested_page item_count next_page) (\<lambda>_.
     and_then (ok_or PaginationOverflow (try_word item_count)) (\<lambda>count.
     Inr \<lparr>pgm_page_number = requested_page, pgm_per_page = requested_per_page, pgm_item_count = count,
          pgm_next_page = next_page, pgm_total_items = total_items, pgm_total_pages = total_pages\<rparr>)))))))))))))"

section \<open>A complete sequence of pages\<close>

record 'a collecting =
  cg_items :: "'a list"
  cg_receipts :: "page_receipt list"
  cg_previous_next :: "u32 option"

definition collect_page ::
    "gitlab_wire_limits \<Rightarrow> pagination_metadata \<Rightarrow> nat \<times> 'a gitlab_page \<Rightarrow> 'a collecting \<Rightarrow> gitlab_wire_error + 'a collecting" where
  "collect_page l first = (\<lambda>(index, page) c.
     let m = pg_metadata page in
     and_then (ok_or PaginationOverflow (Option.bind (try_word index) (\<lambda>value. checked_add value 1))) (\<lambda>expected_page.
     and_then (reject_if (pgm_page_number m \<noteq> expected_page)
       (if pgm_page_number m < expected_page then PaginationCycle else PaginationGap)) (\<lambda>_.
     and_then (reject_if (cg_previous_next c \<noteq> Some expected_page) PaginationAfterTerminal) (\<lambda>_.
     and_then (reject_if (pgm_per_page m \<noteq> pgm_per_page first \<or> pgm_total_items m \<noteq> pgm_total_items first
         \<or> pgm_total_pages m \<noteq> pgm_total_pages first \<or> unat (pgm_item_count m) \<noteq> length (pg_items page))
       PaginationTotalMismatch) (\<lambda>_.
     and_then (reject_if (pgm_per_page first < pgm_item_count m \<or> wl_max_items_per_page l < pgm_item_count m)
       (TooManyPageItems (length (pg_items page)) (wl_max_items_per_page l))) (\<lambda>_.
     and_then
       (case (pgm_total_items first, pgm_total_pages first) of
          (Some total_count, Some total_pages) \<Rightarrow>
            and_then (validate_pagination_totals total_count total_pages expected_page (pgm_per_page first)
              (length (pg_items page))) (\<lambda>expected_next.
            reject_if (pgm_next_page m \<noteq> signal_next_page expected_next) PaginationNextMismatch)
        | _ \<Rightarrow> Inr ()) (\<lambda>_.
     let items = cg_items c @ pg_items page in
     and_then (reject_if (unat (wl_max_total_items l) < length items) TooManyTotalItems) (\<lambda>_.
     Inr \<lparr>cg_items = items,
          cg_receipts = cg_receipts c @ [\<lparr>pr_page_number = expected_page, pr_item_count = pgm_item_count m,
            pr_has_next_page = pgm_next_page m \<noteq> None\<rparr>],
          cg_previous_next = pgm_next_page m\<rparr>))))))))"

definition collect_complete_pages ::
    "'a gitlab_page list \<Rightarrow> gitlab_wire_limits \<Rightarrow> gitlab_wire_error + 'a paginated" where
  "collect_complete_pages pages l =
     and_then (wire_limits_validate l) (\<lambda>_.
     and_then (reject_if (pages = []) PaginationContinuationMissing) (\<lambda>_.
     and_then (reject_if (unat (wl_max_pages l) < length pages) TooManyPages) (\<lambda>_.
     let first = pg_metadata (pages ! 0) in
     and_then (reject_if (pgm_per_page first = 0 \<or> wl_max_items_per_page l < pgm_per_page first)
       PaginationPerPageMismatch) (\<lambda>_.
     and_then (try_fold (collect_page l first) (enumerate 0 pages)
       \<lparr>cg_items = [], cg_receipts = [], cg_previous_next = Some 1\<rparr>) (\<lambda>c.
     and_then (reject_if (cg_previous_next c \<noteq> None) PaginationContinuationMissing) (\<lambda>_.
     and_then (reject_if (case pgm_total_items first of Some total_count \<Rightarrow> total_count \<noteq> clamp_word (length (cg_items c))
         | None \<Rightarrow> False) PaginationTotalMismatch) (\<lambda>_.
     Inr \<lparr>pa_items = cg_items c, pa_pages = cg_receipts c\<rparr>)))))))"

end
