(* ===== verification/Gitlab_Wire_Records.thy ===== *)
theory Gitlab_Wire_Records
  imports Gitlab_Wire Anchors
begin

text \<open>
  The rest of \<open>gitlab_wire.rs\<close>: the bodies of GitLab responses, converted from the wire
  records to the identities, changed files, notes and blobs of the core.
\<close>

section \<open>Strings and numbers\<close>

definition validate_bounded_string :: "string \<Rightarrow> gitlab_wire_limits \<Rightarrow> gitlab_wire_error + unit" where
  "validate_bounded_string value l = reject_if (wl_max_string_bytes l < length value) StringTooLong"

definition validate_optional_string :: "string option \<Rightarrow> gitlab_wire_limits \<Rightarrow> gitlab_wire_error + unit" where
  "validate_optional_string value l =
     (case value of None \<Rightarrow> Inr () | Some v \<Rightarrow> validate_bounded_string v l)"

definition parse_sha :: "string \<Rightarrow> gitlab_wire_limits \<Rightarrow> gitlab_wire_error + git_sha" where
  "parse_sha value l =
     and_then (validate_bounded_string value l) (\<lambda>_. map_err (\<lambda>_. InvalidSha) (git_sha_try_from value))"

definition parse_changed_file_count ::
    "string option \<Rightarrow> gitlab_wire_limits \<Rightarrow> gitlab_wire_error + changed_file_count" where
  "parse_changed_file_count text_value l =
     (case text_value of
        None \<Rightarrow> Inr CountUnavailable
      | Some value \<Rightarrow>
          and_then (validate_bounded_string value l) (\<lambda>_.
          if value = [] then Inr CountUnavailable
          else
            let (digits, capped) = (case strip_suffix ''+'' value of None \<Rightarrow> (value, False) | Some d \<Rightarrow> (d, True)) in
            if digits = [] \<or> \<not> list_all is_ascii_digit digits \<or> 1 < length digits \<and> starts_with ''0'' digits
            then Inl InvalidChangedFileCount
            else and_then (ok_or InvalidChangedFileCount (try_word (decimal_value digits))) (\<lambda>count.
              if capped then (if count = 0 then Inl InvalidChangedFileCount else Inr (CappedAt count))
              else Inr (ExactCount count))))"

definition validate_item_count :: "nat \<Rightarrow> gitlab_wire_limits \<Rightarrow> gitlab_wire_error + unit" where
  "validate_item_count observed l =
     reject_if (unat (wl_max_items_per_page l) < observed) (TooManyPageItems observed (wl_max_items_per_page l))"

definition validate_success_status :: "u16 \<Rightarrow> gitlab_wire_error + unit" where
  "validate_success_status status = (if status = 200 then Inr () else Inl (UnexpectedStatus status))"

definition positive_identifier :: "u64 \<Rightarrow> gitlab_wire_error + u64" where
  "positive_identifier n = map_err (\<lambda>_. InvalidIdentifier) (positive_id_try_from n)"

section \<open>Bodies\<close>

definition eq_ignore_case :: "string \<Rightarrow> string \<Rightarrow> bool" where
  "eq_ignore_case s t \<longleftrightarrow> ascii_lowercase s = ascii_lowercase t"

definition valid_json_content_type :: "string \<Rightarrow> bool" where
  "valid_json_content_type value =
     (case split_on (CHR '';'') value of
        [] \<Rightarrow> False
      | media # parameters \<Rightarrow>
          eq_ignore_case (trim media) ''application/json''
        \<and> list_all (\<lambda>p. eq_ignore_case (trim p) ''charset=utf-8'') parameters)"

definition parse_json_response_with_status ::
    "(string \<Rightarrow> 'a option) \<Rightarrow> response_observation \<Rightarrow> gitlab_wire_limits \<Rightarrow> u16 \<Rightarrow> gitlab_wire_error + 'a" where
  "parse_json_response_with_status json response l expected_status =
     and_then (wire_limits_validate l) (\<lambda>_.
     and_then (reject_if (rs_status response \<noteq> expected_status) (UnexpectedStatus (rs_status response))) (\<lambda>_.
     and_then (reject_if (rs_body response = []) EmptyBody) (\<lambda>_.
     and_then (reject_if (wl_max_json_body_bytes l < length (rs_body response))
       (BodyTooLarge (length (rs_body response)) (wl_max_json_body_bytes l))) (\<lambda>_.
     and_then (parse_headers (rs_headers response) l) (\<lambda>hs.
     and_then (validate_content_length hs (length (rs_body response))) (\<lambda>_.
     and_then (reject_if (case map_of hs ''content-type'' of
         Some content_type \<Rightarrow> \<not> valid_json_content_type content_type | None \<Rightarrow> False) WrongContentType) (\<lambda>_.
     and_then (reject_if (\<not> utf8_valid (rs_body response)) (InvalidUtf8 (utf8_valid_up_to (rs_body response)))) (\<lambda>_.
     ok_or MalformedJson (json (rs_body response))))))))))"

definition parse_json_response ::
    "(string \<Rightarrow> 'a option) \<Rightarrow> response_observation \<Rightarrow> gitlab_wire_limits \<Rightarrow> gitlab_wire_error + 'a" where
  "parse_json_response json response l = parse_json_response_with_status json response l 200"

definition parse_response_metadata ::
    "response_observation \<Rightarrow> gitlab_wire_limits \<Rightarrow> gitlab_wire_error + response_metadata" where
  "parse_response_metadata response l =
     and_then (wire_limits_validate l) (\<lambda>_.
     and_then (parse_headers (rs_headers response) l) (\<lambda>hs.
     and_then (validate_content_length hs (length (rs_body response))) (\<lambda>_.
     and_then (header_optional_u64 hs ''content-length'') (\<lambda>content_length.
     let request_id = map_of hs ''x-request-id'' in
     and_then (reject_if (case request_id of Some v \<Rightarrow> wl_max_string_bytes l < length v | None \<Rightarrow> False)
       StringTooLong) (\<lambda>_.
     Inr \<lparr>rm_status = rs_status response, rm_content_length = content_length, rm_request_id = request_id\<rparr>)))))"

section \<open>Projects, merge requests and diff versions\<close>

definition parse_project_response ::
    "(string \<Rightarrow> project_wire option) \<Rightarrow> response_observation \<Rightarrow> gitlab_wire_limits \<Rightarrow> gitlab_wire_error + gitlab_project_identity" where
  "parse_project_response json response l =
     and_then (parse_json_response json response l) (\<lambda>wire.
     and_then (validate_bounded_string (pw_path_with_namespace wire) l) (\<lambda>_.
     and_then (map_err (\<lambda>_. InvalidProject) (positive_id_try_from (pw_id wire))) (\<lambda>i.
     and_then (map_err (\<lambda>_. InvalidProject) (gitlab_project_path_try_from (pw_path_with_namespace wire))) (\<lambda>path.
     Inr \<lparr>gp_id = i, gp_path = path\<rparr>))))"

definition validate_diff_refs :: "diff_refs_wire \<Rightarrow> gitlab_wire_limits \<Rightarrow> gitlab_wire_error + diff_refs" where
  "validate_diff_refs wire l =
     and_then (parse_sha (rw_base_sha wire) l) (\<lambda>base.
     and_then (parse_sha (rw_start_sha wire) l) (\<lambda>start.
     and_then (parse_sha (rw_head_sha wire) l) (\<lambda>head.
     Inr \<lparr>df_base_sha = base, df_start_sha = start, df_head_sha = head\<rparr>)))"

definition merge_request_state_of :: "string \<Rightarrow> gitlab_wire_error + merge_request_state" where
  "merge_request_state_of s =
     (if s = ''opened'' then Inr Opened else if s = ''closed'' then Inr Closed
      else if s = ''merged'' then Inr Merged else if s = ''locked'' then Inr Locked
      else Inl InvalidMergeRequestState)"

definition validate_merge_request ::
    "merge_request_wire \<Rightarrow> gitlab_wire_limits \<Rightarrow> gitlab_wire_error + validated_merge_request" where
  "validate_merge_request wire l =
     and_then (validate_bounded_string (mw_state wire) l) (\<lambda>_.
     and_then (merge_request_state_of (mw_state wire)) (\<lambda>state.
     and_then (reject_if (mw_id wire = 0) InvalidIdentifier) (\<lambda>_.
     and_then (validate_bounded_string (mw_source_branch wire) l) (\<lambda>_.
     and_then (validate_bounded_string (mw_target_branch wire) l) (\<lambda>_.
     and_then (positive_identifier (mw_iid wire)) (\<lambda>iid.
     and_then (positive_identifier (mw_project_id wire)) (\<lambda>project_id.
     and_then (transposed positive_identifier (mw_source_project_id wire)) (\<lambda>source_project_id.
     and_then (positive_identifier (mw_target_project_id wire)) (\<lambda>target_project_id.
     and_then (reject_if (project_id \<noteq> target_project_id) InvalidIdentifier) (\<lambda>_.
     and_then (parse_sha (mw_sha wire) l) (\<lambda>head_sha.
     and_then (map_err (\<lambda>_. InvalidRef) (git_ref_name_try_from (mw_source_branch wire))) (\<lambda>source_ref.
     and_then (map_err (\<lambda>_. InvalidRef) (git_ref_name_try_from (mw_target_branch wire))) (\<lambda>target_ref.
     and_then (transposed (\<lambda>refs. validate_diff_refs refs l) (mw_diff_refs wire)) (\<lambda>diff_refs.
     and_then (reject_if (case diff_refs of Some refs \<Rightarrow> df_head_sha refs \<noteq> head_sha | None \<Rightarrow> False)
       DiffRefsHeadMismatch) (\<lambda>_.
     and_then (parse_changed_file_count (mw_changes_count wire) l) (\<lambda>changed_files.
     Inr \<lparr>vm_merge_request_id = mw_id wire, vm_iid = iid, vm_project_id = project_id,
          vm_source_project_id = source_project_id, vm_target_project_id = target_project_id,
          vm_state = state, vm_source_ref = source_ref, vm_target_ref = target_ref, vm_head_sha = head_sha,
          vm_diff_refs = diff_refs, vm_changed_files = changed_files\<rparr>))))))))))))))))"

definition parse_merge_request_response ::
    "(string \<Rightarrow> merge_request_wire option) \<Rightarrow> response_observation \<Rightarrow> gitlab_wire_limits \<Rightarrow> gitlab_wire_error + validated_merge_request" where
  "parse_merge_request_response json response l =
     and_then (parse_json_response json response l) (\<lambda>wire. validate_merge_request wire l)"

definition diff_version_state_of :: "string \<Rightarrow> gitlab_wire_error + diff_version_state" where
  "diff_version_state_of s =
     (if s = ''collected'' then Inr Collected else if s = ''overflow'' then Inr Overflow
      else if s = ''without_files'' then Inr WithoutFiles
      else if s \<noteq> [] then Inr (UnknownState s) else Inl InvalidDiffVersionState)"

definition validate_diff_version ::
    "'a diff_version_wire_scheme \<Rightarrow> gitlab_wire_limits \<Rightarrow> gitlab_wire_error + validated_diff_version" where
  "validate_diff_version wire l =
     and_then (parse_changed_file_count (dw_real_size wire) l) (\<lambda>reported_files.
     and_then (validate_optional_string (dw_created_at wire) l) (\<lambda>_.
     and_then (validate_optional_string (dw_patch_id_sha wire) l) (\<lambda>_.
     and_then (reject_if (dw_merge_request_id wire = Some 0) InvalidIdentifier) (\<lambda>_.
     and_then (validate_bounded_string (dw_state wire) l) (\<lambda>_.
     and_then (diff_version_state_of (dw_state wire)) (\<lambda>state.
     let state = (case reported_files of CappedAt _ \<Rightarrow> Overflow | _ \<Rightarrow> state) in
     and_then (positive_identifier (dw_id wire)) (\<lambda>i.
     and_then (parse_sha (dw_base_commit_sha wire) l) (\<lambda>base.
     and_then (parse_sha (dw_start_commit_sha wire) l) (\<lambda>start.
     and_then (parse_sha (dw_head_commit_sha wire) l) (\<lambda>head.
     Inr \<lparr>vd_record = \<lparr>dv_id = i,
            dv_refs = \<lparr>df_base_sha = base, df_start_sha = start, df_head_sha = head\<rparr>\<rparr>,
          vd_state = state, vd_reported_files = reported_files,
          vd_merge_request_id = dw_merge_request_id wire\<rparr>))))))))))"

text \<open>\<open>into_iter().map(f).collect::<Result<Vec<_>, _>>()\<close>\<close>

definition collect_results :: "('a \<Rightarrow> 'e + 'b) \<Rightarrow> 'a list \<Rightarrow> 'e + 'b list" where
  "collect_results f xs = try_fold (\<lambda>x ys. and_then (f x) (\<lambda>y. Inr (ys @ [y]))) xs []"

text \<open>The body shared by the page parsers, which differ in the record and its conversion.\<close>

definition parse_page ::
    "(string \<Rightarrow> 'a list option) \<Rightarrow> ('a \<Rightarrow> gitlab_wire_limits \<Rightarrow> gitlab_wire_error + 'b) \<Rightarrow> response_observation
      \<Rightarrow> u32 \<Rightarrow> u32 \<Rightarrow> gitlab_wire_limits \<Rightarrow> gitlab_wire_error + 'b gitlab_page" where
  "parse_page json convert response requested_page requested_per_page l =
     and_then (parse_json_response json response l) (\<lambda>wire.
     and_then (validate_item_count (length wire) l) (\<lambda>_.
     and_then (parse_pagination response requested_page requested_per_page (length wire) l) (\<lambda>metadata.
     and_then (collect_results (\<lambda>item. convert item l) wire) (\<lambda>items.
     Inr \<lparr>pg_metadata = metadata, pg_items = items\<rparr>))))"

definition parse_diff_versions_page ::
    "(string \<Rightarrow> diff_version_wire list option) \<Rightarrow> response_observation \<Rightarrow> u32 \<Rightarrow> u32 \<Rightarrow> gitlab_wire_limits
      \<Rightarrow> gitlab_wire_error + validated_diff_version gitlab_page" where
  "parse_diff_versions_page json = parse_page json validate_diff_version"

section \<open>Changed files\<close>

definition is_binary_diff :: "string \<Rightarrow> bool" where
  "is_binary_diff diff \<longleftrightarrow>
     (let line = (case strip_suffix [nl] diff of Some d \<Rightarrow> d | None \<Rightarrow> diff) in
      CHR 0x00 \<in> set diff \<or> line = ''GIT binary patch''
      \<or> starts_with ''Binary files '' line \<and> ends_with '' differ'' line)"

definition validate_changed_file ::
    "hasher \<Rightarrow> changed_file_wire \<Rightarrow> gitlab_wire_limits \<Rightarrow> gitlab_wire_error + validated_changed_file" where
  "validate_changed_file sha wire l =
     and_then (try_fold (\<lambda>value _. validate_bounded_string value l)
       [fw_old_path wire, fw_new_path wire, case_option [] id (fw_a_mode wire), case_option [] id (fw_b_mode wire)] ()) (\<lambda>_.
     let flag_count = of_bool (fw_new_file wire) + of_bool (fw_renamed_file wire) + of_bool (fw_deleted_file wire) :: u8 in
     and_then (reject_if (1 < flag_count \<or> fw_collapsed wire = Some True \<and> fw_too_large wire = Some True)
       ContradictoryDiffFlags) (\<lambda>_.
     let kind = (if fw_new_file wire then Added else if fw_renamed_file wire then Renamed
       else if fw_deleted_file wire then Deleted else Modified) in
     and_then (map_err (\<lambda>_. WireInvalidPath) (repository_path_try_from (fw_old_path wire))) (\<lambda>old_path.
     and_then (map_err (\<lambda>_. WireInvalidPath) (repository_path_try_from (fw_new_path wire))) (\<lambda>new_path.
     let path = ChangedPath old_path new_path kind in
     and_then (reject_if (semantic_issue path \<noteq> None) InvalidChangedPath) (\<lambda>_.
     let diff = (case fw_diff wire of Some d \<Rightarrow> d | None \<Rightarrow> []) in
     and_then (reject_if (wl_max_diff_bytes l < length diff) (WireDiffTooLarge (length diff) (wl_max_diff_bytes l))) (\<lambda>_.
     let collapsed = (fw_collapsed wire = Some True); too_large = (fw_too_large wire = Some True) in
     and_then (reject_if ((collapsed \<or> too_large) \<and> diff \<noteq> []) ContradictoryDiffFlags) (\<lambda>_.
     let availability =
       (if too_large then DiffTooLarge
        else if collapsed then DiffCollapsed
        else if is_binary_diff diff then DiffBinary
        else if diff \<noteq> [] then DiffAvailable (sha diff)
        else if fw_collapsed wire = None \<or> fw_too_large wire = None then DiffUnknown
        else DiffMissing) in
     Inr \<lparr>vf_file = \<lparr>cf_path = path, cf_diff = availability\<rparr>, vf_generated = fw_generated_file wire,
          vf_unified_diff = (case availability of DiffAvailable _ \<Rightarrow> Some diff | _ \<Rightarrow> None)\<rparr>)))))))"

definition parse_changed_files_page ::
    "hasher \<Rightarrow> (string \<Rightarrow> changed_file_wire list option) \<Rightarrow> response_observation \<Rightarrow> u32 \<Rightarrow> u32 \<Rightarrow> gitlab_wire_limits
      \<Rightarrow> gitlab_wire_error + validated_changed_file gitlab_page" where
  "parse_changed_files_page sha json = parse_page json (validate_changed_file sha)"

definition parse_exact_diff_version_response ::
    "hasher \<Rightarrow> (string \<Rightarrow> exact_diff_version_wire option) \<Rightarrow> response_observation \<Rightarrow> gitlab_wire_limits
      \<Rightarrow> gitlab_wire_error + validated_exact_version" where
  "parse_exact_diff_version_response sha json response l =
     and_then (parse_json_response json response l) (\<lambda>wire.
     and_then (validate_item_count (length (dw_diffs wire)) l) (\<lambda>_.
     and_then (validate_diff_version wire l) (\<lambda>version.
     and_then (collect_results (\<lambda>item. validate_changed_file sha item l) (dw_diffs wire)) (\<lambda>files.
     and_then (reject_if (\<not> distinct (map (cf_path \<circ> vf_file) files)) InvalidExactVersion) (\<lambda>_.
     and_then (reject_if (vd_state version = WithoutFiles \<and> files \<noteq> []) InvalidExactVersion) (\<lambda>_.
     and_then (reject_if (case vd_reported_files version of ExactCount reported \<Rightarrow> unat reported < length files
         | _ \<Rightarrow> False) InvalidExactVersion) (\<lambda>_.
     Inr \<lparr>ve_version = version, ve_files = files\<rparr>)))))))"

section \<open>Discussions\<close>

definition note_path :: "discussion_position_wire \<Rightarrow> string option" where
  "note_path p =
     (if ow_new_line p \<noteq> None
      then (case ow_new_path p of Some path \<Rightarrow> Some path | None \<Rightarrow> ow_old_path p)
      else (case ow_old_path p of Some path \<Rightarrow> Some path | None \<Rightarrow> ow_new_path p))"

definition converted_note :: "discussion_note_wire \<Rightarrow> existing_note" where
  "converted_note n =
     \<lparr>no_note_id = nw_id n, no_author_user_id = aw_id (nw_author n),
      no_author_username = Some (aw_username (nw_author n)), no_body = nw_body n, no_discussion_id = None,
      no_resolvable = nw_resolvable n, no_resolved = nw_resolved n,
      no_resolved_by_user_id = map_option aw_id (nw_resolved_by n), no_created_at = nw_created_at n,
      no_updated_at = nw_updated_at n, no_resolved_at = nw_resolved_at n,
      no_path = Option.bind (nw_position n) note_path,
      no_line = Option.bind (nw_position n) (\<lambda>p. case ow_new_line p of Some i \<Rightarrow> Some i | None \<Rightarrow> ow_old_line p),
      no_original_line = Option.bind (nw_position n) ow_old_line\<rparr>"

definition validate_note ::
    "gitlab_wire_limits \<Rightarrow> discussion_note_wire \<Rightarrow> u64 set \<times> existing_note list
      \<Rightarrow> gitlab_wire_error + u64 set \<times> existing_note list" where
  "validate_note l n = (\<lambda>(note_ids, notes).
     and_then (reject_if (nw_id n = 0 \<or> aw_id (nw_author n) = 0 \<or> nw_id n \<in> note_ids) WireDuplicateNoteId) (\<lambda>_.
     and_then (validate_bounded_string (aw_username (nw_author n)) l) (\<lambda>_.
     and_then (validate_optional_string (nw_note_type n) l) (\<lambda>_.
     and_then (validate_optional_string (nw_created_at n) l) (\<lambda>_.
     and_then (validate_optional_string (nw_updated_at n) l) (\<lambda>_.
     and_then (validate_optional_string (nw_resolved_at n) l) (\<lambda>_.
     and_then (case nw_resolved_by n of
         None \<Rightarrow> Inr ()
       | Some author \<Rightarrow> and_then (reject_if (aw_id author = 0) InvalidDiscussion) (\<lambda>_.
           validate_bounded_string (aw_username author) l)) (\<lambda>_.
     and_then (case nw_position n of
         None \<Rightarrow> Inr ()
       | Some p \<Rightarrow> and_then (validate_optional_string (ow_old_path p) l) (\<lambda>_.
           validate_optional_string (ow_new_path p) l)) (\<lambda>_.
     and_then (reject_if (wl_max_note_body_bytes l < length (nw_body n)) NoteBodyTooLarge) (\<lambda>_.
     and_then (reject_if (CHR 0x00 \<in> set (nw_body n)) InvalidDiscussion) (\<lambda>_.
     Inr (insert (nw_id n) note_ids, notes @ [converted_note n]))))))))))))"

definition validate_discussion ::
    "discussion_wire \<Rightarrow> gitlab_wire_limits \<Rightarrow> gitlab_wire_error + validated_discussion" where
  "validate_discussion wire l =
     and_then (validate_bounded_string (sw_id wire) l) (\<lambda>_.
     and_then (reject_if (sw_id wire = []) InvalidDiscussion) (\<lambda>_.
     and_then (reject_if (sw_notes wire = [] \<or> unat (wl_max_notes_per_discussion l) < length (sw_notes wire))
       TooManyDiscussionNotes) (\<lambda>_.
     and_then (try_fold (validate_note l) (sw_notes wire) ({}, [])) (\<lambda>(_, notes).
     Inr \<lparr>vs_id = sw_id wire, vs_individual_note = sw_individual_note wire, vs_notes = notes\<rparr>))))"

definition parse_discussions_page ::
    "(string \<Rightarrow> discussion_wire list option) \<Rightarrow> response_observation \<Rightarrow> u32 \<Rightarrow> u32 \<Rightarrow> gitlab_wire_limits
      \<Rightarrow> gitlab_wire_error + validated_discussion gitlab_page" where
  "parse_discussions_page json = parse_page json validate_discussion"

definition validate_created_note ::
    "existing_note \<Rightarrow> string \<Rightarrow> u64 \<Rightarrow> gitlab_wire_error + validated_created_publication" where
  "validate_created_note note expected_body expected_bot_user_id =
     (if expected_bot_user_id = 0 \<or> no_author_user_id note \<noteq> expected_bot_user_id \<or> no_body note \<noteq> expected_body
      then Inl CreatedResponseMismatch
      else Inr \<lparr>vp_note_id = no_note_id note\<rparr>)"

definition parse_created_discussion_response ::
    "(string \<Rightarrow> discussion_wire option) \<Rightarrow> response_observation \<Rightarrow> string \<Rightarrow> u64 \<Rightarrow> gitlab_wire_limits
      \<Rightarrow> gitlab_wire_error + validated_created_publication" where
  "parse_created_discussion_response json response expected_body expected_bot_user_id l =
     and_then (parse_json_response_with_status json response l 201) (\<lambda>wire.
     and_then (reject_if (sw_individual_note wire \<or> length (sw_notes wire) \<noteq> 1 \<or> nw_system (sw_notes wire ! 0)
       \<or> nw_note_type (sw_notes wire ! 0) \<noteq> Some ''DiffNote'') CreatedResponseMismatch) (\<lambda>_.
     and_then (validate_discussion wire l) (\<lambda>discussion.
     validate_created_note (vs_notes discussion ! 0) expected_body expected_bot_user_id)))"

definition parse_created_note_response ::
    "(string \<Rightarrow> discussion_note_wire option) \<Rightarrow> response_observation \<Rightarrow> string \<Rightarrow> u64 \<Rightarrow> gitlab_wire_limits
      \<Rightarrow> gitlab_wire_error + validated_created_publication" where
  "parse_created_note_response json response expected_body expected_bot_user_id l =
     and_then (parse_json_response_with_status json response l 201) (\<lambda>wire.
     and_then (reject_if (nw_system wire \<or> nw_note_type wire \<noteq> None) CreatedResponseMismatch) (\<lambda>_.
     and_then (validate_discussion \<lparr>sw_id = ''created-note'', sw_individual_note = True, sw_notes = [wire]\<rparr> l) (\<lambda>discussion.
     validate_created_note (vs_notes discussion ! 0) expected_body expected_bot_user_id)))"

definition parse_discussion_resolution_response ::
    "(string \<Rightarrow> discussion_wire option) \<Rightarrow> response_observation \<Rightarrow> string \<Rightarrow> u64 \<Rightarrow> u64 \<Rightarrow> bool \<Rightarrow> gitlab_wire_limits
      \<Rightarrow> gitlab_wire_error + unit" where
  "parse_discussion_resolution_response json response expected_discussion_id expected_note_id
       expected_bot_user_id expected_resolved l =
     and_then (parse_json_response_with_status json response l 200) (\<lambda>wire.
     and_then (reject_if (sw_id wire \<noteq> expected_discussion_id \<or> sw_individual_note wire) CreatedResponseMismatch) (\<lambda>_.
     and_then (validate_discussion wire l) (\<lambda>discussion.
     and_then (ok_or CreatedResponseMismatch
       (find (\<lambda>note. no_note_id note = expected_note_id \<and> no_author_user_id note = expected_bot_user_id)
         (vs_notes discussion))) (\<lambda>note.
     reject_if (\<not> no_resolvable note \<or> no_resolved note \<noteq> expected_resolved) CreatedResponseMismatch))))"

section \<open>The publication inventory\<close>

definition add_inventory_note ::
    "gitlab_wire_limits \<Rightarrow> validated_discussion \<Rightarrow> existing_note \<Rightarrow> (u64, existing_note) btree
      \<Rightarrow> gitlab_wire_error + (u64, existing_note) btree" where
  "add_inventory_note l d note notes =
     (let note = (if \<not> vs_individual_note d then note\<lparr>no_discussion_id := Some (vs_id d)\<rparr> else note);
          notes' = bt_insert (no_note_id note) note notes
      in if map_of notes (no_note_id note) \<noteq> None then Inl WireDuplicateNoteId
         else if unat (wl_max_total_items l) < length notes' then Inl TooManyTotalItems
         else Inr notes')"

definition add_inventory_discussion ::
    "gitlab_wire_limits \<Rightarrow> validated_discussion \<Rightarrow> string set \<times> (u64, existing_note) btree
      \<Rightarrow> gitlab_wire_error + string set \<times> (u64, existing_note) btree" where
  "add_inventory_discussion l d = (\<lambda>(discussions, notes).
     if vs_id d \<in> discussions then Inl DuplicateDiscussionId
     else and_then (try_fold (add_inventory_note l d) (vs_notes d) notes)
       (\<lambda>notes. Inr (insert (vs_id d) discussions, notes)))"

definition collect_discussion_inventory ::
    "validated_discussion gitlab_page list \<Rightarrow> gitlab_wire_limits \<Rightarrow> gitlab_wire_error + inventory" where
  "collect_discussion_inventory pages l =
     and_then (collect_complete_pages pages l) (\<lambda>acquisition.
     and_then (try_fold (add_inventory_discussion l) (pa_items acquisition) ({}, [])) (\<lambda>(_, notes).
     Inr \<lparr>in_complete = True, in_notes = bt_values notes\<rparr>))"

section \<open>Raw blobs\<close>

definition parse_bool_text :: "string \<Rightarrow> bool option" where
  "parse_bool_text value = (if value = ''true'' then Some True else if value = ''false'' then Some False else None)"

definition is_lfs_pointer :: "string \<Rightarrow> bool" where
  "is_lfs_pointer bytes \<longleftrightarrow> starts_with (''version https://git-lfs.github.com/spec/v1'' @ [nl]) bytes"

definition blob_header_is ::
    "parsed_headers \<Rightarrow> string \<Rightarrow> string \<Rightarrow> gitlab_wire_error + unit" where
  "blob_header_is hs name expected =
     and_then (header_required hs name) (\<lambda>value. reject_if (value \<noteq> expected) (BlobMetadataMismatch name))"

definition parse_raw_blob_response ::
    "hasher \<Rightarrow> blob_request \<Rightarrow> response_observation \<Rightarrow> gitlab_wire_limits \<Rightarrow> gitlab_wire_error + validated_raw_blob" where
  "parse_raw_blob_response sha request response l =
     and_then (wire_limits_validate l) (\<lambda>_.
     and_then (validate_success_status (rs_status response)) (\<lambda>_.
     let body = rs_body response in
     and_then (reject_if (wl_max_blob_body_bytes l < length body)
       (BodyTooLarge (length body) (wl_max_blob_body_bytes l))) (\<lambda>_.
     and_then (parse_headers (rs_headers response) l) (\<lambda>hs.
     and_then (validate_content_length hs (length body)) (\<lambda>_.
     and_then (parse_required_sha_header hs ''x-gitlab-blob-id'') (\<lambda>blob_sha.
     and_then (parse_required_sha_header hs ''x-gitlab-commit-id'') (\<lambda>commit_sha.
     and_then (reject_if (commit_sha \<noteq> br_commit_sha request) (BlobMetadataMismatch ''x-gitlab-commit-id'')) (\<lambda>_.
     and_then (blob_header_is hs ''x-gitlab-ref'' (br_commit_sha request)) (\<lambda>_.
     and_then (header_required hs ''x-gitlab-file-path'') (\<lambda>raw_path.
     and_then (map_err (\<lambda>_. WireInvalidPath) (repository_path_try_from raw_path)) (\<lambda>path.
     and_then (reject_if (path \<noteq> br_path request) (BlobMetadataMismatch ''x-gitlab-file-path'')) (\<lambda>_.
     and_then (blob_header_is hs ''x-gitlab-encoding'' ''base64'') (\<lambda>_.
     and_then (header_required_u64 hs ''x-gitlab-size'') (\<lambda>declared_size.
     and_then (reject_if (declared_size \<noteq> clamp_word (length body)) BlobSizeMismatch) (\<lambda>_.
     and_then (header_required hs ''x-gitlab-content-sha256'') (\<lambda>raw_digest.
     and_then (map_err (\<lambda>_. BlobMetadataMismatch ''x-gitlab-content-sha256'') (sha256_digest_try_from raw_digest)) (\<lambda>declared_digest.
     let actual_digest = sha body in
     and_then (reject_if (declared_digest \<noteq> actual_digest) BlobDigestMismatch) (\<lambda>_.
     and_then (header_required hs ''x-gitlab-execute-filemode'') (\<lambda>raw_mode.
     and_then (ok_or (BlobMetadataMismatch ''x-gitlab-execute-filemode'') (parse_bool_text raw_mode)) (\<lambda>execute_filemode.
     Inr \<lparr>vb_identity =
            \<lparr>bi_request = request, bi_blob_sha = blob_sha, bi_content_sha256 = actual_digest,
             bi_size_bytes = declared_size,
             bi_representation = (if is_lfs_pointer body then LfsPointer else FileContent)\<rparr>,
          vb_execute_filemode = execute_filemode, vb_body = body\<rparr>))))))))))))))))))))"

end
