(* ===== verification/Gitlab_Wire_Complete.thy ===== *)
theory Gitlab_Wire_Complete
  imports Gitlab_Wire_Records
begin

text \<open>
  A sequence of pages is collected exactly when it is complete: numbered from one without a
  gap, each page announcing the next and the last none, with the totals, where GitLab gave
  them, equal to what was received.  What is collected is complete in the sense of the
  snapshot contracts.
\<close>

section \<open>Totals\<close>

definition page_total :: "nat \<Rightarrow> nat \<Rightarrow> nat" where
  "page_total per_page items = max 1 ((items + (per_page - 1)) div per_page)"

definition expected_on_page :: "nat \<Rightarrow> nat \<Rightarrow> nat \<Rightarrow> nat" where
  "expected_on_page per_page items page = min (items - (page - 1) * per_page) per_page"

lemma unat_u32_less: "unat (w :: u32) < 2 ^ 32"
  using unsigned_less [of w, where ?'a = nat] by simp

lemma unat_ucast_u64 [simp]: "unat (ucast (w :: u32) :: u64) = unat w"
proof -
  have "unat w < 2 ^ 64" using unat_u32_less [of w] by simp
  then show ?thesis by (simp add: unsigned_ucast_eq take_bit_nat_eq_self)
qed

lemma unat_minus_one: "w \<noteq> 0 \<Longrightarrow> unat (w - 1) = unat (w :: 'w::len word) - 1"
  by (simp add: unat_minus_one)

lemma of_nat_eqI: "unat w = n \<Longrightarrow> (w :: 'w::len word) = of_nat n"
  by auto

lemma word_max_1: "unat (max (w :: u64) 1) = max 1 (unat w)"
  by (simp add: max_def word_le_nat_alt)

lemma clamp_eq_small:
  fixes w :: u64
  assumes "unat w < 2 ^ 32"
  shows "w = clamp_word n \<longleftrightarrow> unat w = n"
proof (cases "n < 2 ^ 64")
  case True
  then have "unat (clamp_word n :: u64) = n" using clamp_word_small [where 'w = 64] by simp
  then show ?thesis by (simp add: word_unat_eq_iff)
next
  case False
  then have "unat (clamp_word n :: u64) = 2 ^ 64 - 1" by (simp add: clamp_word_def unat_max_word)
  then show ?thesis using assms False by auto
qed

lemma totals_Inr:
  assumes "requested_page \<noteq> 0" and "per_page \<noteq> 0"
  shows "validate_pagination_totals items pages requested_page per_page n = Inr s \<longleftrightarrow>
     unat items + (unat per_page - 1) < 2 ^ 64
   \<and> unat pages = page_total (unat per_page) (unat items)
   \<and> requested_page \<le> pages
   \<and> n = expected_on_page (unat per_page) (unat items) (unat requested_page)
   \<and> s = (if requested_page < pages then PageSignal (requested_page + 1) else Terminal)"
proof -
  let ?P = "unat per_page" and ?T = "unat items" and ?p = "unat requested_page"
  have P: "0 < ?P" "?P < 2 ^ 32" and p: "0 < ?p" "?p < 2 ^ 32"
    using assms unat_u32_less [of per_page] unat_u32_less [of requested_page] by (simp_all add: unat_gt_0)
  have p64: "(ucast per_page :: u64) \<noteq> 0" using P by (metis unat_0 unat_ucast_u64 less_irrefl)
  have sum: "checked_add items (ucast per_page - 1) = Some v \<longleftrightarrow> unat v = ?T + (?P - 1)" for v
    using unat_minus_one [OF p64] by (simp add: checked_add_Some)
  have calculated: "map_option (\<lambda>value. value div ucast per_page) (checked_add items (ucast per_page - 1)) = Some w \<longleftrightarrow>
      ?T + (?P - 1) < 2 ^ 64 \<and> unat w = (?T + (?P - 1)) div ?P" for w
  proof
    assume "map_option (\<lambda>value. value div ucast per_page) (checked_add items (ucast per_page - 1)) = Some w"
    then obtain v where "unat v = ?T + (?P - 1)" and "w = v div ucast per_page" using sum by auto
    then show "?T + (?P - 1) < 2 ^ 64 \<and> unat w = (?T + (?P - 1)) div ?P"
      using unsigned_less [of v, where ?'a = nat] by (simp add: unat_div)
  next
    assume w: "?T + (?P - 1) < 2 ^ 64 \<and> unat w = (?T + (?P - 1)) div ?P"
    then have v: "unat (of_nat (?T + (?P - 1)) :: u64) = ?T + (?P - 1)" by (intro unat_of_nat_small) simp
    then have "checked_add items (ucast per_page - 1) = Some (of_nat (?T + (?P - 1)))" using sum by blast
    moreover have "of_nat (?T + (?P - 1)) div ucast per_page = w" using w v by (simp add: word_unat_eq_iff unat_div)
    ultimately show "map_option (\<lambda>value. value div ucast per_page) (checked_add items (ucast per_page - 1)) = Some w"
      by simp
  qed
  have "(?p - 1) * ?P < 2 ^ 32 * 2 ^ 32" using P p by (intro mult_strict_mono) auto
  then have product: "(?p - 1) * ?P < 2 ^ 64" by simp
  have before: "checked_mul (ucast (requested_page - 1)) (ucast per_page) = Some w \<longleftrightarrow> unat w = (?p - 1) * ?P" for w :: u64
    using product unat_minus_one [OF assms(1)] by (auto simp: checked_mul_def word_unat_eq_iff unat_word_ariths)
  have expected: "unat (min (saturating_sub items w) (ucast per_page)) = expected_on_page ?P ?T ?p"
    if "unat w = (?p - 1) * ?P" for w
  proof -
    have "unat (saturating_sub items w) = ?T - unat w"
      by (cases "items < w") (simp_all add: saturating_sub_def word_less_nat_alt unat_sub_if' not_less)
    then show ?thesis using that by (simp add: expected_on_page_def min_def word_le_nat_alt)
  qed
  have small: "expected_on_page ?P ?T ?p < 2 ^ 32" using P by (simp add: expected_on_page_def)
  have items: "min (saturating_sub items w) (ucast per_page) = clamp_word n \<longleftrightarrow> n = expected_on_page ?P ?T ?p"
    if "unat w = (?p - 1) * ?P" for w
    using clamp_eq_small [of "min (saturating_sub items w) (ucast per_page)" n] expected [OF that] small by auto
  define w0 :: u64 where "w0 = of_nat ((?p - 1) * ?P)"
  have w0: "unat w0 = (?p - 1) * ?P" unfolding w0_def using product by (intro unat_of_nat_small) simp
  have last: "(if requested_page < pages then and_then (ok_or PaginationOverflow (checked_add requested_page 1))
        (\<lambda>page. Inr (PageSignal page)) else Inr Terminal) = Inr s \<longleftrightarrow>
      s = (if requested_page < pages then PageSignal (requested_page + 1) else Terminal)"
  proof (cases "requested_page < pages")
    case True
    then have "?p + 1 < 2 ^ 32" using unat_u32_less [of pages] by (simp add: word_less_nat_alt)
    then have "checked_add requested_page 1 = Some (requested_page + 1)" by (simp add: checked_add_def)
    then show ?thesis using True by auto
  next
    case False
    then show ?thesis by auto
  qed
  show ?thesis
  proof
    assume "validate_pagination_totals items pages requested_page per_page n = Inr s"
    then obtain w c b where w: "map_option (\<lambda>value. value div ucast per_page) (checked_add items (ucast per_page - 1)) = Some w"
      and c: "try_word (unat (max w 1)) = Some c" and pages: "pages = c" "\<not> pages < requested_page"
      and b: "checked_mul (ucast (requested_page - 1)) (ucast per_page) = Some b"
      and n: "min (saturating_sub items b) (ucast per_page) = clamp_word n"
      and s: "(if requested_page < pages then and_then (ok_or PaginationOverflow (checked_add requested_page 1))
        (\<lambda>page. Inr (PageSignal page)) else Inr Terminal) = Inr s"
      unfolding validate_pagination_totals_def Let_def by (auto simp: result_simps)
    show "?T + (?P - 1) < 2 ^ 64 \<and> unat pages = page_total ?P ?T \<and> requested_page \<le> pages
      \<and> n = expected_on_page ?P ?T ?p
      \<and> s = (if requested_page < pages then PageSignal (requested_page + 1) else Terminal)"
      using calculated [THEN iffD1, OF w] c pages items [OF before [THEN iffD1, OF b]] n last s
      by (auto simp: try_word_Some page_total_def word_max_1)
  next
    assume r: "?T + (?P - 1) < 2 ^ 64 \<and> unat pages = page_total ?P ?T \<and> requested_page \<le> pages
      \<and> n = expected_on_page ?P ?T ?p
      \<and> s = (if requested_page < pages then PageSignal (requested_page + 1) else Terminal)"
    define w :: u64 where "w = of_nat ((?T + (?P - 1)) div ?P)"
    have "(?T + (?P - 1)) div ?P < 2 ^ 64" using r by (intro le_less_trans [OF div_le_dividend]) simp
    then have w: "unat w = (?T + (?P - 1)) div ?P" unfolding w_def by (intro unat_of_nat_small) simp
    have "try_word (unat (max w 1)) = Some pages"
      using r w by (simp add: try_word_Some word_max_1 page_total_def)
    moreover obtain v where "checked_add items (ucast per_page - 1) = Some v" and "v div ucast per_page = w"
      using calculated [THEN iffD2, of w] r w by auto
    moreover have "checked_mul (ucast (requested_page - 1)) (ucast per_page) = Some w0" using before w0 by blast
    moreover have "min (saturating_sub items w0) (ucast per_page) = clamp_word n" using items [OF w0] r by blast
    moreover have "\<not> pages < requested_page" using r by auto
    ultimately show "validate_pagination_totals items pages requested_page per_page n = Inr s"
      using last r by (simp add: validate_pagination_totals_def Let_def)
  qed
qed

section \<open>The loop over the pages\<close>

text \<open>A page that fits at an index of a sequence whose first page has the metadata \<open>first\<close>.\<close>

definition page_fits :: "gitlab_wire_limits \<Rightarrow> pagination_metadata \<Rightarrow> nat \<Rightarrow> 'a gitlab_page \<Rightarrow> bool" where
  "page_fits l first i page \<longleftrightarrow>
     (let m = pg_metadata page; n = length (pg_items page) in
      unat (pgm_page_number m) = Suc i
    \<and> pgm_per_page m = pgm_per_page first \<and> pgm_total_items m = pgm_total_items first
    \<and> pgm_total_pages m = pgm_total_pages first
    \<and> unat (pgm_item_count m) = n \<and> n \<le> unat (pgm_per_page first) \<and> n \<le> unat (wl_max_items_per_page l)
    \<and> (\<forall>items pages. pgm_total_items first = Some items \<longrightarrow> pgm_total_pages first = Some pages \<longrightarrow>
         (\<exists>s. validate_pagination_totals items pages (pgm_page_number m) (pgm_per_page first) n = Inr s
            \<and> pgm_next_page m = signal_next_page s)))"

definition page_receipt_of :: "'a gitlab_page \<Rightarrow> page_receipt" where
  "page_receipt_of page =
     \<lparr>pr_page_number = pgm_page_number (pg_metadata page), pr_item_count = pgm_item_count (pg_metadata page),
      pr_has_next_page = pgm_next_page (pg_metadata page) \<noteq> None\<rparr>"

fun pages_fit ::
    "gitlab_wire_limits \<Rightarrow> pagination_metadata \<Rightarrow> nat \<Rightarrow> u32 option \<Rightarrow> nat \<Rightarrow> 'a gitlab_page list \<Rightarrow> bool" where
  "pages_fit l first i previous n [] = True"
| "pages_fit l first i previous n (page # pages) \<longleftrightarrow>
     page_fits l first i page \<and> previous = Some (pgm_page_number (pg_metadata page))
   \<and> n + length (pg_items page) \<le> unat (wl_max_total_items l)
   \<and> pages_fit l first (Suc i) (pgm_next_page (pg_metadata page)) (n + length (pg_items page)) pages"

fun last_next :: "u32 option \<Rightarrow> 'a gitlab_page list \<Rightarrow> u32 option" where
  "last_next previous [] = previous"
| "last_next previous (page # pages) = last_next (pgm_next_page (pg_metadata page)) pages"

lemma expected_page:
  "Option.bind (try_word i) (\<lambda>value. checked_add value 1) = Some (e :: u32) \<longleftrightarrow> unat e = Suc i"
proof
  assume "Option.bind (try_word i) (\<lambda>value. checked_add value 1) = Some e"
  then obtain v :: u32 where "try_word i = Some v" "checked_add v 1 = Some e"
    by (auto simp: bind_eq_Some_conv)
  then show "unat e = Suc i" by (simp add: try_word_Some checked_add_Some)
next
  assume e: "unat e = Suc i"
  then have "i < 2 ^ 32" using unat_u32_less [of e] by simp
  then have v: "unat (of_nat i :: u32) = i" by (intro unat_of_nat_small) simp
  then have "try_word i = Some (of_nat i :: u32)" by (simp only: try_word_Some)
  moreover have "checked_add (of_nat i :: u32) 1 = Some e" using e v by (simp add: checked_add_Some)
  ultimately show "Option.bind (try_word i) (\<lambda>value. checked_add value 1) = Some e" by simp
qed

lemma collect_page_Inr:
  "collect_page l first (i, page) c = Inr c' \<longleftrightarrow>
     page_fits l first i page \<and> cg_previous_next c = Some (pgm_page_number (pg_metadata page))
   \<and> length (cg_items c) + length (pg_items page) \<le> unat (wl_max_total_items l)
   \<and> c' = \<lparr>cg_items = cg_items c @ pg_items page, cg_receipts = cg_receipts c @ [page_receipt_of page],
           cg_previous_next = pgm_next_page (pg_metadata page)\<rparr>"
  (is "?run \<longleftrightarrow> ?fits")
proof -
  let ?m = "pg_metadata page" and ?n = "length (pg_items page)"
  have totals: "(case (pgm_total_items first, pgm_total_pages first) of
      (Some items, Some pages) \<Rightarrow>
        and_then (validate_pagination_totals items pages e (pgm_per_page first) ?n) (\<lambda>expected_next.
          reject_if (pgm_next_page ?m \<noteq> signal_next_page expected_next) PaginationNextMismatch)
      | _ \<Rightarrow> Inr ()) = Inr u \<longleftrightarrow>
    (\<forall>items pages. pgm_total_items first = Some items \<longrightarrow> pgm_total_pages first = Some pages \<longrightarrow>
       (\<exists>s. validate_pagination_totals items pages e (pgm_per_page first) ?n = Inr s
          \<and> pgm_next_page ?m = signal_next_page s))" for e u
    by (auto simp: result_simps split: option.split)
  have count: "\<not> (unat (pgm_item_count ?m) \<noteq> ?n) \<Longrightarrow>
      \<not> (pgm_per_page first < pgm_item_count ?m \<or> wl_max_items_per_page l < pgm_item_count ?m) \<longleftrightarrow>
      ?n \<le> unat (pgm_per_page first) \<and> ?n \<le> unat (wl_max_items_per_page l)"
    by (auto simp: word_less_nat_alt)
  show ?thesis
  proof
    assume ?run
    then obtain e :: u32 where e: "unat e = Suc i" "pgm_page_number ?m = e"
      and rest: "cg_previous_next c = Some e"
        "pgm_per_page ?m = pgm_per_page first" "pgm_total_items ?m = pgm_total_items first"
        "pgm_total_pages ?m = pgm_total_pages first" "unat (pgm_item_count ?m) = ?n"
        "\<not> (pgm_per_page first < pgm_item_count ?m \<or> wl_max_items_per_page l < pgm_item_count ?m)"
        "length (cg_items c) + ?n \<le> unat (wl_max_total_items l)"
      and t: "(case (pgm_total_items first, pgm_total_pages first) of
      (Some items, Some pages) \<Rightarrow>
        and_then (validate_pagination_totals items pages e (pgm_per_page first) ?n) (\<lambda>expected_next.
          reject_if (pgm_next_page ?m \<noteq> signal_next_page expected_next) PaginationNextMismatch)
      | _ \<Rightarrow> Inr ()) = Inr ()"
      and c': "c' = \<lparr>cg_items = cg_items c @ pg_items page, cg_receipts = cg_receipts c @ [page_receipt_of page],
           cg_previous_next = pgm_next_page ?m\<rparr>"
      unfolding collect_page_def Let_def prod.case
      by (auto simp: result_simps expected_page page_receipt_of_def not_less)
    show ?fits
      using e rest c' totals [of e "()"] t count unfolding page_fits_def Let_def by auto
  next
    assume f: ?fits
    then have "unat (pgm_page_number ?m) = Suc i" by (simp add: page_fits_def Let_def)
    then have "Option.bind (try_word i) (\<lambda>value. checked_add value 1) = Some (pgm_page_number ?m)"
      by (simp only: expected_page)
    moreover have "(pgm_per_page first < pgm_item_count ?m \<or> wl_max_items_per_page l < pgm_item_count ?m) = False"
      using f count by (simp add: page_fits_def Let_def)
    moreover have "(unat (wl_max_total_items l) < length (cg_items c @ pg_items page)) = False" using f by simp
    ultimately show ?run
      using f totals [of "pgm_page_number ?m" "()"]
      unfolding collect_page_def Let_def prod.case page_fits_def
      by (simp add: page_receipt_of_def del: length_append)
  qed
qed

lemma collect_pages_Inr:
  "try_fold (collect_page l first) (enumerate i pages) c = Inr c' \<longleftrightarrow>
     pages_fit l first i (cg_previous_next c) (length (cg_items c)) pages
   \<and> c' = \<lparr>cg_items = cg_items c @ concat (map pg_items pages),
           cg_receipts = cg_receipts c @ map page_receipt_of pages,
           cg_previous_next = last_next (cg_previous_next c) pages\<rparr>"
proof (induction pages arbitrary: i c)
  case Nil
  then show ?case by auto
next
  case (Cons page pages)
  let ?c = "\<lparr>cg_items = cg_items c @ pg_items page, cg_receipts = cg_receipts c @ [page_receipt_of page],
           cg_previous_next = pgm_next_page (pg_metadata page)\<rparr>"
  have "try_fold (collect_page l first) (enumerate i (page # pages)) c = Inr c' \<longleftrightarrow>
      collect_page l first (i, page) c = Inr ?c \<and>
      try_fold (collect_page l first) (enumerate (Suc i) pages) ?c = Inr c'"
    by (auto simp: result_simps collect_page_Inr)
  then show ?case by (auto simp: Cons.IH collect_page_Inr)
qed

section \<open>What a collected sequence looks like\<close>

lemma pages_fit_at:
  assumes "pages_fit l first i previous n pages" and "j < length pages"
  shows "page_fits l first (i + j) (pages ! j)"
    and "Suc j < length pages \<Longrightarrow>
      pgm_next_page (pg_metadata (pages ! j)) = Some (pgm_page_number (pg_metadata (pages ! Suc j)))"
  using assms
proof (induction pages arbitrary: i previous n j)
  case (Cons page pages)
  {
    case 1
    have "pages_fit l first (Suc i) (pgm_next_page (pg_metadata page)) (n + length (pg_items page)) pages"
      using 1 by simp
    from Cons.IH(1) [OF this, of "j - 1"] show ?case using 1 by (cases j) auto
  next
    case 2
    show ?case
    proof (cases j)
      case 0
      then show ?thesis using 2 by (cases pages) auto
    next
      case (Suc k)
      have "pages_fit l first (Suc i) (pgm_next_page (pg_metadata page)) (n + length (pg_items page)) pages"
        using 2 by simp
      from Cons.IH(2) [OF _ this, of k] show ?thesis using 2 Suc by simp
    qed
  }
qed simp_all

lemma last_next_last: "pages \<noteq> [] \<Longrightarrow> last_next previous pages = pgm_next_page (pg_metadata (last pages))"
  by (induction pages arbitrary: previous) auto

lemma pages_fit_total:
  "pages_fit l first i previous n pages \<Longrightarrow> n \<le> unat (wl_max_total_items l) \<Longrightarrow>
     n + length (concat (map pg_items pages)) \<le> unat (wl_max_total_items l)"
proof (induction pages arbitrary: i previous n)
  case (Cons page pages)
  then have "n + length (pg_items page) + length (concat (map pg_items pages)) \<le> unat (wl_max_total_items l)"
    by (intro Cons.IH) auto
  then show ?case by simp
qed simp

text \<open>The conditions on a sequence that is collected.\<close>

lemma collect_Inr:
  "collect_complete_pages pages l = Inr a \<longleftrightarrow>
     wire_limits_validate l = Inr () \<and> pages \<noteq> [] \<and> length pages \<le> unat (wl_max_pages l)
   \<and> pgm_per_page (pg_metadata (pages ! 0)) \<noteq> 0 \<and> pgm_per_page (pg_metadata (pages ! 0)) \<le> wl_max_items_per_page l
   \<and> pages_fit l (pg_metadata (pages ! 0)) 0 (Some 1) 0 pages
   \<and> pgm_next_page (pg_metadata (last pages)) = None
   \<and> (\<forall>items. pgm_total_items (pg_metadata (pages ! 0)) = Some items \<longrightarrow>
        items = clamp_word (length (concat (map pg_items pages))))
   \<and> a = \<lparr>pa_items = concat (map pg_items pages), pa_pages = map page_receipt_of pages\<rparr>"
  by (auto simp: collect_complete_pages_def Let_def result_simps collect_pages_Inr not_less last_next_last
      split: option.splits)

lemma receipts_total:
  assumes "\<forall>page \<in> set pages. unat (pgm_item_count (pg_metadata page)) = length (pg_items page)"
  shows "receipt_total (map page_receipt_of pages) = of_nat (length (concat (map pg_items pages)))"
  using assms
proof (induction pages)
  case Nil
  then show ?case by (simp add: receipt_total_def)
next
  case (Cons page pages)
  have "unat (pgm_item_count (pg_metadata page)) = length (pg_items page)" using Cons.prems by simp
  then have "(ucast (pgm_item_count (pg_metadata page)) :: u64) = of_nat (length (pg_items page))"
    by (intro of_nat_eqI) simp
  then show ?case using Cons by (simp add: receipt_total_def page_receipt_of_def)
qed

lemma valid_limits:
  assumes "wire_limits_validate l = Inr ()"
  shows "unat (wl_max_total_items l) \<le> 1000000" "unat (wl_max_pages l) \<le> 10000" "unat (wl_max_items_per_page l) \<le> 1000"
  using assms
  by (auto simp: wire_limits_validate_def hard_max_total_items_def hard_max_pages_def hard_max_items_per_page_def
      word_le_nat_alt split: if_splits)

lemma collected_at:
  assumes "collect_complete_pages pages l = Inr a" and "i < length pages"
  shows "page_fits l (pg_metadata (pages ! 0)) i (pages ! i)"
    and "pgm_next_page (pg_metadata (pages ! i)) = (if Suc i < length pages then Some (of_nat (i + 2)) else None)"
proof -
  note fit = assms(1) [unfolded collect_Inr]
  then have run: "pages_fit l (pg_metadata (pages ! 0)) 0 (Some 1) 0 pages" by simp
  show fits: "page_fits l (pg_metadata (pages ! 0)) i (pages ! i)"
    using pages_fit_at(1) [OF run assms(2)] by simp
  show "pgm_next_page (pg_metadata (pages ! i)) = (if Suc i < length pages then Some (of_nat (i + 2)) else None)"
  proof (cases "Suc i < length pages")
    case True
    have "page_fits l (pg_metadata (pages ! 0)) (Suc i) (pages ! Suc i)"
      using pages_fit_at(1) [OF run True] by simp
    then have "unat (pgm_page_number (pg_metadata (pages ! Suc i))) = i + 2"
      by (simp add: page_fits_def Let_def)
    then have "pgm_page_number (pg_metadata (pages ! Suc i)) = of_nat (i + 2)"
      by (rule of_nat_eqI)
    then show ?thesis using pages_fit_at(2) [OF run assms(2) True] True by simp
  next
    case False
    then have "i = length pages - 1" using assms(2) by simp
    then have "pages ! i = last pages" using fit by (simp add: last_conv_nth)
    then show ?thesis using False fit by simp
  qed
qed

lemma collected_complete:
  assumes "collect_complete_pages pages l = Inr a"
  shows "all_pages_fetched a"
proof -
  note fit = assms [unfolded collect_Inr]
  let ?n = "length pages"
  have a: "pa_pages a = map page_receipt_of pages" "pa_items a = concat (map pg_items pages)" using fit by simp_all
  have n: "0 < ?n" "?n \<le> 10000" using fit valid_limits(2) [of l] by auto
  have "map (unat \<circ> pr_page_number) (pa_pages a) = map (\<lambda>i. min (2 ^ 32 - 1) (i + 1)) [0..<?n]"
  proof (rule nth_equalityI)
    fix i assume "i < length (map (unat \<circ> pr_page_number) (pa_pages a))"
    then have i: "i < ?n" by (simp add: a)
    then show "map (unat \<circ> pr_page_number) (pa_pages a) ! i = map (\<lambda>i. min (2 ^ 32 - 1) (i + 1)) [0..<?n] ! i"
      using collected_at(1) [OF assms i] n by (simp add: a page_receipt_of_def page_fits_def Let_def)
  qed (simp add: a)
  moreover have "map pr_has_next_page (pa_pages a) = replicate (?n - 1) True @ [False]"
  proof (rule nth_equalityI)
    fix i assume "i < length (map pr_has_next_page (pa_pages a))"
    then have i: "i < ?n" by (simp add: a)
    then show "map pr_has_next_page (pa_pages a) ! i = (replicate (?n - 1) True @ [False]) ! i"
      using collected_at(2) [OF assms i] n by (auto simp: a page_receipt_of_def nth_append)
  qed (use n in \<open>simp add: a\<close>)
  moreover have "receipt_total (pa_pages a) = clamp_word (length (pa_items a))"
  proof -
    have "\<forall>page \<in> set pages. unat (pgm_item_count (pg_metadata page)) = length (pg_items page)"
      using collected_at(1) [OF assms] by (auto simp: in_set_conv_nth page_fits_def Let_def)
    moreover have "length (pa_items a) \<le> 1000000"
      using pages_fit_total [of l "pg_metadata (pages ! 0)" 0 "Some 1" 0 pages] fit valid_limits(1) [of l]
      unfolding a by auto
    ultimately show ?thesis using receipts_total [of pages] by (simp add: a clamp_word_def)
  qed
  ultimately show ?thesis by (simp add: all_pages_fetched_def a)
qed

section \<open>Honest paging\<close>

text \<open>The pages that serve a list with totals.\<close>

definition page_of :: "u32 \<Rightarrow> 'a list \<Rightarrow> nat \<Rightarrow> 'a gitlab_page" where
  "page_of per_page xs i =
     (let count = page_total (unat per_page) (length xs);
          items = take (unat per_page) (drop (i * unat per_page) xs)
      in \<lparr>pg_metadata =
            \<lparr>pgm_page_number = of_nat (i + 1), pgm_per_page = per_page, pgm_item_count = of_nat (length items),
             pgm_next_page = (if Suc i < count then Some (of_nat (i + 2)) else None),
             pgm_total_items = Some (of_nat (length xs)), pgm_total_pages = Some (of_nat count)\<rparr>,
          pg_items = items\<rparr>)"

definition paginate :: "u32 \<Rightarrow> 'a list \<Rightarrow> 'a gitlab_page list" where
  "paginate per_page xs = map (page_of per_page xs) [0..<page_total (unat per_page) (length xs)]"

lemma page_total_covers:
  assumes "0 < per_page"
  shows "items \<le> page_total per_page items * per_page"
proof -
  have "items + (per_page - 1) < ((items + (per_page - 1)) div per_page) * per_page + per_page"
    using assms by (metis div_mult_mod_eq mod_less_divisor add_less_cancel_left)
  then have "items \<le> ((items + (per_page - 1)) div per_page) * per_page" using assms by linarith
  also have "\<dots> \<le> page_total per_page items * per_page" by (simp add: page_total_def)
  finally show ?thesis .
qed

lemma concat_chunks: "concat (map (\<lambda>i. take n (drop (i * n) xs)) [0..<k]) = take (k * n) xs"
proof (induction k)
  case (Suc k)
  have "take (k * n + n) xs = take (k * n) xs @ take n (drop (k * n) xs)" by (rule take_add)
  then show ?case using Suc by (simp add: add.commute)
qed simp

lemma chunks_determined:
  assumes "\<And>i. i < length cs \<Longrightarrow> length (cs ! i) = min (m - i * n) n" and "m = length (concat cs)"
    and "i < length cs"
  shows "cs ! i = take n (drop (i * n) (concat cs))"
  using assms
proof (induction cs arbitrary: i m)
  case (Cons c cs)
  have c: "length c = min m n" using Cons.prems(1) [of 0] by simp
  have m: "m = length c + length (concat cs)" using Cons.prems(2) by simp
  show ?case
  proof (cases "n \<le> m")
    case True
    then have c: "length c = n" using c by simp
    show ?thesis
    proof (cases i)
      case 0
      then show ?thesis using c by simp
    next
      case (Suc j)
      have "cs ! j = take n (drop (j * n) (concat cs))"
      proof (rule Cons.IH)
        fix k assume "k < length cs"
        then show "length (cs ! k) = min (m - n - k * n) n"
          using Cons.prems(1) [of "Suc k"] by simp
      qed (use Cons.prems(3) Suc m c in simp_all)
      then show ?thesis using Suc c by simp
    qed
  next
    case False
    then have "length c = m" using c by simp
    then have empty: "concat cs = []" using m by simp
    show ?thesis
    proof (cases i)
      case 0
      then show ?thesis using False empty m by simp
    next
      case (Suc j)
      have "cs ! j \<in> set cs" using Cons.prems(3) Suc by simp
      then have "cs ! j = []" using empty by simp
      moreover have "length c \<le> n + j * n" using \<open>length c = m\<close> False by simp
      moreover have whole: "concat (c # cs) = c" using empty by simp
      ultimately show ?thesis unfolding whole using Suc by simp
    qed
  qed
qed simp

lemma pages_fitI:
  assumes "\<And>j. j < length pages \<Longrightarrow> page_fits l first (i + j) (pages ! j)"
    and "pages \<noteq> [] \<Longrightarrow> previous = Some (pgm_page_number (pg_metadata (pages ! 0)))"
    and "\<And>j. Suc j < length pages \<Longrightarrow>
      pgm_next_page (pg_metadata (pages ! j)) = Some (pgm_page_number (pg_metadata (pages ! Suc j)))"
    and "n + length (concat (map pg_items pages)) \<le> unat (wl_max_total_items l)"
  shows "pages_fit l first i previous n pages"
  using assms
proof (induction pages arbitrary: i previous n)
  case (Cons page pages)
  have "pages_fit l first (Suc i) (pgm_next_page (pg_metadata page)) (n + length (pg_items page)) pages"
  proof (rule Cons.IH)
    show "page_fits l first (Suc i + j) (pages ! j)" if "j < length pages" for j
      using Cons.prems(1) [of "Suc j"] that by simp
    show "pgm_next_page (pg_metadata page) = Some (pgm_page_number (pg_metadata (pages ! 0)))" if "pages \<noteq> []"
      using Cons.prems(3) [of 0] that by simp
    show "pgm_next_page (pg_metadata (pages ! j)) = Some (pgm_page_number (pg_metadata (pages ! Suc j)))"
      if "Suc j < length pages" for j
      using Cons.prems(3) [of "Suc j"] that by simp
    show "n + length (pg_items page) + length (concat (map pg_items pages)) \<le> unat (wl_max_total_items l)"
      using Cons.prems(4) by simp
  qed
  moreover have "page_fits l first i page" using Cons.prems(1) [of 0] by simp
  ultimately show ?case using Cons.prems(2,4) by simp
qed simp

lemma honest_items:
  assumes "per_page \<noteq> 0"
  shows "concat (map pg_items (paginate per_page xs)) = xs"
proof -
  have "0 < unat per_page" using assms by (simp add: unat_gt_0)
  then show ?thesis
    using page_total_covers [of "unat per_page" "length xs"]
      concat_chunks [of "unat per_page" xs "page_total (unat per_page) (length xs)"]
    by (simp add: paginate_def page_of_def Let_def comp_def)
qed

lemma honest_page_fits:
  assumes "wire_limits_validate l = Inr ()" and "per_page \<noteq> 0" and "per_page \<le> wl_max_items_per_page l"
    and "length xs \<le> unat (wl_max_total_items l)" and "page_total (unat per_page) (length xs) \<le> unat (wl_max_pages l)"
    and "i < page_total (unat per_page) (length xs)"
  shows "page_fits l (pg_metadata (page_of per_page xs 0)) i (page_of per_page xs i)"
proof -
  let ?P = "unat per_page" and ?k = "page_total (unat per_page) (length xs)"
  note limits = valid_limits [OF assms(1)]
  have P: "0 < ?P" "?P \<le> 1000" using assms(2,3) limits(3) by (auto simp: unat_gt_0 word_le_nat_alt)
  have k: "?k \<le> 10000" and n: "length xs \<le> 1000000" using assms(4,5) limits by simp_all
  have number: "unat (of_nat (i + 1) :: u32) = i + 1" using assms(6) k by (intro unat_of_nat_small) simp
  have pages: "unat (of_nat ?k :: u32) = ?k" using k by (intro unat_of_nat_small) simp
  have items: "unat (of_nat (length xs) :: u64) = length xs" using n by (intro unat_of_nat_small) simp
  let ?n = "length (take ?P (drop (i * ?P) xs))"
  have count: "unat (of_nat ?n :: u32) = ?n" using P by (intro unat_of_nat_small) simp
  have nonzero: "(of_nat (i + 1) :: u32) \<noteq> 0" using number by (metis unat_0 add_is_0 one_neq_zero)
  have le: "(of_nat (i + 1) :: u32) \<le> of_nat ?k" using number pages assms(6) by (simp add: word_le_nat_alt)
  have less: "(of_nat (i + 1) :: u32) < of_nat ?k \<longleftrightarrow> Suc i < ?k" using number pages by (simp add: word_less_nat_alt)
  have "validate_pagination_totals (of_nat (length xs)) (of_nat ?k) (of_nat (i + 1)) per_page ?n =
      Inr (if Suc i < ?k then PageSignal (of_nat (i + 1) + 1) else Terminal)"
    unfolding totals_Inr [OF nonzero assms(2)] items pages number
    using n P le less by (auto simp: expected_on_page_def min.commute)
  then show ?thesis
    using number count P assms(3) by (auto simp: page_fits_def page_of_def Let_def word_le_nat_alt)
qed

lemma honest_collected:
  assumes "wire_limits_validate l = Inr ()" and "per_page \<noteq> 0" and "per_page \<le> wl_max_items_per_page l"
    and "length xs \<le> unat (wl_max_total_items l)" and "page_total (unat per_page) (length xs) \<le> unat (wl_max_pages l)"
  shows "collect_complete_pages (paginate per_page xs) l =
    Inr \<lparr>pa_items = xs, pa_pages = map page_receipt_of (paginate per_page xs)\<rparr>"
proof -
  let ?k = "page_total (unat per_page) (length xs)"
  have k: "0 < ?k" by (simp add: page_total_def)
  have len: "length (paginate per_page xs) = ?k" by (simp add: paginate_def)
  have at: "paginate per_page xs ! j = page_of per_page xs j" if "j < ?k" for j using that by (simp add: paginate_def)
  have "pages_fit l (pg_metadata (page_of per_page xs 0)) 0 (Some 1) 0 (paginate per_page xs)"
    using honest_page_fits [OF assms] k assms(4)
    by (intro pages_fitI) (auto simp: len at honest_items [OF assms(2)] page_of_def Let_def)
  moreover have "last (paginate per_page xs) = page_of per_page xs (?k - 1)"
    using k by (simp add: paginate_def last_map)
  moreover have "paginate per_page xs \<noteq> []" using len k by auto
  moreover have "(of_nat (length xs) :: u64) = clamp_word (length xs)"
    using assms(4) valid_limits(1) [OF assms(1)] by (simp add: clamp_word_def)
  ultimately show ?thesis
    unfolding collect_Inr len at [OF k] honest_items [OF assms(2)]
    using assms k by (simp add: page_of_def Let_def)
qed

lemma collected_totals:
  assumes collected: "collect_complete_pages pages l = Inr a"
    and totals: "pgm_total_items (pg_metadata (pages ! 0)) = Some t" "pgm_total_pages (pg_metadata (pages ! 0)) = Some k"
  shows "unat t = length (pa_items a) \<and> unat k = length pages
    \<and> pages = paginate (pgm_per_page (pg_metadata (pages ! 0))) (pa_items a)"
proof -
  note fit = collected [unfolded collect_Inr]
  let ?first = "pg_metadata (pages ! 0)" and ?n = "length pages" and ?xs = "pa_items a"
  let ?P = "unat (pgm_per_page ?first)"
  have items: "?xs = concat (map pg_items pages)" using fit by simp
  have few: "length ?xs \<le> 1000000"
    using pages_fit_total [of l ?first 0 "Some 1" 0 pages] fit valid_limits(1) [of l] unfolding items by auto
  have t: "unat t = length ?xs"
    using fit totals few clamp_word_small [where 'w = 64, of "length ?xs"] by (simp add: items)
  have at: "unat (pgm_page_number (pg_metadata (pages ! i))) = Suc i
      \<and> unat k = page_total ?P (length ?xs)
      \<and> length (pg_items (pages ! i)) = min (length ?xs - i * ?P) ?P
      \<and> (pgm_next_page (pg_metadata (pages ! i)) = None \<longleftrightarrow> unat k \<le> Suc i) \<and> Suc i \<le> unat k"
    if i: "i < ?n" for i
  proof -
    let ?m = "pg_metadata (pages ! i)"
    have fits: "page_fits l ?first i (pages ! i)" by (rule collected_at(1) [OF collected i])
    then obtain s where s: "validate_pagination_totals t k (pgm_page_number ?m) (pgm_per_page ?first)
        (length (pg_items (pages ! i))) = Inr s" and after: "pgm_next_page ?m = signal_next_page s"
      and number: "unat (pgm_page_number ?m) = Suc i"
      using totals by (auto simp: page_fits_def Let_def)
    have "pgm_page_number ?m \<noteq> 0" "pgm_per_page ?first \<noteq> 0" using number fit by auto
    from s [unfolded totals_Inr [OF this] t number] show ?thesis
      using after number by (auto simp: expected_on_page_def word_le_nat_alt word_less_nat_alt split: if_splits)
  qed
  have n: "0 < ?n" using fit by simp
  have "pgm_next_page (pg_metadata (pages ! (?n - 1))) = None" using collected_at(2) [OF collected, of "?n - 1"] n by simp
  then have k: "unat k = ?n" using at [of "?n - 1"] n by auto
  have count: "?n = page_total ?P (length ?xs)" using at [of 0] n k by simp
  have chunk: "pg_items (pages ! i) = take ?P (drop (i * ?P) ?xs)" if "i < ?n" for i
    using chunks_determined [of "map pg_items pages" "length ?xs" ?P i] at that by (simp add: items)
  have "pages = paginate (pgm_per_page ?first) ?xs"
  proof (rule nth_equalityI)
    show "?n = length (paginate (pgm_per_page ?first) ?xs)" by (simp add: paginate_def count)
    fix i assume i: "i < ?n"
    note fits = collected_at [OF collected i]
    have number: "pgm_page_number (pg_metadata (pages ! i)) = of_nat (i + 1)" using at [OF i] by (intro of_nat_eqI) simp
    have item_count: "pgm_item_count (pg_metadata (pages ! i)) = of_nat (length (take ?P (drop (i * ?P) ?xs)))"
      using fits(1) chunk [OF i] by (intro of_nat_eqI) (simp only: page_fits_def Let_def)
    have "t = of_nat (length ?xs)" "k = of_nat ?n" using t k by (auto intro: of_nat_eqI)
    then have "pgm_total_items (pg_metadata (pages ! i)) = Some (of_nat (length ?xs))"
        "pgm_total_pages (pg_metadata (pages ! i)) = Some (of_nat ?n)"
        "pgm_per_page (pg_metadata (pages ! i)) = pgm_per_page ?first"
      using fits(1) totals by (simp_all only: page_fits_def Let_def)
    then have "pg_metadata (pages ! i) = pg_metadata (page_of (pgm_per_page ?first) ?xs i)"
      using number item_count fits(2) count
      by (intro pagination_metadata.equality) (simp_all only: page_of_def Let_def gitlab_page.simps pagination_metadata.simps unit_eq)
    then have "pages ! i = page_of (pgm_per_page ?first) ?xs i"
      using chunk [OF i] by (intro gitlab_page.equality) (simp_all add: page_of_def Let_def)
    then show "pages ! i = paginate (pgm_per_page ?first) ?xs ! i" using i count by (simp add: paginate_def)
  qed
  then show ?thesis using t k by simp
qed

text \<open>
  \<^bold>\<open>C36.\<close>  A sequence of pages that is collected is complete in the sense of the snapshot
  contracts: pages one to n, each announcing exactly the next one and the last none, their items
  in order and within the limits.  Where GitLab gave totals, they are the number of items and of
  pages, and every page holds exactly the slice of the items that its number says.
\<close>

theorem collected_pages_are_complete:
  assumes "collect_complete_pages pages l = Inr a"
  shows "completeness a = PaginationComplete (of_nat (length pages)) (of_nat (length (pa_items a)))
    \<and> pa_items a = concat (map pg_items pages)
    \<and> length pages \<le> unat (wl_max_pages l) \<and> length (pa_items a) \<le> unat (wl_max_total_items l)
    \<and> (\<forall>i < length pages. unat (pgm_page_number (pg_metadata (pages ! i))) = i + 1
        \<and> pgm_next_page (pg_metadata (pages ! i)) = (if i + 1 < length pages then Some (of_nat (i + 2)) else None))
    \<and> (\<forall>t k. pgm_total_items (pg_metadata (pages ! 0)) = Some t \<longrightarrow>
        pgm_total_pages (pg_metadata (pages ! 0)) = Some k \<longrightarrow>
        unat t = length (pa_items a) \<and> unat k = length pages
        \<and> pages = paginate (pgm_per_page (pg_metadata (pages ! 0))) (pa_items a))"
proof -
  note fit = assms [unfolded collect_Inr]
  have items: "pa_items a = concat (map pg_items pages)" "length (pa_pages a) = length pages" using fit by simp_all
  have total_items: "length (pa_items a) \<le> unat (wl_max_total_items l)"
    using pages_fit_total [of l "pg_metadata (pages ! 0)" 0 "Some 1" 0 pages] fit unfolding items by auto
  have "length (pa_items a) \<le> 1000000" "length pages \<le> 10000"
    using total_items fit valid_limits [of l] by auto
  then have "completeness a = PaginationComplete (of_nat (length pages)) (of_nat (length (pa_items a)))"
    using collected_complete [OF assms] by (simp add: completeness_iff clamp_word_def items(2))
  moreover have "unat (pgm_page_number (pg_metadata (pages ! i))) = i + 1
      \<and> pgm_next_page (pg_metadata (pages ! i)) = (if i + 1 < length pages then Some (of_nat (i + 2)) else None)"
    if "i < length pages" for i
    using collected_at [OF assms that] by (simp add: page_fits_def Let_def)
  moreover have "length pages \<le> unat (wl_max_pages l)" using fit by (elim conjE)
  ultimately show ?thesis using items(1) total_items collected_totals [OF assms] by blast
qed

text \<open>
  \<^bold>\<open>C37.\<close>  Honest paging is collected: the pages that serve a list with totals, within the
  limits, give back exactly the list.
\<close>

theorem honest_paging_round_trip:
  assumes "wire_limits_validate l = Inr ()" and "per_page \<noteq> 0" and "per_page \<le> wl_max_items_per_page l"
    and "length xs \<le> unat (wl_max_total_items l)" and "page_total (unat per_page) (length xs) \<le> unat (wl_max_pages l)"
  shows "collect_complete_pages (paginate per_page xs) l =
    Inr \<lparr>pa_items = xs, pa_pages = map page_receipt_of (paginate per_page xs)\<rparr>"
  by (rule honest_collected [OF assms])

lemma default_limits_valid: "wire_limits_validate default_wire_limits = Inr ()"
  by (simp add: wire_limits_validate_def default_wire_limits_def hard_max_json_body_bytes_def
      hard_max_blob_body_bytes_def hard_max_items_per_page_def hard_max_pages_def hard_max_total_items_def
      hard_max_header_count_def hard_max_header_bytes_def word_le_nat_alt word_less_nat_alt)

lemma honest_paging_round_trip_witness:
  "collect_complete_pages (paginate 2 [1, 2, 3, 4, 5 :: nat]) default_wire_limits =
     Inr \<lparr>pa_items = [1, 2, 3, 4, 5], pa_pages = map page_receipt_of (paginate 2 [1, 2, 3, 4, 5 :: nat])\<rparr>"
  by (rule honest_paging_round_trip [OF default_limits_valid])
    (simp_all add: default_wire_limits_def page_total_def word_le_nat_alt)

lemma collected_pages_are_complete_witness:
  "completeness \<lparr>pa_items = [1, 2, 3, 4, 5 :: nat], pa_pages = map page_receipt_of (paginate 2 [1, 2, 3, 4, 5 :: nat])\<rparr> =
     PaginationComplete 3 5"
proof -
  have "length (paginate 2 [1, 2, 3, 4, 5 :: nat]) = 3" by (simp add: paginate_def page_total_def)
  moreover have "collect_complete_pages (paginate 2 [1, 2, 3, 4, 5 :: nat]) default_wire_limits =
     Inr \<lparr>pa_items = [1, 2, 3, 4, 5], pa_pages = map page_receipt_of (paginate 2 [1, 2, 3, 4, 5 :: nat])\<rparr>"
    by (rule honest_collected [OF default_limits_valid])
      (simp_all add: default_wire_limits_def page_total_def word_le_nat_alt)
  from collected_pages_are_complete [OF this] show ?thesis using calculation by simp
qed

end
