(* ===== verification/Gitlab_Wire_Bound.thy ===== *)
theory Gitlab_Wire_Bound
  imports Gitlab_Wire_Records
begin

text \<open>
  What the values read from GitLab responses are bound to: a raw blob to the request, its headers
  and its digest; the publication inventory to every note of every discussion of the pages; a
  changed file to the text it shows.
\<close>

section \<open>Raw blobs\<close>

lemma hex_identities:
  "git_sha_try_from v = Inr s \<Longrightarrow> s = v"
  "sha256_digest_try_from v = Inr d \<Longrightarrow> d = v"
  "repository_path_try_from v = Inr p \<Longrightarrow> p = v"
  by (auto simp: git_sha_try_from_def sha256_digest_try_from_def repository_path_try_from_def split: if_splits)

lemma raw_blob_read:
  assumes "parse_raw_blob_response sha request response l = Inr b"
  obtains hs where "wire_limits_validate l = Inr ()" "rs_status response = 200"
    "length (rs_body response) \<le> wl_max_blob_body_bytes l" "parse_headers (rs_headers response) l = Inr hs"
    "map_of hs ''x-gitlab-commit-id'' = Some (br_commit_sha request)"
    "map_of hs ''x-gitlab-ref'' = Some (br_commit_sha request)"
    "map_of hs ''x-gitlab-file-path'' = Some (br_path request)"
    "map_of hs ''x-gitlab-blob-id'' = Some (bi_blob_sha (vb_identity b))"
    "map_of hs ''x-gitlab-content-sha256'' = Some (sha (rs_body response))"
    "vb_body b = rs_body response" "bi_request (vb_identity b) = request"
    "bi_content_sha256 (vb_identity b) = sha (rs_body response)"
    "bi_size_bytes (vb_identity b) = clamp_word (length (rs_body response))"
    "bi_representation (vb_identity b) =
       (if is_lfs_pointer (rs_body response) then LfsPointer else FileContent)"
proof -
  show thesis
    using assms
    unfolding parse_raw_blob_response_def Let_def validate_success_status_def parse_required_sha_header_def
      blob_header_is_def header_required_def
    by (auto simp: result_simps not_less split: if_splits dest!: hex_identities intro!: that)
qed

text \<open>
  \<^bold>\<open>C38.\<close>  A raw blob is accepted only when the headers name the commit and the path that were
  asked for, the digest GitLab declares is the digest of the bytes received, and the size is their
  number; its identity is made of those values and its body is the body received.
\<close>

theorem raw_blob_is_bound:
  assumes "parse_raw_blob_response sha request response l = Inr b"
  shows "\<exists>hs. parse_headers (rs_headers response) l = Inr hs \<and> rs_status response = 200
    \<and> map_of hs ''x-gitlab-commit-id'' = Some (br_commit_sha request)
    \<and> map_of hs ''x-gitlab-ref'' = Some (br_commit_sha request)
    \<and> map_of hs ''x-gitlab-file-path'' = Some (br_path request)
    \<and> map_of hs ''x-gitlab-content-sha256'' = Some (sha (vb_body b))
    \<and> map_of hs ''x-gitlab-blob-id'' = Some (bi_blob_sha (vb_identity b))
    \<and> vb_body b = rs_body response \<and> bi_request (vb_identity b) = request
    \<and> bi_content_sha256 (vb_identity b) = sha (vb_body b)
    \<and> unat (bi_size_bytes (vb_identity b)) = length (vb_body b)
    \<and> length (vb_body b) \<le> hard_max_blob_body_bytes"
proof -
  from assms obtain hs where limits: "wire_limits_validate l = Inr ()" "length (rs_body response) \<le> wl_max_blob_body_bytes l"
    and b: "rs_status response = 200" "parse_headers (rs_headers response) l = Inr hs"
    "map_of hs ''x-gitlab-commit-id'' = Some (br_commit_sha request)"
    "map_of hs ''x-gitlab-ref'' = Some (br_commit_sha request)"
    "map_of hs ''x-gitlab-file-path'' = Some (br_path request)"
    "map_of hs ''x-gitlab-blob-id'' = Some (bi_blob_sha (vb_identity b))"
    "map_of hs ''x-gitlab-content-sha256'' = Some (sha (rs_body response))"
    "vb_body b = rs_body response" "bi_request (vb_identity b) = request"
    "bi_content_sha256 (vb_identity b) = sha (rs_body response)"
    "bi_size_bytes (vb_identity b) = clamp_word (length (rs_body response))"
    by (rule raw_blob_read)
  have few: "length (rs_body response) \<le> hard_max_blob_body_bytes"
    using limits by (auto simp: wire_limits_validate_def split: if_splits)
  then have "unat (clamp_word (length (rs_body response)) :: u64) = length (rs_body response)"
    by (intro clamp_word_small) (simp add: hard_max_blob_body_bytes_def)
  then show ?thesis using b few by auto
qed

section \<open>The publication inventory\<close>

text \<open>The note as the inventory keeps it.\<close>

definition inventoried :: "validated_discussion \<Rightarrow> existing_note \<Rightarrow> existing_note" where
  "inventoried d n = (if \<not> vs_individual_note d then n\<lparr>no_discussion_id := Some (vs_id d)\<rparr> else n)"

definition discussion_notes :: "validated_discussion list \<Rightarrow> existing_note list" where
  "discussion_notes ds = concat (map (\<lambda>d. map (inventoried d) (vs_notes d)) ds)"

definition note_tree :: "existing_note list \<Rightarrow> (u64, existing_note) btree" where
  "note_tree ns = map (\<lambda>n. (no_note_id n, n)) (sort_key no_note_id ns)"

lemma inventoried_id [simp]: "no_note_id (inventoried d n) = no_note_id n"
  by (simp add: inventoried_def)

lemma length_note_tree [simp]: "length (note_tree ns) = length ns"
  by (simp add: note_tree_def)

lemma bt_values_note_tree: "bt_values (note_tree ns) = sort_key no_note_id ns"
  by (simp add: note_tree_def bt_values_def comp_def)

lemma map_of_note_tree: "map_of (note_tree ns) k = None \<longleftrightarrow> k \<notin> no_note_id ` set ns"
  by (auto simp: note_tree_def map_of_eq_None_iff image_iff)

lemma bt_insert_insort:
  "sorted (map no_note_id ns) \<Longrightarrow> no_note_id n \<notin> no_note_id ` set ns \<Longrightarrow>
     bt_insert (no_note_id n) n (map (\<lambda>n. (no_note_id n, n)) ns) =
     map (\<lambda>n. (no_note_id n, n)) (insort_key no_note_id n ns)"
  by (induction ns) auto

lemma sort_key_snoc:
  assumes "no_note_id n \<notin> no_note_id ` set ns" and "distinct (map no_note_id ns)"
  shows "insort_key no_note_id n (sort_key no_note_id ns) = sort_key no_note_id (ns @ [n])"
proof (rule map_sorted_distinct_set_unique [of no_note_id])
  have fresh: "n \<notin> set ns" using assms(1) by blast
  have "inj_on no_note_id (insert n (set ns))"
    using assms by (auto simp: distinct_map)
  then show "inj_on no_note_id (set (insort_key no_note_id n (sort_key no_note_id ns)) \<union>
      set (sort_key no_note_id (ns @ [n])))"
    by (simp add: set_insort_key insert_commute Un_commute)
  show "distinct (map no_note_id (insort_key no_note_id n (sort_key no_note_id ns)))"
    using assms fresh by (simp add: distinct_map distinct_insort set_insort_key)
  show "distinct (map no_note_id (sort_key no_note_id (ns @ [n])))"
    using assms fresh by (simp add: distinct_map)
qed (simp_all add: sorted_insort_key set_insort_key)

lemma bt_insert_note:
  assumes "no_note_id n \<notin> no_note_id ` set ns" and "distinct (map no_note_id ns)"
  shows "bt_insert (no_note_id n) n (note_tree ns) = note_tree (ns @ [n])"
  unfolding note_tree_def using assms
  by (subst bt_insert_insort) (simp_all add: sort_key_snoc del: sort_key_simps)

lemma add_inventory_note_Inr:
  assumes "distinct (map no_note_id ns)"
  shows "add_inventory_note l d n (note_tree ns) = Inr t \<longleftrightarrow>
    no_note_id n \<notin> no_note_id ` set ns \<and> Suc (length ns) \<le> unat (wl_max_total_items l)
    \<and> t = note_tree (ns @ [inventoried d n])"
proof (cases "no_note_id n \<in> no_note_id ` set ns")
  case True
  then have "map_of (note_tree ns) (no_note_id n) \<noteq> None" by (simp add: map_of_note_tree)
  then show ?thesis using True by (auto simp: add_inventory_note_def Let_def)
next
  case False
  then have "bt_insert (no_note_id n) (inventoried d n) (note_tree ns) = note_tree (ns @ [inventoried d n])"
    using bt_insert_note [of "inventoried d n" ns] assms by simp
  moreover have "map_of (note_tree ns) (no_note_id n) = None" using False by (simp add: map_of_note_tree)
  ultimately show ?thesis
    using False unfolding add_inventory_note_def inventoried_def Let_def by (auto simp: not_less)
qed

lemma add_inventory_notes_Inr:
  assumes "distinct (map no_note_id ns)" and "length ns \<le> unat (wl_max_total_items l)"
  shows "try_fold (add_inventory_note l d) xs (note_tree ns) = Inr t \<longleftrightarrow>
    distinct (map no_note_id (ns @ xs)) \<and> length ns + length xs \<le> unat (wl_max_total_items l)
    \<and> t = note_tree (ns @ map (inventoried d) xs)"
  using assms
proof (induction xs arbitrary: ns)
  case (Cons x xs)
  show ?case
  proof (cases "no_note_id x \<notin> no_note_id ` set ns \<and> Suc (length ns) \<le> unat (wl_max_total_items l)")
    case True
    then have "add_inventory_note l d x (note_tree ns) = Inr (note_tree (ns @ [inventoried d x]))"
      using add_inventory_note_Inr [OF Cons.prems(1)] by simp
    moreover have "distinct (map no_note_id (ns @ [inventoried d x]))" "length (ns @ [inventoried d x]) \<le> unat (wl_max_total_items l)"
      using True Cons.prems by (auto simp: image_iff)
    ultimately show ?thesis using Cons.IH [of "ns @ [inventoried d x]"] True by auto
  next
    case False
    then have "\<nexists>u. add_inventory_note l d x (note_tree ns) = Inr u"
      using add_inventory_note_Inr [OF Cons.prems(1)] by simp
    then show ?thesis using False by (auto simp: result_simps image_iff)
  qed
qed auto

lemma discussion_notes_simps [simp]:
  "discussion_notes [] = []"
  "discussion_notes (d # ds) = map (inventoried d) (vs_notes d) @ discussion_notes ds"
  by (simp_all add: discussion_notes_def)

lemma add_inventory_discussions_Inr:
  assumes "distinct (map no_note_id ns)" and "length ns \<le> unat (wl_max_total_items l)"
  shows "try_fold (add_inventory_discussion l) ds (seen, note_tree ns) = Inr (seen', t) \<longleftrightarrow>
    distinct (map vs_id ds) \<and> vs_id ` set ds \<inter> seen = {}
    \<and> distinct (map no_note_id (ns @ discussion_notes ds))
    \<and> length ns + length (discussion_notes ds) \<le> unat (wl_max_total_items l)
    \<and> seen' = seen \<union> vs_id ` set ds \<and> t = note_tree (ns @ discussion_notes ds)"
  using assms
proof (induction ds arbitrary: ns seen)
  case (Cons d ds)
  let ?ns = "ns @ map (inventoried d) (vs_notes d)"
  show ?case
  proof (cases "vs_id d \<notin> seen \<and> distinct (map no_note_id (ns @ vs_notes d))
      \<and> length ns + length (vs_notes d) \<le> unat (wl_max_total_items l)")
    case True
    then have "add_inventory_discussion l d (seen, note_tree ns) = Inr (insert (vs_id d) seen, note_tree ?ns)"
      using add_inventory_notes_Inr [OF Cons.prems, of d "vs_notes d" "note_tree ?ns"]
      by (simp add: add_inventory_discussion_def)
    moreover have "distinct (map no_note_id ?ns)" "length ?ns \<le> unat (wl_max_total_items l)"
      using True by (simp_all add: comp_def image_image)
    ultimately show ?thesis using Cons.IH [of ?ns "insert (vs_id d) seen"] True by auto
  next
    case False
    then have "\<nexists>u. add_inventory_discussion l d (seen, note_tree ns) = Inr u"
      using add_inventory_notes_Inr [OF Cons.prems, of d "vs_notes d"]
      by (auto simp: add_inventory_discussion_def result_simps)
    then show ?thesis using False by (auto simp: result_simps comp_def image_image)
  qed
qed auto

text \<open>
  \<^bold>\<open>C39.\<close>  The inventory of discussions is built exactly from complete pages whose discussions
  and notes are distinct and fit the limit, and it is then every note of every discussion, in the
  order of their ids, each with the discussion it can be resolved through.
\<close>

theorem inventory_is_every_note:
  "collect_discussion_inventory pages l = Inr inventory \<longleftrightarrow>
     (\<exists>a. collect_complete_pages pages l = Inr a
        \<and> distinct (map vs_id (pa_items a)) \<and> distinct (map no_note_id (discussion_notes (pa_items a)))
        \<and> length (discussion_notes (pa_items a)) \<le> unat (wl_max_total_items l)
        \<and> inventory = \<lparr>in_complete = True, in_notes = sort_key no_note_id (discussion_notes (pa_items a))\<rparr>)"
proof -
  have "try_fold (add_inventory_discussion l) ds ({}, []) = Inr (seen', t) \<longleftrightarrow>
      distinct (map vs_id ds) \<and> distinct (map no_note_id (discussion_notes ds))
    \<and> length (discussion_notes ds) \<le> unat (wl_max_total_items l)
    \<and> seen' = vs_id ` set ds \<and> t = note_tree (discussion_notes ds)" for ds seen' t
    using add_inventory_discussions_Inr [of "[]" l ds "{}" seen' t] by (simp add: note_tree_def)
  then show ?thesis
    unfolding collect_discussion_inventory_def by (auto simp: result_simps bt_values_note_tree)
qed

section \<open>Changed files\<close>

text \<open>
  Git's way to say that a file is binary: a text with a NUL byte, or one line that announces a
  binary patch or two binary files that differ, with or without a line feed.
\<close>

definition binary_text :: "string \<Rightarrow> bool" where
  "binary_text d \<longleftrightarrow>
     CHR 0x00 \<in> set d \<or>
     (\<exists>line. (d = line @ [nl] \<or> d = line \<and> (d = [] \<or> last d \<noteq> nl)) \<and>
        (line = ''GIT binary patch'' \<or>
         (\<exists>x y. line = ''Binary files '' @ x \<and> line = y @ '' differ'')))"

lemma is_binary_text: "is_binary_diff d \<longleftrightarrow> binary_text d"
proof -
  have strip: "strip_suffix [nl] s = Some t \<longleftrightarrow> s = t @ [nl]" for s t
  proof -
    have "strip_suffix [nl] s = Some t \<longleftrightarrow> (\<exists>u. rev s = nl # u \<and> t = rev u)"
      by (auto simp: strip_suffix_def strip_prefix_Some)
    also have "\<dots> \<longleftrightarrow> s = t @ [nl]" by (metis rev_rev_ident rev_eq_Cons_iff)
    finally show ?thesis .
  qed
  have ends: "ends_with p s \<longleftrightarrow> (\<exists>y. s = y @ p)" for p s
    unfolding ends_with_def starts_with_append by (metis rev_append rev_rev_ident)
  show ?thesis
  proof (cases "d = [] \<or> last d \<noteq> nl")
    case True
    then have none: "\<nexists>line. d = line @ [nl]" by auto
    then have "strip_suffix [nl] d = None"
      by (cases "strip_suffix [nl] d") (auto simp: strip)
    then show ?thesis
      using True none by (auto simp: is_binary_diff_def binary_text_def Let_def starts_with_append ends)
  next
    case False
    then obtain line where line: "d = line @ [nl]" by (metis append_butlast_last_id)
    then have "strip_suffix [nl] d = Some line" by (simp add: strip)
    then show ?thesis
      using line by (auto simp: is_binary_diff_def binary_text_def Let_def starts_with_append ends)
  qed
qed

text \<open>
  \<^bold>\<open>C40.\<close>  A changed file shows a diff text exactly when GitLab sent a text that is not empty,
  not binary and not flagged as collapsed or too large (the text of a binary file is not shown); the
  availability then carries the digest of that very text.  Otherwise it says why there is none: too
  large or collapsed exactly when GitLab says so, binary exactly for a binary text, missing when there
  is no text and both flags are given and false, and unknown when there is no text, no flag is set and
  one is not given.
\<close>

theorem changed_file_shows_what_was_sent:
  assumes "validate_changed_file sha wire l = Inr v"
  shows "(\<forall>d. vf_unified_diff v = Some d \<longleftrightarrow>
      fw_diff wire = Some d \<and> d \<noteq> [] \<and> \<not> binary_text d
      \<and> fw_collapsed wire \<noteq> Some True \<and> fw_too_large wire \<noteq> Some True)
    \<and> (\<forall>h. cf_diff (vf_file v) = DiffAvailable h \<longleftrightarrow> (\<exists>d. vf_unified_diff v = Some d \<and> h = sha d))
    \<and> (\<forall>d. vf_unified_diff v = Some d \<longrightarrow> length d \<le> wl_max_diff_bytes l)
    \<and> (cf_diff (vf_file v) = DiffTooLarge \<longleftrightarrow> fw_too_large wire = Some True)
    \<and> (cf_diff (vf_file v) = DiffCollapsed \<longleftrightarrow> fw_collapsed wire = Some True)
    \<and> (cf_diff (vf_file v) = DiffBinary \<longleftrightarrow> (\<exists>d. fw_diff wire = Some d \<and> binary_text d))
    \<and> (cf_diff (vf_file v) = DiffMissing \<longleftrightarrow> (fw_diff wire = None \<or> fw_diff wire = Some [])
        \<and> fw_collapsed wire = Some False \<and> fw_too_large wire = Some False)
    \<and> (cf_diff (vf_file v) = DiffUnknown \<longleftrightarrow> (fw_diff wire = None \<or> fw_diff wire = Some [])
        \<and> fw_collapsed wire \<noteq> Some True \<and> fw_too_large wire \<noteq> Some True
        \<and> (fw_collapsed wire = None \<or> fw_too_large wire = None))
    \<and> cf_path (vf_file v) = ChangedPath (fw_old_path wire) (fw_new_path wire)
        (if fw_new_file wire then Added else if fw_renamed_file wire then Renamed
         else if fw_deleted_file wire then Deleted else Modified)
    \<and> semantic_issue (cf_path (vf_file v)) = None"
proof -
  let ?diff = "case fw_diff wire of Some d \<Rightarrow> d | None \<Rightarrow> []"
  let ?held = "fw_collapsed wire = Some True \<or> fw_too_large wire = Some True"
  let ?path = "ChangedPath (fw_old_path wire) (fw_new_path wire)
        (if fw_new_file wire then Added else if fw_renamed_file wire then Renamed
         else if fw_deleted_file wire then Deleted else Modified)"
  let ?availability = "if fw_too_large wire = Some True then DiffTooLarge
        else if fw_collapsed wire = Some True then DiffCollapsed
        else if is_binary_diff ?diff then DiffBinary
        else if ?diff \<noteq> [] then DiffAvailable (sha ?diff)
        else if fw_collapsed wire = None \<or> fw_too_large wire = None then DiffUnknown
        else DiffMissing"
  have empty: "\<not> is_binary_diff []"
    by (simp add: is_binary_diff_def Let_def strip_suffix_def starts_with_def)
  have v: "vf_file v = \<lparr>cf_path = ?path, cf_diff = ?availability\<rparr>"
    "vf_unified_diff v = (case ?availability of DiffAvailable _ \<Rightarrow> Some ?diff | _ \<Rightarrow> None)"
    "length ?diff \<le> wl_max_diff_bytes l" "\<not> (?held \<and> ?diff \<noteq> [])"
    "\<not> (fw_collapsed wire = Some True \<and> fw_too_large wire = Some True)" "semantic_issue ?path = None"
    using assms unfolding validate_changed_file_def Let_def
    by (auto simp only: and_then_Inr map_err_Inr reject_if_Inr not_less sum.inject validated_changed_file.simps
        dest!: hex_identities)
  have diff: "vf_unified_diff v = Some d \<longleftrightarrow>
      fw_diff wire = Some d \<and> d \<noteq> [] \<and> \<not> is_binary_diff d \<and> \<not> ?held" for d
    using v(4) empty unfolding v(2) by (cases "fw_diff wire") auto
  have available: "cf_diff (vf_file v) = DiffAvailable h \<longleftrightarrow> (\<exists>d. vf_unified_diff v = Some d \<and> h = sha d)" for h
    using v(4) empty unfolding v(1,2) by (cases "fw_diff wire") auto
  note sent = v(4,5) empty
  have too_large: "cf_diff (vf_file v) = DiffTooLarge \<longleftrightarrow> fw_too_large wire = Some True"
    using sent unfolding v(1) by auto
  have collapsed: "cf_diff (vf_file v) = DiffCollapsed \<longleftrightarrow> fw_collapsed wire = Some True"
    using sent unfolding v(1) by auto
  have binary: "cf_diff (vf_file v) = DiffBinary \<longleftrightarrow> (\<exists>d. fw_diff wire = Some d \<and> is_binary_diff d)"
    using sent unfolding v(1) by (cases "fw_diff wire") auto
  have missing: "cf_diff (vf_file v) = DiffMissing \<longleftrightarrow> (fw_diff wire = None \<or> fw_diff wire = Some [])
      \<and> fw_collapsed wire = Some False \<and> fw_too_large wire = Some False"
    using sent unfolding v(1)
    by (cases "fw_diff wire"; cases "fw_collapsed wire"; cases "fw_too_large wire") auto
  have unknown: "cf_diff (vf_file v) = DiffUnknown \<longleftrightarrow> (fw_diff wire = None \<or> fw_diff wire = Some [])
      \<and> fw_collapsed wire \<noteq> Some True \<and> fw_too_large wire \<noteq> Some True
      \<and> (fw_collapsed wire = None \<or> fw_too_large wire = None)"
    using sent unfolding v(1)
    by (cases "fw_diff wire"; cases "fw_collapsed wire"; cases "fw_too_large wire") auto
  have short: "length d \<le> wl_max_diff_bytes l" if "vf_unified_diff v = Some d" for d
    using that v(3) unfolding diff by simp
  have path: "cf_path (vf_file v) = ?path" unfolding v(1) by simp
  have shown: "\<forall>d. vf_unified_diff v = Some d \<longleftrightarrow> fw_diff wire = Some d \<and> d \<noteq> [] \<and> \<not> is_binary_diff d
      \<and> fw_collapsed wire \<noteq> Some True \<and> fw_too_large wire \<noteq> Some True"
    unfolding diff by blast
  have digest: "\<forall>h. cf_diff (vf_file v) = DiffAvailable h \<longleftrightarrow> (\<exists>d. vf_unified_diff v = Some d \<and> h = sha d)"
    using available by blast
  have bounded: "\<forall>d. vf_unified_diff v = Some d \<longrightarrow> length d \<le> wl_max_diff_bytes l"
    using short by blast
  show ?thesis
    unfolding path is_binary_text [symmetric]
    by (rule conjI [OF shown conjI [OF digest conjI [OF bounded conjI [OF too_large conjI [OF collapsed
        conjI [OF binary conjI [OF missing conjI [OF unknown conjI [OF refl v(6)]]]]]]]]])
qed

lemma changed_file_shows_what_was_sent_witness:
  "\<exists>v. validate_changed_file (\<lambda>_. ''digest'')
      \<lparr>fw_old_path = ''a'', fw_new_path = ''a'', fw_a_mode = None, fw_b_mode = None, fw_diff = Some ''@@'',
       fw_new_file = False, fw_renamed_file = False, fw_deleted_file = False, fw_generated_file = None,
       fw_collapsed = Some False, fw_too_large = Some False\<rparr> default_wire_limits = Inr v
    \<and> vf_unified_diff v = Some ''@@'' \<and> cf_diff (vf_file v) = DiffAvailable ''digest''"
  (is "\<exists>v. ?run = Inr v \<and> _ v")
proof -
  have "\<exists>v. ?run = Inr v"
    by (simp add: validate_changed_file_def validate_bounded_string_def default_wire_limits_def Let_def
        repository_path_try_from_def semantic_issue_def)
  then obtain v where v: "?run = Inr v" ..
  from changed_file_shows_what_was_sent [OF v] have "vf_unified_diff v = Some ''@@''"
    by (simp add: is_binary_text [symmetric] is_binary_diff_def Let_def strip_suffix_def starts_with_def)
  moreover from this changed_file_shows_what_was_sent [OF v] have "cf_diff (vf_file v) = DiffAvailable ''digest''"
    by simp
  ultimately show ?thesis using v by blast
qed

definition example_request :: blob_request where
  "example_request = BlobRequest New ''f'' (replicate 40 (CHR ''a''))"

definition example_blob :: response_observation where
  "example_blob =
     \<lparr>rs_status = 200,
      rs_headers = map (\<lambda>(n, v). \<lparr>rh_name = n, rh_value = v\<rparr>)
        [(''x-gitlab-blob-id'', replicate 40 (CHR ''b'')), (''x-gitlab-commit-id'', replicate 40 (CHR ''a'')),
         (''x-gitlab-ref'', replicate 40 (CHR ''a'')), (''x-gitlab-file-path'', ''f''),
         (''x-gitlab-encoding'', ''base64''), (''x-gitlab-size'', ''2''),
         (''x-gitlab-content-sha256'', replicate 64 (CHR ''c'')), (''x-gitlab-execute-filemode'', ''true'')],
      rs_body = ''hi''\<rparr>"

definition example_limits :: gitlab_wire_limits where
  "example_limits =
     \<lparr>wl_max_json_body_bytes = 90, wl_max_blob_body_bytes = 90, wl_max_items_per_page = 9, wl_max_pages = 9,
      wl_max_total_items = 9, wl_max_diff_bytes = 90, wl_max_note_body_bytes = 90, wl_max_string_bytes = 90,
      wl_max_notes_per_discussion = 9, wl_max_header_count = 9, wl_max_header_name_bytes = 90,
      wl_max_header_value_bytes = 90\<rparr>"

lemma example_limits_valid: "wire_limits_validate example_limits = Inr ()"
  by (simp add: wire_limits_validate_def example_limits_def hard_max_json_body_bytes_def
      hard_max_blob_body_bytes_def hard_max_items_per_page_def hard_max_pages_def hard_max_total_items_def
      hard_max_header_count_def hard_max_header_bytes_def)

text \<open>Visible ASCII text is valid, has nothing to trim and may be a header value.\<close>

definition visible :: "char \<Rightarrow> bool" where
  "visible b \<longleftrightarrow> CHR 0x20 < b \<and> b < CHR 0x7F"

lemma utf8_ascii: "list_all (\<lambda>b. b < CHR 0x80) s \<Longrightarrow> utf8_valid s"
  unfolding utf8_valid_def
proof (induction s)
  case Nil
  then show ?case by (simp add: utf8_valid_up_to.simps)
next
  case (Cons b s)
  then show ?case by (subst utf8_valid_up_to.simps) simp
qed

lemma visible_number: "visible b \<longleftrightarrow> 32 < (of_char b :: nat) \<and> (of_char b :: nat) < 127"
  by (simp add: visible_def less_char_def)

lemma visible_utf8: "list_all visible s \<Longrightarrow> utf8_valid s"
  by (rule utf8_ascii) (auto simp: list_all_iff visible_number less_char_def)

lemma visible_chunks: "list_all visible s \<Longrightarrow> str_chunks s = map (\<lambda>b. [b]) s"
  by (induction s) (auto simp: char_width_def visible_number Let_def)

lemma visible_not_space: "visible b \<Longrightarrow> \<not> chunk_whitespace [b]"
  by (simp add: chunk_whitespace_def visible_number char_is_whitespace_def)

lemma visible_dropWhile: "list_all visible s \<Longrightarrow> dropWhile chunk_whitespace (map (\<lambda>b. [b]) s) = map (\<lambda>b. [b]) s"
  by (cases s) (auto simp: visible_not_space)

lemma visible_trim:
  assumes "list_all visible s"
  shows "trim s = s"
proof -
  have "list_all visible (rev s)" using assms by (simp add: list_all_iff)
  then show ?thesis
    using visible_dropWhile [OF assms] visible_dropWhile [of "rev s"]
    by (simp add: trim_def visible_chunks [OF assms] rev_map)
qed

lemma add_visible_header:
  assumes "rh_name h \<noteq> []" "list_all header_name_byte (rh_name h)" "utf8_valid (rh_name h)" "ascii_lowercase (rh_name h) = rh_name h"
    and "list_all visible (rh_value h)" "observed_header (rh_name h)" "map_of m (rh_name h) = None"
    and "length (rh_name h) \<le> wl_max_header_name_bytes l" "length (rh_value h) \<le> wl_max_header_value_bytes l"
  shows "add_header l h m = Inr (bt_insert (rh_name h) (rh_value h) m)"
proof -
  have "list_ex (\<lambda>b. b = ret \<or> b = nl \<or> b = CHR 0x00) (rh_value h) = False"
    using assms(5) by (auto simp: list_all_iff list_ex_iff visible_number)
  then show ?thesis
    using assms by (simp add: add_header_def Let_def visible_utf8 visible_trim)
qed

definition header_text :: "char \<Rightarrow> bool" where
  "header_text b \<longleftrightarrow> is_ascii_lowercase b \<or> is_ascii_digit b \<or> b = CHR ''-''"

lemma header_text_name:
  assumes "list_all header_text s"
  shows "list_all header_name_byte s" "utf8_valid s" "ascii_lowercase s = s"
proof -
  show "list_all header_name_byte s"
    using assms by (auto simp: list_all_iff header_text_def header_name_byte_def is_ascii_alphanumeric_def)
  have "list_all visible s"
    using assms by (auto simp: list_all_iff header_text_def visible_def is_ascii_lowercase_def is_ascii_digit_def
        char_le_code less_char_def)
  then show "utf8_valid s" by (rule visible_utf8)
  show "ascii_lowercase s = s"
    using assms unfolding ascii_lowercase_def
    by (intro map_idI) (auto simp: list_all_iff header_text_def to_ascii_lowercase_def is_ascii_uppercase_def
        is_ascii_lowercase_def is_ascii_digit_def char_le_code)
qed

lemma example_header:
  assumes "list_all header_text name" "name \<noteq> []" "list_all visible text_value" "observed_header name" "map_of m name = None"
    and "length name \<le> 90" "length text_value \<le> 90"
  shows "add_header example_limits \<lparr>rh_name = name, rh_value = text_value\<rparr> m = Inr (bt_insert name text_value m)"
  using add_visible_header [of "\<lparr>rh_name = name, rh_value = text_value\<rparr>" m example_limits] header_text_name [OF assms(1)] assms
  by (simp add: example_limits_def)

lemma list_all_replicate: "list_all P (replicate n x) \<longleftrightarrow> n = 0 \<or> P x"
  by (auto simp: list_all_iff)

lemma example_letters:
  "visible (CHR ''a'')" "visible (CHR ''b'')" "visible (CHR ''c'')" "list_all visible ''f''" "list_all visible ''2''"
  "list_all visible ''base64''" "list_all visible ''true''"
  by (simp_all add: visible_def less_char_def)

lemma example_header_names:
  "list_all header_text ''x-gitlab-blob-id''" "list_all header_text ''x-gitlab-commit-id''"
  "list_all header_text ''x-gitlab-ref''" "list_all header_text ''x-gitlab-file-path''"
  "list_all header_text ''x-gitlab-encoding''" "list_all header_text ''x-gitlab-size''"
  "list_all header_text ''x-gitlab-content-sha256''" "list_all header_text ''x-gitlab-execute-filemode''"
  by (simp_all add: header_text_def is_ascii_lowercase_def is_ascii_digit_def char_le_code)

lemma example_observed:
  "observed_header ''x-gitlab-blob-id''" "observed_header ''x-gitlab-commit-id''"
  "observed_header ''x-gitlab-ref''" "observed_header ''x-gitlab-file-path''"
  "observed_header ''x-gitlab-encoding''" "observed_header ''x-gitlab-size''"
  "observed_header ''x-gitlab-content-sha256''" "observed_header ''x-gitlab-execute-filemode''"
  by (simp_all add: observed_header_def)

lemma example_count: "unat (wl_max_header_count example_limits) = 9"
  by (simp add: example_limits_def)

definition example_read :: parsed_headers where
  "example_read = fold (\<lambda>h. bt_insert (rh_name h) (rh_value h)) (rs_headers example_blob) []"

lemma example_headers: "parse_headers (rs_headers example_blob) example_limits = Inr example_read"
  unfolding parse_headers_def example_read_def example_blob_def
  by (simp add: example_header example_header_names example_observed example_letters example_count list_all_replicate
      del: list.pred_inject)

lemma example_identities:
  "git_sha_try_from (replicate 40 (CHR ''a'')) = Inr (replicate 40 (CHR ''a''))"
  "git_sha_try_from (replicate 40 (CHR ''b'')) = Inr (replicate 40 (CHR ''b''))"
  "sha256_digest_try_from (replicate 64 (CHR ''c'')) = Inr (replicate 64 (CHR ''c''))"
  by (simp_all add: git_sha_try_from_def sha256_digest_try_from_def is_lower_hex_def git_sha_min_len_def
      git_sha_max_len_def sha256_hex_len_def list_all_replicate)

lemma example_size: "parse_strict_u64 ''2'' name = Inr 2"
  by (simp add: parse_strict_u64_def is_ascii_digit_def char_le_code decimal_value_def try_word_def)

lemma raw_blob_is_bound_witness:
  "\<exists>b. parse_raw_blob_response (\<lambda>_. replicate 64 (CHR ''c'')) example_request example_blob example_limits = Inr b
    \<and> vb_body b = ''hi'' \<and> bi_size_bytes (vb_identity b) = 2"
  (is "\<exists>b. ?run = Inr b \<and> _ b")
proof -
  have "\<exists>b. ?run = Inr b"
    unfolding parse_raw_blob_response_def example_limits_valid example_headers
    by (simp add: example_identities example_size example_request_def validate_success_status_def
        validate_content_length_def header_optional_u64_def transposed_def header_required_def
        header_required_u64_def parse_required_sha_header_def blob_header_is_def repository_path_try_from_def
        parse_bool_text_def Let_def example_read_def example_blob_def example_limits_def clamp_word_def)
  then obtain b where b: "?run = Inr b" ..
  from raw_blob_is_bound [OF b] have "vb_body b = ''hi''" "unat (bi_size_bytes (vb_identity b)) = 2"
    by (auto simp: example_blob_def)
  moreover from this(2) have "bi_size_bytes (vb_identity b) = 2" by (simp add: word_unat_eq_iff)
  ultimately show ?thesis using b by blast
qed

end
