(* ===== verification/Embedded_Git.thy ===== *)
theory Embedded_Git
  imports Snapshot Repository
begin

text \<open>
  \<open>crates/revoot/src/embedded_git.rs\<close>: the read-only boundary over the Git reader.  The \<open>gix\<close>
  library is outside the repository: what its calls answer for one repository is the record
  \<open>gix_repository\<close>, and the record \<open>git_host\<close> has what is asked of the library and the file
  system before a repository is open.  Object ids are opaque, of any type.  Nothing is assumed of
  the answers.
\<close>

section \<open>What the library answers\<close>

datatype object_kind = TreeObject | BlobObject | CommitObject | TagObject

record 'o tree_entry =
  te_is_blob :: bool
  te_filepath :: string
  te_oid :: 'o

text \<open>An entry found by its path: the mode, the id, and the data of the object when it is a blob.\<close>

record 'o found_entry =
  fe_is_blob :: bool
  fe_id :: 'o
  fe_blob_data :: "string option"

record 'o gix_tree =
  xt_files :: "'o tree_entry list option"
  xt_lookup :: "string list \<Rightarrow> 'o found_entry option option"

record 'o gix_commit =
  xc_tree :: "'o gix_tree option"
  xc_parents :: "'o list"
  xc_summary :: "string option"
  xc_seconds :: "int option"
  xc_message_raw :: "string option"

text \<open>A remote by its name: not found, not readable, or its fetch URL if it has one.\<close>

datatype remote_lookup = RemoteMissing | RemoteUnreadable | RemoteFound "string option"

record index_entry =
  ie_unconflicted :: bool
  ie_path :: string

record 'o gix_repository =
  xr_workdir :: "string option"
  xr_rev_parse :: "string \<Rightarrow> 'o option"
  xr_find_commit :: "'o \<Rightarrow> 'o gix_commit option"
  xr_merge_base :: "'o \<Rightarrow> 'o \<Rightarrow> 'o option"
  xr_remotes :: "(string \<times> remote_lookup) list"
  xr_symbolic :: "string \<Rightarrow> string option"
  xr_rev_walk :: "'o list \<Rightarrow> 'o list \<Rightarrow> 'o option list option"
  xr_find_header :: "'o \<Rightarrow> (object_kind \<times> u64) option"
  xr_find_blob :: "'o \<Rightarrow> string option"
  xr_index :: "index_entry list option"
  xr_dirwalk :: "(bool \<times> string) list option"
  xr_is_shallow :: bool

record 'o git_host =
  xh_discover :: "bool \<Rightarrow> string \<Rightarrow> 'o gix_repository option"
  xh_canonicalize :: "string \<Rightarrow> string option"
  xh_from_hex :: "string \<Rightarrow> 'o option"
  xh_hex :: "'o \<Rightarrow> string"
  xh_is_file :: "string \<Rightarrow> string \<Rightarrow> bool"

section \<open>The boundary\<close>

definition max_blob_bytes :: u64 where "max_blob_bytes = 2 * 1024 * 1024"
definition max_repository_paths :: nat where "max_repository_paths = 100000"

datatype embedded_git_error =
  RepositoryUnavailable | UnsupportedObjectFormat | CommitUnavailable | ReferenceUnavailable
| HistoryUnavailable | IndexUnavailable | Conflict | InvalidRepositoryPath | ObjectUnavailable
| ObjectTooLarge | StatusUnavailable | PathLimit

record 'o embedded_repository =
  er_repository :: "'o gix_repository"
  er_root :: string

definition discover_with_options ::
    "'o git_host \<Rightarrow> bool \<Rightarrow> string \<Rightarrow> embedded_git_error + 'o embedded_repository" where
  "discover_with_options host bail_if_untrusted start =
     and_then (ok_or RepositoryUnavailable (xh_discover host bail_if_untrusted start)) (\<lambda>repository.
     and_then (ok_or RepositoryUnavailable (xr_workdir repository)) (\<lambda>root.
     and_then (ok_or RepositoryUnavailable (xh_canonicalize host root)) (\<lambda>root.
     Inr \<lparr>er_repository = repository, er_root = root\<rparr>)))"

definition embedded_discover :: "'o git_host \<Rightarrow> string \<Rightarrow> embedded_git_error + 'o embedded_repository" where
  "embedded_discover host = discover_with_options host True"

definition discover_ci_checkout :: "'o git_host \<Rightarrow> string \<Rightarrow> embedded_git_error + 'o embedded_repository" where
  "discover_ci_checkout host = discover_with_options host False"

definition object_id :: "'o git_host \<Rightarrow> git_sha \<Rightarrow> embedded_git_error + 'o" where
  "object_id host sha = ok_or UnsupportedObjectFormat (xh_from_hex host sha)"

definition git_sha_of :: "'o git_host \<Rightarrow> 'o \<Rightarrow> embedded_git_error + git_sha" where
  "git_sha_of host i = map_err (\<lambda>_. UnsupportedObjectFormat) (git_sha_try_from (xh_hex host i))"

definition commit_sha :: "'o git_host \<Rightarrow> 'o gix_repository \<Rightarrow> 'o \<Rightarrow> embedded_git_error + git_sha" where
  "commit_sha host r i =
     and_then (ok_or CommitUnavailable (xr_find_commit r i)) (\<lambda>_. git_sha_of host i)"

definition embedded_head :: "'o git_host \<Rightarrow> 'o gix_repository \<Rightarrow> embedded_git_error + git_sha" where
  "embedded_head host r =
     and_then (ok_or CommitUnavailable (xr_rev_parse r ''HEAD'')) (commit_sha host r)"

definition resolve_commit :: "'o git_host \<Rightarrow> 'o gix_repository \<Rightarrow> string \<Rightarrow> embedded_git_error + git_sha" where
  "resolve_commit host r reference =
     and_then (ok_or ReferenceUnavailable (xr_rev_parse r reference)) (commit_sha host r)"

definition merge_base :: "'o git_host \<Rightarrow> 'o gix_repository \<Rightarrow> git_sha \<Rightarrow> git_sha \<Rightarrow> embedded_git_error + git_sha" where
  "merge_base host r base head =
     and_then (object_id host base) (\<lambda>base.
     and_then (object_id host head) (\<lambda>head.
     and_then (ok_or HistoryUnavailable (xr_merge_base r base head)) (git_sha_of host)))"

text \<open>\<open>to_str\<close> on bytes\<close>

definition to_str :: "'e \<Rightarrow> string \<Rightarrow> 'e + string" where
  "to_str e bytes = (if utf8_valid bytes then Inr bytes else Inl e)"

definition add_remote ::
    "string \<times> remote_lookup \<Rightarrow> (string, string) btree \<Rightarrow> embedded_git_error + (string, string) btree" where
  "add_remote = (\<lambda>(name, lookup) remotes.
     and_then (to_str InvalidRepositoryPath name) (\<lambda>name.
     case lookup of
       RemoteMissing \<Rightarrow> Inl ReferenceUnavailable
     | RemoteUnreadable \<Rightarrow> Inl ReferenceUnavailable
     | RemoteFound None \<Rightarrow> Inr remotes
     | RemoteFound (Some url) \<Rightarrow>
         and_then (to_str InvalidRepositoryPath url) (\<lambda>url. Inr (bt_insert name url remotes))))"

definition remote_urls :: "'o gix_repository \<Rightarrow> embedded_git_error + (string, string) btree" where
  "remote_urls r = try_fold add_remote (xr_remotes r) []"

definition symbolic_reference :: "'o gix_repository \<Rightarrow> string \<Rightarrow> string option" where
  "symbolic_reference r name =
     Option.bind (xr_symbolic r name) (\<lambda>target. if utf8_valid target then Some target else None)"

definition add_root ::
    "'o git_host \<Rightarrow> 'o gix_repository \<Rightarrow> 'o option \<Rightarrow> git_sha list \<Rightarrow> embedded_git_error + git_sha list" where
  "add_root host r item roots =
     and_then (ok_or HistoryUnavailable item) (\<lambda>i.
     and_then (ok_or CommitUnavailable (xr_find_commit r i)) (\<lambda>commit.
     if xc_parents commit = [] then and_then (git_sha_of host i) (\<lambda>sha. Inr (roots @ [sha]))
     else Inr roots))"

definition root_commits :: "'o git_host \<Rightarrow> 'o gix_repository \<Rightarrow> git_sha \<Rightarrow> embedded_git_error + git_sha list" where
  "root_commits host r head =
     and_then (object_id host head) (\<lambda>head.
     and_then (ok_or HistoryUnavailable (xr_rev_walk r [head] [])) (\<lambda>walk.
     and_then (try_fold (add_root host r) walk []) (\<lambda>roots.
     let roots = remdups_adj (sort roots) in
     if roots = [] then Inl HistoryUnavailable else Inr roots)))"

definition commit_tree :: "'o git_host \<Rightarrow> 'o gix_repository \<Rightarrow> git_sha \<Rightarrow> embedded_git_error + 'o gix_tree" where
  "commit_tree host r commit =
     and_then (object_id host commit) (\<lambda>i.
     and_then (ok_or CommitUnavailable (xr_find_commit r i)) (\<lambda>commit.
     ok_or ObjectUnavailable (xc_tree commit)))"

definition read_file_at_commit ::
    "'o git_host \<Rightarrow> 'o gix_repository \<Rightarrow> git_sha \<Rightarrow> relative_path \<Rightarrow> u64 \<Rightarrow> embedded_git_error + string option" where
  "read_file_at_commit host r commit path maximum =
     and_then (commit_tree host r commit) (\<lambda>tree.
     and_then (ok_or ObjectUnavailable (xt_lookup tree (split_on (CHR ''/'') path))) (\<lambda>entry.
     case entry of
       None \<Rightarrow> Inr None
     | Some entry \<Rightarrow>
         if \<not> fe_is_blob entry then Inr None
         else and_then (ok_or ObjectUnavailable (xr_find_header r (fe_id entry))) (\<lambda>(_, size).
           if maximum < size then Inl ObjectTooLarge
           else and_then (ok_or ObjectUnavailable (fe_blob_data entry)) (\<lambda>bytes. Inr (Some bytes)))))"

definition entry_path :: "string \<Rightarrow> embedded_git_error + relative_path" where
  "entry_path bytes =
     and_then (to_str InvalidRepositoryPath bytes) (\<lambda>path.
     map_err (\<lambda>_. InvalidRepositoryPath) (relative_path_try_from path))"

definition add_base_file ::
    "'o tree_entry \<Rightarrow> (relative_path, 'o) btree \<Rightarrow> embedded_git_error + (relative_path, 'o) btree" where
  "add_base_file entry files =
     and_then (entry_path (te_filepath entry)) (\<lambda>path. Inr (bt_insert path (te_oid entry) files))"

definition base_files ::
    "'o git_host \<Rightarrow> 'o gix_repository \<Rightarrow> git_sha \<Rightarrow> embedded_git_error + (relative_path, 'o) btree" where
  "base_files host r commit =
     and_then (commit_tree host r commit) (\<lambda>tree.
     and_then (ok_or ObjectUnavailable (xt_files tree)) (\<lambda>entries.
     if max_repository_paths < length entries then Inl PathLimit
     else try_fold add_base_file (filter te_is_blob entries) []))"

text \<open>The end of the loop bodies over the index and the working tree: a path that is a file is added.\<close>

definition add_path :: "'o git_host \<Rightarrow> string \<Rightarrow> relative_path \<Rightarrow> relative_path list \<Rightarrow> embedded_git_error + relative_path list" where
  "add_path host root path paths =
     (let paths = insert_if (xh_is_file host root path) path paths in
      if max_repository_paths < length paths then Inl PathLimit else Inr paths)"

definition add_tracked ::
    "'o git_host \<Rightarrow> string \<Rightarrow> index_entry \<Rightarrow> relative_path list \<Rightarrow> embedded_git_error + relative_path list" where
  "add_tracked host root entry paths =
     (if \<not> ie_unconflicted entry then Inl Conflict
      else and_then (entry_path (ie_path entry)) (\<lambda>path. add_path host root path paths))"

definition tracked_paths :: "'o git_host \<Rightarrow> 'o embedded_repository \<Rightarrow> embedded_git_error + relative_path list" where
  "tracked_paths host e =
     and_then (ok_or IndexUnavailable (xr_index (er_repository e))) (\<lambda>entries.
     try_fold (add_tracked host (er_root e)) entries [])"

definition add_untracked ::
    "'o git_host \<Rightarrow> string \<Rightarrow> bool \<times> string \<Rightarrow> relative_path list \<Rightarrow> embedded_git_error + relative_path list" where
  "add_untracked host root = (\<lambda>(untracked, rela_path) paths.
     if \<not> untracked then Inr paths
     else and_then (entry_path rela_path) (\<lambda>path. add_path host root path paths))"

definition working_paths :: "'o git_host \<Rightarrow> 'o embedded_repository \<Rightarrow> embedded_git_error + relative_path list" where
  "working_paths host e =
     and_then (ok_or IndexUnavailable (xr_index (er_repository e))) (\<lambda>_.
     and_then (tracked_paths host e) (\<lambda>paths.
     and_then (ok_or StatusUnavailable (xr_dirwalk (er_repository e))) (\<lambda>entries.
     try_fold (add_untracked host (er_root e)) entries paths)))"

definition object_bytes :: "'o gix_repository \<Rightarrow> 'o \<Rightarrow> u64 \<Rightarrow> embedded_git_error + string" where
  "object_bytes r i maximum =
     and_then (ok_or ObjectUnavailable (xr_find_header r i)) (\<lambda>(kind, size).
     if kind \<noteq> BlobObject then Inl ObjectUnavailable
     else if min maximum max_blob_bytes < size then Inl ObjectTooLarge
     else ok_or ObjectUnavailable (xr_find_blob r i))"

end
