(* ===== verification/Git_History.thy ===== *)
theory Git_History
  imports Embedded_Git Agent_Run Address_Text
begin

text \<open>
  \<open>crates/revoot/src/git_history.rs\<close>: the commits of the reviewed range, and the tools that list
  them and show one.  The JSON encoding of a result is the argument \<open>json\<close>, of which only the
  length matters; \<open>String::from_utf8_lossy\<close> is written out.
\<close>

section \<open>Types\<close>

definition max_indexed_commits :: nat where "max_indexed_commits = 256"
definition max_initial_commits :: nat where "max_initial_commits = 12"
definition max_commit_object_bytes :: u64 where "max_commit_object_bytes = 64 * 1024"
definition max_commit_message_bytes :: nat where "max_commit_message_bytes = 16 * 1024"
definition max_subject_bytes :: nat where "max_subject_bytes = 512"

datatype git_history_coverage = CoverageComplete | Shallow | Truncated | ShallowAndTruncated

fun coverage_is_complete :: "git_history_coverage \<Rightarrow> bool" where
  "coverage_is_complete c = (c = CoverageComplete)"

fun coverage_as_str :: "git_history_coverage \<Rightarrow> string" where
  "coverage_as_str CoverageComplete = ''complete''"
| "coverage_as_str Shallow = ''shallow''"
| "coverage_as_str Truncated = ''truncated''"
| "coverage_as_str ShallowAndTruncated = ''shallow_and_truncated''"

record change_commit_summary =
  cs_commit :: git_sha
  cs_subject :: string

record change_commit_list =
  cl_coverage :: git_history_coverage
  cl_commits :: "change_commit_summary list"
  cl_truncated :: bool

record change_commit_context =
  cx_commit :: git_sha
  cx_parents :: "git_sha list"
  cx_message :: string
  cx_message_truncated :: bool

datatype git_history_error =
  HistoryRepositoryUnavailable | SnapshotUnavailable | HistoryObjectFormat | TraversalUnavailable
| HistoryCommitUnavailable | CommitTooLarge | CommitOutsideChange | InvalidLimit | HistoryCancelled
| HistoryBudget | Serialization

record git_history_toolbox =
  gh_root :: string
  gh_base :: git_sha
  gh_head :: git_sha
  gh_coverage :: git_history_coverage
  gh_commits :: "change_commit_summary list"
  gh_admitted :: "git_sha set"

section \<open>Text\<close>

text \<open>
  \<open>String::from_utf8_lossy\<close>: a maximal part that is no character becomes one replacement
  character.  \<open>lossy_skip\<close> is the length of that part: the lead byte and the continuation bytes
  that could still have made a character.
\<close>

definition replacement :: string where "replacement = [CHR 0xEF, CHR 0xBF, CHR 0xBD]"

fun lossy_skip :: "string \<Rightarrow> nat" where
  "lossy_skip [] = 0"
| "lossy_skip (b0 # bs) =
     (let cont = (\<lambda>i. i < length bs \<and> is_continuation (bs ! i));
          within = (\<lambda>lo hi. bs \<noteq> [] \<and> lo \<le> bs ! 0 \<and> bs ! 0 \<le> hi);
          three = (\<lambda>first. if first then 2 else 1);
          four = (\<lambda>first. if first then (if cont 1 then 3 else 2) else 1)
      in if b0 = CHR 0xE0 then three (within (CHR 0xA0) (CHR 0xBF))
         else if b0 = CHR 0xED then three (within (CHR 0x80) (CHR 0x9F))
         else if CHR 0xE1 \<le> b0 \<and> b0 \<le> CHR 0xEF then three (cont 0)
         else if b0 = CHR 0xF0 then four (within (CHR 0x90) (CHR 0xBF))
         else if b0 = CHR 0xF4 then four (within (CHR 0x80) (CHR 0x8F))
         else if CHR 0xF1 \<le> b0 \<and> b0 \<le> CHR 0xF3 then four (cont 0)
         else 1)"

lemma lossy_skip_pos: "s \<noteq> [] \<Longrightarrow> 0 < lossy_skip s"
  by (cases s) (auto simp: Let_def)

function from_utf8_lossy :: "string \<Rightarrow> string" where
  "from_utf8_lossy s =
     (if s = [] then []
      else if utf8_char_len s \<noteq> 0
      then take (utf8_char_len s) s @ from_utf8_lossy (drop (utf8_char_len s) s)
      else replacement @ from_utf8_lossy (drop (lossy_skip s) s))"
  by pat_completeness auto

termination from_utf8_lossy
  by (relation "measure length") (auto simp: lossy_skip_pos)

declare from_utf8_lossy.simps [simp del]

text \<open>The character of a chunk, and the sanitized text.\<close>

definition chunk_control :: "string \<Rightarrow> bool" where
  "chunk_control c \<longleftrightarrow> (case str_chars c of [n] \<Rightarrow> char_is_control n | _ \<Rightarrow> False)"

definition sanitized_chunk :: "string \<Rightarrow> string" where
  "sanitized_chunk c = (if c = [nl] \<or> c = [CHR 0x09] \<or> \<not> chunk_control c then c else '' '')"

definition bounded_text_lossy :: "string \<Rightarrow> nat \<Rightarrow> string \<times> bool" where
  "bounded_text_lossy bytes maximum =
     (concat (map sanitized_chunk (str_chunks (from_utf8_lossy (take maximum bytes)))), maximum < length bytes)"

section \<open>Opening\<close>

definition bounded_commit :: "'o gix_repository \<Rightarrow> 'o \<Rightarrow> git_history_error + 'o gix_commit" where
  "bounded_commit r i =
     and_then (ok_or HistoryCommitUnavailable (xr_find_header r i)) (\<lambda>(kind, size).
     if kind \<noteq> CommitObject then Inl HistoryCommitUnavailable
     else if max_commit_object_bytes < size then Inl CommitTooLarge
     else ok_or HistoryCommitUnavailable (xr_find_commit r i))"

definition index_commit ::
    "'o git_host \<Rightarrow> 'o gix_repository \<Rightarrow> 'o option \<Rightarrow> (int \<times> git_sha \<times> string) list
      \<Rightarrow> git_history_error + (int \<times> git_sha \<times> string) list" where
  "index_commit host r item indexed =
     and_then (ok_or TraversalUnavailable item) (\<lambda>i.
     and_then (map_err (\<lambda>_. HistoryObjectFormat) (git_sha_of host i)) (\<lambda>sha.
     and_then (bounded_commit r i) (\<lambda>commit.
     and_then (ok_or HistoryCommitUnavailable (xc_summary commit)) (\<lambda>summary.
     let subject = fst (bounded_text_lossy summary max_subject_bytes) in
     and_then (ok_or HistoryCommitUnavailable (xc_seconds commit)) (\<lambda>time.
     Inr (indexed @ [(time, sha, subject)]))))))"

definition coverage_of :: "bool \<Rightarrow> bool \<Rightarrow> git_history_coverage" where
  "coverage_of shallow truncated =
     (if \<not> shallow \<and> \<not> truncated then CoverageComplete else if \<not> truncated then Shallow
      else if \<not> shallow then Truncated else ShallowAndTruncated)"

definition history_open ::
    "'o git_host \<Rightarrow> string \<Rightarrow> git_sha \<Rightarrow> git_sha \<Rightarrow> git_history_error + git_history_toolbox" where
  "history_open host root base head =
     and_then (ok_or HistoryRepositoryUnavailable (xh_canonicalize host root)) (\<lambda>requested_root.
     and_then (map_err (\<lambda>_. HistoryRepositoryUnavailable) (embedded_discover host requested_root)) (\<lambda>embedded.
     and_then (reject_if (requested_root \<noteq> er_root embedded) HistoryRepositoryUnavailable) (\<lambda>_.
     let r = er_repository embedded in
     and_then (map_err (\<lambda>_. HistoryObjectFormat) (object_id host base)) (\<lambda>base_id.
     and_then (map_err (\<lambda>_. HistoryObjectFormat) (object_id host head)) (\<lambda>head_id.
     and_then (ok_or SnapshotUnavailable (xr_find_commit r base_id)) (\<lambda>_.
     and_then (ok_or SnapshotUnavailable (xr_find_commit r head_id)) (\<lambda>_.
     and_then (if base = head then Inr []
         else and_then (ok_or TraversalUnavailable (xr_rev_walk r [head_id] [base_id])) (\<lambda>walk.
           try_fold (index_commit host r) (take (max_indexed_commits + 1) walk) [])) (\<lambda>indexed.
     let truncated = max_indexed_commits < length indexed;
         indexed = sort_key (\<lambda>(time, sha, _). (time, sha)) (take max_indexed_commits indexed);
         commits = map (\<lambda>(_, sha, subject). \<lparr>cs_commit = sha, cs_subject = subject\<rparr>) indexed
     in Inr \<lparr>gh_root = requested_root, gh_base = base, gh_head = head,
             gh_coverage = coverage_of (xr_is_shallow r) truncated, gh_commits = commits,
             gh_admitted = cs_commit ` set commits\<rparr>))))))))"

section \<open>The tools\<close>

definition narrative_commits :: "change_commit_summary list \<Rightarrow> change_commit_summary list" where
  "narrative_commits commits =
     (if length commits \<le> max_initial_commits then commits
      else let half = max_initial_commits div 2 in take half commits @ rev (take half (rev commits)))"

definition initial_narrative :: "git_history_toolbox \<Rightarrow> string" where
  "initial_narrative t =
     ''coverage='' @ coverage_as_str (gh_coverage t) @ ''; commits_in_range='' @ decimal (length (gh_commits t))
     @ ''; base='' @ gh_base t @ ''; head='' @ gh_head t
     @ concat (map (\<lambda>c. [nl] @ ''- '' @ cs_commit c @ '' '' @ cs_subject c) (narrative_commits (gh_commits t)))"

definition charge_result ::
    "('a \<Rightarrow> string option) \<Rightarrow> 'a \<Rightarrow> agent_budget \<Rightarrow> u64 \<Rightarrow> (git_history_error + unit) \<times> agent_budget" where
  "charge_result json value b now_millis =
     (case json value of
        None \<Rightarrow> (Inl Serialization, b)
      | Some bytes \<Rightarrow>
          (let (res, b) = charge_tool 1 0 (clamp_word (length bytes)) now_millis b
           in (map_err (\<lambda>_. HistoryBudget) res, b)))"

text \<open>The end of the tools: the result is charged and returned.\<close>

definition charged ::
    "('a \<Rightarrow> string option) \<Rightarrow> 'a \<Rightarrow> agent_budget \<Rightarrow> u64 \<Rightarrow> (git_history_error + 'a) \<times> agent_budget" where
  "charged json value b now_millis =
     (let (res, b) = charge_result json value b now_millis in (and_then res (\<lambda>_. Inr value), b))"

definition list_change_commits ::
    "(change_commit_list \<Rightarrow> string option) \<Rightarrow> git_history_toolbox \<Rightarrow> u32 \<Rightarrow> agent_budget \<Rightarrow> cancellation_token \<Rightarrow> u64
      \<Rightarrow> (git_history_error + change_commit_list) \<times> agent_budget" where
  "list_change_commits json t maximum b token now_millis =
     (if is_cancelled token then (Inl HistoryCancelled, b)
      else let maximum = unat maximum in
        if maximum = 0 \<or> max_indexed_commits < maximum then (Inl InvalidLimit, b)
        else charged json
          \<lparr>cl_coverage = gh_coverage t, cl_commits = take maximum (gh_commits t),
           cl_truncated = maximum < length (gh_commits t) \<or> gh_coverage t = Truncated
             \<or> gh_coverage t = ShallowAndTruncated\<rparr> b now_millis)"

definition commit_context ::
    "'o git_host \<Rightarrow> git_history_toolbox \<Rightarrow> git_sha \<Rightarrow> git_history_error + change_commit_context" where
  "commit_context host t commit =
     and_then (map_err (\<lambda>_. HistoryRepositoryUnavailable) (embedded_discover host (gh_root t))) (\<lambda>embedded.
     and_then (map_err (\<lambda>_. HistoryObjectFormat) (object_id host commit)) (\<lambda>i.
     and_then (bounded_commit (er_repository embedded) i) (\<lambda>object.
     and_then (map_err (\<lambda>_. HistoryObjectFormat)
       (try_fold (\<lambda>parent parents. and_then (git_sha_of host parent) (\<lambda>sha. Inr (parents @ [sha])))
         (xc_parents object) [])) (\<lambda>parents.
     and_then (ok_or HistoryCommitUnavailable (xc_message_raw object)) (\<lambda>raw.
     let (message, message_truncated) = bounded_text_lossy raw max_commit_message_bytes in
     Inr \<lparr>cx_commit = commit, cx_parents = parents, cx_message = message,
          cx_message_truncated = message_truncated\<rparr>)))))"

definition show_commit_context ::
    "'o git_host \<Rightarrow> (change_commit_context \<Rightarrow> string option) \<Rightarrow> git_history_toolbox \<Rightarrow> git_sha \<Rightarrow> agent_budget
      \<Rightarrow> cancellation_token \<Rightarrow> u64 \<Rightarrow> (git_history_error + change_commit_context) \<times> agent_budget" where
  "show_commit_context host json t commit b token now_millis =
     (if is_cancelled token then (Inl HistoryCancelled, b)
      else if commit \<notin> gh_admitted t then (Inl CommitOutsideChange, b)
      else case commit_context host t commit of
          Inl e \<Rightarrow> (Inl e, b)
        | Inr result \<Rightarrow> charged json result b now_millis)"

end
