(* ===== verification/Git_History_Honest.thy ===== *)
theory Git_History_Honest
  imports Git_History
begin

text \<open>
  What the history tools promise: the indexed range is the walk of the library, cut only when the
  coverage says so; a list is a prefix of it and says when it is not all; a commit is shown only
  when it belongs to the range; and every result is charged.
\<close>

section \<open>Indexing\<close>

lemma index_commits_Inr:
  "try_fold (index_commit host r) items indexed = Inr indexed' \<Longrightarrow>
     \<exists>new. indexed' = indexed @ new \<and>
       list_all2 (\<lambda>item (time, sha, subject). \<exists>i commit summary. item = Some i \<and> git_sha_of host i = Inr sha \<and>
         bounded_commit r i = Inr commit \<and> xc_summary commit = Some summary \<and> xc_seconds commit = Some time \<and>
         subject = fst (bounded_text_lossy summary max_subject_bytes)) items new"
proof (induction items arbitrary: indexed)
  case (Cons item items)
  then obtain mid where step: "index_commit host r item indexed = Inr mid"
    and rest: "try_fold (index_commit host r) items mid = Inr indexed'" by (auto simp: result_simps)
  from step obtain i sha commit summary time where head: "item = Some i" "git_sha_of host i = Inr sha"
    "bounded_commit r i = Inr commit" "xc_summary commit = Some summary" "xc_seconds commit = Some time"
    "mid = indexed @ [(time, sha, fst (bounded_text_lossy summary max_subject_bytes))]"
    by (auto simp: index_commit_def result_simps Let_def)
  from Cons.IH [OF rest] obtain new where new: "indexed' = mid @ new"
    "list_all2 (\<lambda>item (time, sha, subject). \<exists>i commit summary. item = Some i \<and> git_sha_of host i = Inr sha \<and>
         bounded_commit r i = Inr commit \<and> xc_summary commit = Some summary \<and> xc_seconds commit = Some time \<and>
         subject = fst (bounded_text_lossy summary max_subject_bytes)) items new" by blast
  show ?case
    using head new by (intro exI [of _ "(time, sha, fst (bounded_text_lossy summary max_subject_bytes)) # new"]) auto
qed simp

text \<open>The walk of the range: none for an empty range.\<close>

definition range_walk :: "'o git_host \<Rightarrow> 'o gix_repository \<Rightarrow> git_sha \<Rightarrow> git_sha \<Rightarrow> 'o option list option" where
  "range_walk host r base head =
     (if base = head then Some []
      else case (xh_from_hex host base, xh_from_hex host head) of
          (Some b, Some h) \<Rightarrow> xr_rev_walk r [h] [b]
        | _ \<Rightarrow> None)"

text \<open>A commit of the range: an item of the walk with its id and the start of its summary.\<close>

definition summarizes :: "'o git_host \<Rightarrow> 'o gix_repository \<Rightarrow> 'o option \<Rightarrow> change_commit_summary \<Rightarrow> bool" where
  "summarizes host r item c \<longleftrightarrow>
     (\<exists>i commit summary. item = Some i \<and> git_sha_of host i = Inr (cs_commit c) \<and>
        bounded_commit r i = Inr commit \<and> xc_summary commit = Some summary \<and>
        cs_subject c = fst (bounded_text_lossy summary max_subject_bytes))"

lemma history_open_Inr:
  assumes "history_open host root base head = Inr t"
  obtains e walk and indexed :: "(int \<times> git_sha \<times> string) list" where "embedded_discover host (gh_root t) = Inr e" "er_root e = gh_root t"
    "range_walk host (er_repository e) base head = Some walk"
    "list_all2 (\<lambda>item (time, sha, subject). summarizes host (er_repository e) item \<lparr>cs_commit = sha, cs_subject = subject\<rparr>)
       (take (max_indexed_commits + 1) walk) indexed"
    "gh_base t = base" "gh_head t = head"
    "gh_commits t = map (\<lambda>(_, sha, subject). \<lparr>cs_commit = sha, cs_subject = subject\<rparr>)
       (sort_key (\<lambda>(time, sha, _). (time, sha)) (take max_indexed_commits indexed))"
    "gh_coverage t = coverage_of (xr_is_shallow (er_repository e)) (max_indexed_commits < length indexed)"
    "gh_admitted t = cs_commit ` set (gh_commits t)"
proof -
  obtain root' e base_id head_id indexed where opened: "xh_canonicalize host root = Some root'"
    "embedded_discover host root' = Inr e" "root' = er_root e"
    "xh_from_hex host base = Some base_id" "xh_from_hex host head = Some head_id"
    "(if base = head then Inr [] else and_then (ok_or TraversalUnavailable (xr_rev_walk (er_repository e) [head_id] [base_id]))
       (\<lambda>walk. try_fold (index_commit host (er_repository e)) (take (max_indexed_commits + 1) walk) [])) = Inr indexed"
    and t: "t = \<lparr>gh_root = root', gh_base = base, gh_head = head,
       gh_coverage = coverage_of (xr_is_shallow (er_repository e)) (max_indexed_commits < length indexed),
       gh_commits = map (\<lambda>(_, sha, subject). \<lparr>cs_commit = sha, cs_subject = subject\<rparr>)
         (sort_key (\<lambda>(time, sha, _). (time, sha)) (take max_indexed_commits indexed)),
       gh_admitted = cs_commit ` set (map (\<lambda>(_, sha, subject). \<lparr>cs_commit = sha, cs_subject = subject\<rparr>)
         (sort_key (\<lambda>(time, sha, _). (time, sha)) (take max_indexed_commits indexed)))\<rparr>"
    using assms unfolding history_open_def object_id_def Let_def and_then_Inr map_err_Inr ok_or_Inr
      reject_if_Inr not_not sum.inject by (elim exE conjE) (rule that, assumption+, blast)
  have open_facts: "embedded_discover host (gh_root t) = Inr e" "er_root e = gh_root t" "gh_base t = base" "gh_head t = head"
    "gh_commits t = map (\<lambda>(_, sha, subject). \<lparr>cs_commit = sha, cs_subject = subject\<rparr>)
       (sort_key (\<lambda>(time, sha, _). (time, sha)) (take max_indexed_commits indexed))"
    "gh_coverage t = coverage_of (xr_is_shallow (er_repository e)) (max_indexed_commits < length indexed)"
    "gh_admitted t = cs_commit ` set (gh_commits t)"
    using opened(2,3) by (simp_all add: t)
  have "\<exists>walk. range_walk host (er_repository e) base head = Some walk \<and>
      list_all2 (\<lambda>item (time, sha, subject). summarizes host (er_repository e) item \<lparr>cs_commit = sha, cs_subject = subject\<rparr>)
       (take (max_indexed_commits + 1) walk) indexed"
  proof (cases "base = head")
    case True
    then show ?thesis using opened(6) by (simp add: range_walk_def)
  next
    case False
    then obtain walk where walk: "xr_rev_walk (er_repository e) [head_id] [base_id] = Some walk"
      "try_fold (index_commit host (er_repository e)) (take (max_indexed_commits + 1) walk) [] = Inr indexed"
      using opened(6) by (auto simp: result_simps)
    from index_commits_Inr [OF walk(2)]
    have "list_all2 (\<lambda>item (time, sha, subject). summarizes host (er_repository e) item \<lparr>cs_commit = sha, cs_subject = subject\<rparr>)
       (take (max_indexed_commits + 1) walk) indexed"
      by (fastforce simp: summarizes_def elim!: list_all2_mono)
    then show ?thesis using walk(1) False opened(4,5) by (simp add: range_walk_def)
  qed
  then show thesis using that open_facts by blast
qed

section \<open>The opened range\<close>

text \<open>
  The range that is opened is honest.  It is bound to the two commits asked for and to the
  repository whose root was asked for; it holds at most 256 commits, each of them of the walk
  from the head without the base, with the id and the sanitized start of its summary; the
  coverage is complete exactly when the repository is not shallow and the walk was not cut; and
  when it was not cut every commit of the walk is there, once.
\<close>

theorem opened_range_is_honest:
  assumes "history_open host root base head = Inr t"
  shows "\<exists>e walk. embedded_discover host (gh_root t) = Inr e \<and> er_root e = gh_root t \<and>
    gh_base t = base \<and> gh_head t = head \<and>
    range_walk host (er_repository e) base head = Some walk \<and>
    length (gh_commits t) = min max_indexed_commits (length walk) \<and>
    (\<exists>kept. kept \<subseteq># mset walk \<and> (length walk \<le> max_indexed_commits \<longrightarrow> kept = mset walk) \<and>
       rel_mset (summarizes host (er_repository e)) kept (mset (gh_commits t))) \<and>
    gh_admitted t = cs_commit ` set (gh_commits t) \<and>
    (coverage_is_complete (gh_coverage t) \<longleftrightarrow>
       \<not> xr_is_shallow (er_repository e) \<and> length walk \<le> max_indexed_commits)"
proof -
  obtain e walk and indexed :: "(int \<times> git_sha \<times> string) list" where facts: "embedded_discover host (gh_root t) = Inr e" "er_root e = gh_root t"
    "range_walk host (er_repository e) base head = Some walk"
    "list_all2 (\<lambda>item (time, sha, subject). summarizes host (er_repository e) item \<lparr>cs_commit = sha, cs_subject = subject\<rparr>)
       (take (max_indexed_commits + 1) walk) indexed"
    "gh_base t = base" "gh_head t = head"
    "gh_commits t = map (\<lambda>(_, sha, subject). \<lparr>cs_commit = sha, cs_subject = subject\<rparr>)
       (sort_key (\<lambda>(time, sha, _). (time, sha)) (take max_indexed_commits indexed))"
    "gh_coverage t = coverage_of (xr_is_shallow (er_repository e)) (max_indexed_commits < length indexed)"
    "gh_admitted t = cs_commit ` set (gh_commits t)"
    by (rule history_open_Inr [OF assms])
  let ?f = "\<lambda>(time :: int, sha, subject). \<lparr>cs_commit = sha, cs_subject = subject\<rparr>"
  have count: "length indexed = min (max_indexed_commits + 1) (length walk)"
    using list_all2_lengthD [OF facts(4)] by simp
  have "list_all2 (\<lambda>item x. summarizes host (er_repository e) item (?f x)) (take (max_indexed_commits + 1) walk) indexed"
    using facts(4) by (rule list_all2_mono) auto
  then have "list_all2 (\<lambda>item x. summarizes host (er_repository e) item (?f x))
      (take max_indexed_commits (take (max_indexed_commits + 1) walk)) (take max_indexed_commits indexed)"
    by (rule list_all2_takeI)
  then have "list_all2 (summarizes host (er_repository e)) (take max_indexed_commits walk)
      (map ?f (take max_indexed_commits indexed))"
    by (simp add: list_all2_map2 min_def)
  then have "rel_mset (summarizes host (er_repository e)) (mset (take max_indexed_commits walk))
      (mset (map ?f (take max_indexed_commits indexed)))"
    unfolding rel_mset_def by blast
  moreover have "mset (gh_commits t) = mset (map ?f (take max_indexed_commits indexed))"
    unfolding facts(7) by simp
  moreover have "mset (take max_indexed_commits walk) \<subseteq># mset walk"
    by (metis append_take_drop_id mset_append mset_subset_eq_add_left)
  ultimately have kept: "\<exists>kept. kept \<subseteq># mset walk \<and> (length walk \<le> max_indexed_commits \<longrightarrow> kept = mset walk) \<and>
       rel_mset (summarizes host (er_repository e)) kept (mset (gh_commits t))"
    by (intro exI [of _ "mset (take max_indexed_commits walk)"]) simp
  have "length (gh_commits t) = min max_indexed_commits (length walk)"
    unfolding facts(7) using count by simp
  moreover have "coverage_is_complete (gh_coverage t) \<longleftrightarrow>
       \<not> xr_is_shallow (er_repository e) \<and> length walk \<le> max_indexed_commits"
    unfolding facts(8) using count by (auto simp: coverage_of_def)
  ultimately show ?thesis using facts(1-3,5,6,9) kept by blast
qed

section \<open>The tools\<close>

lemma charged_Inr:
  "charged json x b now = (Inr y, b') \<longleftrightarrow>
     y = x \<and> (\<exists>bytes. json x = Some bytes \<and> charge_tool 1 0 (clamp_word (length bytes)) now b = (Inr (), b'))"
  by (auto simp: charged_def charge_result_def result_simps split: option.splits prod.splits)

text \<open>
  A list is charged and is a prefix of the range of the length asked for; it calls itself
  truncated exactly when a commit of the range or of the walk is not in it.
\<close>

theorem listed_commits_are_a_charged_prefix:
  "list_change_commits json t maximum b token now = (Inr res, b') \<longleftrightarrow>
     \<not> is_cancelled token \<and> 0 < maximum \<and> maximum \<le> 256 \<and>
     cl_coverage res = gh_coverage t \<and> cl_commits res = take (unat maximum) (gh_commits t) \<and>
     (cl_truncated res \<longleftrightarrow> length (cl_commits res) < length (gh_commits t) \<or>
       gh_coverage t = Truncated \<or> gh_coverage t = ShallowAndTruncated) \<and>
     (\<exists>bytes. json res = Some bytes \<and> charge_tool 1 0 (clamp_word (length bytes)) now b = (Inr (), b'))"
proof -
  have limit: "unat maximum = 0 \<longleftrightarrow> \<not> 0 < maximum" "max_indexed_commits < unat maximum \<longleftrightarrow> \<not> maximum \<le> 256"
    by (simp_all add: max_indexed_commits_def unat_eq_0 word_le_nat_alt word_less_nat_alt not_le)
  let ?list = "\<lparr>cl_coverage = gh_coverage t, cl_commits = take (unat maximum) (gh_commits t),
       cl_truncated = unat maximum < length (gh_commits t) \<or> gh_coverage t = Truncated
         \<or> gh_coverage t = ShallowAndTruncated\<rparr>"
  have fields: "res = ?list \<longleftrightarrow>
     cl_coverage res = gh_coverage t \<and> cl_commits res = take (unat maximum) (gh_commits t) \<and>
     (cl_truncated res \<longleftrightarrow> length (cl_commits res) < length (gh_commits t) \<or>
       gh_coverage t = Truncated \<or> gh_coverage t = ShallowAndTruncated)"
    by (cases res) auto
  have "list_change_commits json t maximum b token now = (Inr res, b') \<longleftrightarrow>
     \<not> is_cancelled token \<and> 0 < maximum \<and> maximum \<le> 256 \<and> res = ?list \<and>
     (\<exists>bytes. json ?list = Some bytes \<and> charge_tool 1 0 (clamp_word (length bytes)) now b = (Inr (), b'))"
    unfolding list_change_commits_def Let_def limit by (auto simp: charged_Inr)
  then show ?thesis using fields by auto
qed

text \<open>
  A commit is shown only when it belongs to the range, with its own id; the message is the
  sanitized start of the message of the object of that id, cut exactly when it says so; and
  the result is charged.  Any other commit is refused, and nothing is charged.
\<close>

theorem shown_commit_belongs_to_the_range:
  "(show_commit_context host json t commit b token now = (Inr ctx, b') \<longrightarrow>
      \<not> is_cancelled token \<and> commit \<in> gh_admitted t \<and> cx_commit ctx = commit \<and>
      (\<exists>e i object raw. embedded_discover host (gh_root t) = Inr e \<and> xh_from_hex host commit = Some i \<and>
         bounded_commit (er_repository e) i = Inr object \<and> xc_message_raw object = Some raw \<and>
         (cx_message ctx, cx_message_truncated ctx) = bounded_text_lossy raw max_commit_message_bytes \<and>
         list_all2 (\<lambda>p sha. git_sha_of host p = Inr sha) (xc_parents object) (cx_parents ctx)) \<and>
      (\<exists>bytes. json ctx = Some bytes \<and> charge_tool 1 0 (clamp_word (length bytes)) now b = (Inr (), b'))) \<and>
   (commit \<notin> gh_admitted t \<longrightarrow>
      (\<exists>e. show_commit_context host json t commit b token now = (Inl e, b)))"
proof -
  have parents: "try_fold (\<lambda>parent parents. and_then (git_sha_of host parent) (\<lambda>sha. Inr (parents @ [sha]))) ps acc = Inr out
      \<Longrightarrow> \<exists>shas. out = acc @ shas \<and> list_all2 (\<lambda>p sha. git_sha_of host p = Inr sha) ps shas" for ps acc out
  proof (induction ps arbitrary: acc)
    case (Cons p ps)
    then obtain sha where sha: "git_sha_of host p = Inr sha"
      "try_fold (\<lambda>parent parents. and_then (git_sha_of host parent) (\<lambda>sha. Inr (parents @ [sha]))) ps (acc @ [sha]) = Inr out"
      by (auto simp: result_simps)
    from Cons.IH [OF sha(2)] obtain shas where "out = (acc @ [sha]) @ shas"
      "list_all2 (\<lambda>p sha. git_sha_of host p = Inr sha) ps shas" by blast
    then show ?case using sha(1) by (intro exI [of _ "sha # shas"]) simp
  qed simp
  have found: "cx_commit x = commit \<and>
      (\<exists>e i object raw. embedded_discover host (gh_root t) = Inr e \<and> xh_from_hex host commit = Some i \<and>
         bounded_commit (er_repository e) i = Inr object \<and> xc_message_raw object = Some raw \<and>
         (cx_message x, cx_message_truncated x) = bounded_text_lossy raw max_commit_message_bytes \<and>
         list_all2 (\<lambda>p sha. git_sha_of host p = Inr sha) (xc_parents object) (cx_parents x))"
    if run: "commit_context host t commit = Inr x" for x
  proof -
    obtain e i object ps raw where run_facts: "embedded_discover host (gh_root t) = Inr e" "xh_from_hex host commit = Some i"
      "bounded_commit (er_repository e) i = Inr object"
      "try_fold (\<lambda>parent parents. and_then (git_sha_of host parent) (\<lambda>sha. Inr (parents @ [sha]))) (xc_parents object) [] = Inr ps"
      "xc_message_raw object = Some raw"
      and x: "x = \<lparr>cx_commit = commit, cx_parents = ps, cx_message = fst (bounded_text_lossy raw max_commit_message_bytes),
        cx_message_truncated = snd (bounded_text_lossy raw max_commit_message_bytes)\<rparr>"
      using run unfolding commit_context_def object_id_def
      by (auto simp: result_simps Let_def split_beta)
    show ?thesis using run_facts parents [OF run_facts(4)] by (simp add: x)
  qed
  show ?thesis
    using found unfolding show_commit_context_def
    by (auto simp: charged_Inr split: if_splits sum.splits)
qed

end
