(* ===== verification/Review_Overview.thy ===== *)
theory Review_Overview
  imports Embedded_Git Anchors Address_Text
begin

text \<open>
  \<open>crates/revoot/src/review_overview.rs\<close> and \<open>review_checkpoint.rs\<close>: the overview block that is
  kept in the description of a change request, the checkpoint embedded in it, and the attention a later
  review gives to what changed since.  \<open>Url::parse\<close> is the argument \<open>url\<close> and SHA-256 the argument
  \<open>sha\<close>.
\<close>

section \<open>Checkpoints\<close>

definition overview_start :: string where "overview_start = ''<!-- revoot:overview:v1:start -->''"
definition overview_end :: string where "overview_end = ''<!-- revoot:overview:v1:end -->''"

definition checkpoint_prefix :: string where "checkpoint_prefix = ''<!-- revoot:checkpoint:v1 ''"
definition checkpoint_suffix :: string where "checkpoint_suffix = '' -->''"
definition max_incremental_generation :: u8 where "max_incremental_generation = 2"
definition max_delta_paths :: nat where "max_delta_paths = 1000"
definition reviewer_policy_version :: string where "reviewer_policy_version = ''revoot.reviewer-policy/v11''"

record review_checkpoint =
  ck_base :: git_sha
  ck_head :: git_sha
  ck_manifest :: sha256_digest
  ck_policy :: sha256_digest
  ck_complete :: bool
  ck_generation :: u8

definition current_policy_digest :: "hasher \<Rightarrow> sha256_digest" where
  "current_policy_digest sha = sha reviewer_policy_version"

definition checkpoint_current ::
    "hasher \<Rightarrow> git_sha \<Rightarrow> git_sha \<Rightarrow> sha256_digest \<Rightarrow> bool \<Rightarrow> u8 \<Rightarrow> review_checkpoint" where
  "checkpoint_current sha base head manifest complete generation =
     \<lparr>ck_base = base, ck_head = head, ck_manifest = manifest, ck_policy = current_policy_digest sha,
      ck_complete = complete, ck_generation = generation\<rparr>"

definition bool_text :: "bool \<Rightarrow> string" where
  "bool_text b = (if b then ''true'' else ''false'')"

definition checkpoint_render :: "review_checkpoint \<Rightarrow> string" where
  "checkpoint_render c =
     checkpoint_prefix @ ''base='' @ ck_base c @ '' head='' @ ck_head c @ '' manifest='' @ ck_manifest c
     @ '' policy='' @ ck_policy c @ '' complete='' @ bool_text (ck_complete c)
     @ '' generation='' @ decimal (unat (ck_generation c)) @ checkpoint_suffix"

text \<open>\<open>str::parse::<u8>\<close>: an optional plus sign and digits.\<close>

definition parse_u8 :: "string \<Rightarrow> u8 option" where
  "parse_u8 s =
     (let digits = (case strip_prefix ''+'' s of Some d \<Rightarrow> d | None \<Rightarrow> s)
      in if digits = [] \<or> \<not> list_all is_ascii_digit digits then None else try_word (decimal_value digits))"

definition parse_complete :: "string \<Rightarrow> bool option" where
  "parse_complete s = (if s = ''true'' then Some True else if s = ''false'' then Some False else None)"

definition result_ok :: "'e + 'a \<Rightarrow> 'a option" where
  "result_ok m = (case m of Inl _ \<Rightarrow> None | Inr x \<Rightarrow> Some x)"

definition checkpoint_parse :: "string \<Rightarrow> review_checkpoint option" where
  "checkpoint_parse text_value =
     Option.bind (strip_prefix checkpoint_prefix text_value) (\<lambda>content.
     Option.bind (strip_suffix checkpoint_suffix content) (\<lambda>content.
     case split_on (CHR '' '') content of
       [base, head, manifest, policy, complete, generation] \<Rightarrow>
         Option.bind (strip_prefix ''base='' base) (\<lambda>base.
         Option.bind (strip_prefix ''head='' head) (\<lambda>head.
         Option.bind (strip_prefix ''manifest='' manifest) (\<lambda>manifest.
         Option.bind (strip_prefix ''policy='' policy) (\<lambda>policy.
         Option.bind (strip_prefix ''complete='' complete) (\<lambda>complete.
         Option.bind (strip_prefix ''generation='' generation) (\<lambda>generation.
         Option.bind (result_ok (git_sha_try_from base)) (\<lambda>base.
         Option.bind (result_ok (git_sha_try_from head)) (\<lambda>head.
         Option.bind (result_ok (sha256_digest_try_from manifest)) (\<lambda>manifest.
         Option.bind (result_ok (sha256_digest_try_from policy)) (\<lambda>policy.
         Option.bind (parse_complete complete) (\<lambda>complete.
         Option.bind (parse_u8 generation) (\<lambda>generation.
         Some \<lparr>ck_base = base, ck_head = head, ck_manifest = manifest, ck_policy = policy,
               ck_complete = complete, ck_generation = generation\<rparr>))))))))))))
     | _ \<Rightarrow> None))"

definition extract_checkpoint :: "string \<Rightarrow> review_checkpoint option" where
  "extract_checkpoint description =
     (case (match_prefixes overview_start [] 0 description, match_prefixes overview_end [] 0 description) of
        ([before_start], [before_end]) \<Rightarrow>
          if length before_end \<le> length before_start then None
          else
            let owned = drop (length before_start) (take (length before_end + length overview_end) description)
            in (case filter (starts_with checkpoint_prefix) (str_lines owned) of
                  [marker] \<Rightarrow> checkpoint_parse marker
                | _ \<Rightarrow> None)
      | _ \<Rightarrow> None)"

section \<open>Attention\<close>

datatype review_attention =
  FullAttention | Incremental git_sha "relative_path list" u8

fun next_generation :: "review_attention \<Rightarrow> u8" where
  "next_generation FullAttention = 0"
| "next_generation (Incremental _ _ generation) = saturating_add generation 1"

definition plan_attention ::
    "hasher \<Rightarrow> 'o git_host \<Rightarrow> string \<Rightarrow> git_sha \<Rightarrow> git_sha \<Rightarrow> relative_path set \<Rightarrow> review_checkpoint option
      \<Rightarrow> review_attention" where
  "plan_attention sha host root base head reviewed_paths checkpoint =
     (case checkpoint of
        None \<Rightarrow> FullAttention
      | Some c \<Rightarrow>
          if \<not> ck_complete c \<or> ck_base c \<noteq> base \<or> ck_policy c \<noteq> current_policy_digest sha
             \<or> max_incremental_generation \<le> ck_generation c \<or> ck_head c = head
          then FullAttention
          else case embedded_discover host root of
              Inl _ \<Rightarrow> FullAttention
            | Inr e \<Rightarrow>
                let r = er_repository e in
                if result_ok (merge_base host r (ck_head c) head) \<noteq> Some (ck_head c) then FullAttention
                else case (base_files host r (ck_head c), base_files host r head) of
                    (Inr previous, Inr current) \<Rightarrow>
                      let candidates = filter (\<lambda>path. map_of previous path \<noteq> map_of current path \<and> path \<in> reviewed_paths)
                        (fold bs_insert (bt_keys previous @ bt_keys current) [])
                      in if candidates = [] \<or> max_delta_paths < length candidates then FullAttention
                         else Incremental (ck_head c) candidates (ck_generation c)
                  | _ \<Rightarrow> FullAttention)"

section \<open>Overviews\<close>

definition max_overview_bytes :: nat where "max_overview_bytes = 8 * 1024"
definition max_description_bytes :: nat where "max_description_bytes = 1024 * 1024"
definition max_overview_summary_bytes :: nat where "max_overview_summary_bytes = 1200"
definition max_risk_rows :: nat where "max_risk_rows = 4"
definition max_area_bytes :: nat where "max_area_bytes = 64"
definition max_basis_bytes :: nat where "max_basis_bytes = 320"
definition max_assumptions :: nat where "max_assumptions = 6"
definition max_manual_validations :: nat where "max_manual_validations = 4"
definition max_item_bytes :: nat where "max_item_bytes = 400"
definition max_provider_model_bytes :: nat where "max_provider_model_bytes = 256"
definition max_metadata_url_bytes :: nat where "max_metadata_url_bytes = 2048"
definition revoot_homepage :: string where "revoot_homepage = ''https://github.com/getrevoot/revoot''"

text \<open>\<open>env!("CARGO_PKG_VERSION")\<close>\<close>

definition package_version :: string where "package_version = ''0.2.0''"

datatype risk_level = RiskLow | RiskModerate | RiskHigh | RiskCritical

fun risk_rank :: "risk_level \<Rightarrow> nat" where
  "risk_rank RiskLow = 0"
| "risk_rank RiskModerate = 1"
| "risk_rank RiskHigh = 2"
| "risk_rank RiskCritical = 3"

instantiation risk_level :: linorder
begin

definition less_eq_risk_level :: "risk_level \<Rightarrow> risk_level \<Rightarrow> bool" where
  "a \<le> b \<longleftrightarrow> risk_rank a \<le> risk_rank b"

definition less_risk_level :: "risk_level \<Rightarrow> risk_level \<Rightarrow> bool" where
  "a < b \<longleftrightarrow> risk_rank a < risk_rank b"

instance
proof
  fix a b :: risk_level
  show "a \<le> b \<Longrightarrow> b \<le> a \<Longrightarrow> a = b"
    by (cases a; cases b) (simp_all add: less_eq_risk_level_def)
qed (auto simp: less_eq_risk_level_def less_risk_level_def)

end

fun risk_label :: "risk_level \<Rightarrow> string" where
  "risk_label RiskLow = ''Low''"
| "risk_label RiskModerate = ''Moderate''"
| "risk_label RiskHigh = ''High''"
| "risk_label RiskCritical = ''Critical''"

text \<open>The icon is a coloured circle in UTF-8.\<close>

fun risk_icon :: "risk_level \<Rightarrow> string" where
  "risk_icon RiskLow = [CHR 0xF0, CHR 0x9F, CHR 0x9F, CHR 0xA2]"
| "risk_icon RiskModerate = [CHR 0xF0, CHR 0x9F, CHR 0x9F, CHR 0xA1]"
| "risk_icon RiskHigh = [CHR 0xF0, CHR 0x9F, CHR 0x9F, CHR 0xA0]"
| "risk_icon RiskCritical = [CHR 0xF0, CHR 0x9F, CHR 0x94, CHR 0xB4]"

record review_risk =
  rk_area :: string
  rk_risk :: risk_level
  rk_basis :: string

record review_overview =
  ov_summary :: string
  ov_overall_risk :: risk_level
  ov_overall_basis :: string
  ov_risks :: "review_risk list"
  ov_assumptions_and_gaps :: "string list"
  ov_manual_validations :: "string list"

datatype review_overview_error =
  InvalidOverview | InvalidMetadata | InvalidDescription | AmbiguousMarkers | DescriptionTooLarge

definition valid_line :: "string \<Rightarrow> nat \<Rightarrow> bool" where
  "valid_line s maximum \<longleftrightarrow>
     trim s \<noteq> [] \<and> length s \<le> maximum \<and> s = trim s \<and> \<not> list_ex char_is_control (str_chars s)
   \<and> \<not> list_ex (\<lambda>scheme. contains scheme (ascii_lowercase s)) [''http://'', ''https://'', ''mailto:'']"

text \<open>The \<open>any\<close> over the risks, with the set of areas seen so far.\<close>

fun any_invalid_risk :: "risk_level \<Rightarrow> string set \<Rightarrow> review_risk list \<Rightarrow> bool" where
  "any_invalid_risk overall areas [] = False"
| "any_invalid_risk overall areas (r # rs) \<longleftrightarrow>
     rk_risk r = RiskLow \<or> overall < rk_risk r \<or> \<not> valid_line (rk_area r) max_area_bytes
   \<or> \<not> valid_line (rk_basis r) max_basis_bytes \<or> ascii_lowercase (rk_area r) \<in> areas
   \<or> any_invalid_risk overall (insert (ascii_lowercase (rk_area r)) areas) rs"

definition overview_validate :: "review_overview \<Rightarrow> review_overview_error + unit" where
  "overview_validate o' =
     and_then (reject_if (\<not> valid_line (ov_summary o') max_overview_summary_bytes
       \<or> \<not> valid_line (ov_overall_basis o') max_basis_bytes
       \<or> max_risk_rows < length (ov_risks o') \<or> max_assumptions < length (ov_assumptions_and_gaps o')
       \<or> max_manual_validations < length (ov_manual_validations o')) InvalidOverview) (\<lambda>_.
     reject_if (any_invalid_risk (ov_overall_risk o') {} (ov_risks o')
       \<or> list_ex (\<lambda>item. \<not> valid_line item max_item_bytes)
           (ov_assumptions_and_gaps o' @ ov_manual_validations o')) InvalidOverview)"

text \<open>The parts of a parsed URL, and its text.\<close>

record parsed_url =
  pu_scheme :: string
  pu_username :: string
  pu_password :: "string option"
  pu_host :: "string option"
  pu_fragment :: "string option"
  pu_text :: string

record review_run_metadata =
  md_provider_model :: string
  md_commit :: git_sha
  md_commit_url :: string
  md_job_url :: "string option"
  md_checkpoint :: "review_checkpoint option"

definition valid_identifier :: "string \<Rightarrow> bool" where
  "valid_identifier s \<longleftrightarrow>
     s \<noteq> [] \<and> length s \<le> 128
   \<and> list_all (\<lambda>b. is_ascii_alphanumeric b \<or> b = CHR ''-'' \<or> b = CHR ''_'' \<or> b = CHR ''.'' \<or> b = CHR '':''
       \<or> b = CHR ''/'') s"

definition validate_metadata_url ::
    "(string \<Rightarrow> parsed_url option) \<Rightarrow> string \<Rightarrow> review_overview_error + string" where
  "validate_metadata_url url s =
     and_then (reject_if (max_metadata_url_bytes < length s) InvalidMetadata) (\<lambda>_.
     and_then (ok_or InvalidMetadata (url s)) (\<lambda>u.
     if pu_scheme u \<noteq> ''https'' \<or> pu_username u \<noteq> [] \<or> pu_password u \<noteq> None \<or> pu_host u = None
        \<or> pu_fragment u \<noteq> None
     then Inl InvalidMetadata else Inr (pu_text u)))"

definition metadata_try_new ::
    "(string \<Rightarrow> parsed_url option) \<Rightarrow> string \<Rightarrow> string \<Rightarrow> git_sha \<Rightarrow> string \<Rightarrow> string option
      \<Rightarrow> review_overview_error + review_run_metadata" where
  "metadata_try_new url provider model commit commit_url job_url =
     and_then (reject_if (\<not> valid_identifier provider \<or> \<not> valid_identifier model) InvalidMetadata) (\<lambda>_.
     let provider_model = provider @ ''/'' @ model in
     and_then (reject_if (max_provider_model_bytes < length provider_model) InvalidMetadata) (\<lambda>_.
     and_then (validate_metadata_url url commit_url) (\<lambda>commit_url.
     and_then (case job_url of None \<Rightarrow> Inr None
         | Some j \<Rightarrow> and_then (validate_metadata_url url j) (\<lambda>j. Inr (Some j))) (\<lambda>job_url.
     Inr \<lparr>md_provider_model = provider_model, md_commit = commit, md_commit_url = commit_url,
          md_job_url = job_url, md_checkpoint = None\<rparr>))))"

definition with_checkpoint :: "review_checkpoint \<Rightarrow> review_run_metadata \<Rightarrow> review_run_metadata" where
  "with_checkpoint c m = m\<lparr>md_checkpoint := Some c\<rparr>"

section \<open>Rendering\<close>

definition escape_char :: "char \<Rightarrow> string" where
  "escape_char b =
     (if b = CHR ''&'' then ''&amp;'' else if b = CHR ''<'' then ''&lt;'' else if b = CHR ''>'' then ''&gt;''
      else if b = CHR 0x60 then ''&#96;'' else if b = CHR ''*'' then ''&#42;'' else if b = CHR ''_'' then ''&#95;''
      else if b = CHR ''['' then ''&#91;'' else if b = CHR '']'' then ''&#93;'' else if b = CHR 0x5C then ''&#92;''
      else [b])"

definition escape_text :: "string \<Rightarrow> string" where
  "escape_text s = concat (map escape_char s)"

definition escape_table_text :: "string \<Rightarrow> string" where
  "escape_table_text s = replace_char (CHR ''|'') ''&#124;'' (escape_text s)"

definition escape_attribute :: "string \<Rightarrow> string" where
  "escape_attribute s =
     replace_char (CHR 0x27) ''&#39;'' (replace_char (CHR 0x22) ''&quot;'' (escape_text s))"

definition render_list :: "string \<Rightarrow> string list \<Rightarrow> string" where
  "render_list heading items =
     (if items = [] then []
      else [nl] @ ''<h3>'' @ heading @ ''</h3>'' @ [nl, nl]
        @ concat (map (\<lambda>item. ''- '' @ escape_text item @ [nl]) items))"

definition risk_row :: "review_risk \<Rightarrow> string" where
  "risk_row r =
     ''| '' @ escape_table_text (rk_area r) @ '' | '' @ risk_icon (rk_risk r) @ '' <strong>'' @ risk_label (rk_risk r)
     @ ''</strong>'' @ '' | '' @ escape_table_text (rk_basis r) @ '' |'' @ [nl]"

definition render_risks :: "review_risk list \<Rightarrow> string" where
  "render_risks risks =
     (if risks = [] then []
      else [nl] @ ''### Risk areas'' @ [nl, nl] @ ''| Area | Risk | Basis |'' @ [nl] @ ''|---|---|---|'' @ [nl]
        @ concat (map risk_row risks))"

text \<open>The em dash in UTF-8.\<close>

definition render_heading :: "review_overview \<Rightarrow> string" where
  "render_heading o' =
     [nl] @ ''## Revoot Code Review'' @ [nl, nl] @ ''<strong>Overall risk: '' @ risk_icon (ov_overall_risk o') @ '' ''
     @ risk_label (ov_overall_risk o') @ ''</strong> '' @ [CHR 0xE2, CHR 0x80, CHR 0x94] @ '' ''
     @ escape_text (ov_overall_basis o') @ [nl]"

definition render_footer :: "review_run_metadata \<Rightarrow> string" where
  "render_footer m =
     [nl] @ ''<sub><a href='' @ [CHR 0x22] @ revoot_homepage @ [CHR 0x22] @ ''>revoot/'' @ package_version @ ''</a> ''
     @ (case md_job_url m of
          Some job_url \<Rightarrow> ''<a href='' @ [CHR 0x22] @ escape_attribute job_url @ [CHR 0x22] @ ''>reviewed</a>''
        | None \<Rightarrow> ''reviewed'')
     @ '' at <a href='' @ [CHR 0x22] @ escape_attribute (md_commit_url m) @ [CHR 0x22] @ ''><code>''
     @ take 12 (md_commit m) @ ''</code></a> using <code>'' @ escape_text (md_provider_model m) @ ''</code></sub>'' @ [nl]"

definition render_review_overview ::
    "review_overview \<Rightarrow> review_run_metadata \<Rightarrow> review_overview_error + string" where
  "render_review_overview o' m =
     and_then (overview_validate o') (\<lambda>_.
     let output = overview_start @ render_heading o' @ render_risks (ov_risks o') @ [nl]
       @ escape_text (ov_summary o') @ [nl]
       @ render_list ''Assumptions and gaps'' (ov_assumptions_and_gaps o')
       @ render_list ''Manual validation required'' (ov_manual_validations o')
       @ render_footer m
       @ (case md_checkpoint m of Some c \<Rightarrow> checkpoint_render c @ [nl] | None \<Rightarrow> [])
       @ overview_end
     in if max_overview_bytes < length output then Inl InvalidOverview else Inr output)"

definition update_description :: "string \<Rightarrow> string \<Rightarrow> review_overview_error + string" where
  "update_description description overview_block =
     and_then (reject_if (max_description_bytes < length description \<or> max_overview_bytes < length overview_block
       \<or> \<not> starts_with overview_start overview_block \<or> \<not> ends_with overview_end overview_block)
       InvalidDescription) (\<lambda>_.
     and_then
       (case (match_prefixes overview_start [] 0 description, match_prefixes overview_end [] 0 description) of
          ([], []) \<Rightarrow>
            Inr (if description = [] then overview_block else description @ [nl, nl] @ overview_block)
        | ([before_start], [before_end]) \<Rightarrow>
            if length before_start < length before_end
            then Inr (before_start @ overview_block @ drop (length before_end + length overview_end) description)
            else Inl AmbiguousMarkers
        | _ \<Rightarrow> Inl AmbiguousMarkers) (\<lambda>updated.
     if max_description_bytes < length updated then Inl DescriptionTooLarge else Inr updated))"

end
