(* ===== verification/Overview_Kept.thy ===== *)
theory Overview_Kept
  imports Review_Overview Gitlab_Origin_Canonical
begin

text \<open>
  What the overview block in a description keeps: updating replaces exactly the one owned block and
  no byte around it, the last update wins, and a rendered checkpoint is read back from whatever
  description it was put into.  Attention is incremental only for a verified checkpoint, and then
  on exactly the paths that changed.
\<close>

section \<open>Tags\<close>

text \<open>What follows each \<open><\<close>, up to the next one.\<close>

definition tags :: "string \<Rightarrow> string list" where
  "tags s = tl (split_on (CHR ''<'') s)"

definition tag_count :: "string \<Rightarrow> string \<Rightarrow> nat" where
  "tag_count p s = length (filter (starts_with p) (tags s))"

lemma split_on_Cons_tags: "split_on (CHR ''<'') s = hd (split_on (CHR ''<'') s) # tags s"
  by (simp add: tags_def)

lemma split_on_at: "split_on c (s @ c # t) = split_on c s @ split_on c t"
  by (induction s) (auto split: list.split simp: append_eq_Cons_conv)

lemma split_on_append_last:
  "split_on c (s @ t) = butlast (split_on c s) @ (last (split_on c s) @ hd (split_on c t)) # tl (split_on c t)"
proof (induction s)
  case Nil
  then show ?case by simp
next
  case (Cons b s)
  obtain w ws where w: "split_on c s = w # ws" by (metis split_on_not_Nil list.exhaust)
  show ?case
  proof (cases "ws = []")
    case True
    then show ?thesis using Cons w by auto
  next
    case False
    then show ?thesis using Cons w by auto
  qed
qed

lemma tags_Nil [simp]: "CHR ''<'' \<notin> set s \<Longrightarrow> tags s = []"
  by (simp add: tags_def)

lemma tags_plain [simp]: "CHR ''<'' \<notin> set s \<Longrightarrow> tags (s @ t) = tags t"
  by (simp add: tags_def split_on_append_last)

lemma tags_at [simp]: "tags (s @ CHR ''<'' # t) = tags s @ split_on (CHR ''<'') t"
  by (simp add: tags_def split_on_at)

lemma tags_Cons [simp]: "tags (CHR ''<'' # t) = split_on (CHR ''<'') t"
  by (simp add: tags_def)

lemma tags_append:
  "tags s \<noteq> [] \<Longrightarrow> tags (s @ t) = butlast (tags s) @ (last (tags s) @ hd (split_on (CHR ''<'') t)) # tags t"
  using split_on_Cons_tags [of s] unfolding tags_def [of "s @ t"] split_on_append_last
  by (metis butlast.simps(2) last.simps append_Cons list.sel(3) tags_def)

lemma tags_append_Nil: "tags s = [] \<Longrightarrow> tags (s @ t) = tags t"
  unfolding tags_def split_on_append_last
  by (cases "split_on (CHR ''<'') s") auto

text \<open>A tag \<open>p\<close> written out, before any text.\<close>

lemma tags_of_tag:
  "CHR ''<'' \<notin> set p \<Longrightarrow> tags (CHR ''<'' # p @ t) = (p @ hd (split_on (CHR ''<'') t)) # tags t"
  by (simp add: split_on_append_last tags_def)

section \<open>Quiet text\<close>

text \<open>Text whose tags are no comments.\<close>

definition quiet :: "string \<Rightarrow> bool" where
  "quiet s \<longleftrightarrow> list_all (\<lambda>t. t \<noteq> [] \<and> hd t \<noteq> CHR ''!'') (tags s)"

lemma quiet_plain: "CHR ''<'' \<notin> set s \<Longrightarrow> quiet s"
  by (simp add: quiet_def)

lemma quiet_Nil [simp]: "quiet []"
  by (simp add: quiet_plain)

lemma quiet_append:
  assumes "quiet s" "quiet t"
  shows "quiet (s @ t)"
proof (cases "tags s = []")
  case True
  then show ?thesis using assms by (simp add: quiet_def tags_append_Nil)
next
  case False
  then have "last (tags s) \<in> set (tags s)" by simp
  then show ?thesis
    using assms False by (auto simp: quiet_def tags_append list_all_iff dest: in_set_butlastD)
qed

lemma quiet_concat: "\<forall>s \<in> set ss. quiet s \<Longrightarrow> quiet (concat ss)"
  by (induction ss) (auto intro: quiet_append)

lemma quiet_count: "quiet s \<Longrightarrow> tag_count (CHR ''!'' # p) s = 0"
  by (auto simp: quiet_def tag_count_def filter_empty_conv list_all_iff starts_with_append)

lemma tags_all:
  "s = a @ CHR ''<'' # t \<Longrightarrow> CHR ''<'' \<notin> set p \<Longrightarrow> starts_with p t \<Longrightarrow> \<exists>u \<in> set (tags s). starts_with p u"
  by (auto simp: starts_with_append split_on_append_last)

lemma quiet_line:
  assumes "quiet s" and "w \<in> set (split_on c s)"
  shows "\<not> starts_with (CHR ''<'' # CHR ''!'' # p) w"
proof
  assume "starts_with (CHR ''<'' # CHR ''!'' # p) w"
  then obtain t where w: "w = CHR ''<'' # CHR ''!'' # t" by (auto simp: starts_with_append)
  have "\<exists>a b. s = a @ w @ b"
    using assms(2)
  proof (induction s arbitrary: w)
    case Nil
    then show ?case by auto
  next
    case (Cons x s)
    obtain v vs where v: "split_on c s = v # vs" by (metis split_on_not_Nil list.exhaust)
    consider "w = []" | "w = x # v" "x \<noteq> c" | "w \<in> set (split_on c s)"
      using Cons.prems v by (auto split: if_splits)
    then show ?case
    proof cases
      case 1
      have "x # s = [] @ [] @ (x # s)" by simp
      then show ?thesis using 1 by blast
    next
      case 2
      have "s = v @ (if vs = [] then [] else c # join [c] vs)"
        using split_on_join [of c s] v by (cases vs) auto
      then show ?thesis using 2 by (metis append_Cons append_Nil)
    next
      case 3
      then show ?thesis using Cons.IH by (metis append_Cons)
    qed
  qed
  then obtain a b where "s = a @ CHR ''<'' # (''!'' @ t @ b)" using w by auto
  then obtain u where "u \<in> set (tags s)" "starts_with ''!'' u"
    using tags_all [of s a "''!'' @ t @ b" "''!''"] by (auto simp: starts_with_append)
  moreover from this have "hd u = CHR ''!''" by (auto simp: starts_with_append)
  ultimately show False using assms(1) by (simp add: quiet_def list_all_iff)
qed

section \<open>Matches\<close>

definition matches :: "string \<Rightarrow> string \<Rightarrow> nat list" where
  "matches p s = filter (\<lambda>i. starts_with p (drop i s)) [0..<length s]"

lemma no_overlap:
  assumes "starts_with (c # p) (b # s)" and "c \<notin> set p" and "i < length p"
  shows "\<not> starts_with (c # p) (drop i s)"
proof
  assume "starts_with (c # p) (drop i s)"
  then obtain t where t: "drop i s = c # p @ t" by (auto simp: starts_with_append)
  obtain u where s: "s = p @ u" using assms(1) by (auto simp: starts_with_append)
  have "drop i s = p ! i # drop (Suc i) s"
    using assms(3) s by (simp add: Cons_nth_drop_Suc [symmetric] nth_append)
  then show False using t assms(2,3) by (metis list.inject nth_mem)
qed

lemma upt_map_Suc: "[0..<Suc n] = 0 # map Suc [0..<n]"
  by (simp add: map_Suc_upt upt_conv_Cons)

lemma match_prefixes_matches:
  assumes "c \<notin> set p"
  shows "match_prefixes (c # p) seen k s =
    map (\<lambda>i. seen @ take i s) (filter (\<lambda>i. k \<le> i \<and> starts_with (c # p) (drop i s)) [0..<length s])"
proof (induction "c # p" seen k s rule: match_prefixes.induct)
  case (1 seen k)
  then show ?case by simp
next
  case (2 seen k b s)
  then show ?case by (simp add: upt_map_Suc filter_map comp_def del: upt_Suc)
next
  case (3 seen b s)
  show ?case
  proof (cases "starts_with (c # p) (b # s)")
    case True
    have "(length p \<le> i \<and> starts_with (c # p) (drop i s)) = starts_with (c # p) (drop i s)" for i
      using no_overlap [OF True assms, of i] by (metis not_le)
    then show ?thesis using 3(1) True by (simp add: upt_map_Suc filter_map comp_def del: upt_Suc)
  next
    case False
    then show ?thesis using 3(2) by (simp add: upt_map_Suc filter_map comp_def del: upt_Suc)
  qed
qed

lemma match_prefixes_all: "c \<notin> set p \<Longrightarrow> match_prefixes (c # p) [] 0 s = map (\<lambda>i. take i s) (matches (c # p) s)"
  by (simp add: match_prefixes_matches matches_def)

lemma matches_Cons:
  "matches p (b # s) = (if starts_with p (b # s) then [0] else []) @ map Suc (matches p s)"
  by (simp add: matches_def upt_map_Suc filter_map comp_def del: upt_Suc)

lemma length_matches:
  assumes "CHR ''<'' \<notin> set p"
  shows "length (matches (CHR ''<'' # p) s) = tag_count p s"
proof (induction s)
  case Nil
  then show ?case by (simp add: matches_def tag_count_def)
next
  case (Cons b s)
  show ?case
  proof (cases "b = CHR ''<''")
    case True
    have "starts_with (CHR ''<'' # p) (b # s) \<longleftrightarrow> starts_with p (hd (split_on (CHR ''<'') s))"
    proof
      assume "starts_with (CHR ''<'' # p) (b # s)"
      then obtain t where "s = p @ t" by (auto simp: starts_with_append)
      then show "starts_with p (hd (split_on (CHR ''<'') s))"
        using assms by (simp add: split_on_append_last starts_with_append)
    next
      assume "starts_with p (hd (split_on (CHR ''<'') s))"
      then obtain t where t: "hd (split_on (CHR ''<'') s) = p @ t" by (auto simp: starts_with_append)
      have "s = join [CHR ''<''] (hd (split_on (CHR ''<'') s) # tags s)"
        using split_on_join [of "CHR ''<''" s] split_on_Cons_tags [of s] by simp
      then have "\<exists>u. s = hd (split_on (CHR ''<'') s) @ u" by (cases "tags s") auto
      then show "starts_with (CHR ''<'' # p) (b # s)" using t True by (auto simp: starts_with_append)
    qed
    moreover have "tags (b # s) = hd (split_on (CHR ''<'') s) # tags s"
      using True split_on_Cons_tags [of s] by (simp only: tags_Cons)
    ultimately show ?thesis
      using Cons.IH by (simp add: matches_Cons tag_count_def)
  next
    case False
    then have "tags (b # s) = tags s" using tags_plain [of "[b]" s] by simp
    moreover have "\<not> starts_with (CHR ''<'' # p) (b # s)" using False by (auto simp: starts_with_append)
    ultimately show ?thesis using Cons by (simp add: matches_Cons tag_count_def)
  qed
qed

lemma match_at: "s = a @ p @ b \<Longrightarrow> p \<noteq> [] \<Longrightarrow> length a \<in> set (matches p s)"
  by (auto simp: matches_def starts_with_append)

lemma match_is:
  assumes "i \<in> set (matches p s)"
  shows "s = take i s @ p @ drop (i + length p) s"
proof -
  obtain t where t: "drop i s = p @ t" using assms by (auto simp: matches_def starts_with_append)
  then have "drop (i + length p) s = t"
    by (metis add.commute append_eq_conv_conj drop_drop)
  then show ?thesis using t by (metis append_take_drop_id)
qed

text \<open>No match and one match.\<close>

lemma match_none:
  assumes "CHR ''<'' \<notin> set p"
  shows "match_prefixes (CHR ''<'' # p) [] 0 s = [] \<longleftrightarrow> tag_count p s = 0"
  using length_matches [OF assms, of s] by (auto simp: match_prefixes_all [OF assms])

lemma match_one:
  assumes "CHR ''<'' \<notin> set p"
  shows "match_prefixes (CHR ''<'' # p) [] 0 s = [a] \<longleftrightarrow>
    tag_count p s = 1 \<and> s = a @ CHR ''<'' # p @ drop (length a + Suc (length p)) s"
    (is "?one \<longleftrightarrow> ?at")
proof
  assume ?one
  then obtain i where i: "matches (CHR ''<'' # p) s = [i]" and a: "a = take i s"
    by (auto simp: match_prefixes_all [OF assms])
  have "i \<in> set (matches (CHR ''<'' # p) s)" by (simp add: i)
  then have "i < length s" by (auto simp: matches_def)
  moreover have "s = take i s @ (CHR ''<'' # p) @ drop (i + length (CHR ''<'' # p)) s"
    by (rule match_is) (simp add: i)
  ultimately show ?at using i a length_matches [OF assms, of s] by simp
next
  assume at: ?at
  then have "length a \<in> set (matches (CHR ''<'' # p) s)" by (intro match_at) auto
  moreover obtain i where "matches (CHR ''<'' # p) s = [i]"
    using at length_matches [OF assms, of s] by (auto simp: length_Suc_conv)
  ultimately have "matches (CHR ''<'' # p) s = [length a]" by simp
  moreover have "take (length a) s = a" using at by (metis append_eq_conv_conj)
  ultimately show ?one by (simp add: match_prefixes_all [OF assms])
qed

lemma contains_count:
  assumes "CHR ''<'' \<notin> set p"
  shows "contains (CHR ''<'' # p) s \<longleftrightarrow> tag_count p s \<noteq> 0"
proof
  assume "contains (CHR ''<'' # p) s"
  then obtain a b where "s = a @ (CHR ''<'' # p) @ b" by (auto simp: contains_iff)
  then have "length a \<in> set (matches (CHR ''<'' # p) s)" by (intro match_at) auto
  then show "tag_count p s \<noteq> 0" using length_matches [OF assms, of s] by (cases "matches (CHR ''<'' # p) s") auto
next
  assume "tag_count p s \<noteq> 0"
  then obtain i where "i \<in> set (matches (CHR ''<'' # p) s)"
    using length_matches [OF assms, of s] by (cases "matches (CHR ''<'' # p) s") auto
  then show "contains (CHR ''<'' # p) s" using match_is unfolding contains_iff by blast
qed

section \<open>The rendered block\<close>

abbreviation start_tag :: string where "start_tag \<equiv> ''!-- revoot:overview:v1:start -->''"
abbreviation end_tag :: string where "end_tag \<equiv> ''!-- revoot:overview:v1:end -->''"

lemma escape_free: "c \<in> {CHR ''<'', CHR ''>''} \<Longrightarrow> c \<notin> set (escape_text s)"
  by (auto simp: escape_text_def escape_char_def)

lemma replace_free: "c \<notin> set s \<Longrightarrow> c \<notin> set w \<Longrightarrow> c \<notin> set (replace_char d w s)"
  using set_replace_char [of d w s] by auto

lemma quiet_escaped: "quiet (escape_text s)" "quiet (escape_table_text s)" "quiet (escape_attribute s)"
  unfolding escape_table_text_def escape_attribute_def
  by (rule quiet_plain, simp add: escape_free replace_free)+

lemma quiet_letters:
  "quiet [nl]" "quiet (nl # nl # s) = quiet s" "quiet (nl # s) = quiet s"
  "quiet (risk_icon r)" "quiet (risk_label r)" "quiet (decimal n)"
proof -
  show "quiet (decimal n)"
    using decimal_digits [of n] by (intro quiet_plain) (auto simp: list_all_iff is_ascii_digit_def char_le_code)
  show "quiet [nl]" by (simp add: quiet_plain)
  show "quiet (nl # nl # s) = quiet s" "quiet (nl # s) = quiet s"
    using tags_plain [of "[nl]" s] tags_plain [of "[nl, nl]" s] by (simp_all add: quiet_def)
  show "quiet (risk_icon r)" "quiet (risk_label r)" by (cases r; simp add: quiet_plain)+
qed

text \<open>Literal text is quiet by evaluation.\<close>

lemma quiet_literal: "list_all (\<lambda>t. t \<noteq> [] \<and> hd t \<noteq> CHR ''!'') (tl (split_on (CHR ''<'') s)) \<Longrightarrow> quiet s"
  by (simp add: quiet_def tags_def)

lemma quiet_heading: "quiet (render_heading o')"
  unfolding render_heading_def
  by (intro quiet_append quiet_letters quiet_escaped) (rule quiet_literal, simp)+

lemma quiet_row: "quiet (risk_row r)"
  unfolding risk_row_def
  by (intro quiet_append quiet_letters quiet_escaped) (rule quiet_literal, simp)+

lemma quiet_risks: "quiet (render_risks rs)"
proof -
  have rows: "quiet (concat (map risk_row rs))" by (rule quiet_concat) (auto simp: quiet_row)
  have "quiet ([nl] @ ''### Risk areas'' @ [nl, nl] @ ''| Area | Risk | Basis |'' @ [nl] @ ''|---|---|---|'' @ [nl]
        @ concat (map risk_row rs))"
    by (intro quiet_append quiet_letters(1) rows; rule quiet_literal, simp)
  then show ?thesis by (simp only: render_risks_def quiet_Nil split: if_split) simp
qed

lemma quiet_list:
  assumes "quiet heading"
  shows "quiet (render_list heading items)"
proof -
  have "quiet (''- '' @ escape_text item @ [nl])" for item
    by (intro quiet_append quiet_letters quiet_escaped) (rule quiet_literal, simp)
  then have rows: "quiet (concat (map (\<lambda>item. ''- '' @ escape_text item @ [nl]) items))"
    by (intro quiet_concat) auto
  have "quiet ([nl] @ ''<h3>'' @ heading @ ''</h3>'' @ [nl, nl]
        @ concat (map (\<lambda>item. ''- '' @ escape_text item @ [nl]) items))"
    by (intro quiet_append quiet_letters(1) assms rows; rule quiet_literal, simp)
  then show ?thesis by (simp only: render_list_def quiet_Nil split: if_split) simp
qed

lemma quiet_footer:
  assumes "quiet (take 12 (md_commit m))"
  shows "quiet (render_footer m)"
proof -
  have linked: "quiet (''<a href='' @ [CHR 0x22] @ escape_attribute job_url @ [CHR 0x22] @ ''>reviewed</a>'')" for job_url
    by (intro quiet_append quiet_escaped; rule quiet_literal, simp)
  have "quiet ''reviewed''" by (rule quiet_literal) simp
  then have url: "quiet (case md_job_url m of
          Some job_url \<Rightarrow> ''<a href='' @ [CHR 0x22] @ escape_attribute job_url @ [CHR 0x22] @ ''>reviewed</a>''
        | None \<Rightarrow> ''reviewed'')"
    using linked by (auto split: option.split simp del: append.simps)
  show ?thesis
    unfolding render_footer_def revoot_homepage_def package_version_def
    by (intro quiet_append quiet_letters(1) quiet_escaped assms url; rule quiet_literal, simp)
qed

section \<open>The checkpoint\<close>

definition valid_checkpoint :: "review_checkpoint \<Rightarrow> bool" where
  "valid_checkpoint c \<longleftrightarrow>
     git_sha_try_from (ck_base c) = Inr (ck_base c) \<and> git_sha_try_from (ck_head c) = Inr (ck_head c)
   \<and> sha256_digest_try_from (ck_manifest c) = Inr (ck_manifest c)
   \<and> sha256_digest_try_from (ck_policy c) = Inr (ck_policy c)"

lemma hex_plain:
  assumes "is_lower_hex s"
  shows "CHR '' '' \<notin> set s" "nl \<notin> set s" "CHR ''<'' \<notin> set s" "CHR ''>'' \<notin> set s"
  using assms by (auto simp: is_lower_hex_def list_all_iff is_ascii_digit_def char_le_code)

lemma identity_hex:
  "git_sha_try_from s = Inr t \<Longrightarrow> is_lower_hex s"
  "sha256_digest_try_from s = Inr t \<Longrightarrow> is_lower_hex s"
  by (auto simp: git_sha_try_from_def sha256_digest_try_from_def split: if_splits)

lemma decimal_plain: "c \<in> set (decimal n) \<Longrightarrow> is_ascii_digit c"
  using decimal_digits [of n] by (auto simp: list_all_iff)

lemma parse_u8_text: "parse_u8 (decimal (unat g)) = Some g"
proof -
  have "strip_prefix ''+'' (decimal (unat g)) = None"
    using decimal_plain [of "CHR ''+''" "unat g"]
    by (auto simp: strip_prefix_Some is_ascii_digit_def char_le_code simp flip: not_Some_eq)
  then show ?thesis
    using decimal_digits [of "unat g"] unsigned_less [of g, where ?'a = nat]
    by (simp add: parse_u8_def decimal_value_text try_word_def)
qed

definition checkpoint_words :: "review_checkpoint \<Rightarrow> string list" where
  "checkpoint_words c =
     [''base='' @ ck_base c, ''head='' @ ck_head c, ''manifest='' @ ck_manifest c, ''policy='' @ ck_policy c,
      ''complete='' @ bool_text (ck_complete c), ''generation='' @ decimal (unat (ck_generation c))]"

lemma checkpoint_render_words:
  "checkpoint_render c = checkpoint_prefix @ join '' '' (checkpoint_words c) @ checkpoint_suffix"
  by (simp add: checkpoint_render_def checkpoint_words_def)

lemma checkpoint_words_plain:
  assumes "valid_checkpoint c" and "d \<in> {CHR '' '', nl, CHR ''<'', CHR ''>''}"
  shows "list_all (\<lambda>w. d \<notin> set w) (checkpoint_words c)"
proof -
  have hex: "is_lower_hex (ck_base c)" "is_lower_hex (ck_head c)" "is_lower_hex (ck_manifest c)" "is_lower_hex (ck_policy c)"
    using assms(1) identity_hex by (auto simp: valid_checkpoint_def)
  have digits: "d \<notin> set (decimal n)" for n
    using assms(2) decimal_plain [of d n] by (auto simp: is_ascii_digit_def char_le_code)
  show ?thesis
    using assms(2) hex_plain [OF hex(1)] hex_plain [OF hex(2)] hex_plain [OF hex(3)] hex_plain [OF hex(4)] digits
    by (auto simp: checkpoint_words_def bool_text_def)
qed

lemma strip_suffix_append: "strip_suffix p (s @ p) = Some s"
  by (simp add: strip_suffix_def)

lemma checkpoint_round_trip:
  assumes "valid_checkpoint c"
  shows "checkpoint_parse (checkpoint_render c) = Some c"
proof -
  have "split_on (CHR '' '') (join '' '' (checkpoint_words c)) = checkpoint_words c"
    using checkpoint_words_plain [OF assms, of "CHR '' ''"]
    by (intro split_on_join_words) (auto simp: checkpoint_words_def)
  moreover have "parse_complete (bool_text b) = Some b" for b by (simp add: parse_complete_def bool_text_def)
  ultimately show ?thesis
    using assms unfolding checkpoint_parse_def checkpoint_render_words
    by (simp add: strip_suffix_append [of checkpoint_suffix] checkpoint_words_def parse_u8_text valid_checkpoint_def
        result_ok_def del: append_assoc join.simps)
qed

lemma join_plain: "list_all (\<lambda>w. d \<notin> set w) ws \<Longrightarrow> d \<notin> set sep \<Longrightarrow> d \<notin> set (join sep ws)"
  by (induction sep ws rule: join.induct) auto

lemma checkpoint_line:
  assumes "valid_checkpoint c"
  obtains t where "checkpoint_render c = ''<!-- revoot:checkpoint:v1 '' @ t" "nl \<notin> set t" "CHR ''<'' \<notin> set t"
    "last t = CHR ''>''" "t \<noteq> []"
proof
  have plain: "d \<notin> set (join '' '' (checkpoint_words c) @ checkpoint_suffix)" if "d \<in> {nl, CHR ''<''}" for d
    using checkpoint_words_plain [OF assms, of d] that join_plain [of d "checkpoint_words c" "'' ''"]
    by (auto simp: checkpoint_suffix_def)
  show "checkpoint_render c = ''<!-- revoot:checkpoint:v1 '' @ join '' '' (checkpoint_words c) @ checkpoint_suffix"
    by (simp add: checkpoint_render_words checkpoint_prefix_def)
  show "nl \<notin> set (join '' '' (checkpoint_words c) @ checkpoint_suffix)"
    "CHR ''<'' \<notin> set (join '' '' (checkpoint_words c) @ checkpoint_suffix)"
    using plain by blast+
qed (simp_all add: checkpoint_suffix_def)

section \<open>Counting tags\<close>

lemma starts_with_break: "c \<notin> set p \<Longrightarrow> starts_with p (s @ c # t) \<longleftrightarrow> starts_with p s"
proof (induction p arbitrary: s)
  case (Cons x p)
  then show ?case by (cases s) (auto simp: starts_with_def)
qed (simp add: starts_with_def)

lemma tag_count_at: "tag_count p (s @ CHR ''<'' # t) = tag_count p s + tag_count p (CHR ''<'' # t)"
  by (simp add: tag_count_def)

lemma tag_count_tag:
  assumes "CHR ''<'' \<notin> set q"
  shows "tag_count p (CHR ''<'' # q @ t) =
    (if starts_with p (q @ hd (split_on (CHR ''<'') t)) then 1 else 0) + tag_count p t"
  by (simp add: tag_count_def tags_of_tag [OF assms] del: tags_Cons)

lemma tag_count_break:
  assumes "c \<notin> set p" and "c \<noteq> CHR ''<''"
  shows "tag_count p (s @ c # t) = tag_count p s + tag_count p t"
proof -
  have c: "tags (c # t) = tags t" "hd (split_on (CHR ''<'') (c # t)) = c # hd (split_on (CHR ''<'') t)"
    using assms(2) tags_plain [of "[c]" t] by (auto split: list.split)
  show ?thesis
  proof (cases "tags s = []")
    case True
    then show ?thesis using c by (simp add: tag_count_def tags_append_Nil)
  next
    case False
    then have "tags s = butlast (tags s) @ [last (tags s)]" by simp
    then have "filter (starts_with p) (tags s) =
        filter (starts_with p) (butlast (tags s)) @ filter (starts_with p) [last (tags s)]"
      by (metis filter_append)
    moreover have "tags (s @ c # t) = butlast (tags s) @ (last (tags s) @ c # hd (split_on (CHR ''<'') t)) # tags t"
      using tags_append [OF False, of "c # t"] by (simp only: c)
    ultimately show ?thesis
      using starts_with_break [OF assms(1)] by (simp add: tag_count_def)
  qed
qed

lemma tag_count_quiet: "quiet s \<Longrightarrow> tag_count start_tag s = 0" "quiet s \<Longrightarrow> tag_count end_tag s = 0"
  using quiet_count [of s "''-- revoot:overview:v1:start -->''"] quiet_count [of s "''-- revoot:overview:v1:end -->''"]
  by simp_all

lemma overview_tags: "overview_start = CHR ''<'' # start_tag" "overview_end = CHR ''<'' # end_tag"
  by (simp_all add: overview_start_def overview_end_def)

section \<open>A rendered block\<close>

definition valid_metadata :: "review_run_metadata \<Rightarrow> bool" where
  "valid_metadata m \<longleftrightarrow>
     git_sha_try_from (md_commit m) = Inr (md_commit m)
   \<and> (\<forall>c. md_checkpoint m = Some c \<longrightarrow> valid_checkpoint c)"

definition block_body :: "review_overview \<Rightarrow> review_run_metadata \<Rightarrow> string" where
  "block_body o' m =
     render_heading o' @ render_risks (ov_risks o') @ [nl]
       @ escape_text (ov_summary o') @ [nl]
       @ render_list ''Assumptions and gaps'' (ov_assumptions_and_gaps o')
       @ render_list ''Manual validation required'' (ov_manual_validations o')
       @ render_footer m"

definition block_end :: "review_run_metadata \<Rightarrow> string" where
  "block_end m = (case md_checkpoint m of Some c \<Rightarrow> checkpoint_render c @ [nl] | None \<Rightarrow> [])"

lemma rendered_block:
  assumes "render_review_overview o' m = Inr b"
  shows "b = overview_start @ block_body o' m @ block_end m @ overview_end" "length b \<le> max_overview_bytes"
  using assms
  by (auto simp: render_review_overview_def block_body_def block_end_def result_simps Let_def not_less split: if_splits)

lemma quiet_body:
  assumes "valid_metadata m"
  shows "quiet (block_body o' m)"
proof -
  have "is_lower_hex (md_commit m)" using assms identity_hex by (auto simp: valid_metadata_def)
  then have "CHR ''<'' \<notin> set (take 12 (md_commit m))" using hex_plain(3) by (auto dest: in_set_takeD)
  then have commit: "quiet (take 12 (md_commit m))" by (rule quiet_plain)
  have headings: "quiet ''Assumptions and gaps''" "quiet ''Manual validation required''"
    by (rule quiet_literal, simp)+
  show ?thesis
    unfolding block_body_def
    by (intro quiet_append quiet_heading quiet_risks quiet_letters(1) quiet_escaped quiet_list headings
        quiet_footer commit)
qed

lemma block_end_tags:
  assumes "valid_metadata m" and "p \<in> {start_tag, end_tag}"
  shows "tag_count p (s @ block_end m) = tag_count p s"
proof (cases "md_checkpoint m")
  case None
  then show ?thesis by (simp add: block_end_def)
next
  case (Some c)
  then obtain t where t: "checkpoint_render c = ''<!-- revoot:checkpoint:v1 '' @ t" "CHR ''<'' \<notin> set t"
    using checkpoint_line assms(1) by (metis valid_metadata_def)
  have "CHR ''<'' \<notin> set (''!-- revoot:checkpoint:v1 '' @ t @ [nl])" using t(2) by simp
  from tag_count_tag [OF this, of p "[]"]
  have "tag_count p (CHR ''<'' # ''!-- revoot:checkpoint:v1 '' @ t @ [nl]) = 0"
    using assms(2) by (auto simp: starts_with_def tag_count_def)
  then show ?thesis
    using tag_count_at [of p s "''!-- revoot:checkpoint:v1 '' @ t @ [nl]"] Some t(1) by (simp add: block_end_def)
qed

lemma block_tags:
  assumes "valid_metadata m"
  shows "tag_count start_tag (overview_start @ block_body o' m @ block_end m) = 1"
    "tag_count end_tag (overview_start @ block_body o' m @ block_end m) = 0"
proof -
  have free: "CHR ''<'' \<notin> set start_tag" by simp
  show "tag_count start_tag (overview_start @ block_body o' m @ block_end m) = 1"
    using block_end_tags [OF assms, of start_tag "overview_start @ block_body o' m"]
      tag_count_tag [OF free, of start_tag "block_body o' m"] tag_count_quiet(1) [OF quiet_body [OF assms]]
    by (simp add: overview_tags starts_with_def)
  show "tag_count end_tag (overview_start @ block_body o' m @ block_end m) = 0"
    using block_end_tags [OF assms, of end_tag "overview_start @ block_body o' m"]
      tag_count_tag [OF free, of end_tag "block_body o' m"] tag_count_quiet(2) [OF quiet_body [OF assms]]
    by (simp add: overview_tags starts_with_def)
qed

section \<open>Where a description holds the block\<close>

text \<open>The bytes before and after the place of the block, unless the markers are ambiguous.\<close>

definition placement :: "string \<Rightarrow> (string \<times> string) option" where
  "placement d =
     (case (match_prefixes overview_start [] 0 d, match_prefixes overview_end [] 0 d) of
        ([], []) \<Rightarrow> Some (if d = [] then [] else d @ [nl, nl], [])
      | ([before_start], [before_end]) \<Rightarrow>
          if length before_start < length before_end
          then Some (before_start, drop (length before_end + length overview_end) d) else None
      | _ \<Rightarrow> None)"

lemma update_placement:
  "update_description d b =
     (if max_description_bytes < length d \<or> max_overview_bytes < length b
         \<or> \<not> starts_with overview_start b \<or> \<not> ends_with overview_end b
      then Inl InvalidDescription
      else case placement d of
          None \<Rightarrow> Inl AmbiguousMarkers
        | Some (pre, post) \<Rightarrow>
            if max_description_bytes < length (pre @ b @ post) then Inl DescriptionTooLarge else Inr (pre @ b @ post))"
  unfolding update_description_def placement_def
  by (auto simp: reject_if_def split: list.split)

lemma start_matches: "match_prefixes overview_start [] 0 d = [] \<longleftrightarrow> tag_count start_tag d = 0"
    "match_prefixes overview_start [] 0 d = [a] \<longleftrightarrow>
       tag_count start_tag d = 1 \<and> d = a @ overview_start @ drop (length a + length overview_start) d"
  and end_matches: "match_prefixes overview_end [] 0 d = [] \<longleftrightarrow> tag_count end_tag d = 0"
    "match_prefixes overview_end [] 0 d = [a] \<longleftrightarrow>
       tag_count end_tag d = 1 \<and> d = a @ overview_end @ drop (length a + length overview_end) d"
proof -
  have free: "CHR ''<'' \<notin> set start_tag" "CHR ''<'' \<notin> set end_tag" by simp_all
  show "match_prefixes overview_start [] 0 d = [] \<longleftrightarrow> tag_count start_tag d = 0"
    "match_prefixes overview_end [] 0 d = [] \<longleftrightarrow> tag_count end_tag d = 0"
    unfolding overview_tags by (rule match_none, rule free)+
  show "match_prefixes overview_start [] 0 d = [a] \<longleftrightarrow>
       tag_count start_tag d = 1 \<and> d = a @ overview_start @ drop (length a + length overview_start) d"
    "match_prefixes overview_end [] 0 d = [a] \<longleftrightarrow>
       tag_count end_tag d = 1 \<and> d = a @ overview_end @ drop (length a + length overview_end) d"
    using match_one [OF free(1), of d a] match_one [OF free(2), of d a] unfolding overview_tags by simp_all
qed

text \<open>Two markers at different places do not overlap.\<close>

lemma markers_apart:
  assumes "d = a @ (CHR ''<'' # p) @ x" and "d = b @ (CHR ''<'' # q) @ y"
    and "CHR ''<'' \<notin> set p" and "length a < length b"
  shows "\<exists>mid. d = a @ (CHR ''<'' # p) @ mid @ (CHR ''<'' # q) @ y \<and> b = a @ (CHR ''<'' # p) @ mid"
proof -
  have "take (length a) b = a" using assms(1,2,4) by (metis append_eq_append_conv_if less_imp_le_nat)
  then obtain c where c: "b = a @ c" by (metis append_take_drop_id)
  then have eq: "CHR ''<'' # p @ x = c @ CHR ''<'' # q @ y" using assms(1,2) by simp
  have "length p < length c"
  proof (rule ccontr)
    assume "\<not> length p < length c"
    moreover have "0 < length c" using assms(4) c by simp
    ultimately have "(CHR ''<'' # p @ x) ! length c \<in> set p"
      by (cases "length c") (auto simp: nth_append)
    moreover have "(CHR ''<'' # p @ x) ! length c = CHR ''<''" unfolding eq by (simp add: nth_append)
    ultimately show False using assms(3) by simp
  qed
  then have "take (Suc (length p)) c = CHR ''<'' # p"
    using arg_cong [OF eq, of "take (Suc (length p))"] by simp
  then obtain mid where "c = (CHR ''<'' # p) @ mid" by (metis append_take_drop_id)
  then show ?thesis using c assms(2) by auto
qed

lemma placement_Some:
  "placement d = Some (pre, post) \<longleftrightarrow>
     tag_count start_tag d = 0 \<and> tag_count end_tag d = 0 \<and> pre = (if d = [] then [] else d @ [nl, nl]) \<and> post = []
   \<or> (\<exists>mid. d = pre @ overview_start @ mid @ overview_end @ post
        \<and> tag_count start_tag d = 1 \<and> tag_count end_tag d = 1)"
  (is "_ \<longleftrightarrow> ?none \<or> ?held")
proof
  assume "placement d = Some (pre, post)"
  then consider "match_prefixes overview_start [] 0 d = []" "match_prefixes overview_end [] 0 d = []"
      "pre = (if d = [] then [] else d @ [nl, nl])" "post = []"
    | b where "match_prefixes overview_start [] 0 d = [pre]" "match_prefixes overview_end [] 0 d = [b]"
      "length pre < length b" "post = drop (length b + length overview_end) d"
    by (auto simp: placement_def split: list.splits if_splits)
  then show "?none \<or> ?held"
  proof cases
    case 1
    then show ?thesis by (simp add: start_matches end_matches)
  next
    case 2
    have "d = pre @ (CHR ''<'' # start_tag) @ drop (length pre + length overview_start) d"
      "d = b @ (CHR ''<'' # end_tag) @ post"
      using 2 start_matches(2) [of d pre] end_matches(2) [of d b] by (simp_all add: overview_tags)
    from markers_apart [OF this _ 2(3)] show ?thesis
      using 2(1,2) start_matches(2) [of d pre] end_matches(2) [of d b] by (auto simp: overview_tags)
  qed
next
  assume "?none \<or> ?held"
  then show "placement d = Some (pre, post)"
  proof
    assume none: ?none
    then have "match_prefixes overview_start [] 0 d = []" "match_prefixes overview_end [] 0 d = []"
      by (simp_all add: start_matches end_matches)
    then show ?thesis using none by (simp add: placement_def)
  next
    assume ?held
    then obtain mid where d: "d = pre @ overview_start @ mid @ overview_end @ post"
      and counts: "tag_count start_tag d = 1" "tag_count end_tag d = 1" by blast
    have "d = (pre @ overview_start @ mid) @ overview_end @ post" using d by simp
    then have "match_prefixes overview_end [] 0 d = [pre @ overview_start @ mid]"
      unfolding end_matches by (metis append_eq_conv_conj append_assoc counts(2) length_append)
    moreover have "match_prefixes overview_start [] 0 d = [pre]"
      unfolding start_matches using d by (metis append_eq_conv_conj append_assoc counts(1) length_append)
    moreover have "drop (length (pre @ overview_start @ mid) + length overview_end) d = post"
      using d by (metis append_eq_conv_conj append_assoc length_append)
    moreover have "0 < length overview_start" by (simp add: overview_start_def)
    ultimately show ?thesis by (simp add: placement_def)
  qed
qed

lemma marker_counts:
  "length (matches overview_start d) = tag_count start_tag d" "length (matches overview_end d) = tag_count end_tag d"
  unfolding overview_tags by (simp_all add: length_matches)

text \<open>The place stays where it was when a rendered block is put there.\<close>

lemma placement_stays:
  assumes place: "placement d = Some (pre, post)" and m: "valid_metadata m"
    and h: "h = overview_start @ block_body o' m @ block_end m"
  shows "placement (pre @ (h @ overview_end) @ post) = Some (pre, post)"
    and "match_prefixes overview_start [] 0 (pre @ (h @ overview_end) @ post) = [pre]"
    and "match_prefixes overview_end [] 0 (pre @ (h @ overview_end) @ post) = [pre @ h]"
proof -
  have counts: "tag_count start_tag pre = 0 \<and> tag_count end_tag pre = 0
      \<and> tag_count start_tag (overview_end @ post) = 0 \<and> tag_count end_tag (overview_end @ post) = 1"
    using place unfolding placement_Some
  proof
    assume none: "tag_count start_tag d = 0 \<and> tag_count end_tag d = 0 \<and>
      pre = (if d = [] then [] else d @ [nl, nl]) \<and> post = []"
    have "tag_count p (d @ [nl, nl]) = tag_count p d" if "nl \<notin> set p" for p
      using tag_count_break [OF that, of d "[nl]"] tag_count_break [OF that, of "[]" "[]"]
      by (simp add: tag_count_def)
    from this [of start_tag] this [of end_tag] have "tag_count start_tag pre = 0" "tag_count end_tag pre = 0"
      using none by (cases "d = []"; simp add: tag_count_def)+
    moreover have "tag_count start_tag overview_end = 0" "tag_count end_tag overview_end = 1"
      by (simp_all add: tag_count_def tags_def overview_end_def starts_with_def)
    ultimately show ?thesis using none by simp
  next
    assume "\<exists>mid. d = pre @ overview_start @ mid @ overview_end @ post
        \<and> tag_count start_tag d = 1 \<and> tag_count end_tag d = 1"
    then obtain mid where d: "d = pre @ overview_start @ mid @ overview_end @ post"
      and one: "tag_count start_tag d = 1" "tag_count end_tag d = 1" by blast
    have free: "CHR ''<'' \<notin> set start_tag" "CHR ''<'' \<notin> set end_tag" by simp_all
    have sum: "tag_count p d = tag_count p pre + tag_count p (overview_start @ mid) + tag_count p (overview_end @ post)" for p
      using tag_count_at [of p pre "start_tag @ mid @ overview_end @ post"]
        tag_count_at [of p "overview_start @ mid" "end_tag @ post"]
      by (simp only: d overview_tags append_Cons append_assoc)
    have "1 \<le> tag_count start_tag (overview_start @ mid)"
      using tag_count_tag [OF free(1), of start_tag mid] by (simp add: overview_tags starts_with_def)
    moreover have "1 \<le> tag_count end_tag (overview_end @ post)"
      using tag_count_tag [OF free(2), of end_tag post] by (simp add: overview_tags starts_with_def)
    ultimately show ?thesis using sum [of start_tag] sum [of end_tag] one by linarith
  qed
  let ?u = "pre @ (h @ overview_end) @ post"
  have sum: "tag_count p ?u = tag_count p pre + tag_count p h + tag_count p (overview_end @ post)" for p
    using tag_count_at [of p pre "start_tag @ block_body o' m @ block_end m @ overview_end @ post"]
      tag_count_at [of p h "end_tag @ post"]
    by (simp only: h overview_tags append_Cons append_assoc)
  have one: "tag_count start_tag ?u = 1" "tag_count end_tag ?u = 1"
    unfolding sum using counts block_tags [OF m, of o'] by (simp_all add: h)
  let ?body = "block_body o' m @ block_end m"
  have u: "?u = pre @ overview_start @ ?body @ overview_end @ post" "?u = (pre @ h) @ overview_end @ post"
    by (simp_all add: h)
  show "placement ?u = Some (pre, post)"
    unfolding placement_Some using u(1) one by blast
  show "match_prefixes overview_start [] 0 ?u = [pre]"
    unfolding start_matches using u(1) one(1) by (metis append_eq_conv_conj append_assoc length_append)
  show "match_prefixes overview_end [] 0 ?u = [pre @ h]"
    unfolding end_matches using u(2) one(2) by (metis append_eq_conv_conj append_assoc length_append)
qed

text \<open>
  An update of a description succeeds exactly when the block is well formed, the sizes
  are within bounds and the description holds no marker or one start and then one end.  It then
  changes no byte outside the block: the new block stands where the old one stood, or at the end
  after an empty line.
\<close>

theorem update_replaces_only_the_block:
  "update_description d b = Inr u \<longleftrightarrow>
     length d \<le> max_description_bytes \<and> length b \<le> max_overview_bytes \<and> length u \<le> max_description_bytes
   \<and> starts_with overview_start b \<and> ends_with overview_end b
   \<and> (\<exists>pre post. u = pre @ b @ post
        \<and> (matches overview_start d = [] \<and> matches overview_end d = []
              \<and> pre = (if d = [] then [] else d @ [nl, nl]) \<and> post = []
         \<or> (\<exists>mid. d = pre @ overview_start @ mid @ overview_end @ post
              \<and> length (matches overview_start d) = 1 \<and> length (matches overview_end d) = 1)))"
proof -
  have "matches overview_start d = [] \<longleftrightarrow> tag_count start_tag d = 0" "matches overview_end d = [] \<longleftrightarrow> tag_count end_tag d = 0"
    using marker_counts [of d] by auto
  then have "placement d = Some (pre, post) \<longleftrightarrow>
      matches overview_start d = [] \<and> matches overview_end d = []
        \<and> pre = (if d = [] then [] else d @ [nl, nl]) \<and> post = []
    \<or> (\<exists>mid. d = pre @ overview_start @ mid @ overview_end @ post
        \<and> length (matches overview_start d) = 1 \<and> length (matches overview_end d) = 1)" for pre post
    unfolding placement_Some marker_counts by simp
  moreover have "update_description d b = Inr u \<longleftrightarrow>
     length d \<le> max_description_bytes \<and> length b \<le> max_overview_bytes \<and> length u \<le> max_description_bytes
   \<and> starts_with overview_start b \<and> ends_with overview_end b
   \<and> (\<exists>pre post. u = pre @ b @ post \<and> placement d = Some (pre, post))"
    unfolding update_placement
    by (cases "placement d") (auto simp: not_less split: if_splits)
  ultimately show ?thesis by simp
qed

text \<open>
  The last overview wins: whatever block is put into a description that a rendered
  overview was put into before, the result is as if the first had never been there.
\<close>

theorem last_overview_wins:
  assumes "render_review_overview o' m = Inr b" and "valid_metadata m" and "update_description d b = Inr u"
  shows "update_description u c = update_description d c"
proof -
  let ?h = "overview_start @ block_body o' m @ block_end m"
  have b: "b = ?h @ overview_end" using rendered_block(1) [OF assms(1)] by simp
  obtain pre post where place: "placement d = Some (pre, post)" and u: "u = pre @ b @ post"
    and small: "length d \<le> max_description_bytes" "length u \<le> max_description_bytes"
    using assms(3) unfolding update_placement by (auto simp: not_less split: if_splits option.splits)
  have "placement u = Some (pre, post)"
    using placement_stays(1) [OF place assms(2) refl] by (simp add: u b)
  then show ?thesis using place small unfolding update_placement by (simp add: not_less)
qed

section \<open>Reading the checkpoint back\<close>

text \<open>\<open>str::lines\<close> of two parts at a line feed; no line of quiet text is a checkpoint.\<close>

definition chomp :: "string \<Rightarrow> string" where
  "chomp l = (case strip_suffix [ret] l of None \<Rightarrow> l | Some l' \<Rightarrow> l')"

lemma str_lines_parts:
  assumes "last (split_on nl (s @ nl # t)) \<noteq> []"
  shows "str_lines (s @ nl # t) = map chomp (split_on nl s) @ map chomp (split_on nl t)"
  using assms by (simp add: str_lines_def Let_def chomp_def split_on_at)

lemma chomp_prefix: "starts_with p (chomp l) \<Longrightarrow> starts_with p l"
  by (auto simp: chomp_def strip_suffix_def strip_prefix_Some starts_with_append rev_eq_append_conv split: option.splits)

lemma no_markers:
  assumes "\<forall>l \<in> set ls. \<not> starts_with p l"
  shows "filter (starts_with p) (map chomp ls) = []"
  using assms chomp_prefix by (auto simp: filter_empty_conv)

lemma checkpoint_prefix_tag: "checkpoint_prefix = CHR ''<'' # CHR ''!'' # ''-- revoot:checkpoint:v1 ''"
  by (simp add: checkpoint_prefix_def)

lemma render_heading_nl: "\<exists>t. render_heading o' = nl # t"
  by (simp add: render_heading_def)

lemma block_lines:
  assumes "valid_metadata m"
  shows "filter (starts_with checkpoint_prefix)
      (str_lines (overview_start @ block_body o' m @ block_end m @ overview_end)) =
    (case md_checkpoint m of None \<Rightarrow> [] | Some c \<Rightarrow> [checkpoint_render c])"
proof -
  obtain t where t: "render_heading o' = nl # t" using render_heading_nl by blast
  obtain body where body: "block_body o' m = nl # body @ [nl]"
    by (auto simp: block_body_def t render_footer_def)
  have body_lines: "\<forall>l \<in> set (split_on nl body). \<not> starts_with checkpoint_prefix l"
  proof
    fix l assume "l \<in> set (split_on nl body)"
    then have "l \<in> set (split_on nl (block_body o' m))"
      unfolding body using split_on_at [of nl "[]" "body @ [nl]"] split_on_at [of nl body "[]"] by simp
    then show "\<not> starts_with checkpoint_prefix l"
      unfolding checkpoint_prefix_tag by (rule quiet_line [OF quiet_body [OF assms]])
  qed
  have ends: "\<forall>l \<in> set (split_on nl overview_start). \<not> starts_with checkpoint_prefix l"
    "\<forall>l \<in> set (split_on nl overview_end). \<not> starts_with checkpoint_prefix l"
    by (simp_all add: overview_start_def overview_end_def checkpoint_prefix_def starts_with_def)
  have end_last: "last (split_on nl (s @ nl # overview_end)) \<noteq> []" for s
    unfolding split_on_at by (simp add: overview_end_def)
  have head: "split_on nl (overview_start @ nl # body) = split_on nl overview_start @ split_on nl body"
    by (rule split_on_at)
  show ?thesis
  proof (cases "md_checkpoint m")
    case None
    then have "overview_start @ block_body o' m @ block_end m @ overview_end =
        (overview_start @ nl # body) @ nl # overview_end" (is "?block = ?parts")
      by (simp add: body block_end_def)
    moreover have "str_lines ?parts =
        map chomp (split_on nl overview_start) @ map chomp (split_on nl body) @ map chomp (split_on nl overview_end)"
      unfolding str_lines_parts [OF end_last] head by simp
    ultimately have "str_lines ?block =
        map chomp (split_on nl overview_start) @ map chomp (split_on nl body) @ map chomp (split_on nl overview_end)"
      by (simp only:)
    then show ?thesis using no_markers [OF body_lines] no_markers [OF ends(1)] no_markers [OF ends(2)] None
      by (simp only: filter_append append_Nil option.case)
  next
    case (Some c)
    then have c: "valid_checkpoint c" using assms by (simp add: valid_metadata_def)
    then obtain t where t: "checkpoint_render c = ''<!-- revoot:checkpoint:v1 '' @ t" "nl \<notin> set t"
      "last t = CHR ''>''" "t \<noteq> []"
      using checkpoint_line by metis
    have line: "split_on nl (checkpoint_render c) = [checkpoint_render c]"
      using t by (intro split_on_word) simp
    obtain t' where "t = t' @ ''>''" using t(3,4) by (metis append_butlast_last_id)
    then have "strip_suffix [ret] (checkpoint_render c) = None" by (simp add: t(1) strip_suffix_def)
    then have whole: "chomp (checkpoint_render c) = checkpoint_render c" by (simp add: chomp_def)
    have marked: "starts_with checkpoint_prefix (checkpoint_render c)"
      using t(1) by (simp add: checkpoint_prefix_def starts_with_append)
    have "overview_start @ block_body o' m @ block_end m @ overview_end =
        ((overview_start @ nl # body) @ nl # checkpoint_render c) @ nl # overview_end" (is "?block = ?parts")
      using Some by (simp add: body block_end_def)
    moreover have "str_lines ?parts =
        map chomp (split_on nl overview_start) @ map chomp (split_on nl body) @ [checkpoint_render c]
        @ map chomp (split_on nl overview_end)"
      unfolding str_lines_parts [OF end_last] split_on_at [of nl "overview_start @ nl # body"] head line
      by (simp add: whole)
    ultimately have "str_lines ?block =
        map chomp (split_on nl overview_start) @ map chomp (split_on nl body) @ [checkpoint_render c]
        @ map chomp (split_on nl overview_end)"
      by (simp only:)
    then show ?thesis
      using no_markers [OF body_lines] no_markers [OF ends(1)] no_markers [OF ends(2)] Some marked
      by (simp only: filter_append filter.simps append_Nil append_Nil2 option.case if_True)
  qed
qed

text \<open>
  A checkpoint survives its description: when a rendered overview has been put into any
  description, what is extracted from the result is exactly the checkpoint it was rendered with,
  whatever the texts of the overview and of the description say.
\<close>

theorem checkpoint_survives:
  assumes "render_review_overview o' m = Inr b" and "valid_metadata m" and "update_description d b = Inr u"
  shows "extract_checkpoint u = md_checkpoint m"
proof -
  let ?h = "overview_start @ block_body o' m @ block_end m"
  have b: "b = ?h @ overview_end" using rendered_block(1) [OF assms(1)] by simp
  obtain pre post where place: "placement d = Some (pre, post)" and u: "u = pre @ b @ post"
    using assms(3) unfolding update_placement by (auto split: if_splits option.splits)
  have matched: "match_prefixes overview_start [] 0 u = [pre]" "match_prefixes overview_end [] 0 u = [pre @ ?h]"
    using placement_stays(2,3) [OF place assms(2) refl] by (simp_all add: u b)
  have "0 < length ?h" by (simp add: overview_start_def)
  then have "\<not> length (pre @ ?h) \<le> length pre" by simp
  moreover have "drop (length pre) (take (length (pre @ ?h) + length overview_end) u) = ?h @ overview_end"
    by (simp add: u b)
  ultimately have "extract_checkpoint u =
      (case filter (starts_with checkpoint_prefix) (str_lines (?h @ overview_end)) of
         [marker] \<Rightarrow> checkpoint_parse marker | _ \<Rightarrow> None)"
    unfolding extract_checkpoint_def matched by (simp only: prod.case list.case if_False Let_def)
  moreover have "filter (starts_with checkpoint_prefix) (str_lines (?h @ overview_end)) =
      (case md_checkpoint m of None \<Rightarrow> [] | Some c \<Rightarrow> [checkpoint_render c])"
    using block_lines [OF assms(2), of o'] by simp
  ultimately show ?thesis
    using assms(2) checkpoint_round_trip by (auto simp: valid_metadata_def split: option.splits)
qed

section \<open>Attention\<close>

text \<open>
  Attention is incremental exactly for a complete checkpoint of the same base and the
  current policy, not too many generations old, whose head is an ancestor of the new head in the
  local history; it is then on exactly the changed paths whose object differs between the two
  heads, at least one and at most a thousand.
\<close>

theorem incremental_exactly:
  "plan_attention sha host root base head paths checkpoint = Incremental previous delta generation \<longleftrightarrow>
     (\<exists>c e old new. checkpoint = Some c \<and> ck_complete c \<and> ck_base c = base \<and> ck_policy c = current_policy_digest sha
        \<and> ck_generation c < max_incremental_generation \<and> ck_head c \<noteq> head
        \<and> embedded_discover host root = Inr e
        \<and> merge_base host (er_repository e) (ck_head c) head = Inr (ck_head c)
        \<and> base_files host (er_repository e) (ck_head c) = Inr old \<and> base_files host (er_repository e) head = Inr new
        \<and> previous = ck_head c \<and> generation = ck_generation c
        \<and> set delta = {p \<in> paths. map_of old p \<noteq> map_of new p}
        \<and> sorted delta \<and> distinct delta \<and> delta \<noteq> [] \<and> length delta \<le> max_delta_paths)"
proof -
  let ?keys = "\<lambda>old new :: (string, 'a) btree. fold bs_insert (bt_keys old @ bt_keys new) []"
  let ?delta = "\<lambda>old new :: (string, 'a) btree. filter (\<lambda>p. map_of old p \<noteq> map_of new p \<and> p \<in> paths) (?keys old new)"
  have sorted_keys: "sorted (fold bs_insert ks ys)" if "sorted ys" for ks ys :: "string list"
    using that by (induction ks arbitrary: ys) (auto simp: sorted_bs_insert)
  have delta: "sorted (?delta old new)" "distinct (?delta old new)"
    "set (?delta old new) = {p \<in> paths. map_of old p \<noteq> map_of new p}" for old new
  proof -
    show "sorted (?delta old new)" by (intro sorted_wrt_filter sorted_keys) simp
    show "distinct (?delta old new)" by (intro distinct_filter) simp
    have "p \<in> set (bt_keys old) \<union> set (bt_keys new)" if "map_of old p \<noteq> map_of new p" for p
      using that map_of_eq_None_iff [of old p] map_of_eq_None_iff [of new p] by (auto simp: bt_keys_def)
    then show "set (?delta old new) = {p \<in> paths. map_of old p \<noteq> map_of new p}" by auto
  qed
  have unique: "ps = ?delta old new \<longleftrightarrow>
      set ps = {p \<in> paths. map_of old p \<noteq> map_of new p} \<and> sorted ps \<and> distinct ps" (is "_ \<longleftrightarrow> ?as_set ps")
    for ps old new
  proof
    show "?as_set ps" if "ps = ?delta old new" unfolding that using delta [of old new] by (intro conjI)
    show "ps = ?delta old new" if "?as_set ps"
      using that delta [of old new] by (intro sorted_distinct_set_unique) simp_all
  qed
  have ok: "result_ok r = Some x \<longleftrightarrow> r = Inr x" for r :: "embedded_git_error + git_sha" and x
    by (cases r) (auto simp: result_ok_def)
  show ?thesis
  proof (cases checkpoint)
    case None
    then show ?thesis by (simp add: plan_attention_def)
  next
    case (Some c)
    show ?thesis
    proof (cases "embedded_discover host root")
      case (Inl e)
      then show ?thesis by (simp add: plan_attention_def Some)
    next
      case (Inr e)
      let ?old = "base_files host (er_repository e) (ck_head c)" and ?new = "base_files host (er_repository e) head"
      have "plan_attention sha host root base head paths checkpoint = Incremental previous delta generation \<longleftrightarrow>
          ck_complete c \<and> ck_base c = base \<and> ck_policy c = current_policy_digest sha
        \<and> ck_generation c < max_incremental_generation \<and> ck_head c \<noteq> head
        \<and> merge_base host (er_repository e) (ck_head c) head = Inr (ck_head c)
        \<and> (\<exists>old new. ?old = Inr old \<and> ?new = Inr new \<and> delta = ?delta old new \<and> delta \<noteq> []
            \<and> length delta \<le> max_delta_paths \<and> previous = ck_head c \<and> generation = ck_generation c)"
        unfolding plan_attention_def Some Inr
        by (cases ?old; cases ?new) (auto simp: Let_def not_less not_le ok)
      then show ?thesis unfolding unique Some Inr by auto
    qed
  qed
qed

section \<open>Witnesses\<close>

definition example_overview :: review_overview where
  "example_overview =
     \<lparr>ov_summary = ''s'', ov_overall_risk = RiskLow, ov_overall_basis = ''b'', ov_risks = [],
      ov_assumptions_and_gaps = [], ov_manual_validations = []\<rparr>"

definition example_checkpoint :: review_checkpoint where
  "example_checkpoint =
     \<lparr>ck_base = replicate 40 (CHR ''a''), ck_head = replicate 40 (CHR ''b''), ck_manifest = replicate 64 (CHR ''c''),
      ck_policy = replicate 64 (CHR ''d''), ck_complete = True, ck_generation = 1\<rparr>"

definition example_metadata :: review_run_metadata where
  "example_metadata =
     \<lparr>md_provider_model = ''p/m'', md_commit = replicate 40 (CHR ''b''), md_commit_url = ''https://h/c'',
      md_job_url = None, md_checkpoint = Some example_checkpoint\<rparr>"

lemma example_metadata_valid: "valid_metadata example_metadata"
  by (simp add: valid_metadata_def valid_checkpoint_def example_metadata_def example_checkpoint_def
      git_sha_try_from_def sha256_digest_try_from_def git_sha_min_len_def git_sha_max_len_def sha256_hex_len_def
      is_lower_hex_def list_all_iff)

lemma example_rendered: "\<exists>b. render_review_overview example_overview example_metadata = Inr b"
proof -
  have valid: "overview_validate example_overview = Inr ()"
    by (simp add: overview_validate_def example_overview_def valid_line_def trim_def chunk_whitespace_def
        char_width_def char_is_whitespace_def char_is_control_def max_overview_summary_bytes_def max_basis_bytes_def
        ascii_lowercase_def to_ascii_lowercase_def is_ascii_uppercase_def starts_with_def max_risk_rows_def
        max_assumptions_def max_manual_validations_def)
  have "length (decimal (unat (1 :: u8))) = 1" by (simp add: numeral_text.simps)
  then have "length (overview_start @ block_body example_overview example_metadata @ block_end example_metadata @ overview_end)
      \<le> max_overview_bytes"
    by (simp add: block_body_def block_end_def overview_start_def overview_end_def render_heading_def render_risks_def
        render_list_def render_footer_def example_overview_def example_metadata_def example_checkpoint_def
        checkpoint_render_def checkpoint_prefix_def checkpoint_suffix_def bool_text_def escape_text_def escape_char_def
        escape_attribute_def replace_char_def revoot_homepage_def package_version_def max_overview_bytes_def)
  then show ?thesis
    using valid by (simp add: render_review_overview_def block_body_def block_end_def Let_def)
qed

lemma example_updated:
  assumes "render_review_overview o' m = Inr b"
  shows "update_description [] b = Inr b"
proof -
  have b: "b = overview_start @ (block_body o' m @ block_end m) @ overview_end" "length b \<le> max_overview_bytes"
    using rendered_block [OF assms] by simp_all
  then have "starts_with overview_start b" "ends_with overview_end b"
    unfolding ends_with_def starts_with_append b(1) rev_append by (metis append_assoc)+
  moreover have "placement [] = Some ([], [])" by (simp add: placement_def)
  ultimately show ?thesis
    using b(2) by (simp add: update_placement max_overview_bytes_def max_description_bytes_def)
qed

lemma checkpoint_survives_witness:
  "\<exists>b. render_review_overview example_overview example_metadata = Inr b
    \<and> extract_checkpoint b = Some example_checkpoint"
proof -
  obtain b where b: "render_review_overview example_overview example_metadata = Inr b" using example_rendered by blast
  from checkpoint_survives [OF b example_metadata_valid example_updated [OF b]]
  show ?thesis using b by (simp add: example_metadata_def)
qed

lemma last_overview_wins_witness:
  "\<exists>b. render_review_overview example_overview example_metadata = Inr b
    \<and> update_description b overview_start = update_description [] overview_start"
proof -
  obtain b where b: "render_review_overview example_overview example_metadata = Inr b" using example_rendered by blast
  from last_overview_wins [OF b example_metadata_valid example_updated [OF b]] show ?thesis using b by blast
qed

end
