(* ===== verification/Spec2Isabelle.thy ===== *)
theory Spec2Isabelle
  imports
    Prelude Ordered_Map Text
    Execution_Graph Execution_Runtime
    Agent_Budget
    Snapshot Assessment Assessment_Complete Anchors
    Diff Diff_Parsed
    Text_Search Findings Findings_Ranked
    Provider Agent_Run Agent_Lifecycle Agent_Protocol
    Publication Publication_Planned Publication_Decided Journal
    Review_Value Partition Partition_Replayed Partition_Built
    Egress Egress_Enforced
    Review_History
    Evaluation Evaluation_Gated
    Repository Repository_Inventory Repository_Tools
    Configuration Configuration_Resolved
    Address_Text Gitlab_Context Gitlab_Origin_Canonical Gitlab_Context_Verified
    Gitlab_Wire Gitlab_Wire_Records Gitlab_Wire_Complete Gitlab_Wire_Bound
    Embedded_Git Git_History Git_History_Honest Review_Overview Overview_Kept
begin

text \<open>
  Revoot is an automatic code reviewer for GitLab and GitHub changes, written in Rust.  Its domain
  core, \<open>crates/revoot-core\<close>, is a library of pure, bounded, fail-closed rules; the binary crate
  \<open>crates/revoot\<close> drives it with transports, checkouts and a command line.  The development models
  every module of the core and the modules of the binary named below, operation by operation, with
  the theorems that make each of them correct.

  \<^bold>\<open>How the parts interact.\<close>  A review reads the untrusted CI environment and an observed merge
  request and verifies them against the trusted selection (\<open>gitlab_context.rs\<close>).  GitLab responses
  are parsed within limits and their pages collected (\<open>gitlab_wire.rs\<close>) into evidence, which is
  assessed, bound to the newest diff version and given opaque anchors (\<open>snapshot.rs\<close>); the anchors
  come from the lines of the parsed diffs (\<open>diff.rs\<close>).  The changed files are selected and packed
  into work units (\<open>partition.rs\<close>).  An execution graph (\<open>execution_graph.rs\<close>) orders the tasks; an
  agent run (\<open>agent.rs\<close>) takes provider turns (\<open>provider.rs\<close>) and tool calls on the checkout
  (\<open>repository.rs\<close>) within one budget ledger and under a cancellation token.  The candidates it
  submits are validated, ranked and rendered against the anchors (\<open>findings.rs\<close>), with earlier
  discussions as context (\<open>review_history.rs\<close>); what is to be published is planned against the
  inventory of the bot's notes and executed through a journal that survives crashes
  (\<open>publication.rs\<close>).  Every request leaves through the egress policy (\<open>egress.rs\<close>); the
  configuration is resolved from layers under a policy (\<open>config.rs\<close>); the corpus of expected
  findings gates a release (\<open>evaluation.rs\<close>).

  \<^bold>\<open>Conventions.\<close>  A Rust struct is a \<open>record\<close>, an enum a \<open>datatype\<close> with the constructors of the
  source (suffixed where two enums share one), a function a definition of its name.  \<open>u8\<close> to \<open>u64\<close>
  are words of their width, with \<open>checked_add\<close>, \<open>saturating_add\<close> and the conversions of the source
  written out in Prelude; \<open>usize\<close> is a natural number, since it counts values in memory.  A \<open>String\<close>
  and a byte slice are lists of bytes (\<open>char\<close>), with UTF-8 validity, characters, trimming, splitting
  and lines defined on bytes in Text and Text_Search.  A \<open>Result\<close> is a sum, \<open>Inl\<close> the error, and \<open>?\<close>
  is \<open>and_then\<close>; where the source can panic (an index, a slice inside a character, \<open>unreachable!\<close>,
  \<open>expect\<close>, an overflow) the error is of the type \<open>fault\<close>, either the error returned or \<open>Panicked\<close>.
  A method on \<open>&mut self\<close> takes and returns the state, so what an error path has already changed is
  in the result.  A \<open>BTreeMap\<close> or \<open>BTreeSet\<close> is a list of entries in key order, or a set where no
  order is observed; its interface is the locale of Ordered_Map, interpreted on that
  implementation, and the loops that build maps are proved correct in it once.

  \<^bold>\<open>Parameters.\<close>  Code that is not in the repository is an argument of the definitions that use it,
  and nothing is assumed of it unless a theorem says so: SHA-256 (\<open>sha\<close>; a theorem that needs
  collision freedom has it as a hypothesis), Unicode lower-casing (\<open>lower\<close>), the JSON encoder and
  decoder (\<open>codec\<close>, \<open>json\<close>), the URL parser (\<open>url\<close>), what the Git library answers
  (\<open>gix_repository\<close>, \<open>git_host\<close>), the provider adapter, admission hook and clock of a run, and the operating
  system's file operations (\<open>file_system\<close>, a record of what each call observes, which may change
  between calls).

  \<^bold>\<open>Theories and source files\<close> (all under \<open>crates/revoot-core/src\<close>):

  \<^item> Prelude, Ordered_Map, Text, Text_Search, Address_Text: results, loops, machine integers, ordered
    maps, UTF-8 text, and the number and IP address syntax of the standard library.
  \<^item> Execution_Graph (\<open>execution_graph.rs\<close>): plan validation with Kahn's algorithm and the runtime.
    Execution_Runtime: a plan is accepted exactly when it is well formed and acyclic; reachability,
    nodes start after their dependencies, every run ends and one without failures can complete.
  \<^item> Snapshot, Assessment, Anchors (\<open>snapshot.rs\<close>): identities, pagination evidence, the binding to a
    version, the assessment of completeness, and anchors.  Assessment_Complete: a complete
    assessment is exactly complete evidence and covers every file, blob and byte; anchor ids
    determine identity and line and resolve under one snapshot only.
  \<^item> Diff (\<open>diff.rs\<close>), Diff_Parsed: hunks account for exactly the declared ranges; which errors and
    which panic can occur.
  \<^item> Provider (\<open>provider.rs\<close>), Agent_Budget and Agent_Run (\<open>agent.rs\<close>), Agent_Lifecycle, Agent_Protocol:
    the ledger never exceeds a limit; run and ledger agree in every reachable state, and a finished
    run refuses every method; every call makes the events of a three-state turn protocol that are
    listed for it; the accepted calls that do something are bounded by the limits; a finished
    review has a valid invocation and authorized candidates, and a cancelled run never succeeds.
  \<^item> Findings (\<open>findings.rs\<close>), Findings_Ranked: acceptance, the best finding of each key, and bodies
    that carry no marker of the publisher.
  \<^item> Publication, Journal (\<open>publication.rs\<close>), Publication_Planned, Publication_Decided: markers, which
    inputs are planned, what a plan decides from the notes the bot itself wrote, and the journal,
    whose every reachable state replays and which authorizes an action again only after a clean
    inventory.
  \<^item> Review_Value, Partition (\<open>partition.rs\<close>), Partition_Replayed, Partition_Built: path roles and
    value, selection, packing and replay; every file is accounted for once, and replay is bounded.
    Only new paths are checked for sensitivity: a renamed secret reaches a work unit.
  \<^item> Egress (\<open>egress.rs\<close>), Egress_Enforced: admission and pinning to the observed addresses, and the
    classification of addresses as a table of CIDR blocks.
  \<^item> Review_History (\<open>review_history.rs\<close>) and Evaluation (\<open>evaluation.rs\<close>), Evaluation_Gated: the
    earlier discussions that are kept, and the release gate in exact arithmetic.
  \<^item> Repository (\<open>repository.rs\<close>), Repository_Inventory, Repository_Tools: the walk over the checkout,
    reading and searching, against an adversarial file system.
  \<^item> Configuration (\<open>config.rs\<close>), Configuration_Resolved: resolution obeys schema and policy and never
    reaches an \<open>unreachable!\<close>.
  \<^item> Gitlab_Context (\<open>gitlab_context.rs\<close>), Gitlab_Origin_Canonical, Gitlab_Context_Verified: origins,
    project paths and refs, the CI hint and its verification.
  \<^item> Gitlab_Wire, Gitlab_Wire_Records (\<open>gitlab_wire.rs\<close>), Gitlab_Wire_Complete, Gitlab_Wire_Bound:
    headers, pagination and bodies; collected pages are complete, honest paging is collected, blobs
    are bound to request and digest, the inventory is every note.

  Of the binary, under \<open>crates/revoot/src\<close>:

  \<^item> Embedded_Git (\<open>embedded_git.rs\<close>), Git_History (\<open>git_history.rs\<close>), Git_History_Honest: the read-only
    boundary over the Git library, whose answers are the records \<open>gix_repository\<close> and \<open>git_host\<close>, and
    the history tools: the opened range is the walk from the head without the base, cut only when
    the coverage says so, a commit outside it is never shown, and every result is charged.
  \<^item> Review_Overview (\<open>review_overview.rs\<close>, \<open>review_checkpoint.rs\<close>), Overview_Kept: the overview block
    in a description; an update changes no byte outside the one owned block, a rendered checkpoint
    is read back whatever the texts around it say, and attention is incremental exactly for a
    verified checkpoint and on exactly the paths that changed since.

  \<^bold>\<open>Termination and bounds.\<close>  Every definition is total.  Loops over a finite list are structural
  recursion or \<open>try_fold\<close>; Kahn's loop, the packing of units, UTF-8 decoding and the number printers
  have their own measures.  The walk over the checkout has an adversarial file system below it and
  no structural bound: its definition is bounded by the number of entries the limits let it
  visit, which the source's own counter enforces, so no fuel is added to what the code does.  The
  bounds on bytes and items are the source's constants.

  \<^bold>\<open>Not modelled.\<close>  Serde derives, \<open>Debug\<close> and \<open>Display\<close> text and the error descriptions of the core
  (\<open>error.rs\<close>), the re-exports of \<open>lib.rs\<close>, the adapter trait and stream events of \<open>provider.rs\<close>
  (an interface without code), and the tests.  Of the binary, what is not listed above is transport,
  processes, files and the command line: HTTP clients and asynchronous pagination loops
  (\<open>gitlab_transport.rs\<close>, \<open>github_transport.rs\<close>, \<open>gitlab_snapshot.rs\<close>, \<open>gitlab_publication.rs\<close>,
  \<open>github_review.rs\<close>), the orchestration of a run (\<open>review_command.rs\<close>, \<open>review_engine.rs\<close>), the
  provider adapters, and the set-up and completion commands; they call the rules of the core, which are modelled.
\<close>

end
